(* ===== verification/Go_Prelude.thy ===== *)
theory Go_Prelude
  imports Main "HOL-Library.Word" "HOL-Library.List_Lexorder" "HOL-Library.Char_ord"
begin

text \<open>
  The prelude of the development: the Go values that every component uses (times, durations,
  machine integers, strings, errors, results, maps and their iteration order) and the generic
  lemmas on them.  Nothing here models a file of the repository except the sentinel errors, which
  the packages declare with \<^verbatim>\<open>errors.New\<close> and compare with \<^verbatim>\<open>errors.Is\<close>.
\<close>

named_theorems op_defs \<open>defining equations of the modelled operations\<close>
named_theorems inv_intros \<open>invariants that the operations establish or keep\<close>

section \<open>Times and machine integers\<close>

text \<open>
  A \<^verbatim>\<open>time.Time\<close> is the number of nanoseconds since Go's zero time (1 January of year 1, UTC), so
  that \<^verbatim>\<open>t.IsZero()\<close> is \<open>t = 0\<close>, \<^verbatim>\<open>t.Before(u)\<close> is \<open>t < u\<close>, \<^verbatim>\<open>t.After(u)\<close> is \<open>u < t\<close> and \<^verbatim>\<open>t.Add(d)\<close>
  is \<open>t + d\<close>.  \<^verbatim>\<open>UTC()\<close> changes the location only and is the identity here.
\<close>

type_synonym gotime = int
type_synonym duration = int
type_synonym uint64 = "64 word"
type_synonym uint32 = "32 word"
type_synonym uint16 = "16 word"
type_synonym bytes = "8 word list"

abbreviation IsZero :: "gotime \<Rightarrow> bool" where
  "IsZero t \<equiv> t = 0"

abbreviation Millisecond :: duration where
  "Millisecond \<equiv> 1000000"

abbreviation Second :: duration where
  "Second \<equiv> 1000000000"

text \<open>Seconds between Go's zero time and the Unix epoch.\<close>

definition unixToInternal :: int where
  "unixToInternal = 62135596800"

definition Unix :: "gotime \<Rightarrow> int" where
  "Unix t = t div Second - unixToInternal"

definition UnixMilli :: "gotime \<Rightarrow> int" where
  "UnixMilli t = t div Millisecond - unixToInternal * 1000"

definition timeUnix :: "int \<Rightarrow> gotime" where
  "timeUnix s = (s + unixToInternal) * Second"

text \<open>Two's complement wrap-around of a signed 64-bit result.\<close>

definition s64 :: "int \<Rightarrow> int" where
  "s64 x = signed_take_bit 63 x"

definition in_s64 :: "int \<Rightarrow> bool" where
  "in_s64 x \<longleftrightarrow> - (2 ^ 63) \<le> x \<and> x < 2 ^ 63"

lemma s64_id [simp]: "in_s64 x \<Longrightarrow> s64 x = x"
  unfolding s64_def in_s64_def by (rule signed_take_bit_int_eq_self) auto

lemma s64_in_range [simp]: "in_s64 (s64 x)"
  unfolding s64_def in_s64_def
  by (intro conjI signed_take_bit_int_greater_eq_minus_exp signed_take_bit_int_less_exp)

lemma Unix_timeUnix [simp]: "Unix (timeUnix s) = s"
  by (simp add: Unix_def timeUnix_def)

section \<open>Errors and results\<close>

text \<open>
  A Go error is a package-level sentinel, an error made in place (it is equal to no sentinel), or
  \<^verbatim>\<open>fmt.Errorf("...: %w", err)\<close>, which wraps another.  \<^verbatim>\<open>errors.Is\<close> walks the chain of wrappers.
\<close>

datatype (plugins only: code) sentinel =
    ErrSessionNotFound | ErrInvalidResumeToken | ErrSessionExpiry | ErrSessionConflict
  | ErrCircuitOpen | ErrRateLimited
  | ErrConnectionClosed | ErrRequestTimeout
  | ErrRoomNotFound | ErrInvalidRoom | ErrDuplicateRoom | ErrPlayerNotInRoom
  | ErrDuplicatePlayer | ErrInvalidPlayerState
  | ErrPlayerNotFound | ErrAssetNotFound | ErrInvalidPlayer | ErrInvalidSettlement
  | ErrSettlementNotFound | ErrSettlementApplied | ErrSettlementConflict | ErrInsufficientCurrency
  | ErrAccountNotFound | ErrIdentityNotFound | ErrInvalidAccount | ErrInvalidIdentity
  | ErrInvalidToken | ErrPlayerLinked | ErrInvalidIdempotency | ErrIdempotencyConflict
  | ErrIdempotencyLeaseLost | ErrIdempotencyNotFound
  | ErrCollectionRequired | ErrTransactionRequired | ErrMongoClientRequired | ErrTransactionFuncNil
  | ErrAuthenticationServiceUnavailable
  | ErrNoDocuments | ErrDuplicateKey | RedisNil
  | ContextCanceled | ContextDeadlineExceeded

datatype go_error = Sentinel sentinel | NewError string | Wrapf string go_error

fun errors_is :: "go_error \<Rightarrow> sentinel \<Rightarrow> bool" where
  "errors_is (Sentinel s) t = (s = t)"
| "errors_is (NewError _) t = False"
| "errors_is (Wrapf _ e) t = errors_is e t"

type_synonym 'a result = "go_error + 'a"

section \<open>Maps and their iteration order\<close>

text \<open>
  A Go map is a partial function.  The order in which \<^verbatim>\<open>range\<close> visits its keys is unspecified, so a
  definition that ranges over a map takes the order as an argument: a function from the map to a
  list of its keys.  \<open>range_ok\<close> is what the language promises of it.
\<close>

definition iterates :: "('k \<rightharpoonup> 'v) \<Rightarrow> 'k list \<Rightarrow> bool" where
  "iterates m ks \<longleftrightarrow> distinct ks \<and> set ks = dom m"

definition range_ok :: "(('k \<rightharpoonup> 'v) \<Rightarrow> 'k list) \<Rightarrow> bool" where
  "range_ok it \<longleftrightarrow> (\<forall>m. finite (dom m) \<longrightarrow> iterates m (it m))"

lemma range_ok_iterates: "range_ok it \<Longrightarrow> finite (dom m) \<Longrightarrow> iterates m (it m)"
  by (simp add: range_ok_def)

lemma iterates_set: "iterates m ks \<Longrightarrow> set ks = dom m"
  by (simp add: iterates_def)

lemma iterates_distinct: "iterates m ks \<Longrightarrow> distinct ks"
  by (simp add: iterates_def)

section \<open>Strings\<close>

text \<open>A separator that occurs in neither prefix splits a string in one way.\<close>

lemma sep_inject: "z \<notin> set a \<Longrightarrow> z \<notin> set b \<Longrightarrow> a @ z # x = b @ z # y \<longleftrightarrow> a = b \<and> x = y"
proof (induction a arbitrary: b)
  case Nil
  then show ?case by (cases b) auto
next
  case (Cons c a)
  then show ?case by (cases b) auto
qed

section \<open>Decimal numerals\<close>

text \<open>\<^verbatim>\<open>%d\<close> of an unsigned integer.\<close>

fun show_nat :: "nat \<Rightarrow> string" where
  "show_nat n = (if n < 10 then [char_of (48 + n)]
     else show_nat (n div 10) @ [char_of (48 + n mod 10)])"

declare show_nat.simps [simp del]

definition digit :: "char \<Rightarrow> bool" where
  "digit c \<longleftrightarrow> 48 \<le> (of_char c :: nat) \<and> (of_char c :: nat) \<le> 57"

lemma digit_char_of: "n < 10 \<Longrightarrow> digit (char_of (48 + n :: nat))"
  by (simp add: digit_def)

lemma show_nat_digits: "\<forall>c \<in> set (show_nat n). digit c"
  by (induction n rule: show_nat.induct) (subst show_nat.simps, auto simp: digit_char_of)

lemma show_nat_nonempty [simp]: "show_nat n \<noteq> []"
  by (subst show_nat.simps) simp

text \<open>Reading the digits back.\<close>

definition read_nat :: "string \<Rightarrow> nat" where
  "read_nat s = foldl (\<lambda>n c. 10 * n + (of_char c - 48)) 0 s"

lemma read_show_nat [simp]: "read_nat (show_nat n) = n"
proof (induction n rule: show_nat.induct)
  case (1 n)
  then show ?case
    by (subst show_nat.simps) (auto simp: read_nat_def)
qed

lemma show_nat_inject [simp]: "show_nat m = show_nat n \<longleftrightarrow> m = n"
  by (metis read_show_nat)

section \<open>Saturating time differences\<close>

text \<open>\<^verbatim>\<open>t.Sub(u)\<close> and \<^verbatim>\<open>time.Until(t)\<close> (with the clock reading \<open>u\<close>) saturate at the 64-bit range.\<close>

definition Sub :: "gotime \<Rightarrow> gotime \<Rightarrow> duration" where
  "Sub t u = max (- (2 ^ 63)) (min (2 ^ 63 - 1) (t - u))"

text \<open>\<^verbatim>\<open>d.Milliseconds()\<close> rounds towards zero.\<close>

definition Milliseconds :: "duration \<Rightarrow> int" where
  "Milliseconds d = (if d < 0 then - ((- d) div Millisecond) else d div Millisecond)"

section \<open>Sorted keys\<close>

text \<open>
  Go compares strings bytewise, which is the lexicographic order of \<^typ>\<open>string\<close>.  Visiting the keys of a
  map in that order is one of the orders \<^verbatim>\<open>range\<close> may use.
\<close>

definition sorted_keys :: "('k::linorder \<rightharpoonup> 'v) \<Rightarrow> 'k list" where
  "sorted_keys m = sorted_list_of_set (dom m)"

lemma range_ok_sorted_keys: "range_ok sorted_keys"
  by (simp add: range_ok_def iterates_def sorted_keys_def)

section \<open>Trimming white space\<close>

text \<open>
  \<^verbatim>\<open>strings.TrimSpace\<close> on UTF-8 text: the characters with the Unicode property White_Space, by their encodings.
\<close>

definition space_runes :: "string list" where
  "space_runes = map (map char_of) ([[9], [10], [11], [12], [13], [32], [194, 133], [194, 160], [225, 154, 128],
     [226, 128, 128], [226, 128, 129], [226, 128, 130], [226, 128, 131], [226, 128, 132], [226, 128, 133],
     [226, 128, 134], [226, 128, 135], [226, 128, 136], [226, 128, 137], [226, 128, 138], [226, 128, 168],
     [226, 128, 169], [226, 128, 175], [226, 129, 159], [227, 128, 128]] :: nat list list)"

function strip :: "string list \<Rightarrow> string \<Rightarrow> string" where
  "strip rs s = (case find (\<lambda>r. r \<noteq> [] \<and> take (length r) s = r) rs of
     None \<Rightarrow> s | Some r \<Rightarrow> strip rs (drop (length r) s))"
  by auto

termination
proof (relation "measure (\<lambda>(rs, s). length s)")
  fix rs s and r :: string
  assume "find (\<lambda>r. r \<noteq> [] \<and> take (length r) s = r) rs = Some r"
  then have "r \<noteq> [] \<and> take (length r) s = r" by (auto simp: find_Some_iff)
  then have "r \<noteq> []" "s \<noteq> []" by auto
  then show "((rs, drop (length r) s), rs, s) \<in> measure (\<lambda>(rs, s). length s)" by simp
qed simp

declare strip.simps [simp del]

definition TrimSpace :: "string \<Rightarrow> string" where
  "TrimSpace s = rev (strip (map rev space_runes) (rev (strip space_runes s)))"

lemma strip_Nil [simp]: "strip rs [] = []"
  by (subst strip.simps) (auto simp: find_Some_iff split: option.splits)

lemma TrimSpace_Nil [simp]: "TrimSpace [] = []"
  by (simp add: TrimSpace_def)


text \<open>Text that begins and ends with a graphic ASCII character is left as it is.\<close>

definition graphic :: "char \<Rightarrow> bool" where
  "graphic c \<longleftrightarrow> (of_char c :: nat) \<in> {33..126}"

lemma space_not_graphic:
  "list_all (\<lambda>r. r \<noteq> [] \<and> \<not> graphic (hd r)) space_runes" "list_all (\<lambda>r. r \<noteq> [] \<and> \<not> graphic (hd r)) (map rev space_runes)"
  by (simp_all add: space_runes_def graphic_def)

lemma strip_graphic:
  assumes "list_all (\<lambda>r. r \<noteq> [] \<and> \<not> graphic (hd r)) rs" "s \<noteq> []" "graphic (hd s)"
  shows "strip rs s = s"
proof -
  have "find (\<lambda>r. r \<noteq> [] \<and> take (length r) s = r) rs = None"
    using assms by (auto simp: find_None_iff list_all_iff) (metis hd_take length_greater_0_conv)
  then show ?thesis by (simp add: strip.simps)
qed

lemma TrimSpace_graphic: "s \<noteq> [] \<Longrightarrow> graphic (hd s) \<Longrightarrow> graphic (last s) \<Longrightarrow> TrimSpace s = s"
  by (simp add: TrimSpace_def strip_graphic space_not_graphic hd_rev)

end
