(* ===== verification/Idgen.thy ===== *)
theory Idgen
  imports Go_Prelude
begin

text \<open>
  The Snowflake identifier generator of \<^verbatim>\<open>src/common/idgen/snowflake.go\<close>.  The state is the record
  \<open>Generator\<close>; the injected clock \<^verbatim>\<open>now\<close> is the sequence of its readings (\<open>clk k\<close> is the Unix time in
  milliseconds that the \<open>k\<close>-th call returns) with the number of readings made so far.  \<open>Next\<close> returns
  \<open>None\<close> exactly when the busy-wait of \<open>waitNextMilli\<close> never ends.  The mutex makes each call atomic,
  so a history of calls is a sequence of them.
\<close>

unbundle bit_operations_syntax

section \<open>The generator\<close>

definition MaxNodeID :: uint16 where
  "MaxNodeID = 1023"

definition MaxSequence :: uint16 where
  "MaxSequence = 4095"

record Generator =
  nodeID :: uint16
  epochMilli :: int
  lastMilli :: int
  sequence :: uint16

record Parts =
  partTimestamp :: gotime
  partNodeID :: uint16
  partSequence :: uint16

text \<open>\<open>has_clock\<close> is \<^verbatim>\<open>now != nil\<close>.\<close>

definition NewWithClock :: "uint16 \<Rightarrow> gotime \<Rightarrow> bool \<Rightarrow> Generator result" where
  "NewWithClock node epoch has_clock =
     (if MaxNodeID < node then Inl (NewError ''id generator node id is out of range'')
      else if \<not> has_clock then Inl (NewError ''id generator clock is required'')
      else Inr \<lparr>nodeID = node, epochMilli = UnixMilli epoch, lastMilli = -1, sequence = 0\<rparr>)"

definition currentMilli :: "Generator \<Rightarrow> int \<Rightarrow> int" where
  "currentMilli g reading =
     (let milli = s64 (reading - epochMilli g) in if milli < 0 then 0 else milli)"

partial_function (option) waitNextMilli ::
    "Generator \<Rightarrow> (nat \<Rightarrow> int) \<Rightarrow> int \<Rightarrow> nat \<Rightarrow> (int \<times> nat) option" where
  "waitNextMilli g clk previous i =
     (let milli = currentMilli g (clk i)
      in if previous < milli then Some (milli, Suc i) else waitNextMilli g clk previous (Suc i))"

text \<open>\<^verbatim>\<open>uint64(milli)<<(NodeBits+SequenceBits) | uint64(nodeID)<<SequenceBits | uint64(sequence)\<close>.\<close>

definition encode :: "int \<Rightarrow> uint16 \<Rightarrow> uint16 \<Rightarrow> uint64" where
  "encode milli node sq =
     push_bit 22 (word_of_int milli) OR push_bit 12 (ucast node) OR ucast sq"

definition emit :: "Generator \<Rightarrow> int \<Rightarrow> uint16 \<Rightarrow> nat \<Rightarrow> uint64 \<times> Generator \<times> nat" where
  "emit g milli sq i =
     (encode milli (nodeID g) sq, g\<lparr>lastMilli := milli, sequence := sq\<rparr>, i)"

definition Next :: "Generator \<Rightarrow> (nat \<Rightarrow> int) \<Rightarrow> nat \<Rightarrow> (uint64 \<times> Generator \<times> nat) option" where
  "Next g clk i =
     (let read = currentMilli g (clk i);
          milli = (if read < lastMilli g then lastMilli g else read)
      in if milli = lastMilli g then
           if sequence g = MaxSequence then
             (case waitNextMilli g clk (lastMilli g) (Suc i) of
                None \<Rightarrow> None
              | Some (next, j) \<Rightarrow> Some (emit g next 0 j))
           else Some (emit g milli (sequence g + 1) (Suc i))
         else Some (emit g milli 0 (Suc i)))"

definition Parse :: "Generator \<Rightarrow> uint64 \<Rightarrow> Parts" where
  "Parse g i =
     (let milli = sint (drop_bit 22 i);
          node = ucast (drop_bit 12 i AND 1023);
          sq = ucast (i AND 4095)
      in \<lparr>partTimestamp = (s64 (epochMilli g + milli) + unixToInternal * 1000) * Millisecond,
          partNodeID = node, partSequence = sq\<rparr>)"

section \<open>Well-formed generators\<close>

definition gen_ok :: "Generator \<Rightarrow> bool" where
  "gen_ok g \<longleftrightarrow> nodeID g \<le> MaxNodeID \<and> sequence g \<le> MaxSequence
     \<and> - 1 \<le> lastMilli g \<and> lastMilli g < 2 ^ 42"

text \<open>Every reading lies before the end of the 42-bit timestamp range that starts at the epoch.\<close>

definition clock_ok :: "Generator \<Rightarrow> (nat \<Rightarrow> int) \<Rightarrow> bool" where
  "clock_ok g clk \<longleftrightarrow>
     (\<forall>k. - (2 ^ 63) \<le> clk k - epochMilli g \<and> clk k - epochMilli g < 2 ^ 42)"

lemma currentMilli_range:
  assumes "clock_ok g clk"
  shows "0 \<le> currentMilli g (clk k)" "currentMilli g (clk k) < 2 ^ 42"
proof -
  from assms have r: "- (2 ^ 63) \<le> clk k - epochMilli g" "clk k - epochMilli g < 2 ^ 42"
    by (auto simp: clock_ok_def)
  then have "in_s64 (clk k - epochMilli g)" by (auto simp: in_s64_def)
  then have "s64 (clk k - epochMilli g) = clk k - epochMilli g" by simp
  with r show "0 \<le> currentMilli g (clk k)" "currentMilli g (clk k) < 2 ^ 42"
    by (auto simp: currentMilli_def Let_def)
qed

lemma waitNextMilli_result:
  assumes "waitNextMilli g clk previous i = Some (m, j)"
  shows "previous < m \<and> (\<exists>k\<ge>i. m = currentMilli g (clk k))"
proof -
  have "previous < fst r \<and> (\<exists>k\<ge>i. fst r = currentMilli g (clk k))"
    if ret: "waitNextMilli g clk previous i = Some r" for r
    by (rule waitNextMilli.raw_induct [where
          P = "\<lambda>g' clk' p' i' r'. p' < fst r' \<and> (\<exists>k\<ge>i'. fst r' = currentMilli g' (clk' k))",
          OF _ ret]) (fastforce simp: Let_def split: if_splits dest: Suc_leD)
  from this [OF assms] show ?thesis by simp
qed

lemma waitNextMilli_returns:
  assumes "i \<le> k" "previous < currentMilli g (clk k)"
  shows "\<exists>r. waitNextMilli g clk previous i = Some r"
  using assms
proof (induction "k - i" arbitrary: i)
  case 0
  then show ?case by (subst waitNextMilli.simps) (auto simp: Let_def)
next
  case (Suc n)
  then have "\<exists>r. waitNextMilli g clk previous (Suc i) = Some r" by auto
  then show ?case by (subst waitNextMilli.simps) (auto simp: Let_def)
qed

section \<open>The layout of an identifier\<close>

lemma or_push_bit_add:
  fixes a b :: int
  assumes "0 \<le> b" "b < 2 ^ n"
  shows "push_bit n a OR b = a * 2 ^ n + b"
proof -
  from assms have "take_bit n b = b" by (simp add: take_bit_int_eq_self)
  then have "concat_bit n b a = push_bit n a OR b"
    by (simp add: concat_bit_def or.commute)
  moreover have "concat_bit n b a = take_bit n b + push_bit n a"
    by (rule concat_bit_eq)
  ultimately show ?thesis
    using \<open>take_bit n b = b\<close> by (simp add: push_bit_eq_mult)
qed

lemma uint_push_bit_small:
  fixes w :: "64 word"
  assumes "uint w * 2 ^ n < 2 ^ 64"
  shows "uint (push_bit n w) = push_bit n (uint w)"
proof -
  have "uint (push_bit n w) = take_bit 64 (push_bit n (uint w))"
    by (simp add: unsigned_push_bit_eq)
  moreover have "take_bit 64 (push_bit n (uint w)) = push_bit n (uint w)"
    using assms by (intro take_bit_int_eq_self) (auto simp: push_bit_eq_mult)
  ultimately show ?thesis by simp
qed

lemma uint_encode:
  assumes "0 \<le> milli" "milli < 2 ^ 42" "node \<le> MaxNodeID" "sq \<le> MaxSequence"
  shows "uint (encode milli node sq) = milli * 2 ^ 22 + (uint node * 2 ^ 12 + uint sq)"
    and "uint node * 2 ^ 12 + uint sq < 2 ^ 22"
proof -
  have n: "uint node < 2 ^ 10" and s: "uint sq < 2 ^ 12"
    using assms(3,4) by (auto simp: MaxNodeID_def MaxSequence_def word_le_def)
  then show low: "uint node * 2 ^ 12 + uint sq < 2 ^ 22" by simp
  have um: "uint (word_of_int milli :: 64 word) = milli"
    using assms(1,2) by (intro word_of_int_inverse [OF refl]) auto
  have un: "uint (ucast node :: 64 word) = uint node" and us: "uint (ucast sq :: 64 word) = uint sq"
    by (simp_all add: unsigned_ucast_eq take_bit_int_eq_self_iff order.strict_trans [OF n]
        order.strict_trans [OF s])
  have p22: "uint (push_bit 22 (word_of_int milli :: 64 word)) = push_bit 22 milli"
    using assms(2) uint_push_bit_small [of "word_of_int milli" 22, unfolded um] by simp
  have p12: "uint (push_bit 12 (ucast node :: 64 word)) = push_bit 12 (uint node)"
    using n uint_push_bit_small [of "ucast node" 12, unfolded un] by simp
  have "uint (encode milli node sq) =
      push_bit 22 milli OR (push_bit 12 (uint node) OR uint sq)"
    by (simp only: encode_def unsigned_or_eq p22 p12 us or.assoc)
  also have "\<dots> = milli * 2 ^ 22 + (uint node * 2 ^ 12 + uint sq)"
    using low s by (subst or_push_bit_add, simp, simp, subst or_push_bit_add) auto
  finally show "uint (encode milli node sq) = milli * 2 ^ 22 + (uint node * 2 ^ 12 + uint sq)" .
qed

text \<open>The order of identifiers is the order of timestamps, then of sequence numbers.\<close>

lemma encode_less:
  assumes "0 \<le> m" "m < 2 ^ 42" "0 \<le> m'" "m' < 2 ^ 42" "node \<le> MaxNodeID"
    and "sq \<le> MaxSequence" "sq' \<le> MaxSequence"
    and "m < m' \<or> m = m' \<and> sq < sq'"
  shows "encode m node sq < encode m' node sq'"
proof -
  note bounds = uint_encode(2) [OF assms(1,2,5,6)] uint_encode(2) [OF assms(3,4,5,7)]
    uint_ge_0 [of node] uint_ge_0 [of sq']
  from assms(8) have "m * 2 ^ 22 + (uint node * 2 ^ 12 + uint sq) <
      m' * 2 ^ 22 + (uint node * 2 ^ 12 + uint sq')"
  proof (elim disjE conjE)
    assume "m < m'"
    then have "m * 2 ^ 22 + 2 ^ 22 \<le> m' * 2 ^ 22" by simp
    moreover have "0 \<le> uint node * 2 ^ 12 + uint sq'" by simp
    ultimately show ?thesis using bounds(1) by (simp only: power_numeral)
  next
    assume "m = m'" "sq < sq'"
    then show ?thesis by (simp add: word_less_def)
  qed
  then show ?thesis
    by (simp only: word_less_def uint_encode(1) [OF assms(1,2,5,6)] uint_encode(1) [OF assms(3,4,5,7)])
qed

lemma div_shift_add: "0 \<le> (c::int) \<Longrightarrow> c < b \<Longrightarrow> (a * b + c) div b = a"
  by simp

lemma mod_shift_add: "0 \<le> (c::int) \<Longrightarrow> c < b \<Longrightarrow> (a * b + c) mod b = c"
  by simp

lemma ucast_uint_eq:
  fixes w :: "64 word" and v :: "16 word"
  assumes "uint w = uint v"
  shows "ucast w = v"
  unfolding word_uint_eq_iff
  using uint_lt2p [of v] by (simp only: unsigned_ucast_eq assms) (simp add: take_bit_int_eq_self)

lemma encode_fields:
  assumes "0 \<le> m" "m < 2 ^ 42" "node \<le> MaxNodeID" "sq \<le> MaxSequence"
  shows "uint (drop_bit 22 (encode m node sq)) = m"
    and "ucast (drop_bit 12 (encode m node sq) AND 1023) = node"
    and "ucast (encode m node sq AND 4095) = sq"
proof -
  let ?w = "encode m node sq" and ?low = "uint node * 2 ^ 12 + uint sq"
  have w: "uint ?w = m * 2 ^ 22 + ?low" and low: "?low < 2 ^ 22" "0 \<le> ?low"
    using uint_encode [OF assms] by auto
  have n: "uint node < 2 ^ 10" and s: "uint sq < 2 ^ 12"
    using assms(3,4) by (auto simp: MaxNodeID_def MaxSequence_def word_le_def)
  have "take_bit 64 (uint ?w) = uint ?w"
    using uint_lt2p [of ?w] by (intro take_bit_int_eq_self) auto
  then have drop: "uint (drop_bit k ?w) = uint ?w div 2 ^ k" for k
    by (simp add: unsigned_drop_bit_eq flip: drop_bit_eq_div)
  show "uint (drop_bit 22 ?w) = m"
    unfolding drop w using low by simp
  have m10: "(1023 :: 64 word) = mask 10" and m12: "(4095 :: 64 word) = mask 12"
    by (simp_all add: mask_eq_exp_minus_1)
  have w': "uint ?w = (m * 2 ^ 10 + uint node) * 2 ^ 12 + uint sq" unfolding w by simp
  have "uint ?w div 2 ^ 12 = m * 2 ^ 10 + uint node"
    unfolding w' by (rule div_shift_add) (use s in simp_all)
  then have "uint ?w div 2 ^ 12 mod 2 ^ 10 = uint node" using n by simp
  then have "uint (drop_bit 12 ?w AND 1023) = uint node"
    unfolding m10 and_mask_mod_2p drop
    using n by (simp only: uint_word_of_int_eq) (simp add: take_bit_int_eq_self)
  then show "ucast (drop_bit 12 ?w AND 1023) = node"
    by (rule ucast_uint_eq)
  have "uint ?w mod 2 ^ 12 = uint sq"
    unfolding w' by (rule mod_shift_add) (use s in simp_all)
  then have "uint (?w AND 4095) = uint sq"
    unfolding m12 and_mask_mod_2p
    using s by (simp only: uint_word_of_int_eq) (simp add: take_bit_int_eq_self)
  then show "ucast (?w AND 4095) = sq"
    by (rule ucast_uint_eq)
qed

section \<open>One call\<close>

lemma emit_simps [simp]:
  "emit g m sq i = (x, g', j) \<longleftrightarrow>
     x = encode m (nodeID g) sq \<and> g' = g\<lparr>lastMilli := m, sequence := sq\<rparr> \<and> j = i"
  by (auto simp: emit_def)

lemma sequence_bump:
  assumes "s \<le> MaxSequence" "s \<noteq> MaxSequence"
  shows "s + 1 \<le> MaxSequence \<and> s < s + 1"
proof -
  from assms have "s < MaxSequence" by simp
  then have u: "uint s < 4095" by (simp add: word_less_def MaxSequence_def)
  then have "uint (s + 1) = uint s + 1" by (subst uint_add_lem [THEN iffD1]) auto
  with u show ?thesis by (simp add: word_less_def word_le_def MaxSequence_def)
qed

text \<open>
  Every identifier is \<open>encode\<close> of the new state, which is well-formed and lexicographically after
  the old one.
\<close>

lemma Next_step:
  assumes ok: "gen_ok g" and clk: "clock_ok g clk" and n: "Next g clk i = Some (x, g', j)"
  shows "x = encode (lastMilli g') (nodeID g') (sequence g')"
    and "gen_ok g'" and "0 \<le> lastMilli g'"
    and "nodeID g' = nodeID g" and "epochMilli g' = epochMilli g"
    and "lastMilli g < lastMilli g' \<or> lastMilli g = lastMilli g' \<and> sequence g < sequence g'"
proof -
  let ?m = "if currentMilli g (clk i) < lastMilli g then lastMilli g else currentMilli g (clk i)"
  have m: "0 \<le> ?m" "?m < 2 ^ 42" "lastMilli g \<le> ?m"
    using currentMilli_range [OF clk, of i] ok by (auto simp: gen_ok_def)
  consider
    (wait) k where "g' = g\<lparr>lastMilli := currentMilli g (clk k), sequence := 0\<rparr>"
        "lastMilli g < currentMilli g (clk k)"
        "x = encode (currentMilli g (clk k)) (nodeID g) 0"
  | (bump) "g' = g\<lparr>lastMilli := ?m, sequence := sequence g + 1\<rparr>" "?m = lastMilli g"
        "sequence g \<noteq> MaxSequence" "x = encode ?m (nodeID g) (sequence g + 1)"
  | (fresh) "g' = g\<lparr>lastMilli := ?m, sequence := 0\<rparr>" "lastMilli g < ?m"
        "x = encode ?m (nodeID g) 0"
    using n m(3)
    by (auto simp: Next_def Let_def split: if_splits option.splits dest: waitNextMilli_result)
  note cases = this
  have bump_seq: "sequence g + 1 \<le> MaxSequence \<and> sequence g < sequence g + 1"
    if "sequence g \<noteq> MaxSequence"
    using that ok by (intro sequence_bump) (auto simp: gen_ok_def)
  show "x = encode (lastMilli g') (nodeID g') (sequence g')"
    by (cases rule: cases) auto
  show "nodeID g' = nodeID g" "epochMilli g' = epochMilli g"
    by (cases rule: cases; simp)+
  show "0 \<le> lastMilli g'"
    by (cases rule: cases) (use m currentMilli_range [OF clk] in auto)
  show "gen_ok g'"
    by (cases rule: cases)
      (use ok m bump_seq currentMilli_range [OF clk] in \<open>auto simp: gen_ok_def\<close>)
  show "lastMilli g < lastMilli g' \<or> lastMilli g = lastMilli g' \<and> sequence g < sequence g'"
    by (cases rule: cases) (use bump_seq in auto)
qed

lemma Next_returns:
  "Next g clk i = None \<longleftrightarrow>
     sequence g = MaxSequence \<and> (\<forall>k\<ge>i. currentMilli g (clk k) \<le> lastMilli g)"
proof -
  have wait: "waitNextMilli g clk (lastMilli g) (Suc i) = None \<longleftrightarrow>
      (\<forall>k\<ge>Suc i. currentMilli g (clk k) \<le> lastMilli g)"
    using waitNextMilli_returns [of "Suc i" _ "lastMilli g" g clk]
      waitNextMilli_result [of g clk "lastMilli g" "Suc i"]
    by (cases "waitNextMilli g clk (lastMilli g) (Suc i)") (force simp: not_le [symmetric])+
  have split: "(\<forall>k\<ge>i. P k) \<longleftrightarrow> P i \<and> (\<forall>k\<ge>Suc i. P k)" for P
    by (metis Suc_leD Suc_leI le_neq_implies_less order_refl)
  show ?thesis
    unfolding split [of "\<lambda>k. currentMilli g (clk k) \<le> lastMilli g"]
    using wait by (auto simp: Next_def Let_def split: if_splits option.splits)
qed

section \<open>Histories of calls\<close>

fun generate ::
    "nat \<Rightarrow> Generator \<Rightarrow> (nat \<Rightarrow> int) \<Rightarrow> nat \<Rightarrow> (uint64 list \<times> Generator \<times> nat) option" where
  "generate 0 g clk i = Some ([], g, i)"
| "generate (Suc n) g clk i =
     (case Next g clk i of
        None \<Rightarrow> None
      | Some (x, g', j) \<Rightarrow>
          (case generate n g' clk j of
             None \<Rightarrow> None
           | Some (xs, g'', k) \<Rightarrow> Some (x # xs, g'', k)))"

lemma clock_ok_epoch: "epochMilli g' = epochMilli g \<Longrightarrow> clock_ok g' clk = clock_ok g clk"
  by (simp add: clock_ok_def)

lemma Next_above:
  assumes "gen_ok g" "clock_ok g clk" "Next g clk i = Some (x, g', j)" "0 \<le> lastMilli g"
  shows "encode (lastMilli g) (nodeID g) (sequence g) < x"
  using Next_step [OF assms(1-3)] assms(1,4)
  by (auto simp: gen_ok_def intro!: encode_less)

text \<open>
  All identifiers of a history carry the generator's node, lie above the last one issued before, and
  increase.
\<close>

lemma generate_increasing:
  assumes "generate n g clk i = Some (xs, g', j)" "gen_ok g" "clock_ok g clk"
  shows "length xs = n \<and> sorted_wrt (<) xs
    \<and> (0 \<le> lastMilli g \<longrightarrow> (\<forall>x \<in> set xs. encode (lastMilli g) (nodeID g) (sequence g) < x))
    \<and> (\<forall>x \<in> set xs. ucast (drop_bit 12 x AND 1023) = nodeID g)"
  using assms
proof (induction n g clk i arbitrary: xs g' j rule: generate.induct)
  case (1 g clk i)
  then show ?case by simp
next
  case (2 n g clk i)
  from "2.prems"(1) obtain x g1 i1 ys where
    nx: "Next g clk i = Some (x, g1, i1)" and
    gen: "generate n g1 clk i1 = Some (ys, g', j)" and xs: "xs = x # ys"
    by (auto split: option.splits prod.splits)
  note st = Next_step [OF "2.prems"(2,3) nx]
  have clk1: "clock_ok g1 clk" using "2.prems"(3) clock_ok_epoch [OF st(5)] by simp
  note ih = "2.IH" [OF nx refl refl gen st(2) clk1]
  have node: "ucast (drop_bit 12 x AND 1023) = nodeID g"
    unfolding st(1) using st(2-4) by (subst encode_fields(2)) (auto simp: gen_ok_def)
  show ?case
    using ih st(1,3,4) node Next_above [OF "2.prems"(2,3) nx] unfolding xs by force
qed

section \<open>Properties\<close>

lemma NewWithClock_ok:
  "NewWithClock node epoch c = Inr g \<Longrightarrow> gen_ok g \<and> nodeID g = node"
  by (auto simp: NewWithClock_def gen_ok_def MaxSequence_def split: if_splits)

text \<open>
  C22: The identifiers that successive calls of \<open>Next\<close> on a new generator return are strictly
  increasing (hence pairwise distinct), even when the clock stands still or moves backwards, as long
  as the clock stays within the 42 timestamp bits after the epoch.
\<close>

theorem Next_strictly_increasing:
  assumes "NewWithClock node epoch True = Inr g" and "clock_ok g clk"
    and "generate n g clk i = Some (xs, g', j)"
  shows "length xs = n \<and> sorted_wrt (<) xs"
  using generate_increasing [OF assms(3) _ assms(2)] NewWithClock_ok [OF assms(1)] by blast

definition sample_generator :: Generator where
  "sample_generator = \<lparr>nodeID = 7, epochMilli = 0, lastMilli = - 1, sequence = 0\<rparr>"

lemma sample_generator_new: "NewWithClock 7 (unixToInternal * Second) True = Inr sample_generator"
  by (simp add: NewWithClock_def MaxNodeID_def UnixMilli_def unixToInternal_def sample_generator_def)

lemma sample_clock_ok: "clock_ok sample_generator (\<lambda>k. if k = 1 then 4 else 5)"
  by (simp add: clock_ok_def sample_generator_def)

lemmas run_simps = generate.simps Next_def Let_def emit_def currentMilli_def encode_def
  sample_generator_def MaxSequence_def s64_id in_s64_def

theorem Next_strictly_increasing_witness:
  "\<exists>xs g' j. generate 3 sample_generator (\<lambda>k. if k = 1 then 4 else 5) 0 = Some (xs, g', j)
     \<and> length xs = 3 \<and> sorted_wrt (<) xs"
proof -
  have "generate 3 sample_generator (\<lambda>k. if k = 1 then 4 else 5) 0 \<noteq> None"
    by (simp add: run_simps numeral_3_eq_3)
  then obtain xs g' j
    where run: "generate 3 sample_generator (\<lambda>k. if k = 1 then 4 else 5) 0 = Some (xs, g', j)"
    by auto
  from Next_strictly_increasing [OF sample_generator_new sample_clock_ok run] run
  show ?thesis by blast
qed

text \<open>
  C23: Two generators with different node ids never return the same identifier, whatever their
  clocks do within the timestamp range.
\<close>

theorem nodes_never_collide:
  assumes "NewWithClock node1 epoch1 True = Inr g1" and "clock_ok g1 clk1"
    and "generate n1 g1 clk1 i1 = Some (xs1, g1', j1)"
    and "NewWithClock node2 epoch2 True = Inr g2" and "clock_ok g2 clk2"
    and "generate n2 g2 clk2 i2 = Some (xs2, g2', j2)"
    and "node1 \<noteq> node2"
  shows "set xs1 \<inter> set xs2 = {}"
  using generate_increasing [OF assms(3) _ assms(2)] NewWithClock_ok [OF assms(1)]
    generate_increasing [OF assms(6) _ assms(5)] NewWithClock_ok [OF assms(4)] assms(7) by auto

theorem nodes_never_collide_witness:
  "\<exists>xs1 xs2 g1' g2' j1 j2. generate 1 sample_generator (\<lambda>_. 5) 0 = Some (xs1, g1', j1)
     \<and> generate 1 (sample_generator\<lparr>nodeID := 8\<rparr>) (\<lambda>_. 5) 0 = Some (xs2, g2', j2)
     \<and> set xs1 \<inter> set xs2 = {}"
proof -
  have "generate 1 sample_generator (\<lambda>_. 5) 0 \<noteq> None"
    and "generate 1 (sample_generator\<lparr>nodeID := 8\<rparr>) (\<lambda>_. 5) 0 \<noteq> None"
    by (simp_all add: run_simps)
  then obtain xs1 g1' j1 xs2 g2' j2
    where runs: "generate 1 sample_generator (\<lambda>_. 5) 0 = Some (xs1, g1', j1)"
      "generate 1 (sample_generator\<lparr>nodeID := 8\<rparr>) (\<lambda>_. 5) 0 = Some (xs2, g2', j2)"
    by auto
  have new8: "NewWithClock 8 (unixToInternal * Second) True = Inr (sample_generator\<lparr>nodeID := 8\<rparr>)"
    using sample_generator_new by (simp add: NewWithClock_def MaxNodeID_def sample_generator_def)
  have clk: "clock_ok sample_generator (\<lambda>_. 5)" "clock_ok (sample_generator\<lparr>nodeID := 8\<rparr>) (\<lambda>_. 5)"
    by (simp_all add: clock_ok_def sample_generator_def)
  from nodes_never_collide [OF sample_generator_new clk(1) runs(1) new8 clk(2) runs(2)] runs
  show ?thesis by auto
qed

text \<open>
  C24: \<open>Parse\<close> recovers from an identifier that \<open>Next\<close> returned the millisecond, the node and the
  sequence number it was made from.
\<close>

theorem Parse_Next:
  assumes "gen_ok g" "clock_ok g clk" "Next g clk i = Some (x, g', j)"
    and "in_s64 (epochMilli g)" "in_s64 (epochMilli g + 2 ^ 42)"
  shows "Parse g x =
    \<lparr>partTimestamp = (epochMilli g + lastMilli g' + unixToInternal * 1000) * Millisecond,
     partNodeID = nodeID g, partSequence = sequence g'\<rparr>"
proof -
  note st = Next_step [OF assms(1-3)]
  have f: "uint (drop_bit 22 x) = lastMilli g'" "ucast (drop_bit 12 x AND 1023) = nodeID g"
    "ucast (x AND 4095) = sequence g'"
    unfolding st(1) using st(2-4)
    by (auto simp: gen_ok_def encode_fields(1) encode_fields(2) encode_fields(3))
  have "sint (drop_bit 22 x) = lastMilli g'"
    using st(2,3) by (simp add: sint_uint f(1) signed_take_bit_int_eq_self gen_ok_def)
  moreover have "in_s64 (epochMilli g + lastMilli g')"
    using assms(4,5) st(2,3) by (auto simp: in_s64_def gen_ok_def)
  ultimately show ?thesis using f(2,3) by (simp add: Parse_def Let_def)
qed

theorem Parse_Next_witness:
  "\<exists>x g' j. Next sample_generator (\<lambda>_. 5000) 0 = Some (x, g', j)
     \<and> Parse sample_generator x =
         \<lparr>partTimestamp = (5000 + unixToInternal * 1000) * Millisecond,
          partNodeID = 7, partSequence = 0\<rparr>"
proof -
  define x g' where "x = encode 5000 7 0" and "g' = sample_generator\<lparr>lastMilli := 5000\<rparr>"
  have nx: "Next sample_generator (\<lambda>_. 5000) 0 = Some (x, g', 1)"
    by (simp add: Next_def Let_def emit_def currentMilli_def sample_generator_def s64_id in_s64_def
        x_def g'_def)
  have "gen_ok sample_generator" "clock_ok sample_generator (\<lambda>_. 5000)"
    "in_s64 (epochMilli sample_generator)" "in_s64 (epochMilli sample_generator + 2 ^ 42)"
    by (simp_all add: gen_ok_def clock_ok_def sample_generator_def in_s64_def MaxNodeID_def
        MaxSequence_def)
  from Parse_Next [OF this(1,2) nx this(3,4)] nx show ?thesis
    by (simp add: g'_def sample_generator_def)
qed

text \<open>
  A call of \<open>Next\<close> fails to return exactly when the millisecond's 4096 sequence numbers are used
  up and no later clock reading is past the last millisecond issued: the spin in \<open>waitNextMilli\<close>
  ends as soon as the clock advances.
\<close>

theorem Next_blocks_iff:
  "Next g clk i = None \<longleftrightarrow>
     sequence g = MaxSequence \<and> (\<forall>k\<ge>i. currentMilli g (clk k) \<le> lastMilli g)"
  by (rule Next_returns)

theorem Next_blocks_iff_witness:
  "Next (sample_generator\<lparr>sequence := 4095, lastMilli := 5\<rparr>) (\<lambda>_. 5) 0 = None
   \<and> Next (sample_generator\<lparr>sequence := 4095, lastMilli := 5\<rparr>) (\<lambda>k. int k) 0 \<noteq> None"
proof -
  let ?g = "sample_generator\<lparr>sequence := 4095, lastMilli := 5\<rparr>"
  have "Next ?g (\<lambda>_. 5) 0 = None"
    using Next_blocks_iff [of ?g "\<lambda>_. 5" 0]
    by (simp add: MaxSequence_def currentMilli_def sample_generator_def in_s64_def)
  moreover have "\<not> currentMilli ?g (int 9) \<le> lastMilli ?g"
    by (simp add: currentMilli_def sample_generator_def in_s64_def)
  then have "Next ?g (\<lambda>k. int k) 0 \<noteq> None"
    using Next_blocks_iff [of ?g "\<lambda>k. int k" 0] by blast
  ultimately show ?thesis by blast
qed

end
