(* ===== verification/Breaker.thy ===== *)
theory Breaker
  imports Go_Prelude
begin

text \<open>
  The circuit breaker of \<^verbatim>\<open>src/common/reliability/breaker.go\<close>.  The state is the record
  \<open>CircuitBreaker\<close>; \<^verbatim>\<open>time.Now()\<close> is an argument of the operations that read it and the calls made
  to the observer are returned as a list.  The mutex covers \<open>allow\<close> and \<open>complete\<close> separately, so
  concurrent calls of \<open>ExecuteClassified\<close> interleave between the two: \<open>breaker_step\<close> is that
  relation, with the number of admitted calls that have not completed yet.
\<close>

section \<open>The breaker\<close>

datatype CircuitState = CircuitStateClosed | CircuitStateOpen | CircuitStateHalfOpen

datatype circuit_event = OnCall string | OnStateChange CircuitState CircuitState

record CircuitBreaker =
  cb_failures :: int
  cb_threshold :: int
  cb_openUntil :: gotime
  cb_resetTimeout :: duration
  cb_state :: CircuitState
  cb_observer :: bool

definition NewCircuitBreaker :: "int \<Rightarrow> duration \<Rightarrow> bool \<Rightarrow> CircuitBreaker" where
  "NewCircuitBreaker failureThreshold resetTimeout observed =
     \<lparr>cb_failures = 0,
      cb_threshold = (if failureThreshold < 1 then 1 else failureThreshold),
      cb_openUntil = 0,
      cb_resetTimeout = (if resetTimeout \<le> 0 then Second else resetTimeout),
      cb_state = CircuitStateClosed,
      cb_observer = observed\<rparr>"

definition notifyStateChange ::
    "CircuitBreaker \<Rightarrow> CircuitState \<Rightarrow> CircuitState \<Rightarrow> circuit_event list" where
  "notifyStateChange b from to = (if cb_observer b then [OnStateChange from to] else [])"

definition allow :: "gotime \<Rightarrow> CircuitBreaker \<Rightarrow> bool \<times> CircuitBreaker \<times> circuit_event list" where
  "allow now b =
     (case cb_state b of
        CircuitStateClosed \<Rightarrow> (True, b, [])
      | CircuitStateOpen \<Rightarrow>
          if now < cb_openUntil b then (False, b, [])
          else (True, b\<lparr>cb_state := CircuitStateHalfOpen\<rparr>,
                notifyStateChange b CircuitStateOpen CircuitStateHalfOpen)
      | CircuitStateHalfOpen \<Rightarrow> (False, b, []))"

text \<open>
  \<^verbatim>\<open>complete(err)\<close>: \<open>None\<close> is a nil error.  \<^verbatim>\<open>from != to\<close> holds exactly when the state changed.
\<close>

definition complete ::
    "gotime \<Rightarrow> go_error option \<Rightarrow> CircuitBreaker \<Rightarrow> CircuitBreaker \<times> circuit_event list" where
  "complete now err b =
     (case err of
        None \<Rightarrow>
          let b' = b\<lparr>cb_failures := 0, cb_openUntil := 0\<rparr>
          in if cb_state b \<noteq> CircuitStateClosed
             then (b'\<lparr>cb_state := CircuitStateClosed\<rparr>,
                   notifyStateChange b (cb_state b) CircuitStateClosed)
             else (b', [])
      | Some _ \<Rightarrow>
          let b' = b\<lparr>cb_failures := s64 (cb_failures b + 1)\<rparr>
          in if cb_threshold b \<le> cb_failures b'
             then let b'' = b'\<lparr>cb_openUntil := now + cb_resetTimeout b\<rparr>
                  in if cb_state b \<noteq> CircuitStateOpen
                     then (b''\<lparr>cb_state := CircuitStateOpen\<rparr>,
                           notifyStateChange b (cb_state b) CircuitStateOpen)
                     else (b'', [])
             else (b', []))"

definition onCall :: "CircuitBreaker \<Rightarrow> string \<Rightarrow> circuit_event list" where
  "onCall b r = (if cb_observer b then [OnCall r] else [])"

text \<open>
  The guarded operation acts on a state of its own, \<open>s\<close>.  A nil breaker is \<open>None\<close>; \<open>counts\<close> is
  \<^verbatim>\<open>countsFailure\<close>, \<open>None\<close> when it is nil; \<open>t0\<close> and \<open>t1\<close> are the clock readings of \<open>allow\<close> and
  \<open>complete\<close>.
\<close>

definition ExecuteClassified ::
    "CircuitBreaker option \<Rightarrow> gotime \<Rightarrow> gotime \<Rightarrow> ('s \<Rightarrow> go_error option \<times> 's) \<Rightarrow>
     (go_error option \<Rightarrow> bool) option \<Rightarrow> 's \<Rightarrow>
     go_error option \<times> CircuitBreaker option \<times> 's \<times> circuit_event list" where
  "ExecuteClassified cb t0 t1 operation countsFailure s =
     (case cb of
        None \<Rightarrow> (case operation s of (err, s') \<Rightarrow> (err, None, s', []))
      | Some b \<Rightarrow>
          (case allow t0 b of (ok, b1, ev1) \<Rightarrow>
             if \<not> ok then (Some (Sentinel ErrCircuitOpen), Some b1, s, ev1 @ onCall b1 ''circuit_open'')
             else
               (case operation s of (err, s') \<Rightarrow>
                  let counts = (case countsFailure of None \<Rightarrow> True | Some f \<Rightarrow> f err)
                  in case complete t1 (if counts then err else None) b1 of (b2, ev2) \<Rightarrow>
                       let r = (if err = None then ''success''
                                else if counts then ''failure'' else ''ignored_failure'')
                       in (err, Some b2, s', ev1 @ ev2 @ onCall b2 r))))"

definition Execute ::
    "CircuitBreaker option \<Rightarrow> gotime \<Rightarrow> gotime \<Rightarrow> ('s \<Rightarrow> go_error option \<times> 's) \<Rightarrow> 's \<Rightarrow>
     go_error option \<times> CircuitBreaker option \<times> 's \<times> circuit_event list" where
  "Execute cb t0 t1 operation s = ExecuteClassified cb t0 t1 operation (Some (\<lambda>_. True)) s"

definition State :: "CircuitBreaker option \<Rightarrow> CircuitState" where
  "State cb = (case cb of None \<Rightarrow> CircuitStateClosed | Some b \<Rightarrow> cb_state b)"

definition SetObserver ::
    "CircuitBreaker option \<Rightarrow> bool \<Rightarrow> CircuitBreaker option \<times> circuit_event list" where
  "SetObserver cb observed =
     (case cb of
        None \<Rightarrow> (None, [])
      | Some b \<Rightarrow> (Some (b\<lparr>cb_observer := observed\<rparr>),
                   if observed then [OnStateChange (cb_state b) (cb_state b)] else []))"

lemmas breaker_defs = allow_def complete_def notifyStateChange_def Let_def

section \<open>Interleaved calls\<close>

datatype breaker_op = Begin gotime | Finish gotime "go_error option"

text \<open>\<open>Finish\<close> needs an admitted call in flight; \<open>Begin\<close> adds one when \<open>allow\<close> admits it.\<close>

inductive breaker_step :: "CircuitBreaker \<times> nat \<Rightarrow> breaker_op \<Rightarrow> CircuitBreaker \<times> nat \<Rightarrow> bool" where
  begin_admitted: "allow t b = (True, b', ev) \<Longrightarrow> breaker_step (b, n) (Begin t) (b', Suc n)"
| begin_rejected: "allow t b = (False, b', ev) \<Longrightarrow> breaker_step (b, n) (Begin t) (b', n)"
| finish: "complete t err b = (b', ev) \<Longrightarrow> breaker_step (b, Suc n) (Finish t err) (b', n)"

inductive_cases breaker_stepE:
  "breaker_step (b, n) (Begin t) s"
  "breaker_step (b, n) (Finish t err) s"

inductive breaker_run ::
    "CircuitBreaker \<times> nat \<Rightarrow> breaker_op list \<Rightarrow> CircuitBreaker \<times> nat \<Rightarrow> bool" where
  run_nil: "breaker_run s [] s"
| run_step: "breaker_run s ops s' \<Longrightarrow> breaker_step s' op s'' \<Longrightarrow> breaker_run s (ops @ [op]) s''"

text \<open>
  The invariant: the circuit is closed exactly while fewer than \<open>threshold\<close> counted failures have
  followed the last success, and only an open or probing circuit has a deadline.
\<close>

definition breaker_inv :: "CircuitBreaker \<Rightarrow> bool" where
  "breaker_inv b \<longleftrightarrow> 1 \<le> cb_threshold b \<and> 0 \<le> cb_failures b
     \<and> (cb_state b = CircuitStateClosed \<longleftrightarrow> cb_failures b < cb_threshold b)
     \<and> (cb_state b = CircuitStateClosed \<longrightarrow> cb_openUntil b = 0)"

lemma NewCircuitBreaker_inv: "breaker_inv (NewCircuitBreaker th d obs)"
  by (simp add: breaker_inv_def NewCircuitBreaker_def)

lemma allow_inv: "breaker_inv b \<Longrightarrow> allow t b = (ok, b', ev) \<Longrightarrow> breaker_inv b'"
  by (auto simp: breaker_inv_def breaker_defs split: CircuitState.splits if_splits)

lemma allow_failures: "allow t b = (ok, b', ev) \<Longrightarrow> cb_failures b' = cb_failures b"
  by (auto simp: breaker_defs split: CircuitState.splits if_splits)

lemma complete_inv:
  assumes "breaker_inv b" "cb_failures b < 2 ^ 63 - 1" "complete t err b = (b', ev)"
  shows "breaker_inv b'" and "cb_failures b' \<le> cb_failures b + 1"
proof -
  have "s64 (cb_failures b + 1) = cb_failures b + 1"
    using assms(1,2) by (intro s64_id) (auto simp: breaker_inv_def in_s64_def)
  then show "breaker_inv b'" "cb_failures b' \<le> cb_failures b + 1"
    using assms(1,3)
    by (auto simp: breaker_inv_def breaker_defs split: option.splits if_splits)
qed

lemma breaker_run_inv:
  assumes "breaker_run (b, 0) ops s" "breaker_inv b" "cb_failures b = 0" "length ops < 2 ^ 63"
  shows "breaker_inv (fst s) \<and> cb_failures (fst s) \<le> int (length ops)"
  using assms
proof (induction "(b, 0::nat)" ops s rule: breaker_run.induct)
  case run_nil
  then show ?case by simp
next
  case (run_step ops s' op s'')
  then have len: "length ops < 2 ^ 63 - 1"
    and ih: "breaker_inv (fst s')" "cb_failures (fst s') \<le> int (length ops)"
    by auto
  then have small: "cb_failures (fst s') < 2 ^ 63 - 1" by (auto simp: of_nat_less_iff)
  from \<open>breaker_step s' op s''\<close> show ?case
  proof cases
    case (begin_admitted t b b' ev n)
    then show ?thesis using ih allow_inv allow_failures by fastforce
  next
    case (begin_rejected t b b' ev n)
    then show ?thesis using ih allow_inv allow_failures by fastforce
  next
    case (finish t err b b' ev n)
    then show ?thesis using ih small complete_inv [of b t err b' ev] by auto
  qed
qed

section \<open>What the breaker counts\<close>

text \<open>The abstract state: the number of counted failures since the last success.\<close>

definition recent_failures :: "breaker_op list \<Rightarrow> int" where
  "recent_failures ops =
     foldl (\<lambda>n op. case op of
         Begin _ \<Rightarrow> n
       | Finish _ None \<Rightarrow> 0
       | Finish _ (Some _) \<Rightarrow> n + 1) 0 ops"

lemma recent_failures_snoc [simp]:
  "recent_failures (ops @ [Begin t]) = recent_failures ops"
  "recent_failures (ops @ [Finish t None]) = 0"
  "recent_failures (ops @ [Finish t (Some e)]) = recent_failures ops + 1"
  by (simp_all add: recent_failures_def)

lemma complete_failures:
  "complete t err b = (b', ev) \<Longrightarrow>
     cb_failures b' = (if err = None then 0 else s64 (cb_failures b + 1)) \<and>
     cb_threshold b' = cb_threshold b"
  by (auto simp: breaker_defs split: option.splits if_splits)

lemma allow_threshold: "allow t b = (ok, b', ev) \<Longrightarrow> cb_threshold b' = cb_threshold b"
  by (auto simp: breaker_defs split: CircuitState.splits if_splits)

lemma breaker_run_counts:
  assumes "breaker_run (b, 0) ops s" "breaker_inv b" "cb_failures b = 0" "length ops < 2 ^ 63"
  shows "cb_failures (fst s) = recent_failures ops \<and> cb_threshold (fst s) = cb_threshold b"
  using assms
proof (induction "(b, 0::nat)" ops s rule: breaker_run.induct)
  case run_nil
  then show ?case by (simp add: recent_failures_def)
next
  case (run_step ops s' op s'')
  then have len: "length ops < 2 ^ 63 - 1"
    and ih: "cb_failures (fst s') = recent_failures ops" "cb_threshold (fst s') = cb_threshold b"
    by auto
  have "breaker_inv (fst s')" "cb_failures (fst s') \<le> int (length ops)"
    using breaker_run_inv [OF run_step.hyps(1)] run_step.prems len by auto
  then have nowrap: "s64 (cb_failures (fst s') + 1) = cb_failures (fst s') + 1"
    using len by (intro s64_id) (auto simp: breaker_inv_def in_s64_def)
  from \<open>breaker_step s' op s''\<close> show ?case
  proof cases
    case (finish t err b b' ev n)
    then show ?thesis
      using ih nowrap complete_failures [of t err b b' ev] by (cases err) auto
  qed (use ih allow_failures allow_threshold in fastforce)+
qed

section \<open>Properties\<close>

text \<open>
  C31: However concurrent calls interleave, the breaker is closed exactly while fewer than the
  (normalised) threshold of counted failures have completed since the last success, and it keeps a
  reopening deadline only while it is not closed.
\<close>

theorem breaker_closed_iff:
  assumes "breaker_run (NewCircuitBreaker th d obs, 0) ops (b, n)" "length ops < 2 ^ 63"
  shows "(cb_state b = CircuitStateClosed \<longleftrightarrow> recent_failures ops < max 1 th)
    \<and> (cb_state b = CircuitStateClosed \<longrightarrow> cb_openUntil b = 0)"
  using breaker_run_inv [OF assms(1) NewCircuitBreaker_inv _ assms(2)]
    breaker_run_counts [OF assms(1) NewCircuitBreaker_inv _ assms(2)]
  by (auto simp: breaker_inv_def NewCircuitBreaker_def split: if_splits)

definition sample_ops :: "breaker_op list" where
  "sample_ops = [Begin 0, Begin 1, Finish 5 (Some (NewError ''x'')), Finish 6 (Some (NewError ''y''))]"

lemma sample_run:
  "breaker_run (NewCircuitBreaker 2 10 False, 0) sample_ops
     (\<lparr>cb_failures = 2, cb_threshold = 2, cb_openUntil = 16, cb_resetTimeout = 10,
       cb_state = CircuitStateOpen, cb_observer = False\<rparr>, 0)"
proof -
  let ?b0 = "NewCircuitBreaker 2 10 False"
  let ?b1 = "?b0\<lparr>cb_failures := 1\<rparr>"
  let ?b2 = "?b0\<lparr>cb_failures := 2, cb_openUntil := 16, cb_state := CircuitStateOpen\<rparr>"
  have "breaker_step (?b0, n) (Begin t) (?b0, Suc n)" for t n
    by (rule begin_admitted [where ev = "[]"]) (simp add: allow_def NewCircuitBreaker_def)
  moreover have "breaker_step (?b0, Suc n) (Finish t (Some e)) (?b1, n)" for t n e
    by (rule finish [where ev = "[]"]) (simp add: breaker_defs NewCircuitBreaker_def in_s64_def)
  moreover have "breaker_step (?b1, Suc n) (Finish 6 (Some e)) (?b2, n)" for n e
    by (rule finish [where ev = "[]"]) (simp add: breaker_defs NewCircuitBreaker_def in_s64_def)
  ultimately have "breaker_run (?b0, 0)
      ((([] @ [Begin 0]) @ [Begin 1]) @ [Finish 5 (Some (NewError ''x''))]
        @ [Finish 6 (Some (NewError ''y''))]) (?b2, 0)"
    unfolding append_assoc [symmetric] by (intro run_step [rotated]) (auto intro: run_nil)
  then show ?thesis by (simp add: sample_ops_def NewCircuitBreaker_def)
qed

theorem breaker_closed_iff_witness:
  "\<exists>b n. breaker_run (NewCircuitBreaker 2 10 False, 0) sample_ops (b, n)
     \<and> (cb_state b = CircuitStateClosed \<longleftrightarrow> recent_failures sample_ops < 2)
     \<and> cb_state b = CircuitStateOpen"
  using sample_run breaker_closed_iff [OF sample_run] by (auto simp: sample_ops_def)

fun admitted :: "gotime list \<Rightarrow> CircuitBreaker \<Rightarrow> nat" where
  "admitted [] b = 0"
| "admitted (t # ts) b =
     (case allow t b of (ok, b', _) \<Rightarrow> (if ok then 1 else 0) + admitted ts b')"

lemma admitted_half_open: "cb_state b = CircuitStateHalfOpen \<Longrightarrow> admitted ts b = 0"
  by (induction ts arbitrary: b) (auto simp: allow_def)

lemma admitted_open:
  "cb_state b = CircuitStateOpen \<Longrightarrow>
     admitted ts b = (if \<exists>t\<in>set ts. cb_openUntil b \<le> t then 1 else 0)"
  by (induction ts) (auto simp: allow_def admitted_half_open)

text \<open>
  A burst of calls that reach an open circuit before any of them completes is admitted at most
  once: the first call at or after the deadline becomes the half-open probe, all others are refused.
\<close>

theorem half_open_single_probe:
  assumes "cb_state b = CircuitStateOpen"
  shows "admitted ts b = (if \<exists>t\<in>set ts. cb_openUntil b \<le> t then 1 else 0)"
  using assms by (rule admitted_open)

theorem half_open_single_probe_witness:
  "admitted [3, 20, 21, 40] ((NewCircuitBreaker 2 10 False)
      \<lparr>cb_state := CircuitStateOpen, cb_openUntil := 16\<rparr>) = 1"
  using half_open_single_probe [of "(NewCircuitBreaker 2 10 False)
      \<lparr>cb_state := CircuitStateOpen, cb_openUntil := 16\<rparr>" "[3, 20, 21, 40]"] by simp

text \<open>
  \<open>ExecuteClassified\<close> on an open circuit: before the deadline it returns \<open>ErrCircuitOpen\<close> without
  running the operation; from the deadline on it runs the operation once, returns its error, and the
  circuit closes with a clean count if the error does not count, or opens again for \<open>resetTimeout\<close>.
\<close>

theorem ExecuteClassified_open:
  assumes "breaker_inv b" "cb_state b = CircuitStateOpen" "cb_failures b < 2 ^ 63 - 1"
    and "operation s = (err, s')"
  shows "(t0 < cb_openUntil b \<longrightarrow>
      (\<exists>ev. ExecuteClassified (Some b) t0 t1 operation (Some f) s =
        (Some (Sentinel ErrCircuitOpen), Some b, s, ev)))
    \<and> (cb_openUntil b \<le> t0 \<longrightarrow>
      (\<exists>b' ev. ExecuteClassified (Some b) t0 t1 operation (Some f) s = (err, Some b', s', ev)
        \<and> (if err = None \<or> \<not> f err
           then cb_state b' = CircuitStateClosed \<and> cb_failures b' = 0 \<and> cb_openUntil b' = 0
           else cb_state b' = CircuitStateOpen \<and> cb_openUntil b' = t1 + cb_resetTimeout b)))"
proof -
  have "s64 (cb_failures b + 1) = cb_failures b + 1" "cb_threshold b \<le> cb_failures b"
    using assms(1-3) by (auto simp: breaker_inv_def in_s64_def)
  then show ?thesis
    using assms(2,4) by (cases err) (auto simp: ExecuteClassified_def breaker_defs)
qed

theorem ExecuteClassified_open_witness:
  "\<exists>b' ev. ExecuteClassified (Some \<lparr>cb_failures = 2, cb_threshold = 2, cb_openUntil = 16,
        cb_resetTimeout = 10, cb_state = CircuitStateOpen, cb_observer = True\<rparr>) 20 30
      (\<lambda>s. (Some (NewError ''down''), Suc s)) (Some (\<lambda>_. True)) 0 =
        (Some (NewError ''down''), Some b', 1, ev)
    \<and> cb_openUntil b' = 40"
  using ExecuteClassified_open [of "\<lparr>cb_failures = 2, cb_threshold = 2, cb_openUntil = 16,
        cb_resetTimeout = 10, cb_state = CircuitStateOpen, cb_observer = True\<rparr>"
      "\<lambda>s. (Some (NewError ''down''), Suc s)" 0 "Some (NewError ''down'')" 1 20 30 "\<lambda>_. True"]
  by (auto simp: breaker_inv_def)

text \<open>
  The interleaving lets a call that was admitted while the circuit was closed close it again: when
  it succeeds after other calls have opened the circuit, the count and the deadline are cleared before
  \<open>resetTimeout\<close> has passed, without a half-open probe.
\<close>

theorem late_success_closes_open_circuit:
  assumes "cb_state b = CircuitStateOpen"
  shows "\<exists>b'. breaker_step (b, Suc n) (Finish t None) (b', n)
    \<and> cb_state b' = CircuitStateClosed \<and> cb_failures b' = 0
    \<and> (\<forall>t'. fst (allow t' b'))"
proof -
  let ?b' = "b\<lparr>cb_failures := 0, cb_openUntil := 0, cb_state := CircuitStateClosed\<rparr>"
  have "complete t None b = (?b', notifyStateChange b CircuitStateOpen CircuitStateClosed)"
    using assms by (simp add: complete_def Let_def)
  then have "breaker_step (b, Suc n) (Finish t None) (?b', n)" by (rule finish)
  then show ?thesis by (intro exI [of _ ?b']) (simp add: allow_def)
qed

theorem late_success_closes_open_circuit_witness:
  "\<exists>b'. breaker_step ((NewCircuitBreaker 2 10 False)
        \<lparr>cb_failures := 2, cb_state := CircuitStateOpen, cb_openUntil := 16\<rparr>, Suc 0)
      (Finish 7 None) (b', 0) \<and> cb_state b' = CircuitStateClosed"
  using late_success_closes_open_circuit [of "(NewCircuitBreaker 2 10 False)
      \<lparr>cb_failures := 2, cb_state := CircuitStateOpen, cb_openUntil := 16\<rparr>" 0 7]
  by auto

end
