(* ===== verification/Session_Store.thy ===== *)
theory Session_Store
  imports Go_Prelude
begin

text \<open>
  The session records of \<^verbatim>\<open>src/services/gateway/session/session.go\<close> and the stores that keep them.
  \<open>Store\<close> is the Go interface \<^verbatim>\<open>Store\<close> with its two optional extensions \<^verbatim>\<open>CompareAndSwapStore\<close> and
  \<^verbatim>\<open>AccountSessionStore\<close> (\<open>None\<close> when the type assertion in the manager fails); \<open>memoryStore\<close> is the
  in-memory implementation.  The locale \<open>session_store\<close> is what the manager relies on.
\<close>

section \<open>Records\<close>

type_synonym State = string

definition StateAuthenticated :: State where "StateAuthenticated = ''authenticated''"
definition StateActive :: State where "StateActive = ''active''"
definition StateReconnecting :: State where "StateReconnecting = ''reconnecting''"
definition StateExpired :: State where "StateExpired = ''expired''"

lemmas state_defs =
  StateAuthenticated_def StateActive_def StateReconnecting_def StateExpired_def

lemma state_distinct [simp]:
  "StateAuthenticated \<noteq> StateReconnecting" "StateReconnecting \<noteq> StateAuthenticated"
  "StateExpired \<noteq> StateReconnecting" "StateReconnecting \<noteq> StateExpired"
  "StateExpired \<noteq> StateAuthenticated" "StateAuthenticated \<noteq> StateExpired"
  by (simp_all add: state_defs)

record Record =
  r_SessionID :: string
  r_AccountID :: string
  r_PlayerID :: string
  r_GatewayInstanceID :: string
  r_ConnectionID :: string
  r_ConnectionEpoch :: uint64
  r_State :: State
  r_ResumeTokenHash :: string
  r_ExpireAt :: gotime

text \<open>\<^verbatim>\<open>Record{}\<close>.\<close>

definition zeroRecord :: Record where
  "zeroRecord = \<lparr>r_SessionID = '''', r_AccountID = '''', r_PlayerID = '''', r_GatewayInstanceID = '''',
     r_ConnectionID = '''', r_ConnectionEpoch = 0, r_State = '''', r_ResumeTokenHash = '''',
     r_ExpireAt = 0\<rparr>"

section \<open>The store interfaces\<close>

record 'st Store =
  st_Create :: "Record \<Rightarrow> 'st \<Rightarrow> go_error option \<times> 'st"
  st_Get :: "string \<Rightarrow> 'st \<Rightarrow> Record result \<times> 'st"
  st_Save :: "Record \<Rightarrow> 'st \<Rightarrow> go_error option \<times> 'st"
  st_Delete :: "string \<Rightarrow> 'st \<Rightarrow> go_error option \<times> 'st"
  st_CompareAndSwap :: "(Record \<Rightarrow> Record \<Rightarrow> 'st \<Rightarrow> bool result \<times> 'st) option"
  st_ClaimAccount :: "(string \<Rightarrow> Record \<Rightarrow> 'st \<Rightarrow> (Record \<times> bool) result \<times> 'st) option"
  st_ReleaseAccount :: "string \<Rightarrow> string \<Rightarrow> 'st \<Rightarrow> go_error option \<times> 'st"

section \<open>The in-memory store\<close>

type_synonym MemoryStore = "string \<rightharpoonup> Record"

definition NewMemoryStore :: MemoryStore where
  "NewMemoryStore = Map.empty"

definition MemoryStore_Create :: "Record \<Rightarrow> MemoryStore \<Rightarrow> go_error option \<times> MemoryStore" where
  "MemoryStore_Create r s =
     (if s (r_SessionID r) \<noteq> None
      then (Some (NewError (''session '' @ r_SessionID r @ '' already exists'')), s)
      else (None, s(r_SessionID r \<mapsto> r)))"

text \<open>The search stops at the first match in the order \<open>ks\<close> in which the map is visited.\<close>

fun find_claimed :: "string \<Rightarrow> Record \<Rightarrow> MemoryStore \<Rightarrow> string list \<Rightarrow> Record" where
  "find_claimed accountID record s [] = zeroRecord"
| "find_claimed accountID record s (k # ks) =
     (case s k of
        None \<Rightarrow> find_claimed accountID record s ks
      | Some candidate \<Rightarrow>
          if r_SessionID candidate \<noteq> r_SessionID record \<and> r_AccountID candidate = accountID
             \<and> r_ConnectionID candidate \<noteq> ''''
          then candidate else find_claimed accountID record s ks)"

definition MemoryStore_ClaimAccount ::
    "(MemoryStore \<Rightarrow> string list) \<Rightarrow> string \<Rightarrow> Record \<Rightarrow> MemoryStore \<Rightarrow>
     (Record \<times> bool) result \<times> MemoryStore" where
  "MemoryStore_ClaimAccount it accountID record s =
     (let previous = find_claimed accountID record s (it s)
      in (Inr (previous, r_ConnectionID previous \<noteq> ''''), s))"

fun release_loop :: "string \<Rightarrow> string \<Rightarrow> string list \<Rightarrow> MemoryStore \<Rightarrow> MemoryStore" where
  "release_loop accountID connectionID [] s = s"
| "release_loop accountID connectionID (k # ks) s =
     release_loop accountID connectionID ks
       (case s k of
          None \<Rightarrow> s
        | Some candidate \<Rightarrow>
            if r_AccountID candidate = accountID \<and> r_ConnectionID candidate = connectionID
            then s(k \<mapsto> candidate\<lparr>r_ConnectionID := ''''\<rparr>) else s)"

definition MemoryStore_ReleaseAccount ::
    "(MemoryStore \<Rightarrow> string list) \<Rightarrow> string \<Rightarrow> string \<Rightarrow> MemoryStore \<Rightarrow>
     go_error option \<times> MemoryStore" where
  "MemoryStore_ReleaseAccount it accountID connectionID s =
     (None, release_loop accountID connectionID (it s) s)"

definition MemoryStore_Get :: "string \<Rightarrow> MemoryStore \<Rightarrow> Record result \<times> MemoryStore" where
  "MemoryStore_Get i s =
     (case s i of None \<Rightarrow> (Inl (Sentinel ErrSessionNotFound), s) | Some r \<Rightarrow> (Inr r, s))"

definition MemoryStore_Save :: "Record \<Rightarrow> MemoryStore \<Rightarrow> go_error option \<times> MemoryStore" where
  "MemoryStore_Save r s =
     (if s (r_SessionID r) = None then (Some (Sentinel ErrSessionNotFound), s)
      else (None, s(r_SessionID r \<mapsto> r)))"

definition MemoryStore_CompareAndSwap ::
    "Record \<Rightarrow> Record \<Rightarrow> MemoryStore \<Rightarrow> bool result \<times> MemoryStore" where
  "MemoryStore_CompareAndSwap expected updated s =
     (case s (r_SessionID expected) of
        None \<Rightarrow> (Inl (Sentinel ErrSessionNotFound), s)
      | Some current \<Rightarrow>
          if current \<noteq> expected then (Inr False, s)
          else (Inr True, s(r_SessionID updated \<mapsto> updated)))"

definition MemoryStore_Delete :: "string \<Rightarrow> MemoryStore \<Rightarrow> go_error option \<times> MemoryStore" where
  "MemoryStore_Delete i s = (None, s(i := None))"

definition memoryStore :: "(MemoryStore \<Rightarrow> string list) \<Rightarrow> MemoryStore Store" where
  "memoryStore it = \<lparr>st_Create = MemoryStore_Create, st_Get = MemoryStore_Get,
     st_Save = MemoryStore_Save, st_Delete = MemoryStore_Delete,
     st_CompareAndSwap = Some MemoryStore_CompareAndSwap,
     st_ClaimAccount = Some (MemoryStore_ClaimAccount it),
     st_ReleaseAccount = MemoryStore_ReleaseAccount it\<rparr>"

section \<open>The contract of a session store\<close>

text \<open>
  \<open>lookup\<close> is the abstraction of a store's state to its records, \<open>invar\<close> its representation invariant and
  \<open>valid\<close> the identifiers that a store keeps for sessions (a store may keep other things under others).  A failed \<open>Create\<close>, \<open>CompareAndSwap\<close> or \<open>Delete\<close> may or may not have taken effect; a
  \<open>CompareAndSwap\<close> that reports \<open>true\<close> replaced exactly the expected record, and \<open>ReleaseAccount\<close> at most
  clears the connection of records that belong to that account and connection.
\<close>

definition released :: "string \<Rightarrow> string \<Rightarrow> Record option \<Rightarrow> Record option \<Rightarrow> bool" where
  "released accountID connectionID old new \<longleftrightarrow> new = old \<or>
     (\<exists>r. old = Some r \<and> r_AccountID r = accountID \<and> r_ConnectionID r = connectionID
        \<and> new = Some (r\<lparr>r_ConnectionID := ''''\<rparr>))"

locale session_store =
  fixes S :: "'st Store"
    and lookup :: "'st \<Rightarrow> string \<Rightarrow> Record option"
    and invar :: "'st \<Rightarrow> bool"
    and valid :: "string \<Rightarrow> bool"
    and cas :: "Record \<Rightarrow> Record \<Rightarrow> 'st \<Rightarrow> bool result \<times> 'st"
    and claim :: "string \<Rightarrow> Record \<Rightarrow> 'st \<Rightarrow> (Record \<times> bool) result \<times> 'st"
  assumes has_cas: "st_CompareAndSwap S = Some cas"
    and has_claim: "st_ClaimAccount S = Some claim"
    and keyed: "invar s \<Longrightarrow> lookup s i = Some r \<Longrightarrow> r_SessionID r = i"
    and get_keeps: "invar s \<Longrightarrow> st_Get S i s = (res, s') \<Longrightarrow> invar s' \<and> lookup s' = lookup s"
    and get_valid: "invar s \<Longrightarrow> st_Get S i s = (Inr r, s') \<Longrightarrow> valid (r_SessionID r)"
    and get_some: "invar s \<Longrightarrow> valid i \<Longrightarrow> st_Get S i s = (Inr r, s') \<Longrightarrow> lookup s i = Some r"
    and create_ok: "invar s \<Longrightarrow> valid (r_SessionID r) \<Longrightarrow> st_Create S r s = (None, s') \<Longrightarrow>
      invar s' \<and> lookup s (r_SessionID r) = None \<and> lookup s' = (lookup s)(r_SessionID r \<mapsto> r)"
    and create_err: "invar s \<Longrightarrow> valid (r_SessionID r) \<Longrightarrow> st_Create S r s = (Some e, s') \<Longrightarrow>
      invar s' \<and> (lookup s' = lookup s \<or>
        lookup s (r_SessionID r) = None \<and> lookup s' = (lookup s)(r_SessionID r \<mapsto> r))"
    and cas_true: "invar s \<Longrightarrow> valid (r_SessionID x) \<Longrightarrow> r_SessionID u = r_SessionID x \<Longrightarrow> cas x u s = (Inr True, s') \<Longrightarrow>
      invar s' \<and> lookup s (r_SessionID x) = Some x \<and> lookup s' = (lookup s)(r_SessionID x \<mapsto> u)"
    and cas_false: "invar s \<Longrightarrow> valid (r_SessionID x) \<Longrightarrow> r_SessionID u = r_SessionID x \<Longrightarrow> cas x u s = (Inr False, s') \<Longrightarrow>
      invar s' \<and> lookup s' = lookup s"
    and cas_err: "invar s \<Longrightarrow> valid (r_SessionID x) \<Longrightarrow> r_SessionID u = r_SessionID x \<Longrightarrow> cas x u s = (Inl e, s') \<Longrightarrow>
      invar s' \<and> (lookup s' = lookup s \<or>
        lookup s (r_SessionID x) = Some x \<and> lookup s' = (lookup s)(r_SessionID x \<mapsto> u))"
    and delete_law: "invar s \<Longrightarrow> st_Delete S i s = (eo, s') \<Longrightarrow>
      invar s' \<and> (lookup s' = (lookup s)(i := None) \<or> eo \<noteq> None \<and> lookup s' = lookup s)"
    and claim_keeps: "invar s \<Longrightarrow> valid (r_SessionID r) \<Longrightarrow> claim a r s = (prev, s') \<Longrightarrow> invar s' \<and> lookup s' = lookup s"
    and release_law: "invar s \<Longrightarrow> st_ReleaseAccount S a c s = (eo, s') \<Longrightarrow>
      invar s' \<and> (\<forall>i. released a c (lookup s i) (lookup s' i))"

section \<open>The in-memory store keeps the contract\<close>

definition memory_ok :: "MemoryStore \<Rightarrow> bool" where
  "memory_ok s \<longleftrightarrow> (\<forall>i r. s i = Some r \<longrightarrow> r_SessionID r = i)"

lemma memory_ok_upd [simp]: "memory_ok s \<Longrightarrow> r_SessionID u = i \<Longrightarrow> memory_ok (s(i \<mapsto> u))"
  unfolding memory_ok_def fun_upd_apply by (metis option.inject)

lemma memory_ok_del [simp]: "memory_ok s \<Longrightarrow> memory_ok (s(i := None))"
  unfolding memory_ok_def fun_upd_apply by (metis option.discI)

lemma release_loop_released:
  "released a c (s i) (release_loop a c ks s i)"
proof (induction ks arbitrary: s)
  case Nil
  then show ?case by (simp add: released_def)
next
  case (Cons k ks)
  show ?case
  proof (cases "s k")
    case None
    then show ?thesis using Cons by simp
  next
    case (Some r)
    let ?s = "if r_AccountID r = a \<and> r_ConnectionID r = c
      then s(k \<mapsto> r\<lparr>r_ConnectionID := ''''\<rparr>) else s"
    have "released a c (?s i) (release_loop a c ks ?s i)" by (rule Cons)
    then show ?thesis using Some by (auto simp: released_def split: if_splits)
  qed
qed

lemma release_loop_other:
  "k \<notin> set ks \<Longrightarrow> release_loop a c ks s k = s k"
  by (induction ks arbitrary: s) (auto split: option.splits)

text \<open>With every key visited, exactly the matching records are cleared, whatever the order.\<close>

lemma release_loop_exact:
  assumes "i \<in> set ks"
  shows "release_loop a c ks s i =
    map_option (\<lambda>r. if r_AccountID r = a \<and> r_ConnectionID r = c
      then r\<lparr>r_ConnectionID := ''''\<rparr> else r) (s i)"
  using assms
proof (induction ks arbitrary: s)
  case Nil
  then show ?case by simp
next
  case (Cons k ks)
  show ?case
  proof (cases "i \<in> set ks")
    case True
    show ?thesis by (cases "s k") (simp_all add: Cons.IH [OF True] option.map_comp)
  next
    case False
    then have "i = k" using Cons.prems by simp
    then show ?thesis using False by (cases "s k") (simp_all add: release_loop_other)
  qed
qed

lemma released_keyed:
  "released a c old new \<Longrightarrow> \<forall>r. old = Some r \<longrightarrow> r_SessionID r = i \<Longrightarrow> new = Some r' \<Longrightarrow>
     r_SessionID r' = i"
  by (auto simp: released_def)

lemma memory_ok_release: "memory_ok s \<Longrightarrow> memory_ok (release_loop a c ks s)"
  unfolding memory_ok_def using release_loop_released released_keyed by blast

lemmas memory_defs = MemoryStore_Create_def MemoryStore_Get_def MemoryStore_Save_def
  MemoryStore_CompareAndSwap_def MemoryStore_Delete_def MemoryStore_ClaimAccount_def
  MemoryStore_ReleaseAccount_def memoryStore_def Let_def

lemma memory_release_law:
  "memory_ok s \<Longrightarrow> st_ReleaseAccount (memoryStore it) a c s = (eo, s') \<Longrightarrow>
     memory_ok s' \<and> (\<forall>i. released a c (s i) (s' i))"
  using memory_ok_release release_loop_released by (auto simp: memory_defs)

interpretation ms: session_store "memoryStore it" "\<lambda>s. s" memory_ok "\<lambda>_. True"
  MemoryStore_CompareAndSwap "MemoryStore_ClaimAccount it" for it
proof (unfold_locales, goal_cases)
  case 1 then show ?case by (simp add: memory_defs)
next
  case 2 then show ?case by (simp add: memory_defs)
next
  case 3 then show ?case by (simp add: memory_ok_def)
next
  case 4 then show ?case by (auto simp: memory_defs split: option.splits)
next
  case 5 then show ?case by simp
next
  case 6 then show ?case by (auto simp: memory_defs split: option.splits)
next
  case 7 then show ?case by (auto simp: memory_defs split: if_splits)
next
  case 8 then show ?case by (auto simp: memory_defs split: if_splits)
next
  case 9 then show ?case by (auto simp: memory_defs split: option.splits if_splits)
next
  case 10 then show ?case by (auto simp: memory_defs split: option.splits if_splits)
next
  case 11 then show ?case by (auto simp: memory_defs split: option.splits if_splits)
next
  case 12 then show ?case by (auto simp: memory_defs)
next
  case 13 then show ?case by (simp add: memory_defs)
next
  case 14 then show ?case by (rule memory_release_law)
qed

end
