(* ===== verification/Session_Manager.thy ===== *)
theory Session_Manager
  imports Session_Store
begin

text \<open>
  The session manager of \<^verbatim>\<open>src/services/gateway/session/session.go\<close> over any store that implements
  \<open>Store\<close>.  \<open>Manager\<close> is the Go struct with the state of its store; the calls made to the preempt
  handler and the lifecycle handler and the expiry goroutines started are logged in it.  The results
  of \<^verbatim>\<open>randomID()\<close>, the hash function and the clock readings are arguments.  \<open>Resume\<close> and \<open>disconnect\<close>
  read the store and later write it: \<open>resume_found\<close> and \<open>disconnect_found\<close> are what follows the read,
  so that the interleaving of two calls can be stated.
\<close>

section \<open>State\<close>

type_synonym LifecycleType = string

definition LifecycleConnected :: LifecycleType where "LifecycleConnected = ''connected''"
definition LifecycleDisconnected :: LifecycleType where "LifecycleDisconnected = ''disconnected''"
definition LifecycleResumed :: LifecycleType where "LifecycleResumed = ''resumed''"
definition LifecycleExpired :: LifecycleType where "LifecycleExpired = ''expired''"
definition LifecyclePreempted :: LifecycleType where "LifecyclePreempted = ''preempted''"

lemmas lifecycle_defs = LifecycleConnected_def LifecycleDisconnected_def LifecycleResumed_def
  LifecycleExpired_def LifecyclePreempted_def

record LifecycleEvent =
  ev_EventID :: string
  ev_Type :: LifecycleType
  ev_SessionID :: string
  ev_AccountID :: string
  ev_PlayerID :: string
  ev_ConnectionID :: string
  ev_ConnectionEpoch :: uint64
  ev_GatewayInstanceID :: string
  ev_OccurredAt :: gotime

record 'st Manager =
  m_store :: 'st
  m_gatewayID :: string
  m_sessionTTL :: duration
  m_reconnectGrace :: duration
  m_connections :: "string \<rightharpoonup> string"
  m_accountConnections :: "string \<rightharpoonup> string"
  m_preempt :: bool
  m_lifecycle :: bool
  m_preempted :: "Record list"
  m_events :: "LifecycleEvent list"
  m_timers :: "(Record \<times> duration) list"

definition NewManager :: "'st \<Rightarrow> string \<Rightarrow> duration \<Rightarrow> duration \<Rightarrow> 'st Manager" where
  "NewManager store gatewayID sessionTTL reconnectGrace =
     \<lparr>m_store = store, m_gatewayID = gatewayID, m_sessionTTL = sessionTTL,
      m_reconnectGrace = reconnectGrace, m_connections = Map.empty,
      m_accountConnections = Map.empty, m_preempt = False, m_lifecycle = False,
      m_preempted = [], m_events = [], m_timers = []\<rparr>"

definition SetPreemptHandler :: "bool \<Rightarrow> 'st Manager \<Rightarrow> 'st Manager" where
  "SetPreemptHandler handler m = m\<lparr>m_preempt := handler\<rparr>"

definition SetLifecycleHandler :: "bool \<Rightarrow> 'st Manager \<Rightarrow> 'st Manager" where
  "SetLifecycleHandler handler m = m\<lparr>m_lifecycle := handler\<rparr>"

record Created =
  c_Record :: Record
  c_ResumeToken :: string

text \<open>A string-valued Go map read: the zero value when the key is absent.\<close>

definition str_at :: "(string \<rightharpoonup> string) \<Rightarrow> string \<Rightarrow> string" where
  "str_at m k = (case m k of None \<Rightarrow> '''' | Some v \<Rightarrow> v)"

section \<open>Helpers\<close>

definition lifecycleEvent :: "LifecycleType \<Rightarrow> Record \<Rightarrow> gotime \<Rightarrow> LifecycleEvent" where
  "lifecycleEvent eventType record now =
     \<lparr>ev_EventID = r_SessionID record @ '':'' @ show_nat (unat (r_ConnectionEpoch record))
        @ '':'' @ eventType,
      ev_Type = eventType, ev_SessionID = r_SessionID record, ev_AccountID = r_AccountID record,
      ev_PlayerID = r_PlayerID record, ev_ConnectionID = r_ConnectionID record,
      ev_ConnectionEpoch = r_ConnectionEpoch record,
      ev_GatewayInstanceID = r_GatewayInstanceID record, ev_OccurredAt = now\<rparr>"

definition emitLifecycle :: "LifecycleType \<Rightarrow> Record \<Rightarrow> gotime \<Rightarrow> 'st Manager \<Rightarrow> 'st Manager" where
  "emitLifecycle eventType record now m =
     (if \<not> m_lifecycle m then m
      else m\<lparr>m_events := m_events m @ [lifecycleEvent eventType record now]\<rparr>)"

definition saveVersionResult ::
    "'st Store \<Rightarrow> Record \<Rightarrow> Record \<Rightarrow> 'st Manager \<Rightarrow> bool result \<times> 'st Manager" where
  "saveVersionResult S expected updated m =
     (case st_CompareAndSwap S of
        Some cas \<Rightarrow> (case cas expected updated (m_store m) of (res, st) \<Rightarrow> (res, m\<lparr>m_store := st\<rparr>))
      | None \<Rightarrow>
          (case st_Save S updated (m_store m) of
             (Some e, st) \<Rightarrow> (Inl e, m\<lparr>m_store := st\<rparr>)
           | (None, st) \<Rightarrow> (Inr True, m\<lparr>m_store := st\<rparr>)))"

definition saveVersion ::
    "'st Store \<Rightarrow> Record \<Rightarrow> Record \<Rightarrow> 'st Manager \<Rightarrow> go_error option \<times> 'st Manager" where
  "saveVersion S expected updated m =
     (case saveVersionResult S expected updated m of
        (Inl e, m') \<Rightarrow> (Some e, m')
      | (Inr _, m') \<Rightarrow> (None, m'))"

text \<open>The type assertion to \<^verbatim>\<open>AccountSessionStore\<close> and the call of \<^verbatim>\<open>ClaimAccount\<close>.\<close>

definition claimAccount ::
    "'st Store \<Rightarrow> string \<Rightarrow> Record \<Rightarrow> 'st Manager \<Rightarrow> (Record \<times> bool) result \<times> 'st Manager" where
  "claimAccount S accountID r m =
     (case st_ClaimAccount S of
        None \<Rightarrow> (Inr (zeroRecord, False), m)
      | Some claim \<Rightarrow>
          (case claim accountID r (m_store m) of (res, st) \<Rightarrow> (res, m\<lparr>m_store := st\<rparr>)))"

definition releaseAccount ::
    "'st Store \<Rightarrow> string \<Rightarrow> string \<Rightarrow> 'st Manager \<Rightarrow> go_error option \<times> 'st Manager" where
  "releaseAccount S accountID connectionID m =
     (case st_ClaimAccount S of
        None \<Rightarrow> (None, m)
      | Some _ \<Rightarrow>
          (case st_ReleaseAccount S accountID connectionID (m_store m) of
             (eo, st) \<Rightarrow> (eo, m\<lparr>m_store := st\<rparr>)))"

text \<open>The tail of \<^verbatim>\<open>Create\<close> and \<^verbatim>\<open>Resume\<close>: hand the previous connection to the preempt handler.\<close>

definition notifyPreempted ::
    "Record \<Rightarrow> bool \<Rightarrow> string \<Rightarrow> gotime \<Rightarrow> 'st Manager \<Rightarrow> 'st Manager" where
  "notifyPreempted previousRecord previous connectionID now m =
     (if previous \<and> r_ConnectionID previousRecord \<noteq> '''' \<and> r_ConnectionID previousRecord \<noteq> connectionID
      then emitLifecycle LifecyclePreempted previousRecord now
             (if m_preempt m then m\<lparr>m_preempted := m_preempted m @ [previousRecord]\<rparr> else m)
      else m)"

definition scheduleExpiry :: "Record \<Rightarrow> gotime \<Rightarrow> gotime \<Rightarrow> 'st Manager \<Rightarrow> 'st Manager" where
  "scheduleExpiry disconnected expiresAt wall m =
     (let until = Sub expiresAt wall;
          delay = (if until \<le> 0 then Millisecond else until)
      in m\<lparr>m_timers := m_timers m @ [(disconnected, delay)]\<rparr>)"

section \<open>Operations\<close>

text \<open>
  \<open>sidr\<close> and \<open>tokr\<close> are the results of the two calls of \<^verbatim>\<open>randomID\<close> and \<open>H\<close> is \<^verbatim>\<open>hash\<close>.
\<close>

definition Manager_Create ::
    "'st Store \<Rightarrow> (string \<Rightarrow> string) \<Rightarrow> string result \<Rightarrow> string result \<Rightarrow> string \<Rightarrow> string \<Rightarrow> gotime \<Rightarrow>
     string list \<Rightarrow> 'st Manager \<Rightarrow> Created result \<times> 'st Manager" where
  "Manager_Create S H sidr tokr accountID connectionID now playerIDs m =
     (case sidr of Inl e \<Rightarrow> (Inl e, m) | Inr sid \<Rightarrow>
      (case tokr of Inl e \<Rightarrow> (Inl e, m) | Inr token \<Rightarrow>
        let playerID = (case playerIDs of [] \<Rightarrow> '''' | p # _ \<Rightarrow> p);
            r = \<lparr>r_SessionID = sid, r_AccountID = accountID, r_PlayerID = playerID,
                 r_GatewayInstanceID = m_gatewayID m, r_ConnectionID = connectionID,
                 r_ConnectionEpoch = 1, r_State = StateAuthenticated,
                 r_ResumeTokenHash = H token, r_ExpireAt = now + m_sessionTTL m\<rparr>
        in case st_Create S r (m_store m) of
             (Some e, st) \<Rightarrow> (Inl e, m\<lparr>m_store := st\<rparr>)
           | (None, st) \<Rightarrow>
               (case claimAccount S accountID r (m\<lparr>m_store := st\<rparr>) of
                  (Inl e, m1) \<Rightarrow> (Inl e, m1)
                | (Inr (claimed, found), m1) \<Rightarrow>
                    let previousID = str_at (m_accountConnections m1) accountID;
                        previous = (found \<or> previousID \<noteq> '''');
                        previousRecord = (if found then claimed
                          else zeroRecord\<lparr>r_AccountID := accountID, r_ConnectionID := previousID\<rparr>);
                        m2 = m1\<lparr>m_accountConnections := (m_accountConnections m1)(accountID \<mapsto> connectionID),
                                m_connections := (m_connections m1)(connectionID \<mapsto> sid)\<rparr>;
                        m3 = notifyPreempted previousRecord previous connectionID now m2
                    in (Inr \<lparr>c_Record = r, c_ResumeToken = token\<rparr>,
                        emitLifecycle LifecycleConnected r now m3))))"

text \<open>The loop over \<^verbatim>\<open>m.connections\<close> in \<open>disconnect\<close>, in the order \<open>ks\<close>.\<close>

fun forget_loop :: "string \<Rightarrow> string \<Rightarrow> string list \<Rightarrow> 'st Manager \<Rightarrow> 'st Manager" where
  "forget_loop sessionID accountID [] m = m"
| "forget_loop sessionID accountID (conn # ks) m =
     forget_loop sessionID accountID ks
       (if m_connections m conn = Some sessionID
        then let m1 = m\<lparr>m_connections := (m_connections m)(conn := None)\<rparr>
             in if str_at (m_accountConnections m1) accountID = conn
                then m1\<lparr>m_accountConnections := (m_accountConnections m1)(accountID := None)\<rparr>
                else m1
        else m)"

definition disconnect_found ::
    "'st Store \<Rightarrow> ((string \<rightharpoonup> string) \<Rightarrow> string list) \<Rightarrow> string \<Rightarrow> string \<Rightarrow> gotime \<Rightarrow> uint64 list \<Rightarrow>
     gotime \<Rightarrow> Record \<Rightarrow> 'st Manager \<Rightarrow> go_error option \<times> 'st Manager" where
  "disconnect_found S it sessionID connectionID now epochs wall r m =
     (if connectionID \<noteq> '''' \<and> r_ConnectionID r \<noteq> connectionID then (None, m)
      else if epochs \<noteq> [] \<and> hd epochs \<noteq> 0 \<and> r_ConnectionEpoch r \<noteq> hd epochs then (None, m)
      else
        let r' = r\<lparr>r_State := StateReconnecting, r_ConnectionID := '''',
                  r_ExpireAt := now + m_reconnectGrace m\<rparr>
        in case saveVersion S r r' m of
             (Some e, m1) \<Rightarrow> (Some e, m1)
           | (None, m1) \<Rightarrow>
               (case releaseAccount S (r_AccountID r') (r_ConnectionID r) m1 of
                  (Some e, m2) \<Rightarrow> (Some e, m2)
                | (None, m2) \<Rightarrow>
                    let m3 = forget_loop sessionID (r_AccountID r') (it (m_connections m2)) m2;
                        m4 = emitLifecycle LifecycleDisconnected r now m3
                    in (None, scheduleExpiry r (now + m_reconnectGrace m) wall m4)))"

definition disconnect ::
    "'st Store \<Rightarrow> ((string \<rightharpoonup> string) \<Rightarrow> string list) \<Rightarrow> string \<Rightarrow> string \<Rightarrow> gotime \<Rightarrow> uint64 list \<Rightarrow>
     gotime \<Rightarrow> 'st Manager \<Rightarrow> go_error option \<times> 'st Manager" where
  "disconnect S it sessionID connectionID now epochs wall m =
     (case st_Get S sessionID (m_store m) of
        (Inl e, st) \<Rightarrow> (Some e, m\<lparr>m_store := st\<rparr>)
      | (Inr r, st) \<Rightarrow>
          disconnect_found S it sessionID connectionID now epochs wall r (m\<lparr>m_store := st\<rparr>))"

definition Disconnect ::
    "'st Store \<Rightarrow> ((string \<rightharpoonup> string) \<Rightarrow> string list) \<Rightarrow> string \<Rightarrow> gotime \<Rightarrow> gotime \<Rightarrow> 'st Manager \<Rightarrow>
     go_error option \<times> 'st Manager" where
  "Disconnect S it sessionID now wall m = disconnect S it sessionID '''' now [] wall m"

definition DisconnectConnection ::
    "'st Store \<Rightarrow> ((string \<rightharpoonup> string) \<Rightarrow> string list) \<Rightarrow> string \<Rightarrow> string \<Rightarrow> gotime \<Rightarrow> uint64 list \<Rightarrow>
     gotime \<Rightarrow> 'st Manager \<Rightarrow> go_error option \<times> 'st Manager" where
  "DisconnectConnection S it sessionID connectionID now epochs wall m =
     disconnect S it sessionID connectionID now epochs wall m"

definition resume_found ::
    "'st Store \<Rightarrow> (string \<Rightarrow> string) \<Rightarrow> string result \<Rightarrow> string \<Rightarrow> string \<Rightarrow> string \<Rightarrow> gotime \<Rightarrow> Record \<Rightarrow>
     'st Manager \<Rightarrow> Created result \<times> 'st Manager" where
  "resume_found S H tokr sessionID token connectionID now r m =
     (if \<not> now < r_ExpireAt r then
        (Inl (Sentinel ErrSessionExpiry), snd (saveVersion S r (r\<lparr>r_State := StateExpired\<rparr>) m))
      else if H token \<noteq> r_ResumeTokenHash r then (Inl (Sentinel ErrInvalidResumeToken), m)
      else case tokr of Inl e \<Rightarrow> (Inl e, m) | Inr nextToken \<Rightarrow>
        let r' = r\<lparr>r_State := StateAuthenticated, r_ConnectionID := connectionID,
                  r_GatewayInstanceID := m_gatewayID m,
                  r_ConnectionEpoch := r_ConnectionEpoch r + 1,
                  r_ResumeTokenHash := H nextToken, r_ExpireAt := now + m_sessionTTL m\<rparr>
        in case saveVersionResult S r r' m of
             (Inl e, m1) \<Rightarrow> (Inl e, m1)
           | (Inr ok, m1) \<Rightarrow>
               if \<not> ok then (Inl (Sentinel ErrSessionConflict), m1)
               else (case claimAccount S (r_AccountID r') r' m1 of
                  (Inl e, m2) \<Rightarrow> (Inl e, m2)
                | (Inr (claimed, found), m2) \<Rightarrow>
                    let previousID = str_at (m_accountConnections m2) (r_AccountID r');
                        previous = (found \<or> previousID \<noteq> '''' \<and> previousID \<noteq> connectionID);
                        previousRecord = (if \<not> found \<and> previous
                          then zeroRecord\<lparr>r_AccountID := r_AccountID r', r_ConnectionID := previousID\<rparr>
                          else claimed);
                        m3 = m2\<lparr>m_accountConnections :=
                                  (m_accountConnections m2)(r_AccountID r' \<mapsto> connectionID),
                                m_connections := (m_connections m2)(connectionID \<mapsto> sessionID)\<rparr>;
                        m4 = notifyPreempted previousRecord previous connectionID now m3
                    in (Inr \<lparr>c_Record = r', c_ResumeToken = nextToken\<rparr>,
                        emitLifecycle LifecycleResumed r' now m4)))"

definition Resume ::
    "'st Store \<Rightarrow> (string \<Rightarrow> string) \<Rightarrow> string result \<Rightarrow> string \<Rightarrow> string \<Rightarrow> string \<Rightarrow> gotime \<Rightarrow>
     'st Manager \<Rightarrow> Created result \<times> 'st Manager" where
  "Resume S H tokr sessionID token connectionID now m =
     (case st_Get S sessionID (m_store m) of
        (Inl e, st) \<Rightarrow> (Inl e, m\<lparr>m_store := st\<rparr>)
      | (Inr r, st) \<Rightarrow>
          resume_found S H tokr sessionID token connectionID now r (m\<lparr>m_store := st\<rparr>))"

definition expire :: "'st Store \<Rightarrow> Record \<Rightarrow> gotime \<Rightarrow> 'st Manager \<Rightarrow> 'st Manager" where
  "expire S disconnected now m =
     (case st_Get S (r_SessionID disconnected) (m_store m) of
        (Inl e, st) \<Rightarrow>
          let m1 = m\<lparr>m_store := st\<rparr>
          in if errors_is e ErrSessionNotFound
             then emitLifecycle LifecycleExpired (disconnected\<lparr>r_State := StateExpired\<rparr>) now m1
             else m1
      | (Inr record, st) \<Rightarrow>
          let m1 = m\<lparr>m_store := st\<rparr>
          in if r_State record \<noteq> StateReconnecting
                \<or> r_ConnectionEpoch record \<noteq> r_ConnectionEpoch disconnected
                \<or> now < r_ExpireAt record
             then m1
             else case st_Delete S (r_SessionID disconnected) (m_store m1) of
                    (Some e, st2) \<Rightarrow> m1\<lparr>m_store := st2\<rparr>
                  | (None, st2) \<Rightarrow>
                      emitLifecycle LifecycleExpired (record\<lparr>r_State := StateExpired\<rparr>) now
                        (snd (releaseAccount S (r_AccountID record) '''' (m1\<lparr>m_store := st2\<rparr>))))"

section \<open>Frame lemmas\<close>

lemma emitLifecycle_frame [simp]:
  "m_store (emitLifecycle t r now m) = m_store m"
  "m_connections (emitLifecycle t r now m) = m_connections m"
  "m_accountConnections (emitLifecycle t r now m) = m_accountConnections m"
  "m_preempted (emitLifecycle t r now m) = m_preempted m"
  "m_timers (emitLifecycle t r now m) = m_timers m"
  "m_lifecycle (emitLifecycle t r now m) = m_lifecycle m"
  by (simp_all add: emitLifecycle_def)

lemma notifyPreempted_frame [simp]:
  "m_store (notifyPreempted p b c now m) = m_store m"
  "m_connections (notifyPreempted p b c now m) = m_connections m"
  "m_accountConnections (notifyPreempted p b c now m) = m_accountConnections m"
  "m_timers (notifyPreempted p b c now m) = m_timers m"
  by (simp_all add: notifyPreempted_def)

lemma scheduleExpiry_frame [simp]:
  "m_store (scheduleExpiry r t w m) = m_store m"
  "m_connections (scheduleExpiry r t w m) = m_connections m"
  "m_accountConnections (scheduleExpiry r t w m) = m_accountConnections m"
  "m_events (scheduleExpiry r t w m) = m_events m"
  by (simp_all add: scheduleExpiry_def Let_def)

lemma forget_loop_frame [simp]:
  "m_store (forget_loop s a ks m) = m_store m"
  "m_events (forget_loop s a ks m) = m_events m"
  by (induction ks arbitrary: m) (auto simp: Let_def)

text \<open>With every key visited, the loop forgets exactly the connections of the session.\<close>

lemma forget_loop_other: "c \<notin> set ks \<Longrightarrow> m_connections (forget_loop s a ks m) c = m_connections m c"
  by (induction ks arbitrary: m) (auto simp: Let_def)

lemma forget_loop_none: "m_connections m c = None \<Longrightarrow> m_connections (forget_loop s a ks m) c = None"
  by (induction ks arbitrary: m) (auto simp: Let_def)

lemma forget_loop_connections:
  "c \<in> set ks \<or> m_connections m c \<noteq> Some s \<Longrightarrow>
   m_connections (forget_loop s a ks m) c =
     (if m_connections m c = Some s then None else m_connections m c)"
  by (induction ks arbitrary: m) (auto simp: Let_def forget_loop_none)

section \<open>Operations over any store that keeps the contract\<close>

context session_store
begin

lemma saveVersionResult_lookup:
  assumes "invar (m_store m)" "valid (r_SessionID x)" "r_SessionID u = r_SessionID x" "saveVersionResult S x u m = (res, m')"
  shows "invar (m_store m')" "\<exists>st. m' = m\<lparr>m_store := st\<rparr>"
    and "res = Inr True \<Longrightarrow> lookup (m_store m) (r_SessionID x) = Some x \<and>
      lookup (m_store m') = (lookup (m_store m))(r_SessionID x \<mapsto> u)"
    and "res = Inr False \<Longrightarrow> lookup (m_store m') = lookup (m_store m)"
    and "lookup (m_store m') = lookup (m_store m) \<or>
      lookup (m_store m) (r_SessionID x) = Some x \<and>
      lookup (m_store m') = (lookup (m_store m))(r_SessionID x \<mapsto> u)"
proof -
  obtain st where c: "cas x u (m_store m) = (res, st)" and m': "m' = m\<lparr>m_store := st\<rparr>"
    using assms(4) by (auto simp: saveVersionResult_def has_cas split: prod.splits)
  then show "\<exists>st. m' = m\<lparr>m_store := st\<rparr>" by blast
  have t: "invar st \<and> lookup (m_store m) (r_SessionID x) = Some x \<and>
      lookup st = (lookup (m_store m))(r_SessionID x \<mapsto> u)" if "res = Inr True"
    using cas_true [OF assms(1,2,3)] c that by blast
  have f: "invar st \<and> lookup st = lookup (m_store m)" if "res = Inr False"
    using cas_false [OF assms(1,2,3)] c that by blast
  have e: "invar st \<and> (lookup st = lookup (m_store m) \<or>
      lookup (m_store m) (r_SessionID x) = Some x \<and>
      lookup st = (lookup (m_store m))(r_SessionID x \<mapsto> u))" if "res = Inl y" for y
    using cas_err [OF assms(1,2,3)] c that by blast
  have st: "m_store m' = st" using m' by simp
  have cs: "res = Inr True \<or> res = Inr False \<or> (\<exists>y. res = Inl y)" by (cases res) auto
  show "invar (m_store m')" unfolding st using cs t f e by blast
  show "res = Inr True \<Longrightarrow> lookup (m_store m) (r_SessionID x) = Some x \<and>
      lookup (m_store m') = (lookup (m_store m))(r_SessionID x \<mapsto> u)"
    unfolding st using t by blast
  show "res = Inr False \<Longrightarrow> lookup (m_store m') = lookup (m_store m)"
    unfolding st using f by blast
  show "lookup (m_store m') = lookup (m_store m) \<or>
      lookup (m_store m) (r_SessionID x) = Some x \<and>
      lookup (m_store m') = (lookup (m_store m))(r_SessionID x \<mapsto> u)"
    unfolding st using cs t f e by blast
qed

lemma claimAccount_lookup:
  "invar (m_store m) \<Longrightarrow> valid (r_SessionID r) \<Longrightarrow> claimAccount S a r m = (res, m') \<Longrightarrow>
     invar (m_store m') \<and> lookup (m_store m') = lookup (m_store m) \<and> (\<exists>st. m' = m\<lparr>m_store := st\<rparr>)"
  using claim_keeps [of "m_store m" r a]
  by (fastforce simp: claimAccount_def has_claim split: prod.splits)

lemma releaseAccount_lookup:
  "invar (m_store m) \<Longrightarrow> releaseAccount S a c m = (res, m') \<Longrightarrow>
     invar (m_store m') \<and> (\<forall>i. released a c (lookup (m_store m) i) (lookup (m_store m') i))
     \<and> (\<exists>st. m' = m\<lparr>m_store := st\<rparr>)"
  using release_law [of "m_store m" a c]
  by (fastforce simp: releaseAccount_def has_claim split: prod.splits)

text \<open>A successful \<open>Resume\<close> found the record it had read still in place and replaced it.\<close>

lemma resume_found_ok:
  assumes inv: "invar (m_store m)" and val: "valid (r_SessionID r)"
    and res: "resume_found S H tokr sessionID token connectionID now r m = (Inr c, m')"
  shows "now < r_ExpireAt r" and "H token = r_ResumeTokenHash r"
    and "\<exists>nextToken. tokr = Inr nextToken \<and> c_ResumeToken c = nextToken \<and>
      c_Record c = r\<lparr>r_State := StateAuthenticated, r_ConnectionID := connectionID,
        r_GatewayInstanceID := m_gatewayID m, r_ConnectionEpoch := r_ConnectionEpoch r + 1,
        r_ResumeTokenHash := H nextToken, r_ExpireAt := now + m_sessionTTL m\<rparr>"
    and "lookup (m_store m) (r_SessionID r) = Some r"
    and "lookup (m_store m') = (lookup (m_store m))(r_SessionID r \<mapsto> c_Record c)"
    and "invar (m_store m')"
    and "m_connections m' = (m_connections m)(connectionID \<mapsto> sessionID)"
    and "m_accountConnections m' = (m_accountConnections m)(r_AccountID r \<mapsto> connectionID)"
proof -
  from res obtain nextToken m1 claimed found m2 where
    guards: "now < r_ExpireAt r" "H token = r_ResumeTokenHash r" "tokr = Inr nextToken"
    and c: "c_ResumeToken c = nextToken" "c_Record c = r\<lparr>r_State := StateAuthenticated,
        r_ConnectionID := connectionID, r_GatewayInstanceID := m_gatewayID m,
        r_ConnectionEpoch := r_ConnectionEpoch r + 1, r_ResumeTokenHash := H nextToken,
        r_ExpireAt := now + m_sessionTTL m\<rparr>"
    and save: "saveVersionResult S r (c_Record c) m = (Inr True, m1)"
    and cl: "claimAccount S (r_AccountID r) (c_Record c) m1 = (Inr (claimed, found), m2)"
    and m': "m_store m' = m_store m2" "m_connections m' = (m_connections m2)(connectionID \<mapsto> sessionID)"
      "m_accountConnections m' = (m_accountConnections m2)(r_AccountID r \<mapsto> connectionID)"
    by (auto simp: resume_found_def Let_def split: if_splits sum.splits prod.splits)
  have sid: "r_SessionID (c_Record c) = r_SessionID r" using c(2) by simp
  note sv = saveVersionResult_lookup [OF inv val sid save]
  note cl' = claimAccount_lookup [OF sv(1) _ cl, unfolded sid, OF val]
  show "now < r_ExpireAt r" "H token = r_ResumeTokenHash r" by fact+
  show "\<exists>nextToken. tokr = Inr nextToken \<and> c_ResumeToken c = nextToken \<and>
      c_Record c = r\<lparr>r_State := StateAuthenticated, r_ConnectionID := connectionID,
        r_GatewayInstanceID := m_gatewayID m, r_ConnectionEpoch := r_ConnectionEpoch r + 1,
        r_ResumeTokenHash := H nextToken, r_ExpireAt := now + m_sessionTTL m\<rparr>"
    using guards(3) c by blast
  show "lookup (m_store m) (r_SessionID r) = Some r" using sv(3) by simp
  show "lookup (m_store m') = (lookup (m_store m))(r_SessionID r \<mapsto> c_Record c)"
    "invar (m_store m')" using sv(3) cl' m'(1) by auto
  have "m_connections m2 = m_connections m" "m_accountConnections m2 = m_accountConnections m"
    using sv(2) cl' by auto
  then show "m_connections m' = (m_connections m)(connectionID \<mapsto> sessionID)"
    "m_accountConnections m' = (m_accountConnections m)(r_AccountID r \<mapsto> connectionID)"
    using m'(2,3) by simp_all
qed

end

section \<open>Concurrent calls\<close>

text \<open>
  A system of concurrent calls on one manager: \<open>y_read\<close> holds the records that calls in progress have
  read, \<open>y_used\<close> the session ids handed out (\<^verbatim>\<open>randomID\<close> does not repeat itself), \<open>y_log\<close> the session and
  connection epoch of every successful \<open>Create\<close> and \<open>Resume\<close> in order, \<open>y_steps\<close> the number of \<open>Resume\<close>
  calls.  Reads and commits of different calls interleave freely.
\<close>

record 'st session_sys =
  y_m :: "'st Manager"
  y_read :: "Record set"
  y_used :: "string set"
  y_log :: "(string \<times> uint64) list"
  y_steps :: nat

definition won :: "Created result \<Rightarrow> (string \<times> uint64) list" where
  "won res = (case res of
     Inl _ \<Rightarrow> [] | Inr c \<Rightarrow> [(r_SessionID (c_Record c), r_ConnectionEpoch (c_Record c))])"

inductive session_step ::
    "'st Store \<Rightarrow> (string \<Rightarrow> string) \<Rightarrow> ((string \<rightharpoonup> string) \<Rightarrow> string list) \<Rightarrow>
     'st session_sys \<Rightarrow> 'st session_sys \<Rightarrow> bool"
  for S :: "'st Store" and H and it where
  s_read: "st_Get S sid (m_store (y_m y)) = (Inr r, st) \<Longrightarrow>
     session_step S H it y (y\<lparr>y_m := (y_m y)\<lparr>m_store := st\<rparr>, y_read := insert r (y_read y)\<rparr>)"
| s_resume: "r \<in> y_read y \<Longrightarrow>
     resume_found S H tokr (r_SessionID r) token conn now r (y_m y) = (res, m') \<Longrightarrow>
     session_step S H it y (y\<lparr>y_m := m', y_log := y_log y @ won res, y_steps := Suc (y_steps y)\<rparr>)"
| s_disconnect: "r \<in> y_read y \<Longrightarrow>
     disconnect_found S it (r_SessionID r) conn now epochs wall r (y_m y) = (eo, m') \<Longrightarrow>
     session_step S H it y (y\<lparr>y_m := m'\<rparr>)"
| s_expire: "session_step S H it y (y\<lparr>y_m := expire S d now (y_m y)\<rparr>)"
| s_create: "sid \<notin> y_used y \<Longrightarrow>
     Manager_Create S H (Inr sid) tokr account conn now players (y_m y) = (res, m') \<Longrightarrow>
     session_step S H it y
       (y\<lparr>y_m := m', y_log := y_log y @ won res, y_used := insert sid (y_used y)\<rparr>)"

text \<open>
  The abstract machine: a partial map from sessions to epochs.  An epoch is dropped with its session,
  bumped by a resume (which may or may not be reported as won), or set to one for a new session.
\<close>

record fence =
  f_epoch :: "string \<rightharpoonup> uint64"
  f_used :: "string set"
  f_log :: "(string \<times> uint64) list"
  f_steps :: nat

inductive fence_step :: "fence \<Rightarrow> fence \<Rightarrow> bool" where
  f_drop: "\<forall>sid. E' sid = f_epoch f sid \<or> E' sid = None \<Longrightarrow> n \<in> {f_steps f, Suc (f_steps f)} \<Longrightarrow>
     used \<in> {f_used f, insert sid (f_used f)} \<Longrightarrow>
     fence_step f (f\<lparr>f_epoch := E', f_steps := n, f_used := used\<rparr>)"
| f_bump: "f_epoch f sid = Some e \<Longrightarrow> w \<in> {[], [(sid, e + 1)]} \<Longrightarrow>
     fence_step f (f\<lparr>f_epoch := (f_epoch f)(sid \<mapsto> e + 1), f_log := f_log f @ w,
       f_steps := Suc (f_steps f)\<rparr>)"
| f_new: "sid \<notin> f_used f \<Longrightarrow> w \<in> {[], [(sid, 1)]} \<Longrightarrow>
     fence_step f (f\<lparr>f_epoch := (f_epoch f)(sid \<mapsto> 1), f_log := f_log f @ w,
       f_used := insert sid (f_used f)\<rparr>)"

definition epochs_won :: "string \<Rightarrow> (string \<times> uint64) list \<Rightarrow> nat list" where
  "epochs_won sid log = map (\<lambda>p. unat (snd p)) (filter (\<lambda>p. fst p = sid) log)"

lemma epochs_won_append [simp]:
  "epochs_won sid (l @ l') = epochs_won sid l @ epochs_won sid l'"
  by (simp add: epochs_won_def)

lemma epochs_won_simps [simp]:
  "epochs_won sid [] = []"
  "epochs_won sid [(s, e)] = (if s = sid then [unat e] else [])"
  by (auto simp: epochs_won_def)

definition fence_inv :: "fence \<Rightarrow> bool" where
  "fence_inv f \<longleftrightarrow>
     (\<forall>sid e. f_epoch f sid = Some e \<longrightarrow> sid \<in> f_used f \<and> unat e \<le> Suc (f_steps f)
        \<and> (\<forall>x \<in> set (epochs_won sid (f_log f)). x \<le> unat e))
     \<and> (\<forall>sid. epochs_won sid (f_log f) \<noteq> [] \<longrightarrow> sid \<in> f_used f)
     \<and> (\<forall>sid. sorted_wrt (<) (epochs_won sid (f_log f)))"

lemma unat_inc: "unat (e :: uint64) < 2 ^ 64 - 1 \<Longrightarrow> unat (e + 1) = Suc (unat e)"
  by (subst unat_add_lem [THEN iffD1]) auto

lemma fence_step_inv:
  assumes "fence_step f f'" "fence_inv f" "f_steps f' < 2 ^ 64 - 1"
  shows "fence_inv f'"
  using assms(1)
proof cases
  case (f_drop E' n used sid)
  have old: "f_epoch f s = Some e" if "E' s = Some e" for s e
    using f_drop(2) that by (metis option.distinct(1))
  have sub: "f_used f \<subseteq> used" "Suc (f_steps f) \<le> Suc n" using f_drop(3,4) by auto
  have "s \<in> used \<and> unat e \<le> Suc n \<and> (\<forall>x \<in> set (epochs_won s (f_log f)). x \<le> unat e)"
    if "E' s = Some e" for s e
  proof -
    have "s \<in> f_used f" "unat e \<le> Suc (f_steps f)" "\<forall>x \<in> set (epochs_won s (f_log f)). x \<le> unat e"
      using assms(2) old [OF that] unfolding fence_inv_def by blast+
    with sub show ?thesis by auto
  qed
  moreover have "s \<in> used" if "epochs_won s (f_log f) \<noteq> []" for s
    using assms(2) that sub unfolding fence_inv_def by blast
  ultimately show ?thesis
    using assms(2) unfolding f_drop(1) fence_inv_def by simp
next
  case (f_bump sid e w)
  have "unat e \<le> Suc (f_steps f)" using f_bump(2) assms(2) unfolding fence_inv_def by blast
  then have e: "unat (e + 1) = Suc (unat e)"
    using assms(3) unfolding f_bump(1) by (intro unat_inc) simp
  have cur: "sid \<in> f_used f" "\<forall>x \<in> set (epochs_won sid (f_log f)). x \<le> unat e"
    and rest: "\<And>s. sorted_wrt (<) (epochs_won s (f_log f))"
      "\<And>s. epochs_won s (f_log f) \<noteq> [] \<Longrightarrow> s \<in> f_used f"
    using f_bump(2) assms(2) unfolding fence_inv_def by blast+
  have other: "epochs_won s (f_log f @ w) = epochs_won s (f_log f)" if "s \<noteq> sid" for s
    using f_bump(3) that by auto
  have new: "\<forall>x \<in> set (epochs_won sid (f_log f @ w)). x \<le> unat (e + 1)"
    using cur(2) f_bump(3) by (auto simp: e intro: le_SucI)
  have srt: "sorted_wrt (<) (epochs_won s (f_log f @ w))" for s
    using rest(1) [of s] cur(2) f_bump(3)
    by (cases "s = sid") (auto simp: sorted_wrt_append e less_Suc_eq_le)
  have used: "s \<in> f_used f" if "epochs_won s (f_log f @ w) \<noteq> []" for s
    using rest(2) [of s] cur(1) other [of s] that by (cases "s = sid") auto
  have "s \<in> f_used f \<and> unat x \<le> Suc (Suc (f_steps f)) \<and>
      (\<forall>z \<in> set (epochs_won s (f_log f @ w)). z \<le> unat x)"
    if "((f_epoch f)(sid \<mapsto> e + 1)) s = Some x" for s x
  proof (cases "s = sid")
    case True
    then show ?thesis using that cur(1) new \<open>unat e \<le> Suc (f_steps f)\<close> by (auto simp: e)
  next
    case False
    then have "f_epoch f s = Some x" using that by simp
    then have "s \<in> f_used f" "unat x \<le> Suc (f_steps f)" "\<forall>z \<in> set (epochs_won s (f_log f)). z \<le> unat x"
      using assms(2) unfolding fence_inv_def by blast+
    then show ?thesis unfolding other [OF False] by simp
  qed
  then show ?thesis
    unfolding f_bump(1) fence_inv_def using srt used by simp
next
  case (f_new sid w)
  have "f_epoch f sid = None" "epochs_won sid (f_log f) = []"
    using assms(2) f_new(2) by (auto simp: fence_inv_def)
  then show ?thesis
    using assms(2) f_new(2,3) unfolding f_new(1) fence_inv_def by auto
qed

section \<open>The manager refines the abstract machine\<close>

definition epoch_at :: "(string \<Rightarrow> Record option) \<Rightarrow> string \<rightharpoonup> uint64" where
  "epoch_at l sid = map_option r_ConnectionEpoch (l sid)"

lemma epoch_at_upd [simp]: "epoch_at (l(s \<mapsto> r)) = (epoch_at l)(s \<mapsto> r_ConnectionEpoch r)"
  by (auto simp: epoch_at_def)

lemma epoch_at_del [simp]: "epoch_at (l(s := None)) = (epoch_at l)(s := None)"
  by (auto simp: epoch_at_def)

lemma epoch_at_released:
  assumes "\<forall>i. released a c (l i) (l' i)"
  shows "epoch_at l' = epoch_at l"
proof
  fix i
  from assms have "released a c (l i) (l' i)" by blast
  then show "epoch_at l' i = epoch_at l i" by (auto simp: released_def epoch_at_def)
qed

definition abs_sys :: "('st \<Rightarrow> string \<Rightarrow> Record option) \<Rightarrow> 'st session_sys \<Rightarrow> fence" where
  "abs_sys lookup y = \<lparr>f_epoch = epoch_at (lookup (m_store (y_m y))), f_used = y_used y,
     f_log = y_log y, f_steps = y_steps y\<rparr>"

context session_store
begin

lemma saveVersion_epochs:
  assumes "invar (m_store m)" "valid (r_SessionID x)" "r_SessionID u = r_SessionID x"
    "r_ConnectionEpoch u = r_ConnectionEpoch x" "saveVersion S x u m = (eo, m')"
  shows "invar (m_store m')" "epoch_at (lookup (m_store m')) = epoch_at (lookup (m_store m))"
proof -
  obtain res where "saveVersionResult S x u m = (res, m')"
    using assms(5) by (auto simp: saveVersion_def split: prod.splits sum.splits)
  note sv = saveVersionResult_lookup [OF assms(1,2,3) this]
  show "invar (m_store m')" by (rule sv(1))
  from sv(5) show "epoch_at (lookup (m_store m')) = epoch_at (lookup (m_store m))"
  proof
    assume "lookup (m_store m) (r_SessionID x) = Some x \<and>
      lookup (m_store m') = (lookup (m_store m))(r_SessionID x \<mapsto> u)"
    then show ?thesis using assms(4) by (auto simp: epoch_at_def)
  qed simp
qed

lemma disconnect_found_epochs:
  assumes inv: "invar (m_store m)" and val: "valid (r_SessionID r)"
    and d: "disconnect_found S it sessionID conn now epochs wall r m = (eo, m')"
  shows "invar (m_store m')" "epoch_at (lookup (m_store m')) = epoch_at (lookup (m_store m))"
proof -
  let ?r' = "r\<lparr>r_State := StateReconnecting, r_ConnectionID := '''', r_ExpireAt := now + m_reconnectGrace m\<rparr>"
  obtain e1 m1 where sv: "saveVersion S r ?r' m = (e1, m1)" by fastforce
  obtain e2 m2 where rl: "releaseAccount S (r_AccountID r) (r_ConnectionID r) m1 = (e2, m2)"
    by fastforce
  note sv' = saveVersion_epochs [OF inv val _ _ sv, simplified]
  note rl' = releaseAccount_lookup [OF sv'(1) rl]
  have "m_store m' \<in> {m_store m, m_store m1, m_store m2}"
    using d sv rl by (auto simp: disconnect_found_def Let_def split: if_splits option.splits)
  then show "invar (m_store m')" "epoch_at (lookup (m_store m')) = epoch_at (lookup (m_store m))"
    using inv sv' rl' epoch_at_released by auto
qed

lemma expire_epochs:
  assumes inv: "invar (m_store m)"
  shows "invar (m_store (expire S d now m)) \<and>
    (\<forall>i. epoch_at (lookup (m_store (expire S d now m))) i = epoch_at (lookup (m_store m)) i
      \<or> epoch_at (lookup (m_store (expire S d now m))) i = None)"
proof -
  obtain res st where g: "st_Get S (r_SessionID d) (m_store m) = (res, st)" by fastforce
  obtain eo st2 where del: "st_Delete S (r_SessionID d) st = (eo, st2)" by fastforce
  note g' = get_keeps [OF inv g]
  have del': "invar st2" "\<forall>i. epoch_at (lookup st2) i = epoch_at (lookup (m_store m)) i
      \<or> epoch_at (lookup st2) i = None"
    using delete_law [OF _ del] g' by (auto split: if_splits)
  define st3 where "st3 = (\<lambda>r :: Record.
    m_store (snd (releaseAccount S (r_AccountID r) '''' (m\<lparr>m_store := st2\<rparr>))))"
  have st3: "invar (st3 r) \<and> epoch_at (lookup (st3 r)) = epoch_at (lookup st2)" for r
    using releaseAccount_lookup [of "m\<lparr>m_store := st2\<rparr>" "r_AccountID r" "''''"] del'(1)
      epoch_at_released
    by (cases "releaseAccount S (r_AccountID r) '''' (m\<lparr>m_store := st2\<rparr>)") (auto simp: st3_def)
  have "m_store (expire S d now m) \<in> {st, st2} \<union> range st3"
    using g del by (auto simp: expire_def Let_def st3_def split: sum.splits option.splits)
  then consider "m_store (expire S d now m) = st" | "m_store (expire S d now m) = st2"
    | r where "m_store (expire S d now m) = st3 r"
    by auto
  then show ?thesis
    by cases (use g' del' st3 in simp_all)
qed

end

context session_store
begin

lemma resume_found_epochs:
  assumes inv: "invar (m_store m)" and val: "valid (r_SessionID r)"
    and res: "resume_found S H tokr sessionID token conn now r m = (res, m')"
  shows "invar (m_store m') \<and>
    (epoch_at (lookup (m_store m')) = epoch_at (lookup (m_store m)) \<and> won res = [] \<or>
      epoch_at (lookup (m_store m)) (r_SessionID r) = Some (r_ConnectionEpoch r) \<and>
      epoch_at (lookup (m_store m')) =
        (epoch_at (lookup (m_store m)))(r_SessionID r \<mapsto> r_ConnectionEpoch r + 1) \<and>
      won res \<in> {[], [(r_SessionID r, r_ConnectionEpoch r + 1)]})"
proof (cases "now < r_ExpireAt r")
  case False
  obtain eo m1 where sv: "saveVersion S r (r\<lparr>r_State := StateExpired\<rparr>) m = (eo, m1)" by fastforce
  then have "res = Inl (Sentinel ErrSessionExpiry)" "m' = m1"
    using res False by (auto simp: resume_found_def)
  then show ?thesis using saveVersion_epochs [OF inv val _ _ sv] by (simp add: won_def)
next
  case live: True
  show ?thesis
  proof (cases "H token = r_ResumeTokenHash r \<and> (\<exists>t. tokr = Inr t)")
    case False
    then have "m' = m" "won res = []"
      using res live by (auto simp: resume_found_def won_def split: sum.splits if_splits)
    then show ?thesis using inv by simp
  next
    case True
    then obtain t where tok: "H token = r_ResumeTokenHash r" "tokr = Inr t" by blast
    define u where "u = r\<lparr>r_State := StateAuthenticated, r_ConnectionID := conn,
        r_GatewayInstanceID := m_gatewayID m, r_ConnectionEpoch := r_ConnectionEpoch r + 1,
        r_ResumeTokenHash := H t, r_ExpireAt := now + m_sessionTTL m\<rparr>"
    have u: "r_SessionID u = r_SessionID r" "r_ConnectionEpoch u = r_ConnectionEpoch r + 1"
      "r_AccountID u = r_AccountID r" by (simp_all add: u_def)
    obtain sr m1 where sv: "saveVersionResult S r u m = (sr, m1)" by fastforce
    obtain x m2 where cl: "claimAccount S (r_AccountID r) u m1 = (x, m2)" by fastforce
    note unf = res [unfolded resume_found_def Let_def tok(2) sum.case, folded u_def]
    note svl = saveVersionResult_lookup [OF inv val u(1) sv]
    note cll = claimAccount_lookup [OF svl(1) _ cl, unfolded u(1), OF val]
    show ?thesis
    proof (cases "sr = Inr True")
      case False
      then have "m' = m1" "won res = []"
        using unf live tok sv by (auto simp: won_def split: sum.splits)
      then show ?thesis using svl(1,5) u(2) by (auto simp: epoch_at_def)
    next
      case True
      then have "m_store m' = m_store m2" "won res \<in> {[], [(r_SessionID r, r_ConnectionEpoch r + 1)]}"
        using unf live tok sv cl u by (auto simp: won_def split: sum.splits prod.splits)
      then show ?thesis using svl(3) [OF True] cll u(2) by (simp add: epoch_at_def)
    qed
  qed
qed

lemma Create_epochs:
  assumes inv: "invar (m_store m)" and val: "valid sid"
    and res: "Manager_Create S H (Inr sid) tokr account conn now players m = (res, m')"
  shows "invar (m_store m') \<and>
    (epoch_at (lookup (m_store m')) = epoch_at (lookup (m_store m)) \<and> won res = [] \<or>
      epoch_at (lookup (m_store m')) = (epoch_at (lookup (m_store m)))(sid \<mapsto> 1) \<and>
      won res \<in> {[], [(sid, 1)]})"
proof (cases tokr)
  case (Inl e)
  then show ?thesis using res inv by (auto simp: Manager_Create_def won_def)
next
  case (Inr tok)
  define r where "r = \<lparr>r_SessionID = sid, r_AccountID = account,
      r_PlayerID = (case players of [] \<Rightarrow> '''' | p # _ \<Rightarrow> p),
      r_GatewayInstanceID = m_gatewayID m, r_ConnectionID = conn, r_ConnectionEpoch = 1,
      r_State = StateAuthenticated, r_ResumeTokenHash = H tok, r_ExpireAt = now + m_sessionTTL m\<rparr>"
  have r: "r_SessionID r = sid" "r_ConnectionEpoch r = 1" by (simp_all add: r_def)
  obtain eo st where cr: "st_Create S r (m_store m) = (eo, st)" by fastforce
  obtain x m1 where cl: "claimAccount S account r (m\<lparr>m_store := st\<rparr>) = (x, m1)" by fastforce
  note unf = res [unfolded Manager_Create_def Let_def Inr sum.case, folded r_def]
  show ?thesis
  proof (cases eo)
    case (Some e)
    then have "m_store m' = st" "won res = []" using unf cr by (auto simp: won_def)
    then show ?thesis using create_err [OF inv _ cr [unfolded Some]] r val by auto
  next
    case None
    then have "m_store m' = m_store m1" "won res \<in> {[], [(sid, 1)]}"
      using unf cr cl r by (auto simp: won_def split: sum.splits prod.splits)
    then show ?thesis
      using create_ok [OF inv _ cr [unfolded None]] claimAccount_lookup [OF _ _ cl] r val by auto
  qed
qed

end

text \<open>
  The store is well-formed, calls hold records of valid sessions only, and no invalid identifier is left to be handed out.
\<close>

definition sys_ok :: "('st \<Rightarrow> bool) \<Rightarrow> (string \<Rightarrow> bool) \<Rightarrow> 'st session_sys \<Rightarrow> bool" where
  "sys_ok invar valid y \<longleftrightarrow> invar (m_store (y_m y)) \<and> (\<forall>r \<in> y_read y. valid (r_SessionID r)) \<and> (\<forall>sid. \<not> valid sid \<longrightarrow> sid \<in> y_used y)"

context session_store
begin

lemma sys_ok_step:
  assumes "session_step S H it y y'" "sys_ok invar valid y" "invar (m_store (y_m y'))"
  shows "sys_ok invar valid y'"
  using assms get_valid [of "m_store (y_m y)"] by (auto simp: sys_ok_def elim!: session_step.cases)

text \<open>Every step of the system is a step of the abstract machine.\<close>

lemma session_step_refines:
  assumes "session_step S H it y y'" "sys_ok invar valid y"
  shows "sys_ok invar valid y' \<and> fence_step (abs_sys lookup y) (abs_sys lookup y')"
proof -
  have inv: "invar (m_store (y_m y))" and rd: "\<And>r. r \<in> y_read y \<Longrightarrow> valid (r_SessionID r)" and us: "\<And>sid. sid \<notin> y_used y \<Longrightarrow> valid sid"
    using assms(2) by (auto simp: sys_ok_def)
  have "invar (m_store (y_m y')) \<and> fence_step (abs_sys lookup y) (abs_sys lookup y')"
    using assms(1)
  proof cases
    case (s_read sid r st)
    have "invar st \<and> lookup st = lookup (m_store (y_m y))"
      by (rule get_keeps [OF inv s_read(2)])
    moreover have "fence_step (abs_sys lookup y) ((abs_sys lookup y)\<lparr>f_epoch := f_epoch (abs_sys lookup y),
        f_steps := f_steps (abs_sys lookup y), f_used := f_used (abs_sys lookup y)\<rparr>)"
      by (rule f_drop) auto
    ultimately show ?thesis unfolding s_read(1) by (simp add: abs_sys_def)
  next
    case (s_resume r tokr token conn now res m')
    note ep = resume_found_epochs [OF inv rd [OF s_resume(2)] s_resume(3)]
    from ep show ?thesis
    proof (elim conjE disjE)
      assume "invar (m_store m')"
        "epoch_at (lookup (m_store m')) = epoch_at (lookup (m_store (y_m y)))" "won res = []"
      then show ?thesis
        using f_drop [of "f_epoch (abs_sys lookup y)" "abs_sys lookup y" "Suc (y_steps y)" "y_used y"]
        unfolding s_resume(1) by (simp add: abs_sys_def)
    next
      assume "invar (m_store m')"
        "epoch_at (lookup (m_store (y_m y))) (r_SessionID r) = Some (r_ConnectionEpoch r)"
        "epoch_at (lookup (m_store m')) =
          (epoch_at (lookup (m_store (y_m y))))(r_SessionID r \<mapsto> r_ConnectionEpoch r + 1)"
        "won res \<in> {[], [(r_SessionID r, r_ConnectionEpoch r + 1)]}"
      then show ?thesis
        using f_bump [of "abs_sys lookup y" "r_SessionID r" "r_ConnectionEpoch r" "won res"]
        unfolding s_resume(1) by (simp add: abs_sys_def)
    qed
  next
    case (s_disconnect r conn now epochs wall eo m')
    note ep = disconnect_found_epochs [OF inv rd [OF s_disconnect(2)] s_disconnect(3)]
    then show ?thesis
      using f_drop [of "f_epoch (abs_sys lookup y)" "abs_sys lookup y" "y_steps y" "y_used y"]
      unfolding s_disconnect(1) by (simp add: abs_sys_def)
  next
    case (s_expire d now)
    note ep = expire_epochs [OF inv, of d now]
    then show ?thesis
      using f_drop [of "epoch_at (lookup (m_store (expire S d now (y_m y))))" "abs_sys lookup y"
          "y_steps y" "y_used y"]
      unfolding s_expire by (simp add: abs_sys_def)
  next
    case (s_create sid tokr account conn now players res m')
    note ep = Create_epochs [OF inv us [OF s_create(2)] s_create(3)]
    from ep show ?thesis
    proof (elim conjE disjE)
      assume "invar (m_store m')"
        "epoch_at (lookup (m_store m')) = epoch_at (lookup (m_store (y_m y)))" "won res = []"
      then show ?thesis
        using f_drop [of "f_epoch (abs_sys lookup y)" "abs_sys lookup y" "y_steps y"
            "insert sid (y_used y)" sid]
        unfolding s_create(1) by (simp add: abs_sys_def)
    next
      assume "invar (m_store m')"
        "epoch_at (lookup (m_store m')) = (epoch_at (lookup (m_store (y_m y))))(sid \<mapsto> 1)"
        "won res \<in> {[], [(sid, 1)]}"
      then show ?thesis
        using f_new [of sid "abs_sys lookup y" "won res"] s_create(2)
        unfolding s_create(1) by (simp add: abs_sys_def)
    qed
  qed
  then show ?thesis using sys_ok_step [OF assms] by blast
qed

end

lemma session_step_steps: "session_step S H it y y' \<Longrightarrow> y_steps y \<le> y_steps y'"
  by (auto elim!: session_step.cases)

context session_store
begin

lemma reachable_inv:
  assumes "(session_step S H it)\<^sup>*\<^sup>* y y'" "sys_ok invar valid y" "fence_inv (abs_sys lookup y)"
    and "y_steps y' < 2 ^ 64 - 1"
  shows "sys_ok invar valid y' \<and> fence_inv (abs_sys lookup y')"
  using assms
proof (induction rule: rtranclp_induct)
  case base
  then show ?case by simp
next
  case (step y1 y2)
  then have "y_steps y1 < 2 ^ 64 - 1" using session_step_steps [OF step(2)] by simp
  with step have ih: "sys_ok invar valid y1" "fence_inv (abs_sys lookup y1)" by auto
  note ref = session_step_refines [OF step(2) ih(1)]
  have "f_steps (abs_sys lookup y2) < 2 ^ 64 - 1" using step.prems(3) by (simp add: abs_sys_def)
  then show ?case using ref fence_step_inv [OF _ ih(2)] by blast
qed

end

end
