(* ===== verification/Retry.thy ===== *)
theory Retry
  imports Go_Prelude
begin

text \<open>
  The retry loop of \<^verbatim>\<open>src/common/reliability/retry.go\<close>.  The retried operation acts on a state of its
  own.  What the loop waits for is an argument: \<open>done k\<close> is \<open>Some e\<close> when the \<^verbatim>\<open>select\<close> after attempt
  \<open>k\<close> finds the context done with \<^verbatim>\<open>ctx.Err() = e\<close> before the timer fires, and \<open>since k\<close> is the value
  of \<^verbatim>\<open>time.Since(startedAt)\<close> there.  The outcome records the timers that were started.
\<close>

unbundle bit_operations_syntax

datatype retry_event =
    OnAttempt int
  | OnRetry int go_error
  | OnComplete int bool "go_error option" duration

record RetryPolicy =
  rp_MaxAttempts :: int
  rp_InitialDelay :: duration
  rp_MaxDelay :: duration
  rp_ShouldRetry :: "(go_error \<Rightarrow> bool) option"
  rp_Observer :: bool

record 's retry_outcome =
  ro_err :: "go_error option"
  ro_state :: 's
  ro_delays :: "duration list"
  ro_events :: "retry_event list"

definition normalize :: "RetryPolicy \<Rightarrow> RetryPolicy" where
  "normalize p = p\<lparr>
     rp_MaxAttempts := (if rp_MaxAttempts p \<le> 0 then 1 else rp_MaxAttempts p),
     rp_InitialDelay := (if rp_InitialDelay p \<le> 0 then 10 * Millisecond else rp_InitialDelay p),
     rp_MaxDelay := (if rp_MaxDelay p \<le> 0 then Second else rp_MaxDelay p)\<rparr>"

text \<open>\<^verbatim>\<open>p.InitialDelay << attempt\<close>, a shift of a signed 64-bit integer, capped at \<^verbatim>\<open>p.MaxDelay\<close>.\<close>

definition retry_delay :: "RetryPolicy \<Rightarrow> nat \<Rightarrow> duration" where
  "retry_delay p attempt =
     (let delay = sint (push_bit attempt (word_of_int (rp_InitialDelay p) :: 64 word))
      in if rp_MaxDelay p < delay then rp_MaxDelay p else delay)"

definition wants_retry :: "RetryPolicy \<Rightarrow> go_error \<Rightarrow> bool" where
  "wants_retry p e = (case rp_ShouldRetry p of None \<Rightarrow> True | Some f \<Rightarrow> f e)"

definition observe :: "RetryPolicy \<Rightarrow> retry_event \<Rightarrow> retry_event list" where
  "observe p e = (if rp_Observer p then [e] else [])"

definition prepend :: "duration list \<Rightarrow> retry_event list \<Rightarrow> 's retry_outcome \<Rightarrow> 's retry_outcome" where
  "prepend ds es r = r\<lparr>ro_delays := ds @ ro_delays r, ro_events := es @ ro_events r\<rparr>"

text \<open>The loop from attempt \<open>k\<close> on, \<open>err\<close> being the value of the variable \<^verbatim>\<open>err\<close> when it is entered.\<close>

function retry_loop ::
    "RetryPolicy \<Rightarrow> ('s \<Rightarrow> go_error option \<times> 's) \<Rightarrow> (nat \<Rightarrow> go_error option) \<Rightarrow> (nat \<Rightarrow> duration) \<Rightarrow>
     nat \<Rightarrow> go_error option \<Rightarrow> 's \<Rightarrow> 's retry_outcome" where
  "retry_loop p operation done since k err s =
     (if \<not> int k < rp_MaxAttempts p then
        \<lparr>ro_err = err, ro_state = s, ro_delays = [],
         ro_events = observe p (OnComplete (rp_MaxAttempts p) (1 < rp_MaxAttempts p) err (since k))\<rparr>
      else
        let current = int k + 1 in
        case operation s of
          (None, s') \<Rightarrow>
            \<lparr>ro_err = None, ro_state = s', ro_delays = [],
             ro_events = observe p (OnAttempt current)
               @ observe p (OnComplete current False None (since k))\<rparr>
        | (Some e, s') \<Rightarrow>
            if \<not> (int k + 1 < rp_MaxAttempts p \<and> wants_retry p e) then
              \<lparr>ro_err = Some e, ro_state = s', ro_delays = [],
               ro_events = observe p (OnAttempt current)
                 @ observe p (OnComplete current (0 < k \<and> rp_MaxAttempts p \<le> int k + 1)
                     (Some e) (since k))\<rparr>
            else
              let delay = retry_delay p k;
                  events = observe p (OnAttempt current) @ observe p (OnRetry current e)
              in case done k of
                   None \<Rightarrow> prepend [delay] events
                     (retry_loop p operation done since (Suc k) (Some e) s')
                 | Some c \<Rightarrow>
                     \<lparr>ro_err = Some c, ro_state = s', ro_delays = [delay],
                      ro_events = events @ observe p (OnComplete current False (Some c) (since k))\<rparr>)"
  by pat_completeness auto

termination
  by (relation "measure (\<lambda>(p, _, _, _, k, _, _). nat (rp_MaxAttempts p - int k))") auto

declare retry_loop.simps [simp del]

definition Do ::
    "RetryPolicy \<Rightarrow> ('s \<Rightarrow> go_error option \<times> 's) \<Rightarrow> (nat \<Rightarrow> go_error option) \<Rightarrow> (nat \<Rightarrow> duration) \<Rightarrow>
     's \<Rightarrow> 's retry_outcome" where
  "Do p operation done since s = retry_loop (normalize p) operation done since 0 None s"

section \<open>What the loop computes\<close>

text \<open>The states and errors of a bare repetition of the operation.\<close>

fun state_after :: "('s \<Rightarrow> go_error option \<times> 's) \<Rightarrow> 's \<Rightarrow> nat \<Rightarrow> 's" where
  "state_after f s 0 = s"
| "state_after f s (Suc n) = state_after f (snd (f s)) n"

definition error_at :: "('s \<Rightarrow> go_error option \<times> 's) \<Rightarrow> 's \<Rightarrow> nat \<Rightarrow> go_error option" where
  "error_at f s n = fst (f (state_after f s n))"

lemma error_at_Suc [simp]: "error_at f s (Suc n) = error_at f (snd (f s)) n"
  by (simp add: error_at_def)

lemma error_at_0 [simp]: "error_at f s 0 = fst (f s)"
  by (simp add: error_at_def)

text \<open>
  \<open>retries p f done s n\<close>: attempt \<open>n\<close> fails with an error that is retried and the timer fires.
\<close>

definition retries ::
    "RetryPolicy \<Rightarrow> ('s \<Rightarrow> go_error option \<times> 's) \<Rightarrow> (nat \<Rightarrow> go_error option) \<Rightarrow> 's \<Rightarrow> nat \<Rightarrow> nat \<Rightarrow> bool" where
  "retries p f done s k n \<longleftrightarrow> int (k + n) + 1 < rp_MaxAttempts p \<and> done (k + n) = None
     \<and> (\<exists>e. error_at f s n = Some e \<and> wants_retry p e)"

definition final_error ::
    "RetryPolicy \<Rightarrow> ('s \<Rightarrow> go_error option \<times> 's) \<Rightarrow> (nat \<Rightarrow> go_error option) \<Rightarrow> 's \<Rightarrow> nat \<Rightarrow> nat \<Rightarrow>
     go_error option" where
  "final_error p f done s k n =
     (case error_at f s n of
        None \<Rightarrow> None
      | Some e \<Rightarrow> if int (k + n) + 1 < rp_MaxAttempts p \<and> wants_retry p e
                  then done (k + n) else Some e)"

lemma retries_shift: "retries p f done s k (Suc n) \<longleftrightarrow> retries p f done (snd (f s)) (Suc k) n"
  by (simp add: retries_def)

lemma final_error_shift:
  "final_error p f done s k (Suc n) = final_error p f done (snd (f s)) (Suc k) n"
  by (cases "error_at f (snd (f s)) n") (simp_all add: final_error_def)

lemma retry_loop_spec:
  assumes "int k < rp_MaxAttempts p"
  shows "\<exists>n. int (k + n) < rp_MaxAttempts p
    \<and> (\<forall>i<n. retries p f done s k i) \<and> \<not> retries p f done s k n
    \<and> ro_state (retry_loop p f done since k err s) = state_after f s (Suc n)
    \<and> ro_err (retry_loop p f done since k err s) = final_error p f done s k n
    \<and> (\<exists>m\<in>{n, Suc n}.
        ro_delays (retry_loop p f done since k err s) = map (retry_delay p) [k..<k + m])"
  using assms
proof (induction p f "done" since k err s rule: retry_loop.induct)
  case (1 p f "done" since k err s)
  obtain r s' where f: "f s = (r, s')" by fastforce
  show ?case
  proof (cases "retries p f done s k 0")
    case False
    then show ?thesis
      using "1.prems" f
      unfolding retry_loop.simps [of p f "done" since k err s]
      by (intro exI [of _ 0]) (auto simp: retries_def final_error_def Let_def split: option.splits)
  next
    case True
    then obtain e where r: "r = Some e" and go: "int k + 1 < rp_MaxAttempts p" "wants_retry p e"
      "done k = None" using f by (auto simp: retries_def)
    have eq: "retry_loop p f done since k err s =
        prepend [retry_delay p k] (observe p (OnAttempt (int k + 1)) @ observe p (OnRetry (int k + 1) e))
          (retry_loop p f done since (Suc k) (Some e) s')"
      using "1.prems" f r go by (subst retry_loop.simps) (simp add: Let_def)
    have prem: "int (Suc k) < rp_MaxAttempts p" using go by simp
    from "1.IH" [OF _ refl f [symmetric] r _ refl refl go(3) prem] "1.prems" go
    obtain n m where ih: "int (Suc k + n) < rp_MaxAttempts p" "\<forall>i<n. retries p f done s' (Suc k) i"
      "\<not> retries p f done s' (Suc k) n"
      "ro_state (retry_loop p f done since (Suc k) (Some e) s') = state_after f s' (Suc n)"
      "ro_err (retry_loop p f done since (Suc k) (Some e) s') = final_error p f done s' (Suc k) n"
      "m \<in> {n, Suc n}"
      "ro_delays (retry_loop p f done since (Suc k) (Some e) s') =
         map (retry_delay p) [Suc k..<Suc k + m]"
      by blast
    have "\<forall>i<Suc n. retries p f done s k i"
      using True ih(2) f by (auto simp: less_Suc_eq_0_disj retries_shift)
    moreover have "ro_delays (retry_loop p f done since k err s) =
        map (retry_delay p) [k..<k + Suc m]"
      unfolding eq using ih(7) by (simp add: prepend_def upt_conv_Cons del: upt_Suc)
    moreover have "Suc m \<in> {Suc n, Suc (Suc n)}" using ih(6) by auto
    moreover have "ro_state (retry_loop p f done since k err s) = state_after f s (Suc (Suc n))"
      "ro_err (retry_loop p f done since k err s) = final_error p f done s k (Suc n)"
      "\<not> retries p f done s k (Suc n)"
      unfolding eq using ih(3-5) f by (simp_all add: prepend_def retries_shift final_error_shift)
    ultimately show ?thesis using ih(1) by (intro exI [of _ "Suc n"]) auto
  qed
qed

section \<open>Properties\<close>

lemma normalize_pos:
  "0 < rp_MaxAttempts (normalize p)" "0 < rp_InitialDelay (normalize p)"
  "0 < rp_MaxDelay (normalize p)"
  by (simp_all add: normalize_def)

text \<open>
  C32: \<open>Do\<close> always returns, after running the operation \<open>n + 1\<close> times with \<open>n + 1\<close> at most
  \<open>MaxAttempts\<close> (at least 1).  Each attempt before the last failed with an error that \<open>ShouldRetry\<close>
  accepts and its back-off timer fired; the last one did not qualify, and its error is what \<open>Do\<close>
  returns, or \<open>ctx.Err()\<close> when the context ended during the back-off.
\<close>

theorem Do_spec:
  "\<exists>n. int n < max 1 (rp_MaxAttempts p)
    \<and> (\<forall>i<n. retries (normalize p) f done s 0 i) \<and> \<not> retries (normalize p) f done s 0 n
    \<and> ro_state (Do p f done since s) = state_after f s (Suc n)
    \<and> ro_err (Do p f done since s) = final_error (normalize p) f done s 0 n
    \<and> (\<exists>m\<in>{n, Suc n}. ro_delays (Do p f done since s) = map (retry_delay (normalize p)) [0..<m])"
proof -
  have "rp_MaxAttempts (normalize p) = max 1 (rp_MaxAttempts p)" by (simp add: normalize_def)
  then show ?thesis
    using retry_loop_spec [of 0 "normalize p" f "done" s since None] by (simp add: Do_def)
qed

definition sample_policy :: RetryPolicy where
  "sample_policy = \<lparr>rp_MaxAttempts = 3, rp_InitialDelay = 0, rp_MaxDelay = 0,
     rp_ShouldRetry = None, rp_Observer = False\<rparr>"

definition flaky :: "nat \<Rightarrow> go_error option \<times> nat" where
  "flaky s = (if s < 1 then Some (NewError ''flaky'') else None, Suc s)"

text \<open>An operation that fails once is run twice and \<open>Do\<close> returns nil.\<close>

theorem Do_spec_witness:
  "ro_state (Do sample_policy flaky (\<lambda>_. None) (\<lambda>_. 0) 0) = 2
   \<and> ro_err (Do sample_policy flaky (\<lambda>_. None) (\<lambda>_. 0) 0) = None"
proof -
  have st: "state_after flaky 0 n = n" for n
  proof -
    have "state_after flaky k n = k + n" for k
      by (induction n arbitrary: k) (auto simp: flaky_def)
    then show ?thesis by simp
  qed
  have e: "error_at flaky 0 n = (if n < 1 then Some (NewError ''flaky'') else None)" for n
    unfolding error_at_def st by (simp add: flaky_def)
  have r: "retries (normalize sample_policy) flaky (\<lambda>_. None) 0 0 n \<longleftrightarrow> n = 0" for n
    by (auto simp: retries_def e sample_policy_def normalize_def wants_retry_def)
  from Do_spec [of sample_policy flaky "\<lambda>_. None" 0 "\<lambda>_. 0"] obtain n where
    n: "\<forall>i<n. i = 0" "n \<noteq> 0"
    and res: "ro_state (Do sample_policy flaky (\<lambda>_. None) (\<lambda>_. 0) 0) = state_after flaky 0 (Suc n)"
      "ro_err (Do sample_policy flaky (\<lambda>_. None) (\<lambda>_. 0) 0) =
         final_error (normalize sample_policy) flaky (\<lambda>_. None) 0 0 n"
    unfolding r by blast
  from n(1) have "\<not> 1 < n" by force
  with n(2) have "n = 1" by simp
  with res show ?thesis unfolding st by (simp add: final_error_def error_at_def st flaky_def)
qed

text \<open>
  The back-off before attempt \<open>k + 2\<close> never exceeds \<open>MaxDelay\<close>, and it is
  \<open>min (InitialDelay * 2 ^ k) MaxDelay\<close> as long as the shifted delay fits a signed 64-bit integer.
\<close>

theorem retry_delay_backoff:
  assumes "0 < rp_InitialDelay p"
  shows "retry_delay p k \<le> rp_MaxDelay p
    \<and> (rp_InitialDelay p * 2 ^ k < 2 ^ 63 \<longrightarrow>
        retry_delay p k = min (rp_InitialDelay p * 2 ^ k) (rp_MaxDelay p))"
proof -
  have "sint (push_bit k (word_of_int d :: 64 word)) = d * 2 ^ k" if "0 < d" "d * 2 ^ k < 2 ^ 63" for d
  proof -
    have "push_bit k (word_of_int d :: 64 word) = word_of_int (d * 2 ^ k)"
      by (simp add: push_bit_eq_mult)
    moreover have "- (2 ^ 63) \<le> d * 2 ^ k" using that(1) by (simp add: order_trans [of _ 0])
    ultimately show ?thesis
      using that(2) by (simp only: sint_uint uint_word_of_int_eq)
        (simp add: signed_take_bit_take_bit signed_take_bit_int_eq_self)
  qed
  then show ?thesis using assms by (auto simp: retry_delay_def Let_def)
qed

theorem retry_delay_backoff_witness:
  "retry_delay (sample_policy\<lparr>rp_InitialDelay := 10, rp_MaxDelay := 100\<rparr>) 2 = 40
   \<and> retry_delay (sample_policy\<lparr>rp_InitialDelay := 10, rp_MaxDelay := 100\<rparr>) 5 = 100"
  using retry_delay_backoff [of "sample_policy\<lparr>rp_InitialDelay := 10, rp_MaxDelay := 100\<rparr>" 2]
    retry_delay_backoff [of "sample_policy\<lparr>rp_InitialDelay := 10, rp_MaxDelay := 100\<rparr>" 5]
  by simp

text \<open>
  The shift is not checked: with an initial delay of 50 ms the back-off after the 39th attempt is
  negative, and after the 65th it is zero, so that the timer fires at once instead of after \<open>MaxDelay\<close>.
\<close>

theorem retry_delay_overflow:
  "retry_delay (p\<lparr>rp_InitialDelay := 50 * Millisecond, rp_MaxDelay := Second\<rparr>) 38 < 0
   \<and> retry_delay (p\<lparr>rp_InitialDelay := 50 * Millisecond, rp_MaxDelay := Second\<rparr>) 64 = 0"
  by (simp add: retry_delay_def)

end
