(* ===== verification/Protocol.thy ===== *)
theory Protocol
  imports Go_Prelude
begin

text \<open>
  The messages of the internal protocol (\<^verbatim>\<open>src/proto/src/internal\<close>, \<^verbatim>\<open>src/proto/src/client\<close>) as the services
  use them.  A message is a record with the fields of its definition; an enumeration is an
  integer, as in proto3, where a receiver may see any number.  The wire format is the protobuf library's: \<open>codec\<close> holds
  \<^verbatim>\<open>proto.Marshal\<close> and one \<^verbatim>\<open>proto.Unmarshal\<close> per message type, and \<open>decodes\<close> is what the library documents of
  them.
\<close>

section \<open>Enumerations\<close>

type_synonym ServiceType = int
type_synonym EnvelopeKind = int
type_synonym RestoreModeProto = int
type_synonym StatePayloadType = int

definition SERVICE_TYPE_UNSPECIFIED :: ServiceType where "SERVICE_TYPE_UNSPECIFIED = 0"
definition SERVICE_TYPE_GATEWAY :: ServiceType where "SERVICE_TYPE_GATEWAY = 1"
definition SERVICE_TYPE_LOBBY :: ServiceType where "SERVICE_TYPE_LOBBY = 2"
definition SERVICE_TYPE_USERCENTER :: ServiceType where "SERVICE_TYPE_USERCENTER = 3"
definition SERVICE_TYPE_BATTLE :: ServiceType where "SERVICE_TYPE_BATTLE = 4"

lemmas service_types = SERVICE_TYPE_UNSPECIFIED_def SERVICE_TYPE_GATEWAY_def SERVICE_TYPE_LOBBY_def
  SERVICE_TYPE_USERCENTER_def SERVICE_TYPE_BATTLE_def

definition ENVELOPE_KIND_UNSPECIFIED :: EnvelopeKind where "ENVELOPE_KIND_UNSPECIFIED = 0"
definition ENVELOPE_KIND_HELLO :: EnvelopeKind where "ENVELOPE_KIND_HELLO = 1"
definition ENVELOPE_KIND_REQUEST :: EnvelopeKind where "ENVELOPE_KIND_REQUEST = 2"
definition ENVELOPE_KIND_RESPONSE :: EnvelopeKind where "ENVELOPE_KIND_RESPONSE = 3"
definition ENVELOPE_KIND_EVENT :: EnvelopeKind where "ENVELOPE_KIND_EVENT = 4"
definition ENVELOPE_KIND_ERROR :: EnvelopeKind where "ENVELOPE_KIND_ERROR = 5"

lemmas envelope_kinds = ENVELOPE_KIND_UNSPECIFIED_def ENVELOPE_KIND_HELLO_def ENVELOPE_KIND_REQUEST_def
  ENVELOPE_KIND_RESPONSE_def ENVELOPE_KIND_EVENT_def ENVELOPE_KIND_ERROR_def

definition RESTORE_MODE_FULL :: RestoreModeProto where "RESTORE_MODE_FULL = 0"
definition RESTORE_MODE_DELTA :: RestoreModeProto where "RESTORE_MODE_DELTA = 1"
definition RESTORE_MODE_NOOP :: RestoreModeProto where "RESTORE_MODE_NOOP = 2"

definition STATE_PAYLOAD_TYPE_UNSPECIFIED :: StatePayloadType where "STATE_PAYLOAD_TYPE_UNSPECIFIED = 0"
definition STATE_PAYLOAD_TYPE_LOBBY_SNAPSHOT :: StatePayloadType where "STATE_PAYLOAD_TYPE_LOBBY_SNAPSHOT = 1"
definition STATE_PAYLOAD_TYPE_BATTLE_SNAPSHOT :: StatePayloadType where "STATE_PAYLOAD_TYPE_BATTLE_SNAPSHOT = 2"
definition STATE_PAYLOAD_TYPE_BATTLE_DELTA :: StatePayloadType where "STATE_PAYLOAD_TYPE_BATTLE_DELTA = 3"

lemmas restore_enums = RESTORE_MODE_FULL_def RESTORE_MODE_DELTA_def RESTORE_MODE_NOOP_def
  STATE_PAYLOAD_TYPE_UNSPECIFIED_def STATE_PAYLOAD_TYPE_LOBBY_SNAPSHOT_def
  STATE_PAYLOAD_TYPE_BATTLE_SNAPSHOT_def STATE_PAYLOAD_TYPE_BATTLE_DELTA_def

section \<open>Messages\<close>

record InternalEnvelope =
  en_Kind :: EnvelopeKind
  en_RequestId :: uint64
  en_SourceService :: ServiceType
  en_TargetService :: ServiceType
  en_MessageId :: uint32
  en_PlayerId :: string
  en_RoomId :: uint64
  en_Payload :: bytes
  en_ErrorCode :: uint32
  en_ErrorMessage :: string

text \<open>The zero value of an envelope, \<^verbatim>\<open>&InternalEnvelope{}\<close>.\<close>

definition emptyEnvelope :: InternalEnvelope where
  "emptyEnvelope = \<lparr>en_Kind = ENVELOPE_KIND_UNSPECIFIED, en_RequestId = 0,
     en_SourceService = SERVICE_TYPE_UNSPECIFIED, en_TargetService = SERVICE_TYPE_UNSPECIFIED,
     en_MessageId = 0, en_PlayerId = '''', en_RoomId = 0, en_Payload = [], en_ErrorCode = 0,
     en_ErrorMessage = ''''\<rparr>"

record Hello =
  he_ServiceType :: ServiceType
  he_InstanceId :: string

record ServiceStatusResponse =
  ss_ServiceType :: ServiceType
  ss_InstanceId :: string
  ss_Available :: bool

record RestorePlayerStateRequest =
  rq_PlayerId :: string
  rq_SessionId :: string
  rq_LastStateVersion :: uint64
  rq_AllowIncremental :: bool

record RestorePlayerStateResponse =
  rp_ServiceType :: ServiceType
  rp_PlayerId :: string
  rp_StateVersion :: uint64
  rp_Snapshot :: bytes
  rp_Available :: bool
  rp_Mode :: RestoreModeProto
  rp_BaseStateVersion :: uint64
  rp_PayloadType :: StatePayloadType
  rp_SchemaVersion :: uint32

record EnsurePlayerRequest =
  eq_AccountId :: string

record EnsurePlayerResponse =
  ep_AccountId :: string
  ep_PlayerId :: string
  ep_Created :: bool

record SettlementRequest =
  sq_SettlementId :: string
  sq_PlayerId :: string
  sq_AssetType :: string
  sq_Delta :: int
  sq_Reason :: string
  sq_Source :: string

record SettlementResponse =
  sp_SettlementId :: string
  sp_PlayerId :: string
  sp_AssetType :: string
  sp_Balance :: int
  sp_AssetVersion :: uint64
  sp_Replayed :: bool

record LinkPlayerRequest =
  lq_AccountId :: string
  lq_PlayerId :: string

record LinkPlayerResponse =
  lp_AccountId :: string
  lp_PlayerId :: string

record GuestAuthenticateRequest =
  gq_InstallId :: string
  gq_ClientPlatform :: string
  gq_ClientVersion :: string
  gq_IdempotencyKey :: string

record GuestAuthenticateResponse =
  gp_AccountId :: string
  gp_RefreshToken :: string
  gp_RefreshTokenExpireAtUnix :: int
  gp_Created :: bool

record RefreshAuthenticateRequest =
  fq_RefreshToken :: string
  fq_InstallId :: string
  fq_IdempotencyKey :: string

record PasswordAuthenticateRequest =
  wq_Username :: string
  wq_Password :: string
  wq_InstallId :: string
  wq_IdempotencyKey :: string

record RevokeRefreshTokenRequest =
  vq_AccountId :: string
  vq_RefreshToken :: string
  vq_IdempotencyKey :: string

text \<open>\<^verbatim>\<open>RefreshAuthenticateResponse\<close>, \<^verbatim>\<open>PasswordAuthenticateResponse\<close> and \<^verbatim>\<open>AuthenticationGrant\<close> have the same fields.\<close>

record TokenGrant =
  tg_AccountId :: string
  tg_RefreshToken :: string
  tg_RefreshTokenExpireAtUnix :: int

record LoginRequest =
  li_Provider :: int
  li_Credential :: string
  li_InstallId :: string
  li_Username :: string
  li_Password :: string
  li_IdempotencyKey :: string

record BattlePlayerState =
  bp_PlayerId :: string
  bp_Hp :: int
  bp_PositionX :: uint32
  bp_PositionY :: uint32

record BattleRoomSnapshot =
  bs_RoomId :: uint64
  bs_Tick :: uint64
  bs_StateVersion :: uint64
  bs_Status :: string
  bs_Players :: "BattlePlayerState list"
  bs_UpdatedAtUnixMilli :: int

record BattleRoomDelta =
  bd_RoomId :: uint64
  bd_FromStateVersion :: uint64
  bd_ToStateVersion :: uint64
  bd_Tick :: uint64
  bd_Status :: string
  bd_UpsertPlayers :: "BattlePlayerState list"
  bd_RemovedPlayerIds :: "string list"

record LobbyStateSnapshot =
  ls_PlayerId :: string
  ls_AccountId :: string
  ls_Nickname :: string
  ls_Region :: string
  ls_ProfileVersion :: uint64
  ls_AssetVersion :: uint64
  ls_Currency :: "string \<rightharpoonup> int"

datatype Message =
    MHello Hello
  | MServiceStatusRequest
  | MServiceStatusResponse ServiceStatusResponse
  | MRestorePlayerStateRequest RestorePlayerStateRequest
  | MRestorePlayerStateResponse RestorePlayerStateResponse
  | MEnsurePlayerRequest EnsurePlayerRequest
  | MEnsurePlayerResponse EnsurePlayerResponse
  | MSettlementRequest SettlementRequest
  | MSettlementResponse SettlementResponse
  | MLinkPlayerRequest LinkPlayerRequest
  | MLinkPlayerResponse LinkPlayerResponse
  | MGuestAuthenticateRequest GuestAuthenticateRequest
  | MGuestAuthenticateResponse GuestAuthenticateResponse
  | MRefreshAuthenticateRequest RefreshAuthenticateRequest
  | MRefreshAuthenticateResponse TokenGrant
  | MPasswordAuthenticateRequest PasswordAuthenticateRequest
  | MPasswordAuthenticateResponse TokenGrant
  | MRevokeRefreshTokenRequest RevokeRefreshTokenRequest
  | MRevokeRefreshTokenResponse
  | MClientLoginAuthenticateRequest bytes
  | MClientLoginAuthenticateResponse "TokenGrant option"
  | MClientRefreshAuthenticateRequest bytes
  | MClientRefreshAuthenticateResponse "TokenGrant option"
  | MLoginRequest LoginRequest
  | MRefreshLoginRequest RefreshAuthenticateRequest
  | MBattleRoomSnapshot BattleRoomSnapshot
  | MBattleRoomDelta BattleRoomDelta
  | MLobbyStateSnapshot LobbyStateSnapshot

section \<open>The codec\<close>

text \<open>
  \<open>pb_T bs\<close> is \<^verbatim>\<open>proto.Unmarshal(bs, x)\<close> for a new message \<open>x\<close> of type \<open>T\<close>.
\<close>

record codec =
  pb_Marshal :: "Message \<Rightarrow> bytes result"
  pb_Hello :: "bytes \<Rightarrow> Hello result"
  pb_ServiceStatusRequest :: "bytes \<Rightarrow> unit result"
  pb_RestorePlayerStateRequest :: "bytes \<Rightarrow> RestorePlayerStateRequest result"
  pb_RestorePlayerStateResponse :: "bytes \<Rightarrow> RestorePlayerStateResponse result"
  pb_EnsurePlayerRequest :: "bytes \<Rightarrow> EnsurePlayerRequest result"
  pb_EnsurePlayerResponse :: "bytes \<Rightarrow> EnsurePlayerResponse result"
  pb_SettlementRequest :: "bytes \<Rightarrow> SettlementRequest result"
  pb_SettlementResponse :: "bytes \<Rightarrow> SettlementResponse result"
  pb_LinkPlayerRequest :: "bytes \<Rightarrow> LinkPlayerRequest result"
  pb_GuestAuthenticateRequest :: "bytes \<Rightarrow> GuestAuthenticateRequest result"
  pb_GuestAuthenticateResponse :: "bytes \<Rightarrow> GuestAuthenticateResponse result"
  pb_RefreshAuthenticateRequest :: "bytes \<Rightarrow> RefreshAuthenticateRequest result"
  pb_RefreshAuthenticateResponse :: "bytes \<Rightarrow> TokenGrant result"
  pb_PasswordAuthenticateRequest :: "bytes \<Rightarrow> PasswordAuthenticateRequest result"
  pb_PasswordAuthenticateResponse :: "bytes \<Rightarrow> TokenGrant result"
  pb_RevokeRefreshTokenRequest :: "bytes \<Rightarrow> RevokeRefreshTokenRequest result"
  pb_RevokeRefreshTokenResponse :: "bytes \<Rightarrow> unit result"
  pb_ClientLoginAuthenticateRequest :: "bytes \<Rightarrow> bytes result"
  pb_ClientLoginAuthenticateResponse :: "bytes \<Rightarrow> TokenGrant option result"
  pb_ClientRefreshAuthenticateRequest :: "bytes \<Rightarrow> bytes result"
  pb_ClientRefreshAuthenticateResponse :: "bytes \<Rightarrow> TokenGrant option result"
  pb_LoginRequest :: "bytes \<Rightarrow> LoginRequest result"
  pb_RefreshLoginRequest :: "bytes \<Rightarrow> RefreshAuthenticateRequest result"
  pb_BattleRoomSnapshot :: "bytes \<Rightarrow> BattleRoomSnapshot result"
  pb_BattleRoomDelta :: "bytes \<Rightarrow> BattleRoomDelta result"
  pb_LobbyStateSnapshot :: "bytes \<Rightarrow> LobbyStateSnapshot result"

text \<open>What was marshalled is unmarshalled again.\<close>

definition decodes :: "codec \<Rightarrow> (bytes \<Rightarrow> 'm result) \<Rightarrow> ('m \<Rightarrow> Message) \<Rightarrow> bool" where
  "decodes cd un con \<longleftrightarrow> (\<forall>m bs. pb_Marshal cd (con m) = Inr bs \<longrightarrow> un bs = Inr m)"

lemma decodes_Inr: "decodes cd un con \<Longrightarrow> pb_Marshal cd (con m) = Inr bs \<Longrightarrow> un bs = Inr m"
  by (simp add: decodes_def)

section \<open>Message handlers\<close>

text \<open>
  \<^verbatim>\<open>MessageResult\<close> and \<^verbatim>\<open>MessageHandler\<close> of \<^verbatim>\<open>src/common/streaming/router.go\<close>: a handler may return a nil result.
  The request context and the peer are not used by the handlers of this program.
\<close>

record MessageResult =
  mr_MessageID :: uint32
  mr_Message :: "Message option"

type_synonym 'w MessageHandler = "InternalEnvelope \<Rightarrow> 'w \<Rightarrow> MessageResult option result \<times> 'w"

text \<open>The \<^verbatim>\<open>Request\<close> method of a stream client as its callers use it.\<close>

type_synonym 'w requester = "InternalEnvelope \<Rightarrow> 'w \<Rightarrow> InternalEnvelope result \<times> 'w"

end
