(* ===== verification/Session_Lifecycle.thy ===== *)
theory Session_Lifecycle
  imports Session_Manager Retry Protocol
begin

text \<open>
  How lifecycle events reach the other services: the gateway's publisher
  (\<^verbatim>\<open>src/services/gateway/session_lifecycle_publisher.go\<close>), a queue of 256 events drained by one
  goroutine that sends each event to the lobby and the battle service with retries, and the consumer
  (\<^verbatim>\<open>src/services/common/session_lifecycle.go\<close>) that drops duplicates and events of superseded
  connections.  The protobuf codec and the stream client are arguments.
\<close>

section \<open>Messages\<close>

datatype SessionLifecycleType =
    SESSION_LIFECYCLE_TYPE_UNSPECIFIED
  | SESSION_LIFECYCLE_TYPE_CONNECTED
  | SESSION_LIFECYCLE_TYPE_DISCONNECTED
  | SESSION_LIFECYCLE_TYPE_RESUMED
  | SESSION_LIFECYCLE_TYPE_EXPIRED
  | SESSION_LIFECYCLE_TYPE_PREEMPTED

record SessionLifecycleEvent =
  pe_EventId :: string
  pe_Type :: SessionLifecycleType
  pe_SessionId :: string
  pe_AccountId :: string
  pe_PlayerId :: string
  pe_ConnectionId :: string
  pe_ConnectionEpoch :: uint64
  pe_GatewayInstanceId :: string
  pe_OccurredAtUnixMillis :: int

definition lifecycleTypeProto :: "LifecycleType \<Rightarrow> SessionLifecycleType" where
  "lifecycleTypeProto t =
     (if t = LifecycleConnected then SESSION_LIFECYCLE_TYPE_CONNECTED
      else if t = LifecycleDisconnected then SESSION_LIFECYCLE_TYPE_DISCONNECTED
      else if t = LifecycleResumed then SESSION_LIFECYCLE_TYPE_RESUMED
      else if t = LifecycleExpired then SESSION_LIFECYCLE_TYPE_EXPIRED
      else if t = LifecyclePreempted then SESSION_LIFECYCLE_TYPE_PREEMPTED
      else SESSION_LIFECYCLE_TYPE_UNSPECIFIED)"

definition eventProto :: "LifecycleEvent \<Rightarrow> SessionLifecycleEvent" where
  "eventProto e = \<lparr>pe_EventId = ev_EventID e, pe_Type = lifecycleTypeProto (ev_Type e),
     pe_SessionId = ev_SessionID e, pe_AccountId = ev_AccountID e, pe_PlayerId = ev_PlayerID e,
     pe_ConnectionId = ev_ConnectionID e, pe_ConnectionEpoch = ev_ConnectionEpoch e,
     pe_GatewayInstanceId = ev_GatewayInstanceID e,
     pe_OccurredAtUnixMillis = UnixMilli (ev_OccurredAt e)\<rparr>"

section \<open>The publisher\<close>

datatype publish_metric = QueueDepth nat | Observe string LifecycleType string

record publisher =
  pub_queue :: "LifecycleEvent list"
  pub_done :: bool
  pub_metrics :: "publish_metric list"

definition queue_cap :: nat where
  "queue_cap = 256"

text \<open>
  The \<^verbatim>\<open>select\<close> of \<open>Publish\<close>: when the context is done and the queue has room both cases are ready and
  \<open>pick\<close> is the one the runtime chooses.
\<close>

definition Publish :: "bool \<Rightarrow> LifecycleEvent \<Rightarrow> publisher \<Rightarrow> publisher" where
  "Publish pick event p =
     (let room = length (pub_queue p) < queue_cap;
          enqueue = p\<lparr>pub_queue := pub_queue p @ [event],
            pub_metrics := pub_metrics p @ [QueueDepth (length (pub_queue p) + 1)]\<rparr>
      in if pub_done p \<and> room then (if pick then p else enqueue)
         else if pub_done p then p
         else if room then enqueue
         else p\<lparr>pub_metrics := pub_metrics p @ [Observe ''queue'' (ev_Type event) ''dropped'']\<rparr>)"

definition publisher_Close :: "publisher \<Rightarrow> publisher" where
  "publisher_Close p = p\<lparr>pub_done := True\<rparr>"

definition targets :: "(string \<times> ServiceType) list" where
  "targets = [(''lobby'', SERVICE_TYPE_LOBBY), (''battle'', SERVICE_TYPE_BATTLE)]"

text \<open>
  \<open>client name w\<close> is \<^verbatim>\<open>p.client(name)\<close>; \<open>send c t payload w\<close> is \<^verbatim>\<open>client.SendEvent\<close> of the lifecycle
  envelope.  Both act on the state \<open>w\<close> of the network.
\<close>

definition delivery ::
    "(string \<Rightarrow> 'w \<Rightarrow> 'c option) \<Rightarrow> ('c \<Rightarrow> ServiceType \<Rightarrow> bytes \<Rightarrow> 'w \<Rightarrow> go_error option \<times> 'w) \<Rightarrow>
     string \<Rightarrow> ServiceType \<Rightarrow> bytes \<Rightarrow> 'w \<Rightarrow> go_error option \<times> 'w" where
  "delivery client send name serviceType payload w =
     (case client name w of
        None \<Rightarrow> (Some (NewError (name @ '' lifecycle client unavailable'')), w)
      | Some c \<Rightarrow> send c serviceType payload w)"

fun deliver_loop ::
    "RetryPolicy \<Rightarrow> (string \<Rightarrow> nat \<Rightarrow> go_error option) \<Rightarrow> (string \<Rightarrow> nat \<Rightarrow> duration) \<Rightarrow> (string \<Rightarrow> 'w \<Rightarrow> 'c option) \<Rightarrow>
     ('c \<Rightarrow> ServiceType \<Rightarrow> bytes \<Rightarrow> 'w \<Rightarrow> go_error option \<times> 'w) \<Rightarrow> LifecycleType \<Rightarrow> bytes \<Rightarrow>
     (string \<times> ServiceType) list \<Rightarrow> 'w \<Rightarrow> publish_metric list \<times> 'w" where
  "deliver_loop retry done since client send ty payload [] w = ([], w)"
| "deliver_loop retry done since client send ty payload ((name, st) # rest) w =
     (let o1 = Do retry (delivery client send name st payload) (done name) (since name) w;
          metric = Observe name ty (if ro_err o1 = None then ''delivered'' else ''failed'')
      in case deliver_loop retry done since client send ty payload rest (ro_state o1) of
           (ms, w') \<Rightarrow> (metric # ms, w'))"

text \<open>\<open>marshal\<close> is \<^verbatim>\<open>proto.Marshal\<close> of a \<open>SessionLifecycleEvent\<close>.\<close>

definition deliver ::
    "(SessionLifecycleEvent \<Rightarrow> bytes result) \<Rightarrow> RetryPolicy \<Rightarrow>
     (string \<Rightarrow> nat \<Rightarrow> go_error option) \<Rightarrow> (string \<Rightarrow> nat \<Rightarrow> duration) \<Rightarrow> (string \<Rightarrow> 'w \<Rightarrow> 'c option) \<Rightarrow>
     ('c \<Rightarrow> ServiceType \<Rightarrow> bytes \<Rightarrow> 'w \<Rightarrow> go_error option \<times> 'w) \<Rightarrow> LifecycleEvent \<Rightarrow> 'w \<Rightarrow>
     publish_metric list \<times> 'w" where
  "deliver marshal retry done since client send event w =
     (case marshal (eventProto event) of
        Inl _ \<Rightarrow> ([], w)
      | Inr payload \<Rightarrow>
          deliver_loop retry done since client send (ev_Type event) payload targets w)"

text \<open>One turn of the goroutine's loop; \<open>pick\<close> resolves the \<^verbatim>\<open>select\<close> when both cases are ready.\<close>

definition run_once ::
    "(LifecycleEvent \<Rightarrow> 'w \<Rightarrow> publish_metric list \<times> 'w) \<Rightarrow> bool \<Rightarrow> publisher \<times> 'w \<Rightarrow>
     (publisher \<times> 'w) option" where
  "run_once del pick s =
     (case s of (p, w) \<Rightarrow>
        (case pub_queue p of
           [] \<Rightarrow> None
         | event # rest \<Rightarrow>
             if pub_done p \<and> pick then None
             else (case del event w of (ms, w') \<Rightarrow>
               Some (p\<lparr>pub_queue := rest,
                       pub_metrics := pub_metrics p @ QueueDepth (length rest) # ms\<rparr>, w'))))"

section \<open>The consumer\<close>

record SessionLifecycleConsumer =
  latestEpoch :: "string \<rightharpoonup> uint64"
  eventIDs :: "string set"

definition NewSessionLifecycleConsumer :: SessionLifecycleConsumer where
  "NewSessionLifecycleConsumer = \<lparr>latestEpoch = Map.empty, eventIDs = {}\<rparr>"

definition LatestEpoch :: "SessionLifecycleConsumer \<Rightarrow> string \<Rightarrow> uint64" where
  "LatestEpoch c sessionID = (case latestEpoch c sessionID of None \<Rightarrow> 0 | Some e \<Rightarrow> e)"

definition Accept ::
    "SessionLifecycleEvent \<Rightarrow> SessionLifecycleConsumer \<Rightarrow> bool \<times> SessionLifecycleConsumer" where
  "Accept event c =
     (if pe_EventId event \<in> eventIDs c then (False, c)
      else if pe_ConnectionEpoch event < LatestEpoch c (pe_SessionId event) then (False, c)
      else let c1 = c\<lparr>eventIDs := insert (pe_EventId event) (eventIDs c)\<rparr>
           in (True,
               if LatestEpoch c1 (pe_SessionId event) < pe_ConnectionEpoch event
               then c1\<lparr>latestEpoch := (latestEpoch c1)(pe_SessionId event \<mapsto> pe_ConnectionEpoch event)\<rparr>
               else c1))"

text \<open>\<^verbatim>\<open>handle\<close>: the reply is always nil; \<open>unmarshal\<close> is \<^verbatim>\<open>proto.Unmarshal\<close>.\<close>

definition consumer_handle ::
    "(bytes \<Rightarrow> SessionLifecycleEvent result) \<Rightarrow> bytes \<Rightarrow> SessionLifecycleConsumer \<Rightarrow>
     go_error option \<times> SessionLifecycleConsumer" where
  "consumer_handle unmarshal payload c =
     (case unmarshal payload of
        Inl e \<Rightarrow> (Some e, c)
      | Inr event \<Rightarrow>
          if pe_EventId event = '''' \<or> pe_SessionId event = '''' \<or> pe_ConnectionEpoch event = 0
          then (None, c) else (None, snd (Accept event c)))"

section \<open>Lemmas on the consumer\<close>

text \<open>The events accepted from a stream, in order.\<close>

fun accepts ::
    "SessionLifecycleEvent list \<Rightarrow> SessionLifecycleConsumer \<Rightarrow>
     SessionLifecycleEvent list \<times> SessionLifecycleConsumer" where
  "accepts [] c = ([], c)"
| "accepts (e # es) c =
     (case Accept e c of (ok, c1) \<Rightarrow>
        (case accepts es c1 of (acc, c2) \<Rightarrow> ((if ok then e # acc else acc), c2)))"

text \<open>\<open>knows acc c\<close>: the consumer's state summarises the accepted events \<open>acc\<close>.\<close>

definition knows :: "SessionLifecycleEvent list \<Rightarrow> SessionLifecycleConsumer \<Rightarrow> bool" where
  "knows acc c \<longleftrightarrow> eventIDs c = pe_EventId ` set acc
     \<and> (\<forall>e \<in> set acc. pe_ConnectionEpoch e \<le> LatestEpoch c (pe_SessionId e))
     \<and> (\<forall>s. LatestEpoch c s = 0 \<or>
          (\<exists>e \<in> set acc. pe_SessionId e = s \<and> pe_ConnectionEpoch e = LatestEpoch c s))"

lemma LatestEpoch_upd [simp]:
  "LatestEpoch (c\<lparr>latestEpoch := (latestEpoch c)(s \<mapsto> x)\<rparr>) t = (if t = s then x else LatestEpoch c t)"
  "LatestEpoch (c\<lparr>eventIDs := I\<rparr>) t = LatestEpoch c t"
  by (simp_all add: LatestEpoch_def)

lemma Accept_iff:
  assumes "knows acc c"
  shows "fst (Accept e c) \<longleftrightarrow> pe_EventId e \<notin> pe_EventId ` set acc \<and>
    (\<forall>a \<in> set acc. pe_SessionId a = pe_SessionId e \<longrightarrow> pe_ConnectionEpoch a \<le> pe_ConnectionEpoch e)"
proof -
  have "pe_ConnectionEpoch e < LatestEpoch c (pe_SessionId e) \<longleftrightarrow>
      (\<exists>a \<in> set acc. pe_SessionId a = pe_SessionId e \<and> pe_ConnectionEpoch e < pe_ConnectionEpoch a)"
    (is "?l \<longleftrightarrow> ?r")
  proof
    assume l: ?l
    then have "LatestEpoch c (pe_SessionId e) \<noteq> 0" by auto
    with l assms show ?r unfolding knows_def by metis
  next
    assume ?r
    then obtain a where "a \<in> set acc" "pe_SessionId a = pe_SessionId e"
      "pe_ConnectionEpoch e < pe_ConnectionEpoch a" by blast
    moreover have "pe_ConnectionEpoch a \<le> LatestEpoch c (pe_SessionId a)"
      using assms \<open>a \<in> set acc\<close> unfolding knows_def by blast
    ultimately show ?l by simp
  qed
  moreover have "eventIDs c = pe_EventId ` set acc" using assms by (simp add: knows_def)
  ultimately show ?thesis by (auto simp: Accept_def Let_def not_less [symmetric])
qed

lemma knows_Accept:
  assumes "knows acc c" "Accept e c = (ok, c')"
  shows "knows (if ok then acc @ [e] else acc) c'"
proof (cases ok)
  case False
  then show ?thesis using assms by (auto simp: Accept_def Let_def split: if_splits)
next
  case True
  let ?new = "LatestEpoch c (pe_SessionId e) < pe_ConnectionEpoch e"
  have ids: "eventIDs c' = insert (pe_EventId e) (eventIDs c)"
    and le: "LatestEpoch c (pe_SessionId e) \<le> pe_ConnectionEpoch e"
    and lat: "\<And>s. LatestEpoch c' s =
      (if s = pe_SessionId e then pe_ConnectionEpoch e else LatestEpoch c s)"
    using assms(2) True
    by (auto simp: Accept_def Let_def not_less LatestEpoch_def split: if_splits option.splits)
  have a: "eventIDs c = pe_EventId ` set acc"
    "\<And>x. x \<in> set acc \<Longrightarrow> pe_ConnectionEpoch x \<le> LatestEpoch c (pe_SessionId x)"
    "\<And>s. LatestEpoch c s = 0 \<or>
       (\<exists>x \<in> set acc. pe_SessionId x = s \<and> pe_ConnectionEpoch x = LatestEpoch c s)"
    using assms(1) unfolding knows_def by blast+
  have "pe_ConnectionEpoch x \<le> LatestEpoch c' (pe_SessionId x)" if "x \<in> set (acc @ [e])" for x
  proof (cases "x = e")
    case False
    then have "x \<in> set acc" using that by simp
    from a(2) [OF this] show ?thesis using le unfolding lat by (auto intro: order_trans)
  qed (simp add: lat)
  moreover have "LatestEpoch c' s = 0 \<or>
      (\<exists>x \<in> set (acc @ [e]). pe_SessionId x = s \<and> pe_ConnectionEpoch x = LatestEpoch c' s)" for s
    using a(3) [of s] unfolding lat by (cases "s = pe_SessionId e") auto
  ultimately show ?thesis using True ids a(1) unfolding knows_def by auto
qed

lemma accepts_from:
  assumes "knows acc c" "accepts es c = (acc', c')"
  shows "knows (acc @ acc') c'"
  using assms
proof (induction es arbitrary: acc c acc')
  case Nil
  then show ?case by simp
next
  case (Cons e es)
  obtain ok c1 where a: "Accept e c = (ok, c1)" by fastforce
  obtain acc1 where r: "accepts es c1 = (acc1, c')" and acc': "acc' = (if ok then e # acc1 else acc1)"
    using Cons.prems(2) a by (auto split: prod.splits)
  from Cons.IH [OF knows_Accept [OF Cons.prems(1) a] r] show ?case
    unfolding acc' by (cases ok) auto
qed

lemma knows_new: "knows [] NewSessionLifecycleConsumer"
  by (simp add: knows_def NewSessionLifecycleConsumer_def LatestEpoch_def)

text \<open>Every accepted event passed the test against those accepted before it.\<close>

lemma accepts_admissible:
  assumes "knows acc c" "accepts es c = (acc', c')" "acc' = xs @ e # ys"
  shows "pe_EventId e \<notin> pe_EventId ` set (acc @ xs) \<and>
    (\<forall>a \<in> set (acc @ xs). pe_SessionId a = pe_SessionId e \<longrightarrow> pe_ConnectionEpoch a \<le> pe_ConnectionEpoch e)"
  using assms
proof (induction es arbitrary: acc c acc' xs)
  case Nil
  then show ?case by simp
next
  case (Cons x es)
  obtain ok c1 where a: "Accept x c = (ok, c1)" by fastforce
  obtain acc1 where r: "accepts es c1 = (acc1, c')" and acc': "acc' = (if ok then x # acc1 else acc1)"
    using Cons.prems(2) a by (auto split: prod.splits)
  note k = knows_Accept [OF Cons.prems(1) a]
  show ?case
  proof (cases ok)
    case False
    then show ?thesis using Cons.IH [OF k r, of xs] Cons.prems(3) acc' by simp
  next
    case ok: True
    show ?thesis
    proof (cases xs)
      case Nil
      then have "e = x" using Cons.prems(3) acc' ok by simp
      then show ?thesis using Accept_iff [OF Cons.prems(1), of x] a ok Nil by simp
    next
      case (Cons z zs)
      then have "z = x" "acc1 = zs @ e # ys" using Cons.prems(3) acc' ok by auto
      then show ?thesis using Cons.IH [OF k r, of zs] ok Cons by simp
    qed
  qed
qed

end
