(* ===== verification/Session_Props.thy ===== *)
theory Session_Props
  imports Session_Lifecycle
begin

text \<open>
  The properties of the gateway's sessions: fencing of connection epochs under concurrent calls,
  resume tokens, disconnects and expiry timers on the in-memory store, and the delivery of lifecycle
  events.
\<close>

section \<open>Fencing\<close>

definition new_sys :: "string \<Rightarrow> duration \<Rightarrow> duration \<Rightarrow> MemoryStore session_sys" where
  "new_sys gw ttl grace = \<lparr>y_m = (NewManager NewMemoryStore gw ttl grace)\<lparr>m_lifecycle := True,
     m_preempt := True\<rparr>, y_read = {}, y_used = {}, y_log = [], y_steps = 0\<rparr>"

lemma new_sys_inv:
  "sys_ok memory_ok (\<lambda>_. True) (new_sys gw ttl grace)"
  "fence_inv (abs_sys (\<lambda>s. s) (new_sys gw ttl grace))"
  by (simp_all add: new_sys_def NewManager_def NewMemoryStore_def memory_ok_def fence_inv_def sys_ok_def
      abs_sys_def epoch_at_def epochs_won_def)

lemma distinct_pairs:
  "\<forall>s. sorted_wrt (<) (epochs_won s log) \<Longrightarrow> distinct log"
proof (induction log)
  case Nil
  then show ?case by simp
next
  case (Cons p log)
  obtain s e where p: "p = (s, e)" by fastforce
  have "sorted_wrt (<) (epochs_won t log)" for t
    using Cons.prems [rule_format, of t] by (auto simp: epochs_won_def split: if_splits)
  moreover have "(s, e) \<notin> set log"
  proof
    assume "(s, e) \<in> set log"
    then have "unat e \<in> set (epochs_won s log)" by (force simp: epochs_won_def)
    moreover have "\<forall>x \<in> set (epochs_won s log). unat e < x"
      using Cons.prems [rule_format, of s] p by (auto simp: epochs_won_def)
    ultimately show False by auto
  qed
  ultimately show ?case using Cons.IH p by simp
qed

text \<open>
  However the reads and writes of concurrent \<open>Create\<close>, \<open>Resume\<close>, \<open>Disconnect\<close> and expiry calls
  interleave on the in-memory store, the connection epochs that successful calls hand out for one
  session strictly increase, so no two connections ever hold the same session and epoch.
\<close>

theorem connection_epochs_fenced:
  assumes "(session_step (memoryStore it) H itc)\<^sup>*\<^sup>* (new_sys gw ttl grace) y"
    and "y_steps y < 2 ^ 64 - 1"
  shows "(\<forall>sid. sorted_wrt (<) (epochs_won sid (y_log y))) \<and> distinct (y_log y)"
proof -
  from ms.reachable_inv [OF assms(1) new_sys_inv assms(2)]
  have "\<forall>sid. sorted_wrt (<) (epochs_won sid (y_log y))"
    by (simp add: fence_inv_def abs_sys_def)
  then show ?thesis using distinct_pairs by blast
qed

definition demo_hash :: "string \<Rightarrow> string" where
  "demo_hash s = ''h'' @ s"

theorem connection_epochs_fenced_witness:
  "\<exists>y. (session_step (memoryStore (\<lambda>_. [])) demo_hash (\<lambda>_. []))\<^sup>*\<^sup>* (new_sys ''gw'' 100 10) y
     \<and> y_log y = [(''s'', 1)] \<and> (\<forall>sid. sorted_wrt (<) (epochs_won sid (y_log y)))"
proof -
  let ?start = "new_sys ''gw'' 100 10"
  let ?create = "Manager_Create (memoryStore (\<lambda>_. [])) demo_hash (Inr ''s'') (Inr ''t'') ''acc'' ''c1'' 0 []
     (y_m ?start)"
  have won: "won (fst ?create) = [(''s'', 1)]"
    by (simp add: Manager_Create_def new_sys_def NewManager_def NewMemoryStore_def memory_defs
        claimAccount_def won_def)
  let ?y = "?start\<lparr>y_m := snd ?create, y_log := y_log ?start @ won (fst ?create),
      y_used := insert ''s'' (y_used ?start)\<rparr>"
  have "session_step (memoryStore (\<lambda>_. [])) demo_hash (\<lambda>_. []) ?start ?y"
    by (rule s_create [where tokr = "Inr ''t''" and account = "''acc''" and conn = "''c1''"
          and now = 0 and players = "[]"]) (simp_all add: new_sys_def)
  then have run: "(session_step (memoryStore (\<lambda>_. [])) demo_hash (\<lambda>_. []))\<^sup>*\<^sup>* ?start ?y" by simp
  have steps: "y_steps ?y < 2 ^ 64 - 1" by (simp add: new_sys_def)
  have log: "y_log ?y = [(''s'', 1)]" using won by (simp add: new_sys_def)
  from connection_epochs_fenced [OF run steps] run log show ?thesis by (intro exI [of _ ?y]) blast
qed

section \<open>Resume\<close>

lemma Get_memory [simp]:
  "st_Get (memoryStore it) i s = (case s i of None \<Rightarrow> (Inl (Sentinel ErrSessionNotFound), s)
     | Some r \<Rightarrow> (Inr r, s))"
  by (simp add: memoryStore_def MemoryStore_Get_def)

lemma save_memory:
  "saveVersionResult (memoryStore it) x u m =
     (case MemoryStore_CompareAndSwap x u (m_store m) of (res, st) \<Rightarrow> (res, m\<lparr>m_store := st\<rparr>))"
  by (simp add: saveVersionResult_def memoryStore_def)

lemma claim_memory:
  "claimAccount (memoryStore it) a r m =
     (let p = find_claimed a r (m_store m) (it (m_store m))
      in (Inr (p, r_ConnectionID p \<noteq> ''''), m))"
  by (simp add: claimAccount_def memoryStore_def MemoryStore_ClaimAccount_def Let_def)

text \<open>
  \<open>Resume\<close> on the in-memory store, branch by branch: an unknown session, an expired one (which is
  marked expired), a wrong token (nothing changes), and success, which rotates the token, increments
  the epoch, extends the expiry and points both connection indexes at the new connection.
\<close>

theorem Resume_memory:
  assumes "memory_ok (m_store m)"
  shows "case m_store m sid of
      None \<Rightarrow> Resume (memoryStore it) H (Inr fresh) sid tok conn now m =
        (Inl (Sentinel ErrSessionNotFound), m)
    | Some r \<Rightarrow>
        if r_ExpireAt r \<le> now then
          Resume (memoryStore it) H (Inr fresh) sid tok conn now m =
            (Inl (Sentinel ErrSessionExpiry),
             m\<lparr>m_store := (m_store m)(sid \<mapsto> r\<lparr>r_State := StateExpired\<rparr>)\<rparr>)
        else if H tok \<noteq> r_ResumeTokenHash r then
          Resume (memoryStore it) H (Inr fresh) sid tok conn now m =
            (Inl (Sentinel ErrInvalidResumeToken), m)
        else
          (let r' = r\<lparr>r_State := StateAuthenticated, r_ConnectionID := conn,
                 r_GatewayInstanceID := m_gatewayID m, r_ConnectionEpoch := r_ConnectionEpoch r + 1,
                 r_ResumeTokenHash := H fresh, r_ExpireAt := now + m_sessionTTL m\<rparr>
           in \<exists>m'. Resume (memoryStore it) H (Inr fresh) sid tok conn now m =
                (Inr \<lparr>c_Record = r', c_ResumeToken = fresh\<rparr>, m')
              \<and> m_store m' = (m_store m)(sid \<mapsto> r')
              \<and> m_accountConnections m' = (m_accountConnections m)(r_AccountID r \<mapsto> conn)
              \<and> m_connections m' = (m_connections m)(conn \<mapsto> sid))"
proof (cases "m_store m sid")
  case None
  then show ?thesis by (simp add: Resume_def)
next
  case (Some r)
  then have sid: "r_SessionID r = sid" using assms by (auto simp: memory_ok_def)
  show ?thesis
    using Some sid
    by (simp add: Resume_def resume_found_def save_memory MemoryStore_CompareAndSwap_def claim_memory
        saveVersion_def not_less Let_def)
qed

definition demo_record :: Record where
  "demo_record = \<lparr>r_SessionID = ''s'', r_AccountID = ''acc'', r_PlayerID = ''p'',
     r_GatewayInstanceID = ''gw'', r_ConnectionID = '''', r_ConnectionEpoch = 1,
     r_State = StateReconnecting, r_ResumeTokenHash = demo_hash ''t'', r_ExpireAt = 50\<rparr>"

definition demo_manager :: "MemoryStore Manager" where
  "demo_manager = (NewManager [''s'' \<mapsto> demo_record] ''gw2'' 100 10)\<lparr>m_lifecycle := True, m_preempt := True\<rparr>"

lemma demo_ok: "memory_ok (m_store demo_manager)" "m_store demo_manager ''s'' = Some demo_record"
  by (simp_all add: demo_manager_def NewManager_def memory_ok_def demo_record_def)

theorem Resume_memory_witness:
  "\<exists>c m'. Resume (memoryStore (\<lambda>_. [])) demo_hash (Inr ''t2'') ''s'' ''t'' ''c2'' 7 demo_manager = (Inr c, m')
     \<and> r_ConnectionEpoch (c_Record c) = 2 \<and> m_connections m' ''c2'' = Some ''s''"
  using Resume_memory [OF demo_ok(1), where sid = "''s''" and it = "\<lambda>_. []" and H = demo_hash
      and fresh = "''t2''" and tok = "''t''" and conn = "''c2''" and now = 7] demo_ok(2)
  by (auto simp: demo_record_def Let_def)

lemma Resume_ok_memory:
  assumes ok: "memory_ok (m_store m)"
    and res: "Resume (memoryStore it) H tokr sid tok conn now m = (Inr c, m')"
  obtains r fresh where "m_store m sid = Some r" "r_SessionID r = sid" "now < r_ExpireAt r"
    "H tok = r_ResumeTokenHash r" "tokr = Inr fresh" "c_ResumeToken c = fresh"
    "c_Record c = r\<lparr>r_State := StateAuthenticated, r_ConnectionID := conn,
       r_GatewayInstanceID := m_gatewayID m, r_ConnectionEpoch := r_ConnectionEpoch r + 1,
       r_ResumeTokenHash := H fresh, r_ExpireAt := now + m_sessionTTL m\<rparr>"
    "m_store m' = (m_store m)(sid \<mapsto> c_Record c)" "memory_ok (m_store m')"
    "m_connections m' = (m_connections m)(conn \<mapsto> sid)"
    "m_accountConnections m' = (m_accountConnections m)(r_AccountID r \<mapsto> conn)"
proof -
  from res obtain r where r: "m_store m sid = Some r"
    and rf: "resume_found (memoryStore it) H tokr sid tok conn now r m = (Inr c, m')"
    by (auto simp: Resume_def split: option.splits)
  have sid: "r_SessionID r = sid" using ok r by (auto simp: memory_ok_def)
  note f = ms.resume_found_ok [OF ok TrueI rf]
  from f(3) obtain fresh where "tokr = Inr fresh" "c_ResumeToken c = fresh"
    "c_Record c = r\<lparr>r_State := StateAuthenticated, r_ConnectionID := conn,
       r_GatewayInstanceID := m_gatewayID m, r_ConnectionEpoch := r_ConnectionEpoch r + 1,
       r_ResumeTokenHash := H fresh, r_ExpireAt := now + m_sessionTTL m\<rparr>" by blast
  then show thesis using that [of r fresh] r sid f(1,2,5-8) by simp
qed

lemma demo_resume:
  "\<exists>c m'. Resume (memoryStore (\<lambda>_. [])) demo_hash (Inr ''t2'') ''s'' ''t'' ''c2'' 7 demo_manager = (Inr c, m')
     \<and> c_ResumeToken c = ''t2''"
  by (simp add: Resume_def resume_found_def save_memory claim_memory MemoryStore_CompareAndSwap_def
      Let_def demo_record_def demo_manager_def NewManager_def)



section \<open>Disconnect and expiry\<close>

text \<open>
  Once a session has been resumed on another connection, the late disconnect of the old connection
  (an older connection id, or an older non-zero epoch) changes nothing: not the record, not the indexes,
  no event and no timer.
\<close>

theorem stale_disconnect_ignored:
  assumes "memory_ok (m_store m)"
    and "Resume (memoryStore it) H tokr sid tok conn now m = (Inr c, m')"
    and "old \<noteq> '''' \<and> old \<noteq> conn \<or> epoch \<noteq> 0 \<and> epoch \<noteq> r_ConnectionEpoch (c_Record c)"
  shows "DisconnectConnection (memoryStore it) itc sid old now' [epoch] wall m' = (None, m')"
proof -
  obtain r fresh where "m_store m' = (m_store m)(sid \<mapsto> c_Record c)"
    "c_Record c = r\<lparr>r_State := StateAuthenticated, r_ConnectionID := conn,
       r_GatewayInstanceID := m_gatewayID m, r_ConnectionEpoch := r_ConnectionEpoch r + 1,
       r_ResumeTokenHash := H fresh, r_ExpireAt := now + m_sessionTTL m\<rparr>"
    using Resume_ok_memory [OF assms(1,2)] by metis
  with assms(3) show ?thesis
    by (auto simp: DisconnectConnection_def disconnect_def disconnect_found_def)
qed

theorem stale_disconnect_ignored_witness:
  "\<exists>c m'. Resume (memoryStore (\<lambda>_. [])) demo_hash (Inr ''t2'') ''s'' ''t'' ''c2'' 7 demo_manager = (Inr c, m')
     \<and> DisconnectConnection (memoryStore (\<lambda>_. [])) (\<lambda>_. []) ''s'' ''c1'' 9 [1] 9 m' = (None, m')"
proof -
  obtain c m' where r: "Resume (memoryStore (\<lambda>_. [])) demo_hash (Inr ''t2'') ''s'' ''t'' ''c2'' 7 demo_manager
      = (Inr c, m')" using demo_resume by blast
  from stale_disconnect_ignored [OF demo_ok(1) r, of "''c1''" 1] r show ?thesis by auto
qed

lemma release_empty: "release_loop a '''' ks s = s"
proof (induction ks arbitrary: s)
  case (Cons k ks)
  have "s(k \<mapsto> r\<lparr>r_ConnectionID := ''''\<rparr>) = s" if "s k = Some r" "r_ConnectionID r = ''''" for r
  proof -
    have "r\<lparr>r_ConnectionID := ''''\<rparr> = r" using that(2) by (cases r) simp
    then show ?thesis using that(1) by (auto simp: fun_upd_idem_iff)
  qed
  then show ?case using Cons by (auto split: option.splits)
qed simp

text \<open>
  An expiry timer removes its session exactly when the record is still reconnecting, still has the
  epoch that was disconnected and its deadline has passed; every other record, and every session that
  was resumed or disconnected again in the meantime, stays as it is.
\<close>

theorem expire_exact:
  "m_store (expire (memoryStore it) d now m) =
     (case m_store m (r_SessionID d) of
        None \<Rightarrow> m_store m
      | Some r \<Rightarrow>
          if r_State r = StateReconnecting \<and> r_ConnectionEpoch r = r_ConnectionEpoch d \<and> r_ExpireAt r \<le> now
          then (m_store m)(r_SessionID d := None) else m_store m)"
  by (auto simp: expire_def Let_def memoryStore_def MemoryStore_Get_def MemoryStore_Delete_def
      releaseAccount_def MemoryStore_ReleaseAccount_def release_empty split: option.splits)

theorem expire_exact_witness:
  "m_store (expire (memoryStore (\<lambda>_. [])) demo_record 50 demo_manager) ''s'' = None
   \<and> m_store (expire (memoryStore (\<lambda>_. [])) (demo_record\<lparr>r_ConnectionEpoch := 0\<rparr>) 50 demo_manager) ''s''
       = Some demo_record"
  using expire_exact [of "\<lambda>_. []" demo_record 50 demo_manager]
    expire_exact [of "\<lambda>_. []" "demo_record\<lparr>r_ConnectionEpoch := 0\<rparr>" 50 demo_manager]
  by (simp add: demo_record_def demo_manager_def NewManager_def)

lemma forget_loop_account_none:
  "m_accountConnections m a = None \<Longrightarrow> m_accountConnections (forget_loop s a ks m) a = None"
  by (induction ks arbitrary: m) (auto simp: Let_def)

lemma forget_loop_account:
  "c \<in> set ks \<Longrightarrow> m_connections m c = Some s \<Longrightarrow> m_accountConnections m a = Some c \<Longrightarrow>
   m_accountConnections (forget_loop s a ks m) a = None"
  by (induction ks arbitrary: m) (auto simp: Let_def str_at_def forget_loop_account_none)

lemma release_memory:
  "releaseAccount (memoryStore it) a c m =
     (None, m\<lparr>m_store := release_loop a c (it (m_store m)) (m_store m)\<rparr>)"
  by (simp add: releaseAccount_def memoryStore_def MemoryStore_ReleaseAccount_def)

text \<open>
  \<open>disconnect\<close> ignores a lost compare-and-swap.  When a client resumes on a new connection between
  the read and the write of the old connection's disconnect, the record keeps the new connection, but
  the disconnect still returns nil, drops the new connection from both indexes of the manager and emits
  a \<open>disconnected\<close> event for the session.
\<close>

theorem disconnect_loses_race:
  assumes "memory_ok (m_store m)" "m_store m sid = Some r" "r_ConnectionID r = old" "old \<noteq> ''''"
    and "Resume (memoryStore it) H tokr sid tok conn now m = (Inr c, m')" "conn \<noteq> old"
    and "range_ok itc" "finite (dom (m_connections m))" "m_lifecycle m'"
  shows "\<exists>m''. disconnect_found (memoryStore it) itc sid old now' [r_ConnectionEpoch r] wall r m' = (None, m'')
    \<and> m_store m'' sid = Some (c_Record c) \<and> r_State (c_Record c) = StateAuthenticated
    \<and> m_connections m'' conn = None \<and> m_accountConnections m'' (r_AccountID r) = None
    \<and> m_events m'' = m_events m' @ [lifecycleEvent LifecycleDisconnected r now']"
proof -
  obtain r2 fresh where res: "m_store m sid = Some r2" "r_SessionID r2 = sid"
    "c_Record c = r2\<lparr>r_State := StateAuthenticated, r_ConnectionID := conn,
       r_GatewayInstanceID := m_gatewayID m, r_ConnectionEpoch := r_ConnectionEpoch r2 + 1,
       r_ResumeTokenHash := H fresh, r_ExpireAt := now + m_sessionTTL m\<rparr>"
    "m_store m' = (m_store m)(sid \<mapsto> c_Record c)"
    "m_connections m' = (m_connections m)(conn \<mapsto> sid)"
    "m_accountConnections m' = (m_accountConnections m)(r_AccountID r2 \<mapsto> conn)"
    using Resume_ok_memory [OF assms(1,5)] by metis
  have r2: "r2 = r" using res(1) assms(2) by simp
  have "r_ConnectionID (c_Record c) = conn" using res(3) by simp
  then have "c_Record c \<noteq> r" using assms(3,6) by auto
  then have cas: "saveVersion (memoryStore it) r u m' = (None, m')" for u
    using res(2,4) r2 by (simp add: saveVersion_def save_memory MemoryStore_CompareAndSwap_def)
  define m2 where "m2 = m'\<lparr>m_store := release_loop (r_AccountID r) old (it (m_store m')) (m_store m')\<rparr>"
  define m3 where "m3 = forget_loop sid (r_AccountID r) (itc (m_connections m2)) m2"
  have keep: "m_store m2 sid = Some (c_Record c)"
    using release_loop_released [of "r_AccountID r" old "m_store m'" sid "it (m_store m')"] res(3,4) assms(6)
    by (auto simp: released_def m2_def)
  have "set (itc (m_connections m2)) = dom (m_connections m2)"
    using range_ok_iterates [OF assms(7), of "m_connections m2"] assms(8) res(5)
    by (simp add: iterates_def m2_def)
  then have conn: "conn \<in> set (itc (m_connections m2))" "m_connections m2 conn = Some sid"
    "m_accountConnections m2 (r_AccountID r) = Some conn"
    using res(5,6) r2 by (simp_all add: m2_def)
  have gone: "m_connections m3 conn = None" "m_accountConnections m3 (r_AccountID r) = None"
    unfolding m3_def using forget_loop_connections [of conn _ m2] forget_loop_account conn by simp_all
  have lc: "m_lifecycle m3"
  proof -
    have "m_lifecycle (forget_loop s a ks x) = m_lifecycle x" for s a ks and x :: "MemoryStore Manager"
      by (induction ks arbitrary: x) (auto simp: Let_def)
    then show ?thesis using assms(9) by (simp add: m3_def m2_def)
  qed
  have eq: "disconnect_found (memoryStore it) itc sid old now' [r_ConnectionEpoch r] wall r m' =
      (None, scheduleExpiry r (now' + m_reconnectGrace m') wall
        (emitLifecycle LifecycleDisconnected r now' m3))"
    using assms(3) by (simp add: disconnect_found_def cas release_memory Let_def m2_def m3_def)
  show ?thesis
    unfolding eq using keep gone lc res(3)
    by (simp add: m3_def) (simp add: emitLifecycle_def m2_def)
qed

theorem disconnect_loses_race_witness:
  "\<exists>c m' m''. Resume (memoryStore (\<lambda>_. [])) demo_hash (Inr ''t2'') ''s'' ''t'' ''c2'' 7
       (demo_manager\<lparr>m_store := [''s'' \<mapsto> demo_record\<lparr>r_ConnectionID := ''c1''\<rparr>]\<rparr>) = (Inr c, m')
     \<and> disconnect_found (memoryStore (\<lambda>_. [])) sorted_keys ''s'' ''c1'' 8 [1] 8
         (demo_record\<lparr>r_ConnectionID := ''c1''\<rparr>) m' = (None, m'')
     \<and> m_connections m' ''c2'' = Some ''s'' \<and> m_connections m'' ''c2'' = None"
proof -
  let ?r = "demo_record\<lparr>r_ConnectionID := ''c1''\<rparr>"
  let ?m = "demo_manager\<lparr>m_store := [''s'' \<mapsto> ?r]\<rparr>"
  have ok: "memory_ok (m_store ?m)" by (simp add: memory_ok_def demo_record_def)
  have "\<exists>c m'. Resume (memoryStore (\<lambda>_. [])) demo_hash (Inr ''t2'') ''s'' ''t'' ''c2'' 7 ?m = (Inr c, m')
      \<and> m_lifecycle m' \<and> m_connections m' ''c2'' = Some ''s''"
    by (simp add: Resume_def resume_found_def save_memory claim_memory MemoryStore_CompareAndSwap_def
        Let_def demo_record_def demo_manager_def NewManager_def zeroRecord_def notifyPreempted_def
        str_at_def)
  then obtain c m' where r: "Resume (memoryStore (\<lambda>_. [])) demo_hash (Inr ''t2'') ''s'' ''t'' ''c2'' 7 ?m = (Inr c, m')"
    and m': "m_lifecycle m'" "m_connections m' ''c2'' = Some ''s''" by blast
  have fin: "finite (dom (m_connections ?m))" by (simp add: demo_manager_def NewManager_def)
  from disconnect_loses_race [OF ok _ _ _ r _ range_ok_sorted_keys fin m'(1), of ?r "''c1''" 8 8] r m'(2)
  show ?thesis by (auto simp: demo_record_def)
qed

section \<open>Preemption\<close>

lemma find_claimed_some:
  assumes "\<exists>k \<in> set ks. \<exists>r. s k = Some r \<and> r_SessionID r \<noteq> r_SessionID rec \<and> r_AccountID r = a
    \<and> r_ConnectionID r \<noteq> ''''"
  shows "\<exists>k. s k = Some (find_claimed a rec s ks) \<and> r_AccountID (find_claimed a rec s ks) = a
    \<and> r_ConnectionID (find_claimed a rec s ks) \<noteq> ''''
    \<and> r_SessionID (find_claimed a rec s ks) \<noteq> r_SessionID rec"
  using assms by (induction ks) (auto split: option.splits)

text \<open>
  A login while the account has a live session on another connection hands the record of such a
  session, with its connection and epoch, to the preempt handler, and emits its \<open>preempted\<close> event before
  the \<open>connected\<close> event of the new session.
\<close>

theorem Create_preempts:
  assumes "memory_ok (m_store m)" "range_ok it" "finite (dom (m_store m))" "m_preempt m" "m_lifecycle m"
    and "m_store m k = Some r" "r_AccountID r = account" "r_ConnectionID r \<noteq> ''''"
    and "\<forall>k r. m_store m k = Some r \<longrightarrow> r_ConnectionID r \<noteq> conn"
    and "Manager_Create (memoryStore it) H (Inr sid) (Inr tok) account conn now players m = (Inr c, m')"
  shows "\<exists>p k. m_store m k = Some p \<and> r_AccountID p = account \<and> r_ConnectionID p \<noteq> ''''
    \<and> m_preempted m' = m_preempted m @ [p]
    \<and> m_events m' = m_events m @ [lifecycleEvent LifecyclePreempted p now,
        lifecycleEvent LifecycleConnected (c_Record c) now]"
proof -
  define n where "n = \<lparr>r_SessionID = sid, r_AccountID = account,
      r_PlayerID = (case players of [] \<Rightarrow> '''' | p # _ \<Rightarrow> p),
      r_GatewayInstanceID = m_gatewayID m, r_ConnectionID = conn, r_ConnectionEpoch = 1,
      r_State = StateAuthenticated, r_ResumeTokenHash = H tok, r_ExpireAt = now + m_sessionTTL m\<rparr>"
  have n: "r_SessionID n = sid" by (simp add: n_def)
  note eq = assms(10) [unfolded Manager_Create_def Let_def sum.case, folded n_def]
  have new: "m_store m sid = None" "c_Record c = n"
    and cr: "st_Create (memoryStore it) n (m_store m) = (None, (m_store m)(sid \<mapsto> n))"
    using eq n by (auto simp: memoryStore_def MemoryStore_Create_def claimAccount_def
        MemoryStore_ClaimAccount_def Let_def split: if_splits)
  let ?s = "(m_store m)(sid \<mapsto> n)"
  define p where "p = find_claimed account n ?s (it ?s)"
  have "k \<noteq> sid" using new(1) assms(6) by auto
  then have "?s k = Some r" "r_SessionID r \<noteq> sid" using assms(1,6) by (auto simp: memory_ok_def)
  moreover have "k \<in> set (it ?s)"
    using range_ok_iterates [OF assms(2), of ?s] assms(3) calculation(1) by (auto simp: iterates_def)
  ultimately have "\<exists>k \<in> set (it ?s). \<exists>r. ?s k = Some r \<and> r_SessionID r \<noteq> r_SessionID n
      \<and> r_AccountID r = account \<and> r_ConnectionID r \<noteq> ''''"
    unfolding n using assms(7,8) by blast
  from find_claimed_some [OF this]
  have "\<exists>k. ?s k = Some p \<and> r_AccountID p = account \<and> r_ConnectionID p \<noteq> '''' \<and> r_SessionID p \<noteq> sid"
    unfolding p_def [symmetric] n .
  then obtain k' where p: "m_store m k' = Some p" "r_AccountID p = account" "r_ConnectionID p \<noteq> ''''"
    using n by (auto split: if_splits)
  have "r_ConnectionID p \<noteq> conn" using p(1) assms(9) by blast
  then have "m_preempted m' = m_preempted m @ [p]
    \<and> m_events m' = m_events m @ [lifecycleEvent LifecyclePreempted p now,
        lifecycleEvent LifecycleConnected (c_Record c) now]"
    using eq cr p(2,3) assms(4,5)
    by (auto simp: claim_memory Let_def p_def [symmetric] notifyPreempted_def emitLifecycle_def)
  then show ?thesis using p by blast
qed

theorem Create_preempts_witness:
  "\<exists>c m' p. Manager_Create (memoryStore sorted_keys) demo_hash (Inr ''s9'') (Inr ''t9'') ''acc'' ''c9'' 3 []
       (demo_manager\<lparr>m_store := [''s'' \<mapsto> demo_record\<lparr>r_ConnectionID := ''c1''\<rparr>]\<rparr>) = (Inr c, m')
     \<and> m_preempted m' = [p] \<and> r_ConnectionID p = ''c1''"
proof -
  let ?r = "demo_record\<lparr>r_ConnectionID := ''c1''\<rparr>"
  let ?m = "demo_manager\<lparr>m_store := [''s'' \<mapsto> ?r]\<rparr>"
  have ok: "memory_ok (m_store ?m)" by (simp add: memory_ok_def demo_record_def)
  have "\<exists>c m'. Manager_Create (memoryStore sorted_keys) demo_hash (Inr ''s9'') (Inr ''t9'') ''acc'' ''c9'' 3 [] ?m
      = (Inr c, m')"
    by (simp add: Manager_Create_def claim_memory Let_def memoryStore_def [of sorted_keys]
        MemoryStore_Create_def claimAccount_def MemoryStore_ClaimAccount_def)
  then obtain c m' where cr: "Manager_Create (memoryStore sorted_keys) demo_hash (Inr ''s9'') (Inr ''t9'')
      ''acc'' ''c9'' 3 [] ?m = (Inr c, m')" by blast
  have m: "finite (dom (m_store ?m))" "m_preempt ?m" "m_lifecycle ?m" "m_store ?m ''s'' = Some ?r"
    "r_AccountID ?r = ''acc''" "r_ConnectionID ?r \<noteq> ''''"
    "\<forall>k r. m_store ?m k = Some r \<longrightarrow> r_ConnectionID r \<noteq> ''c9''" "m_preempted ?m = []"
    by (auto simp: demo_manager_def NewManager_def demo_record_def)
  from Create_preempts [OF ok range_ok_sorted_keys m(1-7) cr] obtain p k where
    "m_store ?m k = Some p" "m_preempted m' = m_preempted ?m @ [p]" by blast
  then show ?thesis using cr m(8) by (auto split: if_splits)
qed

section \<open>Lifecycle delivery\<close>








end
