(* ===== verification/Session_Redis.thy ===== *)
theory Session_Redis
  imports Session_Props
begin

text \<open>
  The session store on Redis (\<^verbatim>\<open>src/services/gateway/session/redis_store.go\<close>), which the gateways of a deployment share, and a cluster of
  gateways on one store.  Redis is not part of the repository: \<open>Redis\<close> is the record of the commands the code calls, acting on a state of the outside
  world, and \<open>redis_server\<close> states what their documentation promises in terms of a view of the world as the live keys and their values.  A command that
  is reported as failed may have been executed.  Keys expire between commands: an expiry is a step of the cluster.  The encoding of records is a
  parameter as well; strings are taken to be valid UTF-8.
\<close>

section \<open>Redis\<close>

type_synonym keyspace = "string \<rightharpoonup> string"
type_synonym 'r command = "keyspace \<Rightarrow> 'r result \<times> keyspace"

text \<open>The reply of a script.\<close>

datatype reply = ReplyInt int | ReplyText string

text \<open>
  The client.  \<open>rd_Run\<close> runs a script, which the server executes as one command; \<open>rd_Now\<close> is the clock of the gateway that \<^verbatim>\<open>time.Until\<close> reads.
\<close>

record 'w Redis =
  rd_Get :: "string \<Rightarrow> 'w \<Rightarrow> string result \<times> 'w"
  rd_SetNX :: "string \<Rightarrow> string \<Rightarrow> duration \<Rightarrow> 'w \<Rightarrow> bool result \<times> 'w"
  rd_SetXX :: "string \<Rightarrow> string \<Rightarrow> duration \<Rightarrow> 'w \<Rightarrow> bool result \<times> 'w"
  rd_Del :: "string \<Rightarrow> 'w \<Rightarrow> unit result \<times> 'w"
  rd_Run :: "reply command \<Rightarrow> 'w \<Rightarrow> reply result \<times> 'w"
  rd_Now :: "'w \<Rightarrow> gotime"

text \<open>The commands on the live keys.\<close>

definition cmd_GET :: "string \<Rightarrow> string command" where
  "cmd_GET k keys = (case keys k of None \<Rightarrow> (Inl (Sentinel RedisNil), keys) | Some d \<Rightarrow> (Inr d, keys))"

definition cmd_SETNX :: "string \<Rightarrow> string \<Rightarrow> bool command" where
  "cmd_SETNX k v keys = (if keys k = None then (Inr True, keys(k \<mapsto> v)) else (Inr False, keys))"

definition cmd_SETXX :: "string \<Rightarrow> string \<Rightarrow> bool command" where
  "cmd_SETXX k v keys = (if keys k = None then (Inr False, keys) else (Inr True, keys(k \<mapsto> v)))"

definition cmd_DEL :: "string \<Rightarrow> unit command" where
  "cmd_DEL k keys = (Inr (), keys(k := None))"

text \<open>
  A call executes a command: it returns what the command returns, or it fails and the command has been executed or not.
\<close>

definition executes :: "('w \<Rightarrow> keyspace) \<Rightarrow> 'r command \<Rightarrow> 'w \<Rightarrow> 'r result \<times> 'w \<Rightarrow> bool" where
  "executes view c w = (\<lambda>(res, w').
     case res of Inr r \<Rightarrow> c (view w) = (Inr r, view w') | Inl e \<Rightarrow> view w' = view w \<or> view w' = snd (c (view w)))"

definition redis_server :: "'w Redis \<Rightarrow> ('w \<Rightarrow> keyspace) \<Rightarrow> bool" where
  "redis_server R view \<longleftrightarrow>
     (\<forall>k w. executes view (cmd_GET k) w (rd_Get R k w))
   \<and> (\<forall>k v ttl w. executes view (cmd_SETNX k v) w (rd_SetNX R k v ttl w))
   \<and> (\<forall>k v ttl w. executes view (cmd_SETXX k v) w (rd_SetXX R k v ttl w))
   \<and> (\<forall>k w. executes view (cmd_DEL k) w (rd_Del R k w))
   \<and> (\<forall>c w. executes view c w (rd_Run R c w))"

text \<open>Live keys that expire.\<close>

definition lapses :: "('w \<Rightarrow> keyspace) \<Rightarrow> 'w \<Rightarrow> 'w \<Rightarrow> bool" where
  "lapses view w w' \<longleftrightarrow> (\<forall>k. view w' k = view w k \<or> view w' k = None)"

section \<open>The store\<close>

text \<open>
  The store's fields, and with them the encoding of records: \<open>rs_connection_id\<close> is the field \<^verbatim>\<open>connection_id\<close> that \<^verbatim>\<open>cjson.decode\<close> finds.
\<close>

record 'w RedisStore =
  rs_client :: "'w Redis"
  rs_prefix :: string
  rs_Marshal :: "Record \<Rightarrow> string result"
  rs_Unmarshal :: "string \<Rightarrow> Record result"
  rs_connection_id :: "string \<Rightarrow> string option"

definition json_ok :: "'w RedisStore \<Rightarrow> bool" where
  "json_ok s \<longleftrightarrow> (\<forall>r d. rs_Marshal s r = Inr d \<longrightarrow> rs_Unmarshal s d = Inr r \<and> d \<noteq> '''')"

definition redis_key :: "'w RedisStore \<Rightarrow> string \<Rightarrow> string" where
  "redis_key s i = rs_prefix s @ i"

definition accountKey :: "'w RedisStore \<Rightarrow> string \<Rightarrow> string" where
  "accountKey s accountID = rs_prefix s @ ''account:'' @ accountID"

definition invalidExpire :: go_error where
  "invalidExpire = NewError ''ERR invalid expire time in 'set' command''"

definition compareAndSwapScript :: "string \<Rightarrow> string \<Rightarrow> string \<Rightarrow> int \<Rightarrow> reply command" where
  "compareAndSwapScript key expected updated px keys =
     (if keys key \<noteq> Some expected then (Inr (ReplyInt 0), keys)
      else if px \<le> 0 then (Inl invalidExpire, keys)
      else (Inr (ReplyInt 1), keys(key \<mapsto> updated)))"

definition claimAccountScript :: "string \<Rightarrow> string \<Rightarrow> int \<Rightarrow> reply command" where
  "claimAccountScript key data px keys =
     (if px \<le> 0 then (Inl invalidExpire, keys)
      else (Inr (ReplyText (case keys key of None \<Rightarrow> '''' | Some previous \<Rightarrow> previous)), keys(key \<mapsto> data)))"

definition releaseAccountScript :: "(string \<Rightarrow> string option) \<Rightarrow> string \<Rightarrow> string \<Rightarrow> reply command" where
  "releaseAccountScript connection_id key connectionID keys =
     (case keys key of
        None \<Rightarrow> (Inr (ReplyInt 1), keys)
      | Some current \<Rightarrow>
          (case connection_id current of
             None \<Rightarrow> (Inl (NewError ''ERR user_script''), keys)
           | Some c \<Rightarrow> if c = connectionID then (Inr (ReplyInt 1), keys(key := None)) else (Inr (ReplyInt 0), keys)))"

definition RedisStore_Create :: "'w RedisStore \<Rightarrow> Record \<Rightarrow> 'w \<Rightarrow> go_error option \<times> 'w" where
  "RedisStore_Create s record w =
     (case rs_Marshal s record of
        Inl e \<Rightarrow> (Some e, w)
      | Inr data \<Rightarrow>
          let ttl = Sub (r_ExpireAt record) (rd_Now (rs_client s) w)
          in if ttl \<le> 0 then (Some (Sentinel ErrSessionExpiry), w)
             else (case rd_SetNX (rs_client s) (redis_key s (r_SessionID record)) data ttl w of
                (Inl e, w') \<Rightarrow> (Some e, w')
              | (Inr ok, w') \<Rightarrow> if \<not> ok then (Some (NewError ''session already exists''), w') else (None, w')))"

definition RedisStore_ClaimAccount :: "'w RedisStore \<Rightarrow> string \<Rightarrow> Record \<Rightarrow> 'w \<Rightarrow> (Record \<times> bool) result \<times> 'w" where
  "RedisStore_ClaimAccount s accountID record w =
     (case rs_Marshal s record of
        Inl e \<Rightarrow> (Inl e, w)
      | Inr data \<Rightarrow>
          let ttl = Sub (r_ExpireAt record) (rd_Now (rs_client s) w)
          in if ttl \<le> 0 then (Inl (Sentinel ErrSessionExpiry), w)
             else (case rd_Run (rs_client s) (claimAccountScript (accountKey s accountID) data (Milliseconds ttl)) w of
                (Inl e, w') \<Rightarrow> (Inl e, w')
              | (Inr (ReplyInt _), w') \<Rightarrow> (Inl (NewError ''redis: unexpected type for Text''), w')
              | (Inr (ReplyText previousData), w') \<Rightarrow>
                  if previousData = '''' then (Inr (zeroRecord, False), w')
                  else (case rs_Unmarshal s previousData of Inl e \<Rightarrow> (Inl e, w') | Inr previous \<Rightarrow> (Inr (previous, True), w'))))"

definition RedisStore_ReleaseAccount :: "'w RedisStore \<Rightarrow> string \<Rightarrow> string \<Rightarrow> 'w \<Rightarrow> go_error option \<times> 'w" where
  "RedisStore_ReleaseAccount s accountID connectionID w =
     (case rd_Run (rs_client s) (releaseAccountScript (rs_connection_id s) (accountKey s accountID) connectionID) w of
        (Inl e, w') \<Rightarrow> (Some e, w') | (Inr _, w') \<Rightarrow> (None, w'))"

definition RedisStore_Get :: "'w RedisStore \<Rightarrow> string \<Rightarrow> 'w \<Rightarrow> Record result \<times> 'w" where
  "RedisStore_Get s i w =
     (case rd_Get (rs_client s) (redis_key s i) w of
        (Inl e, w') \<Rightarrow> if errors_is e RedisNil then (Inl (Sentinel ErrSessionNotFound), w') else (Inl e, w')
      | (Inr data, w') \<Rightarrow> (rs_Unmarshal s data, w'))"

definition RedisStore_Save :: "'w RedisStore \<Rightarrow> Record \<Rightarrow> 'w \<Rightarrow> go_error option \<times> 'w" where
  "RedisStore_Save s record w =
     (case rs_Marshal s record of
        Inl e \<Rightarrow> (Some e, w)
      | Inr data \<Rightarrow>
          let ttl = Sub (r_ExpireAt record) (rd_Now (rs_client s) w)
          in if ttl \<le> 0 then (Some (Sentinel ErrSessionExpiry), w)
             else (case rd_SetXX (rs_client s) (redis_key s (r_SessionID record)) data ttl w of
                (Inl e, w') \<Rightarrow> (Some e, w')
              | (Inr ok, w') \<Rightarrow> if \<not> ok then (Some (Sentinel ErrSessionNotFound), w') else (None, w')))"

definition RedisStore_CompareAndSwap :: "'w RedisStore \<Rightarrow> Record \<Rightarrow> Record \<Rightarrow> 'w \<Rightarrow> bool result \<times> 'w" where
  "RedisStore_CompareAndSwap s expected updated w =
     (case rs_Marshal s expected of
        Inl e \<Rightarrow> (Inl e, w)
      | Inr expectedData \<Rightarrow>
          (case rs_Marshal s updated of
             Inl e \<Rightarrow> (Inl e, w)
           | Inr updatedData \<Rightarrow>
               let ttl = Sub (r_ExpireAt updated) (rd_Now (rs_client s) w)
               in if ttl \<le> 0 then (Inl (Sentinel ErrSessionExpiry), w)
                  else (case rd_Run (rs_client s)
                          (compareAndSwapScript (redis_key s (r_SessionID updated)) expectedData updatedData (Milliseconds ttl)) w of
                     (Inl e, w') \<Rightarrow> (Inl e, w')
                   | (Inr (ReplyText _), w') \<Rightarrow> (Inl (NewError ''redis: unexpected type for Int64''), w')
                   | (Inr (ReplyInt result), w') \<Rightarrow> (Inr (result = 1), w'))))"

definition RedisStore_Delete :: "'w RedisStore \<Rightarrow> string \<Rightarrow> 'w \<Rightarrow> go_error option \<times> 'w" where
  "RedisStore_Delete s i w =
     (case rd_Del (rs_client s) (redis_key s i) w of (Inl e, w') \<Rightarrow> (Some e, w') | (Inr _, w') \<Rightarrow> (None, w'))"

definition redisStore :: "'w RedisStore \<Rightarrow> 'w Store" where
  "redisStore s = \<lparr>st_Create = RedisStore_Create s, st_Get = RedisStore_Get s, st_Save = RedisStore_Save s, st_Delete = RedisStore_Delete s,
     st_CompareAndSwap = Some (RedisStore_CompareAndSwap s), st_ClaimAccount = Some (RedisStore_ClaimAccount s),
     st_ReleaseAccount = RedisStore_ReleaseAccount s\<rparr>"

section \<open>The store keeps the contract\<close>

text \<open>An identifier that is no account entry.\<close>

definition session_id :: "string \<Rightarrow> bool" where
  "session_id i \<longleftrightarrow> take 8 i \<noteq> ''account:''"

text \<open>Every value is an encoded record of a session, under the key of a session it is the record of that session.\<close>

definition redis_ok :: "'w RedisStore \<Rightarrow> ('w \<Rightarrow> keyspace) \<Rightarrow> 'w \<Rightarrow> bool" where
  "redis_ok s view w \<longleftrightarrow>
     (\<forall>i d. view w (redis_key s i) = Some d \<longrightarrow>
        (\<exists>r. rs_Unmarshal s d = Inr r \<and> session_id (r_SessionID r) \<and> (session_id i \<longrightarrow> r_SessionID r = i)))"

definition redis_lookup :: "'w RedisStore \<Rightarrow> ('w \<Rightarrow> keyspace) \<Rightarrow> 'w \<Rightarrow> string \<Rightarrow> Record option" where
  "redis_lookup s view w i =
     (if \<not> session_id i then None
      else case view w (redis_key s i) of None \<Rightarrow> None | Some d \<Rightarrow> (case rs_Unmarshal s d of Inl _ \<Rightarrow> None | Inr r \<Rightarrow> Some r))"

lemma redis_key_inject [simp]: "redis_key s i = redis_key s j \<longleftrightarrow> i = j"
  by (simp add: redis_key_def)

definition account_entry :: "string \<Rightarrow> string" where
  "account_entry a = ''account:'' @ a"

lemma accountKey_key: "accountKey s a = redis_key s (account_entry a)"
  by (simp add: accountKey_def redis_key_def account_entry_def)

lemma not_session_id [simp]: "\<not> session_id (account_entry a)"
  by (simp add: session_id_def account_entry_def)

lemma redis_okD:
  assumes "redis_ok s view w" "view w (redis_key s i) = Some d"
  obtains r where "rs_Unmarshal s d = Inr r" "session_id (r_SessionID r)" "session_id i \<Longrightarrow> r_SessionID r = i"
  using assms unfolding redis_ok_def by blast

lemma lookup_cong: "view w' = view w \<Longrightarrow> redis_lookup s view w' = redis_lookup s view w"
  by (auto simp: redis_lookup_def)

lemma ok_cong: "view w' = view w \<Longrightarrow> redis_ok s view w' = redis_ok s view w"
  by (simp add: redis_ok_def)

lemma lookup_set:
  assumes "view w' = (view w)(redis_key s i \<mapsto> d)" "rs_Unmarshal s d = Inr r" "session_id i"
  shows "redis_lookup s view w' = (redis_lookup s view w)(i \<mapsto> r)"
  using assms by (auto simp: redis_lookup_def)

lemma ok_set:
  assumes "redis_ok s view w" "view w' = (view w)(redis_key s i \<mapsto> d)" "rs_Unmarshal s d = Inr r"
    and "session_id (r_SessionID r)" "session_id i \<longrightarrow> r_SessionID r = i"
  shows "redis_ok s view w'"
  using assms unfolding redis_ok_def by simp

lemma lookup_account:
  assumes "view w' = (view w)(accountKey s a := x)"
  shows "redis_lookup s view w' = redis_lookup s view w"
  using assms by (auto simp: redis_lookup_def accountKey_key)

lemma ok_del: "redis_ok s view w \<Longrightarrow> view w' = (view w)(k := None) \<Longrightarrow> redis_ok s view w'"
  unfolding redis_ok_def by simp

lemma lookup_del: "view w' = (view w)(redis_key s i := None) \<Longrightarrow> redis_lookup s view w' = (redis_lookup s view w)(i := None)"
  by (auto simp: redis_lookup_def)

lemma lookup_none:
  assumes "redis_ok s view w" "session_id i"
  shows "redis_lookup s view w i = None \<longleftrightarrow> view w (redis_key s i) = None"
  using assms by (auto simp: redis_lookup_def elim: redis_okD split: option.splits sum.splits)

lemma redis_executes:
  assumes "redis_server (rs_client s) view"
  shows "executes view (cmd_GET k) w (rd_Get (rs_client s) k w)" "executes view (cmd_SETNX k v) w (rd_SetNX (rs_client s) k v ttl w)"
    "executes view (cmd_DEL k) w (rd_Del (rs_client s) k w)" "executes view c w (rd_Run (rs_client s) c w)"
  using assms by (simp_all add: redis_server_def)

lemma executesD:
  assumes "executes view c w (res, w')"
  shows "res = Inr r \<Longrightarrow> c (view w) = (Inr r, view w')" "res = Inl e \<Longrightarrow> view w' = view w \<or> view w' = snd (c (view w))"
  using assms by (simp_all add: executes_def)

text \<open>What each operation does to the live keys.\<close>

lemma Create_keys:
  assumes "redis_server (rs_client s) view" "RedisStore_Create s r w = (e, w')"
  obtains (same) "e \<noteq> None" "view w' = view w"
    | (set) d where "rs_Marshal s r = Inr d" "view w (redis_key s (r_SessionID r)) = None" "view w' = (view w)(redis_key s (r_SessionID r) \<mapsto> d)"
proof (cases "rs_Marshal s r")
  case (Inl err)
  then show thesis using assms(2) same by (auto simp: RedisStore_Create_def)
next
  case (Inr d)
  let ?ttl = "Sub (r_ExpireAt r) (rd_Now (rs_client s) w)"
  obtain res w1 where x: "rd_SetNX (rs_client s) (redis_key s (r_SessionID r)) d ?ttl w = (res, w1)" by fastforce
  have ex: "executes view (cmd_SETNX (redis_key s (r_SessionID r)) d) w (res, w1)" using redis_executes(2) [OF assms(1)] x by metis
  show thesis
  proof (cases "?ttl \<le> 0")
    case True
    then show thesis using assms(2) Inr same by (auto simp: RedisStore_Create_def)
  next
    case False
    then have "w' = w1" "e = None \<longleftrightarrow> res = Inr True" using assms(2) Inr x by (auto simp: RedisStore_Create_def Let_def split: sum.splits if_splits)
    then show thesis using executesD [OF ex] Inr same set by (cases res) (auto simp: cmd_SETNX_def split: if_splits)
  qed
qed

lemma Get_keys:
  assumes "redis_server (rs_client s) view" "RedisStore_Get s i w = (res, w')"
  shows "view w' = view w" "res = Inr r \<Longrightarrow> \<exists>d. view w (redis_key s i) = Some d \<and> rs_Unmarshal s d = Inr r"
proof -
  obtain x w1 where g: "rd_Get (rs_client s) (redis_key s i) w = (x, w1)" by fastforce
  have ex: "executes view (cmd_GET (redis_key s i)) w (x, w1)" using redis_executes(1) [OF assms(1)] g by metis
  have w: "w' = w1" using assms(2) g by (auto simp: RedisStore_Get_def split: sum.splits if_splits)
  have snd: "snd (cmd_GET k keys) = keys" for k keys by (simp add: cmd_GET_def split: option.splits)
  have v: "view w1 = view w \<and> (\<forall>d. x = Inr d \<longrightarrow> view w (redis_key s i) = Some d)"
    using executesD [OF ex] snd by (cases x) (auto simp: cmd_GET_def split: option.splits)
  then show "view w' = view w" using w by simp
  show "res = Inr r \<Longrightarrow> \<exists>d. view w (redis_key s i) = Some d \<and> rs_Unmarshal s d = Inr r"
    using v assms(2) g by (auto simp: RedisStore_Get_def split: sum.splits if_splits)
qed

lemma CompareAndSwap_keys:
  assumes "redis_server (rs_client s) view" "RedisStore_CompareAndSwap s x u w = (res, w')"
  obtains (same) "res \<noteq> Inr True" "view w' = view w"
    | (set) dx du where "rs_Marshal s x = Inr dx" "rs_Marshal s u = Inr du" "res \<noteq> Inr False" "view w (redis_key s (r_SessionID u)) = Some dx"
        "view w' = (view w)(redis_key s (r_SessionID u) \<mapsto> du)"
proof (cases "rs_Marshal s x")
  case (Inl err)
  then show thesis using assms(2) same by (auto simp: RedisStore_CompareAndSwap_def)
next
  case (Inr dx)
  note dx = Inr
  let ?ttl = "Sub (r_ExpireAt u) (rd_Now (rs_client s) w)"
  show thesis
  proof (cases "rs_Marshal s u")
    case (Inl err)
    then show thesis using assms(2) dx same by (auto simp: RedisStore_CompareAndSwap_def)
  next
    case (Inr du)
    let ?c = "compareAndSwapScript (redis_key s (r_SessionID u)) dx du (Milliseconds ?ttl)"
    obtain rep w1 where x: "rd_Run (rs_client s) ?c w = (rep, w1)" by fastforce
    have ex: "executes view ?c w (rep, w1)" using redis_executes(4) [OF assms(1)] x by metis
    show thesis
    proof (cases "?ttl \<le> 0")
      case True
      then show thesis using assms(2) dx Inr same by (auto simp: RedisStore_CompareAndSwap_def)
    next
      case False
      then have w: "w' = w1" "res = (case rep of Inl e \<Rightarrow> Inl e | Inr (ReplyText _) \<Rightarrow> Inl (NewError ''redis: unexpected type for Int64'') | Inr (ReplyInt n) \<Rightarrow> Inr (n = 1))"
        using assms(2) dx Inr x by (auto simp: RedisStore_CompareAndSwap_def Let_def split: sum.splits reply.splits)
      show thesis
      proof (cases "view w1 = view w \<and> res \<noteq> Inr True")
        case True
        then show thesis using same w(1) by simp
      next
        case False
        then have "view w (redis_key s (r_SessionID u)) = Some dx \<and> view w1 = (view w)(redis_key s (r_SessionID u) \<mapsto> du) \<and> res \<noteq> Inr False"
          using executesD [OF ex] w(2) by (cases rep) (auto simp: compareAndSwapScript_def split: if_splits)
        then show thesis using set [OF dx Inr] w(1) by simp
      qed
    qed
  qed
qed

lemma ClaimAccount_keys:
  assumes "redis_server (rs_client s) view" "RedisStore_ClaimAccount s a r w = (res, w')"
  obtains (same) "view w' = view w" | (set) d where "rs_Marshal s r = Inr d" "view w' = (view w)(accountKey s a \<mapsto> d)"
proof (cases "rs_Marshal s r")
  case (Inl err)
  then show thesis using assms(2) same by (auto simp: RedisStore_ClaimAccount_def)
next
  case (Inr d)
  let ?ttl = "Sub (r_ExpireAt r) (rd_Now (rs_client s) w)"
  let ?c = "claimAccountScript (accountKey s a) d (Milliseconds ?ttl)"
  obtain rep w1 where x: "rd_Run (rs_client s) ?c w = (rep, w1)" by fastforce
  have ex: "executes view ?c w (rep, w1)" using redis_executes(4) [OF assms(1)] x by metis
  have "w' = w \<or> w' = w1" using assms(2) Inr x
    by (auto simp: RedisStore_ClaimAccount_def Let_def split: sum.splits reply.splits if_splits)
  moreover have "view w1 = view w \<or> view w1 = (view w)(accountKey s a \<mapsto> d)"
    using executesD [OF ex] by (cases rep) (auto simp: claimAccountScript_def split: if_splits)
  ultimately show thesis using same set [OF Inr] by auto
qed

lemma ReleaseAccount_keys:
  assumes "redis_server (rs_client s) view" "RedisStore_ReleaseAccount s a c w = (e, w')"
  shows "view w' = view w \<or> view w' = (view w)(accountKey s a := None)"
proof -
  let ?c = "releaseAccountScript (rs_connection_id s) (accountKey s a) c"
  obtain rep w1 where x: "rd_Run (rs_client s) ?c w = (rep, w1)" by fastforce
  have ex: "executes view ?c w (rep, w1)" using redis_executes(4) [OF assms(1)] x by metis
  have "w' = w1" using assms(2) x by (auto simp: RedisStore_ReleaseAccount_def split: sum.splits)
  then show ?thesis using executesD [OF ex] by (cases rep) (auto simp: releaseAccountScript_def split: if_splits option.splits)
qed

lemma Delete_keys:
  assumes "redis_server (rs_client s) view" "RedisStore_Delete s i w = (e, w')"
  shows "view w' = (view w)(redis_key s i := None) \<or> e \<noteq> None \<and> view w' = view w"
proof -
  obtain rep w1 where x: "rd_Del (rs_client s) (redis_key s i) w = (rep, w1)" by fastforce
  have ex: "executes view (cmd_DEL (redis_key s i)) w (rep, w1)" using redis_executes(3) [OF assms(1)] x by metis
  then show ?thesis using executesD [OF ex] assms(2) x by (cases rep) (auto simp: RedisStore_Delete_def cmd_DEL_def)
qed

lemma json_okD: "json_ok s \<Longrightarrow> rs_Marshal s r = Inr d \<Longrightarrow> rs_Unmarshal s d = Inr r"
  by (simp add: json_ok_def)

lemma ok_same: "redis_ok s view w \<Longrightarrow> view w' = view w \<Longrightarrow> redis_ok s view w' \<and> redis_lookup s view w' = redis_lookup s view w"
  using ok_cong [of view w' w s] lookup_cong [of view w' w s] by simp

lemma set_session:
  assumes "redis_ok s view w" "view w' = (view w)(redis_key s (r_SessionID r) \<mapsto> d)" "rs_Unmarshal s d = Inr r" "session_id (r_SessionID r)"
  shows "redis_ok s view w' \<and> redis_lookup s view w' = (redis_lookup s view w)(r_SessionID r \<mapsto> r)"
  using ok_set [OF assms(1-4)] lookup_set [OF assms(2-4)] by simp

lemma Create_redis:
  assumes "redis_server (rs_client s) view" "json_ok s" "redis_ok s view w" "session_id (r_SessionID r)" "RedisStore_Create s r w = (e, w')"
  shows "redis_ok s view w' \<and> (redis_lookup s view w' = redis_lookup s view w \<and> e \<noteq> None
    \<or> redis_lookup s view w (r_SessionID r) = None \<and> redis_lookup s view w' = (redis_lookup s view w)(r_SessionID r \<mapsto> r))"
  using assms(1,5)
proof (cases rule: Create_keys)
  case same
  then show ?thesis using ok_same [OF assms(3), of w'] by simp
next
  case (set d)
  then show ?thesis using set_session [OF assms(3) set(3) json_okD [OF assms(2) set(1)] assms(4)] lookup_none [OF assms(3,4)] by simp
qed

lemma CompareAndSwap_redis:
  assumes "redis_server (rs_client s) view" "json_ok s" "redis_ok s view w" "session_id (r_SessionID x)" "r_SessionID u = r_SessionID x"
    and "RedisStore_CompareAndSwap s x u w = (res, w')"
  shows "redis_ok s view w' \<and> (redis_lookup s view w' = redis_lookup s view w \<and> res \<noteq> Inr True
    \<or> redis_lookup s view w (r_SessionID x) = Some x \<and> redis_lookup s view w' = (redis_lookup s view w)(r_SessionID x \<mapsto> u) \<and> res \<noteq> Inr False)"
  using assms(1,6)
proof (cases rule: CompareAndSwap_keys)
  case same
  then show ?thesis using ok_same [OF assms(3), of w'] by simp
next
  case (set dx du)
  have "redis_lookup s view w (r_SessionID x) = Some x"
    using set(4) json_okD [OF assms(2) set(1)] assms(4,5) by (simp add: redis_lookup_def)
  then show ?thesis using set_session [OF assms(3) set(5) json_okD [OF assms(2) set(2)]] assms(4,5) set(3) by simp
qed

lemma ClaimAccount_redis:
  assumes "redis_server (rs_client s) view" "json_ok s" "redis_ok s view w" "session_id (r_SessionID r)" "RedisStore_ClaimAccount s a r w = (res, w')"
  shows "redis_ok s view w' \<and> redis_lookup s view w' = redis_lookup s view w"
  using assms(1,5)
proof (cases rule: ClaimAccount_keys)
  case same
  then show ?thesis using ok_same [OF assms(3), of w'] by simp
next
  case (set d)
  then show ?thesis
    using ok_set [OF assms(3) set(2) [unfolded accountKey_key] json_okD [OF assms(2) set(1)] assms(4)] lookup_account [OF set(2)] by simp
qed

lemma ReleaseAccount_redis:
  assumes "redis_server (rs_client s) view" "redis_ok s view w" "RedisStore_ReleaseAccount s a c w = (e, w')"
  shows "redis_ok s view w' \<and> redis_lookup s view w' = redis_lookup s view w"
  using ReleaseAccount_keys [OF assms(1,3)]
proof
  assume "view w' = view w"
  then show ?thesis by (rule ok_same [OF assms(2)])
next
  assume v: "view w' = (view w)(accountKey s a := None)"
  then show ?thesis using ok_del [OF assms(2)] lookup_account [OF v] by simp
qed

lemma redis_session_store:
  assumes "redis_server (rs_client s) view" "json_ok s"
  shows "session_store (redisStore s) (redis_lookup s view) (redis_ok s view) session_id (RedisStore_CompareAndSwap s) (RedisStore_ClaimAccount s)"
proof (unfold_locales, goal_cases)
  case (3 w i r)
  then obtain d where d: "session_id i" "view w (redis_key s i) = Some d" "rs_Unmarshal s d = Inr r"
    by (auto simp: redis_lookup_def split: if_splits option.splits sum.splits)
  show ?case by (rule redis_okD [OF 3(1) d(2)]) (use d in simp)
next
  case (4 w i res w')
  then have "RedisStore_Get s i w = (res, w')" by (simp add: redisStore_def)
  from ok_same [OF 4(1) Get_keys(1) [OF assms(1) this]] show ?case .
next
  case (5 w i r w')
  then have g: "RedisStore_Get s i w = (Inr r, w')" by (simp add: redisStore_def)
  obtain d where d: "view w (redis_key s i) = Some d" "rs_Unmarshal s d = Inr r" using Get_keys(2) [OF assms(1) g refl] by blast
  show ?case by (rule redis_okD [OF 5(1) d(1)]) (use d(2) in simp)
next
  case (6 w i r w')
  then have g: "RedisStore_Get s i w = (Inr r, w')" by (simp add: redisStore_def)
  show ?case using Get_keys(2) [OF assms(1) g refl] 6(2) by (auto simp: redis_lookup_def)
next
  case (7 w r w')
  then show ?case using Create_redis [OF assms 7(1,2)] by (auto simp: redisStore_def)
next
  case (8 w r e w')
  then show ?case using Create_redis [OF assms 8(1,2)] by (auto simp: redisStore_def)
next
  case (9 w x u w')
  then show ?case using CompareAndSwap_redis [OF assms 9] by auto
next
  case (10 w x u w')
  then show ?case using CompareAndSwap_redis [OF assms 10] by auto
next
  case (11 w x u e w')
  then show ?case using CompareAndSwap_redis [OF assms 11] by auto
next
  case (12 w i e w')
  then have "RedisStore_Delete s i w = (e, w')" by (simp add: redisStore_def)
  from Delete_keys [OF assms(1) this] show ?case
  proof
    assume v: "view w' = (view w)(redis_key s i := None)"
    then show ?case using ok_del [OF 12(1) v] lookup_del [OF v] by simp
  next
    assume "e \<noteq> None \<and> view w' = view w"
    then show ?case using ok_same [OF 12(1), of w'] by simp
  qed
next
  case (13 w r a prev w')
  then show ?case using ClaimAccount_redis [OF assms 13] by simp
next
  case (14 w a c e w')
  then have "RedisStore_ReleaseAccount s a c w = (e, w')" by (simp add: redisStore_def)
  from ReleaseAccount_redis [OF assms(1) 14(1) this] show ?case by (simp add: released_def)
qed (simp_all add: redisStore_def)

section \<open>Stores that expire\<close>

text \<open>A store in which records may lapse between the operations.\<close>

locale expiring_store = session_store S lookup invar valid cas claim
  for S :: "'st Store" and lookup invar valid cas claim +
  fixes lapse :: "'st \<Rightarrow> 'st \<Rightarrow> bool"
  assumes lapse_law: "invar s \<Longrightarrow> lapse s s' \<Longrightarrow> invar s' \<and> (\<forall>i. lookup s' i = lookup s i \<or> lookup s' i = None)"

lemma lapses_redis:
  assumes "redis_ok s view w" "lapses view w w'"
  shows "redis_ok s view w' \<and> (\<forall>i. redis_lookup s view w' i = redis_lookup s view w i \<or> redis_lookup s view w' i = None)"
proof
  have v: "view w k = Some d" if "view w' k = Some d" for k d using assms(2) that unfolding lapses_def by (metis option.distinct(1))
  show "redis_ok s view w'" unfolding redis_ok_def
  proof (intro allI impI)
    fix i d
    assume "view w' (redis_key s i) = Some d"
    then show "\<exists>r. rs_Unmarshal s d = Inr r \<and> session_id (r_SessionID r) \<and> (session_id i \<longrightarrow> r_SessionID r = i)"
      using assms(1) v unfolding redis_ok_def by blast
  qed
  show "\<forall>i. redis_lookup s view w' i = redis_lookup s view w i \<or> redis_lookup s view w' i = None"
  proof
    fix i
    have "view w' (redis_key s i) = view w (redis_key s i) \<or> view w' (redis_key s i) = None" using assms(2) by (simp add: lapses_def)
    then show "redis_lookup s view w' i = redis_lookup s view w i \<or> redis_lookup s view w' i = None" by (auto simp: redis_lookup_def)
  qed
qed

lemma redis_expiring_store:
  assumes "redis_server (rs_client s) view" "json_ok s"
  shows "expiring_store (redisStore s) (redis_lookup s view) (redis_ok s view) session_id (RedisStore_CompareAndSwap s) (RedisStore_ClaimAccount s) (lapses view)"
  by (intro expiring_store.intro expiring_store_axioms.intro redis_session_store [OF assms]) (rule lapses_redis)

section \<open>A cluster of gateways\<close>

text \<open>
  Gateways with a manager each share one store: \<open>cu_read\<close>, \<open>cu_used\<close>, \<open>cu_log\<close> and \<open>cu_steps\<close> are those of a system of calls, over all gateways.
  A step is a step of a call at some gateway, or records lapse.
\<close>

record 'st cluster =
  cu_store :: 'st
  cu_managers :: "nat \<Rightarrow> 'st Manager"
  cu_read :: "Record set"
  cu_used :: "string set"
  cu_log :: "(string \<times> uint64) list"
  cu_steps :: nat

definition at_gateway :: "nat \<Rightarrow> 'st cluster \<Rightarrow> 'st session_sys" where
  "at_gateway g c = \<lparr>y_m = (cu_managers c g)\<lparr>m_store := cu_store c\<rparr>, y_read = cu_read c, y_used = cu_used c, y_log = cu_log c, y_steps = cu_steps c\<rparr>"

definition from_gateway :: "nat \<Rightarrow> 'st cluster \<Rightarrow> 'st session_sys \<Rightarrow> 'st cluster" where
  "from_gateway g c y = \<lparr>cu_store = m_store (y_m y), cu_managers = (cu_managers c)(g := y_m y), cu_read = y_read y, cu_used = y_used y,
     cu_log = y_log y, cu_steps = y_steps y\<rparr>"

inductive cluster_step :: "'st Store \<Rightarrow> (string \<Rightarrow> string) \<Rightarrow> ((string \<rightharpoonup> string) \<Rightarrow> string list) \<Rightarrow> ('st \<Rightarrow> 'st \<Rightarrow> bool) \<Rightarrow>
    'st cluster \<Rightarrow> 'st cluster \<Rightarrow> bool"
  for S :: "'st Store" and H it lapse where
  cu_call: "session_step S H it (at_gateway g c) y \<Longrightarrow> cluster_step S H it lapse c (from_gateway g c y)"
| cu_lapse: "lapse (cu_store c) st \<Longrightarrow> cluster_step S H it lapse c (c\<lparr>cu_store := st\<rparr>)"

text \<open>
  The invariant of the calls, and the fence as seen from any gateway: of the system of calls, both read the shared part only.
\<close>

definition cluster_inv :: "('st \<Rightarrow> string \<Rightarrow> Record option) \<Rightarrow> ('st \<Rightarrow> bool) \<Rightarrow> (string \<Rightarrow> bool) \<Rightarrow> 'st cluster \<Rightarrow> bool" where
  "cluster_inv lookup invar valid c \<longleftrightarrow> sys_ok invar valid (at_gateway 0 c) \<and> fence_inv (abs_sys lookup (at_gateway 0 c))"

lemma at_from:
  "sys_ok invar valid (at_gateway h (from_gateway g c y)) = sys_ok invar valid y"
  "abs_sys lookup (at_gateway h (from_gateway g c y)) = abs_sys lookup y"
  by (simp_all add: sys_ok_def abs_sys_def at_gateway_def from_gateway_def)

lemma any_gateway:
  "sys_ok invar valid (at_gateway g c) = sys_ok invar valid (at_gateway 0 c)" "abs_sys lookup (at_gateway g c) = abs_sys lookup (at_gateway 0 c)"
  by (simp_all add: sys_ok_def abs_sys_def at_gateway_def)

lemma cluster_step_steps: "cluster_step S H it lapse c c' \<Longrightarrow> cu_steps c \<le> cu_steps c'"
  by (auto simp: at_gateway_def from_gateway_def dest!: session_step_steps elim!: cluster_step.cases)

context expiring_store
begin

lemma cluster_step_inv:
  assumes "cluster_step S H it lapse c c'" "cluster_inv lookup invar valid c" "cu_steps c' < 2 ^ 64 - 1"
  shows "cluster_inv lookup invar valid c'"
  using assms(1)
proof cases
  case (cu_call g y)
  have ok: "sys_ok invar valid (at_gateway g c)" and fi: "fence_inv (abs_sys lookup (at_gateway g c))"
    using assms(2) any_gateway(1) [of invar valid g c] any_gateway(2) [of lookup g c] by (simp_all add: cluster_inv_def)
  note r = session_step_refines [OF cu_call(2) ok]
  have "f_steps (abs_sys lookup y) < 2 ^ 64 - 1" using assms(3) cu_call(1) by (simp add: abs_sys_def from_gateway_def)
  then show ?thesis using fence_step_inv [OF _ fi] r by (simp add: cu_call(1) cluster_inv_def at_from)
next
  case (cu_lapse st)
  have ok: "invar (cu_store c)" using assms(2) by (simp add: cluster_inv_def sys_ok_def at_gateway_def)
  note l = lapse_law [OF ok cu_lapse(2)]
  let ?f = "abs_sys lookup (at_gateway 0 c)"
  have "\<forall>sid. epoch_at (lookup st) sid = f_epoch ?f sid \<or> epoch_at (lookup st) sid = None"
  proof
    fix sid
    have "lookup st sid = lookup (cu_store c) sid \<or> lookup st sid = None" by (rule spec [OF conjunct2 [OF l]])
    then show "epoch_at (lookup st) sid = f_epoch ?f sid \<or> epoch_at (lookup st) sid = None"
      by (auto simp: abs_sys_def epoch_at_def at_gateway_def)
  qed
  then have "fence_step ?f (?f\<lparr>f_epoch := epoch_at (lookup st), f_steps := f_steps ?f, f_used := f_used ?f\<rparr>)" by (rule f_drop) simp_all
  moreover have "?f\<lparr>f_epoch := epoch_at (lookup st), f_steps := f_steps ?f, f_used := f_used ?f\<rparr> = abs_sys lookup (at_gateway 0 c')"
    by (simp add: cu_lapse(1) abs_sys_def at_gateway_def)
  moreover have "f_steps (abs_sys lookup (at_gateway 0 c')) < 2 ^ 64 - 1" using assms(3) by (simp add: abs_sys_def at_gateway_def)
  ultimately have "fence_inv (abs_sys lookup (at_gateway 0 c'))"
    using fence_step_inv [of ?f "abs_sys lookup (at_gateway 0 c')"] assms(2) by (simp add: cluster_inv_def)
  then show ?thesis using assms(2) l by (simp add: cluster_inv_def cu_lapse(1) sys_ok_def at_gateway_def)
qed

lemma cluster_run_inv:
  assumes "(cluster_step S H it lapse)\<^sup>*\<^sup>* c c'" "cluster_inv lookup invar valid c" "cu_steps c' < 2 ^ 64 - 1"
  shows "cluster_inv lookup invar valid c'"
  using assms
proof (induction rule: rtranclp_induct)
  case base
  then show ?case by simp
next
  case (step c1 c2)
  then have "cu_steps c1 < 2 ^ 64 - 1" using cluster_step_steps [OF step(2)] by simp
  then show ?case using step cluster_step_inv [OF step(2)] by blast
qed

end

section \<open>An instance\<close>

text \<open>A Redis in memory that never fails, with a clock, and an encoding of finitely many records.\<close>

definition on_keys :: "'r command \<Rightarrow> keyspace \<times> gotime \<Rightarrow> 'r result \<times> keyspace \<times> gotime" where
  "on_keys c = (\<lambda>(keys, t). case c keys of (res, keys') \<Rightarrow> (res, keys', t))"

definition memoryRedis :: "(keyspace \<times> gotime) Redis" where
  "memoryRedis = \<lparr>rd_Get = (\<lambda>k. on_keys (cmd_GET k)), rd_SetNX = (\<lambda>k v ttl. on_keys (cmd_SETNX k v)), rd_SetXX = (\<lambda>k v ttl. on_keys (cmd_SETXX k v)),
     rd_Del = (\<lambda>k. on_keys (cmd_DEL k)), rd_Run = on_keys, rd_Now = snd\<rparr>"

definition tableStore :: "Record list \<Rightarrow> (keyspace \<times> gotime) RedisStore" where
  "tableStore rs = \<lparr>rs_client = memoryRedis, rs_prefix = ''game01:gateway:session:'',
     rs_Marshal = (\<lambda>r. case List.find (\<lambda>n. rs ! n = r) [0..<length rs] of None \<Rightarrow> Inl (NewError ''json: unsupported value'') | Some n \<Rightarrow> Inr (replicate (Suc n) CHR ''x'')),
     rs_Unmarshal = (\<lambda>d. if d \<noteq> [] \<and> length d \<le> length rs then Inr (rs ! (length d - 1)) else Inl (NewError ''unexpected end of JSON input'')),
     rs_connection_id = (\<lambda>d. if d \<noteq> [] \<and> length d \<le> length rs then Some (r_ConnectionID (rs ! (length d - 1))) else None)\<rparr>"

lemma executes_on_keys: "executes fst c w (on_keys c w)"
  by (cases w) (auto simp: executes_def on_keys_def split: prod.splits sum.splits)

lemma memoryRedis_server: "redis_server memoryRedis fst"
  by (simp add: redis_server_def memoryRedis_def executes_on_keys)

lemma tableStore_client [simp]: "rs_client (tableStore rs) = memoryRedis" "rs_prefix (tableStore rs) = ''game01:gateway:session:''"
  by (simp_all add: tableStore_def)

lemma tableStore_json: "json_ok (tableStore rs)"
  unfolding json_ok_def tableStore_def by (auto simp: find_Some_iff split: option.splits)

interpretation mr: expiring_store "redisStore (tableStore rs)" "redis_lookup (tableStore rs) fst" "redis_ok (tableStore rs) fst" session_id
  "RedisStore_CompareAndSwap (tableStore rs)" "RedisStore_ClaimAccount (tableStore rs)" "lapses fst" for rs
  by (rule redis_expiring_store) (simp_all add: memoryRedis_server tableStore_json)

section \<open>Properties\<close>

definition new_cluster :: "'w \<Rightarrow> (nat \<Rightarrow> 'w Manager) \<Rightarrow> 'w cluster" where
  "new_cluster w managers = \<lparr>cu_store = w, cu_managers = managers, cu_read = {}, cu_used = {i. \<not> session_id i}, cu_log = [], cu_steps = 0\<rparr>"

lemma new_cluster_inv:
  assumes "\<forall>i. view w (redis_key s i) = None"
  shows "cluster_inv (redis_lookup s view) (redis_ok s view) session_id (new_cluster w managers)"
  using assms by (simp add: cluster_inv_def new_cluster_def sys_ok_def at_gateway_def redis_ok_def fence_inv_def abs_sys_def epoch_at_def redis_lookup_def epochs_won_def)

text \<open>
  C1: The fence holds across gateways.  Any number of gateways share one Redis.  However the reads and writes of their \<open>Create\<close>, \<open>Resume\<close>, \<open>Disconnect\<close>
  and expiry calls interleave, whichever commands fail after or without having been executed, and whichever keys expire in between, the connection epochs that
  successful calls hand out for one session strictly increase: no two connections, on whatever gateways, ever hold the same session and epoch.
\<close>

theorem gateways_fenced:
  assumes "redis_server (rs_client s) view" "json_ok s"
    and "\<forall>i. view w (redis_key s i) = None"
    and "(cluster_step (redisStore s) H it (lapses view))\<^sup>*\<^sup>* (new_cluster w managers) c" "cu_steps c < 2 ^ 64 - 1"
  shows "(\<forall>sid. sorted_wrt (<) (epochs_won sid (cu_log c))) \<and> distinct (cu_log c)"
proof -
  have "cluster_inv (redis_lookup s view) (redis_ok s view) session_id c"
    by (rule expiring_store.cluster_run_inv [OF redis_expiring_store [OF assms(1,2)] assms(4) new_cluster_inv [of view w, OF assms(3)] assms(5)])
  then have "\<forall>sid. sorted_wrt (<) (epochs_won sid (cu_log c))" by (simp add: cluster_inv_def fence_inv_def abs_sys_def at_gateway_def)
  then show ?thesis using distinct_pairs by blast
qed

text \<open>A session that is created at one gateway and resumed at another.\<close>

definition ex_record :: "string \<Rightarrow> string \<Rightarrow> uint64 \<Rightarrow> string \<Rightarrow> Record" where
  "ex_record gw conn epoch hash = \<lparr>r_SessionID = ''s'', r_AccountID = ''acc'', r_PlayerID = '''', r_GatewayInstanceID = gw, r_ConnectionID = conn,
     r_ConnectionEpoch = epoch, r_State = StateAuthenticated, r_ResumeTokenHash = hash, r_ExpireAt = 1000000000\<rparr>"

definition ex_first :: Record where "ex_first = ex_record ''g0'' ''c1'' 1 ''ht1''"
definition ex_second :: Record where "ex_second = ex_record ''g1'' ''c2'' 2 ''ht2''"

definition ex_store :: "(keyspace \<times> gotime) RedisStore" where
  "ex_store = tableStore [ex_first, ex_second]"

definition ex_managers :: "nat \<Rightarrow> (keyspace \<times> gotime) Manager" where
  "ex_managers g = NewManager (Map.empty, 0) (if g = 0 then ''g0'' else ''g1'') 1000000000 1000"

lemma ex_distinct: "ex_first \<noteq> ex_second" "ex_second \<noteq> ex_first" "r_SessionID ex_first = ''s''" "r_SessionID ex_second = ''s''"
  "r_ExpireAt ex_first = 1000000000" "r_ExpireAt ex_second = 1000000000" "r_AccountID ex_first = ''acc''"
  by (simp_all add: ex_first_def ex_second_def ex_record_def)

lemma ex_json:
  "rs_Marshal ex_store ex_first = Inr ''x''" "rs_Marshal ex_store ex_second = Inr ''xx''"
  "rs_Unmarshal ex_store ''x'' = Inr ex_first" "rs_Unmarshal ex_store ''xx'' = Inr ex_second" "rs_client ex_store = memoryRedis"
  by (simp_all add: ex_store_def tableStore_def ex_distinct)

lemma ex_keys [simp]: "redis_key ex_store i \<noteq> accountKey ex_store a \<longleftrightarrow> i \<noteq> account_entry a" "accountKey ex_store a \<noteq> redis_key ex_store i \<longleftrightarrow> i \<noteq> account_entry a"
  by (auto simp: accountKey_key)

abbreviation ex_key :: string where "ex_key \<equiv> redis_key ex_store ''s''"
abbreviation ex_account :: string where "ex_account \<equiv> accountKey ex_store ''acc''"

lemma ex_create:
  "\<exists>m. Manager_Create (redisStore ex_store) demo_hash (Inr ''s'') (Inr ''t1'') ''acc'' ''c1'' 0 [] (ex_managers 0) = (Inr \<lparr>c_Record = ex_first, c_ResumeToken = ''t1''\<rparr>, m)
     \<and> m_store m = ([ex_key \<mapsto> ''x'', ex_account \<mapsto> ''x''], 0)"
proof -
  have r: "\<lparr>r_SessionID = ''s'', r_AccountID = ''acc'', r_PlayerID = '''', r_GatewayInstanceID = ''g0'', r_ConnectionID = ''c1'', r_ConnectionEpoch = 1,
      r_State = StateAuthenticated, r_ResumeTokenHash = demo_hash ''t1'', r_ExpireAt = 1000000000\<rparr> = ex_first"
    by (simp add: ex_first_def ex_record_def demo_hash_def)
  show ?thesis
    by (simp add: Manager_Create_def ex_managers_def NewManager_def r redisStore_def RedisStore_Create_def ex_json ex_distinct Sub_def memoryRedis_def on_keys_def
        cmd_SETNX_def claimAccount_def RedisStore_ClaimAccount_def claimAccountScript_def Milliseconds_def notifyPreempted_def accountKey_key Let_def)
qed

lemma ex_read: "RedisStore_Get ex_store ''s'' ([ex_key \<mapsto> ''x'', ex_account \<mapsto> ''x''], 0) = (Inr ex_first, [ex_key \<mapsto> ''x'', ex_account \<mapsto> ''x''], 0)"
  by (simp add: RedisStore_Get_def ex_json memoryRedis_def on_keys_def cmd_GET_def account_entry_def)

lemma ex_resume:
  "\<exists>m. resume_found (redisStore ex_store) demo_hash (Inr ''t2'') ''s'' ''t1'' ''c2'' 0 ex_first ((ex_managers 1)\<lparr>m_store := ([ex_key \<mapsto> ''x'', ex_account \<mapsto> ''x''], 0)\<rparr>)
     = (Inr \<lparr>c_Record = ex_second, c_ResumeToken = ''t2''\<rparr>, m)"
proof -
  have r: "ex_first\<lparr>r_State := StateAuthenticated, r_ConnectionID := ''c2'', r_GatewayInstanceID := ''g1'', r_ConnectionEpoch := r_ConnectionEpoch ex_first + 1,
      r_ResumeTokenHash := demo_hash ''t2'', r_ExpireAt := 1000000000\<rparr> = ex_second" "demo_hash ''t1'' = r_ResumeTokenHash ex_first" "r_AccountID ex_second = ''acc''"
    by (simp_all add: ex_first_def ex_second_def ex_record_def demo_hash_def)
  show ?thesis
    by (simp add: resume_found_def ex_managers_def NewManager_def r saveVersionResult_def redisStore_def RedisStore_CompareAndSwap_def ex_json ex_distinct Sub_def memoryRedis_def
        on_keys_def compareAndSwapScript_def claimAccount_def RedisStore_ClaimAccount_def claimAccountScript_def Milliseconds_def accountKey_key account_entry_def Let_def)
qed

theorem gateways_fenced_witness:
  "\<exists>c. (cluster_step (redisStore ex_store) demo_hash (\<lambda>_. []) (lapses fst))\<^sup>*\<^sup>* (new_cluster (Map.empty, 0) ex_managers) c
     \<and> cu_log c = [(''s'', 1), (''s'', 2)] \<and> distinct (cu_log c)"
proof -
  let ?step = "cluster_step (redisStore ex_store) demo_hash (\<lambda>_. []) (lapses fst)"
  let ?st = "([ex_key \<mapsto> ''x'', ex_account \<mapsto> ''x''], 0 :: gotime)"
  define c0 where "c0 = new_cluster (Map.empty, 0 :: gotime) ex_managers"
  obtain m where m: "Manager_Create (redisStore ex_store) demo_hash (Inr ''s'') (Inr ''t1'') ''acc'' ''c1'' 0 [] (ex_managers 0) = (Inr \<lparr>c_Record = ex_first, c_ResumeToken = ''t1''\<rparr>, m)"
    "m_store m = ?st" using ex_create by blast
  have m0: "(ex_managers 0)\<lparr>m_store := (Map.empty, 0)\<rparr> = ex_managers 0" by (simp add: ex_managers_def NewManager_def)
  define y1 where "y1 = (at_gateway 0 c0)\<lparr>y_m := m, y_log := y_log (at_gateway 0 c0) @ won (Inr \<lparr>c_Record = ex_first, c_ResumeToken = ''t1''\<rparr>), y_used := insert ''s'' (y_used (at_gateway 0 c0))\<rparr>"
  have "session_step (redisStore ex_store) demo_hash (\<lambda>_. []) (at_gateway 0 c0) y1" unfolding y1_def
    by (rule s_create [where tokr = "Inr ''t1''" and account = "''acc''" and conn = "''c1''" and now = 0 and players = "[]"])
      (use m m0 in \<open>simp_all add: c0_def at_gateway_def new_cluster_def session_id_def\<close>)
  then have s1: "?step c0 (from_gateway 0 c0 y1)" by (rule cu_call)
  define c1 where "c1 = from_gateway 0 c0 y1"
  have c1: "cu_store c1 = ?st" "cu_managers c1 1 = ex_managers 1" "cu_log c1 = [(''s'', 1)]" "cu_steps c1 = 0" "cu_read c1 = {}"
    using m by (simp_all add: c1_def y1_def from_gateway_def c0_def new_cluster_def at_gateway_def won_def ex_first_def ex_record_def)
  define y2 where "y2 = (at_gateway 1 c1)\<lparr>y_m := (y_m (at_gateway 1 c1))\<lparr>m_store := ?st\<rparr>, y_read := insert ex_first (y_read (at_gateway 1 c1))\<rparr>"
  have "session_step (redisStore ex_store) demo_hash (\<lambda>_. []) (at_gateway 1 c1) y2" unfolding y2_def
    by (rule s_read) (use ex_read c1 in \<open>simp add: at_gateway_def redisStore_def\<close>)
  then have s2: "?step c1 (from_gateway 1 c1 y2)" by (rule cu_call)
  define c2 where "c2 = from_gateway 1 c1 y2"
  have c2: "(cu_managers c2 1)\<lparr>m_store := cu_store c2\<rparr> = (ex_managers 1)\<lparr>m_store := ?st\<rparr>" "cu_log c2 = [(''s'', 1)]" "cu_steps c2 = 0" "cu_read c2 = {ex_first}"
    using c1 by (simp_all add: c2_def y2_def from_gateway_def at_gateway_def)
  obtain m2 where m2: "resume_found (redisStore ex_store) demo_hash (Inr ''t2'') ''s'' ''t1'' ''c2'' 0 ex_first ((ex_managers 1)\<lparr>m_store := ?st\<rparr>)
      = (Inr \<lparr>c_Record = ex_second, c_ResumeToken = ''t2''\<rparr>, m2)" using ex_resume by blast
  define y3 where "y3 = (at_gateway 1 c2)\<lparr>y_m := m2, y_log := y_log (at_gateway 1 c2) @ won (Inr \<lparr>c_Record = ex_second, c_ResumeToken = ''t2''\<rparr>), y_steps := Suc (y_steps (at_gateway 1 c2))\<rparr>"
  have "session_step (redisStore ex_store) demo_hash (\<lambda>_. []) (at_gateway 1 c2) y3" unfolding y3_def
    by (rule s_resume [where r = ex_first and tokr = "Inr ''t2''" and token = "''t1''" and conn = "''c2''" and now = 0])
      (use m2 c2 in \<open>simp_all add: at_gateway_def ex_distinct\<close>)
  then have s3: "?step c2 (from_gateway 1 c2 y3)" by (rule cu_call)
  define c3 where "c3 = from_gateway 1 c2 y3"
  have c3: "cu_log c3 = [(''s'', 1), (''s'', 2)]" "cu_steps c3 = 1"
    using c2 by (simp_all add: c3_def y3_def from_gateway_def at_gateway_def won_def ex_second_def ex_record_def)
  have run: "?step\<^sup>*\<^sup>* c0 c3" using s1 s2 s3 unfolding c1_def [symmetric] c2_def [symmetric] c3_def [symmetric] by auto
  have "distinct (cu_log c3)"
    using gateways_fenced [of ex_store fst "(Map.empty, 0)" demo_hash "\<lambda>_. []" ex_managers c3] run c3(2) memoryRedis_server tableStore_json
    by (simp add: ex_json(5) c0_def ex_store_def)
  then show ?thesis using run c3(1) unfolding c0_def by blast
qed

end
