(* ===== verification/Battle_Room.thy ===== *)
theory Battle_Room
  imports Go_Prelude
begin

text \<open>
  The battle domain of \<^verbatim>\<open>src/services/battle/domain\<close> (rooms, player states, deltas) and the composition of
  deltas in \<^verbatim>\<open>src/services/battle/components/room_manager.go\<close>.  A nil pointer is \<open>None\<close>; the order in
  which a map is ranged over is the argument \<open>it\<close>.  A \<^verbatim>\<open>float32\<close> is its IEEE-754 bit pattern, compared as
  Go's \<^verbatim>\<open>==\<close> does.
\<close>

unbundle bit_operations_syntax

section \<open>Players\<close>

type_synonym float32 = "32 word"

definition isNaN32 :: "float32 \<Rightarrow> bool" where
  "isNaN32 w \<longleftrightarrow> w AND 0x7F800000 = 0x7F800000 \<and> w AND 0x007FFFFF \<noteq> 0"

definition isZero32 :: "float32 \<Rightarrow> bool" where
  "isZero32 w \<longleftrightarrow> w AND 0x7FFFFFFF = 0"

definition eq32 :: "float32 \<Rightarrow> float32 \<Rightarrow> bool" where
  "eq32 a b \<longleftrightarrow> \<not> isNaN32 a \<and> \<not> isNaN32 b \<and> (a = b \<or> isZero32 a \<and> isZero32 b)"

record PlayerState =
  ps_PlayerID :: string
  ps_HP :: int
  ps_PositionX :: float32
  ps_PositionY :: float32

text \<open>\<^verbatim>\<open>==\<close> on the struct.\<close>

definition ps_eq :: "PlayerState \<Rightarrow> PlayerState \<Rightarrow> bool" where
  "ps_eq a b \<longleftrightarrow> ps_PlayerID a = ps_PlayerID b \<and> ps_HP a = ps_HP b
     \<and> eq32 (ps_PositionX a) (ps_PositionX b) \<and> eq32 (ps_PositionY a) (ps_PositionY b)"

definition PlayerState_Validate :: "PlayerState \<Rightarrow> go_error option" where
  "PlayerState_Validate s =
     (if ps_PlayerID s = '''' \<or> ps_HP s < 0 then Some (Sentinel ErrInvalidPlayerState) else None)"

section \<open>Rooms\<close>

type_synonym RoomStatus = string

definition RoomStatusCreated :: RoomStatus where "RoomStatusCreated = ''created''"
definition RoomStatusRunning :: RoomStatus where "RoomStatusRunning = ''running''"
definition RoomStatusFinished :: RoomStatus where "RoomStatusFinished = ''finished''"

type_synonym players = "string \<rightharpoonup> PlayerState"

record Room =
  rm_ID :: uint64
  rm_Tick :: uint64
  rm_StateVersion :: uint64
  rm_Status :: RoomStatus
  rm_Players :: players
  rm_UpdatedAt :: gotime

definition AddPlayer :: "PlayerState \<Rightarrow> Room option \<Rightarrow> Room result" where
  "AddPlayer player room =
     (case room of None \<Rightarrow> Inl (Sentinel ErrInvalidRoom) | Some r \<Rightarrow>
      (case PlayerState_Validate player of Some e \<Rightarrow> Inl e | None \<Rightarrow>
       if rm_Players r (ps_PlayerID player) \<noteq> None then Inl (Sentinel ErrDuplicatePlayer)
       else Inr (r\<lparr>rm_Players := (rm_Players r)(ps_PlayerID player \<mapsto> player)\<rparr>)))"

fun add_all :: "PlayerState list \<Rightarrow> Room \<Rightarrow> Room result" where
  "add_all [] r = Inr r"
| "add_all (p # ps) r = (case AddPlayer p (Some r) of Inl e \<Rightarrow> Inl e | Inr r' \<Rightarrow> add_all ps r')"

definition NewRoom :: "uint64 \<Rightarrow> PlayerState list \<Rightarrow> gotime \<Rightarrow> Room result" where
  "NewRoom roomID players now =
     (let room = \<lparr>rm_ID = roomID, rm_Tick = 0, rm_StateVersion = 1, rm_Status = RoomStatusCreated,
                  rm_Players = Map.empty, rm_UpdatedAt = now\<rparr>
      in if roomID = 0 \<or> IsZero (rm_UpdatedAt room) then Inl (Sentinel ErrInvalidRoom)
         else add_all players room)"

fun validate_players :: "players \<Rightarrow> string list \<Rightarrow> go_error option" where
  "validate_players m [] = None"
| "validate_players m (k # ks) =
     (case m k of
        None \<Rightarrow> validate_players m ks
      | Some p \<Rightarrow> (case PlayerState_Validate p of Some e \<Rightarrow> Some e | None \<Rightarrow> validate_players m ks))"

definition Room_Validate :: "(players \<Rightarrow> string list) \<Rightarrow> Room option \<Rightarrow> go_error option" where
  "Room_Validate it room =
     (case room of None \<Rightarrow> Some (Sentinel ErrInvalidRoom) | Some r \<Rightarrow>
      if rm_ID r = 0 \<or> rm_StateVersion r = 0 \<or> rm_Status r = '''' \<or> IsZero (rm_UpdatedAt r)
      then Some (Sentinel ErrInvalidRoom)
      else validate_players (rm_Players r) (it (rm_Players r)))"

definition UpdatePlayer :: "PlayerState \<Rightarrow> Room option \<Rightarrow> Room result" where
  "UpdatePlayer player room =
     (case room of None \<Rightarrow> Inl (Sentinel ErrInvalidRoom) | Some r \<Rightarrow>
      (case PlayerState_Validate player of Some e \<Rightarrow> Inl e | None \<Rightarrow>
       if rm_Players r (ps_PlayerID player) = None then Inl (Sentinel ErrPlayerNotInRoom)
       else Inr (r\<lparr>rm_Players := (rm_Players r)(ps_PlayerID player \<mapsto> player)\<rparr>)))"

definition AdvanceTick :: "(players \<Rightarrow> string list) \<Rightarrow> gotime \<Rightarrow> Room \<Rightarrow> Room result" where
  "AdvanceTick it now r =
     (case Room_Validate it (Some r) of
        Some e \<Rightarrow> Inl e
      | None \<Rightarrow> Inr (r\<lparr>rm_Tick := rm_Tick r + 1, rm_StateVersion := rm_StateVersion r + 1,
                      rm_Status := RoomStatusRunning, rm_UpdatedAt := now\<rparr>))"

text \<open>\<^verbatim>\<open>Clone\<close> copies the player map, so that the copy shares nothing with the original.\<close>

definition Clone :: "Room option \<Rightarrow> Room option" where
  "Clone room = (case room of None \<Rightarrow> None | Some r \<Rightarrow> Some (r\<lparr>rm_Players := rm_Players r\<rparr>))"

section \<open>Deltas\<close>

record RoomDelta =
  d_RoomID :: uint64
  d_FromStateVersion :: uint64
  d_ToStateVersion :: uint64
  d_Tick :: uint64
  d_Status :: RoomStatus
  d_UpsertPlayers :: "PlayerState list"
  d_RemovedPlayerIDs :: "string list"

definition zeroDelta :: RoomDelta where
  "zeroDelta = \<lparr>d_RoomID = 0, d_FromStateVersion = 0, d_ToStateVersion = 0, d_Tick = 0, d_Status = '''',
     d_UpsertPlayers = [], d_RemovedPlayerIDs = []\<rparr>"

text \<open>The two loops of \<^verbatim>\<open>recordDeltaLocked\<close>, over the keys of the current and of the previous players.\<close>

fun upserts :: "players \<Rightarrow> players \<Rightarrow> string list \<Rightarrow> PlayerState list" where
  "upserts previous current [] = []"
| "upserts previous current (k # ks) =
     (case current k of
        None \<Rightarrow> upserts previous current ks
      | Some player \<Rightarrow>
          if previous k = None \<or> \<not> ps_eq (the (previous k)) player
          then player # upserts previous current ks else upserts previous current ks)"

definition removals :: "players \<Rightarrow> string list \<Rightarrow> string list" where
  "removals current ks = filter (\<lambda>k. current k = None) ks"

definition make_delta :: "(players \<Rightarrow> string list) \<Rightarrow> Room \<Rightarrow> Room \<Rightarrow> RoomDelta" where
  "make_delta it previous current =
     \<lparr>d_RoomID = rm_ID current, d_FromStateVersion = rm_StateVersion previous,
      d_ToStateVersion = rm_StateVersion current, d_Tick = rm_Tick current,
      d_Status = rm_Status current,
      d_UpsertPlayers = upserts (rm_Players previous) (rm_Players current) (it (rm_Players current)),
      d_RemovedPlayerIDs = removals (rm_Players current) (it (rm_Players previous))\<rparr>"

section \<open>Composition of deltas\<close>

record compose_state =
  cs_players :: players
  cs_removed :: "string \<rightharpoonup> unit"
  cs_next :: uint64
  cs_Tick :: uint64
  cs_Status :: RoomStatus

fun apply_upserts :: "PlayerState list \<Rightarrow> compose_state \<Rightarrow> compose_state" where
  "apply_upserts [] s = s"
| "apply_upserts (p # ps) s =
     apply_upserts ps (s\<lparr>cs_players := (cs_players s)(ps_PlayerID p \<mapsto> p),
                         cs_removed := (cs_removed s)(ps_PlayerID p := None)\<rparr>)"

fun apply_removals :: "string list \<Rightarrow> compose_state \<Rightarrow> compose_state" where
  "apply_removals [] s = s"
| "apply_removals (k # ks) s =
     apply_removals ks (s\<lparr>cs_players := (cs_players s)(k := None),
                          cs_removed := (cs_removed s)(k \<mapsto> ())\<rparr>)"

definition fold_delta :: "RoomDelta \<Rightarrow> compose_state \<Rightarrow> compose_state" where
  "fold_delta delta s =
     (apply_removals (d_RemovedPlayerIDs delta) (apply_upserts (d_UpsertPlayers delta) s))
       \<lparr>cs_Tick := d_Tick delta, cs_Status := d_Status delta, cs_next := d_ToStateVersion delta\<rparr>"

fun compose_loop :: "uint64 \<Rightarrow> RoomDelta list \<Rightarrow> compose_state \<Rightarrow> compose_state" where
  "compose_loop toVersion [] s = s"
| "compose_loop toVersion (delta # ds) s =
     (if d_FromStateVersion delta \<noteq> cs_next s \<or> toVersion < d_ToStateVersion delta
      then compose_loop toVersion ds s
      else let s' = fold_delta delta s
           in if cs_next s' = toVersion then s' else compose_loop toVersion ds s')"

definition composeDeltas ::
    "(players \<Rightarrow> string list) \<Rightarrow> ((string \<rightharpoonup> unit) \<Rightarrow> string list) \<Rightarrow> uint64 \<Rightarrow> RoomDelta list \<Rightarrow>
     uint64 \<Rightarrow> uint64 \<Rightarrow> RoomDelta \<times> bool" where
  "composeDeltas itp itr roomID deltas fromVersion toVersion =
     (if toVersion \<le> fromVersion \<or> deltas = [] then (zeroDelta, False)
      else
        let s = compose_loop toVersion deltas
              \<lparr>cs_players = Map.empty, cs_removed = Map.empty, cs_next = fromVersion,
               cs_Tick = 0, cs_Status = ''''\<rparr>
        in if cs_next s \<noteq> toVersion then (zeroDelta, False)
           else (\<lparr>d_RoomID = roomID, d_FromStateVersion = fromVersion, d_ToStateVersion = toVersion,
                  d_Tick = cs_Tick s, d_Status = cs_Status s,
                  d_UpsertPlayers = List.map_filter (cs_players s) (itp (cs_players s)),
                  d_RemovedPlayerIDs = itr (cs_removed s)\<rparr>, True))"

section \<open>What a delta means to a client\<close>

text \<open>Equality of player states up to Go's \<^verbatim>\<open>==\<close>, and of player maps.\<close>

definition ps_equiv :: "PlayerState \<Rightarrow> PlayerState \<Rightarrow> bool" where
  "ps_equiv a b \<longleftrightarrow> a = b \<or> ps_eq a b"

definition players_equiv :: "players \<Rightarrow> players \<Rightarrow> bool" where
  "players_equiv m n \<longleftrightarrow> (\<forall>k. rel_option ps_equiv (m k) (n k))"

lemma eq32_trans: "eq32 a b \<Longrightarrow> eq32 b c \<Longrightarrow> eq32 a c"
  by (auto simp: eq32_def)

lemma ps_equiv_trans: "ps_equiv a b \<Longrightarrow> ps_equiv b c \<Longrightarrow> ps_equiv a c"
  by (auto simp: ps_equiv_def ps_eq_def intro: eq32_trans)

lemma ps_equiv_refl [simp]: "ps_equiv a a"
  by (simp add: ps_equiv_def)

lemma players_equiv_refl [simp]: "players_equiv m m"
  by (auto simp: players_equiv_def intro: option.rel_refl)

definition upd :: "PlayerState list \<Rightarrow> players" where
  "upd ps = map_of (rev (map (\<lambda>p. (ps_PlayerID p, p)) ps))"

text \<open>A client applies a delta by dropping the removed players and storing the upserted ones.\<close>

definition apply_delta :: "RoomDelta \<Rightarrow> players \<Rightarrow> players" where
  "apply_delta d c =
     (\<lambda>k. if k \<in> set (d_RemovedPlayerIDs d) then None else c k) ++ upd (d_UpsertPlayers d)"

definition keyed_players :: "players \<Rightarrow> bool" where
  "keyed_players m \<longleftrightarrow> finite (dom m) \<and> (\<forall>k p. m k = Some p \<longrightarrow> ps_PlayerID p = k)"

lemma keyed_players_empty [simp]: "keyed_players Map.empty"
  by (simp add: keyed_players_def)

lemma keyed_players_upd [simp]:
  "keyed_players m \<Longrightarrow> ps_PlayerID p = k \<Longrightarrow> keyed_players (m(k \<mapsto> p))"
  unfolding keyed_players_def fun_upd_apply dom_fun_upd by (auto split: if_splits)

lemma keyed_players_del [simp]: "keyed_players m \<Longrightarrow> keyed_players (m(k := None))"
  unfolding keyed_players_def fun_upd_apply dom_fun_upd by (auto split: if_splits)

lemma upd_Cons: "upd (p # ps) = (\<lambda>k. if k = ps_PlayerID p then Some p else None) ++ upd ps"
  by (rule ext) (auto simp: upd_def map_add_def split: option.splits)

lemma upd_cases:
  assumes "\<And>p. p \<in> set ps \<Longrightarrow> f (ps_PlayerID p) = Some p"
  shows "upd ps k = (if k \<in> ps_PlayerID ` set ps then f k else None)"
  using assms by (induction ps) (auto simp: upd_Cons upd_def map_add_def split: option.splits)

lemma apply_upserts_players:
  "cs_players (apply_upserts ps s) = cs_players s ++ upd ps"
  "cs_removed (apply_upserts ps s) k = (if k \<in> ps_PlayerID ` set ps then None else cs_removed s k)"
proof -
  show "cs_players (apply_upserts ps s) = cs_players s ++ upd ps"
  proof (induction ps arbitrary: s)
    case Nil
    then show ?case by (simp add: upd_def)
  next
    case (Cons p ps)
    show ?case
      by (rule ext) (auto simp: Cons upd_Cons map_add_def split: option.splits)
  qed
  show "cs_removed (apply_upserts ps s) k = (if k \<in> ps_PlayerID ` set ps then None else cs_removed s k)"
    by (induction ps arbitrary: s) auto
qed

lemma apply_removals_players:
  "cs_players (apply_removals ks s) k = (if k \<in> set ks then None else cs_players s k)"
  "cs_removed (apply_removals ks s) k = (if k \<in> set ks then Some () else cs_removed s k)"
  by (induction ks arbitrary: s) auto

definition changed :: "players \<Rightarrow> players \<Rightarrow> string \<Rightarrow> bool" where
  "changed previous current k \<longleftrightarrow> previous k = None \<or> \<not> ps_eq (the (previous k)) (the (current k))"

lemma upserts_set:
  "p \<in> set (upserts previous current ks) \<longleftrightarrow>
     (\<exists>k \<in> set ks. current k = Some p \<and> changed previous current k)"
  by (induction ks) (auto simp: changed_def split: option.splits if_splits)

lemma upd_upserts:
  assumes "keyed_players current" "set ks = dom current"
  shows "upd (upserts previous current ks) k =
    (if current k \<noteq> None \<and> changed previous current k then current k else None)"
proof -
  have id: "current (ps_PlayerID p) = Some p" if "p \<in> set (upserts previous current ks)" for p
    using that assms(1) by (auto simp: upserts_set keyed_players_def)
  have "k \<in> ps_PlayerID ` set (upserts previous current ks) \<longleftrightarrow>
      current k \<noteq> None \<and> changed previous current k"
    using assms by (force simp: upserts_set keyed_players_def image_iff)
  then show ?thesis using upd_cases [of "upserts previous current ks" current k] id by auto
qed

section \<open>Chains of deltas\<close>

text \<open>
  The deltas of a room record its history: delta \<open>i\<close> leads from state \<open>i\<close> to state \<open>i + 1\<close>, and each
  state has the next version.
\<close>

fun chain :: "(players \<Rightarrow> string list) \<Rightarrow> Room list \<Rightarrow> RoomDelta list \<Rightarrow> bool" where
  "chain it [r] [] = keyed_players (rm_Players r)"
| "chain it (r # r' # rs) (d # ds) =
     (keyed_players (rm_Players r) \<and> d = make_delta it r r'
      \<and> unat (rm_StateVersion r') = Suc (unat (rm_StateVersion r)) \<and> chain it (r' # rs) ds)"
| "chain it _ _ = False"

lemma chain_length: "chain it rs ds \<Longrightarrow> length rs = Suc (length ds)"
  by (induction it rs ds rule: chain.induct) auto

lemma chain_versions:
  "chain it rs ds \<Longrightarrow> j < length rs \<Longrightarrow>
     unat (rm_StateVersion (rs ! j)) = unat (rm_StateVersion (hd rs)) + j"
proof (induction it rs ds arbitrary: j rule: chain.induct)
  case (2 it r r' rs d ds)
  then show ?case by (cases j) auto
qed auto

text \<open>What the client of version \<open>from\<close> sees after the deltas folded so far.\<close>

definition overlay :: "compose_state \<Rightarrow> players \<Rightarrow> players" where
  "overlay s c = (\<lambda>k. if cs_players s k \<noteq> None then cs_players s k
     else if cs_removed s k \<noteq> None then None else c k)"

lemma overlay_fold_delta:
  assumes rng: "range_ok it" and k: "keyed_players (rm_Players r)" "keyed_players (rm_Players r')"
    and eq: "players_equiv (overlay s c) (rm_Players r)"
  shows "players_equiv (overlay (fold_delta (make_delta it r r') s) c) (rm_Players r')"
  unfolding players_equiv_def
proof
  fix x
  let ?p = "rm_Players r" and ?q = "rm_Players r'"
  have fin: "finite (dom ?p)" "finite (dom ?q)" using k by (auto simp: keyed_players_def)
  have its: "set (it ?p) = dom ?p" "set (it ?q) = dom ?q"
    using range_ok_iterates [OF rng] fin by (auto simp: iterates_def)
  have rem: "set (removals ?q (it ?p)) = dom ?p - dom ?q"
    using its by (auto simp: removals_def)
  have up: "upd (upserts ?p ?q (it ?q)) x =
      (if ?q x \<noteq> None \<and> changed ?p ?q x then ?q x else None)"
    by (rule upd_upserts [OF k(2) its(2)])
  have ids: "x \<in> ps_PlayerID ` set (upserts ?p ?q (it ?q)) \<longleftrightarrow> ?q x \<noteq> None \<and> changed ?p ?q x"
    using k(2) its by (force simp: upserts_set keyed_players_def image_iff)
  have ov: "overlay (fold_delta (make_delta it r r') s) c x =
      (if x \<in> dom ?p - dom ?q then None
       else if ?q x \<noteq> None \<and> changed ?p ?q x then ?q x else overlay s c x)"
    unfolding overlay_def fold_delta_def make_delta_def
    by (auto simp: apply_removals_players apply_upserts_players rem up ids map_add_def)
  have e: "rel_option ps_equiv (overlay s c x) (?p x)" using eq by (simp add: players_equiv_def)
  show "rel_option ps_equiv (overlay (fold_delta (make_delta it r r') s) c x) (?q x)"
  proof (cases "?q x")
    case None
    then show ?thesis using e unfolding ov by (cases "?p x") auto
  next
    case (Some q)
    show ?thesis
    proof (cases "changed ?p ?q x")
      case True
      then show ?thesis unfolding ov using Some by (auto intro: option.rel_refl)
    next
      case False
      then obtain p where p: "?p x = Some p" "ps_eq p q" using Some by (auto simp: changed_def)
      obtain o' where "overlay s c x = Some o'" "ps_equiv o' p"
        using e p(1) by (cases "overlay s c x") auto
      then show ?thesis
        unfolding ov using Some False p ps_equiv_trans [of o' p q] by (auto simp: ps_equiv_def)
    qed
  qed
qed

lemma fold_delta_fields [simp]:
  "cs_next (fold_delta d s) = d_ToStateVersion d"
  "cs_Tick (fold_delta d s) = d_Tick d"
  "cs_Status (fold_delta d s) = d_Status d"
  by (simp_all add: fold_delta_def)

lemma chain_keyed_hd: "chain it (r # rs) ds \<Longrightarrow> keyed_players (rm_Players r)"
  by (cases rs; cases ds) auto

lemma chain_version_inj:
  assumes "chain it rs ds" "i < length rs" "j < length rs"
    "rm_StateVersion (rs ! i) = rm_StateVersion (rs ! j)"
  shows "i = j"
  using chain_versions [OF assms(1,2)] chain_versions [OF assms(1,3)]
  unfolding assms(4) by linarith

lemma compose_from_head:
  assumes "range_ok it" "chain it rs ds" "0 < j" "j < length rs"
    and "cs_next s = rm_StateVersion (hd rs)" "players_equiv (overlay s c) (rm_Players (hd rs))"
  shows "let s' = compose_loop (rm_StateVersion (rs ! j)) ds s
    in cs_next s' = rm_StateVersion (rs ! j) \<and> cs_Tick s' = rm_Tick (rs ! j)
      \<and> cs_Status s' = rm_Status (rs ! j) \<and> players_equiv (overlay s' c) (rm_Players (rs ! j))"
  using assms
proof (induction it rs ds arbitrary: j s rule: chain.induct)
  case (2 it r r' rs d ds)
  let ?to = "rm_StateVersion ((r # r' # rs) ! j)"
  from "2.prems"(2) have ch: "chain it (r' # rs) ds" and d: "d = make_delta it r r'"
    and k: "keyed_players (rm_Players r)" "keyed_players (rm_Players r')"
    using chain_keyed_hd by auto
  have to: "unat ?to = unat (rm_StateVersion r) + j" "unat (rm_StateVersion r') = unat (rm_StateVersion r) + 1"
    using chain_versions [OF "2.prems"(2), of j] "2.prems"(2,4) by auto
  then have le: "\<not> ?to < rm_StateVersion r'" using "2.prems"(3) by (simp add: word_less_nat_alt)
  have d': "d_FromStateVersion d = cs_next s" "d_ToStateVersion d = rm_StateVersion r'"
    "d_Tick d = rm_Tick r'" "d_Status d = rm_Status r'"
    using "2.prems"(5) by (simp_all add: d make_delta_def)
  have ov: "players_equiv (overlay (fold_delta d s) c) (rm_Players r')"
    unfolding d by (rule overlay_fold_delta [OF "2.prems"(1) k]) (use "2.prems"(6) in simp)
  show ?case
  proof (cases "j = 1")
    case True
    then show ?thesis using le d' ov by (simp add: Let_def)
  next
    case False
    then obtain i where j: "j = Suc i" "0 < i" using "2.prems"(3) by (cases j) auto
    have neq: "rm_StateVersion r' \<noteq> ?to" using to False by auto
    have hd: "cs_next (fold_delta d s) = rm_StateVersion (hd (r' # rs))"
      "players_equiv (overlay (fold_delta d s) c) (rm_Players (hd (r' # rs)))"
      using d' ov by simp_all
    have "i < length (r' # rs)" using "2.prems"(4) j by simp
    from "2.IH" [OF "2.prems"(1) ch j(2) this hd] show ?thesis
      using le d' neq j by (simp add: Let_def)
  qed
qed auto

lemma compose_skip:
  assumes "range_ok it" "chain it rs ds" "i < j" "j < length rs"
    and "cs_next s = rm_StateVersion (rs ! i)" "players_equiv (overlay s c) (rm_Players (rs ! i))"
  shows "let s' = compose_loop (rm_StateVersion (rs ! j)) ds s
    in cs_next s' = rm_StateVersion (rs ! j) \<and> cs_Tick s' = rm_Tick (rs ! j)
      \<and> cs_Status s' = rm_Status (rs ! j) \<and> players_equiv (overlay s' c) (rm_Players (rs ! j))"
  using assms
proof (induction it rs ds arbitrary: i j rule: chain.induct)
  case (2 it r r' rs d ds)
  show ?case
  proof (cases i)
    case 0
    then show ?thesis
      using compose_from_head [OF "2.prems"(1,2) _ "2.prems"(4), of s c] "2.prems"(3,5,6) by simp
  next
    case (Suc i')
    then obtain j' where j: "j = Suc j'" "i' < j'" using "2.prems"(3) by (cases j) auto
    have "rm_StateVersion r \<noteq> cs_next s"
      using chain_version_inj [OF "2.prems"(2), of 0 i] "2.prems"(3,4,5) Suc by auto
    then have skip: "d_FromStateVersion d \<noteq> cs_next s"
      using "2.prems"(2) by (simp add: make_delta_def)
    have ch: "chain it (r' # rs) ds" using "2.prems"(2) by simp
    have "j' < length (r' # rs)" using "2.prems"(4) j by simp
    from "2.IH" [OF "2.prems"(1) ch j(2) this] show ?thesis
      using "2.prems"(5,6) skip Suc j by simp
  qed
qed auto

lemma upd_map_filter:
  assumes "\<And>k p. m k = Some p \<Longrightarrow> ps_PlayerID p = k" "set ks = dom m"
  shows "upd (List.map_filter m ks) = m"
proof
  fix k
  have mem: "p \<in> set (List.map_filter m ks) \<longleftrightarrow> (\<exists>k. m k = Some p)" for p
    using assms(2) by (force simp: List.map_filter_def image_iff)
  have id: "m (ps_PlayerID p) = Some p" if "p \<in> set (List.map_filter m ks)" for p
    using that assms(1) unfolding mem by metis
  have "m k = None" if "k \<notin> ps_PlayerID ` set (List.map_filter m ks)"
  proof (rule ccontr)
    assume "m k \<noteq> None"
    then obtain p where "m k = Some p" by blast
    then have "p \<in> set (List.map_filter m ks)" "ps_PlayerID p = k"
      using mem assms(1) by blast+
    then show False using that by blast
  qed
  then show "upd (List.map_filter m ks) k = m k"
    using upd_cases [of "List.map_filter m ks" m k, OF id] by auto
qed

text \<open>The composed state keeps its maps finite and keyed.\<close>

definition cs_ok :: "compose_state \<Rightarrow> bool" where
  "cs_ok s \<longleftrightarrow> keyed_players (cs_players s) \<and> finite (dom (cs_removed s))"

lemma cs_ok_upserts: "cs_ok s \<Longrightarrow> cs_ok (apply_upserts ps s)"
proof (induction ps arbitrary: s)
  case (Cons p ps)
  then have "cs_ok (s\<lparr>cs_players := (cs_players s)(ps_PlayerID p \<mapsto> p),
      cs_removed := (cs_removed s)(ps_PlayerID p := None)\<rparr>)"
    by (simp add: cs_ok_def)
  then show ?case using Cons.IH by simp
qed simp

lemma cs_ok_removals: "cs_ok s \<Longrightarrow> cs_ok (apply_removals ks s)"
proof (induction ks arbitrary: s)
  case (Cons k ks)
  then have "cs_ok (s\<lparr>cs_players := (cs_players s)(k := None), cs_removed := (cs_removed s)(k \<mapsto> ())\<rparr>)"
    by (simp add: cs_ok_def)
  then show ?case using Cons.IH by simp
qed simp

lemma cs_ok_loop: "cs_ok s \<Longrightarrow> cs_ok (compose_loop to ds s)"
proof (induction ds arbitrary: s)
  case (Cons d ds)
  have "cs_ok (fold_delta d s)"
    using cs_ok_removals [OF cs_ok_upserts [OF Cons.prems]] by (simp add: fold_delta_def cs_ok_def)
  then show ?case using Cons by (simp add: Let_def)
qed simp

lemma composeDeltas_chain:
  assumes rng: "range_ok it" "range_ok itr" and ch: "chain it rs ds" and ij: "i < j" "j < length rs"
  shows "\<exists>d. composeDeltas it itr roomID ds (rm_StateVersion (rs ! i)) (rm_StateVersion (rs ! j)) = (d, True)
    \<and> d_FromStateVersion d = rm_StateVersion (rs ! i) \<and> d_ToStateVersion d = rm_StateVersion (rs ! j)
    \<and> d_Tick d = rm_Tick (rs ! j) \<and> d_Status d = rm_Status (rs ! j)
    \<and> (\<forall>c. players_equiv c (rm_Players (rs ! i)) \<longrightarrow>
         players_equiv (apply_delta d c) (rm_Players (rs ! j)))"
proof -
  let ?from = "rm_StateVersion (rs ! i)" and ?to = "rm_StateVersion (rs ! j)"
  let ?s0 = "\<lparr>cs_players = Map.empty, cs_removed = Map.empty, cs_next = ?from, cs_Tick = 0, cs_Status = ''''\<rparr>"
  define s where "s = compose_loop ?to ds ?s0"
  have fin: "ds \<noteq> []" using chain_length [OF ch] ij by auto
  have lt: "\<not> ?to \<le> ?from"
    using chain_versions [OF ch, of i] chain_versions [OF ch, of j] ij by (simp add: word_le_nat_alt)
  have res: "cs_next s = ?to" "cs_Tick s = rm_Tick (rs ! j)" "cs_Status s = rm_Status (rs ! j)"
    "\<And>c. players_equiv c (rm_Players (rs ! i)) \<Longrightarrow> players_equiv (overlay s c) (rm_Players (rs ! j))"
    using compose_skip [OF rng(1) ch ij, of ?s0 "rm_Players (rs ! i)"]
      compose_skip [OF rng(1) ch ij, of ?s0]
    by (simp_all add: s_def Let_def overlay_def)
  have "cs_ok ?s0" by (simp add: cs_ok_def)
  then have ok: "cs_ok s" unfolding s_def by (rule cs_ok_loop)
  have its: "set (it (cs_players s)) = dom (cs_players s)" "set (itr (cs_removed s)) = dom (cs_removed s)"
    using range_ok_iterates [OF rng(1), of "cs_players s"] range_ok_iterates [OF rng(2), of "cs_removed s"] ok
    by (auto simp: iterates_def cs_ok_def keyed_players_def)
  have up: "upd (List.map_filter (cs_players s) (it (cs_players s))) = cs_players s"
    using ok unfolding cs_ok_def keyed_players_def by (intro upd_map_filter its(1)) blast
  define d where "d = \<lparr>d_RoomID = roomID, d_FromStateVersion = ?from, d_ToStateVersion = ?to,
    d_Tick = cs_Tick s, d_Status = cs_Status s,
    d_UpsertPlayers = List.map_filter (cs_players s) (it (cs_players s)),
    d_RemovedPlayerIDs = itr (cs_removed s)\<rparr>"
  have "apply_delta d c = overlay s c" for c
    by (rule ext) (auto simp: apply_delta_def d_def up its overlay_def map_add_def split: option.splits)
  moreover have "composeDeltas it itr roomID ds ?from ?to = (d, True)"
    unfolding composeDeltas_def using lt fin res(1) by (simp add: s_def [symmetric] d_def Let_def)
  ultimately show ?thesis using res by (intro exI [of _ d]) (simp add: d_def)
qed

end
