(* ===== verification/Battle_Manager.thy ===== *)
theory Battle_Manager
  imports Battle_Room
begin

text \<open>
  The room manager of \<^verbatim>\<open>src/services/battle/components/room_manager.go\<close>: the rooms in memory, the ring of
  their last deltas, and the snapshot repository, given by its operations \<open>R\<close> (\<open>None\<close> when it is nil) and
  the state they act on.  The manager's mutex makes \<open>RoomManager_Create\<close> and \<open>Mutate\<close> atomic;
  \<open>RestoreByPlayerID\<close> releases it while it asks the repository, so \<open>restore_install\<close>, what it does with
  the answer, is a step of its own.
\<close>

section \<open>State\<close>

record 'st RoomSnapshotRepository =
  rr_EnsureIndexes :: "'st \<Rightarrow> go_error option \<times> 'st"
  rr_Save :: "Room \<Rightarrow> 'st \<Rightarrow> go_error option \<times> 'st"
  rr_FindByPlayerID :: "string \<Rightarrow> 'st \<Rightarrow> Room result \<times> 'st"

record 'st RoomManager =
  mg_rooms :: "uint64 \<rightharpoonup> Room"
  mg_deltas :: "uint64 \<rightharpoonup> RoomDelta list"
  mg_deltaSize :: nat
  mg_snapshots :: 'st

definition NewRoomManager :: "'st \<Rightarrow> 'st RoomManager" where
  "NewRoomManager snapshots =
     \<lparr>mg_rooms = Map.empty, mg_deltas = Map.empty, mg_deltaSize = 1024, mg_snapshots = snapshots\<rparr>"

definition deltas_at :: "'st RoomManager \<Rightarrow> uint64 \<Rightarrow> RoomDelta list" where
  "deltas_at m i = (case mg_deltas m i of None \<Rightarrow> [] | Some ds \<Rightarrow> ds)"

definition notConfigured :: go_error where
  "notConfigured = NewError ''battle room snapshot repository is not configured''"

section \<open>Operations\<close>

definition RoomManager_EnsureIndexes ::
    "'st RoomSnapshotRepository option \<Rightarrow> 'st RoomManager \<Rightarrow> go_error option \<times> 'st RoomManager" where
  "RoomManager_EnsureIndexes R m =
     (case R of
        None \<Rightarrow> (Some notConfigured, m)
      | Some ops \<Rightarrow> (case rr_EnsureIndexes ops (mg_snapshots m) of (e, st) \<Rightarrow> (e, m\<lparr>mg_snapshots := st\<rparr>)))"

definition saveLocked ::
    "'st RoomSnapshotRepository option \<Rightarrow> Room \<Rightarrow> 'st RoomManager \<Rightarrow> go_error option \<times> 'st RoomManager" where
  "saveLocked R room m =
     (case R of
        None \<Rightarrow> (Some notConfigured, m)
      | Some ops \<Rightarrow> (case rr_Save ops (the (Clone (Some room))) (mg_snapshots m) of
          (e, st) \<Rightarrow> (e, m\<lparr>mg_snapshots := st\<rparr>)))"

definition RoomManager_Create ::
    "'st RoomSnapshotRepository option \<Rightarrow> (players \<Rightarrow> string list) \<Rightarrow> Room option \<Rightarrow> 'st RoomManager \<Rightarrow>
     go_error option \<times> 'st RoomManager" where
  "RoomManager_Create R it room m =
     (case room of None \<Rightarrow> (Some (Sentinel ErrInvalidRoom), m) | Some r \<Rightarrow>
      (case Room_Validate it room of Some e \<Rightarrow> (Some e, m) | None \<Rightarrow>
       if mg_rooms m (rm_ID r) \<noteq> None then (Some (Sentinel ErrDuplicateRoom), m)
       else (case saveLocked R r m of
          (Some e, m1) \<Rightarrow> (Some e, m1)
        | (None, m1) \<Rightarrow>
            (None, m1\<lparr>mg_rooms := (mg_rooms m1)(rm_ID r := Clone room),
                      mg_deltas := (mg_deltas m1)(rm_ID r \<mapsto> [])\<rparr>))))"

definition recordDeltaLocked ::
    "(players \<Rightarrow> string list) \<Rightarrow> Room \<Rightarrow> Room \<Rightarrow> 'st RoomManager \<Rightarrow> 'st RoomManager" where
  "recordDeltaLocked it previous current m =
     (let deltas = deltas_at m (rm_ID current) @ [make_delta it previous current];
          kept = (if mg_deltaSize m < length deltas
                  then drop (length deltas - mg_deltaSize m) deltas else deltas)
      in m\<lparr>mg_deltas := (mg_deltas m)(rm_ID current \<mapsto> kept)\<rparr>)"

text \<open>
  \<open>mutate\<close> is the caller's function, which updates the room in place and may fail after that; \<open>None\<close> is a
  nil function.  The room in the map is what the function left of it unless the code restores the copy.
\<close>

definition Mutate ::
    "'st RoomSnapshotRepository option \<Rightarrow> (players \<Rightarrow> string list) \<Rightarrow> gotime \<Rightarrow> uint64 \<Rightarrow>
     (Room \<Rightarrow> go_error option \<times> Room) option \<Rightarrow> 'st RoomManager \<Rightarrow> go_error option \<times> 'st RoomManager" where
  "Mutate R it now roomID mutate m =
     (if roomID = 0 \<or> mutate = None then (Some (Sentinel ErrInvalidRoom), m)
      else case mg_rooms m roomID of None \<Rightarrow> (Some (Sentinel ErrRoomNotFound), m) | Some room \<Rightarrow>
        let previous = the (Clone (Some room)) in
        (case the mutate room of
           (Some e, r1) \<Rightarrow> (Some e, m\<lparr>mg_rooms := (mg_rooms m)(roomID \<mapsto> r1)\<rparr>)
         | (None, r1) \<Rightarrow>
             (case AdvanceTick it now r1 of
                Inl e \<Rightarrow> (Some e, m\<lparr>mg_rooms := (mg_rooms m)(roomID \<mapsto> previous)\<rparr>)
              | Inr r2 \<Rightarrow>
                  (case saveLocked R r2 m of
                     (Some e, m1) \<Rightarrow> (Some e, m1\<lparr>mg_rooms := (mg_rooms m1)(roomID \<mapsto> previous)\<rparr>)
                   | (None, m1) \<Rightarrow>
                       (None, recordDeltaLocked it previous r2
                                (m1\<lparr>mg_rooms := (mg_rooms m1)(roomID \<mapsto> r2)\<rparr>))))))"

section \<open>Restoring a player's room\<close>

datatype RestoreMode = RestoreModeFull | RestoreModeDelta | RestoreModeNoop

record RestoreResult =
  res_Room :: Room
  res_Mode :: RestoreMode
  res_BaseStateVersion :: uint64
  res_Delta :: "RoomDelta option"

fun find_room :: "string \<Rightarrow> (uint64 \<rightharpoonup> Room) \<Rightarrow> uint64 list \<Rightarrow> Room option" where
  "find_room playerID rooms [] = None"
| "find_room playerID rooms (k # ks) =
     (case rooms k of
        None \<Rightarrow> find_room playerID rooms ks
      | Some room \<Rightarrow>
          if rm_Players room playerID \<noteq> None then Clone (Some room) else find_room playerID rooms ks)"

definition restore_install :: "Room \<Rightarrow> 'st RoomManager \<Rightarrow> 'st RoomManager" where
  "restore_install room m = m\<lparr>mg_rooms := (mg_rooms m)(rm_ID room := Clone (Some room))\<rparr>"

definition RestoreByPlayerID ::
    "'st RoomSnapshotRepository option \<Rightarrow> ((uint64 \<rightharpoonup> Room) \<Rightarrow> uint64 list) \<Rightarrow> string \<Rightarrow> 'st RoomManager \<Rightarrow>
     Room result \<times> 'st RoomManager" where
  "RestoreByPlayerID R itm playerID m =
     (if playerID = '''' then (Inl (Sentinel ErrPlayerNotInRoom), m)
      else case find_room playerID (mg_rooms m) (itm (mg_rooms m)) of
        Some clone \<Rightarrow> (Inr clone, m)
      | None \<Rightarrow>
          (case R of
             None \<Rightarrow> (Inl (Sentinel ErrRoomNotFound), m)
           | Some ops \<Rightarrow>
               (case rr_FindByPlayerID ops playerID (mg_snapshots m) of
                  (Inl e, st) \<Rightarrow> (Inl e, m\<lparr>mg_snapshots := st\<rparr>)
                | (Inr room, st) \<Rightarrow> (Inr room, restore_install room (m\<lparr>mg_snapshots := st\<rparr>)))))"

definition RestoreByPlayerIDSince ::
    "'st RoomSnapshotRepository option \<Rightarrow> ((uint64 \<rightharpoonup> Room) \<Rightarrow> uint64 list) \<Rightarrow> (players \<Rightarrow> string list) \<Rightarrow>
     ((string \<rightharpoonup> unit) \<Rightarrow> string list) \<Rightarrow> string \<Rightarrow> uint64 \<Rightarrow> bool \<Rightarrow> 'st RoomManager \<Rightarrow>
     RestoreResult result \<times> 'st RoomManager" where
  "RestoreByPlayerIDSince R itm itp itr playerID lastStateVersion allowIncremental m =
     (case RestoreByPlayerID R itm playerID m of
        (Inl e, m1) \<Rightarrow> (Inl e, m1)
      | (Inr room, m1) \<Rightarrow>
          let full = \<lparr>res_Room = room, res_Mode = RestoreModeFull, res_BaseStateVersion = 0, res_Delta = None\<rparr>
          in if lastStateVersion = rm_StateVersion room then
               (Inr \<lparr>res_Room = room, res_Mode = RestoreModeNoop,
                     res_BaseStateVersion = lastStateVersion, res_Delta = None\<rparr>, m1)
             else if allowIncremental \<and> lastStateVersion < rm_StateVersion room then
               (case composeDeltas itp itr (rm_ID room) (deltas_at m1 (rm_ID room)) lastStateVersion
                       (rm_StateVersion room) of
                  (delta, ok) \<Rightarrow>
                    (if ok then Inr \<lparr>res_Room = room, res_Mode = RestoreModeDelta,
                                     res_BaseStateVersion = lastStateVersion, res_Delta = Some delta\<rparr>
                     else Inr full, m1))
             else (Inr full, m1))"

lemma Clone_Some [simp]: "Clone (Some r) = Some r"
  by (simp add: Clone_def)

section \<open>The contract of a snapshot repository\<close>

text \<open>
  \<open>lookup\<close> is the last room saved under an id.  What is read back agrees with it except that the store may
  round the time stamp.
\<close>

definition same_room :: "Room \<Rightarrow> Room \<Rightarrow> bool" where
  "same_room a b \<longleftrightarrow> b = a\<lparr>rm_UpdatedAt := rm_UpdatedAt b\<rparr>"

locale room_repo =
  fixes R :: "'st RoomSnapshotRepository"
    and lookup :: "'st \<Rightarrow> uint64 \<Rightarrow> Room option"
    and invar :: "'st \<Rightarrow> bool"
  assumes save_ok: "invar s \<Longrightarrow> keyed_players (rm_Players r) \<Longrightarrow> rr_Save R r s = (None, s') \<Longrightarrow>
      invar s' \<and> rm_StateVersion r \<noteq> 0 \<and>
      (\<exists>r'. same_room r' r \<and> lookup s' = (lookup s)(rm_ID r \<mapsto> r'))"
    and save_err: "invar s \<Longrightarrow> rr_Save R r s = (Some e, s') \<Longrightarrow> invar s' \<and> lookup s' = lookup s"
    and find_keeps: "invar s \<Longrightarrow> rr_FindByPlayerID R p s = (res, s') \<Longrightarrow> invar s' \<and> lookup s' = lookup s"
    and find_ok: "invar s \<Longrightarrow> rr_FindByPlayerID R p s = (Inr r, s') \<Longrightarrow>
      rm_Players r p \<noteq> None \<and> keyed_players (rm_Players r) \<and>
      (\<exists>r0. lookup s (rm_ID r) = Some r0 \<and> same_room r0 r)"

section \<open>Histories\<close>

text \<open>
  \<open>mutator_ok\<close>: what \<open>Mutate\<close> needs of the function it is given.  It keeps the room's id and version and the
  keys of the player map, and a function that fails has changed nothing.
\<close>

definition mutator_ok :: "(Room \<Rightarrow> go_error option \<times> Room) \<Rightarrow> bool" where
  "mutator_ok f \<longleftrightarrow> (\<forall>r e r'. f r = (e, r') \<longrightarrow> keyed_players (rm_Players r) \<longrightarrow>
     rm_ID r' = rm_ID r \<and> rm_StateVersion r' = rm_StateVersion r \<and> keyed_players (rm_Players r')
     \<and> (e \<noteq> None \<longrightarrow> r' = r))"

text \<open>
  A run of the manager with, for each room in memory, the list of the states it committed since it was
  created or loaded.
\<close>

record 'st battle_sys =
  b_m :: "'st RoomManager"
  b_hist :: "uint64 \<Rightarrow> Room list"

inductive battle_step ::
    "'st RoomSnapshotRepository \<Rightarrow> (players \<Rightarrow> string list) \<Rightarrow> ((uint64 \<rightharpoonup> Room) \<Rightarrow> uint64 list) \<Rightarrow>
     'st battle_sys \<Rightarrow> 'st battle_sys \<Rightarrow> bool"
  for R :: "'st RoomSnapshotRepository" and it itm where
  b_create: "RoomManager_Create (Some R) it (Some r) (b_m b) = (None, m') \<Longrightarrow> keyed_players (rm_Players r) \<Longrightarrow>
     battle_step R it itm b (b\<lparr>b_m := m', b_hist := (b_hist b)(rm_ID r := [r])\<rparr>)"
| b_create_err: "RoomManager_Create (Some R) it room (b_m b) = (Some e, m') \<Longrightarrow>
     battle_step R it itm b (b\<lparr>b_m := m'\<rparr>)"
| b_mutate: "mutator_ok f \<Longrightarrow> Mutate (Some R) it now i (Some f) (b_m b) = (None, m') \<Longrightarrow>
     battle_step R it itm b (b\<lparr>b_m := m', b_hist := (b_hist b)(i := b_hist b i @ [the (mg_rooms m' i)])\<rparr>)"
| b_mutate_err: "mutator_ok f \<Longrightarrow> Mutate (Some R) it now i (Some f) (b_m b) = (Some e, m') \<Longrightarrow>
     battle_step R it itm b (b\<lparr>b_m := m'\<rparr>)"
| b_restore: "RestoreByPlayerID (Some R) itm p (b_m b) = (res, m') \<Longrightarrow>
     battle_step R it itm b (b\<lparr>b_m := m', b_hist := (\<lambda>i. if mg_rooms (b_m b) i = None
       then (case mg_rooms m' i of None \<Rightarrow> [] | Some r \<Rightarrow> [r]) else b_hist b i)\<rparr>)"

definition consecutive :: "Room list \<Rightarrow> bool" where
  "consecutive h \<longleftrightarrow> (\<forall>j < length h.
     unat (rm_StateVersion (h ! j)) = unat (rm_StateVersion (hd h)) + j)"

definition room_inv ::
    "(players \<Rightarrow> string list) \<Rightarrow> nat \<Rightarrow> uint64 \<Rightarrow> Room option \<Rightarrow> Room option \<Rightarrow> RoomDelta list \<Rightarrow> Room list \<Rightarrow> bool" where
  "room_inv it lim i saved room deltas h \<longleftrightarrow>
     (case room of
        None \<Rightarrow> deltas = []
      | Some r \<Rightarrow> rm_ID r = i \<and> h \<noteq> [] \<and> last h = r \<and> consecutive h \<and> length deltas = min (length h - 1) lim
          \<and> (\<exists>k < length h. chain it (drop k h) deltas) \<and> (\<exists>r0. saved = Some r0 \<and> same_room r0 r))"

definition battle_inv ::
    "('st \<Rightarrow> uint64 \<Rightarrow> Room option) \<Rightarrow> ('st \<Rightarrow> bool) \<Rightarrow> (players \<Rightarrow> string list) \<Rightarrow> 'st battle_sys \<Rightarrow> bool" where
  "battle_inv lookup invar it b \<longleftrightarrow> invar (mg_snapshots (b_m b)) \<and> 0 < mg_deltaSize (b_m b)
     \<and> finite (dom (mg_rooms (b_m b)))
     \<and> (\<forall>i. room_inv it (mg_deltaSize (b_m b)) i (lookup (mg_snapshots (b_m b)) i) (mg_rooms (b_m b) i)
              (deltas_at (b_m b) i) (b_hist b i))"

lemma chain_drop: "chain it rs ds \<Longrightarrow> k \<le> length ds \<Longrightarrow> chain it (drop k rs) (drop k ds)"
proof (induction k arbitrary: rs ds)
  case (Suc k)
  then obtain d ds' where ds: "ds = d # ds'" by (cases ds) auto
  with Suc.prems obtain r r' rs' where rs: "rs = r # r' # rs'"
    by (metis chain.simps(3,5,6) list.exhaust)
  then have "chain it (r' # rs') ds'" using Suc.prems(1) ds by simp
  then show ?case using Suc.IH Suc.prems(2) ds rs by simp
qed simp

lemma chain_snoc:
  "chain it rs ds \<Longrightarrow> keyed_players (rm_Players r') \<Longrightarrow>
   unat (rm_StateVersion r') = Suc (unat (rm_StateVersion (last rs))) \<Longrightarrow>
   chain it (rs @ [r']) (ds @ [make_delta it (last rs) r'])"
  by (induction it rs ds rule: chain.induct) auto

lemma chain_last_keyed: "chain it rs ds \<Longrightarrow> keyed_players (rm_Players (last rs))"
  by (induction it rs ds rule: chain.induct) auto

lemma consecutive_snoc:
  assumes "consecutive h" "h \<noteq> []" "unat (rm_StateVersion r') = Suc (unat (rm_StateVersion (last h)))"
  shows "consecutive (h @ [r'])"
proof -
  have "unat (rm_StateVersion (last h)) = unat (rm_StateVersion (hd h)) + (length h - 1)"
    using assms(1,2) by (simp add: consecutive_def last_conv_nth)
  then show ?thesis
    using assms by (auto simp: consecutive_def nth_append less_Suc_eq)
qed

lemma unat_plus_one: "(v :: uint64) + 1 \<noteq> 0 \<Longrightarrow> unat (v + 1) = Suc (unat v)"
  by (simp add: unatSuc add.commute)

lemma drop_snoc: "k < length h \<Longrightarrow> drop k h @ [r] = drop k (h @ [r])"
  by simp

section \<open>Inversion of the operations\<close>

lemma saveLocked_cases:
  "saveLocked (Some R) r m = (e, m1) \<Longrightarrow>
     \<exists>st. rr_Save R r (mg_snapshots m) = (e, st) \<and> m1 = m\<lparr>mg_snapshots := st\<rparr>"
  by (auto simp: saveLocked_def split: prod.splits)

lemma Create_ok:
  assumes "RoomManager_Create (Some R) it (Some r) m = (None, m')"
  obtains st where "mg_rooms m (rm_ID r) = None" "rr_Save R r (mg_snapshots m) = (None, st)"
    "m' = m\<lparr>mg_rooms := (mg_rooms m)(rm_ID r \<mapsto> r), mg_deltas := (mg_deltas m)(rm_ID r \<mapsto> []),
       mg_snapshots := st\<rparr>"
  using assms
  by (fastforce simp: RoomManager_Create_def saveLocked_def split: option.splits prod.splits if_splits)

lemma Create_err:
  assumes "RoomManager_Create (Some R) it room m = (Some e, m')"
  shows "m' = m \<or> (\<exists>r e' st. rr_Save R r (mg_snapshots m) = (Some e', st) \<and> m' = m\<lparr>mg_snapshots := st\<rparr>)"
  using assms
  by (fastforce simp: RoomManager_Create_def saveLocked_def split: option.splits prod.splits if_splits)

lemma Mutate_ok:
  assumes "Mutate (Some R) it now i (Some f) m = (None, m')"
  obtains r r1 r2 st where "mg_rooms m i = Some r" "f r = (None, r1)" "AdvanceTick it now r1 = Inr r2"
    "rr_Save R r2 (mg_snapshots m) = (None, st)"
    "m' = recordDeltaLocked it r r2 (m\<lparr>mg_snapshots := st, mg_rooms := (mg_rooms m)(i \<mapsto> r2)\<rparr>)"
  using assms
  by (auto simp: Mutate_def Let_def saveLocked_def split: if_splits option.splits sum.splits prod.splits)

lemma Mutate_err:
  assumes "Mutate (Some R) it now i (Some f) m = (Some e, m')"
    and "\<And>r e r1. mg_rooms m i = Some r \<Longrightarrow> f r = (Some e, r1) \<Longrightarrow> r1 = r"
  shows "m' = m \<or> (\<exists>r e' st. rr_Save R r (mg_snapshots m) = (Some e', st) \<and> m' = m\<lparr>mg_snapshots := st\<rparr>)"
proof (cases "mg_rooms m i")
  case None
  then show ?thesis using assms(1) by (auto simp: Mutate_def split: if_splits)
next
  case (Some r)
  then have upd: "(mg_rooms m)(i \<mapsto> r) = mg_rooms m" by auto
  obtain e1 r1 where f: "f r = (e1, r1)" by fastforce
  show ?thesis
  proof (cases e1)
    case (Some e2)
    have "r1 = r" using assms(2) [OF \<open>mg_rooms m i = Some r\<close>] f Some by blast
    then show ?thesis
      using assms(1) \<open>mg_rooms m i = Some r\<close> f Some upd
      by (auto simp: Mutate_def Let_def split: if_splits)
  next
    case None
    then show ?thesis
      using assms(1) \<open>mg_rooms m i = Some r\<close> f upd
      by (auto simp: Mutate_def Let_def saveLocked_def
          split: if_splits option.splits sum.splits prod.splits) metis
  qed
qed

lemma AdvanceTick_Inr:
  "AdvanceTick it now r = Inr r' \<Longrightarrow>
     r' = r\<lparr>rm_Tick := rm_Tick r + 1, rm_StateVersion := rm_StateVersion r + 1,
            rm_Status := RoomStatusRunning, rm_UpdatedAt := now\<rparr>"
  by (auto simp: AdvanceTick_def split: option.splits)

lemma find_room_none:
  "find_room p rooms ks = None \<Longrightarrow> k \<in> set ks \<Longrightarrow> rooms k = Some r \<Longrightarrow> rm_Players r p = None"
  by (induction ks) (auto split: option.splits if_splits)

lemma find_room_some:
  "find_room p rooms ks = Some r \<Longrightarrow> \<exists>k. rooms k = Some r \<and> rm_Players r p \<noteq> None"
  by (induction ks) (auto split: option.splits if_splits)

lemma deltas_at_frame [simp]:
  "deltas_at (m\<lparr>mg_snapshots := st\<rparr>) = deltas_at m"
  "deltas_at (m\<lparr>mg_rooms := rs\<rparr>) = deltas_at m"
  by (auto simp: deltas_at_def fun_eq_iff)

lemma same_room_refl [simp]: "same_room r r"
  by (simp add: same_room_def)

lemma same_room_players: "same_room a b \<Longrightarrow> rm_Players b = rm_Players a"
  unfolding same_room_def by (metis Room.select_convs(5) Room.surjective Room.update_convs(6))

section \<open>Every step keeps the history\<close>

context room_repo
begin

lemma snapshots_inv:
  assumes "battle_inv lookup invar it b" "invar st" "lookup st = lookup (mg_snapshots (b_m b))"
  shows "battle_inv lookup invar it (b\<lparr>b_m := (b_m b)\<lparr>mg_snapshots := st\<rparr>\<rparr>)"
  using assms by (simp add: battle_inv_def)

lemma step_err_inv:
  assumes "battle_inv lookup invar it b"
    and "m' = b_m b \<or> (\<exists>r e' st. rr_Save R r (mg_snapshots (b_m b)) = (Some e', st)
      \<and> m' = (b_m b)\<lparr>mg_snapshots := st\<rparr>)"
  shows "battle_inv lookup invar it (b\<lparr>b_m := m'\<rparr>)"
  using assms(2)
proof
  assume "\<exists>r e' st. rr_Save R r (mg_snapshots (b_m b)) = (Some e', st) \<and> m' = (b_m b)\<lparr>mg_snapshots := st\<rparr>"
  then obtain r e' st where s: "rr_Save R r (mg_snapshots (b_m b)) = (Some e', st)"
    and m': "m' = (b_m b)\<lparr>mg_snapshots := st\<rparr>" by blast
  have "invar (mg_snapshots (b_m b))" using assms(1) by (simp add: battle_inv_def)
  from save_err [OF this s] show ?thesis unfolding m' using snapshots_inv [OF assms(1)] by blast
qed (use assms(1) in simp)

lemma create_inv:
  assumes inv: "battle_inv lookup invar it b" and k: "keyed_players (rm_Players r)"
    and c: "RoomManager_Create (Some R) it (Some r) (b_m b) = (None, m')"
  shows "battle_inv lookup invar it (b\<lparr>b_m := m', b_hist := (b_hist b)(rm_ID r := [r])\<rparr>)"
proof -
  obtain st where st: "rr_Save R r (mg_snapshots (b_m b)) = (None, st)"
    and m': "m' = (b_m b)\<lparr>mg_rooms := (mg_rooms (b_m b))(rm_ID r \<mapsto> r),
       mg_deltas := (mg_deltas (b_m b))(rm_ID r \<mapsto> []), mg_snapshots := st\<rparr>"
    by (rule Create_ok [OF c])
  have i: "invar (mg_snapshots (b_m b))" using inv by (simp add: battle_inv_def)
  obtain r0 where sv: "invar st" "same_room r0 r"
    "lookup st = (lookup (mg_snapshots (b_m b)))(rm_ID r \<mapsto> r0)"
    using save_ok [OF i k st] by blast
  have "room_inv it (mg_deltaSize m') i (lookup st i) (mg_rooms m' i) (deltas_at m' i)
      (((b_hist b)(rm_ID r := [r])) i)" for i
  proof (cases "i = rm_ID r")
    case True
    then show ?thesis
      using sv k by (simp add: room_inv_def m' deltas_at_def consecutive_def)
  next
    case False
    then show ?thesis
      using sv inv by (simp add: m' battle_inv_def deltas_at_def)
  qed
  then show ?thesis using inv sv by (simp add: battle_inv_def m')
qed

lemma restore_inv:
  assumes inv: "battle_inv lookup invar it b" and rng: "range_ok itm"
    and c: "RestoreByPlayerID (Some R) itm p (b_m b) = (res, m')"
  shows "battle_inv lookup invar it (b\<lparr>b_m := m', b_hist := (\<lambda>i. if mg_rooms (b_m b) i = None
       then (case mg_rooms m' i of None \<Rightarrow> [] | Some r \<Rightarrow> [r]) else b_hist b i)\<rparr>)"
proof -
  let ?m = "b_m b"
  have i: "invar (mg_snapshots ?m)" using inv by (simp add: battle_inv_def)
  have ri: "room_inv it (mg_deltaSize ?m) j (lookup (mg_snapshots ?m) j) (mg_rooms ?m j) (deltas_at ?m j)
      (b_hist b j)" for j using inv by (simp add: battle_inv_def)
  show ?thesis
  proof (cases "m' = ?m \<or> (\<exists>st. m' = ?m\<lparr>mg_snapshots := st\<rparr> \<and> invar st \<and> lookup st = lookup (mg_snapshots ?m))")
    case True
    then have m': "mg_rooms m' = mg_rooms ?m" "deltas_at m' = deltas_at ?m" "mg_deltaSize m' = mg_deltaSize ?m"
      "invar (mg_snapshots m')" "lookup (mg_snapshots m') = lookup (mg_snapshots ?m)" using i by auto
    have "deltas_at ?m j = []" if "mg_rooms ?m j = None" for j
      using ri [of j] that by (simp add: room_inv_def)
    then show ?thesis
      using inv m' by (auto simp: battle_inv_def room_inv_def [of _ _ _ _ None])
  next
    case False
    obtain room st where nf: "find_room p (mg_rooms ?m) (itm (mg_rooms ?m)) = None"
      and f: "rr_FindByPlayerID R p (mg_snapshots ?m) = (Inr room, st)"
      and m': "m' = restore_install room (?m\<lparr>mg_snapshots := st\<rparr>)"
      using c False find_keeps [OF i]
      by (auto simp: RestoreByPlayerID_def split: if_splits option.splits prod.splits sum.splits)
    note fk = find_keeps [OF i f] and fo = find_ok [OF i f]
    obtain r0 where r0: "lookup (mg_snapshots ?m) (rm_ID room) = Some r0" "same_room r0 room"
      using fo by blast
    have set: "set (itm (mg_rooms ?m)) = dom (mg_rooms ?m)"
      using range_ok_iterates [OF rng, of "mg_rooms ?m"] inv by (simp add: battle_inv_def iterates_def)
    have none: "mg_rooms ?m (rm_ID room) = None"
    proof (rule ccontr)
      assume "mg_rooms ?m (rm_ID room) \<noteq> None"
      then obtain r where r: "mg_rooms ?m (rm_ID room) = Some r" by blast
      then have "rm_Players r p = None" using find_room_none [OF nf] set by blast
      moreover have "same_room r0 r" using ri [of "rm_ID room"] r r0(1) by (auto simp: room_inv_def)
      ultimately show False using same_room_players r0(2) fo by metis
    qed
    have "room_inv it (mg_deltaSize ?m) j (lookup st j) (mg_rooms m' j) (deltas_at m' j)
       (if mg_rooms ?m j = None then (case mg_rooms m' j of None \<Rightarrow> [] | Some r \<Rightarrow> [r]) else b_hist b j)" for j
    proof (cases "j = rm_ID room")
      case True
      then show ?thesis
        using ri [of j] none fk fo r0
        by (auto simp: room_inv_def m' restore_install_def consecutive_def)
    next
      case False
      then show ?thesis
        using ri [of j] fk by (cases "mg_rooms ?m j") (auto simp: room_inv_def m' restore_install_def)
    qed
    then show ?thesis using inv fk by (simp add: battle_inv_def m' restore_install_def)
  qed
qed

end

context room_repo
begin

lemma mutate_inv:
  assumes inv: "battle_inv lookup invar it b" and ok: "mutator_ok f"
    and c: "Mutate (Some R) it now i (Some f) (b_m b) = (None, m')"
  shows "battle_inv lookup invar it
    (b\<lparr>b_m := m', b_hist := (b_hist b)(i := b_hist b i @ [the (mg_rooms m' i)])\<rparr>)"
proof -
  let ?m = "b_m b" and ?n = "mg_deltaSize (b_m b)"
  obtain r r1 r2 st where r: "mg_rooms ?m i = Some r" and f: "f r = (None, r1)"
    and adv: "AdvanceTick it now r1 = Inr r2" and sv: "rr_Save R r2 (mg_snapshots ?m) = (None, st)"
    and m': "m' = recordDeltaLocked it r r2 (?m\<lparr>mg_snapshots := st, mg_rooms := (mg_rooms ?m)(i \<mapsto> r2)\<rparr>)"
    by (rule Mutate_ok [OF c])
  have ri: "room_inv it ?n j (lookup (mg_snapshots ?m) j) (mg_rooms ?m j) (deltas_at ?m j) (b_hist b j)" for j
    using inv by (simp add: battle_inv_def)
  obtain k where h: "rm_ID r = i" "b_hist b i \<noteq> []" "last (b_hist b i) = r" "consecutive (b_hist b i)"
    and len: "length (deltas_at ?m i) = min (length (b_hist b i) - 1) ?n"
    and k: "k < length (b_hist b i)" and ch: "chain it (drop k (b_hist b i)) (deltas_at ?m i)"
    using ri [of i] r by (auto simp: room_inv_def)
  have lst: "last (drop k (b_hist b i)) = r" using k h(3) by simp
  have "keyed_players (rm_Players r)" using chain_last_keyed [OF ch] lst by simp
  then have r1: "rm_ID r1 = i" "rm_StateVersion r1 = rm_StateVersion r" "keyed_players (rm_Players r1)"
    using ok f h(1) unfolding mutator_ok_def by blast+
  have r2: "rm_ID r2 = i" "rm_StateVersion r2 = rm_StateVersion r + 1" "keyed_players (rm_Players r2)"
    using AdvanceTick_Inr [OF adv] r1 by simp_all
  have "invar (mg_snapshots ?m)" using inv by (simp add: battle_inv_def)
  from save_ok [OF this r2(3) sv] obtain r0 where sv': "invar st" "rm_StateVersion r2 \<noteq> 0"
    "same_room r0 r2" "lookup st = (lookup (mg_snapshots ?m))(rm_ID r2 \<mapsto> r0)" by blast
  then have ver: "unat (rm_StateVersion r2) = Suc (unat (rm_StateVersion r))"
    using r2(2) unat_plus_one by metis
  define ds where "ds = deltas_at ?m i @ [make_delta it r r2]"
  define kept where "kept = (if ?n < length ds then drop (length ds - ?n) ds else ds)"
  have ch2: "chain it (drop k (b_hist b i @ [r2])) ds"
    using chain_snoc [OF ch r2(3)] ver lst k by (simp add: ds_def)
  have kept: "\<exists>k' < length (b_hist b i @ [r2]). chain it (drop k' (b_hist b i @ [r2])) kept"
    "length kept = min (length (b_hist b i)) ?n"
  proof -
    have pos: "0 < ?n" using inv by (simp add: battle_inv_def)
    define cut where "cut = (if ?n < length ds then length ds - ?n else 0)"
    define h2 where "h2 = b_hist b i @ [r2]"
    have cut: "kept = drop cut ds" "cut \<le> length ds" by (auto simp: kept_def cut_def)
    from chain_drop [OF ch2 cut(2)] have "chain it (drop (cut + k) (b_hist b i @ [r2])) kept"
      unfolding cut(1) h2_def [symmetric] by (simp only: drop_drop)
    moreover have "cut + k < length (b_hist b i @ [r2])"
      using chain_length [OF ch2] k pos unfolding h2_def [symmetric] length_drop
      by (auto simp: cut_def h2_def)
    ultimately show "\<exists>k' < length (b_hist b i @ [r2]). chain it (drop k' (b_hist b i @ [r2])) kept" by blast
    show "length kept = min (length (b_hist b i)) ?n"
      using len h(2) by (cases "b_hist b i") (auto simp: kept_def ds_def min_def)
  qed
  have m2: "mg_rooms m' = (mg_rooms ?m)(i \<mapsto> r2)" "mg_snapshots m' = st" "mg_deltaSize m' = ?n"
    "deltas_at m' j = (if j = i then kept else deltas_at ?m j)" for j
    using r2(1) by (auto simp: m' recordDeltaLocked_def Let_def deltas_at_def ds_def kept_def)
  have "room_inv it ?n j (lookup st j) (mg_rooms m' j) (deltas_at m' j)
      (((b_hist b)(i := b_hist b i @ [the (mg_rooms m' i)])) j)" for j
  proof (cases "j = i")
    case True
    then show ?thesis
      using r2 sv' kept consecutive_snoc [OF h(4,2)] ver h(3) by (simp add: room_inv_def m2)
  next
    case False
    then show ?thesis using ri [of j] sv' r2(1) by (simp add: m2)
  qed
  then show ?thesis using inv sv' by (simp add: battle_inv_def m2)
qed

lemma mutate_err_inv:
  assumes inv: "battle_inv lookup invar it b" and ok: "mutator_ok f"
    and c: "Mutate (Some R) it now i (Some f) (b_m b) = (Some e, m')"
  shows "battle_inv lookup invar it (b\<lparr>b_m := m'\<rparr>)"
proof (rule step_err_inv [OF inv], rule Mutate_err [OF c])
  fix r e r1
  assume r: "mg_rooms (b_m b) i = Some r" and f: "f r = (Some e, r1)"
  have "room_inv it (mg_deltaSize (b_m b)) i (lookup (mg_snapshots (b_m b)) i) (Some r)
      (deltas_at (b_m b) i) (b_hist b i)"
    using inv r unfolding battle_inv_def by metis
  then obtain k where "chain it (drop k (b_hist b i)) (deltas_at (b_m b) i)" "k < length (b_hist b i)"
    "last (b_hist b i) = r" by (auto simp: room_inv_def)
  then have "keyed_players (rm_Players r)" using chain_last_keyed by fastforce
  then show "r1 = r" using ok f unfolding mutator_ok_def by blast
qed

lemma battle_step_inv:
  assumes "battle_step R it itm b b'" "battle_inv lookup invar it b" "range_ok itm"
  shows "battle_inv lookup invar it b'"
  using assms(1)
proof cases
  case (b_create r m')
  then show ?thesis using create_inv [OF assms(2)] by simp
next
  case (b_create_err room e m')
  then show ?thesis using step_err_inv [OF assms(2) Create_err] by simp
next
  case (b_mutate f now i m')
  then show ?thesis using mutate_inv [OF assms(2)] by simp
next
  case (b_mutate_err f now i e m')
  then show ?thesis using mutate_err_inv [OF assms(2)] by simp
next
  case (b_restore p res m')
  then show ?thesis using restore_inv [OF assms(2,3)] by simp
qed

lemma battle_run_inv:
  assumes "(battle_step R it itm)\<^sup>*\<^sup>* b b'" "battle_inv lookup invar it b" "range_ok itm"
  shows "battle_inv lookup invar it b'"
  using assms by (induction rule: rtranclp_induct) (auto intro: battle_step_inv)

end

section \<open>Restoring since a version\<close>

lemma compose_unmatched:
  "(\<And>d. d \<in> set ds \<Longrightarrow> d_FromStateVersion d \<noteq> cs_next s) \<Longrightarrow> compose_loop to ds s = s"
  by (induction ds) auto

lemma chain_from_versions:
  "chain it rs ds \<Longrightarrow> d \<in> set ds \<Longrightarrow> \<exists>m < length rs. d_FromStateVersion d = rm_StateVersion (rs ! m)"
proof (induction it rs ds rule: chain.induct)
  case (2 it r r' rs d' ds)
  show ?case
  proof (cases "d = d'")
    case True
    then show ?thesis using 2 by (intro exI [of _ 0]) (simp add: make_delta_def)
  next
    case False
    then obtain m where "m < length (r' # rs)" "d_FromStateVersion d = rm_StateVersion ((r' # rs) ! m)"
      using 2 by auto
    then show ?thesis by (intro exI [of _ "Suc m"]) simp
  qed
qed auto

lemma restore_since_cases:
  assumes "RestoreByPlayerIDSince R itm it itr p v incr m = (Inr res, m')"
  obtains (noop) "RestoreByPlayerID R itm p m = (Inr (res_Room res), m')" "res_Mode res = RestoreModeNoop"
      "v = rm_StateVersion (res_Room res)"
  | (delta) d where "RestoreByPlayerID R itm p m = (Inr (res_Room res), m')" "res_Mode res = RestoreModeDelta"
      "v \<noteq> rm_StateVersion (res_Room res)" "incr" "res_Delta res = Some d"
      "composeDeltas it itr (rm_ID (res_Room res)) (deltas_at m' (rm_ID (res_Room res))) v
         (rm_StateVersion (res_Room res)) = (d, True)"
  | (full) "RestoreByPlayerID R itm p m = (Inr (res_Room res), m')" "res_Mode res = RestoreModeFull"
      "v \<noteq> rm_StateVersion (res_Room res)"
      "incr \<Longrightarrow> v < rm_StateVersion (res_Room res) \<Longrightarrow>
         \<not> snd (composeDeltas it itr (rm_ID (res_Room res)) (deltas_at m' (rm_ID (res_Room res))) v
           (rm_StateVersion (res_Room res)))"
proof -
  obtain room where r: "RestoreByPlayerID R itm p m = (Inr room, m')"
    using assms by (auto simp: RestoreByPlayerIDSince_def Let_def split: prod.splits sum.splits if_splits)
  obtain d ok where c: "composeDeltas it itr (rm_ID room) (deltas_at m' (rm_ID room)) v (rm_StateVersion room) = (d, ok)"
    by fastforce
  note eq = assms [unfolded RestoreByPlayerIDSince_def r prod.case sum.case Let_def c]
  have room: "res_Room res = room" using eq by (auto split: if_splits)
  consider "v = rm_StateVersion room" | "v \<noteq> rm_StateVersion room" "incr" "v < rm_StateVersion room" "ok"
    | "v \<noteq> rm_StateVersion room" "incr \<Longrightarrow> v < rm_StateVersion room \<Longrightarrow> \<not> ok"
    by blast
  then show thesis
  proof cases
    case 1
    then show thesis using noop eq r room by auto
  next
    case 2
    then show thesis using delta [of d] eq r room c by auto
  next
    case 3
    have "res_Mode res = RestoreModeFull" using eq 3 by (auto split: if_splits)
    then show thesis using full r room c 3 by auto
  qed
qed

context room_repo
begin

lemma restored_in_memory:
  assumes inv: "battle_inv lookup invar it b"
    and res: "RestoreByPlayerID (Some R) itm p (b_m b) = (Inr room, m')"
  shows "mg_rooms m' (rm_ID room) = Some room \<and> rm_Players room p \<noteq> None"
proof (cases "find_room p (mg_rooms (b_m b)) (itm (mg_rooms (b_m b)))")
  case (Some clone)
  then have eq: "clone = room" "m' = b_m b"
    using res by (auto simp: RestoreByPlayerID_def split: if_splits)
  from find_room_some [OF Some] obtain k where k: "mg_rooms (b_m b) k = Some room" "rm_Players room p \<noteq> None"
    unfolding eq by blast
  have "room_inv it (mg_deltaSize (b_m b)) k (lookup (mg_snapshots (b_m b)) k) (Some room)
      (deltas_at (b_m b) k) (b_hist b k)"
    using inv k(1) unfolding battle_inv_def by metis
  then have "rm_ID room = k" by (simp add: room_inv_def)
  then show ?thesis using k eq by simp
next
  case None
  have i: "invar (mg_snapshots (b_m b))" using inv by (simp add: battle_inv_def)
  obtain st where "rr_FindByPlayerID R p (mg_snapshots (b_m b)) = (Inr room, st)"
    "m' = restore_install room ((b_m b)\<lparr>mg_snapshots := st\<rparr>)"
    using res None by (auto simp: RestoreByPlayerID_def split: if_splits prod.splits sum.splits)
  then show ?thesis using find_ok [OF i] by (auto simp: restore_install_def)
qed

lemma restore_since_correct:
  assumes inv: "battle_inv lookup invar it b" and rng: "range_ok it" "range_ok itr" "range_ok itm"
    and res: "RestoreByPlayerIDSince (Some R) itm it itr p v incr (b_m b) = (Inr res, m')"
    and step: "battle_inv lookup invar it b'" "b_m b' = m'"
    and h: "h = b_hist b' (rm_ID (res_Room res))" "j < length h" "rm_StateVersion (h ! j) = v"
  shows "rm_Players (res_Room res) p \<noteq> None \<and> last h = res_Room res \<and>
    (if j = length h - 1 then res_Mode res = RestoreModeNoop
     else if incr \<and> length h - 1 - j \<le> mg_deltaSize m' then
       res_Mode res = RestoreModeDelta \<and> (\<exists>d. res_Delta res = Some d
         \<and> d_FromStateVersion d = v \<and> d_ToStateVersion d = rm_StateVersion (res_Room res)
         \<and> d_Tick d = rm_Tick (res_Room res) \<and> d_Status d = rm_Status (res_Room res)
         \<and> (\<forall>c. players_equiv c (rm_Players (h ! j)) \<longrightarrow>
              players_equiv (apply_delta d c) (rm_Players (res_Room res))))
     else res_Mode res = RestoreModeFull)"
proof -
  let ?room = "res_Room res" and ?i = "rm_ID (res_Room res)"
  define ds where "ds = deltas_at m' ?i"
  have r: "RestoreByPlayerID (Some R) itm p (b_m b) = (Inr ?room, m')"
    using res by (cases rule: restore_since_cases)
  note mem = restored_in_memory [OF inv r]
  have "room_inv it (mg_deltaSize m') ?i (lookup (mg_snapshots m') ?i) (Some ?room) ds h"
    using step mem unfolding battle_inv_def h(1) ds_def by metis
  then obtain k where hs: "last h = ?room" "consecutive h" "length ds = min (length h - 1) (mg_deltaSize m')"
    and k: "k < length h" "chain it (drop k h) ds" by (auto simp: room_inv_def)
  have len: "length h = k + Suc (length ds)" using chain_length [OF k(2)] k(1) by simp
  define n where "n = length h - 1"
  have "h \<noteq> []" using h(2) by auto
  then have n: "h ! n = ?room" "n < length h" using hs(1) by (auto simp: n_def last_conv_nth)
  have ver: "unat (rm_StateVersion (h ! x)) = unat (rm_StateVersion (hd h)) + x" if "x < length h" for x
    using hs(2) that by (simp add: consecutive_def)
  have inj: "rm_StateVersion (h ! x) = rm_StateVersion (h ! y) \<longleftrightarrow> x = y" if "x < length h" "y < length h" for x y
    using ver [OF that(1)] ver [OF that(2)] by (metis add_left_cancel)
  have eqv: "v = rm_StateVersion ?room \<longleftrightarrow> j = n" using inj [OF h(2) n(2)] h(3) n(1) by simp
  have lt: "v < rm_StateVersion ?room" if "j \<noteq> n"
    using ver [OF h(2)] ver [OF n(2)] h(2,3) n that by (auto simp: word_less_nat_alt n_def)
  have good: "\<exists>d. composeDeltas it itr ?i ds v (rm_StateVersion ?room) = (d, True)
      \<and> d_FromStateVersion d = v \<and> d_ToStateVersion d = rm_StateVersion ?room
      \<and> d_Tick d = rm_Tick ?room \<and> d_Status d = rm_Status ?room
      \<and> (\<forall>c. players_equiv c (rm_Players (h ! j)) \<longrightarrow> players_equiv (apply_delta d c) (rm_Players ?room))"
    if "j \<noteq> n" "k \<le> j"
  proof -
    have "j - k < n - k" "n - k < length (drop k h)" using that h(2) n len by (auto simp: n_def)
    from composeDeltas_chain [OF rng(1,2) k(2) this, of ?i] show ?thesis
      using that h n len by (simp add: n_def)
  qed
  have bad: "\<not> snd (composeDeltas it itr ?i ds v (rm_StateVersion ?room))" if "j < k"
  proof -
    have "d_FromStateVersion d \<noteq> v" if d: "d \<in> set ds" for d
    proof -
      obtain m where "m < length (drop k h)" "d_FromStateVersion d = rm_StateVersion (drop k h ! m)"
        using chain_from_versions [OF k(2) d] by blast
      then show ?thesis using inj [of "k + m" j] h(2,3) \<open>j < k\<close> by (auto simp: add.commute)
    qed
    then have "compose_loop (rm_StateVersion ?room) ds
        \<lparr>cs_players = Map.empty, cs_removed = Map.empty, cs_next = v, cs_Tick = 0, cs_Status = ''''\<rparr> =
        \<lparr>cs_players = Map.empty, cs_removed = Map.empty, cs_next = v, cs_Tick = 0, cs_Status = ''''\<rparr>"
      by (intro compose_unmatched) simp
    moreover have "v \<noteq> rm_StateVersion ?room" using eqv that len h(2) by (auto simp: n_def)
    ultimately show ?thesis by (simp add: composeDeltas_def Let_def)
  qed
  have kj: "k \<le> j \<longleftrightarrow> length h - 1 - j \<le> mg_deltaSize m'" if "j \<noteq> n"
    using len hs(3) h(2) that by (auto simp: n_def min_def split: if_splits)
  from res show ?thesis
  proof (cases rule: restore_since_cases)
    case noop
    then show ?thesis using mem hs(1) eqv by (simp add: n_def)
  next
    case (delta d)
    have "j \<noteq> n" using delta(3) eqv by simp
    moreover from this have "k \<le> j" using bad delta(6) by (fastforce simp: ds_def not_less)
    ultimately show ?thesis
      using good kj delta mem hs(1) by (auto simp: n_def ds_def)
  next
    case full
    have "j \<noteq> n" using full(3) eqv by simp
    moreover have "\<not> (incr \<and> k \<le> j)" using full(4) lt good \<open>j \<noteq> n\<close> by (fastforce simp: ds_def)
    ultimately show ?thesis using kj full mem hs(1) by (auto simp: n_def)
  qed
qed

end

end
