(* ===== verification/Mongo.thy ===== *)
theory Mongo
  imports Go_Prelude
begin

text \<open>
  The MongoDB driver as the repositories see it.  A collection is a record of the operations the code
  calls, acting on a state \<open>w\<close> of the outside world; filters are predicates on documents and updates are
  functions on them, \<open>None\<close> where the server refuses the update (an \<^verbatim>\<open>$inc\<close> that overflows).  The driver is not
  part of the repository: the predicates \<open>inserts\<close>, \<open>finds\<close>, \<open>replaces\<close>, \<open>modifies\<close>, \<open>deletes\<close> and \<open>transacts\<close>
  state what its documentation promises, in terms of a view of the world as the contents of a database, and
  are hypotheses wherever they are used.  A single write that is reported as failed has not been
  applied: the case where the connection is lost after the write is left out.  \<open>MongoUnitOfWork_Execute\<close>
  models \<^verbatim>\<open>src/common/mongodb/transaction.go\<close>.
\<close>

section \<open>Collections\<close>

record ('d, 'w) Collection =
  cl_CreateMany :: "'w \<Rightarrow> go_error option \<times> 'w"
  cl_InsertOne :: "'d \<Rightarrow> 'w \<Rightarrow> go_error option \<times> 'w"
  cl_FindOne :: "('d \<Rightarrow> bool) \<Rightarrow> ('d \<Rightarrow> 'd \<Rightarrow> bool) option \<Rightarrow> 'w \<Rightarrow> 'd result \<times> 'w"
  cl_ReplaceOne :: "('d \<Rightarrow> bool) \<Rightarrow> 'd \<Rightarrow> bool \<Rightarrow> 'w \<Rightarrow> go_error option \<times> 'w"
  cl_FindOneAndUpdate :: "('d \<Rightarrow> bool) \<Rightarrow> ('d \<Rightarrow> 'd option) \<Rightarrow> 'w \<Rightarrow> 'd result \<times> 'w"
  cl_UpdateOne :: "('d \<Rightarrow> bool) \<Rightarrow> ('d \<Rightarrow> 'd option) \<Rightarrow> 'w \<Rightarrow> nat result \<times> 'w"
  cl_DeleteOne :: "('d \<Rightarrow> bool) \<Rightarrow> 'w \<Rightarrow> nat result \<times> 'w"
  cl_DeleteMany :: "('d \<Rightarrow> bool) \<Rightarrow> 'w \<Rightarrow> nat result \<times> 'w"

text \<open>A BSON date keeps milliseconds.\<close>

definition bsonTime :: "gotime \<Rightarrow> gotime" where
  "bsonTime t = t div Millisecond * Millisecond"

lemma bsonTime_idem [simp]: "bsonTime (bsonTime t) = bsonTime t"
  by (simp add: bsonTime_def)

text \<open>\<^verbatim>\<open>mongo.IsDuplicateKeyError\<close>.\<close>

definition IsDuplicateKeyError :: "go_error \<Rightarrow> bool" where
  "IsDuplicateKeyError e = errors_is e ErrDuplicateKey"

section \<open>Errors of the driver\<close>

text \<open>The sentinels that errors of the driver itself can wrap.\<close>

definition driver_sentinel :: "sentinel \<Rightarrow> bool" where
  "driver_sentinel s \<longleftrightarrow>
     s \<in> {ErrNoDocuments, ErrDuplicateKey, ContextCanceled, ContextDeadlineExceeded}"

definition foreign :: "go_error \<Rightarrow> bool" where
  "foreign e \<longleftrightarrow> (\<forall>s. \<not> driver_sentinel s \<longrightarrow> \<not> errors_is e s)"

lemma foreign_simps [simp]:
  "foreign (NewError m)" "foreign (Wrapf m e) = foreign e" "foreign (Sentinel s) = driver_sentinel s"
  by (auto simp: foreign_def)

lemma foreignD: "foreign e \<Longrightarrow> errors_is e s \<Longrightarrow> driver_sentinel s"
  by (auto simp: foreign_def)

lemma not_driver [simp]:
  "\<not> driver_sentinel ErrPlayerNotFound" "\<not> driver_sentinel ErrAssetNotFound" "\<not> driver_sentinel ErrSettlementNotFound"
  "\<not> driver_sentinel ErrSettlementApplied" "\<not> driver_sentinel ErrInvalidSettlement"
  "\<not> driver_sentinel ErrInsufficientCurrency" "\<not> driver_sentinel ErrInvalidPlayer"
  "\<not> driver_sentinel ErrIdentityNotFound" "\<not> driver_sentinel ErrInvalidToken"
  "\<not> driver_sentinel ErrIdempotencyConflict" "\<not> driver_sentinel ErrIdempotencyNotFound"
  "\<not> driver_sentinel ErrIdempotencyLeaseLost" "\<not> driver_sentinel ErrInvalidIdempotency"
  "\<not> driver_sentinel ErrAccountNotFound" "\<not> driver_sentinel ErrRoomNotFound" "\<not> driver_sentinel ErrPlayerNotInRoom"
  "driver_sentinel ErrNoDocuments" "driver_sentinel ErrDuplicateKey"
  by (simp_all add: driver_sentinel_def)

section \<open>Where a collection lives in the database\<close>

text \<open>
  \<open>view\<close> maps the world to the contents of the database, \<open>docs\<close> and \<open>put\<close> read and replace one collection of
  it, \<open>enc\<close> is the effect of storing a document and reading it back.
\<close>

record ('d, 'db, 'w) place =
  pl_view :: "'w \<Rightarrow> 'db"
  pl_docs :: "'db \<Rightarrow> 'd list"
  pl_put :: "'d list \<Rightarrow> 'db \<Rightarrow> 'db"
  pl_enc :: "'d \<Rightarrow> 'd"
  pl_conflict :: "'d \<Rightarrow> 'd \<Rightarrow> bool"

definition docs_of :: "('d, 'db, 'w) place \<Rightarrow> 'w \<Rightarrow> 'd list" where
  "docs_of P w = pl_docs P (pl_view P w)"

text \<open>One document replaced by another, the others untouched.\<close>

definition swapped :: "('d \<Rightarrow> bool) \<Rightarrow> 'd \<Rightarrow> 'd \<Rightarrow> 'd list \<Rightarrow> 'd list \<Rightarrow> bool" where
  "swapped f x y ds ds' \<longleftrightarrow> (\<exists>as bs. ds = as @ x # bs \<and> ds' = as @ y # bs \<and> f x)"

definition inserts :: "('d, 'w) Collection \<Rightarrow> ('d, 'db, 'w) place \<Rightarrow> bool" where
  "inserts C P \<longleftrightarrow> (\<forall>d w e w'. cl_InsertOne C d w = (e, w') \<longrightarrow>
     (case e of
        None \<Rightarrow> pl_view P w' = pl_put P (docs_of P w @ [pl_enc P d]) (pl_view P w)
                \<and> (\<forall>x \<in> set (docs_of P w). \<not> pl_conflict P (pl_enc P d) x)
      | Some er \<Rightarrow> pl_view P w' = pl_view P w \<and> foreign er
                \<and> (IsDuplicateKeyError er \<longrightarrow> (\<exists>x \<in> set (docs_of P w). pl_conflict P (pl_enc P d) x))))"

definition finds :: "('d, 'w) Collection \<Rightarrow> ('d, 'db, 'w) place \<Rightarrow> bool" where
  "finds C P \<longleftrightarrow> (\<forall>f s w res w'. cl_FindOne C f s w = (res, w') \<longrightarrow>
     pl_view P w' = pl_view P w \<and>
     (case res of
        Inr d \<Rightarrow> d \<in> set (docs_of P w) \<and> f d \<and>
          (\<forall>first. s = Some first \<longrightarrow> (\<forall>x \<in> set (docs_of P w). f x \<longrightarrow> \<not> first x d))
      | Inl e \<Rightarrow> foreign e \<and> (errors_is e ErrNoDocuments \<longrightarrow> (\<forall>x \<in> set (docs_of P w). \<not> f x))))"

definition replaces :: "('d, 'w) Collection \<Rightarrow> ('d, 'db, 'w) place \<Rightarrow> bool" where
  "replaces C P \<longleftrightarrow> (\<forall>f d up w e w'. cl_ReplaceOne C f d up w = (e, w') \<longrightarrow>
     (case e of
        None \<Rightarrow>
          (if \<exists>x \<in> set (docs_of P w). f x
           then \<exists>x ds'. swapped f x (pl_enc P d) (docs_of P w) ds' \<and> pl_view P w' = pl_put P ds' (pl_view P w)
           else if up then pl_view P w' = pl_put P (docs_of P w @ [pl_enc P d]) (pl_view P w)
           else pl_view P w' = pl_view P w)
      | Some er \<Rightarrow> pl_view P w' = pl_view P w \<and> foreign er))"

definition modifies :: "('d, 'w) Collection \<Rightarrow> ('d, 'db, 'w) place \<Rightarrow> bool" where
  "modifies C P \<longleftrightarrow>
     (\<forall>f u w res w'. cl_FindOneAndUpdate C f u w = (res, w') \<longrightarrow>
       (case res of
          Inr d \<Rightarrow> \<exists>x y ds'. u x = Some y \<and> d = pl_enc P y \<and> swapped f x d (docs_of P w) ds'
                     \<and> pl_view P w' = pl_put P ds' (pl_view P w)
        | Inl e \<Rightarrow> pl_view P w' = pl_view P w \<and> foreign e
                     \<and> (errors_is e ErrNoDocuments \<longrightarrow> (\<forall>x \<in> set (docs_of P w). \<not> f x))))
     \<and> (\<forall>f u w res w'. cl_UpdateOne C f u w = (res, w') \<longrightarrow>
       (case res of
          Inr n \<Rightarrow> (if \<exists>x \<in> set (docs_of P w). f x
             then n = 1 \<and> (\<exists>x y ds'. u x = Some y \<and> swapped f x (pl_enc P y) (docs_of P w) ds'
                            \<and> pl_view P w' = pl_put P ds' (pl_view P w))
             else n = 0 \<and> pl_view P w' = pl_view P w)
        | Inl e \<Rightarrow> pl_view P w' = pl_view P w \<and> foreign e))"

text \<open>One document removed, the others untouched.\<close>

definition removed :: "('d \<Rightarrow> bool) \<Rightarrow> 'd list \<Rightarrow> 'd list \<Rightarrow> bool" where
  "removed f ds ds' \<longleftrightarrow> (\<exists>as x bs. ds = as @ x # bs \<and> ds' = as @ bs \<and> f x)"

definition deletes :: "('d, 'w) Collection \<Rightarrow> ('d, 'db, 'w) place \<Rightarrow> bool" where
  "deletes C P \<longleftrightarrow>
     (\<forall>f w res w'. cl_DeleteOne C f w = (res, w') \<longrightarrow>
       (case res of
          Inr n \<Rightarrow> (if \<exists>x \<in> set (docs_of P w). f x
             then n = 1 \<and> (\<exists>ds'. removed f (docs_of P w) ds' \<and> pl_view P w' = pl_put P ds' (pl_view P w))
             else n = 0 \<and> pl_view P w' = pl_view P w)
        | Inl e \<Rightarrow> pl_view P w' = pl_view P w \<and> foreign e))
     \<and> (\<forall>f w res w'. cl_DeleteMany C f w = (res, w') \<longrightarrow>
       (case res of
          Inr n \<Rightarrow> n = length (filter f (docs_of P w))
             \<and> pl_view P w' = pl_put P (filter (\<lambda>x. \<not> f x) (docs_of P w)) (pl_view P w)
        | Inl e \<Rightarrow> foreign e \<and> (\<exists>g. (\<forall>x. g x \<longrightarrow> f x)
             \<and> pl_view P w' = pl_put P (filter (\<lambda>x. \<not> g x) (docs_of P w)) (pl_view P w))))"
section \<open>Transactions\<close>

type_synonym 'w action = "'w \<Rightarrow> go_error option \<times> 'w"

text \<open>
  \<open>Execute\<close>: \<open>start\<close> is \<^verbatim>\<open>sessions.Start\<close> (\<open>None\<close> for a nil factory) and \<open>withTx\<close> the driver's
  \<^verbatim>\<open>WithTransaction\<close>; a nil function is \<open>None\<close>.
\<close>

definition MongoUnitOfWork_Execute ::
    "'w action option \<Rightarrow> ('w action \<Rightarrow> 'w action) \<Rightarrow> 'w action option \<Rightarrow> 'w action" where
  "MongoUnitOfWork_Execute start withTx fn w =
     (case start of None \<Rightarrow> (Some (Sentinel ErrMongoClientRequired), w) | Some st \<Rightarrow>
      (case fn of None \<Rightarrow> (Some (Sentinel ErrTransactionFuncNil), w) | Some f \<Rightarrow>
       (case st w of (Some e, w1) \<Rightarrow> (Some e, w1) | (None, w1) \<Rightarrow> withTx f w1)))"

text \<open>
  What the driver promises of a transaction: the callback runs on the state the transaction started from
  (once or, after transient faults, again); nil means its writes are committed; an error is the
  callback's, with nothing written, or the driver's own (no sentinel of this program), after which the
  writes of a successful run are either all there or not at all.
\<close>

definition transacts :: "('w action \<Rightarrow> 'w action) \<Rightarrow> ('w \<Rightarrow> 'db) \<Rightarrow> bool" where
  "transacts tx view \<longleftrightarrow> (\<forall>f w e w'. tx f w = (e, w') \<longrightarrow>
     (case e of
        None \<Rightarrow> \<exists>w1 w2. view w1 = view w \<and> f w1 = (None, w2) \<and> view w' = view w2
      | Some er \<Rightarrow>
          (view w' = view w \<and> (\<exists>w1 w2. view w1 = view w \<and> f w1 = (Some er, w2)))
          \<or> (foreign er
             \<and> (view w' = view w \<or> (\<exists>w1 w2. view w1 = view w \<and> f w1 = (None, w2) \<and> view w' = view w2)))))"

text \<open>The unit of work keeps what its driver promises, once a session starts.\<close>

lemma Execute_transacts:
  assumes "transacts withTx view"
    and "\<And>w e w1. st w = (e, w1) \<Longrightarrow> view w1 = view w"
    and "\<And>w e w1. st w = (Some e, w1) \<Longrightarrow> foreign e"
  shows "transacts (\<lambda>f. MongoUnitOfWork_Execute (Some st) withTx (Some f)) view"
  unfolding transacts_def
proof (intro allI impI)
  fix f w e w'
  assume ex: "MongoUnitOfWork_Execute (Some st) withTx (Some f) w = (e, w')"
  obtain e1 w1 where st: "st w = (e1, w1)" by fastforce
  have v: "view w1 = view w" by (rule assms(2) [OF st])
  show "case e of
        None \<Rightarrow> \<exists>w1 w2. view w1 = view w \<and> f w1 = (None, w2) \<and> view w' = view w2
      | Some er \<Rightarrow>
          (view w' = view w \<and> (\<exists>w1 w2. view w1 = view w \<and> f w1 = (Some er, w2)))
          \<or> (foreign er
             \<and> (view w' = view w \<or> (\<exists>w1 w2. view w1 = view w \<and> f w1 = (None, w2) \<and> view w' = view w2)))"
  proof (cases e1)
    case None
    then have "withTx f w1 = (e, w')" using ex st by (simp add: MongoUnitOfWork_Execute_def)
    then show ?thesis using assms(1) unfolding transacts_def v [symmetric] by blast
  next
    case (Some e2)
    then have e: "e = Some e2" "w' = w1" using ex st by (simp_all add: MongoUnitOfWork_Execute_def)
    show ?thesis unfolding e using v assms(3) [OF st [unfolded Some]] by simp
  qed
qed

section \<open>A collection with a unique key as a map\<close>

definition index_by :: "('d \<Rightarrow> 'k) \<Rightarrow> ('d \<Rightarrow> 'v) \<Rightarrow> 'd list \<Rightarrow> ('k \<rightharpoonup> 'v)" where
  "index_by k g ds = map_of (map (\<lambda>d. (k d, g d)) ds)"

lemma index_by_Nil [simp]: "index_by k g [] = Map.empty"
  by (simp add: index_by_def)

lemma dom_index_by: "dom (index_by k g ds) = k ` set ds"
  by (force simp: index_by_def dom_map_of_conv_image_fst)

lemma index_by_None: "index_by k g ds i = None \<longleftrightarrow> (\<forall>d \<in> set ds. k d \<noteq> i)"
proof -
  have "index_by k g ds i = None \<longleftrightarrow> i \<notin> k ` set ds" unfolding dom_index_by [of k g, symmetric] by auto
  then show ?thesis by auto
qed

lemma index_by_finite [simp]: "finite (dom (index_by k g ds))"
  by (simp add: dom_index_by)

lemma index_by_Some:
  assumes "distinct (map k ds)"
  shows "index_by k g ds i = Some v \<longleftrightarrow> (\<exists>d \<in> set ds. k d = i \<and> g d = v)"
proof -
  have "distinct (map fst (map (\<lambda>d. (k d, g d)) ds))" using assms by (simp add: comp_def)
  then show ?thesis unfolding index_by_def by (subst eq_commute, subst map_of_eq_Some_iff) auto
qed

lemma index_by_snoc:
  assumes "\<forall>x \<in> set ds. k x \<noteq> k d"
  shows "index_by k g (ds @ [d]) = (index_by k g ds)(k d \<mapsto> g d)"
proof -
  have "index_by k g ds (k d) = None" using assms by (simp add: index_by_None)
  then show ?thesis by (auto simp: index_by_def fun_eq_iff map_add_def split: option.splits)
qed

lemma index_by_swapped:
  assumes "distinct (map k ds)" "swapped f x y ds ds'" "k y = k x"
  shows "distinct (map k ds')" "index_by k g ds' = (index_by k g ds)(k x \<mapsto> g y)" "x \<in> set ds" "f x"
    "index_by k g ds (k x) = Some (g x)"
proof -
  obtain as bs where ds: "ds = as @ x # bs" "ds' = as @ y # bs" and f: "f x"
    using assms(2) unfolding swapped_def by blast
  show "distinct (map k ds')" using assms(1,3) by (simp add: ds)
  have "index_by k g as (k x) = None" using assms(1) by (auto simp: ds index_by_None image_iff)
  then show "index_by k g ds' = (index_by k g ds)(k x \<mapsto> g y)"
    using assms(3) by (auto simp: ds index_by_def fun_eq_iff map_add_def split: option.splits)
  show "x \<in> set ds" "f x" using f by (simp_all add: ds)
  then show "index_by k g ds (k x) = Some (g x)" using assms(1) index_by_Some by metis
qed

lemma index_by_removed:
  assumes "distinct (map k ds)" "ds = as @ x # bs"
  shows "distinct (map k (as @ bs))" "index_by k g (as @ bs) = (index_by k g ds)(k x := None)"
proof -
  show "distinct (map k (as @ bs))" using assms by auto
  have "index_by k g as (k x) = None" "index_by k g bs (k x) = None"
    using assms by (auto simp: index_by_None image_iff)
  then show "index_by k g (as @ bs) = (index_by k g ds)(k x := None)"
    by (auto simp: assms(2) index_by_def fun_eq_iff map_add_def split: option.splits)
qed

lemma index_by_filter:
  assumes "distinct (map k ds)"
  shows "index_by k g (filter P ds) \<subseteq>\<^sub>m index_by k g ds"
proof -
  have "index_by k g ds i = Some v" if "index_by k g (filter P ds) i = Some v" for i v
    using that by (auto simp: index_by_Some [OF assms] index_by_Some [OF distinct_map_filter [OF assms]])
  then show ?thesis by (auto simp: map_le_def)
qed

subsection \<open>The driver's operations on such a collection\<close>

text \<open>Reading a collection back after writing it.\<close>

definition writable :: "('d, 'db, 'w) place \<Rightarrow> bool" where
  "writable P \<longleftrightarrow> (\<forall>ds db. pl_docs P (pl_put P ds db) = ds)"

lemma insert_keyed:
  assumes "inserts C P" "writable P" "\<And>a b. k a = k b \<Longrightarrow> pl_conflict P a b" "distinct (map k (docs_of P w))"
    and "cl_InsertOne C d w = (None, w')"
  shows "pl_view P w' = pl_put P (docs_of P w @ [pl_enc P d]) (pl_view P w)"
    "distinct (map k (docs_of P w'))" "index_by k g (docs_of P w) (k (pl_enc P d)) = None"
    "index_by k g (docs_of P w') = (index_by k g (docs_of P w))(k (pl_enc P d) \<mapsto> g (pl_enc P d))"
    "\<And>x. x \<in> set (docs_of P w) \<Longrightarrow> \<not> pl_conflict P (pl_enc P d) x"
proof -
  have put: "pl_view P w' = pl_put P (docs_of P w @ [pl_enc P d]) (pl_view P w)"
    and con: "\<forall>x \<in> set (docs_of P w). \<not> pl_conflict P (pl_enc P d) x"
    using assms(1) [unfolded inserts_def, rule_format, OF assms(5)] by simp_all
  have docs: "docs_of P w' = docs_of P w @ [pl_enc P d]"
    using assms(2) unfolding docs_of_def [of P w'] put by (simp add: writable_def)
  have new: "\<forall>x \<in> set (docs_of P w). k x \<noteq> k (pl_enc P d)"
  proof
    fix x
    assume "x \<in> set (docs_of P w)"
    then have "\<not> pl_conflict P (pl_enc P d) x" using con by blast
    then show "k x \<noteq> k (pl_enc P d)" using assms(3) [of "pl_enc P d" x] by auto
  qed
  show "pl_view P w' = pl_put P (docs_of P w @ [pl_enc P d]) (pl_view P w)" by (rule put)
  show "distinct (map k (docs_of P w'))" using assms(4) new by (auto simp: docs)
  show "index_by k g (docs_of P w) (k (pl_enc P d)) = None" using new by (simp add: index_by_None)
  show "index_by k g (docs_of P w') = (index_by k g (docs_of P w))(k (pl_enc P d) \<mapsto> g (pl_enc P d))"
    unfolding docs by (rule index_by_snoc [OF new])
  show "\<And>x. x \<in> set (docs_of P w) \<Longrightarrow> \<not> pl_conflict P (pl_enc P d) x" using con by blast
qed

lemma insert_refused:
  assumes "inserts C P" "cl_InsertOne C d w = (Some er, w')"
  shows "pl_view P w' = pl_view P w" "foreign er"
    "IsDuplicateKeyError er \<Longrightarrow> \<exists>x \<in> set (docs_of P w). pl_conflict P (pl_enc P d) x"
  using assms(1) [unfolded inserts_def, rule_format, OF assms(2)] by simp_all

lemma find_doc:
  assumes "finds C P" "cl_FindOne C f s w = (res, w')"
  shows "pl_view P w' = pl_view P w" "res = Inr d \<Longrightarrow> d \<in> set (docs_of P w) \<and> f d"
    "res = Inl e \<Longrightarrow> foreign e" "res = Inl e \<Longrightarrow> errors_is e ErrNoDocuments \<Longrightarrow> x \<in> set (docs_of P w) \<Longrightarrow> \<not> f x"
  using assms(1) [unfolded finds_def, rule_format, OF assms(2)] by auto

lemma find_keyed:
  assumes "finds C P" "distinct (map k (docs_of P w))" "cl_FindOne C (\<lambda>d. k d = i) s w = (res, w')"
  shows "pl_view P w' = pl_view P w" "res = Inr d \<Longrightarrow> index_by k g (docs_of P w) i = Some (g d)"
    "res = Inl e \<Longrightarrow> foreign e"
    "res = Inl e \<Longrightarrow> errors_is e ErrNoDocuments \<Longrightarrow> index_by k g (docs_of P w) i = None"
proof -
  note F = find_doc [OF assms(1,3)]
  show "pl_view P w' = pl_view P w" by (rule F(1))
  show "res = Inl e \<Longrightarrow> foreign e" by (rule F(3))
  show "index_by k g (docs_of P w) i = Some (g d)" if "res = Inr d"
    unfolding index_by_Some [OF assms(2)] using F(2) [OF that] by blast
  show "index_by k g (docs_of P w) i = None" if "res = Inl e" "errors_is e ErrNoDocuments"
    unfolding index_by_None using F(4) [OF that] by blast
qed

lemma replace_keyed:
  assumes "replaces C P" "writable P" "distinct (map k (docs_of P w))" "k (pl_enc P d) = i"
    and "cl_ReplaceOne C (\<lambda>d. k d = i) d True w = (None, w')"
  shows "\<exists>ds'. pl_view P w' = pl_put P ds' (pl_view P w)" "distinct (map k (docs_of P w'))"
    "index_by k g (docs_of P w') = (index_by k g (docs_of P w))(i \<mapsto> g (pl_enc P d))"
proof -
  let ?f = "\<lambda>d. k d = i" and ?d = "pl_enc P d"
  have "if \<exists>x \<in> set (docs_of P w). ?f x
        then \<exists>x ds'. swapped ?f x ?d (docs_of P w) ds' \<and> pl_view P w' = pl_put P ds' (pl_view P w)
        else pl_view P w' = pl_put P (docs_of P w @ [?d]) (pl_view P w)"
    using assms(1) [unfolded replaces_def, rule_format, OF assms(5)] by (simp cong: if_cong)
  then consider (swap) x ds' where "swapped ?f x ?d (docs_of P w) ds'" "pl_view P w' = pl_put P ds' (pl_view P w)"
    | (new) "\<forall>x \<in> set (docs_of P w). k x \<noteq> i" "pl_view P w' = pl_put P (docs_of P w @ [?d]) (pl_view P w)"
    by (auto split: if_splits)
  then have "(\<exists>ds'. pl_view P w' = pl_put P ds' (pl_view P w)) \<and> distinct (map k (docs_of P w'))
    \<and> index_by k g (docs_of P w') = (index_by k g (docs_of P w))(i \<mapsto> g ?d)"
  proof cases
    case swap
    have docs: "docs_of P w' = ds'"
      using assms(2) unfolding docs_of_def [of P w'] swap(2) by (simp add: writable_def)
    have x: "k x = i" using swap(1) by (auto simp: swapped_def)
    then have "k ?d = k x" using assms(4) by simp
    from index_by_swapped(1) [OF assms(3) swap(1) this] index_by_swapped(2) [OF assms(3) swap(1) this, of g]
    show ?thesis using swap(2) by (auto simp: docs x)
  next
    case new
    have docs: "docs_of P w' = docs_of P w @ [?d]"
      using assms(2) unfolding docs_of_def [of P w'] new(2) by (simp add: writable_def)
    have "\<forall>x \<in> set (docs_of P w). k x \<noteq> k ?d" using new(1) assms(4) by simp
    from index_by_snoc [OF this, of g] this
    show ?thesis using new(2) assms(3,4) by (auto simp: docs)
  qed
  then show "\<exists>ds'. pl_view P w' = pl_put P ds' (pl_view P w)" "distinct (map k (docs_of P w'))"
    "index_by k g (docs_of P w') = (index_by k g (docs_of P w))(i \<mapsto> g ?d)" by blast+
qed

lemma replace_refused:
  assumes "replaces C P" "cl_ReplaceOne C f d up w = (Some er, w')"
  shows "pl_view P w' = pl_view P w" "foreign er"
  using assms(1) [unfolded replaces_def, rule_format, OF assms(2)] by simp_all

text \<open>An update of the one document that has the key.\<close>

lemma swap_keyed:
  assumes "writable P" "distinct (map k (docs_of P w))" "\<And>x. f x \<Longrightarrow> k x = i" "k y = i"
    and "swapped f x y (docs_of P w) ds'" "pl_view P w' = pl_put P ds' (pl_view P w)"
  shows "distinct (map k (docs_of P w'))" "f x" "index_by k g (docs_of P w) i = Some (g x)"
    "index_by k g (docs_of P w') = (index_by k g (docs_of P w))(i \<mapsto> g y)" "x \<in> set (docs_of P w)"
proof -
  have docs: "docs_of P w' = ds'"
    using assms(1) unfolding docs_of_def [of P w'] assms(6) by (simp add: writable_def)
  show f: "f x" "x \<in> set (docs_of P w)" using assms(5) by (auto simp: swapped_def)
  have "k y = k x" using f(1) assms(3,4) by simp
  note S = index_by_swapped [OF assms(2,5) this]
  show "distinct (map k (docs_of P w'))" unfolding docs by (rule S(1))
  show "index_by k g (docs_of P w) i = Some (g x)" using S(5) [of g] assms(3) [OF f(1)] by simp
  show "index_by k g (docs_of P w') = (index_by k g (docs_of P w))(i \<mapsto> g y)"
    unfolding docs using S(2) [of g] assms(3) [OF f(1)] by simp
qed

lemma findUpdate_cases:
  assumes "modifies C P" "cl_FindOneAndUpdate C f u w = (res, w')"
  shows "res = Inr d \<Longrightarrow> \<exists>x y ds'. u x = Some y \<and> d = pl_enc P y \<and> swapped f x d (docs_of P w) ds'
      \<and> pl_view P w' = pl_put P ds' (pl_view P w)"
    "res = Inl e \<Longrightarrow> pl_view P w' = pl_view P w" "res = Inl e \<Longrightarrow> foreign e"
    "res = Inl e \<Longrightarrow> errors_is e ErrNoDocuments \<Longrightarrow> x \<in> set (docs_of P w) \<Longrightarrow> \<not> f x"
proof -
  note L = conjunct1 [OF assms(1) [unfolded modifies_def], rule_format, OF assms(2)]
  show "\<exists>x y ds'. u x = Some y \<and> d = pl_enc P y \<and> swapped f x d (docs_of P w) ds'
      \<and> pl_view P w' = pl_put P ds' (pl_view P w)" if "res = Inr d"
    using L unfolding that sum.case .
  have "pl_view P w' = pl_view P w \<and> foreign e \<and> (errors_is e ErrNoDocuments \<longrightarrow> (\<forall>x \<in> set (docs_of P w). \<not> f x))"
    if "res = Inl e" using L unfolding that sum.case .
  then show "res = Inl e \<Longrightarrow> pl_view P w' = pl_view P w" "res = Inl e \<Longrightarrow> foreign e"
    "res = Inl e \<Longrightarrow> errors_is e ErrNoDocuments \<Longrightarrow> x \<in> set (docs_of P w) \<Longrightarrow> \<not> f x" by blast+
qed

lemma updateOne_cases:
  assumes "modifies C P" "cl_UpdateOne C f u w = (res, w')"
  shows "res = Inr 0 \<Longrightarrow> pl_view P w' = pl_view P w" "res = Inr 0 \<Longrightarrow> x \<in> set (docs_of P w) \<Longrightarrow> \<not> f x"
    "res = Inr n \<Longrightarrow> n \<noteq> 0 \<Longrightarrow> n = 1 \<and> (\<exists>x y ds'. u x = Some y \<and> swapped f x (pl_enc P y) (docs_of P w) ds'
      \<and> pl_view P w' = pl_put P ds' (pl_view P w))"
    "res = Inl e \<Longrightarrow> pl_view P w' = pl_view P w" "res = Inl e \<Longrightarrow> foreign e"
proof -
  note L = conjunct2 [OF assms(1) [unfolded modifies_def], rule_format, OF assms(2)]
  have N: "if \<exists>x \<in> set (docs_of P w). f x
      then n = 1 \<and> (\<exists>x y ds'. u x = Some y \<and> swapped f x (pl_enc P y) (docs_of P w) ds'
                     \<and> pl_view P w' = pl_put P ds' (pl_view P w))
      else n = 0 \<and> pl_view P w' = pl_view P w" if "res = Inr n" for n
    using L unfolding that sum.case .
  have none: "pl_view P w' = pl_view P w \<and> \<not> (\<exists>x \<in> set (docs_of P w). f x)" if "res = Inr 0"
    using N [OF that] by (cases "\<exists>x \<in> set (docs_of P w). f x") (simp_all only: if_True if_False simp_thms zero_neq_one)
  then show "res = Inr 0 \<Longrightarrow> pl_view P w' = pl_view P w" "res = Inr 0 \<Longrightarrow> x \<in> set (docs_of P w) \<Longrightarrow> \<not> f x" by blast+
  show "n = 1 \<and> (\<exists>x y ds'. u x = Some y \<and> swapped f x (pl_enc P y) (docs_of P w) ds'
      \<and> pl_view P w' = pl_put P ds' (pl_view P w))" if "res = Inr n" "n \<noteq> 0"
    using N [OF that(1)] that(2) by (cases "\<exists>x \<in> set (docs_of P w). f x") (simp_all only: if_True if_False simp_thms)
  have "pl_view P w' = pl_view P w \<and> foreign e" if "res = Inl e" using L unfolding that sum.case .
  then show "res = Inl e \<Longrightarrow> pl_view P w' = pl_view P w" "res = Inl e \<Longrightarrow> foreign e" by blast+
qed

text \<open>An update that keeps the key, of a document found by its key.\<close>

lemma swapped_map: "swapped f x y ds ds' \<Longrightarrow> k y = k x \<Longrightarrow> map k ds' = map k ds"
  by (auto simp: swapped_def)

lemma swapped_set: "swapped f x y ds ds' \<Longrightarrow> set ds' \<subseteq> insert y (set ds)"
  by (auto simp: swapped_def)

lemma update_keyed:
  assumes "modifies C P" "writable P" "distinct (map k (docs_of P w))" "\<And>x. f x \<Longrightarrow> k x = i"
    and "\<And>x y. u x = Some y \<Longrightarrow> k (pl_enc P y) = k x" "cl_UpdateOne C f u w = (Inr n, w')" "n \<noteq> 0"
  obtains x y where "u x = Some y" "f x" "x \<in> set (docs_of P w)" "swapped f x (pl_enc P y) (docs_of P w) (docs_of P w')"
    "pl_view P w' = pl_put P (docs_of P w') (pl_view P w)" "distinct (map k (docs_of P w'))"
    "index_by k g (docs_of P w) i = Some (g x)"
    "index_by k g (docs_of P w') = (index_by k g (docs_of P w))(i \<mapsto> g (pl_enc P y))" "n = 1"
proof -
  obtain x y ds' where n: "n = 1" and u: "u x = Some y" and sw: "swapped f x (pl_enc P y) (docs_of P w) ds'"
    and v: "pl_view P w' = pl_put P ds' (pl_view P w)"
    using updateOne_cases(3) [OF assms(1,6) refl assms(7)] by blast
  have docs: "docs_of P w' = ds'" using assms(2) unfolding docs_of_def [of P w'] v by (simp add: writable_def)
  have "f x" using sw by (auto simp: swapped_def)
  then have key: "k (pl_enc P y) = i" using assms(4) assms(5) [OF u] by simp
  note S = swap_keyed [OF assms(2,3,4) key sw v]
  show thesis by (rule that [OF u S(2,5) sw [folded docs] v [folded docs] S(1,3,4) n])
qed

lemma deleteOne_cases:
  assumes "deletes C P" "cl_DeleteOne C f w = (res, w')"
  shows "res = Inr n \<Longrightarrow> n \<noteq> 0 \<Longrightarrow> n = 1 \<and> (\<exists>ds'. removed f (docs_of P w) ds' \<and> pl_view P w' = pl_put P ds' (pl_view P w))"
    "res = Inr 0 \<Longrightarrow> pl_view P w' = pl_view P w" "res = Inr 0 \<Longrightarrow> x \<in> set (docs_of P w) \<Longrightarrow> \<not> f x"
    "res = Inl e \<Longrightarrow> pl_view P w' = pl_view P w" "res = Inl e \<Longrightarrow> foreign e"
proof -
  note L = conjunct1 [OF assms(1) [unfolded deletes_def], rule_format, OF assms(2)]
  have N: "if \<exists>x \<in> set (docs_of P w). f x
      then n = 1 \<and> (\<exists>ds'. removed f (docs_of P w) ds' \<and> pl_view P w' = pl_put P ds' (pl_view P w))
      else n = 0 \<and> pl_view P w' = pl_view P w" if "res = Inr n" for n
    using L unfolding that sum.case .
  have none: "pl_view P w' = pl_view P w \<and> \<not> (\<exists>x \<in> set (docs_of P w). f x)" if "res = Inr 0"
    using N [OF that] by (cases "\<exists>x \<in> set (docs_of P w). f x") (simp_all only: if_True if_False simp_thms zero_neq_one)
  then show "res = Inr 0 \<Longrightarrow> pl_view P w' = pl_view P w" "res = Inr 0 \<Longrightarrow> x \<in> set (docs_of P w) \<Longrightarrow> \<not> f x" by blast+
  show "n = 1 \<and> (\<exists>ds'. removed f (docs_of P w) ds' \<and> pl_view P w' = pl_put P ds' (pl_view P w))" if "res = Inr n" "n \<noteq> 0"
    using N [OF that(1)] that(2) by (cases "\<exists>x \<in> set (docs_of P w). f x") (simp_all only: if_True if_False simp_thms)
  have "pl_view P w' = pl_view P w \<and> foreign e" if "res = Inl e" using L unfolding that sum.case .
  then show "res = Inl e \<Longrightarrow> pl_view P w' = pl_view P w" "res = Inl e \<Longrightarrow> foreign e" by blast+
qed

section \<open>The contract of a unit of work\<close>

text \<open>What the services rely on, over an abstract view of the world and an invariant of it.\<close>

locale unit_of_work =
  fixes tx :: "'w action \<Rightarrow> 'w action" and abs :: "'w \<Rightarrow> 'v" and invar :: "'w \<Rightarrow> bool"
  assumes tx_commit: "invar w \<Longrightarrow> tx f w = (None, w') \<Longrightarrow>
      \<exists>w1 w2. invar w1 \<and> abs w1 = abs w \<and> f w1 = (None, w2) \<and> (invar w2 \<longrightarrow> invar w' \<and> abs w' = abs w2)"
    and tx_abort: "invar w \<Longrightarrow> tx f w = (Some er, w') \<Longrightarrow>
      (invar w' \<and> abs w' = abs w \<and> (foreign er \<or> (\<exists>w1 w2. invar w1 \<and> abs w1 = abs w \<and> f w1 = (Some er, w2))))
      \<or> (foreign er \<and> (\<exists>w1 w2. invar w1 \<and> abs w1 = abs w \<and> f w1 = (None, w2) \<and> (invar w2 \<longrightarrow> invar w' \<and> abs w' = abs w2)))"
begin

text \<open>A transaction whose function, if it succeeds, relates the views before and after.\<close>

lemma tx_effect:
  assumes w: "invar w" and c: "tx f w = (e, w')"
    and f: "\<And>w1 w2. invar w1 \<Longrightarrow> abs w1 = abs w \<Longrightarrow> f w1 = (None, w2) \<Longrightarrow> invar w2 \<and> R (abs w) (abs w2)"
  shows "invar w' \<and> (e = None \<and> R (abs w) (abs w') \<or> (\<exists>er. e = Some er \<and> (abs w' = abs w \<or> foreign er \<and> R (abs w) (abs w'))))"
proof (cases e)
  case None
  from tx_commit [OF w c [unfolded None]] obtain w1 w2 where "invar w1" "abs w1 = abs w" "f w1 = (None, w2)"
    "invar w2 \<longrightarrow> invar w' \<and> abs w' = abs w2" by blast
  then show ?thesis using f [of w1 w2] None by simp
next
  case (Some er)
  from tx_abort [OF w c [unfolded Some]] consider "invar w'" "abs w' = abs w"
    | w1 w2 where "foreign er" "invar w1" "abs w1 = abs w" "f w1 = (None, w2)" "invar w2 \<longrightarrow> invar w' \<and> abs w' = abs w2" by blast
  then show ?thesis
  proof cases
    case 1
    then show ?thesis using Some by simp
  next
    case 2
    then show ?thesis using f [of w1 w2] Some by simp
  qed
qed

end

lemma transacts_unit_of_work:
  assumes tx: "\<And>w. invar w \<Longrightarrow> transacts tx view" and inv: "\<And>w w'. invar w \<Longrightarrow> view w' = view w \<Longrightarrow> invar w'"
  shows "unit_of_work tx (\<lambda>w. A (view w)) invar"
proof
  fix w f w'
  assume w: "invar w" and c: "tx f w = (None, w')"
  obtain w1 w2 where "view w1 = view w" "f w1 = (None, w2)" "view w' = view w2"
    using tx [OF w, unfolded transacts_def, rule_format, OF c] by auto
  then show "\<exists>w1 w2. invar w1 \<and> A (view w1) = A (view w) \<and> f w1 = (None, w2) \<and> (invar w2 \<longrightarrow> invar w' \<and> A (view w') = A (view w2))"
    using inv [OF w, of w1] inv [of w2 w'] by (intro exI [of _ w1] exI [of _ w2]) auto
next
  fix w f er w'
  assume w: "invar w" and c: "tx f w = (Some er, w')"
  from tx [OF w, unfolded transacts_def, rule_format, OF c]
  consider (aborted) w1 w2 where "view w' = view w" "view w1 = view w" "f w1 = (Some er, w2)"
    | (nothing) "foreign er" "view w' = view w"
    | (all) w1 w2 where "foreign er" "view w1 = view w" "f w1 = (None, w2)" "view w' = view w2"
    by auto
  then show "(invar w' \<and> A (view w') = A (view w) \<and> (foreign er \<or> (\<exists>w1 w2. invar w1 \<and> A (view w1) = A (view w) \<and> f w1 = (Some er, w2))))
      \<or> (foreign er \<and> (\<exists>w1 w2. invar w1 \<and> A (view w1) = A (view w) \<and> f w1 = (None, w2)
            \<and> (invar w2 \<longrightarrow> invar w' \<and> A (view w') = A (view w2))))"
  proof cases
    case aborted
    then have "invar w1" "invar w'" using inv [OF w] by simp_all
    then show ?thesis using aborted by auto
  next
    case nothing
    then show ?thesis using inv [OF w] by auto
  next
    case all
    then have "invar w1" "invar w2 \<longrightarrow> invar w'" using inv [OF w] inv [of w2 w'] by simp_all
    then show ?thesis using all by auto
  qed
qed

text \<open>The unit of work of \<^verbatim>\<open>transaction.go\<close> keeps it, whatever the state is seen as.\<close>

definition session_driver :: "'w action \<Rightarrow> ('w action \<Rightarrow> 'w action) \<Rightarrow> ('w \<Rightarrow> 'db) \<Rightarrow> bool" where
  "session_driver st withTx view \<longleftrightarrow> transacts withTx view
     \<and> (\<forall>w e w1. st w = (e, w1) \<longrightarrow> view w1 = view w \<and> (\<forall>er. e = Some er \<longrightarrow> foreign er))"

interpretation mongo_tx: unit_of_work "\<lambda>f. MongoUnitOfWork_Execute (Some st) withTx (Some f)" "\<lambda>w. A (view w)"
    "\<lambda>_. session_driver st withTx view" for st withTx and view :: "'w \<Rightarrow> 'db" and A :: "'db \<Rightarrow> 'v"
proof (rule transacts_unit_of_work [where view = view])
  assume d: "session_driver st withTx view"
  show "transacts (\<lambda>f. MongoUnitOfWork_Execute (Some st) withTx (Some f)) view"
    by (rule Execute_transacts) (use d in \<open>auto simp: session_driver_def\<close>)
qed

end
