(* ===== verification/Battle_Mongo.thy ===== *)
theory Battle_Mongo
  imports Battle_Manager Mongo
begin

text \<open>
  The room snapshot repository of \<^verbatim>\<open>src/services/battle/repository/mongo\<close>: documents, mapper and the
  operations on a driver collection \<open>C\<close> (\<open>None\<close> for a nil collection).  With a driver that behaves as
  documented it keeps the contract \<open>room_repo\<close> of the room manager.
\<close>

section \<open>Documents\<close>

record playerStateDocument =
  psd_PlayerID :: string
  psd_HP :: int
  psd_PositionX :: float32
  psd_PositionY :: float32

record roomSnapshotDocument =
  rsd_RoomID :: uint64
  rsd_Tick :: uint64
  rsd_StateVersion :: uint64
  rsd_Status :: string
  rsd_Players :: "playerStateDocument list"
  rsd_UpdatedAt :: gotime

definition playerDoc :: "PlayerState \<Rightarrow> playerStateDocument" where
  "playerDoc p = \<lparr>psd_PlayerID = ps_PlayerID p, psd_HP = ps_HP p, psd_PositionX = ps_PositionX p,
     psd_PositionY = ps_PositionY p\<rparr>"

definition playerOfDoc :: "playerStateDocument \<Rightarrow> PlayerState" where
  "playerOfDoc d = \<lparr>ps_PlayerID = psd_PlayerID d, ps_HP = psd_HP d, ps_PositionX = psd_PositionX d,
     ps_PositionY = psd_PositionY d\<rparr>"

definition roomSnapshotDocumentFromDomain ::
    "(players \<Rightarrow> string list) \<Rightarrow> Room \<Rightarrow> roomSnapshotDocument result" where
  "roomSnapshotDocumentFromDomain it room =
     (case Room_Validate it (Some room) of Some e \<Rightarrow> Inl e | None \<Rightarrow>
        Inr \<lparr>rsd_RoomID = rm_ID room, rsd_Tick = rm_Tick room, rsd_StateVersion = rm_StateVersion room,
             rsd_Status = rm_Status room,
             rsd_Players = map playerDoc (List.map_filter (rm_Players room) (it (rm_Players room))),
             rsd_UpdatedAt = rm_UpdatedAt room\<rparr>)"

definition roomSnapshotDomainFromDocument ::
    "(players \<Rightarrow> string list) \<Rightarrow> roomSnapshotDocument \<Rightarrow> Room result" where
  "roomSnapshotDomainFromDocument it document =
     (let room = \<lparr>rm_ID = rsd_RoomID document, rm_Tick = rsd_Tick document,
                  rm_StateVersion = rsd_StateVersion document, rm_Status = rsd_Status document,
                  rm_Players = Map.empty, rm_UpdatedAt = rsd_UpdatedAt document\<rparr>
      in case add_all (map playerOfDoc (rsd_Players document)) room of
           Inl e \<Rightarrow> Inl e
         | Inr r \<Rightarrow> (case Room_Validate it (Some r) of Some e \<Rightarrow> Inl e | None \<Rightarrow> Inr r))"

section \<open>Operations\<close>

definition RoomSnapshotRepository_EnsureIndexes ::
    "(roomSnapshotDocument, 'w) Collection option \<Rightarrow> 'w \<Rightarrow> go_error option \<times> 'w" where
  "RoomSnapshotRepository_EnsureIndexes C w =
     (case C of None \<Rightarrow> (Some (Sentinel ErrCollectionRequired), w) | Some c \<Rightarrow> cl_CreateMany c w)"

definition RoomSnapshotRepository_Save ::
    "(roomSnapshotDocument, 'w) Collection option \<Rightarrow> (players \<Rightarrow> string list) \<Rightarrow> Room \<Rightarrow> 'w \<Rightarrow>
     go_error option \<times> 'w" where
  "RoomSnapshotRepository_Save C it room w =
     (case C of None \<Rightarrow> (Some (Sentinel ErrCollectionRequired), w) | Some c \<Rightarrow>
      (case roomSnapshotDocumentFromDomain it room of Inl e \<Rightarrow> (Some e, w) | Inr document \<Rightarrow>
       (case cl_ReplaceOne c (\<lambda>d. rsd_RoomID d = rm_ID room) document True w of
          (Some e, w') \<Rightarrow> (Some (Wrapf ''save battle room snapshot'' e), w')
        | (None, w') \<Rightarrow> (None, w'))))"

definition has_player :: "string \<Rightarrow> roomSnapshotDocument \<Rightarrow> bool" where
  "has_player playerID d \<longleftrightarrow> playerID \<in> psd_PlayerID ` set (rsd_Players d)"

definition newer :: "roomSnapshotDocument \<Rightarrow> roomSnapshotDocument \<Rightarrow> bool" where
  "newer x d \<longleftrightarrow> rsd_UpdatedAt d < rsd_UpdatedAt x"

definition RoomSnapshotRepository_FindByPlayerID ::
    "(roomSnapshotDocument, 'w) Collection option \<Rightarrow> (players \<Rightarrow> string list) \<Rightarrow> string \<Rightarrow> 'w \<Rightarrow>
     Room result \<times> 'w" where
  "RoomSnapshotRepository_FindByPlayerID C it playerID w =
     (case C of None \<Rightarrow> (Inl (Sentinel ErrCollectionRequired), w) | Some c \<Rightarrow>
      if playerID = '''' then (Inl (Sentinel ErrPlayerNotInRoom), w)
      else (case cl_FindOne c (has_player playerID) (Some newer) w of
              (Inl e, w') \<Rightarrow>
                (if errors_is e ErrNoDocuments then (Inl (Sentinel ErrRoomNotFound), w')
                 else (Inl (Wrapf ''find battle room snapshot'' e), w'))
            | (Inr document, w') \<Rightarrow> (roomSnapshotDomainFromDocument it document, w')))"

definition mongoRooms ::
    "(roomSnapshotDocument, 'w) Collection \<Rightarrow> (players \<Rightarrow> string list) \<Rightarrow> 'w RoomSnapshotRepository" where
  "mongoRooms C it = \<lparr>rr_EnsureIndexes = RoomSnapshotRepository_EnsureIndexes (Some C),
     rr_Save = RoomSnapshotRepository_Save (Some C) it,
     rr_FindByPlayerID = RoomSnapshotRepository_FindByPlayerID (Some C) it\<rparr>"

section \<open>Mapping to documents and back\<close>

lemma playerOfDoc_playerDoc [simp]: "playerOfDoc (playerDoc p) = p"
  by (simp add: playerDoc_def playerOfDoc_def)

lemma playerDoc_id [simp]: "psd_PlayerID (playerDoc p) = ps_PlayerID p" "ps_PlayerID (playerOfDoc d) = psd_PlayerID d"
  by (simp_all add: playerDoc_def playerOfDoc_def)

definition by_id :: "PlayerState list \<Rightarrow> players" where
  "by_id ps = map_of (map (\<lambda>p. (ps_PlayerID p, p)) ps)"

lemma by_id_keyed [simp]: "keyed_players (by_id ps)"
  by (auto simp: keyed_players_def by_id_def finite_dom_map_of dest: map_of_SomeD)

lemma by_id_players:
  assumes "keyed_players m" "set ks = dom m"
  shows "by_id (List.map_filter m ks) = m"
proof -
  have sub: "set ks \<subseteq> dom m" using assms(2) by simp
  then have eq: "map (\<lambda>p. (ps_PlayerID p, p)) (List.map_filter m ks) = map (\<lambda>k. (k, the (m k))) ks"
  proof (induction ks)
    case (Cons k ks)
    then obtain p where "m k = Some p" by auto
    moreover from this have "ps_PlayerID p = k" using assms(1) unfolding keyed_players_def by blast
    ultimately show ?case using Cons by (simp add: List.map_filter_simps)
  qed (simp add: List.map_filter_simps)
  show ?thesis
  proof
    fix k
    show "by_id (List.map_filter m ks) k = m k"
      unfolding by_id_def eq map_of_map_restrict assms(2)
      by (cases "m k") (auto simp: restrict_map_def)
  qed
qed

lemma add_all_Inr:
  "add_all ps r = Inr r' \<Longrightarrow>
     (\<forall>p \<in> set ps. rm_Players r (ps_PlayerID p) = None)
     \<and> r' = r\<lparr>rm_Players := rm_Players r ++ by_id ps\<rparr>"
proof (induction ps arbitrary: r)
  case Nil
  then show ?case by (simp add: by_id_def)
next
  case (Cons p ps)
  let ?r1 = "r\<lparr>rm_Players := (rm_Players r)(ps_PlayerID p \<mapsto> p)\<rparr>"
  have new: "rm_Players r (ps_PlayerID p) = None" and rest: "add_all ps ?r1 = Inr r'"
    using Cons.prems by (auto simp: AddPlayer_def split: sum.splits option.splits if_splits)
  note ih = Cons.IH [OF rest]
  have notin: "ps_PlayerID q \<noteq> ps_PlayerID p" "rm_Players r (ps_PlayerID q) = None" if "q \<in> set ps" for q
    using ih that by (auto split: if_splits)
  have "by_id ps (ps_PlayerID p) = None"
    unfolding by_id_def map_of_eq_None_iff using notin by force
  then have "(rm_Players r)(ps_PlayerID p \<mapsto> p) ++ by_id ps = rm_Players r ++ by_id (p # ps)"
    by (intro ext) (auto simp: by_id_def map_add_def split: option.splits)
  moreover have "r' = r\<lparr>rm_Players := (rm_Players r)(ps_PlayerID p \<mapsto> p) ++ by_id ps\<rparr>"
    using ih by (simp del: fun_upd_apply)
  ultimately show ?case using new notin by (simp del: fun_upd_apply)
qed

lemma add_all_ok:
  "distinct (map ps_PlayerID ps) \<Longrightarrow> \<forall>p \<in> set ps. PlayerState_Validate p = None \<Longrightarrow>
   \<forall>p \<in> set ps. rm_Players r (ps_PlayerID p) = None \<Longrightarrow> \<exists>r'. add_all ps r = Inr r'"
proof (induction ps arbitrary: r)
  case (Cons p ps)
  let ?r1 = "r\<lparr>rm_Players := (rm_Players r)(ps_PlayerID p \<mapsto> p)\<rparr>"
  have "\<forall>q \<in> set ps. ps_PlayerID q \<noteq> ps_PlayerID p" using Cons.prems(1) by (auto simp: image_iff)
  then have "\<forall>q \<in> set ps. rm_Players ?r1 (ps_PlayerID q) = None" using Cons.prems(3) by simp
  then have "\<exists>r'. add_all ps ?r1 = Inr r'" using Cons.prems by (intro Cons.IH) simp_all
  then show ?case using Cons.prems by (simp add: AddPlayer_def)
qed simp

lemma validate_players_iff:
  "validate_players m ks = None \<longleftrightarrow> (\<forall>k \<in> set ks. \<forall>p. m k = Some p \<longrightarrow> PlayerState_Validate p = None)"
  by (induction ks) (auto split: option.splits)

definition room_of :: "roomSnapshotDocument \<Rightarrow> Room" where
  "room_of d = \<lparr>rm_ID = rsd_RoomID d, rm_Tick = rsd_Tick d, rm_StateVersion = rsd_StateVersion d,
     rm_Status = rsd_Status d, rm_Players = by_id (map playerOfDoc (rsd_Players d)),
     rm_UpdatedAt = rsd_UpdatedAt d\<rparr>"

lemma domain_from_document:
  "roomSnapshotDomainFromDocument it d = Inr r \<Longrightarrow> r = room_of d"
  by (auto simp: roomSnapshotDomainFromDocument_def room_of_def Let_def
      split: sum.splits option.splits dest!: add_all_Inr)

definition encRoom :: "roomSnapshotDocument \<Rightarrow> roomSnapshotDocument" where
  "encRoom d = d\<lparr>rsd_UpdatedAt := bsonTime (rsd_UpdatedAt d)\<rparr>"

lemma document_from_domain:
  assumes "range_ok it" "keyed_players (rm_Players r)" "roomSnapshotDocumentFromDomain it r = Inr d"
  shows "same_room (room_of (encRoom d)) r" "rsd_RoomID d = rm_ID r" "rm_StateVersion r \<noteq> 0"
proof -
  have "set (it (rm_Players r)) = dom (rm_Players r)"
    using range_ok_iterates [OF assms(1), of "rm_Players r"] assms(2)
    by (simp add: iterates_def keyed_players_def)
  from by_id_players [OF assms(2) this]
  show "same_room (room_of (encRoom d)) r"
    using assms(3) by (auto simp: roomSnapshotDocumentFromDomain_def room_of_def encRoom_def
        same_room_def comp_def split: option.splits)
  show "rsd_RoomID d = rm_ID r" "rm_StateVersion r \<noteq> 0"
    using assms(3) by (auto simp: roomSnapshotDocumentFromDomain_def Room_Validate_def
        split: option.splits if_splits)
qed

section \<open>The contract\<close>

definition rooms_place :: "('w \<Rightarrow> roomSnapshotDocument list) \<Rightarrow>
    (roomSnapshotDocument, roomSnapshotDocument list, 'w) place" where
  "rooms_place view = \<lparr>pl_view = view, pl_docs = (\<lambda>ds. ds), pl_put = (\<lambda>ds _. ds), pl_enc = encRoom,
     pl_conflict = (\<lambda>a b. rsd_RoomID a = rsd_RoomID b)\<rparr>"

text \<open>The driver behaves as documented and the unique index on \<^verbatim>\<open>room_id\<close> is in force.\<close>

definition rooms_ok ::
    "(roomSnapshotDocument, 'w) Collection \<Rightarrow> (players \<Rightarrow> string list) \<Rightarrow>
     ('w \<Rightarrow> roomSnapshotDocument list) \<Rightarrow> 'w \<Rightarrow> bool" where
  "rooms_ok C it view w \<longleftrightarrow> range_ok it \<and> finds C (rooms_place view) \<and> replaces C (rooms_place view)
     \<and> distinct (map rsd_RoomID (view w))"

definition saved_room :: "('w \<Rightarrow> roomSnapshotDocument list) \<Rightarrow> 'w \<Rightarrow> uint64 \<Rightarrow> Room option" where
  "saved_room view w = index_by rsd_RoomID room_of (view w)"

lemma rooms_save:
  assumes "rooms_ok C it view w" "keyed_players (rm_Players r)"
    and "RoomSnapshotRepository_Save (Some C) it r w = (None, w')"
  shows "rooms_ok C it view w' \<and> rm_StateVersion r \<noteq> 0
    \<and> (\<exists>r'. same_room r' r \<and> saved_room view w' = (saved_room view w)(rm_ID r \<mapsto> r'))"
proof -
  let ?P = "rooms_place view" and ?f = "\<lambda>d. rsd_RoomID d = rm_ID r"
  obtain d where d: "roomSnapshotDocumentFromDomain it r = Inr d"
    and rep: "cl_ReplaceOne C ?f d True w = (None, w')"
    using assms(3) by (auto simp: RoomSnapshotRepository_Save_def split: sum.splits prod.splits option.splits)
  have ok: "range_ok it" "replaces C ?P" and uniq: "distinct (map rsd_RoomID (view w))"
    using assms(1) by (auto simp: rooms_ok_def)
  note fd = document_from_domain [OF ok(1) assms(2) d]
  have id: "rsd_RoomID (encRoom d) = rm_ID r" using fd(2) by (simp add: encRoom_def)
  have "(if \<exists>x \<in> set (view w). ?f x then \<exists>x ds'. swapped ?f x (encRoom d) (view w) ds' \<and> view w' = ds'
      else view w' = view w @ [encRoom d])"
    using ok(2) [unfolded replaces_def, rule_format, OF rep]
    by (simp add: docs_of_def rooms_place_def cong: if_cong)
  then consider (swap) x where "swapped ?f x (encRoom d) (view w) (view w')"
    | (new) "\<forall>x \<in> set (view w). rsd_RoomID x \<noteq> rm_ID r" "view w' = view w @ [encRoom d]"
    by (auto split: if_splits)
  then have "distinct (map rsd_RoomID (view w'))
    \<and> saved_room view w' = (saved_room view w)(rm_ID r \<mapsto> room_of (encRoom d))"
  proof cases
    case swap
    then have "rsd_RoomID (encRoom d) = rsd_RoomID x" using id by (auto simp: swapped_def)
    from index_by_swapped(1) [OF uniq swap this] index_by_swapped(2) [OF uniq swap this, of room_of]
    show ?thesis using swap by (auto simp: saved_room_def swapped_def)
  next
    case new
    then show ?thesis using uniq id index_by_snoc [of "view w" rsd_RoomID "encRoom d" room_of]
      by (auto simp: saved_room_def)
  qed
  then show ?thesis using assms(1) fd(1,3) by (auto simp: rooms_ok_def)
qed

lemma rooms_save_err:
  assumes "rooms_ok C it view w" "RoomSnapshotRepository_Save (Some C) it r w = (Some e, w')"
  shows "rooms_ok C it view w' \<and> saved_room view w' = saved_room view w"
proof -
  have "view w' = view w"
    using assms unfolding rooms_ok_def replaces_def
    by (fastforce simp: RoomSnapshotRepository_Save_def rooms_place_def
        split: sum.splits prod.splits option.splits)
  then show ?thesis using assms(1) by (simp add: rooms_ok_def saved_room_def)
qed

lemma rooms_find:
  assumes "rooms_ok C it view w" "RoomSnapshotRepository_FindByPlayerID (Some C) it p w = (res, w')"
  shows "rooms_ok C it view w' \<and> saved_room view w' = saved_room view w"
    and "res = Inr r \<Longrightarrow> rm_Players r p \<noteq> None \<and> keyed_players (rm_Players r) \<and>
      saved_room view w (rm_ID r) = Some r"
proof -
  let ?P = "rooms_place view"
  have ok: "finds C ?P" and uniq: "distinct (map rsd_RoomID (view w))"
    using assms(1) by (auto simp: rooms_ok_def)
  have fnd: "view w1 = view w \<and> (\<forall>d. x = Inr d \<longrightarrow> d \<in> set (view w) \<and> f d)"
    if "cl_FindOne C f s w = (x, w1)" for f s x w1
    using ok [unfolded finds_def, rule_format, OF that]
    by (auto simp: rooms_place_def docs_of_def split: sum.splits)
  have "view w' = view w"
    using assms(2) fnd by (auto simp: RoomSnapshotRepository_FindByPlayerID_def
        split: if_splits sum.splits prod.splits)
  then show "rooms_ok C it view w' \<and> saved_room view w' = saved_room view w"
    using assms(1) by (simp add: rooms_ok_def saved_room_def)
  assume "res = Inr r"
  then obtain d w1 where f: "cl_FindOne C (has_player p) (Some newer) w = (Inr d, w1)"
    and r: "roomSnapshotDomainFromDocument it d = Inr r"
    using assms(2) by (auto simp: RoomSnapshotRepository_FindByPlayerID_def
        split: if_splits sum.splits prod.splits)
  have d: "d \<in> set (view w)" "has_player p d" using fnd [OF f] by auto
  have room: "r = room_of d" by (rule domain_from_document [OF r])
  have "by_id (map playerOfDoc (rsd_Players d)) p \<noteq> None"
    using d(2) unfolding by_id_def map_of_eq_None_iff has_player_def by force
  moreover have "saved_room view w (rsd_RoomID d) = Some (room_of d)"
    unfolding saved_room_def index_by_Some [OF uniq] using d(1) by blast
  ultimately show "rm_Players r p \<noteq> None \<and> keyed_players (rm_Players r) \<and> saved_room view w (rm_ID r) = Some r"
    by (simp add: room room_of_def)
qed

interpretation mr: room_repo "mongoRooms C it" "saved_room view" "rooms_ok C it view" for C it view
proof (unfold_locales, goal_cases)
  case (1 s r s')
  then show ?case using rooms_save [of C it view s r s'] by (simp add: mongoRooms_def)
next
  case (2 s r e s')
  then show ?case using rooms_save_err [of C it view s r e s'] by (simp add: mongoRooms_def)
next
  case (3 s p res s')
  then show ?case using rooms_find(1) [of C it view s p res s'] by (simp add: mongoRooms_def)
next
  case (4 s p r s')
  then show ?case using rooms_find(2) [of C it view s p "Inr r" s' r] by (auto simp: mongoRooms_def)
qed

end
