(* ===== verification/Battle_Module.thy ===== *)
theory Battle_Module
  imports Battle_Mongo Protocol
begin

text \<open>
  The battle service's messages: the encoding of rooms and deltas
  (\<^verbatim>\<open>src/services/battle/components/restore_codec.go\<close>), the handler of restore requests
  (\<^verbatim>\<open>src/services/battle/module.go\<close>) and the client that submits settlements to the lobby
  (\<^verbatim>\<open>src/services/battle/lobby_settlement_client.go\<close>).
\<close>

section \<open>Encoding\<close>

definition battlePlayerStateProto :: "PlayerState \<Rightarrow> BattlePlayerState" where
  "battlePlayerStateProto p = \<lparr>bp_PlayerId = ps_PlayerID p, bp_Hp = ps_HP p,
     bp_PositionX = ps_PositionX p, bp_PositionY = ps_PositionY p\<rparr>"

definition zeroPlayerState :: PlayerState where
  "zeroPlayerState = \<lparr>ps_PlayerID = '''', ps_HP = 0, ps_PositionX = 0, ps_PositionY = 0\<rparr>"

definition roomSnapshotProto :: "(players \<Rightarrow> string list) \<Rightarrow> Room \<Rightarrow> BattleRoomSnapshot" where
  "roomSnapshotProto it room =
     (let playerIDs = sort (it (rm_Players room))
      in \<lparr>bs_RoomId = rm_ID room, bs_Tick = rm_Tick room, bs_StateVersion = rm_StateVersion room,
          bs_Status = rm_Status room,
          bs_Players = map (\<lambda>k. battlePlayerStateProto
            (case rm_Players room k of None \<Rightarrow> zeroPlayerState | Some p \<Rightarrow> p)) playerIDs,
          bs_UpdatedAtUnixMilli = UnixMilli (rm_UpdatedAt room)\<rparr>)"

definition MarshalRoomSnapshot :: "codec \<Rightarrow> (players \<Rightarrow> string list) \<Rightarrow> Room \<Rightarrow> bytes result" where
  "MarshalRoomSnapshot cd it room = pb_Marshal cd (MBattleRoomSnapshot (roomSnapshotProto it room))"

definition roomDeltaProto :: "RoomDelta \<Rightarrow> BattleRoomDelta" where
  "roomDeltaProto d = \<lparr>bd_RoomId = d_RoomID d, bd_FromStateVersion = d_FromStateVersion d,
     bd_ToStateVersion = d_ToStateVersion d, bd_Tick = d_Tick d, bd_Status = d_Status d,
     bd_UpsertPlayers = map battlePlayerStateProto (d_UpsertPlayers d),
     bd_RemovedPlayerIds = d_RemovedPlayerIDs d\<rparr>"

definition MarshalRoomDelta :: "codec \<Rightarrow> RoomDelta option \<Rightarrow> bytes result" where
  "MarshalRoomDelta cd delta =
     (case delta of None \<Rightarrow> Inl (Sentinel ErrInvalidRoom)
      | Some d \<Rightarrow> pb_Marshal cd (MBattleRoomDelta (roomDeltaProto d)))"

section \<open>Restore requests\<close>

definition StateSchemaVersion :: uint32 where
  "StateSchemaVersion = 1"

definition RESTORE_PLAYER_STATE_RESPONSE :: uint32 where
  "RESTORE_PLAYER_STATE_RESPONSE = 2101"

definition restoreModeProto :: "RestoreMode \<Rightarrow> RestoreModeProto" where
  "restoreModeProto mode = (case mode of RestoreModeDelta \<Rightarrow> RESTORE_MODE_DELTA
     | RestoreModeNoop \<Rightarrow> RESTORE_MODE_NOOP | RestoreModeFull \<Rightarrow> RESTORE_MODE_FULL)"

definition battleStatePayloadType :: "RestoreMode \<Rightarrow> StatePayloadType" where
  "battleStatePayloadType mode = (case mode of RestoreModeDelta \<Rightarrow> STATE_PAYLOAD_TYPE_BATTLE_DELTA
     | RestoreModeNoop \<Rightarrow> STATE_PAYLOAD_TYPE_UNSPECIFIED | RestoreModeFull \<Rightarrow> STATE_PAYLOAD_TYPE_BATTLE_SNAPSHOT)"

definition unavailable :: "string \<Rightarrow> MessageResult" where
  "unavailable playerID = \<lparr>mr_MessageID = RESTORE_PLAYER_STATE_RESPONSE,
     mr_Message = Some (MRestorePlayerStateResponse
       \<lparr>rp_ServiceType = SERVICE_TYPE_BATTLE, rp_PlayerId = playerID, rp_StateVersion = 0, rp_Snapshot = [],
        rp_Available = False, rp_Mode = RESTORE_MODE_FULL, rp_BaseStateVersion = 0,
        rp_PayloadType = STATE_PAYLOAD_TYPE_UNSPECIFIED, rp_SchemaVersion = 0\<rparr>)\<rparr>"

definition restoreResponse :: "string \<Rightarrow> RestoreResult \<Rightarrow> bytes \<Rightarrow> RestorePlayerStateResponse" where
  "restoreResponse playerID res payload =
     \<lparr>rp_ServiceType = SERVICE_TYPE_BATTLE, rp_PlayerId = playerID,
      rp_StateVersion = rm_StateVersion (res_Room res), rp_Snapshot = payload, rp_Available = True,
      rp_Mode = restoreModeProto (res_Mode res), rp_BaseStateVersion = res_BaseStateVersion res,
      rp_PayloadType = battleStatePayloadType (res_Mode res), rp_SchemaVersion = StateSchemaVersion\<rparr>"

definition restorePayload :: "codec \<Rightarrow> (players \<Rightarrow> string list) \<Rightarrow> RestoreResult \<Rightarrow> bytes result" where
  "restorePayload cd it res =
     (case res_Mode res of
        RestoreModeDelta \<Rightarrow> MarshalRoomDelta cd (res_Delta res)
      | RestoreModeNoop \<Rightarrow> Inr []
      | RestoreModeFull \<Rightarrow> MarshalRoomSnapshot cd it (res_Room res))"

text \<open>The rooms are \<open>None\<close> when the module could not be initialised.\<close>

definition restorePlayerState ::
    "codec \<Rightarrow> 'st RoomSnapshotRepository option \<Rightarrow> ((uint64 \<rightharpoonup> Room) \<Rightarrow> uint64 list) \<Rightarrow> (players \<Rightarrow> string list) \<Rightarrow>
     ((string \<rightharpoonup> unit) \<Rightarrow> string list) \<Rightarrow> 'st RoomManager option MessageHandler" where
  "restorePlayerState cd R itm it itr envelope rooms =
     (case pb_RestorePlayerStateRequest cd (en_Payload envelope) of
        Inl e \<Rightarrow> (Inl e, rooms)
      | Inr request \<Rightarrow>
          if rq_PlayerId request = '''' then (Inl (NewError ''player_id is required''), rooms)
          else (case rooms of
             None \<Rightarrow> (Inr (Some (unavailable (rq_PlayerId request))), None)
           | Some m \<Rightarrow>
               (case RestoreByPlayerIDSince R itm it itr (rq_PlayerId request) (rq_LastStateVersion request)
                       (rq_AllowIncremental request) m of
                  (Inl e, m') \<Rightarrow>
                    (if errors_is e ErrRoomNotFound \<or> errors_is e ErrPlayerNotInRoom
                     then Inr (Some (unavailable (rq_PlayerId request))) else Inl e, Some m')
                | (Inr res, m') \<Rightarrow>
                    (case restorePayload cd it res of
                       Inl e \<Rightarrow> (Inl e, Some m')
                     | Inr payload \<Rightarrow>
                         (Inr (Some \<lparr>mr_MessageID = RESTORE_PLAYER_STATE_RESPONSE,
                            mr_Message = Some (MRestorePlayerStateResponse
                              (restoreResponse (rq_PlayerId request) res payload))\<rparr>), Some m')))))"

section \<open>Settlements\<close>

record BattleSettlement =
  bt_ID :: string
  bt_PlayerID :: string
  bt_AssetType :: string
  bt_Delta :: int
  bt_Reason :: string

record SettlementResult =
  sr_Balance :: int
  sr_AssetVersion :: uint64
  sr_Replayed :: bool

definition LOBBY_MESSAGE_ID_SETTLEMENT_REQUEST :: uint32 where
  "LOBBY_MESSAGE_ID_SETTLEMENT_REQUEST = 3002"

text \<open>\<open>client w\<close> is \<^verbatim>\<open>c.client()\<close>: the \<^verbatim>\<open>Request\<close> method of the stream client that is connected, if any.\<close>

definition settlementRequest :: "BattleSettlement \<Rightarrow> SettlementRequest" where
  "settlementRequest s = \<lparr>sq_SettlementId = bt_ID s, sq_PlayerId = bt_PlayerID s, sq_AssetType = bt_AssetType s,
     sq_Delta = bt_Delta s, sq_Reason = bt_Reason s, sq_Source = ''battle''\<rparr>"

definition Submit ::
    "codec \<Rightarrow> ('w \<Rightarrow> 'w requester option) option \<Rightarrow> BattleSettlement \<Rightarrow> 'w \<Rightarrow> SettlementResult result \<times> 'w" where
  "Submit cd client s w =
     (if client = None \<or> bt_ID s = '''' \<or> bt_PlayerID s = '''' \<or> bt_AssetType s = '''' \<or> bt_Delta s = 0
         \<or> bt_Reason s = ''''
      then (Inl (NewError ''invalid battle settlement''), w)
      else (case the client w of
         None \<Rightarrow> (Inl (NewError ''lobby service is unavailable''), w)
       | Some request \<Rightarrow>
           (case pb_Marshal cd (MSettlementRequest (settlementRequest s)) of
              Inl e \<Rightarrow> (Inl e, w)
            | Inr payload \<Rightarrow>
                (case request (emptyEnvelope\<lparr>en_TargetService := SERVICE_TYPE_LOBBY,
                         en_MessageId := LOBBY_MESSAGE_ID_SETTLEMENT_REQUEST, en_PlayerId := bt_PlayerID s,
                         en_Payload := payload\<rparr>) w of
                   (Inl e, w') \<Rightarrow> (Inl (Wrapf ''submit lobby settlement: '' e), w')
                 | (Inr response, w') \<Rightarrow>
                     if en_Kind response = ENVELOPE_KIND_ERROR then
                       (Inl (NewError (''lobby settlement error '' @ show_nat (unat (en_ErrorCode response))
                          @ '': '' @ en_ErrorMessage response)), w')
                     else (case pb_SettlementResponse cd (en_Payload response) of
                        Inl e \<Rightarrow> (Inl e, w')
                      | Inr r \<Rightarrow> (Inr \<lparr>sr_Balance = sp_Balance r, sr_AssetVersion = sp_AssetVersion r,
                                     sr_Replayed = sp_Replayed r\<rparr>, w'))))))"

section \<open>The encoding loses nothing\<close>

text \<open>What a client makes of the messages it receives.\<close>

definition playerOfProto :: "BattlePlayerState \<Rightarrow> PlayerState" where
  "playerOfProto p = \<lparr>ps_PlayerID = bp_PlayerId p, ps_HP = bp_Hp p, ps_PositionX = bp_PositionX p,
     ps_PositionY = bp_PositionY p\<rparr>"

definition snapshotPlayers :: "BattleRoomSnapshot \<Rightarrow> players" where
  "snapshotPlayers s = by_id (map playerOfProto (bs_Players s))"

definition deltaOfProto :: "BattleRoomDelta \<Rightarrow> RoomDelta" where
  "deltaOfProto d = \<lparr>d_RoomID = bd_RoomId d, d_FromStateVersion = bd_FromStateVersion d,
     d_ToStateVersion = bd_ToStateVersion d, d_Tick = bd_Tick d, d_Status = bd_Status d,
     d_UpsertPlayers = map playerOfProto (bd_UpsertPlayers d), d_RemovedPlayerIDs = bd_RemovedPlayerIds d\<rparr>"

lemma playerOfProto_inverse [simp]: "playerOfProto (battlePlayerStateProto p) = p"
  by (simp add: playerOfProto_def battlePlayerStateProto_def)

lemma deltaOfProto_inverse [simp]: "deltaOfProto (roomDeltaProto d) = d"
  by (simp add: deltaOfProto_def roomDeltaProto_def comp_def)

lemma map_filter_total:
  "set ks \<subseteq> dom m \<Longrightarrow> List.map_filter m ks = map (\<lambda>k. case m k of None \<Rightarrow> z | Some p \<Rightarrow> p) ks"
  by (induction ks) (auto simp: List.map_filter_simps)

lemma snapshotPlayers_proto:
  assumes "range_ok it" "keyed_players (rm_Players room)"
  shows "snapshotPlayers (roomSnapshotProto it room) = rm_Players room"
proof -
  let ?ks = "sort (it (rm_Players room))"
  have ks: "set ?ks = dom (rm_Players room)"
    using range_ok_iterates [OF assms(1), of "rm_Players room"] assms(2)
    by (simp add: iterates_def keyed_players_def)
  have "map playerOfProto (bs_Players (roomSnapshotProto it room)) = List.map_filter (rm_Players room) ?ks"
    using map_filter_total [of ?ks "rm_Players room" zeroPlayerState] ks
    by (simp add: roomSnapshotProto_def Let_def comp_def)
  then show ?thesis by (simp add: snapshotPlayers_def by_id_players [OF assms(2) ks])
qed

lemma roomSnapshotProto_order:
  assumes "range_ok it" "range_ok it'" "finite (dom (rm_Players room))"
  shows "roomSnapshotProto it room = roomSnapshotProto it' room"
proof -
  have "sort (it (rm_Players room)) = sort (it' (rm_Players room))"
    using range_ok_iterates [OF assms(1,3)] range_ok_iterates [OF assms(2,3)]
    by (metis iterates_def sorted_distinct_set_unique sorted_sort distinct_sort set_sort)
  then show ?thesis by (simp add: roomSnapshotProto_def)
qed

end
