(* ===== verification/Mongo_Memory.thy ===== *)
theory Mongo_Memory
  imports Mongo
begin

text \<open>
  A driver that keeps a collection in memory and does what the documentation says.  It shows that the
  hypotheses on the driver can hold together, and the witnesses run on it.
\<close>

section \<open>Operations on a list of documents\<close>

fun replace_first :: "('d \<Rightarrow> bool) \<Rightarrow> 'd \<Rightarrow> 'd list \<Rightarrow> 'd list" where
  "replace_first f y [] = []"
| "replace_first f y (x # xs) = (if f x then y # xs else x # replace_first f y xs)"

fun remove_first :: "('d \<Rightarrow> bool) \<Rightarrow> 'd list \<Rightarrow> 'd list" where
  "remove_first f [] = []"
| "remove_first f (x # xs) = (if f x then xs else x # remove_first f xs)"

lemma swapped_Cons: "swapped f x y ds ds' \<Longrightarrow> swapped f x y (d # ds) (d # ds')"
  unfolding swapped_def by (metis append_Cons)

lemma replace_first_swapped:
  "find f ds = Some x \<Longrightarrow> swapped f x y ds (replace_first f y ds)"
proof (induction ds)
  case (Cons d ds)
  show ?case
  proof (cases "f d")
    case True
    then have "x = d" using Cons.prems by simp
    then show ?thesis using True by (auto simp: swapped_def intro: exI [of _ "[]"])
  next
    case False
    then show ?thesis using Cons swapped_Cons by fastforce
  qed
qed simp

lemma remove_first_removed:
  "\<exists>x \<in> set ds. f x \<Longrightarrow> removed f ds (remove_first f ds)"
proof (induction ds)
  case (Cons d ds)
  show ?case
  proof (cases "f d")
    case True
    then have "d # ds = [] @ d # ds \<and> remove_first f (d # ds) = [] @ ds \<and> f d" by simp
    then show ?thesis unfolding removed_def by blast
  next
    case False
    then have "removed f ds (remove_first f ds)" using Cons by auto
    then obtain as x bs where "ds = as @ x # bs" "remove_first f ds = as @ bs" "f x"
      unfolding removed_def by blast
    then have "d # ds = (d # as) @ x # bs \<and> remove_first f (d # ds) = (d # as) @ bs \<and> f x"
      using False by simp
    then show ?thesis unfolding removed_def by blast
  qed
qed simp

section \<open>The driver\<close>

text \<open>The world is the database itself; \<open>P\<close> says where the collection is in it.\<close>

definition best :: "('d \<Rightarrow> bool) \<Rightarrow> ('d \<Rightarrow> 'd \<Rightarrow> bool) option \<Rightarrow> 'd list \<Rightarrow> 'd option" where
  "best f s ds = find (\<lambda>d. f d \<and> (case s of None \<Rightarrow> True | Some first \<Rightarrow>
     \<not> list_ex (\<lambda>x. f x \<and> first x d) ds)) ds"

definition memoryCollection :: "('d, 'db, 'db) place \<Rightarrow> ('d, 'db) Collection" where
  "memoryCollection P =
     \<lparr>cl_CreateMany = (\<lambda>db. (None, db)),
      cl_InsertOne = (\<lambda>d db.
        if list_ex (pl_conflict P (pl_enc P d)) (pl_docs P db) then (Some (Sentinel ErrDuplicateKey), db)
        else (None, pl_put P (pl_docs P db @ [pl_enc P d]) db)),
      cl_FindOne = (\<lambda>f s db.
        (case best f s (pl_docs P db) of Some d \<Rightarrow> Inr d
         | None \<Rightarrow> Inl (if list_ex f (pl_docs P db) then NewError ''cannot sort'' else Sentinel ErrNoDocuments), db)),
      cl_ReplaceOne = (\<lambda>f d up db.
        (None, if list_ex f (pl_docs P db) then pl_put P (replace_first f (pl_enc P d) (pl_docs P db)) db
               else if up then pl_put P (pl_docs P db @ [pl_enc P d]) db else db)),
      cl_FindOneAndUpdate = (\<lambda>f u db.
        (case find f (pl_docs P db) of None \<Rightarrow> (Inl (Sentinel ErrNoDocuments), db)
         | Some x \<Rightarrow> (case u x of None \<Rightarrow> (Inl (NewError ''update refused''), db)
             | Some y \<Rightarrow> (Inr (pl_enc P y), pl_put P (replace_first f (pl_enc P y) (pl_docs P db)) db)))),
      cl_UpdateOne = (\<lambda>f u db.
        (case find f (pl_docs P db) of None \<Rightarrow> (Inr 0, db)
         | Some x \<Rightarrow> (case u x of None \<Rightarrow> (Inl (NewError ''update refused''), db)
             | Some y \<Rightarrow> (Inr 1, pl_put P (replace_first f (pl_enc P y) (pl_docs P db)) db)))),
      cl_DeleteOne = (\<lambda>f db. if list_ex f (pl_docs P db)
        then (Inr 1, pl_put P (remove_first f (pl_docs P db)) db) else (Inr 0, db)),
      cl_DeleteMany = (\<lambda>f db. (Inr (length (filter f (pl_docs P db))),
        pl_put P (filter (\<lambda>x. \<not> f x) (pl_docs P db)) db))\<rparr>"

definition memoryTx :: "'w action \<Rightarrow> 'w action" where
  "memoryTx f w = (case f w of (None, w') \<Rightarrow> (None, w') | (Some e, _) \<Rightarrow> (Some e, w))"

lemmas memory_ops = memoryCollection_def best_def memoryTx_def

section \<open>It keeps the contract\<close>

lemma find_ex: "(\<exists>x \<in> set ds. f x) \<longleftrightarrow> find f ds \<noteq> None"
  by (auto simp: find_None_iff)

lemma find_SomeD: "find f ds = Some x \<Longrightarrow> x \<in> set ds \<and> f x"
  by (auto simp: find_Some_iff)

lemma memory_inserts: "pl_view P = (\<lambda>w. w) \<Longrightarrow> inserts (memoryCollection P) P"
  by (auto simp: inserts_def memoryCollection_def docs_of_def IsDuplicateKeyError_def list_ex_iff split: option.splits if_splits)

lemma memory_finds: "pl_view P = (\<lambda>w. w) \<Longrightarrow> finds (memoryCollection P) P"
  unfolding finds_def
  by (auto simp: memoryCollection_def docs_of_def best_def list_ex_iff
      split: option.splits if_splits dest!: find_SomeD)

lemma memory_replaces: "pl_view P = (\<lambda>w. w) \<Longrightarrow> replaces (memoryCollection P) P"
  unfolding replaces_def
proof (intro allI impI)
  fix f d up w e w'
  assume v: "pl_view P = (\<lambda>w. w)" and r: "cl_ReplaceOne (memoryCollection P) f d up w = (e, w')"
  have "\<exists>x ds'. swapped f x (pl_enc P d) (pl_docs P w) ds' \<and> w' = pl_put P ds' w" if "\<exists>x \<in> set (pl_docs P w). f x"
    using that r replace_first_swapped [of f "pl_docs P w"]
    by (auto simp: find_ex memoryCollection_def list_ex_iff)
  then show "case e of
        None \<Rightarrow>
          (if \<exists>x \<in> set (docs_of P w). f x
           then \<exists>x ds'. swapped f x (pl_enc P d) (docs_of P w) ds' \<and> pl_view P w' = pl_put P ds' (pl_view P w)
           else if up then pl_view P w' = pl_put P (docs_of P w @ [pl_enc P d]) (pl_view P w)
           else pl_view P w' = pl_view P w)
      | Some er \<Rightarrow> pl_view P w' = pl_view P w \<and> foreign er"
    using r v by (auto simp: memoryCollection_def docs_of_def list_ex_iff)
qed

lemma memory_modifies: "pl_view P = (\<lambda>w. w) \<Longrightarrow> modifies (memoryCollection P) P"
  unfolding modifies_def
  by (auto simp: memoryCollection_def docs_of_def find_ex find_None_iff
      split: option.splits if_splits dest: find_SomeD intro: replace_first_swapped)

lemma memory_deletes: "pl_view P = (\<lambda>w. w) \<Longrightarrow> deletes (memoryCollection P) P"
  unfolding deletes_def
  by (auto simp: memoryCollection_def docs_of_def list_ex_iff split: if_splits
      intro: remove_first_removed)

lemma memory_transacts: "transacts memoryTx (\<lambda>w. w)"
  by (auto simp: transacts_def memoryTx_def split: option.splits prod.splits)

lemmas memory_driver = memory_inserts memory_finds memory_replaces memory_modifies memory_deletes memory_transacts

end
