(* ===== verification/Codec_Table.thy ===== *)
theory Codec_Table
  imports Protocol
begin

text \<open>
  A codec for a finite table of messages: the bytes of a message are its position in unary, and messages
  outside the table do not marshal.  It meets \<open>decodes\<close> for every message type, which shows that the hypotheses
  on the codec can hold, and the witnesses run on it.
\<close>

fun position :: "'a \<Rightarrow> 'a list \<Rightarrow> nat option" where
  "position m [] = None"
| "position m (x # xs) = (if m = x then Some 0 else map_option Suc (position m xs))"

lemma position_nth: "position m xs = Some k \<Longrightarrow> k < length xs \<and> xs ! k = m"
  by (induction xs arbitrary: k) (auto split: if_splits)

definition entry :: "Message list \<Rightarrow> bytes \<Rightarrow> Message option" where
  "entry ms bs = (if bs \<noteq> [] \<and> length bs \<le> length ms then Some (ms ! (length bs - 1)) else None)"

definition decode_as :: "(Message \<Rightarrow> 'm option) \<Rightarrow> Message list \<Rightarrow> bytes \<Rightarrow> 'm result" where
  "decode_as proj ms bs = (case Option.bind (entry ms bs) proj of
     None \<Rightarrow> Inl (NewError ''proto: cannot parse invalid wire-format data'') | Some m \<Rightarrow> Inr m)"

definition tableCodec :: "Message list \<Rightarrow> codec" where
  "tableCodec ms =
    \<lparr>pb_Marshal = (\<lambda>m. case position m ms of None \<Rightarrow> Inl (NewError ''proto: not in table'') | Some k \<Rightarrow> Inr (replicate (Suc k) 0)),
     pb_Hello = decode_as (\<lambda>m. case m of MHello x \<Rightarrow> Some x | _ \<Rightarrow> None) ms,
     pb_ServiceStatusRequest = decode_as (\<lambda>m. case m of MServiceStatusRequest \<Rightarrow> Some () | _ \<Rightarrow> None) ms,
     pb_RestorePlayerStateRequest = decode_as (\<lambda>m. case m of MRestorePlayerStateRequest x \<Rightarrow> Some x | _ \<Rightarrow> None) ms,
     pb_RestorePlayerStateResponse = decode_as (\<lambda>m. case m of MRestorePlayerStateResponse x \<Rightarrow> Some x | _ \<Rightarrow> None) ms,
     pb_EnsurePlayerRequest = decode_as (\<lambda>m. case m of MEnsurePlayerRequest x \<Rightarrow> Some x | _ \<Rightarrow> None) ms,
     pb_EnsurePlayerResponse = decode_as (\<lambda>m. case m of MEnsurePlayerResponse x \<Rightarrow> Some x | _ \<Rightarrow> None) ms,
     pb_SettlementRequest = decode_as (\<lambda>m. case m of MSettlementRequest x \<Rightarrow> Some x | _ \<Rightarrow> None) ms,
     pb_SettlementResponse = decode_as (\<lambda>m. case m of MSettlementResponse x \<Rightarrow> Some x | _ \<Rightarrow> None) ms,
     pb_LinkPlayerRequest = decode_as (\<lambda>m. case m of MLinkPlayerRequest x \<Rightarrow> Some x | _ \<Rightarrow> None) ms,
     pb_GuestAuthenticateRequest = decode_as (\<lambda>m. case m of MGuestAuthenticateRequest x \<Rightarrow> Some x | _ \<Rightarrow> None) ms,
     pb_GuestAuthenticateResponse = decode_as (\<lambda>m. case m of MGuestAuthenticateResponse x \<Rightarrow> Some x | _ \<Rightarrow> None) ms,
     pb_RefreshAuthenticateRequest = decode_as (\<lambda>m. case m of MRefreshAuthenticateRequest x \<Rightarrow> Some x | _ \<Rightarrow> None) ms,
     pb_RefreshAuthenticateResponse = decode_as (\<lambda>m. case m of MRefreshAuthenticateResponse x \<Rightarrow> Some x | _ \<Rightarrow> None) ms,
     pb_PasswordAuthenticateRequest = decode_as (\<lambda>m. case m of MPasswordAuthenticateRequest x \<Rightarrow> Some x | _ \<Rightarrow> None) ms,
     pb_PasswordAuthenticateResponse = decode_as (\<lambda>m. case m of MPasswordAuthenticateResponse x \<Rightarrow> Some x | _ \<Rightarrow> None) ms,
     pb_RevokeRefreshTokenRequest = decode_as (\<lambda>m. case m of MRevokeRefreshTokenRequest x \<Rightarrow> Some x | _ \<Rightarrow> None) ms,
     pb_RevokeRefreshTokenResponse = decode_as (\<lambda>m. case m of MRevokeRefreshTokenResponse \<Rightarrow> Some () | _ \<Rightarrow> None) ms,
     pb_ClientLoginAuthenticateRequest = decode_as (\<lambda>m. case m of MClientLoginAuthenticateRequest x \<Rightarrow> Some x | _ \<Rightarrow> None) ms,
     pb_ClientLoginAuthenticateResponse = decode_as (\<lambda>m. case m of MClientLoginAuthenticateResponse x \<Rightarrow> Some x | _ \<Rightarrow> None) ms,
     pb_ClientRefreshAuthenticateRequest = decode_as (\<lambda>m. case m of MClientRefreshAuthenticateRequest x \<Rightarrow> Some x | _ \<Rightarrow> None) ms,
     pb_ClientRefreshAuthenticateResponse = decode_as (\<lambda>m. case m of MClientRefreshAuthenticateResponse x \<Rightarrow> Some x | _ \<Rightarrow> None) ms,
     pb_LoginRequest = decode_as (\<lambda>m. case m of MLoginRequest x \<Rightarrow> Some x | _ \<Rightarrow> None) ms,
     pb_RefreshLoginRequest = decode_as (\<lambda>m. case m of MRefreshLoginRequest x \<Rightarrow> Some x | _ \<Rightarrow> None) ms,
     pb_BattleRoomSnapshot = decode_as (\<lambda>m. case m of MBattleRoomSnapshot x \<Rightarrow> Some x | _ \<Rightarrow> None) ms,
     pb_BattleRoomDelta = decode_as (\<lambda>m. case m of MBattleRoomDelta x \<Rightarrow> Some x | _ \<Rightarrow> None) ms,
     pb_LobbyStateSnapshot = decode_as (\<lambda>m. case m of MLobbyStateSnapshot x \<Rightarrow> Some x | _ \<Rightarrow> None) ms\<rparr>"

lemma decode_as_decodes:
  assumes "\<And>x. proj (con x) = Some x"
  shows "decodes (tableCodec ms) (decode_as proj ms) con"
  unfolding decodes_def
proof (intro allI impI)
  fix m bs
  assume "pb_Marshal (tableCodec ms) (con m) = Inr bs"
  then obtain k where "position (con m) ms = Some k" "bs = replicate (Suc k) 0"
    by (auto simp: tableCodec_def split: option.splits)
  with position_nth [of "con m" ms k] have "entry ms bs = Some (con m)" by (auto simp: entry_def)
  then show "decode_as proj ms bs = Inr m" by (simp add: decode_as_def assms)
qed

lemma table_decodes:
  "decodes (tableCodec ms) (pb_RestorePlayerStateRequest (tableCodec ms)) MRestorePlayerStateRequest"
  "decodes (tableCodec ms) (pb_RestorePlayerStateResponse (tableCodec ms)) MRestorePlayerStateResponse"
  "decodes (tableCodec ms) (pb_SettlementRequest (tableCodec ms)) MSettlementRequest"
  "decodes (tableCodec ms) (pb_SettlementResponse (tableCodec ms)) MSettlementResponse"
  "decodes (tableCodec ms) (pb_EnsurePlayerRequest (tableCodec ms)) MEnsurePlayerRequest"
  "decodes (tableCodec ms) (pb_EnsurePlayerResponse (tableCodec ms)) MEnsurePlayerResponse"
  "decodes (tableCodec ms) (pb_BattleRoomSnapshot (tableCodec ms)) MBattleRoomSnapshot"
  "decodes (tableCodec ms) (pb_BattleRoomDelta (tableCodec ms)) MBattleRoomDelta"
  "decodes (tableCodec ms) (pb_LobbyStateSnapshot (tableCodec ms)) MLobbyStateSnapshot"
  by (simp_all add: tableCodec_def decode_as_decodes [unfolded tableCodec_def])

end
