(* ===== verification/Battle_Props.thy ===== *)
theory Battle_Props
  imports Battle_Module Mongo_Memory Codec_Table
begin

text \<open>
  The properties of the battle service over its Mongo repository: what a reconnecting client receives,
  what a mutation leaves behind, and the round trip of rooms through their documents.
\<close>

section \<open>Runs of a new manager\<close>

definition battle_start :: "'st \<Rightarrow> 'st battle_sys" where
  "battle_start w = \<lparr>b_m = NewRoomManager w, b_hist = (\<lambda>_. [])\<rparr>"

definition battle_run ::
    "(roomSnapshotDocument, 'w) Collection \<Rightarrow> (players \<Rightarrow> string list) \<Rightarrow> ((uint64 \<rightharpoonup> Room) \<Rightarrow> uint64 list) \<Rightarrow> 'w \<Rightarrow>
     'w battle_sys \<Rightarrow> bool" where
  "battle_run C it itm w b \<longleftrightarrow> (battle_step (mongoRooms C it) it itm)\<^sup>*\<^sup>* (battle_start w) b"

lemma battle_start_inv: "invar w \<Longrightarrow> battle_inv lookup invar it (battle_start w)"
  by (simp add: battle_inv_def battle_start_def NewRoomManager_def room_inv_def deltas_at_def)

lemma battle_run_invariant:
  assumes "battle_run C it itm w b" "rooms_ok C it view w" "range_ok itm"
  shows "battle_inv (saved_room view) (rooms_ok C it view) it b"
  using mr.battle_run_inv [OF assms(1) [unfolded battle_run_def] battle_start_inv assms(3)] assms(2) .

lemma restore_deltaSize:
  "RestoreByPlayerID R itm p m = (res, m') \<Longrightarrow> mg_deltaSize m' = mg_deltaSize m"
  by (auto simp: RestoreByPlayerID_def restore_install_def split: if_splits option.splits prod.splits sum.splits)

lemma saveLocked_deltaSize: "saveLocked R r m = (e, m') \<Longrightarrow> mg_deltaSize m' = mg_deltaSize m"
  by (auto simp: saveLocked_def split: option.splits prod.splits)

lemma create_deltaSize: "RoomManager_Create R it room m = (e, m') \<Longrightarrow> mg_deltaSize m' = mg_deltaSize m"
  by (auto simp: RoomManager_Create_def split: option.splits prod.splits if_splits dest: saveLocked_deltaSize)

lemma mutate_deltaSize: "Mutate R it now i f m = (e, m') \<Longrightarrow> mg_deltaSize m' = mg_deltaSize m"
  by (auto simp: Mutate_def Let_def recordDeltaLocked_def split: option.splits prod.splits if_splits sum.splits
      dest: saveLocked_deltaSize)

lemma battle_run_deltaSize:
  assumes "battle_run C it itm w b"
  shows "mg_deltaSize (b_m b) = 1024"
  using assms unfolding battle_run_def
proof (induction rule: rtranclp_induct)
  case base
  then show ?case by (simp add: battle_start_def NewRoomManager_def)
next
  case (step b b')
  from step.hyps(2) have "mg_deltaSize (b_m b') = mg_deltaSize (b_m b)"
    by cases (auto dest: create_deltaSize mutate_deltaSize restore_deltaSize)
  then show ?case using step.IH by simp
qed

lemma restore_step:
  assumes "battle_run C it itm w b" "RestoreByPlayerID (Some (mongoRooms C it)) itm p (b_m b) = (res, m')"
  shows "battle_run C it itm w (b\<lparr>b_m := m', b_hist := (\<lambda>i. if mg_rooms (b_m b) i = None
       then (case mg_rooms m' i of None \<Rightarrow> [] | Some r \<Rightarrow> [r]) else b_hist b i)\<rparr>)"
  using assms(1) b_restore [OF assms(2)] unfolding battle_run_def by (rule rtranclp.rtrancl_into_rtrancl)

lemma inv_room:
  assumes "battle_inv L I it b" "mg_rooms (b_m b) i = Some r"
  shows "rm_ID r = i" "keyed_players (rm_Players r)" "b_hist b i \<noteq> []" "last (b_hist b i) = r"
    "\<exists>r0. L (mg_snapshots (b_m b)) i = Some r0 \<and> same_room r0 r"
proof -
  have ri: "room_inv it (mg_deltaSize (b_m b)) i (L (mg_snapshots (b_m b)) i) (Some r) (deltas_at (b_m b) i) (b_hist b i)"
    using assms unfolding battle_inv_def by metis
  then show "rm_ID r = i" "b_hist b i \<noteq> []" "last (b_hist b i) = r"
    "\<exists>r0. L (mg_snapshots (b_m b)) i = Some r0 \<and> same_room r0 r"
    by (auto simp: room_inv_def)
  from ri obtain k where "k < length (b_hist b i)" "chain it (drop k (b_hist b i)) (deltas_at (b_m b) i)"
    and l: "last (b_hist b i) = r" by (auto simp: room_inv_def)
  then show "keyed_players (rm_Players r)" using chain_last_keyed by fastforce
qed

lemma inv_no_room:
  assumes "battle_inv L I it b" "mg_rooms (b_m b) i = None"
  shows "deltas_at (b_m b) i = []"
proof -
  have "room_inv it (mg_deltaSize (b_m b)) i (L (mg_snapshots (b_m b)) i) None (deltas_at (b_m b) i) (b_hist b i)"
    using assms unfolding battle_inv_def by metis
  then show ?thesis by (simp add: room_inv_def)
qed

lemma restore_keeps_deltas:
  "RestoreByPlayerID R itm p m = (res, m') \<Longrightarrow> deltas_at m' = deltas_at m"
  by (auto simp: RestoreByPlayerID_def restore_install_def deltas_at_def fun_eq_iff
      split: if_splits option.splits prod.splits sum.splits)

lemma compose_nil: "snd (composeDeltas it itr i [] v v') = False"
  by (simp add: composeDeltas_def)

section \<open>Reconnecting\<close>

text \<open>What a restore answers, over the history of the room since it was created or loaded.\<close>

lemma restore_since_history:
  assumes ok: "rooms_ok C it view w" and rng: "range_ok itm" "range_ok itr" and run: "battle_run C it itm w b"
    and res: "RestoreByPlayerIDSince (Some (mongoRooms C it)) itm it itr p v incr (b_m b) = (Inr res, m')"
    and i: "i = rm_ID (res_Room res)"
    and h: "h = (if mg_rooms (b_m b) i = None then [res_Room res] else b_hist b i)"
    and j: "j < length h" "rm_StateVersion (h ! j) = v"
  shows "mg_rooms m' i = Some (res_Room res) \<and> rm_Players (res_Room res) p \<noteq> None \<and> last h = res_Room res \<and>
    (if j = length h - 1 then res_Mode res = RestoreModeNoop
     else if incr \<and> length h - 1 - j \<le> 1024 then
       res_Mode res = RestoreModeDelta \<and> (\<exists>d. res_Delta res = Some d
         \<and> d_FromStateVersion d = v \<and> d_ToStateVersion d = rm_StateVersion (res_Room res)
         \<and> d_Tick d = rm_Tick (res_Room res) \<and> d_Status d = rm_Status (res_Room res)
         \<and> (\<forall>c. players_equiv c (rm_Players (h ! j)) \<longrightarrow>
              players_equiv (apply_delta d c) (rm_Players (res_Room res))))
     else res_Mode res = RestoreModeFull)"
proof -
  have it: "range_ok it" using ok by (simp add: rooms_ok_def)
  have r: "RestoreByPlayerID (Some (mongoRooms C it)) itm p (b_m b) = (Inr (res_Room res), m')"
    using res by (cases rule: restore_since_cases)
  note inv = battle_run_invariant [OF run ok rng(1)]
  define b' where "b' = b\<lparr>b_m := m', b_hist := (\<lambda>i. if mg_rooms (b_m b) i = None
       then (case mg_rooms m' i of None \<Rightarrow> [] | Some r \<Rightarrow> [r]) else b_hist b i)\<rparr>"
  have run': "battle_run C it itm w b'" unfolding b'_def by (rule restore_step [OF run r])
  note inv' = battle_run_invariant [OF run' ok rng(1)]
  have mem: "mg_rooms m' i = Some (res_Room res)"
    using mr.restored_in_memory [OF inv r] i by simp
  have h': "h = b_hist b' i" using h mem by (simp add: b'_def)
  have size: "mg_deltaSize m' = 1024" using battle_run_deltaSize [OF run'] by (simp add: b'_def)
  have m': "b_m b' = m'" by (simp add: b'_def)
  from mem mr.restore_since_correct [OF inv it rng(2,1) res inv' m' h' [unfolded i] j, unfolded size]
  show ?thesis by (rule conjI)
qed

lemma restorePlayerState_available:
  assumes "pb_RestorePlayerStateRequest cd (en_Payload envelope) = Inr q"
    and "restorePlayerState cd R itm it itr envelope (Some m) = (Inr (Some r), Some m')"
    and "mr_Message r = Some (MRestorePlayerStateResponse resp)" "rp_Available resp"
  obtains res payload where
    "RestoreByPlayerIDSince R itm it itr (rq_PlayerId q) (rq_LastStateVersion q) (rq_AllowIncremental q) m = (Inr res, m')"
    "restorePayload cd it res = Inr payload" "resp = restoreResponse (rq_PlayerId q) res payload"
  using assms
  by (auto simp: restorePlayerState_def unavailable_def split: sum.splits prod.splits if_splits)

lemma restore_response_history:
  assumes ok: "rooms_ok C it view w" "range_ok itm" "range_ok itr" and run: "battle_run C it itm w b"
    and res: "RestoreByPlayerIDSince (Some (mongoRooms C it)) itm it itr p v incr (b_m b) = (Inr res, m')"
    and delta: "res_Mode res = RestoreModeDelta"
  obtains d where "res_Delta res = Some d" "d_FromStateVersion d = v"
    "d_ToStateVersion d = rm_StateVersion (res_Room res)" "res_BaseStateVersion res = v"
    "\<And>old. old \<in> set (b_hist b (rm_ID (res_Room res))) \<Longrightarrow> rm_StateVersion old = v \<Longrightarrow>
      players_equiv (apply_delta d (rm_Players old)) (rm_Players (res_Room res))"
  using res
proof (cases rule: restore_since_cases)
  case (delta d)
  let ?i = "rm_ID (res_Room res)"
  note inv = battle_run_invariant [OF run ok(1,2)]
  have "deltas_at m' ?i \<noteq> []" using delta(6) compose_nil by (metis snd_conv)
  then have mem: "mg_rooms (b_m b) ?i \<noteq> None"
    using inv_no_room [OF inv] restore_keeps_deltas [OF delta(1)] by metis
  have "players_equiv (apply_delta d (rm_Players old)) (rm_Players (res_Room res))"
    if "old \<in> set (b_hist b ?i)" "rm_StateVersion old = v" for old
  proof -
    from that obtain j where "j < length (b_hist b ?i)" "b_hist b ?i ! j = old" by (auto simp: in_set_conv_nth)
    with restore_since_history [OF ok run res refl refl, of j] that(2) mem delta(2,5)
    show ?thesis by (auto split: if_splits)
  qed
  moreover have "d_FromStateVersion d = v" "d_ToStateVersion d = rm_StateVersion (res_Room res)"
    using delta(6) by (auto simp: composeDeltas_def Let_def split: if_splits)
  moreover have "res_BaseStateVersion res = v"
    using res delta(2) by (auto simp: RestoreByPlayerIDSince_def Let_def split: if_splits prod.splits sum.splits)
  ultimately show thesis using that delta(5) by blast
qed (use delta in auto)

text \<open>
  What a reconnecting client receives is the room.  In every run of a new manager over the Mongo
  repository, an available answer to a restore request is about a room in memory that has the
  player, and it is either NOOP, when the client already has the room's version, or FULL, with a payload that
  decodes to all players of the room, or DELTA, with a payload that decodes to a delta from the client's
  version which, applied to any state the room had at that version, gives the room's players.
\<close>

theorem restore_response_correct:
  assumes ok: "rooms_ok C it view w" "range_ok itm" "range_ok itr" and run: "battle_run C it itm w b"
    and dec: "decodes cd (pb_BattleRoomSnapshot cd) MBattleRoomSnapshot"
      "decodes cd (pb_BattleRoomDelta cd) MBattleRoomDelta"
    and req: "pb_RestorePlayerStateRequest cd (en_Payload envelope) = Inr q"
    and call: "restorePlayerState cd (Some (mongoRooms C it)) itm it itr envelope (Some (b_m b)) =
      (Inr (Some r), Some m')"
    and msg: "mr_Message r = Some (MRestorePlayerStateResponse resp)" "rp_Available resp"
  shows "\<exists>room. mg_rooms m' (rm_ID room) = Some room \<and> rm_Players room (rq_PlayerId q) \<noteq> None
    \<and> rp_StateVersion resp = rm_StateVersion room
    \<and> (rp_Mode resp = RESTORE_MODE_NOOP \<and> rp_Snapshot resp = [] \<and> rq_LastStateVersion q = rm_StateVersion room
     \<or> rp_Mode resp = RESTORE_MODE_FULL \<and> (\<exists>s. pb_BattleRoomSnapshot cd (rp_Snapshot resp) = Inr s
          \<and> bs_RoomId s = rm_ID room \<and> bs_StateVersion s = rm_StateVersion room \<and> snapshotPlayers s = rm_Players room)
     \<or> rp_Mode resp = RESTORE_MODE_DELTA \<and> rp_BaseStateVersion resp = rq_LastStateVersion q
         \<and> (\<exists>d. pb_BattleRoomDelta cd (rp_Snapshot resp) = Inr d
              \<and> bd_FromStateVersion d = rq_LastStateVersion q \<and> bd_ToStateVersion d = rm_StateVersion room
              \<and> (\<forall>old \<in> set (b_hist b (rm_ID room)). rm_StateVersion old = rq_LastStateVersion q \<longrightarrow>
                   players_equiv (apply_delta (deltaOfProto d) (rm_Players old)) (rm_Players room))))"
proof -
  obtain res payload where
    res: "RestoreByPlayerIDSince (Some (mongoRooms C it)) itm it itr (rq_PlayerId q) (rq_LastStateVersion q)
        (rq_AllowIncremental q) (b_m b) = (Inr res, m')"
    and pay: "restorePayload cd it res = Inr payload"
    and resp: "resp = restoreResponse (rq_PlayerId q) res payload"
    using restorePlayerState_available [OF req call msg] .
  let ?room = "res_Room res"
  have it: "range_ok it" using ok(1) by (simp add: rooms_ok_def)
  have r: "RestoreByPlayerID (Some (mongoRooms C it)) itm (rq_PlayerId q) (b_m b) = (Inr ?room, m')"
    using res by (cases rule: restore_since_cases)
  have mem: "mg_rooms m' (rm_ID ?room) = Some ?room" "rm_Players ?room (rq_PlayerId q) \<noteq> None"
    using mr.restored_in_memory [OF battle_run_invariant [OF run ok(1,2)] r] by simp_all
  have keyed: "keyed_players (rm_Players ?room)"
    using inv_room(2) [OF battle_run_invariant [OF restore_step [OF run r] ok(1,2)]] mem(1) by simp
  show ?thesis
  proof (cases "res_Mode res")
    case RestoreModeNoop
    then have "payload = []" using pay by (simp add: restorePayload_def)
    moreover have "rq_LastStateVersion q = rm_StateVersion ?room"
      using res RestoreModeNoop by (cases rule: restore_since_cases) auto
    ultimately show ?thesis using mem RestoreModeNoop
      by (intro exI [of _ ?room]) (simp add: resp restoreResponse_def restoreModeProto_def)
  next
    case RestoreModeFull
    then have "pb_BattleRoomSnapshot cd payload = Inr (roomSnapshotProto it ?room)"
      using pay decodes_Inr [OF dec(1)] by (simp add: restorePayload_def MarshalRoomSnapshot_def)
    then show ?thesis using mem RestoreModeFull snapshotPlayers_proto [OF it keyed]
      by (intro exI [of _ ?room])
        (simp add: resp restoreResponse_def restoreModeProto_def roomSnapshotProto_def Let_def)
  next
    case RestoreModeDelta
    obtain d where d: "res_Delta res = Some d" "d_FromStateVersion d = rq_LastStateVersion q"
      "d_ToStateVersion d = rm_StateVersion ?room" "res_BaseStateVersion res = rq_LastStateVersion q"
      and eq: "\<And>old. old \<in> set (b_hist b (rm_ID ?room)) \<Longrightarrow> rm_StateVersion old = rq_LastStateVersion q \<Longrightarrow>
        players_equiv (apply_delta d (rm_Players old)) (rm_Players ?room)"
      by (rule restore_response_history [OF ok run res RestoreModeDelta]) blast
    have "pb_BattleRoomDelta cd payload = Inr (roomDeltaProto d)"
      using pay RestoreModeDelta d(1) decodes_Inr [OF dec(2)] by (simp add: restorePayload_def MarshalRoomDelta_def)
    then show ?thesis using mem RestoreModeDelta d eq
      by (intro exI [of _ ?room] conjI disjI2 exI [of _ "roomDeltaProto d"])
        (simp_all add: resp restoreResponse_def restoreModeProto_def, simp_all add: roomDeltaProto_def)
  qed
qed

section \<open>A concrete run\<close>

text \<open>A room with one player, changed once, over the in-memory driver.\<close>

definition demo_C :: "(roomSnapshotDocument, roomSnapshotDocument list) Collection" where
  "demo_C = memoryCollection (rooms_place (\<lambda>w. w))"

definition demo_R :: "roomSnapshotDocument list RoomSnapshotRepository" where
  "demo_R = mongoRooms demo_C sorted_keys"

definition demo_player :: "int \<Rightarrow> PlayerState" where
  "demo_player hp = \<lparr>ps_PlayerID = ''a'', ps_HP = hp, ps_PositionX = 0, ps_PositionY = 0\<rparr>"

definition demo_room :: "uint64 \<Rightarrow> int \<Rightarrow> Room" where
  "demo_room v hp = \<lparr>rm_ID = 7, rm_Tick = v - 1, rm_StateVersion = v,
     rm_Status = (if v = 1 then RoomStatusCreated else RoomStatusRunning),
     rm_Players = [''a'' \<mapsto> demo_player hp], rm_UpdatedAt = 1000000\<rparr>"

definition demo_doc :: "uint64 \<Rightarrow> int \<Rightarrow> roomSnapshotDocument" where
  "demo_doc v hp = \<lparr>rsd_RoomID = 7, rsd_Tick = v - 1, rsd_StateVersion = v,
     rsd_Status = (if v = 1 then RoomStatusCreated else RoomStatusRunning),
     rsd_Players = [playerDoc (demo_player hp)], rsd_UpdatedAt = 1000000\<rparr>"

definition demo_manager :: "uint64 \<Rightarrow> int \<Rightarrow> RoomDelta list \<Rightarrow> roomSnapshotDocument list RoomManager" where
  "demo_manager v hp ds = \<lparr>mg_rooms = [7 \<mapsto> demo_room v hp], mg_deltas = [7 \<mapsto> ds], mg_deltaSize = 1024,
     mg_snapshots = [demo_doc v hp]\<rparr>"

definition demo_delta :: RoomDelta where
  "demo_delta = \<lparr>d_RoomID = 7, d_FromStateVersion = 1, d_ToStateVersion = 2, d_Tick = 1,
     d_Status = RoomStatusRunning, d_UpsertPlayers = [demo_player 90], d_RemovedPlayerIDs = []\<rparr>"

definition demo_hurt :: "Room \<Rightarrow> go_error option \<times> Room" where
  "demo_hurt r = (None, r\<lparr>rm_Players := (rm_Players r)(''a'' \<mapsto> demo_player 90)\<rparr>)"

definition demo_b :: "roomSnapshotDocument list battle_sys" where
  "demo_b = \<lparr>b_m = demo_manager 2 90 [demo_delta], b_hist = (\<lambda>_. [])(7 := [demo_room 1 100, demo_room 2 90])\<rparr>"

lemmas demo_defs = demo_C_def demo_R_def demo_player_def demo_room_def demo_doc_def demo_manager_def
  demo_delta_def demo_hurt_def demo_b_def

lemma sorted_keys_single [simp]: "sorted_keys [k \<mapsto> v] = [k]"
  by (simp add: sorted_keys_def)

lemma sorted_keys_empty [simp]: "sorted_keys Map.empty = []"
  by (simp add: sorted_keys_def)

lemma demo_driver: "rooms_ok demo_C sorted_keys (\<lambda>w. w) []"
  by (simp add: rooms_ok_def demo_C_def range_ok_sorted_keys memory_finds memory_replaces rooms_place_def)

lemma demo_save:
  "RoomSnapshotRepository_Save (Some demo_C) sorted_keys (demo_room v hp) ds =
     (if v = 0 \<or> hp < 0 then (Some (Sentinel (if v = 0 then ErrInvalidRoom else ErrInvalidPlayerState)), ds)
      else (None, if list_ex (\<lambda>d. rsd_RoomID d = 7) ds then replace_first (\<lambda>d. rsd_RoomID d = 7) (demo_doc v hp) ds
              else ds @ [demo_doc v hp]))"
  by (simp add: RoomSnapshotRepository_Save_def roomSnapshotDocumentFromDomain_def Room_Validate_def
      PlayerState_Validate_def demo_C_def demo_room_def demo_doc_def demo_player_def playerDoc_def
      memoryCollection_def rooms_place_def encRoom_def bsonTime_def RoomStatusCreated_def RoomStatusRunning_def
      List.map_filter_simps)

lemma demo_room_fields [simp]:
  "rm_ID (demo_room v hp) = 7" "rm_StateVersion (demo_room v hp) = v" "rm_Tick (demo_room v hp) = v - 1"
  "rm_Players (demo_room v hp) = [''a'' \<mapsto> demo_player hp]" "ps_PlayerID (demo_player hp) = ''a''"
  by (simp_all add: demo_room_def demo_player_def)

lemma demo_doc_id: "rsd_RoomID (demo_doc v hp) = 7"
  by (simp add: demo_doc_def)

lemma demo_valid: "v \<noteq> 0 \<Longrightarrow> 0 \<le> hp \<Longrightarrow> Room_Validate sorted_keys (Some (demo_room v hp)) = None"
  by (simp add: Room_Validate_def PlayerState_Validate_def demo_room_def demo_player_def RoomStatusCreated_def
      RoomStatusRunning_def)

lemma demo_create:
  "RoomManager_Create (Some demo_R) sorted_keys (Some (demo_room 1 100)) (NewRoomManager []) =
     (None, demo_manager 1 100 [])"
  by (simp add: RoomManager_Create_def saveLocked_def demo_R_def mongoRooms_def demo_save demo_valid
      NewRoomManager_def demo_manager_def)

lemma demo_mutate:
  "Mutate (Some demo_R) sorted_keys 1000000 7 (Some demo_hurt) (demo_manager 1 100 []) =
     (None, demo_manager 2 90 [demo_delta])"
proof -
  have tick: "AdvanceTick sorted_keys 1000000 (snd (demo_hurt (demo_room 1 100))) = Inr (demo_room 2 90)"
    by (simp add: AdvanceTick_def demo_hurt_def Room_Validate_def PlayerState_Validate_def demo_room_def
        demo_player_def RoomStatusCreated_def)
  have "make_delta sorted_keys (demo_room 1 100) (demo_room 2 90) = demo_delta"
    by (simp add: make_delta_def removals_def ps_eq_def demo_delta_def demo_room_def demo_player_def)
  then show ?thesis using tick
    by (simp add: Mutate_def saveLocked_def demo_R_def mongoRooms_def demo_save recordDeltaLocked_def
        demo_manager_def deltas_at_def Let_def demo_hurt_def demo_doc_id)
qed

lemma demo_hurt_ok: "mutator_ok demo_hurt"
  by (auto simp: mutator_ok_def demo_hurt_def)

definition demo_b1 :: "roomSnapshotDocument list battle_sys" where
  "demo_b1 = \<lparr>b_m = demo_manager 1 100 [], b_hist = (\<lambda>_. [])(7 := [demo_room 1 100])\<rparr>"

lemma demo_run1: "battle_run demo_C sorted_keys sorted_keys [] demo_b1"
proof -
  have "battle_step demo_R sorted_keys sorted_keys (battle_start []) demo_b1"
    using b_create [of demo_R sorted_keys "demo_room 1 100" "battle_start []" "demo_manager 1 100 []"] demo_create
    by (simp add: battle_start_def demo_b1_def)
  then show ?thesis unfolding battle_run_def demo_R_def by (rule r_into_rtranclp)
qed

lemma demo_run: "battle_run demo_C sorted_keys sorted_keys [] demo_b"
proof -
  have "battle_step demo_R sorted_keys sorted_keys demo_b1 demo_b"
    using b_mutate [OF demo_hurt_ok, of demo_R sorted_keys 1000000 7 demo_b1 "demo_manager 2 90 [demo_delta]"] demo_mutate
    by (simp add: demo_b1_def demo_b_def) (simp add: demo_manager_def)
  with demo_run1 show ?thesis unfolding battle_run_def demo_R_def by (rule rtranclp.rtrancl_into_rtrancl)
qed

definition demo_request :: RestorePlayerStateRequest where
  "demo_request = \<lparr>rq_PlayerId = ''a'', rq_SessionId = ''s'', rq_LastStateVersion = 1, rq_AllowIncremental = True\<rparr>"

definition demo_codec :: codec where
  "demo_codec = tableCodec [MRestorePlayerStateRequest demo_request, MBattleRoomDelta (roomDeltaProto demo_delta)]"

definition demo_envelope :: InternalEnvelope where
  "demo_envelope = emptyEnvelope\<lparr>en_Payload := [0]\<rparr>"

definition demo_response :: RestorePlayerStateResponse where
  "demo_response = \<lparr>rp_ServiceType = SERVICE_TYPE_BATTLE, rp_PlayerId = ''a'', rp_StateVersion = 2,
     rp_Snapshot = [0, 0], rp_Available = True, rp_Mode = RESTORE_MODE_DELTA, rp_BaseStateVersion = 1,
     rp_PayloadType = STATE_PAYLOAD_TYPE_BATTLE_DELTA, rp_SchemaVersion = 1\<rparr>"

lemma demo_restore:
  "RestoreByPlayerIDSince (Some demo_R) sorted_keys sorted_keys sorted_keys ''a'' 1 True (demo_manager 2 90 [demo_delta]) =
     (Inr \<lparr>res_Room = demo_room 2 90, res_Mode = RestoreModeDelta, res_BaseStateVersion = 1,
           res_Delta = Some demo_delta\<rparr>, demo_manager 2 90 [demo_delta])"
proof -
  have "composeDeltas sorted_keys sorted_keys 7 [demo_delta] 1 2 = (demo_delta, True)"
    by (simp add: composeDeltas_def Let_def fold_delta_def demo_delta_def demo_player_def List.map_filter_simps
        word_le_nat_alt word_less_nat_alt)
  then show ?thesis
    by (simp add: RestoreByPlayerIDSince_def RestoreByPlayerID_def demo_manager_def deltas_at_def
        word_less_nat_alt)
qed

lemma demo_call:
  "restorePlayerState demo_codec (Some demo_R) sorted_keys sorted_keys sorted_keys demo_envelope
     (Some (demo_manager 2 90 [demo_delta])) =
   (Inr (Some \<lparr>mr_MessageID = RESTORE_PLAYER_STATE_RESPONSE,
      mr_Message = Some (MRestorePlayerStateResponse demo_response)\<rparr>), Some (demo_manager 2 90 [demo_delta]))"
proof -
  have "pb_RestorePlayerStateRequest demo_codec [0] = Inr demo_request"
    by (simp add: demo_codec_def tableCodec_def decode_as_def entry_def)
  moreover have "pb_Marshal demo_codec (MBattleRoomDelta (roomDeltaProto demo_delta)) = Inr [0, 0]"
    by (simp add: demo_codec_def tableCodec_def numeral_2_eq_2)
  ultimately show ?thesis
    by (simp add: restorePlayerState_def demo_envelope_def demo_request_def demo_restore restorePayload_def
        MarshalRoomDelta_def restoreResponse_def restoreModeProto_def battleStatePayloadType_def
        demo_response_def StateSchemaVersion_def)
qed

theorem restore_response_correct_witness:
  "\<exists>room. mg_rooms (demo_manager 2 90 [demo_delta]) (rm_ID room) = Some room \<and> rm_Players room ''a'' \<noteq> None
    \<and> rp_StateVersion demo_response = rm_StateVersion room"
proof -
  have dec: "decodes demo_codec (pb_BattleRoomSnapshot demo_codec) MBattleRoomSnapshot"
    "decodes demo_codec (pb_BattleRoomDelta demo_codec) MBattleRoomDelta"
    by (simp_all add: demo_codec_def table_decodes)
  have req: "pb_RestorePlayerStateRequest demo_codec (en_Payload demo_envelope) = Inr demo_request"
    by (simp add: demo_codec_def tableCodec_def decode_as_def entry_def demo_envelope_def)
  have call: "restorePlayerState demo_codec (Some (mongoRooms demo_C sorted_keys)) sorted_keys sorted_keys sorted_keys
      demo_envelope (Some (b_m demo_b)) =
    (Inr (Some \<lparr>mr_MessageID = RESTORE_PLAYER_STATE_RESPONSE,
      mr_Message = Some (MRestorePlayerStateResponse demo_response)\<rparr>), Some (demo_manager 2 90 [demo_delta]))"
    using demo_call by (simp add: demo_R_def demo_b_def)
  from restore_response_correct [OF demo_driver range_ok_sorted_keys range_ok_sorted_keys demo_run dec req call, of demo_response]
  show ?thesis by (simp add: demo_response_def demo_request_def) blast
qed

text \<open>
  The mode is exact.  A client whose last version is the \<open>j\<close>-th of the states the room went through
  since it was created or loaded is answered NOOP exactly if that is the last one, DELTA exactly if it
  accepts increments and is at most 1024 versions behind, and FULL otherwise.
\<close>

theorem restore_mode_exact:
  assumes "rooms_ok C it view w" "range_ok itm" "range_ok itr" "battle_run C it itm w b"
    and "RestoreByPlayerIDSince (Some (mongoRooms C it)) itm it itr p v incr (b_m b) = (Inr res, m')"
    and "h = (if mg_rooms (b_m b) (rm_ID (res_Room res)) = None then [res_Room res]
              else b_hist b (rm_ID (res_Room res)))"
    and "j < length h" "rm_StateVersion (h ! j) = v"
  shows "res_Mode res = (if j = length h - 1 then RestoreModeNoop
    else if incr \<and> length h - 1 - j \<le> 1024 then RestoreModeDelta else RestoreModeFull)"
  using restore_since_history [OF assms(1-5) refl assms(6-8)] by (auto split: if_splits)

theorem restore_mode_exact_witness:
  "\<exists>res m'. RestoreByPlayerIDSince (Some demo_R) sorted_keys sorted_keys sorted_keys ''a'' 1 True
       (demo_manager 2 90 [demo_delta]) = (Inr res, m') \<and> res_Mode res = RestoreModeDelta"
proof -
  let ?res = "\<lparr>res_Room = demo_room 2 90, res_Mode = RestoreModeDelta, res_BaseStateVersion = 1,
     res_Delta = Some demo_delta\<rparr>"
  have call: "RestoreByPlayerIDSince (Some (mongoRooms demo_C sorted_keys)) sorted_keys sorted_keys sorted_keys ''a'' 1 True
       (b_m demo_b) = (Inr ?res, demo_manager 2 90 [demo_delta])"
    using demo_restore by (simp add: demo_R_def demo_b_def)
  have "[demo_room 1 100, demo_room 2 90] = (if mg_rooms (b_m demo_b) (rm_ID (res_Room ?res)) = None
      then [res_Room ?res] else b_hist demo_b (rm_ID (res_Room ?res)))"
    by (simp add: demo_b_def demo_manager_def)
  from restore_mode_exact [OF demo_driver range_ok_sorted_keys range_ok_sorted_keys demo_run call this, of 0]
  have "res_Mode ?res = RestoreModeDelta" by simp
  then show ?thesis using demo_restore by blast
qed

section \<open>Mutations\<close>



text \<open>
  A mutator that fails after it has changed the room leaves its changes in memory: \<open>Mutate\<close> returns the
  error before the copy is restored, at an unchanged version.  A client that has the committed state of that
  version is then told that it is up to date although the room it is in has the uncommitted players.
\<close>

theorem failed_mutation_leaks:
  assumes "mg_rooms m i = Some room" "i \<noteq> 0" "f room = (Some e, r1)"
    and "rm_StateVersion r1 = rm_StateVersion room" "p \<noteq> ''''" "rm_Players r1 p \<noteq> None"
    and "\<And>k r. k \<noteq> i \<Longrightarrow> mg_rooms m k = Some r \<Longrightarrow> rm_Players r p = None"
    and "range_ok itm" "finite (dom (mg_rooms m))"
  shows "\<exists>m1. Mutate R it now i (Some f) m = (Some e, m1) \<and> mg_rooms m1 i = Some r1
    \<and> mg_snapshots m1 = mg_snapshots m
    \<and> RestoreByPlayerIDSince R itm it itr p (rm_StateVersion room) incr m1 =
        (Inr \<lparr>res_Room = r1, res_Mode = RestoreModeNoop, res_BaseStateVersion = rm_StateVersion room,
              res_Delta = None\<rparr>, m1)"
proof -
  let ?m1 = "m\<lparr>mg_rooms := (mg_rooms m)(i \<mapsto> r1)\<rparr>"
  have call: "Mutate R it now i (Some f) m = (Some e, ?m1)"
    using assms(1-3) by (simp add: Mutate_def)
  have "dom (mg_rooms ?m1) = insert i (dom (mg_rooms m))" by auto
  then have "set (itm (mg_rooms ?m1)) = insert i (dom (mg_rooms m))"
    using range_ok_iterates [OF assms(8), of "mg_rooms ?m1"] assms(9) by (simp add: iterates_def)
  then have "find_room p (mg_rooms ?m1) (itm (mg_rooms ?m1)) \<noteq> None"
    using find_room_none [of p "mg_rooms ?m1" "itm (mg_rooms ?m1)" i r1] assms(6) by auto
  then obtain r where r: "find_room p (mg_rooms ?m1) (itm (mg_rooms ?m1)) = Some r" by blast
  have "r = r1" using find_room_some [OF r] assms(7) by (auto split: if_splits)
  then show ?thesis using call r assms(4,5)
    by (intro exI [of _ ?m1]) (simp add: RestoreByPlayerIDSince_def RestoreByPlayerID_def)
qed

definition demo_crash :: "Room \<Rightarrow> go_error option \<times> Room" where
  "demo_crash r = (Some (NewError ''crash''), r\<lparr>rm_Players := (rm_Players r)(''a'' \<mapsto> demo_player 1)\<rparr>)"

theorem failed_mutation_leaks_witness:
  "\<exists>m1. Mutate (Some demo_R) sorted_keys 1000000 7 (Some demo_crash) (demo_manager 1 100 []) =
       (Some (NewError ''crash''), m1) \<and> mg_rooms m1 7 = Some (snd (demo_crash (demo_room 1 100)))
    \<and> mg_snapshots m1 = mg_snapshots (demo_manager 1 100 [])
    \<and> RestoreByPlayerIDSince (Some demo_R) sorted_keys sorted_keys sorted_keys ''a'' (rm_StateVersion (demo_room 1 100)) True m1 =
        (Inr \<lparr>res_Room = snd (demo_crash (demo_room 1 100)), res_Mode = RestoreModeNoop,
              res_BaseStateVersion = rm_StateVersion (demo_room 1 100), res_Delta = None\<rparr>, m1)"
  by (rule failed_mutation_leaks)
    (auto simp: demo_manager_def demo_crash_def range_ok_sorted_keys split: if_splits)

text \<open>
  \<open>RestoreByPlayerID\<close> gives up the lock while it reads the repository and then installs what it read
  without looking again.  If the room was loaded and mutated by others in between, the mutation
  disappears from memory: the room is back at the version before it, while the repository already has the
  next one.
\<close>

theorem late_restore_reverts_room:
  assumes ok: "rooms_ok C it view w" "range_ok itm" and run: "battle_run C it itm w b" and f: "mutator_ok f"
    and room: "mg_rooms (b_m b) i = Some room"
    and call: "Mutate (Some (mongoRooms C it)) it now i (Some f) (b_m b) = (None, m2)"
  shows "mg_rooms (restore_install room m2) i = Some room
    \<and> (\<exists>saved. saved_room view (mg_snapshots (restore_install room m2)) i = Some saved
         \<and> unat (rm_StateVersion saved) = unat (rm_StateVersion room) + 1)"
proof -
  have id: "rm_ID room = i" by (rule inv_room(1) [OF battle_run_invariant [OF run ok] room])
  define b' where "b' = b\<lparr>b_m := m2, b_hist := (b_hist b)(i := b_hist b i @ [the (mg_rooms m2 i)])\<rparr>"
  have run': "battle_run C it itm w b'"
    using run b_mutate [OF f call] unfolding battle_run_def b'_def by (rule rtranclp.rtrancl_into_rtrancl)
  obtain r r1 r2 st where r: "mg_rooms (b_m b) i = Some r" "f r = (None, r1)" "AdvanceTick it now r1 = Inr r2"
    "rr_Save (mongoRooms C it) r2 (mg_snapshots (b_m b)) = (None, st)"
    "m2 = recordDeltaLocked it r r2 ((b_m b)\<lparr>mg_snapshots := st, mg_rooms := (mg_rooms (b_m b))(i \<mapsto> r2)\<rparr>)"
    using Mutate_ok [OF call] by blast
  have m2: "mg_rooms (b_m b') i = Some r2" by (simp add: b'_def r(5) recordDeltaLocked_def Let_def)
  from inv_room(5) [OF battle_run_invariant [OF run' ok] m2] obtain r0
    where r0: "saved_room view (mg_snapshots m2) i = Some r0" "same_room r0 r2" by (auto simp: b'_def)
  have "unat (rm_StateVersion r2) = unat (rm_StateVersion room) + 1"
  proof -
    have "rm_StateVersion r1 = rm_StateVersion r" "keyed_players (rm_Players r1)"
      using f r(2) inv_room(2) [OF battle_run_invariant [OF run ok] r(1)] unfolding mutator_ok_def by blast+
    then have v: "rm_StateVersion r2 = rm_StateVersion r + 1" "keyed_players (rm_Players r2)"
      using AdvanceTick_Inr [OF r(3)] by simp_all
    have rok: "rooms_ok C it view (mg_snapshots (b_m b))"
      using battle_run_invariant [OF run ok] by (simp add: battle_inv_def)
    have "rm_StateVersion r2 \<noteq> 0" using mr.save_ok [OF rok v(2) r(4)] by (elim conjE)
    then show ?thesis using r(1) room unat_plus_one [of "rm_StateVersion r"] by (simp add: v(1))
  qed
  moreover have "rm_StateVersion r0 = rm_StateVersion r2"
    using r0(2) unfolding same_room_def by (metis Room.ext_inject Room.surjective Room.update_convs(6))
  ultimately show ?thesis using r0(1) id by (auto simp: restore_install_def)
qed

theorem late_restore_reverts_room_witness:
  "mg_rooms (restore_install (demo_room 1 100) (demo_manager 2 90 [demo_delta])) 7 = Some (demo_room 1 100)
    \<and> (\<exists>saved. saved_room (\<lambda>w. w) (mg_snapshots (restore_install (demo_room 1 100) (demo_manager 2 90 [demo_delta]))) 7 = Some saved
         \<and> unat (rm_StateVersion saved) = unat (rm_StateVersion (demo_room 1 100)) + 1)"
proof -
  have "Mutate (Some (mongoRooms demo_C sorted_keys)) sorted_keys 1000000 7 (Some demo_hurt) (b_m demo_b1) =
     (None, demo_manager 2 90 [demo_delta])"
    using demo_mutate by (simp add: demo_b1_def demo_R_def)
  from late_restore_reverts_room [OF demo_driver range_ok_sorted_keys demo_run1 demo_hurt_ok _ this]
  show ?thesis by (simp add: demo_b1_def demo_manager_def)
qed

section \<open>Documents\<close>

lemma Room_Validate_iff:
  assumes "range_ok it" "keyed_players (rm_Players r)"
  shows "Room_Validate it (Some r) = None \<longleftrightarrow> rm_ID r \<noteq> 0 \<and> rm_StateVersion r \<noteq> 0 \<and> rm_Status r \<noteq> '''' \<and>
    rm_UpdatedAt r \<noteq> 0 \<and> (\<forall>k p. rm_Players r k = Some p \<longrightarrow> PlayerState_Validate p = None)"
proof -
  have "set (it (rm_Players r)) = dom (rm_Players r)"
    using range_ok_iterates [OF assms(1), of "rm_Players r"] assms(2)
    by (simp add: iterates_def keyed_players_def)
  then show ?thesis by (auto simp: Room_Validate_def validate_players_iff)
qed

lemma keyed_ids:
  assumes "keyed_players m" "set ks \<subseteq> dom m"
  shows "map ps_PlayerID (List.map_filter m ks) = ks"
  using assms(2)
proof (induction ks)
  case (Cons k ks)
  then obtain p where p: "m k = Some p" by auto
  then have "ps_PlayerID p = k" using assms(1) unfolding keyed_players_def by blast
  then show ?case using Cons p by (simp add: List.map_filter_simps)
qed (simp add: List.map_filter_simps)

text \<open>
  Every valid room survives the mapping to its document and back: for any orders in which the player map is
  visited on the way out and back in, the same room comes out, time stamp included.
\<close>

theorem room_document_roundtrip:
  assumes it: "range_ok it" "range_ok it'" and valid: "Room_Validate it (Some r) = None" and keyed: "keyed_players (rm_Players r)"
  shows "\<exists>d. roomSnapshotDocumentFromDomain it r = Inr d \<and> roomSnapshotDomainFromDocument it' d = Inr r"
proof -
  let ?ps = "List.map_filter (rm_Players r) (it (rm_Players r))" and ?r0 = "r\<lparr>rm_Players := Map.empty\<rparr>"
  have ks: "distinct (it (rm_Players r))" "set (it (rm_Players r)) = dom (rm_Players r)"
    using range_ok_iterates [OF it(1), of "rm_Players r"] keyed by (auto simp: iterates_def keyed_players_def)
  obtain d where d: "roomSnapshotDocumentFromDomain it r = Inr d"
    using valid by (simp add: roomSnapshotDocumentFromDomain_def)
  have room: "\<lparr>rm_ID = rsd_RoomID d, rm_Tick = rsd_Tick d, rm_StateVersion = rsd_StateVersion d,
      rm_Status = rsd_Status d, rm_Players = Map.empty, rm_UpdatedAt = rsd_UpdatedAt d\<rparr> = ?r0"
    and players: "map playerOfDoc (rsd_Players d) = ?ps"
    using d valid by (auto simp: roomSnapshotDocumentFromDomain_def comp_def)
  have "\<forall>p \<in> set ?ps. PlayerState_Validate p = None"
    using valid unfolding Room_Validate_iff [OF it(1) keyed] List.map_filter_def by fastforce
  then obtain r' where r': "add_all ?ps ?r0 = Inr r'"
    using add_all_ok [of ?ps ?r0] keyed_ids [OF keyed, of "it (rm_Players r)"] ks by auto
  have "r' = r" using add_all_Inr [OF r'] by_id_players [OF keyed ks(2)] by simp
  moreover have "Room_Validate it' (Some r) = None"
    using valid unfolding Room_Validate_iff [OF it(1) keyed] Room_Validate_iff [OF it(2) keyed] .
  ultimately have "roomSnapshotDomainFromDocument it' d = Inr r"
    using r' unfolding roomSnapshotDomainFromDocument_def room players Let_def by simp
  then show ?thesis using d by blast
qed

theorem room_document_roundtrip_witness:
  "\<exists>d. roomSnapshotDocumentFromDomain sorted_keys (demo_room 1 100) = Inr d
     \<and> roomSnapshotDomainFromDocument sorted_keys d = Inr (demo_room 1 100)"
  by (rule room_document_roundtrip) (simp_all add: range_ok_sorted_keys demo_valid)

end
