(* ===== verification/Lobby_Domain.thy ===== *)
theory Lobby_Domain
  imports Mongo Protocol
begin

text \<open>
  The lobby's data: players, assets, settlements and snapshots (\<^verbatim>\<open>src/services/lobby/domain\<close>), their
  documents and the mapping between the two (\<^verbatim>\<open>src/services/lobby/repository/mongo/documents.go\<close> and
  \<^verbatim>\<open>mapper.go\<close>).
\<close>

section \<open>Domain\<close>

record Player =
  p_ID :: string
  p_AccountID :: string
  p_Nickname :: string
  p_Avatar :: string
  p_Region :: string
  p_IsDefault :: bool
  p_ProfileVersion :: uint64
  p_CreatedAt :: gotime
  p_UpdatedAt :: gotime

definition Player_Validate :: "Player \<Rightarrow> go_error option" where
  "Player_Validate p =
     (if p_ID p = '''' \<or> p_AccountID p = '''' \<or> p_Nickname p = '''' \<or> p_Region p = ''''
         \<or> IsZero (p_CreatedAt p) \<or> IsZero (p_UpdatedAt p)
      then Some (Sentinel ErrInvalidPlayer) else None)"

type_synonym currency = "string \<rightharpoonup> int"

record Assets =
  a_PlayerID :: string
  a_Currency :: currency
  a_AssetVersion :: uint64
  a_UpdatedAt :: gotime

definition Balance :: "Assets \<Rightarrow> string \<Rightarrow> int" where
  "Balance a assetType = (case a_Currency a assetType of None \<Rightarrow> 0 | Some b \<Rightarrow> b)"

record Settlement =
  s_ID :: string
  s_PlayerID :: string
  s_AssetType :: string
  s_Delta :: int
  s_Reason :: string
  s_Source :: string
  s_CreatedAt :: gotime

definition Settlement_Validate :: "Settlement \<Rightarrow> go_error option" where
  "Settlement_Validate s =
     (if s_ID s = '''' \<or> s_PlayerID s = '''' \<or> s_AssetType s = '''' \<or> s_Delta s = 0 \<or> s_Reason s = ''''
         \<or> s_Source s = '''' \<or> IsZero (s_CreatedAt s)
      then Some (Sentinel ErrInvalidSettlement) else None)"

record Snapshot =
  n_Player :: Player
  n_Assets :: Assets
  n_SchemaVersion :: uint32
  n_CreatedAt :: gotime

definition StateVersion :: "Snapshot \<Rightarrow> uint64" where
  "StateVersion s =
     (if a_AssetVersion (n_Assets s) \<le> p_ProfileVersion (n_Player s) then p_ProfileVersion (n_Player s)
      else a_AssetVersion (n_Assets s))"

section \<open>Documents\<close>

record playerDocument =
  pd_PlayerID :: string
  pd_AccountID :: string
  pd_Nickname :: string
  pd_Avatar :: string
  pd_Region :: string
  pd_IsDefault :: bool
  pd_ProfileVersion :: uint64
  pd_CreatedAt :: gotime
  pd_UpdatedAt :: gotime

record assetsDocument =
  ad_PlayerID :: string
  ad_Currency :: currency
  ad_AssetVersion :: uint64
  ad_UpdatedAt :: gotime

record ledgerDocument =
  ld_SettlementID :: string
  ld_PlayerID :: string
  ld_AssetType :: string
  ld_Delta :: int
  ld_Reason :: string
  ld_Source :: string
  ld_CreatedAt :: gotime

record snapshotDocument =
  sd_PlayerID :: string
  sd_AccountID :: string
  sd_Nickname :: string
  sd_Region :: string
  sd_ProfileVersion :: uint64
  sd_AssetVersion :: uint64
  sd_Currency :: currency
  sd_SchemaVersion :: uint32
  sd_CreatedAt :: gotime

section \<open>Mapping\<close>

definition playerDocumentFromDomain :: "Player \<Rightarrow> playerDocument result" where
  "playerDocumentFromDomain p =
     (case Player_Validate p of Some e \<Rightarrow> Inl e | None \<Rightarrow>
        Inr \<lparr>pd_PlayerID = p_ID p, pd_AccountID = p_AccountID p, pd_Nickname = p_Nickname p,
             pd_Avatar = p_Avatar p, pd_Region = p_Region p, pd_IsDefault = p_IsDefault p,
             pd_ProfileVersion = p_ProfileVersion p, pd_CreatedAt = p_CreatedAt p,
             pd_UpdatedAt = p_UpdatedAt p\<rparr>)"

definition playerDomainFromDocument :: "playerDocument \<Rightarrow> Player" where
  "playerDomainFromDocument d = \<lparr>p_ID = pd_PlayerID d, p_AccountID = pd_AccountID d, p_Nickname = pd_Nickname d,
     p_Avatar = pd_Avatar d, p_Region = pd_Region d, p_IsDefault = pd_IsDefault d,
     p_ProfileVersion = pd_ProfileVersion d, p_CreatedAt = pd_CreatedAt d, p_UpdatedAt = pd_UpdatedAt d\<rparr>"

text \<open>\<open>cloneCurrency\<close> copies the map, so that the document and the value do not share it.\<close>

definition cloneCurrency :: "currency \<Rightarrow> currency" where
  "cloneCurrency c = c"

definition assetsDocumentFromDomain :: "Assets \<Rightarrow> assetsDocument" where
  "assetsDocumentFromDomain a = \<lparr>ad_PlayerID = a_PlayerID a, ad_Currency = cloneCurrency (a_Currency a),
     ad_AssetVersion = a_AssetVersion a, ad_UpdatedAt = a_UpdatedAt a\<rparr>"

definition assetsDomainFromDocument :: "assetsDocument \<Rightarrow> Assets" where
  "assetsDomainFromDocument d = \<lparr>a_PlayerID = ad_PlayerID d, a_Currency = cloneCurrency (ad_Currency d),
     a_AssetVersion = ad_AssetVersion d, a_UpdatedAt = ad_UpdatedAt d\<rparr>"

definition ledgerDocumentFromDomain :: "Settlement \<Rightarrow> ledgerDocument result" where
  "ledgerDocumentFromDomain s =
     (case Settlement_Validate s of Some e \<Rightarrow> Inl e | None \<Rightarrow>
        Inr \<lparr>ld_SettlementID = s_ID s, ld_PlayerID = s_PlayerID s, ld_AssetType = s_AssetType s,
             ld_Delta = s_Delta s, ld_Reason = s_Reason s, ld_Source = s_Source s,
             ld_CreatedAt = s_CreatedAt s\<rparr>)"

definition settlementDomainFromDocument :: "ledgerDocument \<Rightarrow> Settlement" where
  "settlementDomainFromDocument d = \<lparr>s_ID = ld_SettlementID d, s_PlayerID = ld_PlayerID d,
     s_AssetType = ld_AssetType d, s_Delta = ld_Delta d, s_Reason = ld_Reason d, s_Source = ld_Source d,
     s_CreatedAt = ld_CreatedAt d\<rparr>"

definition snapshotDocumentFromDomain :: "Snapshot \<Rightarrow> snapshotDocument" where
  "snapshotDocumentFromDomain s = \<lparr>sd_PlayerID = p_ID (n_Player s), sd_AccountID = p_AccountID (n_Player s),
     sd_Nickname = p_Nickname (n_Player s), sd_Region = p_Region (n_Player s),
     sd_ProfileVersion = p_ProfileVersion (n_Player s), sd_AssetVersion = a_AssetVersion (n_Assets s),
     sd_Currency = cloneCurrency (a_Currency (n_Assets s)), sd_SchemaVersion = n_SchemaVersion s,
     sd_CreatedAt = n_CreatedAt s\<rparr>"

definition snapshotDomainFromDocument :: "snapshotDocument \<Rightarrow> Snapshot" where
  "snapshotDomainFromDocument d =
     \<lparr>n_Player = \<lparr>p_ID = sd_PlayerID d, p_AccountID = sd_AccountID d, p_Nickname = sd_Nickname d, p_Avatar = '''',
        p_Region = sd_Region d, p_IsDefault = False, p_ProfileVersion = sd_ProfileVersion d,
        p_CreatedAt = 0, p_UpdatedAt = 0\<rparr>,
      n_Assets = \<lparr>a_PlayerID = sd_PlayerID d, a_Currency = cloneCurrency (sd_Currency d),
        a_AssetVersion = sd_AssetVersion d, a_UpdatedAt = 0\<rparr>,
      n_SchemaVersion = sd_SchemaVersion d, n_CreatedAt = sd_CreatedAt d\<rparr>"

section \<open>What the store keeps\<close>

text \<open>A value as it is read back: times in milliseconds; a snapshot without the fields it does not store.\<close>

definition storedPlayer :: "Player \<Rightarrow> Player" where
  "storedPlayer p = p\<lparr>p_CreatedAt := bsonTime (p_CreatedAt p), p_UpdatedAt := bsonTime (p_UpdatedAt p)\<rparr>"

definition storedAssets :: "Assets \<Rightarrow> Assets" where
  "storedAssets a = a\<lparr>a_UpdatedAt := bsonTime (a_UpdatedAt a)\<rparr>"

definition storedSettlement :: "Settlement \<Rightarrow> Settlement" where
  "storedSettlement s = s\<lparr>s_CreatedAt := bsonTime (s_CreatedAt s)\<rparr>"

definition storedSnapshot :: "Snapshot \<Rightarrow> Snapshot" where
  "storedSnapshot s = snapshotDomainFromDocument
     ((snapshotDocumentFromDomain s)\<lparr>sd_CreatedAt := bsonTime (n_CreatedAt s)\<rparr>)"

lemmas stored_defs = storedPlayer_def storedAssets_def storedSettlement_def storedSnapshot_def

lemma stored_fields [simp]:
  "p_ID (storedPlayer p) = p_ID p" "p_AccountID (storedPlayer p) = p_AccountID p"
  "p_IsDefault (storedPlayer p) = p_IsDefault p" "p_ProfileVersion (storedPlayer p) = p_ProfileVersion p"
  "a_PlayerID (storedAssets a) = a_PlayerID a" "a_Currency (storedAssets a) = a_Currency a"
  "a_AssetVersion (storedAssets a) = a_AssetVersion a" "Balance (storedAssets a) = Balance a"
  "s_ID (storedSettlement s) = s_ID s" "s_PlayerID (storedSettlement s) = s_PlayerID s"
  "s_AssetType (storedSettlement s) = s_AssetType s" "s_Delta (storedSettlement s) = s_Delta s"
  "s_Reason (storedSettlement s) = s_Reason s" "s_Source (storedSettlement s) = s_Source s"
  by (simp_all add: stored_defs Balance_def fun_eq_iff)

lemma storedSnapshot_fields [simp]:
  "p_ID (n_Player (storedSnapshot s)) = p_ID (n_Player s)"
  "a_Currency (n_Assets (storedSnapshot s)) = a_Currency (n_Assets s)"
  "a_AssetVersion (n_Assets (storedSnapshot s)) = a_AssetVersion (n_Assets s)"
  "p_ProfileVersion (n_Player (storedSnapshot s)) = p_ProfileVersion (n_Player s)"
  by (simp_all add: storedSnapshot_def snapshotDomainFromDocument_def snapshotDocumentFromDomain_def cloneCurrency_def)

lemma player_roundtrip:
  "playerDocumentFromDomain p = Inr d \<Longrightarrow> playerDomainFromDocument d = p"
  by (auto simp: playerDocumentFromDomain_def playerDomainFromDocument_def split: option.splits)

lemma assets_roundtrip: "assetsDomainFromDocument (assetsDocumentFromDomain a) = a"
  by (simp add: assetsDomainFromDocument_def assetsDocumentFromDomain_def cloneCurrency_def)

lemma settlement_roundtrip:
  "ledgerDocumentFromDomain s = Inr d \<Longrightarrow> settlementDomainFromDocument d = s"
  by (auto simp: ledgerDocumentFromDomain_def settlementDomainFromDocument_def split: option.splits)

end
