(* ===== verification/Lobby_Store.thy ===== *)
theory Lobby_Store
  imports Lobby_Domain
begin

text \<open>
  The repositories the lobby component is written against
  (\<^verbatim>\<open>src/services/lobby/repository/interfaces.go\<close>), as records of operations on a state \<open>w\<close>, and their contract,
  the locale \<open>lobby_store\<close>, over an abstract view of the state: the players, assets, settlements and
  snapshots stored under their keys.
\<close>

section \<open>Interfaces\<close>

record 'w PlayerRepository =
  pr_EnsureIndexes :: "'w action"
  pr_Create :: "Player \<Rightarrow> 'w action"
  pr_FindDefaultByAccountID :: "string \<Rightarrow> 'w \<Rightarrow> Player result \<times> 'w"
  pr_FindByID :: "string \<Rightarrow> 'w \<Rightarrow> Player result \<times> 'w"

text \<open>The first argument of \<open>ar_ApplyDelta\<close> is the reading of \<^verbatim>\<open>time.Now()\<close>.\<close>

record 'w AssetRepository =
  ar_EnsureIndexes :: "'w action"
  ar_Create :: "Assets \<Rightarrow> 'w action"
  ar_FindByPlayerID :: "string \<Rightarrow> 'w \<Rightarrow> Assets result \<times> 'w"
  ar_ApplyDelta :: "gotime \<Rightarrow> string \<Rightarrow> string \<Rightarrow> int \<Rightarrow> 'w \<Rightarrow> Assets result \<times> 'w"

record 'w LedgerRepository =
  lr_EnsureIndexes :: "'w action"
  lr_Create :: "Settlement \<Rightarrow> 'w action"
  lr_FindBySettlementID :: "string \<Rightarrow> 'w \<Rightarrow> Settlement result \<times> 'w"

record 'w SnapshotRepository =
  nr_EnsureIndexes :: "'w action"
  nr_FindByPlayerID :: "string \<Rightarrow> 'w \<Rightarrow> Snapshot result \<times> 'w"
  nr_Save :: "Snapshot \<Rightarrow> 'w action"

section \<open>The abstract view\<close>

record lobby_view =
  lv_players :: "string \<rightharpoonup> Player"
  lv_assets :: "string \<rightharpoonup> Assets"
  lv_ledger :: "string \<rightharpoonup> Settlement"
  lv_snapshots :: "string \<rightharpoonup> Snapshot"

text \<open>An asset type that is a single field name, so that \<^verbatim>\<open>"currency." + assetType\<close> is a path of two fields.\<close>

definition plain_field :: "string \<Rightarrow> bool" where
  "plain_field t \<longleftrightarrow> t \<noteq> '''' \<and> hd t \<noteq> CHR ''$'' \<and> CHR ''.'' \<notin> set t \<and> CHR 0x00 \<notin> set t"

definition applied :: "gotime \<Rightarrow> string \<Rightarrow> int \<Rightarrow> Assets \<Rightarrow> Assets" where
  "applied now t delta a = a\<lparr>a_Currency := (a_Currency a)(t \<mapsto> Balance a t + delta),
     a_AssetVersion := a_AssetVersion a + 1, a_UpdatedAt := bsonTime now\<rparr>"

lemma Balance_applied:
  "Balance (applied now t delta a) t' = (if t' = t then Balance a t + delta else Balance a t')"
  by (simp add: Balance_def applied_def)

lemma applied_fields [simp]:
  "a_PlayerID (applied now t delta a) = a_PlayerID a" "a_AssetVersion (applied now t delta a) = a_AssetVersion a + 1"
  by (simp_all add: applied_def)

text \<open>A negative change is accepted when the balance covers what the code computes as its negation.\<close>

definition covers :: "Assets \<Rightarrow> string \<Rightarrow> int \<Rightarrow> bool" where
  "covers a t delta \<longleftrightarrow> (delta < 0 \<longrightarrow> a_Currency a t \<noteq> None \<and> s64 (- delta) \<le> Balance a t)"

section \<open>The contract\<close>

locale lobby_store = unit_of_work tx abs invar
  for tx :: "'w action \<Rightarrow> 'w action" and abs :: "'w \<Rightarrow> lobby_view" and invar :: "'w \<Rightarrow> bool" +
  fixes P :: "'w PlayerRepository" and A :: "'w AssetRepository" and L :: "'w LedgerRepository"
    and S :: "'w SnapshotRepository" and link :: "string \<Rightarrow> string \<Rightarrow> 'w action"
  assumes link_keeps: "invar w \<Longrightarrow> link acc i w = (e, w') \<Longrightarrow> invar w' \<and> abs w' = abs w"
    and player_create: "invar w \<Longrightarrow> pr_Create P p w = (e, w') \<Longrightarrow> invar w' \<and>
      (case e of Some er \<Rightarrow> abs w' = abs w
       | None \<Rightarrow> lv_players (abs w) (p_ID p) = None
           \<and> (\<forall>q \<in> ran (lv_players (abs w)). p_IsDefault p \<and> p_IsDefault q \<longrightarrow> p_AccountID q \<noteq> p_AccountID p)
           \<and> abs w' = (abs w)\<lparr>lv_players := (lv_players (abs w))(p_ID p \<mapsto> storedPlayer p)\<rparr>)"
    and find_default: "invar w \<Longrightarrow> pr_FindDefaultByAccountID P acc w = (pres, w') \<Longrightarrow> invar w' \<and> abs w' = abs w \<and>
      (case pres of Inr p \<Rightarrow> lv_players (abs w) (p_ID p) = Some p \<and> p_AccountID p = acc \<and> p_IsDefault p
       | Inl er \<Rightarrow> errors_is er ErrPlayerNotFound \<longrightarrow>
           (\<forall>q \<in> ran (lv_players (abs w)). p_IsDefault q \<longrightarrow> p_AccountID q \<noteq> acc))"
    and find_player: "invar w \<Longrightarrow> pr_FindByID P i w = (pres, w') \<Longrightarrow> invar w' \<and> abs w' = abs w \<and>
      (case pres of Inr p \<Rightarrow> lv_players (abs w) i = Some p
       | Inl er \<Rightarrow> \<not> errors_is er ErrSettlementApplied \<and> (errors_is er ErrPlayerNotFound \<longrightarrow> lv_players (abs w) i = None))"
    and assets_create: "invar w \<Longrightarrow> ar_Create A a w = (e, w') \<Longrightarrow> invar w' \<and>
      (case e of Some er \<Rightarrow> abs w' = abs w
       | None \<Rightarrow> lv_assets (abs w) (a_PlayerID a) = None
           \<and> abs w' = (abs w)\<lparr>lv_assets := (lv_assets (abs w))(a_PlayerID a \<mapsto> storedAssets a)\<rparr>)"
    and find_assets: "invar w \<Longrightarrow> ar_FindByPlayerID A i w = (ares, w') \<Longrightarrow> invar w' \<and> abs w' = abs w \<and>
      (case ares of Inr a \<Rightarrow> lv_assets (abs w) i = Some a
       | Inl er \<Rightarrow> \<not> errors_is er ErrSettlementApplied \<and> (errors_is er ErrAssetNotFound \<longrightarrow> lv_assets (abs w) i = None))"
    and apply_delta: "invar w \<Longrightarrow> plain_field t \<Longrightarrow> delta \<noteq> 0 \<Longrightarrow> ar_ApplyDelta A now i t delta w = (ares, w') \<Longrightarrow> invar w' \<and>
      (case ares of Inl er \<Rightarrow> abs w' = abs w \<and> \<not> errors_is er ErrSettlementApplied
           \<and> (errors_is er ErrInsufficientCurrency \<longrightarrow> (\<forall>a. lv_assets (abs w) i = Some a \<longrightarrow> \<not> covers a t delta))
       | Inr a' \<Rightarrow> (\<exists>a. lv_assets (abs w) i = Some a \<and> covers a t delta \<and> a' = applied now t delta a
           \<and> in_s64 (Balance a t + delta) \<and> unat (a_AssetVersion a') = unat (a_AssetVersion a) + 1
           \<and> abs w' = (abs w)\<lparr>lv_assets := (lv_assets (abs w))(i \<mapsto> a')\<rparr>))"
    and ledger_create: "invar w \<Longrightarrow> lr_Create L s w = (e, w') \<Longrightarrow> invar w' \<and>
      (case e of Some er \<Rightarrow> abs w' = abs w \<and> (errors_is er ErrSettlementApplied \<longrightarrow> lv_ledger (abs w) (s_ID s) \<noteq> None)
       | None \<Rightarrow> Settlement_Validate s = None \<and> lv_ledger (abs w) (s_ID s) = None
           \<and> abs w' = (abs w)\<lparr>lv_ledger := (lv_ledger (abs w))(s_ID s \<mapsto> storedSettlement s)\<rparr>)"
    and find_settlement: "invar w \<Longrightarrow> lr_FindBySettlementID L i w = (sres, w') \<Longrightarrow> invar w' \<and> abs w' = abs w \<and>
      (case sres of Inr s \<Rightarrow> lv_ledger (abs w) i = Some s
       | Inl er \<Rightarrow> errors_is er ErrSettlementNotFound \<longrightarrow> lv_ledger (abs w) i = None)"
    and snapshot_save: "invar w \<Longrightarrow> nr_Save S n w = (e, w') \<Longrightarrow> invar w' \<and>
      (case e of Some er \<Rightarrow> abs w' = abs w \<and> \<not> errors_is er ErrSettlementApplied
       | None \<Rightarrow> abs w' = (abs w)\<lparr>lv_snapshots := (lv_snapshots (abs w))(p_ID (n_Player n) \<mapsto> storedSnapshot n)\<rparr>)"
    and find_snapshot: "invar w \<Longrightarrow> nr_FindByPlayerID S i w = (nres, w') \<Longrightarrow> invar w' \<and> abs w' = abs w \<and>
      (case nres of Inr n \<Rightarrow> lv_snapshots (abs w) i = Some n
       | Inl er \<Rightarrow> errors_is er ErrPlayerNotFound \<longrightarrow> lv_snapshots (abs w) i = None)"

end
