(* ===== verification/Lobby_Component.thy ===== *)
theory Lobby_Component
  imports Lobby_Store Battle_Module
begin

text \<open>
  The lobby's handlers (\<^verbatim>\<open>src/services/lobby/components/player_component.go\<close>, \<^verbatim>\<open>restore_codec.go\<close>,
  \<^verbatim>\<open>usercenter_linker.go\<close>) over the repositories, the unit of work and the player linker, each with
  every repository call it makes.  Clock readings and new identifiers are arguments.
\<close>

section \<open>The component\<close>

record 'w PlayerComponent =
  pc_players :: "'w PlayerRepository"
  pc_assets :: "'w AssetRepository"
  pc_ledger :: "'w LedgerRepository"
  pc_snapshot :: "'w SnapshotRepository"
  pc_unitOfWork :: "('w action \<Rightarrow> 'w action) option"
  pc_linker :: "(string \<Rightarrow> string \<Rightarrow> 'w action) option"

definition NewPlayerComponent ::
    "'w PlayerRepository \<Rightarrow> 'w AssetRepository \<Rightarrow> 'w LedgerRepository \<Rightarrow> 'w SnapshotRepository \<Rightarrow>
     ('w action \<Rightarrow> 'w action) option \<Rightarrow> (string \<Rightarrow> string \<Rightarrow> 'w action) option \<Rightarrow> 'w PlayerComponent" where
  "NewPlayerComponent players assets ledger snapshot unitOfWork linker =
     \<lparr>pc_players = players, pc_assets = assets, pc_ledger = ledger, pc_snapshot = snapshot,
      pc_unitOfWork = unitOfWork, pc_linker = linker\<rparr>"

definition transactionally :: "'w PlayerComponent \<Rightarrow> 'w action \<Rightarrow> 'w action" where
  "transactionally c f = (case pc_unitOfWork c of Some tx \<Rightarrow> tx f | None \<Rightarrow> f)"

section \<open>ensurePlayer\<close>

definition newPlayer :: "string \<Rightarrow> string \<Rightarrow> gotime \<Rightarrow> Player" where
  "newPlayer playerID accountID now = \<lparr>p_ID = playerID, p_AccountID = accountID, p_Nickname = ''Player'',
     p_Avatar = '''', p_Region = ''global'', p_IsDefault = True, p_ProfileVersion = 1,
     p_CreatedAt = now, p_UpdatedAt = now\<rparr>"

definition initialAssets :: "string \<Rightarrow> gotime \<Rightarrow> Assets" where
  "initialAssets playerID now = \<lparr>a_PlayerID = playerID, a_Currency = [''gold'' \<mapsto> 0, ''diamond'' \<mapsto> 0],
     a_AssetVersion = 1, a_UpdatedAt = now\<rparr>"

text \<open>The function that \<open>ensurePlayer\<close> runs in one transaction.\<close>

definition createPlayer :: "'w PlayerComponent \<Rightarrow> Player \<Rightarrow> Assets \<Rightarrow> gotime \<Rightarrow> 'w action" where
  "createPlayer c candidate assets now w =
     (case pr_Create (pc_players c) candidate w of
        (Some e, w1) \<Rightarrow> (Some e, w1)
      | (None, w1) \<Rightarrow>
          (case ar_Create (pc_assets c) assets w1 of
             (Some e, w2) \<Rightarrow> (Some e, w2)
           | (None, w2) \<Rightarrow> nr_Save (pc_snapshot c)
               \<lparr>n_Player = candidate, n_Assets = assets, n_SchemaVersion = 1, n_CreatedAt = now\<rparr> w2))"

definition ENSURE_PLAYER_RESPONSE :: uint32 where "ENSURE_PLAYER_RESPONSE = 3101"
definition SETTLEMENT_RESPONSE :: uint32 where "SETTLEMENT_RESPONSE = 3102"

text \<open>The player of the account and whether this call created it.\<close>

definition findOrCreate ::
    "'w PlayerComponent \<Rightarrow> string result \<Rightarrow> gotime \<Rightarrow> string \<Rightarrow> 'w \<Rightarrow> (Player \<times> bool) result \<times> 'w" where
  "findOrCreate c uuid now accountID w =
     (case pr_FindDefaultByAccountID (pc_players c) accountID w of
        (Inr player, w1) \<Rightarrow> (Inr (player, False), w1)
      | (Inl e, w1) \<Rightarrow>
          if errors_is e ErrPlayerNotFound then
            (case uuid of
               Inl idErr \<Rightarrow> (Inl idErr, w1)
             | Inr playerID \<Rightarrow>
                 let candidate = newPlayer playerID accountID now;
                     assets = initialAssets playerID now
                 in (case transactionally c (createPlayer c candidate assets now) w1 of
                       (None, w2) \<Rightarrow> (Inr (candidate, True), w2)
                     | (Some _, w2) \<Rightarrow>
                         (case pr_FindDefaultByAccountID (pc_players c) accountID w2 of
                            (Inr player, w3) \<Rightarrow> (Inr (player, False), w3)
                          | (Inl e3, w3) \<Rightarrow> (Inl (Wrapf ''ensure player: '' e3), w3))))
          else (Inl (Wrapf ''ensure player: '' e), w1))"

definition ensurePlayer ::
    "codec \<Rightarrow> 'w PlayerComponent \<Rightarrow> string result \<Rightarrow> gotime \<Rightarrow> 'w MessageHandler" where
  "ensurePlayer cd c uuid now envelope w =
     (case pb_EnsurePlayerRequest cd (en_Payload envelope) of
        Inl _ \<Rightarrow> (Inl (NewError ''account_id is required''), w)
      | Inr request \<Rightarrow>
          let accountID = TrimSpace (eq_AccountId request) in
          if accountID = '''' then (Inl (NewError ''account_id is required''), w)
          else (case findOrCreate c uuid now accountID w of
             (Inl e, w1) \<Rightarrow> (Inl e, w1)
           | (Inr (player, created), w1) \<Rightarrow>
               (case pc_linker c of
                  None \<Rightarrow> (Inl (NewError ''usercenter client is not configured''), w1)
                | Some link \<Rightarrow>
                    (case link accountID (p_ID player) w1 of
                       (Some e, w2) \<Rightarrow> (Inl (Wrapf ''link player: '' e), w2)
                     | (None, w2) \<Rightarrow> (Inr (Some \<lparr>mr_MessageID = ENSURE_PLAYER_RESPONSE,
                         mr_Message = Some (MEnsurePlayerResponse \<lparr>ep_AccountId = accountID,
                           ep_PlayerId = p_ID player, ep_Created = created\<rparr>)\<rparr>), w2)))))"

section \<open>Settlements\<close>

definition settlementResult :: "'w PlayerComponent \<Rightarrow> Settlement \<Rightarrow> bool \<Rightarrow> 'w \<Rightarrow> MessageResult option result \<times> 'w" where
  "settlementResult c settlement replayed w =
     (case ar_FindByPlayerID (pc_assets c) (s_PlayerID settlement) w of
        (Inl e, w1) \<Rightarrow> (Inl e, w1)
      | (Inr assets, w1) \<Rightarrow>
          (Inr (Some \<lparr>mr_MessageID = SETTLEMENT_RESPONSE,
             mr_Message = Some (MSettlementResponse
               \<lparr>sp_SettlementId = s_ID settlement, sp_PlayerId = s_PlayerID settlement,
                sp_AssetType = s_AssetType settlement, sp_Balance = Balance assets (s_AssetType settlement),
                sp_AssetVersion = a_AssetVersion assets, sp_Replayed = replayed\<rparr>)\<rparr>), w1))"

definition replaySettlement :: "'w PlayerComponent \<Rightarrow> string \<Rightarrow> 'w \<Rightarrow> MessageResult option result \<times> 'w" where
  "replaySettlement c settlementID w =
     (case lr_FindBySettlementID (pc_ledger c) settlementID w of
        (Inl e, w1) \<Rightarrow> (Inl (Wrapf ''load replayed settlement: '' e), w1)
      | (Inr settlement, w1) \<Rightarrow> settlementResult c settlement True w1)"

text \<open>
  The function that \<open>settlement\<close> runs in one transaction; \<open>now1\<close> and \<open>now2\<close> are the clock readings of the
  repository and of the snapshot.
\<close>

definition executeSettlement :: "'w PlayerComponent \<Rightarrow> gotime \<Rightarrow> gotime \<Rightarrow> Settlement \<Rightarrow> 'w action" where
  "executeSettlement c now1 now2 settlement w =
     (case lr_Create (pc_ledger c) settlement w of
        (Some e, w1) \<Rightarrow> (Some e, w1)
      | (None, w1) \<Rightarrow>
          (case ar_ApplyDelta (pc_assets c) now1 (s_PlayerID settlement) (s_AssetType settlement)
                  (s_Delta settlement) w1 of
             (Inl e, w2) \<Rightarrow> (Some e, w2)
           | (Inr assets, w2) \<Rightarrow>
               (case pr_FindByID (pc_players c) (s_PlayerID settlement) w2 of
                  (Inl e, w3) \<Rightarrow> (Some e, w3)
                | (Inr player, w3) \<Rightarrow> nr_Save (pc_snapshot c)
                    \<lparr>n_Player = player, n_Assets = assets, n_SchemaVersion = 1, n_CreatedAt = now2\<rparr> w3)))"

definition sameSettlement :: "Settlement \<Rightarrow> Settlement \<Rightarrow> bool" where
  "sameSettlement a b \<longleftrightarrow> s_PlayerID a = s_PlayerID b \<and> s_AssetType a = s_AssetType b \<and> s_Delta a = s_Delta b
     \<and> s_Reason a = s_Reason b \<and> s_Source a = s_Source b"

definition settlementOf :: "SettlementRequest \<Rightarrow> gotime \<Rightarrow> Settlement" where
  "settlementOf q now = \<lparr>s_ID = sq_SettlementId q, s_PlayerID = sq_PlayerId q, s_AssetType = sq_AssetType q,
     s_Delta = sq_Delta q, s_Reason = sq_Reason q, s_Source = sq_Source q, s_CreatedAt = now\<rparr>"

definition invalidRequest :: "SettlementRequest \<Rightarrow> bool" where
  "invalidRequest q \<longleftrightarrow> sq_SettlementId q = '''' \<or> sq_PlayerId q = '''' \<or> sq_AssetType q = '''' \<or> sq_Delta q = 0
     \<or> sq_Reason q = '''' \<or> sq_Source q = ''''"

text \<open>What follows when the settlement was not in the ledger; other handlers may run before it does.\<close>

definition applySettlement ::
    "'w PlayerComponent \<Rightarrow> gotime \<Rightarrow> gotime \<Rightarrow> Settlement \<Rightarrow> 'w \<Rightarrow> MessageResult option result \<times> 'w" where
  "applySettlement c now1 now2 settlement w =
     (case transactionally c (executeSettlement c now1 now2 settlement) w of
        (Some e, w1) \<Rightarrow>
          if errors_is e ErrSettlementApplied then replaySettlement c (s_ID settlement) w1 else (Inl e, w1)
      | (None, w1) \<Rightarrow> settlementResult c settlement False w1)"

definition settlement ::
    "codec \<Rightarrow> 'w PlayerComponent \<Rightarrow> gotime \<Rightarrow> gotime \<Rightarrow> gotime \<Rightarrow> 'w MessageHandler" where
  "settlement cd c now now1 now2 envelope w =
     (case pb_SettlementRequest cd (en_Payload envelope) of
        Inl _ \<Rightarrow> (Inl (Sentinel ErrInvalidSettlement), w)
      | Inr q \<Rightarrow>
          if invalidRequest q then (Inl (Sentinel ErrInvalidSettlement), w)
          else
            let s = settlementOf q now in
            (case lr_FindBySettlementID (pc_ledger c) (s_ID s) w of
               (Inr existing, w1) \<Rightarrow>
                 if \<not> sameSettlement existing s then (Inl (Sentinel ErrSettlementConflict), w1)
                 else settlementResult c existing True w1
             | (Inl e, w1) \<Rightarrow>
                 if \<not> errors_is e ErrSettlementNotFound then (Inl e, w1)
                 else applySettlement c now1 now2 s w1))"

section \<open>Restore\<close>

definition lobbyStatePayloadType :: "RestoreModeProto \<Rightarrow> StatePayloadType" where
  "lobbyStatePayloadType mode =
     (if mode = RESTORE_MODE_NOOP then STATE_PAYLOAD_TYPE_UNSPECIFIED else STATE_PAYLOAD_TYPE_LOBBY_SNAPSHOT)"

definition MarshalStateSnapshot :: "codec \<Rightarrow> Snapshot \<Rightarrow> bytes result" where
  "MarshalStateSnapshot cd s = pb_Marshal cd (MLobbyStateSnapshot
     \<lparr>ls_PlayerId = p_ID (n_Player s), ls_AccountId = p_AccountID (n_Player s), ls_Nickname = p_Nickname (n_Player s),
      ls_Region = p_Region (n_Player s), ls_ProfileVersion = p_ProfileVersion (n_Player s),
      ls_AssetVersion = a_AssetVersion (n_Assets s), ls_Currency = a_Currency (n_Assets s)\<rparr>)"

text \<open>The stored snapshot or, if there is none, one made from the player and its assets, which is stored.\<close>

definition loadSnapshot :: "'w PlayerComponent \<Rightarrow> gotime \<Rightarrow> string \<Rightarrow> 'w \<Rightarrow> Snapshot result \<times> 'w" where
  "loadSnapshot c now playerID w =
     (case nr_FindByPlayerID (pc_snapshot c) playerID w of
        (Inr snapshot, w1) \<Rightarrow> (Inr snapshot, w1)
      | (Inl e, w1) \<Rightarrow>
          if errors_is e ErrPlayerNotFound then
            (case pr_FindByID (pc_players c) playerID w1 of
               (Inl e2, w2) \<Rightarrow> (Inl e2, w2)
             | (Inr player, w2) \<Rightarrow>
                 (case ar_FindByPlayerID (pc_assets c) playerID w2 of
                    (Inl e3, w3) \<Rightarrow> (Inl e3, w3)
                  | (Inr assets, w3) \<Rightarrow>
                      let snapshot = \<lparr>n_Player = player, n_Assets = assets, n_SchemaVersion = 1, n_CreatedAt = now\<rparr>
                      in (Inr snapshot, snd (nr_Save (pc_snapshot c) snapshot w3))))
          else (Inl e, w1))"

definition restore :: "codec \<Rightarrow> 'w PlayerComponent \<Rightarrow> gotime \<Rightarrow> 'w MessageHandler" where
  "restore cd c now envelope w =
     (case pb_RestorePlayerStateRequest cd (en_Payload envelope) of
        Inl _ \<Rightarrow> (Inl (NewError ''player_id is required''), w)
      | Inr request \<Rightarrow>
          if rq_PlayerId request = '''' then (Inl (NewError ''player_id is required''), w)
          else (case loadSnapshot c now (rq_PlayerId request) w of
             (Inl e, w1) \<Rightarrow> (Inl e, w1)
           | (Inr snapshot, w1) \<Rightarrow>
               let stateVersion = StateVersion snapshot;
                   noop = (rq_LastStateVersion request = stateVersion);
                   mode = (if noop then RESTORE_MODE_NOOP else RESTORE_MODE_FULL)
               in (case (if noop then Inr [] else MarshalStateSnapshot cd snapshot) of
                     Inl e \<Rightarrow> (Inl e, w1)
                   | Inr payload \<Rightarrow>
                       (Inr (Some \<lparr>mr_MessageID = RESTORE_PLAYER_STATE_RESPONSE,
                          mr_Message = Some (MRestorePlayerStateResponse
                            \<lparr>rp_ServiceType = SERVICE_TYPE_LOBBY, rp_PlayerId = rq_PlayerId request,
                             rp_StateVersion = stateVersion, rp_Snapshot = payload, rp_Available = True, rp_Mode = mode,
                             rp_BaseStateVersion = (if noop then rq_LastStateVersion request else 0),
                             rp_PayloadType = lobbyStatePayloadType mode,
                             rp_SchemaVersion = StateSchemaVersion\<rparr>)\<rparr>), w1))))"

section \<open>Linking a player to its account\<close>

definition LINK_PLAYER_REQUEST :: uint32 where "LINK_PLAYER_REQUEST = 1005"

definition LinkPlayer ::
    "codec \<Rightarrow> ('w \<Rightarrow> 'w requester option) option \<Rightarrow> string \<Rightarrow> string \<Rightarrow> 'w action" where
  "LinkPlayer cd client accountID playerID w =
     (if client = None \<or> accountID = '''' \<or> playerID = ''''
      then (Some (NewError ''usercenter player linker is not configured''), w)
      else (case the client w of
         None \<Rightarrow> (Some (NewError ''usercenter service is unavailable''), w)
       | Some request \<Rightarrow>
           (case pb_Marshal cd (MLinkPlayerRequest \<lparr>lq_AccountId = accountID, lq_PlayerId = playerID\<rparr>) of
              Inl e \<Rightarrow> (Some e, w)
            | Inr payload \<Rightarrow>
                (case request (emptyEnvelope\<lparr>en_TargetService := SERVICE_TYPE_USERCENTER,
                         en_MessageId := LINK_PLAYER_REQUEST, en_Payload := payload\<rparr>) w of
                   (Inl e, w1) \<Rightarrow> (Some e, w1)
                 | (Inr response, w1) \<Rightarrow>
                     if en_Kind response = ENVELOPE_KIND_ERROR then
                       (Some (NewError (''usercenter link player error '' @ show_nat (unat (en_ErrorCode response))
                          @ '': '' @ en_ErrorMessage response)), w1)
                     else (None, w1)))))"

end
