(* ===== verification/Lobby_Ledger.thy ===== *)
theory Lobby_Ledger
  imports Lobby_Component
begin

text \<open>
  The lobby's books.  Against the contract of its repositories, the two transactions of the component are
  described as functions on the abstract view, \<open>open_account\<close> and \<open>settle\<close>, every step that handlers
  can interleave keeps the books balanced, and the handler of settlements applies a settlement at most once.
\<close>

section \<open>The abstract machine\<close>

definition open_account :: "Player \<Rightarrow> gotime \<Rightarrow> lobby_view \<Rightarrow> lobby_view" where
  "open_account p now v = v
     \<lparr>lv_players := (lv_players v)(p_ID p \<mapsto> storedPlayer p),
      lv_assets := (lv_assets v)(p_ID p \<mapsto> storedAssets (initialAssets (p_ID p) now)),
      lv_snapshots := (lv_snapshots v)(p_ID p \<mapsto> storedSnapshot
        \<lparr>n_Player = p, n_Assets = initialAssets (p_ID p) now, n_SchemaVersion = 1, n_CreatedAt = now\<rparr>)\<rparr>"

definition settle :: "gotime \<Rightarrow> gotime \<Rightarrow> Settlement \<Rightarrow> Player \<Rightarrow> Assets \<Rightarrow> lobby_view \<Rightarrow> lobby_view" where
  "settle now1 now2 s p a v =
     (let a' = applied now1 (s_AssetType s) (s_Delta s) a
      in v\<lparr>lv_ledger := (lv_ledger v)(s_ID s \<mapsto> storedSettlement s),
           lv_assets := (lv_assets v)(s_PlayerID s \<mapsto> a'),
           lv_snapshots := (lv_snapshots v)(p_ID p \<mapsto> storedSnapshot
             \<lparr>n_Player = p, n_Assets = a', n_SchemaVersion = 1, n_CreatedAt = now2\<rparr>)\<rparr>)"

text \<open>A settlement that the books allow.\<close>

definition allowed :: "Settlement \<Rightarrow> Player \<Rightarrow> Assets \<Rightarrow> lobby_view \<Rightarrow> bool" where
  "allowed s p a v \<longleftrightarrow> Settlement_Validate s = None \<and> lv_ledger v (s_ID s) = None
     \<and> lv_players v (s_PlayerID s) = Some p \<and> lv_assets v (s_PlayerID s) = Some a
     \<and> covers a (s_AssetType s) (s_Delta s) \<and> in_s64 (Balance a (s_AssetType s) + s_Delta s)
     \<and> unat (a_AssetVersion a + 1) = unat (a_AssetVersion a) + 1"

section \<open>Balanced books\<close>

definition entries :: "lobby_view \<Rightarrow> string \<Rightarrow> string set" where
  "entries v i = {k. \<exists>s. lv_ledger v k = Some s \<and> s_PlayerID s = i}"

definition settled :: "lobby_view \<Rightarrow> string \<Rightarrow> string \<Rightarrow> int" where
  "settled v i t = (\<Sum>k \<in> {k \<in> entries v i. s_AssetType (the (lv_ledger v k)) = t}. s_Delta (the (lv_ledger v k)))"

definition MinInt64 :: int where
  "MinInt64 = - (2 ^ 63)"

definition books :: "lobby_view \<Rightarrow> bool" where
  "books v \<longleftrightarrow> finite (dom (lv_ledger v)) \<and> dom (lv_assets v) = dom (lv_players v)
     \<and> (\<forall>i p. lv_players v i = Some p \<longrightarrow> p_ID p = i)
     \<and> (\<forall>i j p q. lv_players v i = Some p \<longrightarrow> lv_players v j = Some q \<longrightarrow> p_IsDefault p \<longrightarrow> p_IsDefault q \<longrightarrow>
          p_AccountID p = p_AccountID q \<longrightarrow> i = j)
     \<and> (\<forall>k s. lv_ledger v k = Some s \<longrightarrow> lv_players v (s_PlayerID s) \<noteq> None)
     \<and> (\<forall>i a. lv_assets v i = Some a \<longrightarrow> (\<forall>t. Balance a t = settled v i t)
          \<and> unat (a_AssetVersion a) = 1 + card (entries v i))
     \<and> ((\<forall>k s. lv_ledger v k = Some s \<longrightarrow> s_Delta s \<noteq> MinInt64) \<longrightarrow>
          (\<forall>i a t. lv_assets v i = Some a \<longrightarrow> 0 \<le> Balance a t))"

lemma booksI:
  assumes "finite (dom (lv_ledger v))" "dom (lv_assets v) = dom (lv_players v)"
    "\<And>i p. lv_players v i = Some p \<Longrightarrow> p_ID p = i"
    "\<And>i j p q. lv_players v i = Some p \<Longrightarrow> lv_players v j = Some q \<Longrightarrow> p_IsDefault p \<Longrightarrow> p_IsDefault q \<Longrightarrow>
       p_AccountID p = p_AccountID q \<Longrightarrow> i = j"
    "\<And>k s. lv_ledger v k = Some s \<Longrightarrow> lv_players v (s_PlayerID s) \<noteq> None"
    "\<And>i a t. lv_assets v i = Some a \<Longrightarrow> Balance a t = settled v i t"
    "\<And>i a. lv_assets v i = Some a \<Longrightarrow> unat (a_AssetVersion a) = 1 + card (entries v i)"
    "\<And>i a t. (\<And>k s. lv_ledger v k = Some s \<Longrightarrow> s_Delta s \<noteq> MinInt64) \<Longrightarrow> lv_assets v i = Some a \<Longrightarrow> 0 \<le> Balance a t"
  shows "books v"
  unfolding books_def
proof (intro conjI allI impI)
  fix i a t
  assume "\<forall>k s. lv_ledger v k = Some s \<longrightarrow> s_Delta s \<noteq> MinInt64" "lv_assets v i = Some a"
  then show "0 \<le> Balance a t" by (intro assms(8)) blast+
qed (rule assms(1), rule assms(2), erule assms(3), erule (4) assms(4), erule assms(5), erule assms(6), erule assms(7))

lemma books_empty: "books \<lparr>lv_players = Map.empty, lv_assets = Map.empty, lv_ledger = Map.empty, lv_snapshots = Map.empty\<rparr>"
  by (simp add: books_def)

lemma booksD:
  assumes "books v"
  shows "finite (dom (lv_ledger v))" "dom (lv_assets v) = dom (lv_players v)"
    "\<And>i p. lv_players v i = Some p \<Longrightarrow> p_ID p = i"
    "\<And>i j p q. lv_players v i = Some p \<Longrightarrow> lv_players v j = Some q \<Longrightarrow> p_IsDefault p \<Longrightarrow> p_IsDefault q \<Longrightarrow>
       p_AccountID p = p_AccountID q \<Longrightarrow> i = j"
    "\<And>k s. lv_ledger v k = Some s \<Longrightarrow> lv_players v (s_PlayerID s) \<noteq> None"
    "\<And>i a t. lv_assets v i = Some a \<Longrightarrow> Balance a t = settled v i t"
    "\<And>i a. lv_assets v i = Some a \<Longrightarrow> unat (a_AssetVersion a) = 1 + card (entries v i)"
    "\<And>i a t. (\<And>k s. lv_ledger v k = Some s \<Longrightarrow> s_Delta s \<noteq> MinInt64) \<Longrightarrow> lv_assets v i = Some a \<Longrightarrow> 0 \<le> Balance a t"
proof -
  note D = assms [unfolded books_def]
  note D2 = conjunct2 [OF conjunct2 [OF D]]
  note D5 = conjunct2 [OF conjunct2 [OF D2]]
  note D7 = conjunct2 [OF conjunct2 [OF D5]]
  show "finite (dom (lv_ledger v))" by (rule conjunct1 [OF D])
  show "dom (lv_assets v) = dom (lv_players v)" by (rule conjunct1 [OF conjunct2 [OF D]])
  show "\<And>i p. lv_players v i = Some p \<Longrightarrow> p_ID p = i" by (rule conjunct1 [OF D2, rule_format])
  show "\<And>i j p q. lv_players v i = Some p \<Longrightarrow> lv_players v j = Some q \<Longrightarrow> p_IsDefault p \<Longrightarrow> p_IsDefault q \<Longrightarrow>
       p_AccountID p = p_AccountID q \<Longrightarrow> i = j" by (rule conjunct1 [OF conjunct2 [OF D2], rule_format])
  show "\<And>k s. lv_ledger v k = Some s \<Longrightarrow> lv_players v (s_PlayerID s) \<noteq> None" by (rule conjunct1 [OF D5, rule_format])
  note A = conjunct1 [OF conjunct2 [OF D5], rule_format]
  show "\<And>i a t. lv_assets v i = Some a \<Longrightarrow> Balance a t = settled v i t" by (drule A) (elim conjE allE)
  show "\<And>i a. lv_assets v i = Some a \<Longrightarrow> unat (a_AssetVersion a) = 1 + card (entries v i)" by (drule A) (elim conjE)
  show "\<And>i a t. (\<And>k s. lv_ledger v k = Some s \<Longrightarrow> s_Delta s \<noteq> MinInt64) \<Longrightarrow> lv_assets v i = Some a \<Longrightarrow> 0 \<le> Balance a t"
    by (rule D7 [rule_format])
qed

lemma entries_sub: "entries v i \<subseteq> dom (lv_ledger v)"
  by (auto simp: entries_def)

lemma settled_frame [simp]:
  "entries (v\<lparr>lv_players := x\<rparr>) = entries v" "entries (v\<lparr>lv_assets := y\<rparr>) = entries v"
  "entries (v\<lparr>lv_snapshots := z\<rparr>) = entries v"
  "settled (v\<lparr>lv_players := x\<rparr>) = settled v" "settled (v\<lparr>lv_assets := y\<rparr>) = settled v"
  "settled (v\<lparr>lv_snapshots := z\<rparr>) = settled v"
  by (simp_all add: entries_def settled_def fun_eq_iff)

lemma books_snapshot: "books (v\<lparr>lv_snapshots := z\<rparr>) = books v"
  by (simp add: books_def)

subsection \<open>Recording a settlement\<close>

lemma entries_record:
  assumes "lv_ledger v (s_ID s) = None"
  shows "entries (v\<lparr>lv_ledger := (lv_ledger v)(s_ID s \<mapsto> storedSettlement s)\<rparr>) i =
    (if i = s_PlayerID s then insert (s_ID s) (entries v i) else entries v i)"
  using assms by (auto simp: entries_def)

lemma settled_record:
  assumes "lv_ledger v (s_ID s) = None" "finite (dom (lv_ledger v))"
  shows "settled (v\<lparr>lv_ledger := (lv_ledger v)(s_ID s \<mapsto> storedSettlement s)\<rparr>) i t =
    settled v i t + (if i = s_PlayerID s \<and> t = s_AssetType s then s_Delta s else 0)"
proof -
  let ?v = "v\<lparr>lv_ledger := (lv_ledger v)(s_ID s \<mapsto> storedSettlement s)\<rparr>"
  let ?K = "{k \<in> entries v i. s_AssetType (the (lv_ledger v k)) = t}"
  have new: "s_ID s \<notin> entries v i" using assms(1) by (auto simp: entries_def)
  have fin: "finite ?K" using finite_subset [OF entries_sub assms(2)] by simp
  have same: "(\<Sum>k \<in> ?K. s_Delta (the (lv_ledger ?v k))) = settled v i t"
    unfolding settled_def by (rule sum.cong) (use new in auto)
  have set: "{k \<in> entries ?v i. s_AssetType (the (lv_ledger ?v k)) = t} =
      (if i = s_PlayerID s \<and> t = s_AssetType s then insert (s_ID s) ?K else ?K)"
    using new by (auto simp: entries_record [OF assms(1)])
  show ?thesis
  proof (cases "i = s_PlayerID s \<and> t = s_AssetType s")
    case True
    have "settled ?v i t = (\<Sum>k \<in> insert (s_ID s) ?K. s_Delta (the (lv_ledger ?v k)))"
      unfolding settled_def [of ?v] set using True by simp
    also have "\<dots> = s_Delta s + (\<Sum>k \<in> ?K. s_Delta (the (lv_ledger ?v k)))"
      using fin new by (subst sum.insert) auto
    finally show ?thesis using True same by simp
  next
    case False
    then have "settled ?v i t = (\<Sum>k \<in> ?K. s_Delta (the (lv_ledger ?v k)))"
      unfolding settled_def [of ?v] set by (simp only: if_False)
    then show ?thesis using False same by auto
  qed
qed

lemma books_settle:
  assumes b: "books v" and ok: "allowed s p a v" and delta: "in_s64 (s_Delta s)"
  shows "books (settle now1 now2 s p a v)"
proof -
  let ?l = "v\<lparr>lv_ledger := (lv_ledger v)(s_ID s \<mapsto> storedSettlement s)\<rparr>"
  let ?a' = "applied now1 (s_AssetType s) (s_Delta s) a"
  let ?v = "settle now1 now2 s p a v"
  have new: "lv_ledger v (s_ID s) = None" and a: "lv_assets v (s_PlayerID s) = Some a"
    and p: "lv_players v (s_PlayerID s) = Some p" and cov: "covers a (s_AssetType s) (s_Delta s)"
    and ver: "unat (a_AssetVersion a + 1) = unat (a_AssetVersion a) + 1"
    using ok by (simp_all add: allowed_def)
  note fin = booksD(1) [OF b]
  have v: "lv_ledger ?v = lv_ledger ?l" "lv_players ?v = lv_players v"
    "lv_assets ?v = (lv_assets v)(s_PlayerID s \<mapsto> ?a')"
    by (simp_all add: settle_def Let_def)
  have ent: "entries ?v = entries ?l" and sett: "settled ?v = settled ?l"
    by (simp_all add: settle_def Let_def)
  show ?thesis
  proof (rule booksI)
    show "finite (dom (lv_ledger ?v))" using fin by (simp add: v)
    show "dom (lv_assets ?v) = dom (lv_players ?v)" using booksD(2) [OF b] a by (auto simp: v)
  next
    fix i q
    assume "lv_players ?v i = Some q"
    then show "p_ID q = i" using booksD(3) [OF b] by (simp add: v)
  next
    fix i j q r
    assume "lv_players ?v i = Some q" "lv_players ?v j = Some r" "p_IsDefault q" "p_IsDefault r" "p_AccountID q = p_AccountID r"
    then show "i = j" using booksD(4) [OF b, of i q j r] by (simp add: v)
  next
    fix k s'
    assume "lv_ledger ?v k = Some s'"
    then show "lv_players ?v (s_PlayerID s') \<noteq> None"
      using booksD(5) [OF b] p by (auto simp: v split: if_splits)
  next
    fix i a'' t
    assume "lv_assets ?v i = Some a''"
    then show "Balance a'' t = settled ?v i t"
      unfolding sett settled_record [OF new fin]
      using booksD(6) [OF b] a by (auto simp: v Balance_applied split: if_splits)
  next
    fix i a''
    assume "lv_assets ?v i = Some a''"
    moreover have "s_ID s \<notin> entries v i" for i using new by (auto simp: entries_def)
    moreover have "finite (entries v i)" for i using finite_subset [OF entries_sub fin] .
    ultimately show "unat (a_AssetVersion a'') = 1 + card (entries ?v i)"
      unfolding ent entries_record [OF new]
      using booksD(7) [OF b] a ver by (auto simp: v split: if_splits)
  next
    fix i a'' t
    assume min: "\<And>k s'. lv_ledger ?v k = Some s' \<Longrightarrow> s_Delta s' \<noteq> MinInt64" and "lv_assets ?v i = Some a''"
    have old: "0 \<le> Balance x t" if "lv_assets v j = Some x" for j x t
    proof (rule booksD(8) [OF b _ that])
      fix k s'
      assume k: "lv_ledger v k = Some s'"
      then have "k \<noteq> s_ID s" using new by auto
      then show "s_Delta s' \<noteq> MinInt64" using min [of k s'] k by (simp add: v)
    qed
    have "s_Delta s \<noteq> MinInt64" using min [of "s_ID s" "storedSettlement s"] by (simp add: v)
    then have "s64 (- s_Delta s) = - s_Delta s" if "s_Delta s < 0"
      using delta that by (intro s64_id) (auto simp: in_s64_def MinInt64_def)
    then have "0 \<le> Balance a (s_AssetType s) + s_Delta s"
      using cov old [OF a, of "s_AssetType s"] by (cases "s_Delta s < 0") (auto simp: covers_def)
    then show "0 \<le> Balance a'' t"
      using \<open>lv_assets ?v i = Some a''\<close> old a by (auto simp: v Balance_applied split: if_splits)
  qed
qed

lemma books_open:
  assumes b: "books v" and new: "lv_players v (p_ID p) = None" and p: "p_AccountID p = acc" "p_IsDefault p"
    and uniq: "\<And>q. q \<in> ran (lv_players v) \<Longrightarrow> p_IsDefault q \<Longrightarrow> p_AccountID q \<noteq> acc"
  shows "books (open_account p now v)"
proof -
  let ?v = "open_account p now v"
  have v: "lv_ledger ?v = lv_ledger v" "lv_players ?v = (lv_players v)(p_ID p \<mapsto> storedPlayer p)"
    "lv_assets ?v = (lv_assets v)(p_ID p \<mapsto> storedAssets (initialAssets (p_ID p) now))"
    "entries ?v = entries v" "settled ?v = settled v"
    by (simp_all add: open_account_def)
  have none: "entries v (p_ID p) = {}" using booksD(5) [OF b] new by (fastforce simp: entries_def)
  then have zero: "settled v (p_ID p) t = 0" for t by (simp add: settled_def)
  have bal: "Balance (initialAssets i now) t = 0" "a_AssetVersion (initialAssets i now) = 1" for i t
    by (auto simp: Balance_def initialAssets_def)
  show ?thesis
  proof (rule booksI)
    show "finite (dom (lv_ledger ?v))" using booksD(1) [OF b] by (simp add: v)
    show "dom (lv_assets ?v) = dom (lv_players ?v)" using booksD(2) [OF b] by (simp add: v)
  next
    fix i q
    assume "lv_players ?v i = Some q"
    then show "p_ID q = i" using booksD(3) [OF b] by (auto simp: v split: if_splits)
  next
    fix i j q r
    assume "lv_players ?v i = Some q" "lv_players ?v j = Some r" "p_IsDefault q" "p_IsDefault r" "p_AccountID q = p_AccountID r"
    then show "i = j"
      using booksD(4) [OF b, of i q j r] uniq [OF ranI, of i q] uniq [OF ranI, of j r] p
      by (auto simp: v split: if_splits)
  next
    fix k s'
    assume "lv_ledger ?v k = Some s'"
    then show "lv_players ?v (s_PlayerID s') \<noteq> None" using booksD(5) [OF b] by (auto simp: v)
  next
    fix i a t
    assume "lv_assets ?v i = Some a"
    then show "Balance a t = settled ?v i t"
      using booksD(6) [OF b] zero bal by (auto simp: v split: if_splits)
  next
    fix i a
    assume "lv_assets ?v i = Some a"
    then show "unat (a_AssetVersion a) = 1 + card (entries ?v i)"
      using booksD(7) [OF b] none bal by (auto simp: v split: if_splits)
  next
    fix i a t
    assume "\<And>k s'. lv_ledger ?v k = Some s' \<Longrightarrow> s_Delta s' \<noteq> MinInt64" "lv_assets ?v i = Some a"
    then show "0 \<le> Balance a t"
      using booksD(8) [OF b, of i a t] bal by (auto simp: v split: if_splits)
  qed
qed

section \<open>Interleaved handlers\<close>

text \<open>
  What the handlers do to the world, one atomic step each: the two transactions, the reads, the snapshot that
  a restore stores, and the call to the linker.  Handlers of different requests interleave at these steps.
\<close>

inductive lobby_step :: "'w PlayerComponent \<Rightarrow> 'w \<Rightarrow> 'w \<Rightarrow> bool" for c :: "'w PlayerComponent" where
  l_create: "transactionally c (createPlayer c (newPlayer i acc now) (initialAssets i now) now) w = (e, w') \<Longrightarrow>
     lobby_step c w w'"
| l_settle: "plain_field (s_AssetType s) \<Longrightarrow> in_s64 (s_Delta s) \<Longrightarrow>
     transactionally c (executeSettlement c now1 now2 s) w = (e, w') \<Longrightarrow> lobby_step c w w'"
| l_find_default: "pr_FindDefaultByAccountID (pc_players c) acc w = (r, w') \<Longrightarrow> lobby_step c w w'"
| l_find_player: "pr_FindByID (pc_players c) i w = (r, w') \<Longrightarrow> lobby_step c w w'"
| l_find_assets: "ar_FindByPlayerID (pc_assets c) i w = (ra, w') \<Longrightarrow> lobby_step c w w'"
| l_find_settlement: "lr_FindBySettlementID (pc_ledger c) i w = (rs, w') \<Longrightarrow> lobby_step c w w'"
| l_find_snapshot: "nr_FindByPlayerID (pc_snapshot c) i w = (rn, w') \<Longrightarrow> lobby_step c w w'"
| l_snapshot: "nr_Save (pc_snapshot c) n w = (e, w') \<Longrightarrow> lobby_step c w w'"
| l_link: "pc_linker c = Some k \<Longrightarrow> k acc i w = (e, w') \<Longrightarrow> lobby_step c w w'"

abbreviation lobby_run :: "'w PlayerComponent \<Rightarrow> 'w \<Rightarrow> 'w \<Rightarrow> bool" where
  "lobby_run c \<equiv> (lobby_step c)\<^sup>*\<^sup>*"

text \<open>A successful call to a repository, as a step.\<close>

lemma run_into: "lobby_run c w w1 \<Longrightarrow> lobby_step c w1 w2 \<Longrightarrow> lobby_run c w w2"
  by (rule rtranclp.rtrancl_into_rtrancl)

lemmas run_via = run_into [OF _ l_create] run_into [OF _ l_settle] run_into [OF _ l_find_default]
  run_into [OF _ l_find_player] run_into [OF _ l_find_assets] run_into [OF _ l_find_settlement]
  run_into [OF _ l_find_snapshot] run_into [OF _ l_snapshot] run_into [OF _ l_link]

lemma settlementResult_run: "settlementResult c s b w = (r, w') \<Longrightarrow> lobby_run c w w'"
  by (auto simp: settlementResult_def split: prod.splits sum.splits intro: run_via)

lemma result_after: "settlementResult c s b w1 = (r, w') \<Longrightarrow> lobby_run c w w1 \<Longrightarrow> lobby_run c w w'"
  by (drule settlementResult_run) (rule rtranclp_trans)

lemma applySettlement_run:
  assumes "applySettlement c now1 now2 s w = (r, w')" "plain_field (s_AssetType s)" "in_s64 (s_Delta s)"
  shows "lobby_run c w w'"
proof -
  obtain e w1 where tx: "transactionally c (executeSettlement c now1 now2 s) w = (e, w1)" by fastforce
  have 1: "lobby_run c w w1" using l_settle [OF assms(2,3) tx] by blast
  show ?thesis
  proof (cases "\<exists>x. e = Some x \<and> errors_is x ErrSettlementApplied")
    case True
    then have rep: "replaySettlement c (s_ID s) w1 = (r, w')" using assms(1) tx by (auto simp: applySettlement_def)
    obtain rs w2 where f: "lr_FindBySettlementID (pc_ledger c) (s_ID s) w1 = (rs, w2)" by fastforce
    have 2: "lobby_run c w w2" using run_into [OF 1 l_find_settlement [OF f]] .
    show ?thesis
      using rep f 2
      by (auto simp: replaySettlement_def split: sum.splits dest: result_after)
  next
    case False
    then show ?thesis
      using assms(1) tx 1
      by (auto simp: applySettlement_def split: option.splits if_splits dest: result_after)
  qed
qed

text \<open>The handler of settlements is a run of such steps.\<close>

lemma settlement_run:
  assumes "settlement cd c now now1 now2 envelope w = (r, w')" "pb_SettlementRequest cd (en_Payload envelope) = Inr q"
    and "plain_field (sq_AssetType q)" "in_s64 (sq_Delta q)"
  shows "lobby_run c w w'"
proof (cases "invalidRequest q")
  case True
  then show ?thesis using assms by (simp add: settlement_def)
next
  case False
  let ?s = "settlementOf q now"
  obtain rs w1 where f: "lr_FindBySettlementID (pc_ledger c) (s_ID ?s) w = (rs, w1)" by fastforce
  have 1: "lobby_run c w w1" using l_find_settlement [OF f] by blast
  have s: "s_AssetType ?s = sq_AssetType q" "s_Delta ?s = sq_Delta q" by (simp_all add: settlementOf_def)
  have out: "(r, w') = (case rs of
       Inr old \<Rightarrow> if \<not> sameSettlement old ?s then (Inl (Sentinel ErrSettlementConflict), w1) else settlementResult c old True w1
     | Inl e \<Rightarrow> if \<not> errors_is e ErrSettlementNotFound then (Inl e, w1) else applySettlement c now1 now2 ?s w1)"
    using assms(1,2) False f by (auto simp: settlement_def Let_def split: sum.splits)
  show ?thesis
  proof (cases rs)
    case (Inl e)
    then show ?thesis using out 1 rtranclp_trans [OF 1 applySettlement_run [of c now1 now2 ?s w1 r w']] assms(3,4)
      by (auto simp: s split: if_splits)
  next
    case (Inr old)
    then show ?thesis using out 1 result_after [OF sym] by (auto split: if_splits)
  qed
qed

lemma findOrCreate_run:
  assumes "findOrCreate c uuid now acc w = (r, w')"
  shows "lobby_run c w w'"
proof -
  obtain r1 w1 where f: "pr_FindDefaultByAccountID (pc_players c) acc w = (r1, w1)" by fastforce
  have 1: "lobby_run c w w1" using l_find_default [OF f] by blast
  have 2: "lobby_run c w w2" if "transactionally c (createPlayer c (newPlayer i acc now) (initialAssets i now) now) w1 = (e, w2)" for i e w2
    using run_into [OF 1 l_create [OF that]] .
  have 3: "lobby_run c w w3" if "transactionally c (createPlayer c (newPlayer i acc now) (initialAssets i now) now) w1 = (e, w2)"
    "pr_FindDefaultByAccountID (pc_players c) acc w2 = (r3, w3)" for i e w2 r3 w3
    using run_into [OF 2 [OF that(1)] l_find_default [OF that(2)]] .
  show ?thesis
    using assms f 1 2 3
    by (auto simp: findOrCreate_def Let_def split: sum.splits prod.splits option.splits if_splits)
qed

text \<open>So is the handler that ensures a player, and the one that restores a state.\<close>

lemma ensurePlayer_run:
  assumes "ensurePlayer cd c uuid now envelope w = (r, w')"
  shows "lobby_run c w w'"
proof -
  have link: "lobby_run c w w2" if "findOrCreate c uuid now acc w = (r, w1)" "pc_linker c = Some k" "k acc i w1 = (e, w2)"
    for w1 w2 k acc i e r
    using run_into [OF findOrCreate_run [OF that(1)] l_link [OF that(2,3)]] .
  show ?thesis
    using assms
    by (auto simp: ensurePlayer_def Let_def split: sum.splits prod.splits option.splits if_splits
        dest: findOrCreate_run intro: link)
qed

lemma loadSnapshot_run:
  assumes "loadSnapshot c now i w = (r, w')"
  shows "lobby_run c w w'"
proof -
  obtain r1 w1 where 1: "nr_FindByPlayerID (pc_snapshot c) i w = (r1, w1)" by fastforce
  obtain r2 w2 where 2: "pr_FindByID (pc_players c) i w1 = (r2, w2)" by fastforce
  obtain r3 w3 where 3: "ar_FindByPlayerID (pc_assets c) i w2 = (r3, w3)" by fastforce
  have 4: "lobby_run c w w1" using l_find_snapshot [OF 1] by blast
  have 5: "lobby_run c w w2" using run_into [OF 4 l_find_player [OF 2]] .
  have 6: "lobby_run c w w3" using run_into [OF 5 l_find_assets [OF 3]] .
  have 7: "lobby_run c w (snd (nr_Save (pc_snapshot c) n w3))" for n
    using run_into [OF 6 l_snapshot [OF prod.collapse [symmetric]]] .
  show ?thesis
    using assms 1 2 3 4 5 6 7
    by (auto simp: loadSnapshot_def Let_def split: sum.splits if_splits)
qed

lemma restore_run: "restore cd c now envelope w = (r, w') \<Longrightarrow> lobby_run c w w'"
  using loadSnapshot_run
  by (fastforce simp: restore_def Let_def split: sum.splits prod.splits if_splits)

section \<open>The component refines the machine\<close>

lemma component_fields [simp]:
  "pc_players (NewPlayerComponent P A L S U K) = P" "pc_assets (NewPlayerComponent P A L S U K) = A"
  "pc_ledger (NewPlayerComponent P A L S U K) = L" "pc_snapshot (NewPlayerComponent P A L S U K) = S"
  "transactionally (NewPlayerComponent P A L S (Some tx) K) f = tx f" "pc_linker (NewPlayerComponent P A L S U K) = K"
  by (simp_all add: NewPlayerComponent_def transactionally_def)

text \<open>The response to a settlement.\<close>

definition settlement_response :: "Settlement \<Rightarrow> bool \<Rightarrow> Assets \<Rightarrow> MessageResult" where
  "settlement_response s replayed a = \<lparr>mr_MessageID = SETTLEMENT_RESPONSE,
     mr_Message = Some (MSettlementResponse
       \<lparr>sp_SettlementId = s_ID s, sp_PlayerId = s_PlayerID s, sp_AssetType = s_AssetType s,
        sp_Balance = Balance a (s_AssetType s), sp_AssetVersion = a_AssetVersion a, sp_Replayed = replayed\<rparr>)\<rparr>"

context lobby_store
begin

abbreviation comp :: "'w PlayerComponent" where
  "comp \<equiv> NewPlayerComponent P A L S (Some tx) (Some link)"

subsection \<open>Transactions\<close>

lemma createPlayer_ok:
  assumes w: "invar w" and c: "createPlayer comp p (initialAssets (p_ID p) now) now w = (e, w')"
  shows "invar w'" "e = None \<Longrightarrow> abs w' = open_account p now (abs w) \<and> lv_players (abs w) (p_ID p) = None \<and>
    (\<forall>q \<in> ran (lv_players (abs w)). p_IsDefault p \<and> p_IsDefault q \<longrightarrow> p_AccountID q \<noteq> p_AccountID p)"
proof -
  obtain e1 w1 where 1: "pr_Create P p w = (e1, w1)" by fastforce
  obtain e2 w2 where 2: "ar_Create A (initialAssets (p_ID p) now) w1 = (e2, w2)" by fastforce
  define n where "n = \<lparr>n_Player = p, n_Assets = initialAssets (p_ID p) now, n_SchemaVersion = 1, n_CreatedAt = now\<rparr>"
  obtain e3 w3 where 3: "nr_Save S n w2 = (e3, w3)" by fastforce
  note l1 = player_create [OF w 1]
  note l2 = assets_create [OF conjunct1 [OF l1] 2]
  note l3 = snapshot_save [OF conjunct1 [OF l2] 3]
  have eq: "(e, w') = (case e1 of Some x \<Rightarrow> (Some x, w1) | None \<Rightarrow> (case e2 of Some x \<Rightarrow> (Some x, w2) | None \<Rightarrow> (e3, w3)))"
    using c 1 2 3 by (auto simp: createPlayer_def n_def split: option.splits)
  show "invar w'" using eq l1 l2 l3 by (auto split: option.splits)
  assume "e = None"
  then have "e1 = None" "e2 = None" "e3 = None" "w' = w3" using eq by (auto split: option.splits)
  then show "abs w' = open_account p now (abs w) \<and> lv_players (abs w) (p_ID p) = None \<and>
    (\<forall>q \<in> ran (lv_players (abs w)). p_IsDefault p \<and> p_IsDefault q \<longrightarrow> p_AccountID q \<noteq> p_AccountID p)"
    using l1 l2 l3 by (simp add: open_account_def n_def initialAssets_def)
qed

lemma executeSettlement_ok:
  assumes w: "invar w" and t: "plain_field (s_AssetType s)" and c: "executeSettlement comp now1 now2 s w = (e, w')"
  shows "invar w'"
    "e = None \<Longrightarrow> \<exists>p a. allowed s p a (abs w) \<and> abs w' = settle now1 now2 s p a (abs w)"
    "e = Some er \<Longrightarrow> errors_is er ErrSettlementApplied \<Longrightarrow> lv_ledger (abs w) (s_ID s) \<noteq> None"
proof -
  obtain e1 w1 where 1: "lr_Create L s w = (e1, w1)" by fastforce
  obtain r2 w2 where 2: "ar_ApplyDelta A now1 (s_PlayerID s) (s_AssetType s) (s_Delta s) w1 = (r2, w2)" by fastforce
  obtain r3 w3 where 3: "pr_FindByID P (s_PlayerID s) w2 = (r3, w3)" by fastforce
  define n where "n p a = \<lparr>n_Player = p, n_Assets = a, n_SchemaVersion = 1, n_CreatedAt = now2\<rparr>" for p a
  note l1 = ledger_create [OF w 1]
  have out: "(e, w') = (case e1 of Some x \<Rightarrow> (Some x, w1) | None \<Rightarrow> (case r2 of Inl x \<Rightarrow> (Some x, w2) | Inr a \<Rightarrow>
      (case r3 of Inl x \<Rightarrow> (Some x, w3) | Inr p \<Rightarrow> nr_Save S (n p a) w3)))"
    using c 1 2 3 by (auto simp: executeSettlement_def n_def split: option.splits sum.splits)
  have l2: "invar w2 \<and>
      (case r2 of Inl er \<Rightarrow> abs w2 = abs w1 \<and> \<not> errors_is er ErrSettlementApplied
           \<and> (errors_is er ErrInsufficientCurrency \<longrightarrow> (\<forall>a. lv_assets (abs w1) (s_PlayerID s) = Some a \<longrightarrow> \<not> covers a (s_AssetType s) (s_Delta s)))
       | Inr a' \<Rightarrow> (\<exists>a. lv_assets (abs w1) (s_PlayerID s) = Some a \<and> covers a (s_AssetType s) (s_Delta s)
           \<and> a' = applied now1 (s_AssetType s) (s_Delta s) a
           \<and> in_s64 (Balance a (s_AssetType s) + s_Delta s) \<and> unat (a_AssetVersion a') = unat (a_AssetVersion a) + 1
           \<and> abs w2 = (abs w1)\<lparr>lv_assets := (lv_assets (abs w1))(s_PlayerID s \<mapsto> a')\<rparr>))" if "e1 = None"
  proof (rule apply_delta [OF conjunct1 [OF l1] t _ 2])
    show "s_Delta s \<noteq> 0" using l1 that by (auto simp: Settlement_Validate_def split: if_splits)
  qed
  have l3: "invar w3 \<and> abs w3 = abs w2 \<and> (case r3 of Inr p \<Rightarrow> lv_players (abs w2) (s_PlayerID s) = Some p
       | Inl er \<Rightarrow> \<not> errors_is er ErrSettlementApplied \<and> (errors_is er ErrPlayerNotFound \<longrightarrow> lv_players (abs w2) (s_PlayerID s) = None))"
    if "e1 = None" using find_player [OF conjunct1 [OF l2 [OF that]] 3] .
  have l4: "invar w4 \<and> (case e4 of Some er \<Rightarrow> abs w4 = abs w3 \<and> \<not> errors_is er ErrSettlementApplied
       | None \<Rightarrow> abs w4 = (abs w3)\<lparr>lv_snapshots := (lv_snapshots (abs w3))(p_ID (n_Player m) \<mapsto> storedSnapshot m)\<rparr>)"
    if "e1 = None" "nr_Save S m w3 = (e4, w4)" for m e4 w4
    using snapshot_save [OF conjunct1 [OF l3 [OF that(1)]] that(2)] .
  show "invar w'"
    using out l1 l2 l3 l4 [OF _ sym] by (auto split: option.splits sum.splits)
  show "\<exists>p a. allowed s p a (abs w) \<and> abs w' = settle now1 now2 s p a (abs w)" if e: "e = None"
  proof -
    have e1: "e1 = None" using out e by (auto split: option.splits)
    obtain a' where r2: "r2 = Inr a'" using out e e1 by (auto split: sum.splits)
    obtain p where r3: "r3 = Inr p" using out e e1 r2 by (auto split: sum.splits)
    have sv: "nr_Save S (n p a') w3 = (None, w')" using out e e1 r2 r3 by simp
    have v1: "Settlement_Validate s = None" "lv_ledger (abs w) (s_ID s) = None"
      "abs w1 = (abs w)\<lparr>lv_ledger := (lv_ledger (abs w))(s_ID s \<mapsto> storedSettlement s)\<rparr>"
      using l1 e1 by simp_all
    obtain a where a: "lv_assets (abs w) (s_PlayerID s) = Some a" "covers a (s_AssetType s) (s_Delta s)"
      "a' = applied now1 (s_AssetType s) (s_Delta s) a" "in_s64 (Balance a (s_AssetType s) + s_Delta s)"
      "unat (a_AssetVersion a') = unat (a_AssetVersion a) + 1"
      "abs w2 = (abs w1)\<lparr>lv_assets := (lv_assets (abs w1))(s_PlayerID s \<mapsto> a')\<rparr>"
      using l2 [OF e1] r2 v1(3) by auto
    have p: "lv_players (abs w) (s_PlayerID s) = Some p" "abs w3 = abs w2"
      using l3 [OF e1] r3 a(6) v1(3) by simp_all
    have "abs w' = settle now1 now2 s p a (abs w)"
      using l4 [OF e1 sv] p(2) a(3,6) v1(3) by (simp add: settle_def Let_def n_def)
    moreover have "allowed s p a (abs w)" using v1 a p by (simp add: allowed_def)
    ultimately show ?thesis by blast
  qed
  show "lv_ledger (abs w) (s_ID s) \<noteq> None" if e: "e = Some er" and er: "errors_is er ErrSettlementApplied"
  proof -
    from out e consider "e1 = Some er" | "e1 = None" "r2 = Inl er" | "e1 = None" "r3 = Inl er"
      | p a where "e1 = None" "nr_Save S (n p a) w3 = (Some er, w')"
      by (auto split: option.splits sum.splits)
    then show ?thesis
    proof cases
      case 1
      then show ?thesis using l1 er by simp
    next
      case 2
      then show ?thesis using l2 er by simp
    next
      case 3
      then show ?thesis using l3 er by simp
    next
      case 4
      then show ?thesis using l4 [OF 4] er by simp
    qed
  qed
qed

end

context lobby_store
begin

lemma create_tx:
  assumes w: "invar w" and c: "tx (createPlayer comp p (initialAssets (p_ID p) now) now) w = (e, w')"
  shows "invar w' \<and> (e = None \<and> abs w' = open_account p now (abs w) \<and> lv_players (abs w) (p_ID p) = None
        \<and> (\<forall>q \<in> ran (lv_players (abs w)). p_IsDefault p \<and> p_IsDefault q \<longrightarrow> p_AccountID q \<noteq> p_AccountID p)
      \<or> e \<noteq> None \<and> (abs w' = abs w \<or> abs w' = open_account p now (abs w) \<and> lv_players (abs w) (p_ID p) = None
        \<and> (\<forall>q \<in> ran (lv_players (abs w)). p_IsDefault p \<and> p_IsDefault q \<longrightarrow> p_AccountID q \<noteq> p_AccountID p)))"
proof -
  let ?R = "\<lambda>v v'. v' = open_account p now v \<and> lv_players v (p_ID p) = None
    \<and> (\<forall>q \<in> ran (lv_players v). p_IsDefault p \<and> p_IsDefault q \<longrightarrow> p_AccountID q \<noteq> p_AccountID p)"
  have "invar w' \<and> (e = None \<and> ?R (abs w) (abs w')
      \<or> (\<exists>er. e = Some er \<and> (abs w' = abs w \<or> foreign er \<and> ?R (abs w) (abs w'))))"
  proof (rule tx_effect [OF w c])
    show "invar w2 \<and> ?R (abs w) (abs w2)" if "invar w1" "abs w1 = abs w"
      "createPlayer comp p (initialAssets (p_ID p) now) now w1 = (None, w2)" for w1 w2
      using createPlayer_ok [OF that(1,3)] that(2) by simp
  qed
  then show ?thesis by auto
qed

lemma settle_tx:
  assumes w: "invar w" and t: "plain_field (s_AssetType s)" and c: "tx (executeSettlement comp now1 now2 s) w = (e, w')"
  shows "invar w'"
    "e = None \<Longrightarrow> \<exists>p a. allowed s p a (abs w) \<and> abs w' = settle now1 now2 s p a (abs w)"
    "e \<noteq> None \<Longrightarrow> abs w' = abs w \<or> (\<exists>p a. allowed s p a (abs w) \<and> abs w' = settle now1 now2 s p a (abs w))"
    "e = Some er \<Longrightarrow> errors_is er ErrSettlementApplied \<Longrightarrow> abs w' = abs w \<and> lv_ledger (abs w) (s_ID s) \<noteq> None"
proof -
  have "invar w' \<and> (e = None \<longrightarrow> (\<exists>p a. allowed s p a (abs w) \<and> abs w' = settle now1 now2 s p a (abs w)))
    \<and> (e \<noteq> None \<longrightarrow> abs w' = abs w \<or> (\<exists>p a. allowed s p a (abs w) \<and> abs w' = settle now1 now2 s p a (abs w)))
    \<and> (e = Some er \<longrightarrow> errors_is er ErrSettlementApplied \<longrightarrow> abs w' = abs w \<and> lv_ledger (abs w) (s_ID s) \<noteq> None)" for er
  proof (cases e)
    case None
    from tx_commit [OF w c [unfolded None]] obtain w1 w2 where t1: "invar w1" "abs w1 = abs w"
      "executeSettlement comp now1 now2 s w1 = (None, w2)" "invar w2 \<longrightarrow> invar w' \<and> abs w' = abs w2" by blast
    show ?thesis using None t1 executeSettlement_ok(1,2) [OF t1(1) t t1(3)] by simp
  next
    case (Some x)
    from tx_abort [OF w c [unfolded Some]] consider "invar w'" "abs w' = abs w" "foreign x"
      | w1 w2 where "invar w'" "abs w' = abs w" "invar w1" "abs w1 = abs w" "executeSettlement comp now1 now2 s w1 = (Some x, w2)"
      | w1 w2 where "foreign x" "invar w1" "abs w1 = abs w" "executeSettlement comp now1 now2 s w1 = (None, w2)"
        "invar w2 \<longrightarrow> invar w' \<and> abs w' = abs w2" by blast
    then show ?thesis
    proof cases
      case 1
      then show ?thesis using Some by (auto dest: foreignD)
    next
      case 2
      then show ?thesis using Some executeSettlement_ok(3) [OF 2(3) t 2(5)] by auto
    next
      case 3
      then show ?thesis using Some executeSettlement_ok(1,2) [OF 3(2) t 3(4)] by (auto dest: foreignD)
    qed
  qed
  then show "invar w'"
    "e = None \<Longrightarrow> \<exists>p a. allowed s p a (abs w) \<and> abs w' = settle now1 now2 s p a (abs w)"
    "e \<noteq> None \<Longrightarrow> abs w' = abs w \<or> (\<exists>p a. allowed s p a (abs w) \<and> abs w' = settle now1 now2 s p a (abs w))"
    "e = Some er \<Longrightarrow> errors_is er ErrSettlementApplied \<Longrightarrow> abs w' = abs w \<and> lv_ledger (abs w) (s_ID s) \<noteq> None"
    by blast+
qed

subsection \<open>Every step keeps the books\<close>

lemma step_books:
  assumes "lobby_step comp w w'" "invar w" "books (abs w)"
  shows "invar w' \<and> books (abs w')"
  using assms(1)
proof cases
  case (l_create i acc now e)
  have "invar w' \<and> (abs w' = abs w \<or> abs w' = open_account (newPlayer i acc now) now (abs w)
      \<and> lv_players (abs w) i = None \<and> (\<forall>q \<in> ran (lv_players (abs w)). p_IsDefault q \<longrightarrow> p_AccountID q \<noteq> acc))"
    using create_tx [OF assms(2), of "newPlayer i acc now" now e w'] l_create by (auto simp: newPlayer_def)
  then show ?thesis
    using assms(3) books_open [of "abs w" "newPlayer i acc now" acc now] by (auto simp: newPlayer_def)
next
  case (l_settle s now1 now2 e)
  have tx: "tx (executeSettlement comp now1 now2 s) w = (e, w')" using l_settle(3) by simp
  have "abs w' = abs w \<or> (\<exists>p a. allowed s p a (abs w) \<and> abs w' = settle now1 now2 s p a (abs w))"
    using settle_tx(2,3) [OF assms(2) l_settle(1) tx] by (cases e) auto
  then show ?thesis using assms(3) settle_tx(1) [OF assms(2) l_settle(1) tx] books_settle l_settle(2) by metis
next
  case (l_find_default acc r)
  then show ?thesis using find_default [OF assms(2)] assms(3) by fastforce
next
  case (l_find_player i r)
  then show ?thesis using find_player [OF assms(2)] assms(3) by fastforce
next
  case (l_find_assets i r)
  then show ?thesis using find_assets [OF assms(2)] assms(3) by fastforce
next
  case (l_find_settlement i r)
  then show ?thesis using find_settlement [OF assms(2)] assms(3) by fastforce
next
  case (l_find_snapshot i r)
  then show ?thesis using find_snapshot [OF assms(2)] assms(3) by fastforce
next
  case (l_snapshot n e)
  then show ?thesis using snapshot_save [OF assms(2), of n e w'] assms(3)
    by (auto simp: books_snapshot split: option.splits)
next
  case (l_link k acc i e)
  then show ?thesis using link_keeps [OF assms(2), of acc i e w'] assms(3) by simp
qed

lemma run_books:
  assumes "lobby_run comp w w'" "invar w" "books (abs w)"
  shows "invar w' \<and> books (abs w')"
  using assms by (induction rule: rtranclp_induct) (use step_books in blast)+

end

section \<open>Settling at most once\<close>

text \<open>A client that repeats its request, each call with its own clock readings.\<close>

fun resubmit ::
    "codec \<Rightarrow> 'w PlayerComponent \<Rightarrow> (gotime \<times> gotime \<times> gotime) list \<Rightarrow> InternalEnvelope \<Rightarrow> 'w \<Rightarrow>
     MessageResult option result list \<times> 'w" where
  "resubmit cd c [] envelope w = ([], w)"
| "resubmit cd c ((now, now1, now2) # ts) envelope w =
     (case settlement cd c now now1 now2 envelope w of (r, w1) \<Rightarrow>
      (case resubmit cd c ts envelope w1 of (rs, w2) \<Rightarrow> (r # rs, w2)))"

definition settle_once :: "SettlementRequest \<Rightarrow> lobby_view \<Rightarrow> lobby_view \<Rightarrow> bool" where
  "settle_once q v v' \<longleftrightarrow> (\<exists>now now1 now2 p a. allowed (settlementOf q now) p a v
     \<and> v' = settle now1 now2 (settlementOf q now) p a v)"

lemma settle_onceI: "allowed (settlementOf q now) p a v \<Longrightarrow> settle_once q v (settle now1 now2 (settlementOf q now) p a v)"
  unfolding settle_once_def by blast

lemma settlementOf_fields [simp]:
  "s_ID (settlementOf q now) = sq_SettlementId q" "s_PlayerID (settlementOf q now) = sq_PlayerId q"
  "s_AssetType (settlementOf q now) = sq_AssetType q" "s_Delta (settlementOf q now) = sq_Delta q"
  by (simp_all add: settlementOf_def)

lemma settle_once_ledger: "settle_once q v v' \<Longrightarrow> lv_ledger v' (sq_SettlementId q) \<noteq> None"
  by (auto simp: settle_once_def settle_def Let_def)

lemma settle_fields:
  "lv_assets (settle now1 now2 s p a v) = (lv_assets v)(s_PlayerID s \<mapsto> applied now1 (s_AssetType s) (s_Delta s) a)"
  "lv_ledger (settle now1 now2 s p a v) = (lv_ledger v)(s_ID s \<mapsto> storedSettlement s)"
  "lv_players (settle now1 now2 s p a v) = lv_players v"
  by (simp_all add: settle_def Let_def)

context lobby_store
begin

lemma settlementResult_ok:
  assumes "invar w" "settlementResult comp s b w = (r, w')"
  shows "invar w'" "abs w' = abs w"
    "r = Inr m \<Longrightarrow> \<exists>a. lv_assets (abs w) (s_PlayerID s) = Some a \<and> m = Some (settlement_response s b a)"
proof -
  obtain ra w1 where f: "ar_FindByPlayerID A (s_PlayerID s) w = (ra, w1)" by fastforce
  have w': "w' = w1" using assms(2) f by (auto simp: settlementResult_def split: sum.splits)
  then show "invar w'" "abs w' = abs w" using find_assets [OF assms(1) f] by simp_all
  show "\<exists>a. lv_assets (abs w) (s_PlayerID s) = Some a \<and> m = Some (settlement_response s b a)" if "r = Inr m"
    using find_assets [OF assms(1) f] assms(2) f that
    by (auto simp: settlementResult_def settlement_response_def split: sum.splits)
qed

lemma applySettlement_new:
  assumes w: "invar w" and t: "plain_field (s_AssetType s)" and new: "lv_ledger (abs w) (s_ID s) = None"
    and c: "applySettlement comp now1 now2 s w = (r, w')"
  shows "invar w'" and
    "case r of
       Inl _ \<Rightarrow> abs w' = abs w \<or> (\<exists>p a. allowed s p a (abs w) \<and> abs w' = settle now1 now2 s p a (abs w))
     | Inr m \<Rightarrow> \<exists>p a. allowed s p a (abs w) \<and> abs w' = settle now1 now2 s p a (abs w)
         \<and> m = Some (settlement_response s False (applied now1 (s_AssetType s) (s_Delta s) a))" (is "?out r w'")
proof -
  obtain e w1 where tx: "tx (executeSettlement comp now1 now2 s) w = (e, w1)" by fastforce
  note T = settle_tx [OF w t tx]
  have "invar w' \<and> ?out r w'"
  proof (cases e)
    case (Some x)
    then have "\<not> errors_is x ErrSettlementApplied" using T(4) [of x] new by blast
    then have "r = Inl x" "w' = w1" using c tx Some by (simp_all add: applySettlement_def)
    then show ?thesis using T(1,3) Some by auto
  next
    case None
    then have res: "settlementResult comp s False w1 = (r, w')" using c tx by (simp add: applySettlement_def)
    obtain p a where "allowed s p a (abs w)" "abs w1 = settle now1 now2 s p a (abs w)" using T(2) None by blast
    then show ?thesis using settlementResult_ok [OF T(1) res] by (auto simp: settle_fields split: sum.splits)
  qed
  then show "invar w'" "?out r w'" by blast+
qed

lemma applySettlement_recorded:
  assumes w: "invar w" and t: "plain_field (s_AssetType s)" and old: "lv_ledger (abs w) (s_ID s) = Some old"
    and c: "applySettlement comp now1 now2 s w = (Inr m, w')"
  shows "abs w' = abs w \<and> (\<exists>a. lv_assets (abs w) (s_PlayerID old) = Some a \<and> m = Some (settlement_response old True a))"
proof -
  obtain e w1 where tx: "tx (executeSettlement comp now1 now2 s) w = (e, w1)" by fastforce
  note T = settle_tx [OF w t tx]
  have "e \<noteq> None" using T(2) old by (auto simp: allowed_def)
  then obtain x where x: "e = Some x" "errors_is x ErrSettlementApplied"
    using c tx by (auto simp: applySettlement_def split: if_splits)
  then have same: "abs w1 = abs w" using T(4) by simp
  obtain r2 w2 where f: "lr_FindBySettlementID L (s_ID s) w1 = (r2, w2)" by fastforce
  note F = find_settlement [OF T(1) f]
  have rep: "replaySettlement comp (s_ID s) w1 = (Inr m, w')" using c tx x by (simp add: applySettlement_def)
  then have "r2 = Inr old" using f F old same by (cases r2) (auto simp: replaySettlement_def)
  then have "settlementResult comp old True w2 = (Inr m, w')" using rep f by (simp add: replaySettlement_def)
  from settlementResult_ok [OF conjunct1 [OF F] this] show ?thesis using F same by simp
qed

lemma settlement_outcome:
  assumes w: "invar w" and q: "pb_SettlementRequest cd (en_Payload envelope) = Inr q"
    and ok: "\<not> invalidRequest q" and t: "plain_field (sq_AssetType q)"
    and c: "settlement cd comp now now1 now2 envelope w = (r, w')"
  shows "invar w'" and
    "case lv_ledger (abs w) (sq_SettlementId q) of
       None \<Rightarrow> (case r of
           Inl _ \<Rightarrow> abs w' = abs w \<or> settle_once q (abs w) (abs w')
         | Inr m \<Rightarrow> \<exists>p a. allowed (settlementOf q now) p a (abs w)
             \<and> abs w' = settle now1 now2 (settlementOf q now) p a (abs w)
             \<and> m = Some (settlement_response (settlementOf q now) False
                          (applied now1 (sq_AssetType q) (sq_Delta q) a)))
     | Some old \<Rightarrow> abs w' = abs w \<and> (case r of
           Inl _ \<Rightarrow> True
         | Inr m \<Rightarrow> sameSettlement old (settlementOf q now) \<and>
             (\<exists>a. lv_assets (abs w) (s_PlayerID old) = Some a \<and> m = Some (settlement_response old True a)))"
    (is "?out")
proof -
  define s where "s = settlementOf q now"
  obtain fr w1 where f: "lr_FindBySettlementID L (s_ID s) w = (fr, w1)" by fastforce
  note F = find_settlement [OF w f]
  have "invar w' \<and> ?out"
  proof (cases fr)
    case (Inr old)
    then have led: "lv_ledger (abs w) (sq_SettlementId q) = Some old" using F by (simp add: s_def)
    have "settlementResult comp old True w1 = (r, w')" if "sameSettlement old s"
      using c q ok Inr f that by (simp add: settlement_def s_def Let_def)
    moreover have "w' = w1 \<and> (\<exists>x. r = Inl x)" if "\<not> sameSettlement old s"
      using c q ok Inr f that by (auto simp: settlement_def s_def Let_def)
    ultimately show ?thesis using settlementResult_ok [of w1 old True r w'] F led
      by (cases "sameSettlement old s") (auto simp: s_def split: sum.splits)
  next
    case (Inl er)
    show ?thesis
    proof (cases "errors_is er ErrSettlementNotFound")
      case True
      then have "lv_ledger (abs w1) (s_ID s) = None" "invar w1" "abs w1 = abs w" using F Inl by auto
      moreover have "applySettlement comp now1 now2 s w1 = (r, w')"
        using c q ok Inl f True by (simp add: settlement_def s_def Let_def)
      ultimately show ?thesis using applySettlement_new [of w1 s now1 now2 r w'] t
        by (auto simp: s_def intro: settle_onceI split: sum.splits)
    next
      case False
      then have "r = Inl er" "w' = w1" using c q ok Inl f by (simp_all add: settlement_def s_def Let_def)
      then show ?thesis using F by (auto split: option.splits)
    qed
  qed
  then show "invar w'" "?out" by blast+
qed

lemma resubmit_recorded:
  assumes "invar w" and q: "pb_SettlementRequest cd (en_Payload envelope) = Inr q"
    and ok: "\<not> invalidRequest q" and t: "plain_field (sq_AssetType q)"
    and "lv_ledger (abs w) (sq_SettlementId q) = Some old" "resubmit cd comp ts envelope w = (rs, w')"
  shows "invar w' \<and> abs w' = abs w"
  using assms(1,5,6)
proof (induction ts arbitrary: w rs)
  case (Cons x ts)
  obtain now now1 now2 where x: "x = (now, now1, now2)" by (cases x)
  obtain r w1 where c: "settlement cd comp now now1 now2 envelope w = (r, w1)" by fastforce
  obtain rs' where more: "resubmit cd comp ts envelope w1 = (rs', w')"
    using Cons.prems(3) by (auto simp: x c split: prod.splits)
  note S = settlement_outcome [OF Cons.prems(1) q ok t c]
  have same: "abs w1 = abs w" using S(2) Cons.prems(2) by simp
  show ?case using Cons.IH [OF S(1) _ more] same Cons.prems(2) by simp
qed simp

lemma resubmit_once:
  assumes "invar w" and q: "pb_SettlementRequest cd (en_Payload envelope) = Inr q"
    and ok: "\<not> invalidRequest q" and t: "plain_field (sq_AssetType q)"
    and "lv_ledger (abs w) (sq_SettlementId q) = None" "resubmit cd comp ts envelope w = (rs, w')"
  shows "(abs w' = abs w \<and> (\<forall>r \<in> set rs. isl r)) \<or> settle_once q (abs w) (abs w')"
  using assms(1,5,6)
proof (induction ts arbitrary: w rs)
  case (Cons x ts)
  obtain now now1 now2 where x: "x = (now, now1, now2)" by (cases x)
  obtain r w1 where c: "settlement cd comp now now1 now2 envelope w = (r, w1)" by fastforce
  obtain rs' where more: "resubmit cd comp ts envelope w1 = (rs', w')" and rs: "rs = r # rs'"
    using Cons.prems(3) by (auto simp: x c split: prod.splits)
  note S = settlement_outcome [OF Cons.prems(1) q ok t c]
  have "(abs w1 = abs w \<and> isl r) \<or> settle_once q (abs w) (abs w1)"
    using S(2) Cons.prems(2) by (cases r) (auto intro: settle_onceI)
  then show ?case
  proof
    assume "abs w1 = abs w \<and> isl r"
    then show ?thesis using Cons.IH [OF S(1) _ more] Cons.prems(2) rs by auto
  next
    assume s: "settle_once q (abs w) (abs w1)"
    then obtain old where "lv_ledger (abs w1) (sq_SettlementId q) = Some old"
      using settle_once_ledger by blast
    then show ?thesis using resubmit_recorded [OF S(1) q ok t _ more] s by simp
  qed
qed simp

subsection \<open>One player per account\<close>

lemma step_players:
  assumes "lobby_step comp w w'" "invar w" "lv_players (abs w) i = Some p"
  shows "lv_players (abs w') i = Some p"
  using assms(1)
proof cases
  case (l_create j acc now e)
  then show ?thesis
    using create_tx [OF assms(2), of "newPlayer j acc now" now e w'] assms(3)
    by (auto simp: newPlayer_def open_account_def)
next
  case (l_settle s now1 now2 e)
  then have tx: "tx (executeSettlement comp now1 now2 s) w = (e, w')" by simp
  have "abs w' = abs w \<or> (\<exists>p a. abs w' = settle now1 now2 s p a (abs w))"
    using settle_tx(2,3) [OF assms(2) l_settle(1) tx] by (cases e) auto
  then show ?thesis using assms(3) by (auto simp: settle_fields)
next
  case (l_find_default acc r)
  then show ?thesis using find_default [OF assms(2)] assms(3) by fastforce
next
  case (l_find_player i r)
  then show ?thesis using find_player [OF assms(2)] assms(3) by fastforce
next
  case (l_find_assets i r)
  then show ?thesis using find_assets [OF assms(2)] assms(3) by fastforce
next
  case (l_find_settlement i r)
  then show ?thesis using find_settlement [OF assms(2)] assms(3) by fastforce
next
  case (l_find_snapshot i r)
  then show ?thesis using find_snapshot [OF assms(2)] assms(3) by fastforce
next
  case (l_snapshot n e)
  then show ?thesis using snapshot_save [OF assms(2), of n e w'] assms(3) by (auto split: option.splits)
next
  case (l_link k acc i e)
  then show ?thesis using link_keeps [OF assms(2), of acc i e w'] assms(3) by simp
qed

lemma run_players:
  assumes "lobby_run comp w w'" "invar w" "books (abs w)" "lv_players (abs w) i = Some p"
  shows "lv_players (abs w') i = Some p"
  using assms
proof (induction rule: rtranclp_induct)
  case (step y z)
  then show ?case using step_players [OF step(2)] run_books [OF step(1)] by blast
qed

lemma findOrCreate_default:
  assumes w: "invar w" and c: "findOrCreate comp uuid now acc w = (Inr (p, created), w')"
  shows "\<exists>q. lv_players (abs w') (p_ID p) = Some q \<and> p_AccountID q = acc \<and> p_IsDefault q" "invar w'"
proof -
  obtain r1 w1 where 1: "pr_FindDefaultByAccountID P acc w = (r1, w1)" by fastforce
  note F = find_default [OF w 1]
  have "(\<exists>q. lv_players (abs w') (p_ID p) = Some q \<and> p_AccountID q = acc \<and> p_IsDefault q) \<and> invar w'"
  proof (cases r1)
    case (Inr q)
    then show ?thesis using c 1 F by (auto simp: findOrCreate_def)
  next
    case (Inl er)
    then obtain i where i: "uuid = Inr i" using c 1 by (auto simp: findOrCreate_def split: if_splits sum.splits)
    obtain e w2 where tx: "tx (createPlayer comp (newPlayer i acc now) (initialAssets i now) now) w1 = (e, w2)" by fastforce
    have T: "invar w2 \<and> (e = None \<longrightarrow> abs w2 = open_account (newPlayer i acc now) now (abs w1))"
      using create_tx [of w1 "newPlayer i acc now" now e w2] tx F by (auto simp: newPlayer_def)
    obtain r3 w3 where 3: "pr_FindDefaultByAccountID P acc w2 = (r3, w3)" by fastforce
    note F3 = find_default [OF conjunct1 [OF T] 3]
    show ?thesis
    proof (cases e)
      case None
      then have "p = newPlayer i acc now" "w' = w2"
        using c 1 Inl i tx by (auto simp: findOrCreate_def Let_def split: if_splits)
      then show ?thesis using T None by (simp add: open_account_def newPlayer_def storedPlayer_def)
    next
      case (Some x)
      then have "r3 = Inr p" "w' = w3"
        using c 1 Inl i tx 3 by (auto simp: findOrCreate_def Let_def split: if_splits sum.splits)
      then show ?thesis using F3 by auto
    qed
  qed
  then show "\<exists>q. lv_players (abs w') (p_ID p) = Some q \<and> p_AccountID q = acc \<and> p_IsDefault q" "invar w'" by blast+
qed

lemma ensure_default:
  assumes w: "invar w" and q: "pb_EnsurePlayerRequest cd (en_Payload envelope) = Inr q"
    and c: "ensurePlayer cd comp uuid now envelope w = (Inr m, w')"
  shows "\<exists>i created p. m = Some \<lparr>mr_MessageID = ENSURE_PLAYER_RESPONSE,
        mr_Message = Some (MEnsurePlayerResponse
          \<lparr>ep_AccountId = TrimSpace (eq_AccountId q), ep_PlayerId = i, ep_Created = created\<rparr>)\<rparr>
      \<and> lv_players (abs w') i = Some p \<and> p_AccountID p = TrimSpace (eq_AccountId q) \<and> p_IsDefault p" "invar w'"
proof -
  let ?acc = "TrimSpace (eq_AccountId q)"
  obtain p created w1 where f: "findOrCreate comp uuid now ?acc w = (Inr (p, created), w1)"
    and l: "link ?acc (p_ID p) w1 = (None, w')"
    and m: "m = Some \<lparr>mr_MessageID = ENSURE_PLAYER_RESPONSE, mr_Message = Some (MEnsurePlayerResponse
      \<lparr>ep_AccountId = ?acc, ep_PlayerId = p_ID p, ep_Created = created\<rparr>)\<rparr>"
    using c q by (auto simp: ensurePlayer_def Let_def split: sum.splits prod.splits option.splits if_splits)
  note F = findOrCreate_default [OF w f]
  note K = link_keeps [OF F(2) l]
  show "invar w'" using K by blast
  show "\<exists>i created p. m = Some \<lparr>mr_MessageID = ENSURE_PLAYER_RESPONSE,
        mr_Message = Some (MEnsurePlayerResponse \<lparr>ep_AccountId = ?acc, ep_PlayerId = i, ep_Created = created\<rparr>)\<rparr>
      \<and> lv_players (abs w') i = Some p \<and> p_AccountID p = ?acc \<and> p_IsDefault p"
    using F(1) K m by auto
qed

subsection \<open>Restore\<close>

lemma restore_stored:
  assumes w: "invar w" and q: "pb_RestorePlayerStateRequest cd (en_Payload envelope) = Inr q"
    and n: "lv_snapshots (abs w) (rq_PlayerId q) = Some n"
    and c: "restore cd comp now envelope w = (Inr m, w')"
  shows "abs w' = abs w"
    "\<exists>r. m = Some \<lparr>mr_MessageID = RESTORE_PLAYER_STATE_RESPONSE, mr_Message = Some (MRestorePlayerStateResponse r)\<rparr>
       \<and> rp_PlayerId r = rq_PlayerId q \<and> rp_StateVersion r = StateVersion n \<and> rp_Available r
       \<and> (if rq_LastStateVersion q = StateVersion n then rp_Mode r = RESTORE_MODE_NOOP \<and> rp_Snapshot r = []
          else rp_Mode r = RESTORE_MODE_FULL \<and> MarshalStateSnapshot cd n = Inr (rp_Snapshot r))"
proof -
  obtain rn w1 where f: "nr_FindByPlayerID S (rq_PlayerId q) w = (rn, w1)" by fastforce
  note F = find_snapshot [OF w f]
  have ne: "rq_PlayerId q \<noteq> ''''" using c q by (auto simp: restore_def)
  have rn: "rn = Inr n"
  proof (cases rn)
    case (Inl e)
    then have "\<not> errors_is e ErrPlayerNotFound" using F n by auto
    then show ?thesis using c q ne f Inl by (simp add: restore_def loadSnapshot_def)
  next
    case (Inr n')
    then show ?thesis using F n by simp
  qed
  have load: "loadSnapshot comp now (rq_PlayerId q) w = (Inr n, w1)" using f rn by (simp add: loadSnapshot_def)
  have "w' = w1" using c q ne load by (auto simp: restore_def Let_def split: sum.splits)
  then show "abs w' = abs w" using F by simp
  show "\<exists>r. m = Some \<lparr>mr_MessageID = RESTORE_PLAYER_STATE_RESPONSE, mr_Message = Some (MRestorePlayerStateResponse r)\<rparr>
       \<and> rp_PlayerId r = rq_PlayerId q \<and> rp_StateVersion r = StateVersion n \<and> rp_Available r
       \<and> (if rq_LastStateVersion q = StateVersion n then rp_Mode r = RESTORE_MODE_NOOP \<and> rp_Snapshot r = []
          else rp_Mode r = RESTORE_MODE_FULL \<and> MarshalStateSnapshot cd n = Inr (rp_Snapshot r))"
    using c q ne load by (auto simp: restore_def Let_def split: sum.splits if_splits)
qed

end

end
