(* ===== verification/Lobby_Mongo.thy ===== *)
theory Lobby_Mongo
  imports Lobby_Ledger
begin

text \<open>
  The lobby's repositories over a document database (\<^verbatim>\<open>src/services/lobby/repository/mongo\<close>): the operations on
  the driver's collections and the proof that, with a driver that behaves as documented and the indexes
  of \<^verbatim>\<open>indexes.go\<close> in force, they keep the contract \<open>lobby_store\<close>.  Of the indexes, the unique ones matter: they are the
  conflicts of the places below.
\<close>

section \<open>Operations\<close>

definition lobby_ensureIndexes :: "('d, 'w) Collection option \<Rightarrow> 'w action" where
  "lobby_ensureIndexes C w =
     (case C of None \<Rightarrow> (Some (Sentinel ErrCollectionRequired), w) | Some c \<Rightarrow> cl_CreateMany c w)"

subsection \<open>Players\<close>

definition PlayerRepository_Create :: "(playerDocument, 'w) Collection \<Rightarrow> Player \<Rightarrow> 'w action" where
  "PlayerRepository_Create C player w =
     (case playerDocumentFromDomain player of
        Inl e \<Rightarrow> (Some e, w)
      | Inr document \<Rightarrow>
          (case cl_InsertOne C document w of
             (Some e, w1) \<Rightarrow>
               (if IsDuplicateKeyError e then (Some (Wrapf ''create player: duplicate key: '' e), w1) else (Some e, w1))
           | (None, w1) \<Rightarrow> (None, w1)))"

definition PlayerRepository_find ::
    "(playerDocument, 'w) Collection \<Rightarrow> (playerDocument \<Rightarrow> bool) \<Rightarrow> 'w \<Rightarrow> Player result \<times> 'w" where
  "PlayerRepository_find C f w =
     (case cl_FindOne C f None w of
        (Inl e, w1) \<Rightarrow>
          (if errors_is e ErrNoDocuments then (Inl (Sentinel ErrPlayerNotFound), w1) else (Inl e, w1))
      | (Inr document, w1) \<Rightarrow> (Inr (playerDomainFromDocument document), w1))"

definition FindDefaultByAccountID :: "(playerDocument, 'w) Collection \<Rightarrow> string \<Rightarrow> 'w \<Rightarrow> Player result \<times> 'w" where
  "FindDefaultByAccountID C accountID = PlayerRepository_find C (\<lambda>d. pd_AccountID d = accountID \<and> pd_IsDefault d)"

definition FindByID :: "(playerDocument, 'w) Collection \<Rightarrow> string \<Rightarrow> 'w \<Rightarrow> Player result \<times> 'w" where
  "FindByID C playerID = PlayerRepository_find C (\<lambda>d. pd_PlayerID d = playerID)"

definition NewPlayerRepository :: "(playerDocument, 'w) Collection \<Rightarrow> 'w PlayerRepository" where
  "NewPlayerRepository C = \<lparr>pr_EnsureIndexes = lobby_ensureIndexes (Some C), pr_Create = PlayerRepository_Create C,
     pr_FindDefaultByAccountID = FindDefaultByAccountID C, pr_FindByID = FindByID C\<rparr>"

subsection \<open>Assets\<close>

definition AssetRepository_Create :: "(assetsDocument, 'w) Collection \<Rightarrow> Assets \<Rightarrow> 'w action" where
  "AssetRepository_Create C assets = cl_InsertOne C (assetsDocumentFromDomain assets)"

definition AssetRepository_FindByPlayerID ::
    "(assetsDocument, 'w) Collection \<Rightarrow> string \<Rightarrow> 'w \<Rightarrow> Assets result \<times> 'w" where
  "AssetRepository_FindByPlayerID C playerID w =
     (case cl_FindOne C (\<lambda>d. ad_PlayerID d = playerID) None w of
        (Inl e, w1) \<Rightarrow>
          (if errors_is e ErrNoDocuments then (Inl (Sentinel ErrAssetNotFound), w1) else (Inl e, w1))
      | (Inr document, w1) \<Rightarrow> (Inr (assetsDomainFromDocument document), w1))"

text \<open>
  The filter and the update of \<open>ApplyDelta\<close>, for an asset type that is one field name.  \<^verbatim>\<open>$gte\<close> does not match
  a missing field, \<^verbatim>\<open>$inc\<close> creates one, and the server refuses an \<^verbatim>\<open>$inc\<close> whose result is not a 64-bit integer.
\<close>

definition deltaFilter :: "string \<Rightarrow> string \<Rightarrow> int \<Rightarrow> assetsDocument \<Rightarrow> bool" where
  "deltaFilter playerID assetType delta d \<longleftrightarrow> ad_PlayerID d = playerID \<and>
     (delta < 0 \<longrightarrow> (case ad_Currency d assetType of None \<Rightarrow> False | Some b \<Rightarrow> s64 (- delta) \<le> b))"

definition deltaUpdate :: "gotime \<Rightarrow> string \<Rightarrow> int \<Rightarrow> assetsDocument \<Rightarrow> assetsDocument option" where
  "deltaUpdate now assetType delta d =
     (let b = (case ad_Currency d assetType of None \<Rightarrow> 0 | Some b \<Rightarrow> b) + delta in
      if in_s64 b \<and> unat (ad_AssetVersion d) + 1 < 2 ^ 63
      then Some (d\<lparr>ad_Currency := (ad_Currency d)(assetType \<mapsto> b), ad_AssetVersion := ad_AssetVersion d + 1,
                   ad_UpdatedAt := now\<rparr>)
      else None)"

definition ApplyDelta ::
    "(assetsDocument, 'w) Collection \<Rightarrow> gotime \<Rightarrow> string \<Rightarrow> string \<Rightarrow> int \<Rightarrow> 'w \<Rightarrow> Assets result \<times> 'w" where
  "ApplyDelta C now playerID assetType delta w =
     (if delta = 0 then AssetRepository_FindByPlayerID C playerID w
      else (case cl_FindOneAndUpdate C (deltaFilter playerID assetType delta) (deltaUpdate now assetType delta) w of
              (Inl e, w1) \<Rightarrow>
                (if errors_is e ErrNoDocuments then (Inl (Sentinel ErrInsufficientCurrency), w1)
                 else (Inl (Wrapf ''apply asset delta: '' e), w1))
            | (Inr document, w1) \<Rightarrow> (Inr (assetsDomainFromDocument document), w1)))"

definition NewAssetRepository :: "(assetsDocument, 'w) Collection \<Rightarrow> 'w AssetRepository" where
  "NewAssetRepository C = \<lparr>ar_EnsureIndexes = lobby_ensureIndexes (Some C), ar_Create = AssetRepository_Create C,
     ar_FindByPlayerID = AssetRepository_FindByPlayerID C, ar_ApplyDelta = ApplyDelta C\<rparr>"

subsection \<open>Ledger\<close>

definition LedgerRepository_Create :: "(ledgerDocument, 'w) Collection \<Rightarrow> Settlement \<Rightarrow> 'w action" where
  "LedgerRepository_Create C s w =
     (case ledgerDocumentFromDomain s of
        Inl e \<Rightarrow> (Some e, w)
      | Inr document \<Rightarrow>
          (case cl_InsertOne C document w of
             (Some e, w1) \<Rightarrow>
               (if IsDuplicateKeyError e then (Some (Wrapf ''create settlement: '' (Sentinel ErrSettlementApplied)), w1)
                else (Some e, w1))
           | (None, w1) \<Rightarrow> (None, w1)))"

definition FindBySettlementID :: "(ledgerDocument, 'w) Collection \<Rightarrow> string \<Rightarrow> 'w \<Rightarrow> Settlement result \<times> 'w" where
  "FindBySettlementID C i w =
     (case cl_FindOne C (\<lambda>d. ld_SettlementID d = i) None w of
        (Inl e, w1) \<Rightarrow>
          (if errors_is e ErrNoDocuments then (Inl (Sentinel ErrSettlementNotFound), w1) else (Inl e, w1))
      | (Inr document, w1) \<Rightarrow> (Inr (settlementDomainFromDocument document), w1))"

definition NewLedgerRepository :: "(ledgerDocument, 'w) Collection \<Rightarrow> 'w LedgerRepository" where
  "NewLedgerRepository C = \<lparr>lr_EnsureIndexes = lobby_ensureIndexes (Some C), lr_Create = LedgerRepository_Create C,
     lr_FindBySettlementID = FindBySettlementID C\<rparr>"

subsection \<open>Snapshots\<close>

definition SnapshotRepository_FindByPlayerID ::
    "(snapshotDocument, 'w) Collection \<Rightarrow> string \<Rightarrow> 'w \<Rightarrow> Snapshot result \<times> 'w" where
  "SnapshotRepository_FindByPlayerID C playerID w =
     (case cl_FindOne C (\<lambda>d. sd_PlayerID d = playerID) None w of
        (Inl e, w1) \<Rightarrow>
          (if errors_is e ErrNoDocuments then (Inl (Sentinel ErrPlayerNotFound), w1) else (Inl e, w1))
      | (Inr document, w1) \<Rightarrow> (Inr (snapshotDomainFromDocument document), w1))"

definition SnapshotRepository_Save :: "(snapshotDocument, 'w) Collection \<Rightarrow> Snapshot \<Rightarrow> 'w action" where
  "SnapshotRepository_Save C snapshot =
     cl_ReplaceOne C (\<lambda>d. sd_PlayerID d = p_ID (n_Player snapshot)) (snapshotDocumentFromDomain snapshot) True"

definition NewSnapshotRepository :: "(snapshotDocument, 'w) Collection \<Rightarrow> 'w SnapshotRepository" where
  "NewSnapshotRepository C = \<lparr>nr_EnsureIndexes = lobby_ensureIndexes (Some C),
     nr_FindByPlayerID = SnapshotRepository_FindByPlayerID C, nr_Save = SnapshotRepository_Save C\<rparr>"

section \<open>The database\<close>

record lobby_db =
  db_players :: "playerDocument list"
  db_assets :: "assetsDocument list"
  db_ledger :: "ledgerDocument list"
  db_snapshots :: "snapshotDocument list"

definition players_place :: "('w \<Rightarrow> lobby_db) \<Rightarrow> (playerDocument, lobby_db, 'w) place" where
  "players_place view = \<lparr>pl_view = view, pl_docs = db_players, pl_put = (\<lambda>ds db. db\<lparr>db_players := ds\<rparr>),
     pl_enc = (\<lambda>d. d\<lparr>pd_CreatedAt := bsonTime (pd_CreatedAt d), pd_UpdatedAt := bsonTime (pd_UpdatedAt d)\<rparr>),
     pl_conflict = (\<lambda>a b. pd_PlayerID a = pd_PlayerID b
       \<or> pd_IsDefault a \<and> pd_IsDefault b \<and> pd_AccountID a = pd_AccountID b)\<rparr>"

definition assets_place :: "('w \<Rightarrow> lobby_db) \<Rightarrow> (assetsDocument, lobby_db, 'w) place" where
  "assets_place view = \<lparr>pl_view = view, pl_docs = db_assets, pl_put = (\<lambda>ds db. db\<lparr>db_assets := ds\<rparr>),
     pl_enc = (\<lambda>d. d\<lparr>ad_UpdatedAt := bsonTime (ad_UpdatedAt d)\<rparr>),
     pl_conflict = (\<lambda>a b. ad_PlayerID a = ad_PlayerID b)\<rparr>"

definition ledger_place :: "('w \<Rightarrow> lobby_db) \<Rightarrow> (ledgerDocument, lobby_db, 'w) place" where
  "ledger_place view = \<lparr>pl_view = view, pl_docs = db_ledger, pl_put = (\<lambda>ds db. db\<lparr>db_ledger := ds\<rparr>),
     pl_enc = (\<lambda>d. d\<lparr>ld_CreatedAt := bsonTime (ld_CreatedAt d)\<rparr>),
     pl_conflict = (\<lambda>a b. ld_SettlementID a = ld_SettlementID b)\<rparr>"

definition snapshots_place :: "('w \<Rightarrow> lobby_db) \<Rightarrow> (snapshotDocument, lobby_db, 'w) place" where
  "snapshots_place view = \<lparr>pl_view = view, pl_docs = db_snapshots, pl_put = (\<lambda>ds db. db\<lparr>db_snapshots := ds\<rparr>),
     pl_enc = (\<lambda>d. d\<lparr>sd_CreatedAt := bsonTime (sd_CreatedAt d)\<rparr>),
     pl_conflict = (\<lambda>a b. sd_PlayerID a = sd_PlayerID b)\<rparr>"

lemmas lobby_places = players_place_def assets_place_def ledger_place_def snapshots_place_def

lemma lobby_writable:
  "writable (players_place view)" "writable (assets_place view)" "writable (ledger_place view)"
  "writable (snapshots_place view)"
  by (simp_all add: writable_def lobby_places)

definition lobby_abs :: "lobby_db \<Rightarrow> lobby_view" where
  "lobby_abs db = \<lparr>lv_players = index_by pd_PlayerID playerDomainFromDocument (db_players db),
     lv_assets = index_by ad_PlayerID assetsDomainFromDocument (db_assets db),
     lv_ledger = index_by ld_SettlementID settlementDomainFromDocument (db_ledger db),
     lv_snapshots = index_by sd_PlayerID snapshotDomainFromDocument (db_snapshots db)\<rparr>"

definition lobby_unique :: "lobby_db \<Rightarrow> bool" where
  "lobby_unique db \<longleftrightarrow> distinct (map pd_PlayerID (db_players db)) \<and> distinct (map ad_PlayerID (db_assets db))
     \<and> distinct (map ld_SettlementID (db_ledger db)) \<and> distinct (map sd_PlayerID (db_snapshots db))"

text \<open>The driver, the transactions and the linker behave as documented, and the unique indexes are in force.\<close>

definition lobby_driver ::
    "(playerDocument, 'w) Collection \<Rightarrow> (assetsDocument, 'w) Collection \<Rightarrow> (ledgerDocument, 'w) Collection \<Rightarrow>
     (snapshotDocument, 'w) Collection \<Rightarrow> ('w action \<Rightarrow> 'w action) \<Rightarrow> (string \<Rightarrow> string \<Rightarrow> 'w action) \<Rightarrow>
     ('w \<Rightarrow> lobby_db) \<Rightarrow> bool" where
  "lobby_driver CP CA CL CS tx link view \<longleftrightarrow>
     inserts CP (players_place view) \<and> finds CP (players_place view)
     \<and> inserts CA (assets_place view) \<and> finds CA (assets_place view) \<and> modifies CA (assets_place view)
     \<and> inserts CL (ledger_place view) \<and> finds CL (ledger_place view)
     \<and> replaces CS (snapshots_place view) \<and> finds CS (snapshots_place view)
     \<and> transacts tx view \<and> (\<forall>acc i w. view (snd (link acc i w)) = view w)"

definition lobby_ok ::
    "(playerDocument, 'w) Collection \<Rightarrow> (assetsDocument, 'w) Collection \<Rightarrow> (ledgerDocument, 'w) Collection \<Rightarrow>
     (snapshotDocument, 'w) Collection \<Rightarrow> ('w action \<Rightarrow> 'w action) \<Rightarrow> (string \<Rightarrow> string \<Rightarrow> 'w action) \<Rightarrow>
     ('w \<Rightarrow> lobby_db) \<Rightarrow> 'w \<Rightarrow> bool" where
  "lobby_ok CP CA CL CS tx link view w \<longleftrightarrow> lobby_driver CP CA CL CS tx link view \<and> lobby_unique (view w)"

section \<open>The repositories keep the contract\<close>

lemma place_docs [simp]:
  "docs_of (players_place view) w = db_players (view w)" "docs_of (assets_place view) w = db_assets (view w)"
  "docs_of (ledger_place view) w = db_ledger (view w)" "docs_of (snapshots_place view) w = db_snapshots (view w)"
  "pl_view (players_place view) = view" "pl_view (assets_place view) = view"
  "pl_view (ledger_place view) = view" "pl_view (snapshots_place view) = view"
  "pl_conflict (players_place view) a b \<longleftrightarrow> pd_PlayerID a = pd_PlayerID b
     \<or> pd_IsDefault a \<and> pd_IsDefault b \<and> pd_AccountID a = pd_AccountID b"
  "pl_conflict (assets_place view) c d \<longleftrightarrow> ad_PlayerID c = ad_PlayerID d"
  "pl_conflict (ledger_place view) k l \<longleftrightarrow> ld_SettlementID k = ld_SettlementID l"
  by (simp_all add: docs_of_def lobby_places)

lemma abs_fields:
  "lv_players (lobby_abs db) = index_by pd_PlayerID playerDomainFromDocument (db_players db)"
  "lv_assets (lobby_abs db) = index_by ad_PlayerID assetsDomainFromDocument (db_assets db)"
  "lv_ledger (lobby_abs db) = index_by ld_SettlementID settlementDomainFromDocument (db_ledger db)"
  "lv_snapshots (lobby_abs db) = index_by sd_PlayerID snapshotDomainFromDocument (db_snapshots db)"
  by (simp_all add: lobby_abs_def)

lemma abs_put:
  "lobby_abs (db\<lparr>db_players := ps\<rparr>) = (lobby_abs db)\<lparr>lv_players := index_by pd_PlayerID playerDomainFromDocument ps\<rparr>"
  "lobby_abs (db\<lparr>db_assets := as\<rparr>) = (lobby_abs db)\<lparr>lv_assets := index_by ad_PlayerID assetsDomainFromDocument as\<rparr>"
  "lobby_abs (db\<lparr>db_ledger := ls\<rparr>) = (lobby_abs db)\<lparr>lv_ledger := index_by ld_SettlementID settlementDomainFromDocument ls\<rparr>"
  "lobby_abs (db\<lparr>db_snapshots := ns\<rparr>) = (lobby_abs db)\<lparr>lv_snapshots := index_by sd_PlayerID snapshotDomainFromDocument ns\<rparr>"
  by (simp_all add: lobby_abs_def)

lemma players_created:
  assumes law: "inserts C (players_place view)" and u: "lobby_unique (view w)"
    and c: "PlayerRepository_Create C p w = (e, w')"
  shows "lobby_unique (view w') \<and>
      (case e of Some er \<Rightarrow> lobby_abs (view w') = lobby_abs (view w)
       | None \<Rightarrow> lv_players (lobby_abs (view w)) (p_ID p) = None
           \<and> (\<forall>q \<in> ran (lv_players (lobby_abs (view w))). p_IsDefault p \<and> p_IsDefault q \<longrightarrow> p_AccountID q \<noteq> p_AccountID p)
           \<and> lobby_abs (view w') = (lobby_abs (view w))
               \<lparr>lv_players := (lv_players (lobby_abs (view w)))(p_ID p \<mapsto> storedPlayer p)\<rparr>)"
proof (cases e)
  case (Some er)
  then have "view w' = view w"
    using c insert_refused(1) [OF law]
    by (auto simp: PlayerRepository_Create_def split: sum.splits prod.splits option.splits if_splits)
  then show ?thesis using u Some by simp
next
  case None
  obtain d where d: "playerDocumentFromDomain p = Inr d" and ins: "cl_InsertOne C d w = (None, w')"
    using c None by (auto simp: PlayerRepository_Create_def split: sum.splits prod.splits option.splits if_splits)
  let ?P = "players_place view"
  have fields: "pd_PlayerID (pl_enc ?P d) = p_ID p" "pd_AccountID (pl_enc ?P d) = p_AccountID p"
    "pd_IsDefault (pl_enc ?P d) = p_IsDefault p" "playerDomainFromDocument (pl_enc ?P d) = storedPlayer p"
    using d by (auto simp: playerDocumentFromDomain_def lobby_places playerDomainFromDocument_def stored_defs
        split: option.splits)
  have con: "pl_conflict ?P a b" if "pd_PlayerID a = pd_PlayerID b" for a b using that by (simp add: lobby_places)
  have dist: "distinct (map pd_PlayerID (docs_of ?P w))" using u by (simp add: lobby_unique_def)
  note I = insert_keyed [OF law lobby_writable(1) con dist ins]
  have view: "view w' = (view w)\<lparr>db_players := db_players (view w) @ [pl_enc ?P d]\<rparr>"
    using I(1) by (simp add: lobby_places docs_of_def)
  have "lobby_unique (view w')" using I(2) u by (simp add: lobby_unique_def view)
  moreover have "lv_players (lobby_abs (view w)) (p_ID p) = None"
    using I(3) [of playerDomainFromDocument] by (simp add: fields abs_fields)
  moreover have "p_AccountID q \<noteq> p_AccountID p"
    if q: "q \<in> ran (lv_players (lobby_abs (view w)))" "p_IsDefault p \<and> p_IsDefault q" for q
  proof -
    obtain x where "x \<in> set (db_players (view w))" "playerDomainFromDocument x = q"
      using q(1) by (auto simp: ran_def abs_fields index_by_Some [OF dist [simplified]])
    then show ?thesis using I(5) [of x] q(2) fields(1-3) by (auto simp: playerDomainFromDocument_def)
  qed
  moreover have "lobby_abs (view w') = (lobby_abs (view w))
      \<lparr>lv_players := (lv_players (lobby_abs (view w)))(p_ID p \<mapsto> storedPlayer p)\<rparr>"
    using I(4) [of playerDomainFromDocument] by (simp add: fields abs_fields view abs_put)
  ultimately show ?thesis using None by simp
qed

lemma players_found:
  assumes law: "finds C (players_place view)" and u: "lobby_unique (view w)"
    and c: "PlayerRepository_find C f w = (res, w')"
  shows "view w' = view w"
    "res = Inr p \<Longrightarrow> lv_players (lobby_abs (view w)) (p_ID p) = Some p \<and> (\<exists>d. f d \<and> playerDomainFromDocument d = p)"
    "res = Inl er \<Longrightarrow> driver_sentinel s \<or> \<not> errors_is er s \<or> s = ErrPlayerNotFound"
    "res = Inl er \<Longrightarrow> errors_is er ErrPlayerNotFound \<Longrightarrow> d \<in> set (db_players (view w)) \<Longrightarrow> \<not> f d"
proof -
  obtain r1 where f: "cl_FindOne C f None w = (r1, w')"
    and r: "res = (case r1 of Inr d \<Rightarrow> Inr (playerDomainFromDocument d)
      | Inl e \<Rightarrow> if errors_is e ErrNoDocuments then Inl (Sentinel ErrPlayerNotFound) else Inl e)"
    using c by (auto simp: PlayerRepository_find_def split: prod.splits sum.splits if_splits)
  note F = find_doc [OF law f, simplified]
  show "view w' = view w" by (rule F(1))
  show "lv_players (lobby_abs (view w)) (p_ID p) = Some p \<and> (\<exists>d. f d \<and> playerDomainFromDocument d = p)" if res: "res = Inr p"
  proof -
    obtain d where d: "r1 = Inr d" "playerDomainFromDocument d = p" using r res by (auto split: sum.splits if_splits)
    have "pd_PlayerID d = p_ID p" using d(2) by (auto simp: playerDomainFromDocument_def)
    moreover have "distinct (map pd_PlayerID (db_players (view w)))" using u by (simp add: lobby_unique_def)
    ultimately show ?thesis using F(2) [OF d(1)] d(2) by (auto simp: abs_fields index_by_Some)
  qed
  show "driver_sentinel s \<or> \<not> errors_is er s \<or> s = ErrPlayerNotFound" if "res = Inl er"
    using r that F(3) by (auto split: sum.splits if_splits dest: foreignD)
  show "\<not> f d" if "res = Inl er" "errors_is er ErrPlayerNotFound" "d \<in> set (db_players (view w))"
    using r that F(3,4) by (auto split: sum.splits if_splits dest: foreignD)
qed

lemma assets_created:
  assumes law: "inserts C (assets_place view)" and u: "lobby_unique (view w)"
    and c: "AssetRepository_Create C a w = (e, w')"
  shows "lobby_unique (view w') \<and>
      (case e of Some er \<Rightarrow> lobby_abs (view w') = lobby_abs (view w)
       | None \<Rightarrow> lv_assets (lobby_abs (view w)) (a_PlayerID a) = None
           \<and> lobby_abs (view w') = (lobby_abs (view w))
               \<lparr>lv_assets := (lv_assets (lobby_abs (view w)))(a_PlayerID a \<mapsto> storedAssets a)\<rparr>)"
proof (cases e)
  case (Some er)
  then have "view w' = view w" using c insert_refused(1) [OF law] by (auto simp: AssetRepository_Create_def)
  then show ?thesis using u Some by simp
next
  case None
  let ?P = "assets_place view" and ?d = "assetsDocumentFromDomain a"
  have ins: "cl_InsertOne C ?d w = (None, w')" using c None by (simp add: AssetRepository_Create_def)
  have fields: "ad_PlayerID (pl_enc ?P ?d) = a_PlayerID a" "assetsDomainFromDocument (pl_enc ?P ?d) = storedAssets a"
    by (simp_all add: assetsDocumentFromDomain_def lobby_places assetsDomainFromDocument_def stored_defs cloneCurrency_def)
  have dist: "distinct (map ad_PlayerID (docs_of ?P w))" using u by (simp add: lobby_unique_def)
  note I = insert_keyed [OF law lobby_writable(2) _ dist ins, simplified]
  have view: "view w' = (view w)\<lparr>db_assets := db_assets (view w) @ [pl_enc ?P ?d]\<rparr>"
    using I(1) by (simp add: lobby_places)
  have "lobby_unique (view w')" using I(2) u by (simp add: lobby_unique_def view)
  moreover have "lv_assets (lobby_abs (view w)) (a_PlayerID a) = None"
    using I(3) [of assetsDomainFromDocument] by (simp add: fields abs_fields)
  moreover have "lobby_abs (view w') = (lobby_abs (view w))
      \<lparr>lv_assets := (lv_assets (lobby_abs (view w)))(a_PlayerID a \<mapsto> storedAssets a)\<rparr>"
    using I(4) [of assetsDomainFromDocument] by (simp add: fields abs_fields view abs_put)
  ultimately show ?thesis using None by simp
qed

lemma assets_found:
  assumes law: "finds C (assets_place view)" and u: "lobby_unique (view w)"
    and c: "AssetRepository_FindByPlayerID C i w = (res, w')"
  shows "view w' = view w \<and>
      (case res of Inr a \<Rightarrow> lv_assets (lobby_abs (view w)) i = Some a
       | Inl er \<Rightarrow> \<not> errors_is er ErrSettlementApplied
           \<and> (errors_is er ErrAssetNotFound \<longrightarrow> lv_assets (lobby_abs (view w)) i = None))"
proof -
  let ?P = "assets_place view"
  obtain r1 where f: "cl_FindOne C (\<lambda>d. ad_PlayerID d = i) None w = (r1, w')"
    and r: "res = (case r1 of Inr d \<Rightarrow> Inr (assetsDomainFromDocument d)
      | Inl e \<Rightarrow> if errors_is e ErrNoDocuments then Inl (Sentinel ErrAssetNotFound) else Inl e)"
    using c by (auto simp: AssetRepository_FindByPlayerID_def split: prod.splits sum.splits if_splits)
  have dist: "distinct (map ad_PlayerID (docs_of ?P w))" using u by (simp add: lobby_unique_def)
  note F = find_keyed [OF law dist f, simplified]
  show ?thesis using r F by (auto simp: abs_fields split: sum.splits if_splits dest: foreignD)
qed

lemma assets_changed:
  assumes law: "modifies C (assets_place view)" and u: "lobby_unique (view w)" and t: "delta \<noteq> 0"
    and c: "ApplyDelta C now i t delta w = (res, w')"
  shows "lobby_unique (view w') \<and>
      (case res of Inl er \<Rightarrow> lobby_abs (view w') = lobby_abs (view w) \<and> \<not> errors_is er ErrSettlementApplied
           \<and> (errors_is er ErrInsufficientCurrency \<longrightarrow>
                (\<forall>a. lv_assets (lobby_abs (view w)) i = Some a \<longrightarrow> \<not> covers a t delta))
       | Inr a' \<Rightarrow> (\<exists>a. lv_assets (lobby_abs (view w)) i = Some a \<and> covers a t delta \<and> a' = applied now t delta a
           \<and> in_s64 (Balance a t + delta) \<and> unat (a_AssetVersion a') = unat (a_AssetVersion a) + 1
           \<and> lobby_abs (view w') = (lobby_abs (view w))\<lparr>lv_assets := (lv_assets (lobby_abs (view w)))(i \<mapsto> a')\<rparr>))"
proof -
  let ?P = "assets_place view" and ?f = "deltaFilter i t delta" and ?u = "deltaUpdate now t delta"
  obtain r1 where f: "cl_FindOneAndUpdate C ?f ?u w = (r1, w')"
    and r: "res = (case r1 of Inr d \<Rightarrow> Inr (assetsDomainFromDocument d)
      | Inl e \<Rightarrow> if errors_is e ErrNoDocuments then Inl (Sentinel ErrInsufficientCurrency)
                 else Inl (Wrapf ''apply asset delta: '' e))"
    using c \<open>delta \<noteq> 0\<close> by (auto simp: ApplyDelta_def split: prod.splits sum.splits if_splits)
  have dist: "distinct (map ad_PlayerID (docs_of ?P w))" using u by (simp add: lobby_unique_def)
  have filt: "?f d \<longleftrightarrow> ad_PlayerID d = i \<and> covers (assetsDomainFromDocument d) t delta" for d
    by (auto simp: deltaFilter_def covers_def assetsDomainFromDocument_def Balance_def cloneCurrency_def split: option.splits)
  note U = findUpdate_cases [OF law f]
  show ?thesis
  proof (cases r1)
    case (Inl e)
    have "\<not> covers a t delta" if "errors_is e ErrNoDocuments" "lv_assets (lobby_abs (view w)) i = Some a" for a
      using U(4) [OF Inl that(1)] that(2) by (auto simp: filt abs_fields index_by_Some [OF dist [simplified]])
    then show ?thesis using U(2,3) [OF Inl] r Inl u by (auto split: if_splits dest: foreignD)
  next
    case (Inr d)
    obtain x y ds' where x: "?u x = Some y" "d = pl_enc ?P y" "swapped ?f x d (docs_of ?P w) ds'"
      "pl_view ?P w' = pl_put ?P ds' (pl_view ?P w)" using U(1) [OF Inr] by blast
    have key: "ad_PlayerID d = ad_PlayerID x" "ad_PlayerID x = i"
      using x(1,2,3) by (auto simp: deltaUpdate_def lobby_places Let_def filt swapped_def split: if_splits)
    have keys: "ad_PlayerID d = i" "\<And>x. ?f x \<Longrightarrow> ad_PlayerID x = i" using key by (simp_all add: filt)
    note S = swap_keyed [OF lobby_writable(2) dist keys(2) keys(1) x(3,4)]
    let ?a = "assetsDomainFromDocument x"
    have view: "view w' = (view w)\<lparr>db_assets := ds'\<rparr>" using x(4) by (simp add: lobby_places)
    have small: "in_s64 (Balance ?a t + delta)" "unat (ad_AssetVersion x) + 1 < 2 ^ 63"
      and a': "assetsDomainFromDocument d = applied now t delta ?a"
      using x(1,2) by (auto simp: deltaUpdate_def lobby_places Let_def assetsDomainFromDocument_def applied_def
          Balance_def cloneCurrency_def split: if_splits)
    have "unat (ad_AssetVersion x + 1) = unat (ad_AssetVersion x) + 1"
      using small(2) by (simp add: unat_plus_simple word_le_nat_alt unat_word_ariths(1))
    then have ver: "unat (a_AssetVersion (applied now t delta ?a)) = unat (a_AssetVersion ?a) + 1"
      by (simp add: assetsDomainFromDocument_def)
    have "lobby_unique (view w')" using S(1) u by (simp add: lobby_unique_def view)
    moreover have "lobby_abs (view w') = (lobby_abs (view w))
        \<lparr>lv_assets := (lv_assets (lobby_abs (view w)))(i \<mapsto> applied now t delta ?a)\<rparr>"
      using S(4) [of assetsDomainFromDocument] by (simp add: a' abs_fields view abs_put)
    moreover have "lv_assets (lobby_abs (view w)) i = Some ?a" "covers ?a t delta"
      using S(2) S(3) [of assetsDomainFromDocument] by (simp_all add: filt abs_fields)
    ultimately show ?thesis using r Inr small(1) ver by (simp add: a')
  qed
qed

lemma ledger_created:
  assumes law: "inserts C (ledger_place view)" and u: "lobby_unique (view w)"
    and c: "LedgerRepository_Create C s w = (e, w')"
  shows "lobby_unique (view w') \<and>
      (case e of Some er \<Rightarrow> lobby_abs (view w') = lobby_abs (view w)
           \<and> (errors_is er ErrSettlementApplied \<longrightarrow> lv_ledger (lobby_abs (view w)) (s_ID s) \<noteq> None)
       | None \<Rightarrow> Settlement_Validate s = None \<and> lv_ledger (lobby_abs (view w)) (s_ID s) = None
           \<and> lobby_abs (view w') = (lobby_abs (view w))
               \<lparr>lv_ledger := (lv_ledger (lobby_abs (view w)))(s_ID s \<mapsto> storedSettlement s)\<rparr>)"
proof (cases "ledgerDocumentFromDomain s")
  case (Inl er)
  then have "er = Sentinel ErrInvalidSettlement"
    by (auto simp: ledgerDocumentFromDomain_def Settlement_Validate_def split: option.splits if_splits)
  then show ?thesis using c u Inl by (auto simp: LedgerRepository_Create_def)
next
  case (Inr d)
  let ?P = "ledger_place view"
  have fields: "ld_SettlementID (pl_enc ?P d) = s_ID s" "settlementDomainFromDocument (pl_enc ?P d) = storedSettlement s"
    and valid: "Settlement_Validate s = None"
    using Inr by (auto simp: ledgerDocumentFromDomain_def lobby_places settlementDomainFromDocument_def stored_defs
        split: option.splits)
  obtain e1 where ins: "cl_InsertOne C d w = (e1, w')"
    and e: "e = map_option (\<lambda>er. if IsDuplicateKeyError er
      then Wrapf ''create settlement: '' (Sentinel ErrSettlementApplied) else er) e1"
    using c Inr by (auto simp: LedgerRepository_Create_def split: prod.splits option.splits if_splits)
  show ?thesis
  proof (cases e1)
    case (Some er)
    note R = insert_refused [OF law ins [unfolded Some], simplified]
    have "lv_ledger (lobby_abs (view w)) (s_ID s) \<noteq> None" if "IsDuplicateKeyError er"
      using R(3) [OF that] fields(1) by (auto simp: abs_fields index_by_None)
    then show ?thesis using R(1,2) u e Some by (auto dest: foreignD)
  next
    case None
    have dist: "distinct (map ld_SettlementID (docs_of ?P w))" using u by (simp add: lobby_unique_def)
    note I = insert_keyed [OF law lobby_writable(3) _ dist ins [unfolded None], simplified]
    have view: "view w' = (view w)\<lparr>db_ledger := db_ledger (view w) @ [pl_enc ?P d]\<rparr>"
      using I(1) by (simp add: lobby_places)
    have "lobby_unique (view w')" using I(2) u by (simp add: lobby_unique_def view)
    moreover have "lv_ledger (lobby_abs (view w)) (s_ID s) = None"
      using I(3) [of settlementDomainFromDocument] by (simp add: fields abs_fields)
    moreover have "lobby_abs (view w') = (lobby_abs (view w))
        \<lparr>lv_ledger := (lv_ledger (lobby_abs (view w)))(s_ID s \<mapsto> storedSettlement s)\<rparr>"
      using I(4) [of settlementDomainFromDocument] by (simp add: fields abs_fields view abs_put)
    ultimately show ?thesis using None e valid by simp
  qed
qed

lemma settlement_found:
  assumes law: "finds C (ledger_place view)" and u: "lobby_unique (view w)" and c: "FindBySettlementID C i w = (res, w')"
  shows "view w' = view w \<and>
      (case res of Inr s \<Rightarrow> lv_ledger (lobby_abs (view w)) i = Some s
       | Inl er \<Rightarrow> errors_is er ErrSettlementNotFound \<longrightarrow> lv_ledger (lobby_abs (view w)) i = None)"
proof -
  let ?P = "ledger_place view"
  obtain r1 where f: "cl_FindOne C (\<lambda>d. ld_SettlementID d = i) None w = (r1, w')"
    and r: "res = (case r1 of Inr d \<Rightarrow> Inr (settlementDomainFromDocument d)
      | Inl e \<Rightarrow> if errors_is e ErrNoDocuments then Inl (Sentinel ErrSettlementNotFound) else Inl e)"
    using c by (auto simp: FindBySettlementID_def split: prod.splits sum.splits if_splits)
  have dist: "distinct (map ld_SettlementID (docs_of ?P w))" using u by (simp add: lobby_unique_def)
  note F = find_keyed [OF law dist f, simplified]
  show ?thesis using r F by (auto simp: abs_fields split: sum.splits if_splits dest: foreignD)
qed

lemma snapshot_saved:
  assumes law: "replaces C (snapshots_place view)" and u: "lobby_unique (view w)"
    and c: "SnapshotRepository_Save C n w = (e, w')"
  shows "lobby_unique (view w') \<and>
      (case e of Some er \<Rightarrow> lobby_abs (view w') = lobby_abs (view w) \<and> \<not> errors_is er ErrSettlementApplied
       | None \<Rightarrow> lobby_abs (view w') = (lobby_abs (view w))
           \<lparr>lv_snapshots := (lv_snapshots (lobby_abs (view w)))(p_ID (n_Player n) \<mapsto> storedSnapshot n)\<rparr>)"
proof -
  let ?P = "snapshots_place view" and ?d = "snapshotDocumentFromDomain n"
  have rep: "cl_ReplaceOne C (\<lambda>d. sd_PlayerID d = p_ID (n_Player n)) ?d True w = (e, w')"
    using c by (simp add: SnapshotRepository_Save_def)
  show ?thesis
  proof (cases e)
    case (Some er)
    note R = replace_refused [OF law rep [unfolded Some], simplified]
    then show ?thesis using u Some by (auto dest: foreignD)
  next
    case None
    have key: "sd_PlayerID (pl_enc ?P ?d) = p_ID (n_Player n)" and val: "snapshotDomainFromDocument (pl_enc ?P ?d) = storedSnapshot n"
      by (simp_all add: lobby_places snapshotDocumentFromDomain_def storedSnapshot_def)
    have dist: "distinct (map sd_PlayerID (docs_of ?P w))" using u by (simp add: lobby_unique_def)
    note R = replace_keyed [OF law lobby_writable(4) dist key rep [unfolded None], simplified]
    obtain ds' where view: "view w' = (view w)\<lparr>db_snapshots := ds'\<rparr>" using R(1) by (auto simp: lobby_places)
    have "lobby_unique (view w')" using R(2) u by (simp add: lobby_unique_def view)
    moreover have "lobby_abs (view w') = (lobby_abs (view w))
        \<lparr>lv_snapshots := (lv_snapshots (lobby_abs (view w)))(p_ID (n_Player n) \<mapsto> storedSnapshot n)\<rparr>"
      using R(3) [of snapshotDomainFromDocument] by (simp add: val abs_fields view abs_put)
    ultimately show ?thesis using None by simp
  qed
qed

lemma snapshot_found:
  assumes law: "finds C (snapshots_place view)" and u: "lobby_unique (view w)"
    and c: "SnapshotRepository_FindByPlayerID C i w = (res, w')"
  shows "view w' = view w \<and>
      (case res of Inr s \<Rightarrow> lv_snapshots (lobby_abs (view w)) i = Some s
       | Inl er \<Rightarrow> errors_is er ErrPlayerNotFound \<longrightarrow> lv_snapshots (lobby_abs (view w)) i = None)"
proof -
  let ?P = "snapshots_place view"
  obtain r1 where f: "cl_FindOne C (\<lambda>d. sd_PlayerID d = i) None w = (r1, w')"
    and r: "res = (case r1 of Inr d \<Rightarrow> Inr (snapshotDomainFromDocument d)
      | Inl e \<Rightarrow> if errors_is e ErrNoDocuments then Inl (Sentinel ErrPlayerNotFound) else Inl e)"
    using c by (auto simp: SnapshotRepository_FindByPlayerID_def split: prod.splits sum.splits if_splits)
  have dist: "distinct (map sd_PlayerID (docs_of ?P w))" using u by (simp add: lobby_unique_def)
  note F = find_keyed [OF law dist f, simplified]
  show ?thesis using r F by (auto simp: abs_fields split: sum.splits if_splits dest: foreignD)
qed

lemmas lobby_repositories = NewPlayerRepository_def NewAssetRepository_def NewLedgerRepository_def NewSnapshotRepository_def

lemma lobby_okD:
  assumes "lobby_ok CP CA CL CS tx link view w"
  shows "inserts CP (players_place view)" "finds CP (players_place view)"
    "inserts CA (assets_place view)" "finds CA (assets_place view)" "modifies CA (assets_place view)"
    "inserts CL (ledger_place view)" "finds CL (ledger_place view)"
    "replaces CS (snapshots_place view)" "finds CS (snapshots_place view)" "transacts tx view"
    "view (snd (link acc i v)) = view v" "lobby_unique (view w)"
    "lobby_unique (view v) \<Longrightarrow> lobby_ok CP CA CL CS tx link view v"
  using assms by (simp_all add: lobby_ok_def lobby_driver_def)

lemma lobby_ok_frame:
  "lobby_ok CP CA CL CS tx link view w \<Longrightarrow> view w' = view w \<Longrightarrow> lobby_ok CP CA CL CS tx link view w'"
  by (simp add: lobby_ok_def)

lemma mongo_lobby_laws:
  "lobby_store_axioms (\<lambda>w. lobby_abs (view w)) (lobby_ok CP CA CL CS tx link view) (NewPlayerRepository CP)
     (NewAssetRepository CA) (NewLedgerRepository CL) (NewSnapshotRepository CS) link"
proof (rule lobby_store_axioms.intro, goal_cases)
  case (1 w acc i e w')
  note L = lobby_okD [OF 1(1)]
  have "view w' = view w" using L(11) [of acc i w] 1(2) by simp
  then show ?case using L(12,13) by simp
next
  case (2 w p e w')
  note L = lobby_okD [OF 2(1)]
  show ?case using players_created [OF L(1,12), of p e w'] 2(2) L(13) by (simp add: lobby_repositories)
next
  case (3 w acc res w')
  note L = lobby_okD [OF 3(1)]
  have f: "PlayerRepository_find CP (\<lambda>d. pd_AccountID d = acc \<and> pd_IsDefault d) w = (res, w')"
    using 3(2) by (simp add: lobby_repositories FindDefaultByAccountID_def)
  note F = players_found [OF L(2,12) f]
  have "p_AccountID p = acc \<and> p_IsDefault p" if "res = Inr p" for p
    using F(2) [OF that] by (auto simp: playerDomainFromDocument_def)
  moreover have "p_AccountID q \<noteq> acc" if er: "res = Inl er" "errors_is er ErrPlayerNotFound"
    and q: "q \<in> ran (lv_players (lobby_abs (view w)))" "p_IsDefault q" for er q
  proof -
    have "distinct (map pd_PlayerID (db_players (view w)))" using L(12) by (simp add: lobby_unique_def)
    then obtain d where "d \<in> set (db_players (view w))" "playerDomainFromDocument d = q"
      using q(1) by (auto simp: ran_def abs_fields index_by_Some)
    then show ?thesis using F(4) [OF er, of d] q(2) by (auto simp: playerDomainFromDocument_def)
  qed
  ultimately show ?case using F(1,2) L(12,13) by (auto split: sum.splits)
next
  case (4 w i res w')
  note L = lobby_okD [OF 4(1)]
  have f: "PlayerRepository_find CP (\<lambda>d. pd_PlayerID d = i) w = (res, w')"
    using 4(2) by (simp add: lobby_repositories FindByID_def)
  note F = players_found [OF L(2,12) f]
  have "lv_players (lobby_abs (view w)) i = Some p" if "res = Inr p" for p
    using F(2) [OF that] by (auto simp: playerDomainFromDocument_def)
  moreover have "lv_players (lobby_abs (view w)) i = None" if "res = Inl er" "errors_is er ErrPlayerNotFound" for er
    using F(4) [OF that] by (auto simp: abs_fields index_by_None)
  ultimately show ?case using F(1) F(3) [of _ ErrSettlementApplied] L(12,13) by (auto split: sum.splits)
next
  case (5 w a e w')
  note L = lobby_okD [OF 5(1)]
  show ?case using assets_created [OF L(3,12), of a e w'] 5(2) L(13) by (simp add: lobby_repositories)
next
  case (6 w i res w')
  note L = lobby_okD [OF 6(1)]
  show ?case using assets_found [OF L(4,12), of i res w'] 6(2) L(12,13) by (auto simp: lobby_repositories)
next
  case (7 w t delta now i res w')
  note L = lobby_okD [OF 7(1)]
  show ?case using assets_changed [OF L(5,12) 7(3), of now i t res w'] 7(4) L(13) by (simp add: lobby_repositories)
next
  case (8 w s e w')
  note L = lobby_okD [OF 8(1)]
  show ?case using ledger_created [OF L(6,12), of s e w'] 8(2) L(13) by (simp add: lobby_repositories)
next
  case (9 w i res w')
  note L = lobby_okD [OF 9(1)]
  show ?case using settlement_found [OF L(7,12), of i res w'] 9(2) L(12,13) by (auto simp: lobby_repositories)
next
  case (10 w n e w')
  note L = lobby_okD [OF 10(1)]
  show ?case using snapshot_saved [OF L(8,12), of n e w'] 10(2) L(13) by (simp add: lobby_repositories)
next
  case (11 w i res w')
  note L = lobby_okD [OF 11(1)]
  show ?case using snapshot_found [OF L(9,12), of i res w'] 11(2) L(12,13) by (auto simp: lobby_repositories)
qed

interpretation ml: lobby_store tx "\<lambda>w. lobby_abs (view w)" "lobby_ok CP CA CL CS tx link view" "NewPlayerRepository CP"
    "NewAssetRepository CA" "NewLedgerRepository CL" "NewSnapshotRepository CS" link
  for CP CA CL CS tx link view
proof (rule lobby_store.intro [OF transacts_unit_of_work [where view = view and A = lobby_abs] mongo_lobby_laws])
  show "transacts tx view" if "lobby_ok CP CA CL CS tx link view w" for w by (rule lobby_okD(10) [OF that])
  show "lobby_ok CP CA CL CS tx link view w'" if "lobby_ok CP CA CL CS tx link view w" "view w' = view w" for w w'
    by (rule lobby_ok_frame [OF that])
qed

end
