(* ===== verification/Lobby_Props.thy ===== *)
theory Lobby_Props
  imports Lobby_Mongo Mongo_Memory Codec_Table
begin

text \<open>
  The properties of the lobby service over its Mongo repositories.
\<close>

definition mongoLobby ::
    "(playerDocument, 'w) Collection \<Rightarrow> (assetsDocument, 'w) Collection \<Rightarrow> (ledgerDocument, 'w) Collection \<Rightarrow>
     (snapshotDocument, 'w) Collection \<Rightarrow> ('w action \<Rightarrow> 'w action) \<Rightarrow> (string \<Rightarrow> string \<Rightarrow> 'w action) \<Rightarrow> 'w PlayerComponent" where
  "mongoLobby CP CA CL CS tx link = NewPlayerComponent (NewPlayerRepository CP) (NewAssetRepository CA)
     (NewLedgerRepository CL) (NewSnapshotRepository CS) (Some tx) (Some link)"

definition emptyLobby :: lobby_db where
  "emptyLobby = \<lparr>db_players = [], db_assets = [], db_ledger = [], db_snapshots = []\<rparr>"

lemma empty_ok: "lobby_driver CP CA CL CS tx link view \<Longrightarrow> view w = emptyLobby \<Longrightarrow> lobby_ok CP CA CL CS tx link view w"
  by (simp add: lobby_ok_def lobby_unique_def emptyLobby_def)

lemma empty_books: "books (lobby_abs emptyLobby)"
  using books_empty by (simp add: lobby_abs_def emptyLobby_def)

lemma reachable:
  assumes "lobby_driver CP CA CL CS tx link view" "view w = emptyLobby"
    "lobby_run (mongoLobby CP CA CL CS tx link) w w'"
  shows "lobby_ok CP CA CL CS tx link view w'" "books (lobby_abs (view w'))"
  using ml.run_books [OF assms(3) [unfolded mongoLobby_def] empty_ok [OF assms(1,2)]] empty_books assms(2) by simp_all

section \<open>A concrete lobby\<close>

text \<open>One account and one settlement over the in-memory driver.\<close>

definition mem_P where "mem_P = memoryCollection (players_place (\<lambda>w. w))"
definition mem_A where "mem_A = memoryCollection (assets_place (\<lambda>w. w))"
definition mem_L where "mem_L = memoryCollection (ledger_place (\<lambda>w. w))"
definition mem_S where "mem_S = memoryCollection (snapshots_place (\<lambda>w. w))"
definition mem_link :: "string \<Rightarrow> string \<Rightarrow> lobby_db action" where "mem_link acc i w = (None, w)"

definition memLobby :: "lobby_db PlayerComponent" where
  "memLobby = mongoLobby mem_P mem_A mem_L mem_S memoryTx mem_link"

lemma mem_driver: "lobby_driver mem_P mem_A mem_L mem_S memoryTx mem_link (\<lambda>w. w)"
  by (simp add: lobby_driver_def mem_P_def mem_A_def mem_L_def mem_S_def mem_link_def memory_driver)

definition ensure_q :: EnsurePlayerRequest where "ensure_q = \<lparr>eq_AccountId = ''acc''\<rparr>"

definition settle_q :: SettlementRequest where
  "settle_q = \<lparr>sq_SettlementId = ''s1'', sq_PlayerId = ''p1'', sq_AssetType = ''gold'', sq_Delta = 5,
     sq_Reason = ''win'', sq_Source = ''battle''\<rparr>"

definition restore_q :: RestorePlayerStateRequest where
  "restore_q = \<lparr>rq_PlayerId = ''p1'', rq_SessionId = ''x'', rq_LastStateVersion = 1, rq_AllowIncremental = False\<rparr>"

definition gold_state :: LobbyStateSnapshot where
  "gold_state = \<lparr>ls_PlayerId = ''p1'', ls_AccountId = ''acc'', ls_Nickname = ''Player'', ls_Region = ''global'',
     ls_ProfileVersion = 1, ls_AssetVersion = 2, ls_Currency = [''gold'' \<mapsto> 5, ''diamond'' \<mapsto> 0]\<rparr>"

definition lobby_codec :: codec where
  "lobby_codec = tableCodec [MEnsurePlayerRequest ensure_q, MSettlementRequest settle_q,
     MRestorePlayerStateRequest restore_q, MLobbyStateSnapshot gold_state]"

definition payload_env :: "bytes \<Rightarrow> InternalEnvelope" where
  "payload_env bs = emptyEnvelope\<lparr>en_Payload := bs\<rparr>"

definition lobby1 :: lobby_db where
  "lobby1 = \<lparr>db_players = [\<lparr>pd_PlayerID = ''p1'', pd_AccountID = ''acc'', pd_Nickname = ''Player'', pd_Avatar = '''',
       pd_Region = ''global'', pd_IsDefault = True, pd_ProfileVersion = 1, pd_CreatedAt = 1000000, pd_UpdatedAt = 1000000\<rparr>],
     db_assets = [\<lparr>ad_PlayerID = ''p1'', ad_Currency = [''gold'' \<mapsto> 0, ''diamond'' \<mapsto> 0], ad_AssetVersion = 1,
       ad_UpdatedAt = 1000000\<rparr>],
     db_ledger = [],
     db_snapshots = [\<lparr>sd_PlayerID = ''p1'', sd_AccountID = ''acc'', sd_Nickname = ''Player'', sd_Region = ''global'',
       sd_ProfileVersion = 1, sd_AssetVersion = 1, sd_Currency = [''gold'' \<mapsto> 0, ''diamond'' \<mapsto> 0],
       sd_SchemaVersion = 1, sd_CreatedAt = 1000000\<rparr>]\<rparr>"

definition lobby2 :: lobby_db where
  "lobby2 = \<lparr>db_players = db_players lobby1,
     db_assets = [\<lparr>ad_PlayerID = ''p1'', ad_Currency = [''gold'' \<mapsto> 5, ''diamond'' \<mapsto> 0], ad_AssetVersion = 2,
       ad_UpdatedAt = 2000000\<rparr>],
     db_ledger = [\<lparr>ld_SettlementID = ''s1'', ld_PlayerID = ''p1'', ld_AssetType = ''gold'', ld_Delta = 5,
       ld_Reason = ''win'', ld_Source = ''battle'', ld_CreatedAt = 2000000\<rparr>],
     db_snapshots = [\<lparr>sd_PlayerID = ''p1'', sd_AccountID = ''acc'', sd_Nickname = ''Player'', sd_Region = ''global'',
       sd_ProfileVersion = 1, sd_AssetVersion = 2, sd_Currency = [''gold'' \<mapsto> 5, ''diamond'' \<mapsto> 0],
       sd_SchemaVersion = 1, sd_CreatedAt = 2000000\<rparr>]\<rparr>"

lemma lobby_requests [simp]:
  "pb_EnsurePlayerRequest lobby_codec (en_Payload (payload_env [0])) = Inr ensure_q"
  "pb_SettlementRequest lobby_codec (en_Payload (payload_env [0, 0])) = Inr settle_q"
  "pb_RestorePlayerStateRequest lobby_codec (en_Payload (payload_env [0, 0, 0])) = Inr restore_q"
  "pb_Marshal lobby_codec (MLobbyStateSnapshot gold_state) = Inr [0, 0, 0, 0]"
  by (simp_all add: lobby_codec_def payload_env_def tableCodec_def decode_as_def entry_def numeral_eq_Suc)

lemmas mem_ops = mem_P_def mem_A_def mem_L_def mem_S_def mem_link_def memory_ops lobby_places lobby_repositories
  NewPlayerComponent_def transactionally_def mongoLobby_def memLobby_def bsonTime_def

lemmas repo_ops = PlayerRepository_Create_def PlayerRepository_find_def FindDefaultByAccountID_def FindByID_def
  AssetRepository_Create_def AssetRepository_FindByPlayerID_def ApplyDelta_def deltaFilter_def deltaUpdate_def
  LedgerRepository_Create_def FindBySettlementID_def SnapshotRepository_FindByPlayerID_def SnapshotRepository_Save_def
  playerDocumentFromDomain_def playerDomainFromDocument_def assetsDocumentFromDomain_def assetsDomainFromDocument_def
  ledgerDocumentFromDomain_def settlementDomainFromDocument_def snapshotDocumentFromDomain_def
  snapshotDomainFromDocument_def cloneCurrency_def Player_Validate_def Settlement_Validate_def

lemma lobby_ensure:
  "ensurePlayer lobby_codec memLobby (Inr ''p1'') 1000000 (payload_env [0]) emptyLobby =
     (Inr (Some \<lparr>mr_MessageID = ENSURE_PLAYER_RESPONSE, mr_Message = Some (MEnsurePlayerResponse
        \<lparr>ep_AccountId = ''acc'', ep_PlayerId = ''p1'', ep_Created = True\<rparr>)\<rparr>), lobby1)"
proof -
  have acc: "TrimSpace (eq_AccountId ensure_q) = ''acc''" by (simp add: ensure_q_def TrimSpace_graphic graphic_def)
  have "findOrCreate memLobby (Inr ''p1'') 1000000 ''acc'' emptyLobby = (Inr (newPlayer ''p1'' ''acc'' 1000000, True), lobby1)"
    by (simp add: findOrCreate_def createPlayer_def newPlayer_def initialAssets_def mem_ops repo_ops emptyLobby_def lobby1_def)
  then show ?thesis by (simp add: ensurePlayer_def acc) (simp add: mem_ops newPlayer_def)
qed

lemma lobby_execute:
  "memoryTx (executeSettlement memLobby 2000000 2000000 (settlementOf settle_q 2000000)) lobby1 = (None, lobby2)"
proof -
  have cur: "[''gold'' \<mapsto> 0, ''diamond'' \<mapsto> 0, ''gold'' \<mapsto> 5] = [''gold'' \<mapsto> 5, ''diamond'' \<mapsto> (0::int)]" by (auto simp: fun_eq_iff)
  show ?thesis
    by (simp add: executeSettlement_def settlementOf_def settle_q_def mem_ops repo_ops lobby1_def lobby2_def cur in_s64_def)
qed

definition gold_response :: "bool \<Rightarrow> MessageResult" where
  "gold_response replayed = \<lparr>mr_MessageID = SETTLEMENT_RESPONSE, mr_Message = Some (MSettlementResponse
     \<lparr>sp_SettlementId = ''s1'', sp_PlayerId = ''p1'', sp_AssetType = ''gold'', sp_Balance = 5, sp_AssetVersion = 2,
      sp_Replayed = replayed\<rparr>)\<rparr>"

lemma lobby_settle:
  "settlement lobby_codec memLobby 2000000 2000000 2000000 (payload_env [0, 0]) lobby1 = (Inr (Some (gold_response False)), lobby2)"
proof -
  have "transactionally memLobby = memoryTx" by (simp add: memLobby_def mongoLobby_def fun_eq_iff)
  moreover have "lr_FindBySettlementID (pc_ledger memLobby) ''s1'' lobby1 = (Inl (Sentinel ErrSettlementNotFound), lobby1)"
    by (simp add: mem_ops repo_ops lobby1_def)
  moreover have "settlementResult memLobby (settlementOf settle_q 2000000) False lobby2 = (Inr (Some (gold_response False)), lobby2)"
    by (simp add: settlementResult_def mem_ops repo_ops lobby2_def settlementOf_def settle_q_def gold_response_def Balance_def)
  moreover have "\<not> invalidRequest settle_q" "sq_SettlementId settle_q = ''s1''" by (simp_all add: invalidRequest_def settle_q_def)
  ultimately show ?thesis by (simp add: settlement_def applySettlement_def Let_def lobby_execute)
qed

lemma lobby_settle_again:
  "settlement lobby_codec memLobby 2000000 2000000 2000000 (payload_env [0, 0]) lobby2 = (Inr (Some (gold_response True)), lobby2)"
proof -
  define s where "s = settlementOf settle_q 2000000"
  have "lr_FindBySettlementID (pc_ledger memLobby) ''s1'' lobby2 = (Inr s, lobby2)"
    by (simp add: s_def mem_ops repo_ops lobby2_def settlementOf_def settle_q_def)
  moreover have "settlementResult memLobby s True lobby2 = (Inr (Some (gold_response True)), lobby2)"
    by (simp add: s_def settlementResult_def mem_ops repo_ops lobby2_def settlementOf_def settle_q_def gold_response_def Balance_def)
  moreover have "\<not> invalidRequest settle_q" "sq_SettlementId settle_q = ''s1''" by (simp_all add: invalidRequest_def settle_q_def)
  ultimately show ?thesis by (simp add: settlement_def Let_def sameSettlement_def s_def)
qed

lemma gold_plain: "plain_field (sq_AssetType settle_q)" "in_s64 (sq_Delta settle_q)" "\<not> invalidRequest settle_q"
  by (simp_all add: plain_field_def settle_q_def in_s64_def invalidRequest_def)

lemma lobby1_run: "lobby_run memLobby emptyLobby lobby1"
  by (rule ensurePlayer_run [OF lobby_ensure])

lemma lobby2_run: "lobby_run memLobby emptyLobby lobby2"
proof -
  have "lobby_run memLobby lobby1 lobby2"
    using settlement_run [OF lobby_settle] gold_plain by simp
  with lobby1_run show ?thesis by (rule rtranclp_trans)
qed

section \<open>Properties\<close>

text \<open>
  C2: The books balance.  Starting from an empty database, whatever handlers of the lobby do and however their
  steps interleave: an account has at most one default player, every player has assets, every
  settlement belongs to a player, every balance is the sum of the settlements recorded for it, the asset version
  counts them, and no balance is negative unless a settlement of \<open>-2^63\<close> was recorded.
\<close>

theorem lobby_books_balance:
  assumes "lobby_driver CP CA CL CS tx link view" "view w = emptyLobby"
    and "lobby_run (mongoLobby CP CA CL CS tx link) w w'"
  shows "books (lobby_abs (view w'))"
  by (rule reachable(2) [OF assms])

theorem lobby_books_balance_witness:
  "books (lobby_abs lobby2) \<and> Balance (assetsDomainFromDocument (hd (db_assets lobby2))) ''gold'' = 5"
proof
  show "books (lobby_abs lobby2)"
    using lobby_books_balance [OF mem_driver, of emptyLobby lobby2] lobby2_run by (simp add: memLobby_def)
  show "Balance (assetsDomainFromDocument (hd (db_assets lobby2))) ''gold'' = 5"
    by (simp add: lobby2_def assetsDomainFromDocument_def Balance_def cloneCurrency_def)
qed

text \<open>
  C9: A settlement that is submitted any number of times is applied at most once.  If its identifier is
  already recorded, nothing changes.  Otherwise either nothing changed and every call failed, or the books
  changed exactly as by one settlement the books allowed: one ledger entry, the balance moved once by the delta, the
  asset version by one.
\<close>

theorem settlement_at_most_once:
  assumes "lobby_ok CP CA CL CS tx link view w"
    and "pb_SettlementRequest cd (en_Payload envelope) = Inr q" "\<not> invalidRequest q" "plain_field (sq_AssetType q)"
    and "resubmit cd (mongoLobby CP CA CL CS tx link) ts envelope w = (rs, w')"
  shows "case lv_ledger (lobby_abs (view w)) (sq_SettlementId q) of
      Some _ \<Rightarrow> lobby_abs (view w') = lobby_abs (view w)
    | None \<Rightarrow> lobby_abs (view w') = lobby_abs (view w) \<and> (\<forall>r \<in> set rs. isl r)
        \<or> settle_once q (lobby_abs (view w)) (lobby_abs (view w'))"
  using ml.resubmit_once [OF assms(1-4) _ assms(5) [unfolded mongoLobby_def]]
    ml.resubmit_recorded [OF assms(1-4) _ assms(5) [unfolded mongoLobby_def]]
  by (auto split: option.splits)

theorem settlement_at_most_once_witness:
  "snd (resubmit lobby_codec memLobby [(2000000, 2000000, 2000000), (2000000, 2000000, 2000000)] (payload_env [0, 0]) lobby1) = lobby2
   \<and> settle_once settle_q (lobby_abs lobby1) (lobby_abs lobby2)"
proof -
  let ?ts = "[(2000000, 2000000, 2000000), (2000000, 2000000, 2000000 :: int)]"
  have run: "resubmit lobby_codec memLobby ?ts (payload_env [0, 0]) lobby1 =
      ([Inr (Some (gold_response False)), Inr (Some (gold_response True))], lobby2)"
    by (simp add: lobby_settle lobby_settle_again)
  have ok: "lobby_ok mem_P mem_A mem_L mem_S memoryTx mem_link (\<lambda>w. w) lobby1"
    using reachable(1) [OF mem_driver, of emptyLobby lobby1] lobby1_run by (simp add: memLobby_def)
  have "lv_ledger (lobby_abs lobby1) ''s1'' = None" by (simp add: lobby_abs_def lobby1_def)
  then have "settle_once settle_q (lobby_abs lobby1) (lobby_abs lobby2)"
    using settlement_at_most_once [OF ok lobby_requests(2) gold_plain(3,1), of ?ts, folded memLobby_def, OF run]
    by (simp add: settle_q_def)
  then show ?thesis by (simp only: run snd_conv simp_thms)
qed



text \<open>
  C19: An account keeps its player.  Two successful calls of \<open>ensurePlayer\<close> for the same account answer the same
  player, whatever other handlers do before, between and after them.
\<close>

theorem ensurePlayer_stable:
  assumes drv: "lobby_driver CP CA CL CS tx link view" "view w0 = emptyLobby" and c: "c = mongoLobby CP CA CL CS tx link"
    and runs: "lobby_run c w0 w1" "lobby_run c w1' w2"
    and q: "pb_EnsurePlayerRequest cd (en_Payload e1) = Inr q1" "pb_EnsurePlayerRequest cd (en_Payload e2) = Inr q2"
      "TrimSpace (eq_AccountId q1) = TrimSpace (eq_AccountId q2)"
    and calls: "ensurePlayer cd c uuid1 now1 e1 w1 = (Inr (Some m1), w1')" "ensurePlayer cd c uuid2 now2 e2 w2 = (Inr (Some m2), w2')"
  shows "\<exists>acc i b1 b2. mr_Message m1 = Some (MEnsurePlayerResponse \<lparr>ep_AccountId = acc, ep_PlayerId = i, ep_Created = b1\<rparr>)
    \<and> mr_Message m2 = Some (MEnsurePlayerResponse \<lparr>ep_AccountId = acc, ep_PlayerId = i, ep_Created = b2\<rparr>)"
proof -
  note R = reachable [OF drv, folded c]
  have run1: "lobby_run c w0 w1'" using runs(1) ensurePlayer_run [OF calls(1)] by (rule rtranclp_trans)
  have run2: "lobby_run c w0 w2" using run1 runs(2) by (rule rtranclp_trans)
  have run3: "lobby_run c w0 w2'" using run2 ensurePlayer_run [OF calls(2)] by (rule rtranclp_trans)
  have run4: "lobby_run c w1' w2'" using runs(2) ensurePlayer_run [OF calls(2)] by (rule rtranclp_trans)
  obtain i b1 p where 1: "m1 = \<lparr>mr_MessageID = ENSURE_PLAYER_RESPONSE, mr_Message = Some (MEnsurePlayerResponse
      \<lparr>ep_AccountId = TrimSpace (eq_AccountId q1), ep_PlayerId = i, ep_Created = b1\<rparr>)\<rparr>"
    "lv_players (lobby_abs (view w1')) i = Some p" "p_AccountID p = TrimSpace (eq_AccountId q1)" "p_IsDefault p"
    using ml.ensure_default(1) [OF R(1) [OF runs(1)] q(1) calls(1) [unfolded c mongoLobby_def]] by auto
  obtain j b2 p' where 2: "m2 = \<lparr>mr_MessageID = ENSURE_PLAYER_RESPONSE, mr_Message = Some (MEnsurePlayerResponse
      \<lparr>ep_AccountId = TrimSpace (eq_AccountId q2), ep_PlayerId = j, ep_Created = b2\<rparr>)\<rparr>"
    "lv_players (lobby_abs (view w2')) j = Some p'" "p_AccountID p' = TrimSpace (eq_AccountId q2)" "p_IsDefault p'"
    using ml.ensure_default(1) [OF R(1) [OF run2] q(2) calls(2) [unfolded c mongoLobby_def]] by auto
  have "lv_players (lobby_abs (view w2')) i = Some p"
    by (rule ml.run_players [OF run4 [unfolded c mongoLobby_def] R(1,2) [OF run1] 1(2)])
  then have "i = j" by (rule booksD(4) [OF R(2) [OF run3] _ 2(2) 1(4) 2(4)]) (simp add: 1(3) 2(3) q(3))
  then show ?thesis using 1(1) 2(1) q(3) by simp
qed

lemma lobby_ensure_again:
  "ensurePlayer lobby_codec memLobby (Inr ''p2'') 3000000 (payload_env [0]) lobby2 =
     (Inr (Some \<lparr>mr_MessageID = ENSURE_PLAYER_RESPONSE, mr_Message = Some (MEnsurePlayerResponse
        \<lparr>ep_AccountId = ''acc'', ep_PlayerId = ''p1'', ep_Created = False\<rparr>)\<rparr>), lobby2)"
proof -
  have acc: "TrimSpace (eq_AccountId ensure_q) = ''acc''" by (simp add: ensure_q_def TrimSpace_graphic graphic_def)
  have "\<exists>p. findOrCreate memLobby (Inr ''p2'') 3000000 ''acc'' lobby2 = (Inr (p, False), lobby2) \<and> p_ID p = ''p1''"
    by (simp add: findOrCreate_def mem_ops repo_ops lobby1_def lobby2_def)
  then obtain p where p: "findOrCreate memLobby (Inr ''p2'') 3000000 ''acc'' lobby2 = (Inr (p, False), lobby2)" "p_ID p = ''p1''"
    by blast
  show ?thesis by (simp add: ensurePlayer_def acc p(1)) (simp add: mem_ops p(2))
qed

theorem ensurePlayer_stable_witness:
  "\<exists>acc i b1 b2.
     mr_Message \<lparr>mr_MessageID = ENSURE_PLAYER_RESPONSE, mr_Message = Some (MEnsurePlayerResponse
        \<lparr>ep_AccountId = ''acc'', ep_PlayerId = ''p1'', ep_Created = True\<rparr>)\<rparr>
       = Some (MEnsurePlayerResponse \<lparr>ep_AccountId = acc, ep_PlayerId = i, ep_Created = b1\<rparr>)
     \<and> mr_Message \<lparr>mr_MessageID = ENSURE_PLAYER_RESPONSE, mr_Message = Some (MEnsurePlayerResponse
        \<lparr>ep_AccountId = ''acc'', ep_PlayerId = ''p1'', ep_Created = False\<rparr>)\<rparr>
       = Some (MEnsurePlayerResponse \<lparr>ep_AccountId = acc, ep_PlayerId = i, ep_Created = b2\<rparr>)"
proof (rule ensurePlayer_stable [OF mem_driver _ memLobby_def rtranclp.rtrancl_refl _ lobby_requests(1) lobby_requests(1) refl
      lobby_ensure lobby_ensure_again])
  show "emptyLobby = emptyLobby" ..
  show "lobby_run memLobby lobby1 lobby2" using settlement_run [OF lobby_settle] gold_plain by simp
qed


text \<open>
  The check of funds, exactly.  For a negative 64-bit delta the filter of \<open>ApplyDelta\<close> matches the assets of
  the player that have the currency and whose balance covers the delta, and also, for the one delta \<open>-2^63\<close>,
  whatever the balance: there the negation in the filter wraps around.
\<close>

theorem funds_check_exact:
  assumes "delta < 0" "in_s64 delta" "\<And>b. ad_Currency d t = Some b \<Longrightarrow> in_s64 b"
  shows "deltaFilter i t delta d \<longleftrightarrow> ad_PlayerID d = i
    \<and> (\<exists>b. ad_Currency d t = Some b \<and> (0 \<le> b + delta \<or> delta = MinInt64))"
proof (cases "delta = MinInt64")
  case True
  have "s64 (- MinInt64) = MinInt64" by (simp add: MinInt64_def s64_def)
  then show ?thesis using assms(1,3) by (auto simp: True deltaFilter_def in_s64_def MinInt64_def split: option.splits)
next
  case False
  then have "s64 (- delta) = - delta"
    using assms(1,2) by (intro s64_id) (auto simp: in_s64_def MinInt64_def)
  then show ?thesis using assms(1) False by (auto simp: deltaFilter_def split: option.splits)
qed

theorem funds_check_exact_witness:
  "\<not> deltaFilter ''p1'' ''gold'' (-6) (hd (db_assets lobby2)) \<and> deltaFilter ''p1'' ''gold'' (-5) (hd (db_assets lobby2))
   \<and> deltaFilter ''p1'' ''gold'' MinInt64 (hd (db_assets lobby2))"
  using funds_check_exact [of "-6" "hd (db_assets lobby2)" "''gold''" "''p1''"]
    funds_check_exact [of "-5" "hd (db_assets lobby2)" "''gold''" "''p1''"]
    funds_check_exact [of MinInt64 "hd (db_assets lobby2)" "''gold''" "''p1''"]
  by (simp add: lobby2_def in_s64_def MinInt64_def)

text \<open>
  A settlement that loses a race is answered with the winner's record.  Once the handler has seen that its
  identifier is not recorded, and another call records it first, a successful answer is the recorded
  settlement marked as replayed, whether or not the two ask for the same change; the books do not change.
\<close>

theorem lost_race_answers_winner:
  assumes "lobby_ok CP CA CL CS tx link view w" "plain_field (s_AssetType s)"
    and "lv_ledger (lobby_abs (view w)) (s_ID s) = Some old"
    and "applySettlement (mongoLobby CP CA CL CS tx link) now1 now2 s w = (Inr m, w')"
  shows "lobby_abs (view w') = lobby_abs (view w) \<and> (\<exists>a. lv_assets (lobby_abs (view w)) (s_PlayerID old) = Some a
     \<and> m = Some (settlement_response old True a))"
  by (rule ml.applySettlement_recorded [OF assms(1-3) assms(4) [unfolded mongoLobby_def]])

definition other_s :: Settlement where
  "other_s = (settlementOf settle_q 2000000)\<lparr>s_Delta := 7\<rparr>"

theorem lost_race_answers_winner_witness:
  "\<not> sameSettlement (settlementDomainFromDocument (hd (db_ledger lobby2))) other_s
   \<and> fst (applySettlement memLobby 3000000 3000000 other_s lobby2) = Inr (Some (gold_response True))
   \<and> (\<exists>a. gold_response True = settlement_response (settlementDomainFromDocument (hd (db_ledger lobby2))) True a)"
proof -
  let ?old = "settlementDomainFromDocument (hd (db_ledger lobby2))"
  have ok: "lobby_ok mem_P mem_A mem_L mem_S memoryTx mem_link (\<lambda>w. w) lobby2"
    using reachable(1) [OF mem_driver, of emptyLobby lobby2] lobby2_run by (simp add: memLobby_def)
  have call: "applySettlement memLobby 3000000 3000000 other_s lobby2 = (Inr (Some (gold_response True)), lobby2)"
    by (simp add: applySettlement_def executeSettlement_def replaySettlement_def settlementResult_def other_s_def
        settlementOf_def settle_q_def mem_ops repo_ops lobby2_def gold_response_def Balance_def IsDuplicateKeyError_def)
  have old: "lv_ledger (lobby_abs lobby2) (s_ID other_s) = Some ?old"
    by (simp add: lobby_abs_def lobby2_def index_by_def other_s_def settle_q_def)
  have plain: "plain_field (s_AssetType other_s)" by (simp add: other_s_def plain_field_def settle_q_def)
  have "\<exists>a. gold_response True = settlement_response ?old True a"
    using lost_race_answers_winner [OF ok plain old, folded memLobby_def, OF call] by auto
  moreover have "\<not> sameSettlement ?old other_s"
    by (simp add: sameSettlement_def other_s_def lobby2_def settlementDomainFromDocument_def)
  ultimately show ?thesis using call by simp
qed

text \<open>
  C21: A client sees its settlement.  After a settlement that was answered as applied, a restore of
  the player that succeeds is answered with the state version of the new assets, and unless the client
  already has that version, with a payload that decodes to the player's currencies after the settlement.
\<close>

theorem settlement_then_restore:
  assumes drv: "lobby_driver CP CA CL CS tx link view" "view w0 = emptyLobby" and c: "c = mongoLobby CP CA CL CS tx link"
    and run: "lobby_run c w0 w"
    and q: "pb_SettlementRequest cd (en_Payload e1) = Inr q" "plain_field (sq_AssetType q)" "in_s64 (sq_Delta q)"
    and settled: "settlement cd c now now1 now2 e1 w = (Inr (Some m1), w1)"
      "mr_Message m1 = Some (MSettlementResponse resp)" "\<not> sp_Replayed resp"
    and rq: "pb_RestorePlayerStateRequest cd (en_Payload e2) = Inr rq" "rq_PlayerId rq = sq_PlayerId q"
    and dec: "decodes cd (pb_LobbyStateSnapshot cd) MLobbyStateSnapshot"
    and restored: "restore cd c now3 e2 w1 = (Inr (Some m2), w2)"
  shows "\<exists>p a r. lv_players (lobby_abs (view w)) (sq_PlayerId q) = Some p \<and> lv_assets (lobby_abs (view w)) (sq_PlayerId q) = Some a
     \<and> mr_Message m2 = Some (MRestorePlayerStateResponse r) \<and> rp_Available r
     \<and> rp_StateVersion r = max (p_ProfileVersion p) (a_AssetVersion a + 1)
     \<and> (rq_LastStateVersion rq \<noteq> rp_StateVersion r \<longrightarrow> (\<exists>s. pb_LobbyStateSnapshot cd (rp_Snapshot r) = Inr s
          \<and> ls_PlayerId s = sq_PlayerId q \<and> ls_AssetVersion s = a_AssetVersion a + 1
          \<and> ls_Currency s = (a_Currency a)(sq_AssetType q \<mapsto> Balance a (sq_AssetType q) + sq_Delta q)))"
proof -
  note R = reachable [OF drv run [unfolded c]]
  have valid: "\<not> invalidRequest q" using settled(1) q(1) by (auto simp: settlement_def)
  note call = settled(1) [unfolded c mongoLobby_def]
  note O = ml.settlement_outcome [OF R(1) q(1) valid q(2) call]
  have new: "lv_ledger (lobby_abs (view w)) (sq_SettlementId q) = None"
  proof (rule ccontr)
    assume "lv_ledger (lobby_abs (view w)) (sq_SettlementId q) \<noteq> None"
    then show False using O(2) settled(2,3) by (auto simp: settlement_response_def)
  qed
  obtain p a where pa: "allowed (settlementOf q now) p a (lobby_abs (view w))"
    "lobby_abs (view w1) = settle now1 now2 (settlementOf q now) p a (lobby_abs (view w))"
    using O(2) new by auto
  let ?a = "applied now1 (sq_AssetType q) (sq_Delta q) a"
  define n where "n = storedSnapshot \<lparr>n_Player = p, n_Assets = ?a, n_SchemaVersion = 1, n_CreatedAt = now2\<rparr>"
  have p: "lv_players (lobby_abs (view w)) (sq_PlayerId q) = Some p" "lv_assets (lobby_abs (view w)) (sq_PlayerId q) = Some a"
    using pa(1) by (simp_all add: allowed_def)
  have id: "p_ID p = sq_PlayerId q" by (rule booksD(3) [OF R(2) p(1)])
  have n: "lv_snapshots (lobby_abs (view w1)) (rq_PlayerId rq) = Some n"
    using id rq(2) by (simp add: pa(2) settle_def Let_def n_def)
  note F = ml.restore_stored [OF O(1) rq(1) n restored [unfolded c mongoLobby_def]]
  have sv: "StateVersion n = max (p_ProfileVersion p) (a_AssetVersion a + 1)"
    by (auto simp: n_def StateVersion_def max_def)
  obtain r where r: "mr_Message m2 = Some (MRestorePlayerStateResponse r)" "rp_StateVersion r = StateVersion n" "rp_Available r"
    "rq_LastStateVersion rq \<noteq> StateVersion n \<Longrightarrow> MarshalStateSnapshot cd n = Inr (rp_Snapshot r)"
    using F(2) by (auto split: if_splits)
  have "\<exists>s. pb_LobbyStateSnapshot cd (rp_Snapshot r) = Inr s \<and> ls_PlayerId s = sq_PlayerId q
      \<and> ls_AssetVersion s = a_AssetVersion a + 1
      \<and> ls_Currency s = (a_Currency a)(sq_AssetType q \<mapsto> Balance a (sq_AssetType q) + sq_Delta q)"
    if "rq_LastStateVersion rq \<noteq> rp_StateVersion r"
    using decodes_Inr [OF dec r(4) [unfolded MarshalStateSnapshot_def]] that r(2) id
    by (simp add: n_def) (simp add: applied_def)
  then show ?thesis using p r sv by auto
qed


definition gold_restore :: RestorePlayerStateResponse where
  "gold_restore = \<lparr>rp_ServiceType = SERVICE_TYPE_LOBBY, rp_PlayerId = ''p1'', rp_StateVersion = 2,
     rp_Snapshot = [0, 0, 0, 0], rp_Available = True, rp_Mode = RESTORE_MODE_FULL, rp_BaseStateVersion = 0,
     rp_PayloadType = STATE_PAYLOAD_TYPE_LOBBY_SNAPSHOT, rp_SchemaVersion = 1\<rparr>"

lemma lobby_restore:
  "restore lobby_codec memLobby 3000000 (payload_env [0, 0, 0]) lobby2 =
     (Inr (Some \<lparr>mr_MessageID = RESTORE_PLAYER_STATE_RESPONSE, mr_Message = Some (MRestorePlayerStateResponse gold_restore)\<rparr>), lobby2)"
proof -
  define n where "n = snapshotDomainFromDocument (hd (db_snapshots lobby2))"
  have "loadSnapshot memLobby 3000000 ''p1'' lobby2 = (Inr n, lobby2)"
    by (simp add: n_def loadSnapshot_def mem_ops SnapshotRepository_FindByPlayerID_def lobby2_def)
  moreover have "StateVersion n = 2" "MarshalStateSnapshot lobby_codec n = Inr [0, 0, 0, 0]"
    using lobby_requests(4)
    by (simp_all add: n_def MarshalStateSnapshot_def StateVersion_def snapshotDomainFromDocument_def lobby2_def gold_state_def
        cloneCurrency_def word_le_nat_alt)
  ultimately show ?thesis
    by (simp add: restore_def) (simp add: restore_q_def gold_restore_def Let_def lobbyStatePayloadType_def restore_enums StateSchemaVersion_def)
qed

theorem settlement_then_restore_witness:
  "\<exists>s. pb_LobbyStateSnapshot lobby_codec (rp_Snapshot gold_restore) = Inr s \<and> ls_Currency s ''gold'' = Some 5"
proof -
  have dec: "decodes lobby_codec (pb_LobbyStateSnapshot lobby_codec) MLobbyStateSnapshot"
    by (simp add: lobby_codec_def table_decodes)
  have not_replayed: "mr_Message (gold_response False) = Some (MSettlementResponse \<lparr>sp_SettlementId = ''s1'', sp_PlayerId = ''p1'',
      sp_AssetType = ''gold'', sp_Balance = 5, sp_AssetVersion = 2, sp_Replayed = False\<rparr>)"
    by (simp add: gold_response_def)
  have player: "rq_PlayerId restore_q = sq_PlayerId settle_q" by (simp add: restore_q_def settle_q_def)
  have a: "lv_assets (lobby_abs lobby1) ''p1'' = Some (assetsDomainFromDocument (hd (db_assets lobby1)))"
    by (simp add: lobby_abs_def lobby1_def index_by_def)
  show ?thesis
    using settlement_then_restore [OF mem_driver refl memLobby_def lobby1_run lobby_requests(2) gold_plain(1,2) lobby_settle
        not_replayed _ lobby_requests(3) player dec lobby_restore] a
    by (auto simp: gold_restore_def restore_q_def settle_q_def Balance_def assetsDomainFromDocument_def lobby1_def cloneCurrency_def)
qed

end
