(* ===== verification/UC_Domain.thy ===== *)
theory UC_Domain
  imports Mongo Protocol
begin

text \<open>
  The user center's data: accounts, identities, refresh tokens and idempotency records
  (\<^verbatim>\<open>src/services/usercenter/domain\<close>), their documents and the mapping between the two
  (\<^verbatim>\<open>src/services/usercenter/repository/mongo/documents.go\<close> and \<^verbatim>\<open>mapper.go\<close>).  A method on a pointer that may be nil
  takes an option.
\<close>

section \<open>Identities\<close>

type_synonym AuthProvider = string

definition AuthProviderGuest :: AuthProvider where "AuthProviderGuest = ''guest''"
definition AuthProviderPassword :: AuthProvider where "AuthProviderPassword = ''password''"

record Identity =
  idn_ID :: string
  idn_AccountID :: string
  idn_Provider :: AuthProvider
  idn_Subject :: string
  idn_PasswordHash :: string
  idn_LinkedAt :: gotime

definition Identity_Validate :: "Identity \<Rightarrow> go_error option" where
  "Identity_Validate i =
     (if idn_Provider i = '''' \<or> idn_Subject i = '''' then Some (Sentinel ErrInvalidIdentity)
      else if idn_Provider i = AuthProviderPassword \<and> idn_PasswordHash i = '''' then Some (Sentinel ErrInvalidIdentity)
      else None)"

section \<open>Accounts\<close>

record Account =
  acc_ID :: string
  acc_Identities :: "Identity list"
  acc_PlayerIDs :: "string list"
  acc_CreatedAt :: gotime
  acc_UpdatedAt :: gotime

definition identityKey :: "Identity \<Rightarrow> string" where
  "identityKey i = idn_Provider i @ [CHR 0x00] @ idn_Subject i"

text \<open>The two loops of \<open>Validate\<close>; the second argument holds the keys seen so far.\<close>

fun validate_identities :: "Identity list \<Rightarrow> string set \<Rightarrow> go_error option" where
  "validate_identities [] seen = None"
| "validate_identities (i # is) seen =
     (case Identity_Validate i of
        Some e \<Rightarrow> Some e
      | None \<Rightarrow> if identityKey i \<in> seen then Some (Sentinel ErrInvalidAccount)
                else validate_identities is (insert (identityKey i) seen))"

fun validate_playerIDs :: "string list \<Rightarrow> string set \<Rightarrow> go_error option" where
  "validate_playerIDs [] seen = None"
| "validate_playerIDs (p # ps) seen =
     (if p = '''' then Some (Sentinel ErrInvalidAccount)
      else if p \<in> seen then Some (Sentinel ErrInvalidAccount)
      else validate_playerIDs ps (insert p seen))"

definition Account_Validate :: "Account option \<Rightarrow> go_error option" where
  "Account_Validate a =
     (case a of None \<Rightarrow> Some (Sentinel ErrInvalidAccount) | Some a \<Rightarrow>
      if acc_ID a = '''' then Some (Sentinel ErrInvalidAccount)
      else (case validate_identities (acc_Identities a) {} of
              Some e \<Rightarrow> Some e
            | None \<Rightarrow> validate_playerIDs (acc_PlayerIDs a) {}))"

definition FindIdentity :: "Account option \<Rightarrow> AuthProvider \<Rightarrow> string \<Rightarrow> Identity option" where
  "FindIdentity a provider subject =
     (case a of None \<Rightarrow> None | Some a \<Rightarrow>
      find (\<lambda>i. idn_Provider i = provider \<and> idn_Subject i = subject) (acc_Identities a))"

definition AddIdentity :: "Account option \<Rightarrow> Identity \<Rightarrow> Account result" where
  "AddIdentity a i =
     (case a of None \<Rightarrow> Inl (Sentinel ErrInvalidIdentity) | Some ac \<Rightarrow>
      if Identity_Validate i \<noteq> None then Inl (Sentinel ErrInvalidIdentity)
      else if FindIdentity a (idn_Provider i) (idn_Subject i) \<noteq> None then Inl (Sentinel ErrInvalidIdentity)
      else Inr (ac\<lparr>acc_Identities := acc_Identities ac @ [i\<lparr>idn_AccountID := acc_ID ac\<rparr>]\<rparr>))"

definition HasPlayer :: "Account option \<Rightarrow> string \<Rightarrow> bool" where
  "HasPlayer a playerID =
     (case a of None \<Rightarrow> False | Some a \<Rightarrow> playerID \<noteq> '''' \<and> list_ex (\<lambda>p. p = playerID) (acc_PlayerIDs a))"

definition Account_LinkPlayer :: "gotime \<Rightarrow> Account option \<Rightarrow> string \<Rightarrow> Account result" where
  "Account_LinkPlayer now a playerID =
     (case a of None \<Rightarrow> Inl (Sentinel ErrInvalidAccount) | Some ac \<Rightarrow>
      if acc_ID ac = '''' \<or> playerID = '''' then Inl (Sentinel ErrInvalidAccount)
      else if HasPlayer a playerID then Inl (Sentinel ErrPlayerLinked)
      else Inr (ac\<lparr>acc_PlayerIDs := acc_PlayerIDs ac @ [playerID], acc_UpdatedAt := now\<rparr>))"

section \<open>Refresh tokens\<close>

record RefreshToken =
  rt_ID :: string
  rt_AccountID :: string
  rt_TokenHash :: string
  rt_InstallID :: string
  rt_CreatedAt :: gotime
  rt_ExpiresAt :: gotime
  rt_RevokedAt :: "gotime option"

definition RefreshToken_Validate :: "RefreshToken \<Rightarrow> gotime \<Rightarrow> go_error option" where
  "RefreshToken_Validate t now =
     (if rt_AccountID t = '''' \<or> rt_TokenHash t = '''' \<or> rt_InstallID t = '''' \<or> IsZero (rt_ExpiresAt t)
      then Some (Sentinel ErrInvalidToken)
      else if \<not> now < rt_ExpiresAt t then Some (Sentinel ErrInvalidToken)
      else if rt_RevokedAt t \<noteq> None then Some (Sentinel ErrInvalidToken)
      else None)"

definition IsUsable :: "RefreshToken \<Rightarrow> gotime \<Rightarrow> string \<Rightarrow> bool" where
  "IsUsable t now installID \<longleftrightarrow> installID \<noteq> '''' \<and> rt_InstallID t = installID \<and> RefreshToken_Validate t now = None"

definition RefreshToken_Revoke :: "RefreshToken option \<Rightarrow> gotime \<Rightarrow> RefreshToken result" where
  "RefreshToken_Revoke t now =
     (case t of None \<Rightarrow> Inl (Sentinel ErrInvalidToken) | Some t \<Rightarrow>
      if rt_TokenHash t = '''' then Inl (Sentinel ErrInvalidToken)
      else Inr (case rt_RevokedAt t of None \<Rightarrow> t\<lparr>rt_RevokedAt := Some now\<rparr> | Some _ \<Rightarrow> t))"

section \<open>Idempotency records\<close>

type_synonym IdempotencyState = string

definition IdempotencyStatePending :: IdempotencyState where "IdempotencyStatePending = ''pending''"
definition IdempotencyStateCompleted :: IdempotencyState where "IdempotencyStateCompleted = ''completed''"

lemmas idempotency_states = IdempotencyStatePending_def IdempotencyStateCompleted_def

record IdempotencyRecord =
  ir_Key :: string
  ir_Operation :: string
  ir_AccountID :: string
  ir_RequestHash :: string
  ir_Response :: bytes
  ir_State :: IdempotencyState
  ir_ReservationID :: string
  ir_LeaseUntil :: gotime
  ir_CreatedAt :: gotime
  ir_ExpiresAt :: gotime

text \<open>\<open>Validate\<close> also fills in the state of the record it is called on.\<close>

definition IdempotencyRecord_Validate :: "IdempotencyRecord option \<Rightarrow> gotime \<Rightarrow> IdempotencyRecord result" where
  "IdempotencyRecord_Validate r now =
     (case r of None \<Rightarrow> Inl (Sentinel ErrInvalidIdempotency) | Some r \<Rightarrow>
      if ir_Key r = '''' \<or> ir_Operation r = '''' \<or> ir_RequestHash r = '''' \<or> IsZero (ir_ExpiresAt r)
      then Inl (Sentinel ErrInvalidIdempotency)
      else
        let r = (if ir_State r = '''' then r\<lparr>ir_State := IdempotencyStateCompleted\<rparr> else r) in
        if ir_State r \<noteq> IdempotencyStatePending \<and> ir_State r \<noteq> IdempotencyStateCompleted
        then Inl (Sentinel ErrInvalidIdempotency)
        else if \<not> now < ir_ExpiresAt r then Inl (Sentinel ErrInvalidIdempotency)
        else Inr r)"

definition IsCompleted :: "IdempotencyRecord option \<Rightarrow> bool" where
  "IsCompleted r = (case r of None \<Rightarrow> False | Some r \<Rightarrow> ir_State r = '''' \<or> ir_State r = IdempotencyStateCompleted)"

definition IsExpired :: "IdempotencyRecord option \<Rightarrow> gotime \<Rightarrow> bool" where
  "IsExpired r now = (case r of None \<Rightarrow> True | Some r \<Rightarrow> \<not> now < ir_ExpiresAt r)"

section \<open>Documents\<close>

text \<open>
  An array of strings in a document; in old documents the field may be missing or null.
\<close>

datatype bson_strings = Missing | Null | Strs "string list"

record accountDocument =
  acd_AccountID :: string
  acd_PlayerIDs :: bson_strings
  acd_CreatedAt :: gotime
  acd_UpdatedAt :: gotime

record identityDocument =
  ind_IdentityID :: string
  ind_AccountID :: string
  ind_Provider :: string
  ind_Subject :: string
  ind_PasswordHash :: string
  ind_LinkedAt :: gotime

text \<open>A missing \<^verbatim>\<open>revoked_at\<close> is \<open>None\<close>.\<close>

record refreshTokenDocument =
  rtd_TokenID :: string
  rtd_AccountID :: string
  rtd_TokenHash :: string
  rtd_InstallID :: string
  rtd_CreatedAt :: gotime
  rtd_ExpiresAt :: gotime
  rtd_RevokedAt :: "gotime option"

text \<open>A missing \<^verbatim>\<open>lease_until\<close> is read as the zero time.\<close>

record idempotencyDocument =
  ird_Key :: string
  ird_Operation :: string
  ird_AccountID :: string
  ird_RequestHash :: string
  ird_Response :: bytes
  ird_State :: string
  ird_ReservationID :: string
  ird_LeaseUntil :: gotime
  ird_CreatedAt :: gotime
  ird_ExpiresAt :: gotime

section \<open>Mapping\<close>

text \<open>A copy does not share the slice or the pointer; as values it is the same.\<close>

definition cloneStrings :: "string list \<Rightarrow> string list" where "cloneStrings values = values"
definition cloneTime :: "gotime option \<Rightarrow> gotime option" where "cloneTime value = value"

definition decodeStrings :: "bson_strings \<Rightarrow> string list" where
  "decodeStrings b = (case b of Strs ss \<Rightarrow> ss | _ \<Rightarrow> [])"

definition accountDocumentFromDomain :: "Account option \<Rightarrow> accountDocument result" where
  "accountDocumentFromDomain account =
     (case account of None \<Rightarrow> Inl (Sentinel ErrInvalidAccount) | Some a \<Rightarrow>
      (case Account_Validate account of Some e \<Rightarrow> Inl e | None \<Rightarrow>
        Inr \<lparr>acd_AccountID = acc_ID a, acd_PlayerIDs = Strs (cloneStrings (acc_PlayerIDs a)),
             acd_CreatedAt = acc_CreatedAt a, acd_UpdatedAt = acc_UpdatedAt a\<rparr>))"

definition identityDocumentFromDomain :: "Identity option \<Rightarrow> identityDocument result" where
  "identityDocumentFromDomain identity =
     (case identity of None \<Rightarrow> Inl (Sentinel ErrInvalidIdentity) | Some i \<Rightarrow>
      (case Identity_Validate i of Some e \<Rightarrow> Inl e | None \<Rightarrow>
        if idn_AccountID i = '''' then Inl (Sentinel ErrInvalidIdentity)
        else Inr \<lparr>ind_IdentityID = idn_ID i, ind_AccountID = idn_AccountID i, ind_Provider = idn_Provider i,
                  ind_Subject = idn_Subject i, ind_PasswordHash = idn_PasswordHash i, ind_LinkedAt = idn_LinkedAt i\<rparr>))"

definition identityDomainFromDocument :: "identityDocument \<Rightarrow> Identity" where
  "identityDomainFromDocument d = \<lparr>idn_ID = ind_IdentityID d, idn_AccountID = ind_AccountID d,
     idn_Provider = ind_Provider d, idn_Subject = ind_Subject d, idn_PasswordHash = ind_PasswordHash d,
     idn_LinkedAt = ind_LinkedAt d\<rparr>"

definition accountDomainFromDocument :: "accountDocument \<Rightarrow> identityDocument list \<Rightarrow> Account result" where
  "accountDomainFromDocument d identities =
     (let account = \<lparr>acc_ID = acd_AccountID d, acc_Identities = map identityDomainFromDocument identities,
                     acc_PlayerIDs = cloneStrings (decodeStrings (acd_PlayerIDs d)),
                     acc_CreatedAt = acd_CreatedAt d, acc_UpdatedAt = acd_UpdatedAt d\<rparr>
      in case Account_Validate (Some account) of Some e \<Rightarrow> Inl e | None \<Rightarrow> Inr account)"

text \<open>\<open>now\<close> is the reading of the clock.\<close>

definition refreshTokenDocumentFromDomain :: "gotime \<Rightarrow> RefreshToken option \<Rightarrow> refreshTokenDocument result" where
  "refreshTokenDocumentFromDomain now token =
     (case token of None \<Rightarrow> Inl (Sentinel ErrInvalidToken) | Some t \<Rightarrow>
      if rt_AccountID t = '''' \<or> rt_TokenHash t = '''' \<or> rt_InstallID t = '''' \<or> IsZero (rt_ExpiresAt t)
      then Inl (Sentinel ErrInvalidToken)
      else if rt_RevokedAt t = None \<and> \<not> now < rt_ExpiresAt t then Inl (Sentinel ErrInvalidToken)
      else Inr \<lparr>rtd_TokenID = rt_ID t, rtd_AccountID = rt_AccountID t, rtd_TokenHash = rt_TokenHash t,
                rtd_InstallID = rt_InstallID t, rtd_CreatedAt = rt_CreatedAt t, rtd_ExpiresAt = rt_ExpiresAt t,
                rtd_RevokedAt = cloneTime (rt_RevokedAt t)\<rparr>)"

definition refreshTokenDomainFromDocument :: "refreshTokenDocument \<Rightarrow> RefreshToken" where
  "refreshTokenDomainFromDocument d = \<lparr>rt_ID = rtd_TokenID d, rt_AccountID = rtd_AccountID d,
     rt_TokenHash = rtd_TokenHash d, rt_InstallID = rtd_InstallID d, rt_CreatedAt = rtd_CreatedAt d,
     rt_ExpiresAt = rtd_ExpiresAt d, rt_RevokedAt = cloneTime (rtd_RevokedAt d)\<rparr>"

definition idempotencyDocumentFromDomain :: "gotime \<Rightarrow> IdempotencyRecord option \<Rightarrow> idempotencyDocument result" where
  "idempotencyDocumentFromDomain now record =
     (case IdempotencyRecord_Validate record now of Inl e \<Rightarrow> Inl e | Inr r \<Rightarrow>
        Inr \<lparr>ird_Key = ir_Key r, ird_Operation = ir_Operation r, ird_AccountID = ir_AccountID r,
             ird_RequestHash = ir_RequestHash r, ird_Response = ir_Response r, ird_State = ir_State r,
             ird_ReservationID = ir_ReservationID r, ird_LeaseUntil = ir_LeaseUntil r,
             ird_CreatedAt = ir_CreatedAt r, ird_ExpiresAt = ir_ExpiresAt r\<rparr>)"

definition idempotencyDomainFromDocument :: "idempotencyDocument \<Rightarrow> IdempotencyRecord" where
  "idempotencyDomainFromDocument d = \<lparr>ir_Key = ird_Key d, ir_Operation = ird_Operation d,
     ir_AccountID = ird_AccountID d, ir_RequestHash = ird_RequestHash d, ir_Response = ird_Response d,
     ir_State = ird_State d, ir_ReservationID = ird_ReservationID d, ir_LeaseUntil = ird_LeaseUntil d,
     ir_CreatedAt = ird_CreatedAt d, ir_ExpiresAt = ird_ExpiresAt d\<rparr>"

section \<open>What the store keeps\<close>

definition storedIdentity :: "Identity \<Rightarrow> Identity" where
  "storedIdentity i = i\<lparr>idn_LinkedAt := bsonTime (idn_LinkedAt i)\<rparr>"

definition storedToken :: "RefreshToken \<Rightarrow> RefreshToken" where
  "storedToken t = t\<lparr>rt_CreatedAt := bsonTime (rt_CreatedAt t), rt_ExpiresAt := bsonTime (rt_ExpiresAt t),
     rt_RevokedAt := map_option bsonTime (rt_RevokedAt t)\<rparr>"

definition storedRecord :: "IdempotencyRecord \<Rightarrow> IdempotencyRecord" where
  "storedRecord r = r\<lparr>ir_LeaseUntil := bsonTime (ir_LeaseUntil r), ir_CreatedAt := bsonTime (ir_CreatedAt r),
     ir_ExpiresAt := bsonTime (ir_ExpiresAt r)\<rparr>"

lemma stored_token_fields [simp]:
  "rt_ID (storedToken t) = rt_ID t" "rt_AccountID (storedToken t) = rt_AccountID t"
  "rt_TokenHash (storedToken t) = rt_TokenHash t" "rt_InstallID (storedToken t) = rt_InstallID t"
  "rt_RevokedAt (storedToken t) = None \<longleftrightarrow> rt_RevokedAt t = None"
  by (simp_all add: storedToken_def)

lemma stored_identity_fields [simp]:
  "idn_ID (storedIdentity i) = idn_ID i" "idn_AccountID (storedIdentity i) = idn_AccountID i"
  "idn_Provider (storedIdentity i) = idn_Provider i" "idn_Subject (storedIdentity i) = idn_Subject i"
  "idn_PasswordHash (storedIdentity i) = idn_PasswordHash i"
  by (simp_all add: storedIdentity_def)

lemma stored_record_fields [simp]:
  "ir_Key (storedRecord r) = ir_Key r" "ir_Operation (storedRecord r) = ir_Operation r"
  "ir_RequestHash (storedRecord r) = ir_RequestHash r" "ir_Response (storedRecord r) = ir_Response r"
  "ir_State (storedRecord r) = ir_State r" "ir_ReservationID (storedRecord r) = ir_ReservationID r"
  by (simp_all add: storedRecord_def)

section \<open>Valid accounts stay valid\<close>

lemma validate_playerIDs_iff:
  "validate_playerIDs ps seen = None \<longleftrightarrow> distinct ps \<and> [] \<notin> set ps \<and> set ps \<inter> seen = {}"
  by (induction ps arbitrary: seen) auto

lemma validate_identities_iff:
  "validate_identities is seen = None \<longleftrightarrow> (\<forall>i \<in> set is. Identity_Validate i = None)
     \<and> distinct (map identityKey is) \<and> identityKey ` set is \<inter> seen = {}"
  by (induction "is" arbitrary: seen) (auto split: option.splits)

lemma Account_Validate_iff:
  "Account_Validate (Some a) = None \<longleftrightarrow> acc_ID a \<noteq> [] \<and> (\<forall>i \<in> set (acc_Identities a). Identity_Validate i = None)
     \<and> distinct (map identityKey (acc_Identities a)) \<and> distinct (acc_PlayerIDs a) \<and> [] \<notin> set (acc_PlayerIDs a)"
proof (cases "validate_identities (acc_Identities a) {}")
  case None
  then show ?thesis
    using validate_identities_iff [of "acc_Identities a" "{}"] by (simp add: Account_Validate_def validate_playerIDs_iff)
next
  case (Some e)
  then have "\<not> ((\<forall>i \<in> set (acc_Identities a). Identity_Validate i = None) \<and> distinct (map identityKey (acc_Identities a)))"
    using validate_identities_iff [of "acc_Identities a" "{}"] by simp
  then show ?thesis using Some by (auto simp: Account_Validate_def)
qed


lemma identityKey_inj:
  assumes "CHR 0x00 \<notin> set (idn_Provider i)" "CHR 0x00 \<notin> set (idn_Provider j)" "identityKey i = identityKey j"
  shows "idn_Provider i = idn_Provider j \<and> idn_Subject i = idn_Subject j"
proof -
  have "takeWhile (\<lambda>c. c \<noteq> CHR 0x00) (identityKey x) = idn_Provider x" if "CHR 0x00 \<notin> set (idn_Provider x)" for x
    using that by (auto simp: identityKey_def takeWhile_append intro!: takeWhile_eq_all_conv [THEN iffD2])
  from this [OF assms(1)] this [OF assms(2)] have "idn_Provider i = idn_Provider j" using assms(3) by simp
  then show ?thesis using assms(3) by (simp add: identityKey_def)
qed

lemma find_snoc: "\<forall>x \<in> set xs. \<not> P x \<Longrightarrow> find P (xs @ [y]) = (if P y then Some y else None)"
  by (induction xs) auto

lemma AddIdentity_valid:
  assumes v: "Account_Validate (Some a) = None" and add: "AddIdentity (Some a) i = Inr a'"
    and nul: "\<And>j. j \<in> insert i (set (acc_Identities a)) \<Longrightarrow> CHR 0x00 \<notin> set (idn_Provider j)"
  shows "Account_Validate (Some a') = None" "FindIdentity (Some a') (idn_Provider i) (idn_Subject i) = Some (i\<lparr>idn_AccountID := acc_ID a\<rparr>)"
proof -
  let ?i = "i\<lparr>idn_AccountID := acc_ID a\<rparr>"
  have i: "Identity_Validate i = None" and fresh: "FindIdentity (Some a) (idn_Provider i) (idn_Subject i) = None"
    and a': "a' = a\<lparr>acc_Identities := acc_Identities a @ [?i]\<rparr>"
    using add by (auto simp: AddIdentity_def split: if_splits)
  have none: "\<not> (idn_Provider j = idn_Provider i \<and> idn_Subject j = idn_Subject i)" if "j \<in> set (acc_Identities a)" for j
    using fresh that by (auto simp: FindIdentity_def find_None_iff)
  have "identityKey j \<noteq> identityKey i" if "j \<in> set (acc_Identities a)" for j
    using identityKey_inj [of j i] none [OF that] nul that by auto
  then have "identityKey i \<notin> identityKey ` set (acc_Identities a)" by force
  moreover have "identityKey ?i = identityKey i" "Identity_Validate ?i = None"
    using i by (simp_all add: identityKey_def Identity_Validate_def split: if_splits)
  ultimately show "Account_Validate (Some a') = None"
    using v unfolding Account_Validate_iff a' by simp
  show "FindIdentity (Some a') (idn_Provider i) (idn_Subject i) = Some ?i"
    using none by (simp add: FindIdentity_def a' find_snoc)
qed

lemma Account_LinkPlayer_valid:
  assumes "Account_Validate (Some a) = None" "Account_LinkPlayer now (Some a) p = Inr a'"
  shows "Account_Validate (Some a') = None" "HasPlayer (Some a') p"
  using assms unfolding Account_Validate_iff
  by (auto simp: Account_LinkPlayer_def HasPlayer_def list_ex_iff split: if_splits)

section \<open>Round trips\<close>

lemma identity_roundtrip: "identityDocumentFromDomain (Some i) = Inr d \<Longrightarrow> identityDomainFromDocument d = i"
  by (auto simp: identityDocumentFromDomain_def identityDomainFromDocument_def split: option.splits if_splits)

lemma token_roundtrip: "refreshTokenDocumentFromDomain now (Some t) = Inr d \<Longrightarrow> refreshTokenDomainFromDocument d = t"
  by (auto simp: refreshTokenDocumentFromDomain_def refreshTokenDomainFromDocument_def cloneTime_def split: if_splits)

lemma record_roundtrip:
  "idempotencyDocumentFromDomain now (Some r) = Inr d \<Longrightarrow>
   idempotencyDomainFromDocument d = (if ir_State r = '''' then r\<lparr>ir_State := IdempotencyStateCompleted\<rparr> else r)"
  by (auto simp: idempotencyDocumentFromDomain_def idempotencyDomainFromDocument_def IdempotencyRecord_Validate_def Let_def
      split: if_splits)

end
