(* ===== verification/UC_Store.thy ===== *)
theory UC_Store
  imports UC_Domain
begin

text \<open>
  The repositories the user center is written against (\<^verbatim>\<open>src/services/usercenter/repository/interfaces.go\<close>), as
  records of operations on a state \<open>w\<close>, and their contracts over an abstract view (accounts and tokens under
  their identifiers, identities under provider and subject, idempotency records under their keys): the locale
  \<open>account_store\<close> for accounts, identities and tokens, \<open>idempotency_store\<close> for idempotency records.
\<close>

section \<open>Interfaces\<close>

record 'w AccountRepository =
  acr_EnsureIndexes :: "'w action"
  acr_Create :: "Account \<Rightarrow> 'w action"
  acr_FindByID :: "string \<Rightarrow> 'w \<Rightarrow> Account result \<times> 'w"
  acr_LinkPlayer :: "string \<Rightarrow> string \<Rightarrow> gotime \<Rightarrow> 'w action"

record 'w IdentityRepository =
  inr_EnsureIndexes :: "'w action"
  inr_Create :: "Identity \<Rightarrow> 'w action"
  inr_Find :: "AuthProvider \<Rightarrow> string \<Rightarrow> 'w \<Rightarrow> Identity result \<times> 'w"

record 'w RefreshTokenRepository =
  rtr_EnsureIndexes :: "'w action"
  rtr_Create :: "RefreshToken \<Rightarrow> 'w action"
  rtr_FindValid :: "string \<Rightarrow> gotime \<Rightarrow> 'w \<Rightarrow> RefreshToken result \<times> 'w"
  rtr_Revoke :: "string \<Rightarrow> gotime \<Rightarrow> 'w action"
  rtr_Rotate :: "string \<Rightarrow> gotime \<Rightarrow> RefreshToken \<Rightarrow> 'w action"

record 'w IdempotencyRepository =
  ipr_EnsureIndexes :: "'w action"
  ipr_Find :: "string \<Rightarrow> gotime \<Rightarrow> 'w \<Rightarrow> IdempotencyRecord result \<times> 'w"
  ipr_Create :: "IdempotencyRecord \<Rightarrow> 'w action"

text \<open>What \<open>Reserve\<close> returns: a record, whether the caller owns the reservation, and an error.\<close>

type_synonym reservation = "IdempotencyRecord option \<times> bool \<times> go_error option"

record 'w IdempotencyCoordinator = "'w IdempotencyRepository" +
  ipc_Reserve :: "IdempotencyRecord \<Rightarrow> gotime \<Rightarrow> 'w \<Rightarrow> reservation \<times> 'w"
  ipc_Complete :: "string \<Rightarrow> string \<Rightarrow> bytes \<Rightarrow> gotime \<Rightarrow> 'w action"
  ipc_Release :: "string \<Rightarrow> string \<Rightarrow> 'w action"
  ipc_Renew :: "string \<Rightarrow> string \<Rightarrow> gotime \<Rightarrow> gotime \<Rightarrow> 'w action"
  ipc_RecoverExpired :: "gotime \<Rightarrow> 'w \<Rightarrow> nat result \<times> 'w"

section \<open>The abstract view\<close>

record uc_view =
  uv_accounts :: "string \<rightharpoonup> Account"
  uv_identities :: "AuthProvider \<times> string \<rightharpoonup> Identity"
  uv_tokens :: "string \<rightharpoonup> RefreshToken"
  uv_records :: "string \<rightharpoonup> IdempotencyRecord"

definition storedAccount :: "Account \<Rightarrow> Account" where
  "storedAccount a = a\<lparr>acc_Identities := [], acc_CreatedAt := bsonTime (acc_CreatedAt a),
     acc_UpdatedAt := bsonTime (acc_UpdatedAt a)\<rparr>"

text \<open>A token that a client may still present.\<close>

definition live :: "RefreshToken \<Rightarrow> gotime \<Rightarrow> bool" where
  "live t now \<longleftrightarrow> rt_RevokedAt t = None \<and> bsonTime now < rt_ExpiresAt t"

definition rotated :: "string \<Rightarrow> gotime \<Rightarrow> RefreshToken \<Rightarrow> RefreshToken \<Rightarrow> uc_view \<Rightarrow> uc_view" where
  "rotated i now old new v = v\<lparr>uv_tokens := (uv_tokens v)(i \<mapsto> old\<lparr>rt_RevokedAt := Some (bsonTime now)\<rparr>,
     rt_ID new \<mapsto> storedToken new)\<rparr>"

text \<open>A token whose identifier and hash are not in use.\<close>

definition unused :: "RefreshToken \<Rightarrow> uc_view \<Rightarrow> bool" where
  "unused t v \<longleftrightarrow> uv_tokens v (rt_ID t) = None \<and> (\<forall>t' \<in> ran (uv_tokens v). rt_TokenHash t' \<noteq> rt_TokenHash t)"

definition rotates :: "string \<Rightarrow> gotime \<Rightarrow> RefreshToken \<Rightarrow> uc_view \<Rightarrow> uc_view \<Rightarrow> bool" where
  "rotates i now new v v' \<longleftrightarrow> (\<exists>old. uv_tokens v i = Some old \<and> live old now \<and> unused new v
     \<and> v' = rotated i now old new v)"

section \<open>The contract\<close>

locale account_store = unit_of_work tx abs invar
  for tx :: "'w action \<Rightarrow> 'w action" and abs :: "'w \<Rightarrow> uc_view" and invar :: "'w \<Rightarrow> bool" +
  fixes AC :: "'w AccountRepository" and IR :: "'w IdentityRepository" and RT :: "'w RefreshTokenRepository"
  assumes token_hash_unique: "invar w \<Longrightarrow> uv_tokens (abs w) i = Some s \<Longrightarrow> uv_tokens (abs w) j = Some t \<Longrightarrow>
      rt_TokenHash s = rt_TokenHash t \<Longrightarrow> i = j"
    and account_create: "invar w \<Longrightarrow> acr_Create AC a w = (e, w') \<Longrightarrow> invar w' \<and>
      (case e of Some er \<Rightarrow> abs w' = abs w
       | None \<Rightarrow> Account_Validate (Some a) = None \<and> uv_accounts (abs w) (acc_ID a) = None
           \<and> abs w' = (abs w)\<lparr>uv_accounts := (uv_accounts (abs w))(acc_ID a \<mapsto> storedAccount a)\<rparr>)"
    and account_link: "invar w \<Longrightarrow> acr_LinkPlayer AC i p now w = (e, w') \<Longrightarrow> invar w' \<and>
      (case e of Some er \<Rightarrow> abs w' = abs w
       | None \<Rightarrow> i \<noteq> '''' \<and> p \<noteq> '''' \<and> (\<exists>a. uv_accounts (abs w) i = Some a \<and> abs w' = (abs w)\<lparr>uv_accounts := (uv_accounts (abs w))(i \<mapsto>
           a\<lparr>acc_PlayerIDs := (if p \<in> set (acc_PlayerIDs a) then acc_PlayerIDs a else acc_PlayerIDs a @ [p]),
             acc_UpdatedAt := bsonTime now\<rparr>)\<rparr>))"
    and identity_create: "invar w \<Longrightarrow> inr_Create IR x w = (e, w') \<Longrightarrow> invar w' \<and>
      (case e of Some er \<Rightarrow> abs w' = abs w
       | None \<Rightarrow> Identity_Validate x = None \<and> uv_identities (abs w) (idn_Provider x, idn_Subject x) = None
           \<and> abs w' = (abs w)\<lparr>uv_identities := (uv_identities (abs w))((idn_Provider x, idn_Subject x) \<mapsto> storedIdentity x)\<rparr>)"
    and identity_find: "invar w \<Longrightarrow> inr_Find IR pv sb w = (ires, w') \<Longrightarrow> invar w' \<and> abs w' = abs w \<and>
      (case ires of Inr x \<Rightarrow> uv_identities (abs w) (pv, sb) = Some x
       | Inl er \<Rightarrow> errors_is er ErrIdentityNotFound \<longrightarrow> uv_identities (abs w) (pv, sb) = None)"
    and token_create: "invar w \<Longrightarrow> rtr_Create RT t w = (e, w') \<Longrightarrow> invar w' \<and>
      (case e of Some er \<Rightarrow> abs w' = abs w
       | None \<Rightarrow> unused t (abs w)
           \<and> abs w' = (abs w)\<lparr>uv_tokens := (uv_tokens (abs w))(rt_ID t \<mapsto> storedToken t)\<rparr>)"
    and token_find: "invar w \<Longrightarrow> rtr_FindValid RT h now w = (tres, w') \<Longrightarrow> invar w' \<and> abs w' = abs w \<and>
      (case tres of Inr t \<Rightarrow> uv_tokens (abs w) (rt_ID t) = Some t \<and> rt_TokenHash t = h \<and> live t now
       | Inl er \<Rightarrow> errors_is er ErrInvalidToken \<longrightarrow> h = '''' \<or> (\<forall>t \<in> ran (uv_tokens (abs w)). rt_TokenHash t = h \<longrightarrow> \<not> live t now))"
    and token_revoke: "invar w \<Longrightarrow> rtr_Revoke RT i now w = (e, w') \<Longrightarrow> invar w' \<and>
      (case e of Some er \<Rightarrow> abs w' = abs w
       | None \<Rightarrow> (\<exists>t. uv_tokens (abs w) i = Some t \<and> rt_RevokedAt t = None
           \<and> abs w' = (abs w)\<lparr>uv_tokens := (uv_tokens (abs w))(i \<mapsto> t\<lparr>rt_RevokedAt := Some (bsonTime now)\<rparr>)\<rparr>))"
    and token_rotate: "invar w \<Longrightarrow> rtr_Rotate RT i now t w = (e, w') \<Longrightarrow> invar w' \<and>
      (case e of Some er \<Rightarrow> abs w' = abs w \<or> rotates i now t (abs w) (abs w')
       | None \<Rightarrow> rotates i now t (abs w) (abs w'))"

section \<open>The contract of idempotency records\<close>

text \<open>A record whose reservation or lifetime has run out, so that its key may be taken over.\<close>

definition lapsed :: "gotime \<Rightarrow> IdempotencyRecord \<Rightarrow> bool" where
  "lapsed now x \<longleftrightarrow> \<not> bsonTime now < ir_ExpiresAt x
     \<or> ir_State x = IdempotencyStatePending \<and> ir_LeaseUntil x \<noteq> 0 \<and> ir_LeaseUntil x \<le> bsonTime now"

definition vacant :: "string \<Rightarrow> gotime \<Rightarrow> uc_view \<Rightarrow> bool" where
  "vacant k now v \<longleftrightarrow> (\<forall>x. uv_records v k = Some x \<longrightarrow> lapsed now x)"

definition pending_by :: "string \<Rightarrow> IdempotencyRecord \<Rightarrow> bool" where
  "pending_by rid x \<longleftrightarrow> ir_State x = IdempotencyStatePending \<and> ir_ReservationID x = rid"

text \<open>A record that holds the reservation asked for by \<open>r\<close>.\<close>

definition granted :: "IdempotencyRecord \<Rightarrow> IdempotencyRecord \<Rightarrow> bool" where
  "granted r x \<longleftrightarrow> pending_by (ir_ReservationID r) x \<and> ir_LeaseUntil x = bsonTime (ir_LeaseUntil r)
     \<and> ir_Operation x = ir_Operation r \<and> ir_RequestHash x = ir_RequestHash r"

abbreviation put_record :: "string \<Rightarrow> IdempotencyRecord option \<Rightarrow> uc_view \<Rightarrow> uc_view" where
  "put_record k x v \<equiv> v\<lparr>uv_records := (uv_records v)(k := x)\<rparr>"

definition completed :: "bytes \<Rightarrow> IdempotencyRecord \<Rightarrow> IdempotencyRecord" where
  "completed response x = x\<lparr>ir_State := IdempotencyStateCompleted, ir_Response := response, ir_LeaseUntil := 0\<rparr>"

text \<open>The effect of \<open>Reserve\<close>: ownership of a vacant key, or nothing but the removal of a stale record.\<close>

definition reserves :: "IdempotencyRecord \<Rightarrow> gotime \<Rightarrow> reservation \<Rightarrow> uc_view \<Rightarrow> uc_view \<Rightarrow> bool" where
  "reserves r now res v v' \<longleftrightarrow> (case res of (cur, owns, e) \<Rightarrow>
     if owns then e = None \<and> vacant (ir_Key r) now v \<and> (\<exists>x. granted r x \<and> v' = put_record (ir_Key r) (Some x) v)
     else if e = None then v' = v \<and> (\<exists>x. cur = Some x \<and> uv_records v (ir_Key r) = Some x \<and> bsonTime now < ir_ExpiresAt x
            \<and> ir_Operation x = ir_Operation r \<and> ir_RequestHash x = ir_RequestHash r)
     else v' = v \<or> vacant (ir_Key r) now v \<and> v' = put_record (ir_Key r) None v)"

locale idempotency_store =
  fixes abs :: "'w \<Rightarrow> uc_view" and invar :: "'w \<Rightarrow> bool" and IC :: "'w IdempotencyCoordinator"
  assumes record_find: "invar w \<Longrightarrow> ipr_Find IC k now w = (rres, w') \<Longrightarrow> invar w' \<and> abs w' = abs w \<and>
      (case rres of Inr x \<Rightarrow> uv_records (abs w) k = Some x \<and> bsonTime now < ir_ExpiresAt x
       | Inl er \<Rightarrow> errors_is er ErrIdempotencyNotFound \<longrightarrow> (\<forall>x. uv_records (abs w) k = Some x \<longrightarrow> \<not> bsonTime now < ir_ExpiresAt x))"
    and record_create: "invar w \<Longrightarrow> ipr_Create IC r w = (e, w') \<Longrightarrow> invar w' \<and>
      (case e of Some er \<Rightarrow> abs w' = abs w
       | None \<Rightarrow> uv_records (abs w) (ir_Key r) = None \<and> abs w' = put_record (ir_Key r)
           (Some (storedRecord (if ir_State r = '''' then r\<lparr>ir_State := IdempotencyStateCompleted\<rparr> else r))) (abs w))"
    and record_reserve: "invar w \<Longrightarrow> ipc_Reserve IC r now w = (res, w') \<Longrightarrow> ir_State r = IdempotencyStatePending \<Longrightarrow>
      invar w' \<and> reserves r now res (abs w) (abs w')"
    and record_complete: "invar w \<Longrightarrow> ipc_Complete IC k rid bs now w = (e, w') \<Longrightarrow> invar w' \<and>
      (case e of Some er \<Rightarrow> abs w' = abs w
       | None \<Rightarrow> (\<exists>x. uv_records (abs w) k = Some x \<and> pending_by rid x \<and> bsonTime now < ir_ExpiresAt x
           \<and> abs w' = put_record k (Some (completed bs x)) (abs w)))"
    and record_release: "invar w \<Longrightarrow> ipc_Release IC k rid w = (e, w') \<Longrightarrow> invar w' \<and>
      (abs w' = abs w \<or> (\<exists>x. uv_records (abs w) k = Some x \<and> pending_by rid x \<and> abs w' = put_record k None (abs w)))"
    and record_renew: "invar w \<Longrightarrow> ipc_Renew IC k rid lease now w = (e, w') \<Longrightarrow> invar w' \<and>
      (case e of Some er \<Rightarrow> abs w' = abs w
       | None \<Rightarrow> now < lease \<and> (\<exists>x. uv_records (abs w) k = Some x \<and> pending_by rid x \<and> bsonTime now < ir_ExpiresAt x
           \<and> abs w' = put_record k (Some (x\<lparr>ir_LeaseUntil := bsonTime lease\<rparr>)) (abs w)))"
    and record_recover: "invar w \<Longrightarrow> ipc_RecoverExpired IC now w = (n, w') \<Longrightarrow> invar w' \<and>
      (\<exists>R. abs w' = (abs w)\<lparr>uv_records := R\<rparr> \<and> R \<subseteq>\<^sub>m uv_records (abs w)
         \<and> (\<forall>k x. uv_records (abs w) k = Some x \<longrightarrow> R k = None \<longrightarrow> ir_State x = IdempotencyStatePending \<and> lapsed now x))"

end
