(* ===== verification/UC_Auth.thy ===== *)
theory UC_Auth
  imports UC_Store
begin

text \<open>
  The user center's component (\<^verbatim>\<open>src/services/usercenter/components/domain_auth_component.go\<close>,
  \<^verbatim>\<open>client_auth_component.go\<close>): login as a guest or with a password, refresh, revocation and linking of
  players.  What the code takes from outside (the clock, identifiers, random bytes, the hash
  functions, the wire format, timers) is the record \<open>uc_env\<close>.  The idempotent execution of requests that the handlers go
  through is in \<open>UC_Idempotency\<close>.
\<close>

section \<open>The component\<close>

text \<open>
  \<open>ev_rand\<close> reads 32 random bytes; \<open>ev_hashPassword\<close> and \<open>ev_checkPassword\<close> are bcrypt's
  \<^verbatim>\<open>GenerateFromPassword\<close> and whether \<^verbatim>\<open>CompareHashAndPassword\<close> returns nil; \<open>ev_ticks\<close> gives the times at which a renewal
  timer fires while a request is executed; \<open>ev_pause\<close> waits for 50 ms or until the request's context is
  done and returns the context's error in that case.
\<close>

record 'w uc_env =
  ev_codec :: codec
  ev_uuid :: "'w \<Rightarrow> string result \<times> 'w"
  ev_rand :: "'w \<Rightarrow> bytes result \<times> 'w"
  ev_sha256 :: "bytes \<Rightarrow> bytes"
  ev_hashPassword :: "string \<Rightarrow> 'w \<Rightarrow> string result \<times> 'w"
  ev_checkPassword :: "string \<Rightarrow> string \<Rightarrow> bool"
  ev_ticks :: "'w \<Rightarrow> gotime list \<times> 'w"
  ev_pause :: "'w \<Rightarrow> go_error option \<times> 'w"

record 'w DomainAuthComponent =
  dc_accounts :: "'w AccountRepository"
  dc_identities :: "'w IdentityRepository"
  dc_refreshTokens :: "'w RefreshTokenRepository"
  dc_idempotency :: "'w IdempotencyRepository option"
  dc_coordinator :: "'w IdempotencyCoordinator option"
  dc_unitOfWork :: "('w action \<Rightarrow> 'w action) option"
  dc_refreshTokenTTL :: duration
  dc_idempotencyTTL :: duration
  dc_idempotencyLease :: duration
  dc_idempotencyRenewInterval :: duration
  dc_now :: "'w \<Rightarrow> gotime \<times> 'w"

text \<open>\<open>coordinator\<close> is what the type assertion on the idempotency repository yields.\<close>

definition NewDomainAuthComponent ::
    "('w \<Rightarrow> gotime \<times> 'w) \<Rightarrow> 'w AccountRepository \<Rightarrow> 'w IdentityRepository \<Rightarrow> 'w RefreshTokenRepository \<Rightarrow>
     ('w action \<Rightarrow> 'w action) option \<Rightarrow> duration \<Rightarrow> 'w IdempotencyRepository option \<Rightarrow>
     'w IdempotencyCoordinator option \<Rightarrow> 'w DomainAuthComponent" where
  "NewDomainAuthComponent now accounts identities refreshTokens unitOfWork refreshTokenTTL idempotency coordinator =
     \<lparr>dc_accounts = accounts, dc_identities = identities, dc_refreshTokens = refreshTokens,
      dc_idempotency = idempotency, dc_coordinator = (if idempotency = None then None else coordinator),
      dc_unitOfWork = unitOfWork, dc_refreshTokenTTL = refreshTokenTTL,
      dc_idempotencyTTL = 24 * 3600 * Second, dc_idempotencyLease = 30 * Second,
      dc_idempotencyRenewInterval = 10 * Second, dc_now = now\<rparr>"

definition WithIdempotencyLease :: "'w DomainAuthComponent \<Rightarrow> duration \<Rightarrow> duration \<Rightarrow> 'w DomainAuthComponent" where
  "WithIdempotencyLease c lease renewInterval =
     (let c1 = (if lease > 0 then c\<lparr>dc_idempotencyLease := lease\<rparr> else c)
      in if renewInterval > 0 then c1\<lparr>dc_idempotencyRenewInterval := renewInterval\<rparr> else c1)"

definition WithIdempotencyTTL :: "'w DomainAuthComponent \<Rightarrow> duration \<Rightarrow> 'w DomainAuthComponent" where
  "WithIdempotencyTTL c ttl = (if ttl > 0 then c\<lparr>dc_idempotencyTTL := ttl\<rparr> else c)"

section \<open>Encodings\<close>

definition string_bytes :: "string \<Rightarrow> bytes" where
  "string_bytes s = map of_char s"

definition hexDigit :: "nat \<Rightarrow> char" where
  "hexDigit n = ''0123456789abcdef'' ! n"

text \<open>\<^verbatim>\<open>hex.EncodeToString\<close>.\<close>

definition hexString :: "bytes \<Rightarrow> string" where
  "hexString bs = concat (map (\<lambda>b. [hexDigit (unat b div 16), hexDigit (unat b mod 16)]) bs)"

definition base64Digit :: "nat \<Rightarrow> char" where
  "base64Digit n = ''ABCDEFGHIJKLMNOPQRSTUVWXYZabcdefghijklmnopqrstuvwxyz0123456789-_'' ! n"

text \<open>\<^verbatim>\<open>base64.RawURLEncoding.EncodeToString\<close>.\<close>

fun rawURLEncoding :: "bytes \<Rightarrow> string" where
  "rawURLEncoding [] = []"
| "rawURLEncoding [a] = [base64Digit (unat a div 4), base64Digit (unat a mod 4 * 16)]"
| "rawURLEncoding [a, b] = [base64Digit (unat a div 4), base64Digit (unat a mod 4 * 16 + unat b div 16),
     base64Digit (unat b mod 16 * 4)]"
| "rawURLEncoding (a # b # c # bs) = [base64Digit (unat a div 4), base64Digit (unat a mod 4 * 16 + unat b div 16),
     base64Digit (unat b mod 16 * 4 + unat c div 64), base64Digit (unat c mod 64)] @ rawURLEncoding bs"

definition authHashToken :: "'w uc_env \<Rightarrow> string \<Rightarrow> string" where
  "authHashToken ev token = hexString (ev_sha256 ev (string_bytes token))"

section \<open>Tokens and accounts\<close>

definition newToken ::
    "'w uc_env \<Rightarrow> 'w DomainAuthComponent \<Rightarrow> string \<Rightarrow> string \<Rightarrow> 'w \<Rightarrow> (RefreshToken \<times> string) result \<times> 'w" where
  "newToken ev c accountID installID w =
     (if accountID = '''' \<or> installID = '''' \<or> dc_refreshTokenTTL c \<le> 0 then (Inl (Sentinel ErrInvalidToken), w)
      else (case ev_uuid ev w of
         (Inl e, w1) \<Rightarrow> (Inl e, w1)
       | (Inr tokenID, w1) \<Rightarrow>
           (case ev_rand ev w1 of
              (Inl e, w2) \<Rightarrow> (Inl e, w2)
            | (Inr raw, w2) \<Rightarrow>
                (case dc_now c w2 of (now, w3) \<Rightarrow>
                   let rawToken = rawURLEncoding raw in
                   (Inr (\<lparr>rt_ID = tokenID, rt_AccountID = accountID, rt_TokenHash = authHashToken ev rawToken,
                          rt_InstallID = TrimSpace installID, rt_CreatedAt = now,
                          rt_ExpiresAt = now + dc_refreshTokenTTL c, rt_RevokedAt = None\<rparr>, rawToken), w3)))))"

definition issueToken ::
    "'w uc_env \<Rightarrow> 'w DomainAuthComponent \<Rightarrow> string \<Rightarrow> string \<Rightarrow> 'w \<Rightarrow> (RefreshToken \<times> string) result \<times> 'w" where
  "issueToken ev c accountID installID w =
     (case newToken ev c accountID installID w of
        (Inl e, w1) \<Rightarrow> (Inl e, w1)
      | (Inr (token, rawToken), w1) \<Rightarrow>
          (case rtr_Create (dc_refreshTokens c) token w1 of
             (Some e, w2) \<Rightarrow> (Inl (Wrapf ''store refresh token: '' e), w2)
           | (None, w2) \<Rightarrow> (Inr (token, rawToken), w2)))"

text \<open>The function that \<open>createAccountAndToken\<close> runs in one transaction.\<close>

definition storeAccount :: "'w DomainAuthComponent \<Rightarrow> Account \<Rightarrow> Identity \<Rightarrow> RefreshToken \<Rightarrow> 'w action" where
  "storeAccount c account identity token w =
     (case acr_Create (dc_accounts c) account w of
        (Some e, w1) \<Rightarrow> (Some e, w1)
      | (None, w1) \<Rightarrow>
          (case inr_Create (dc_identities c) identity w1 of
             (Some e, w2) \<Rightarrow> (Some e, w2)
           | (None, w2) \<Rightarrow> rtr_Create (dc_refreshTokens c) token w2))"

text \<open>The identifiers and the hash of the password, if there is one.\<close>

definition accountInputs :: "'w uc_env \<Rightarrow> string \<Rightarrow> 'w \<Rightarrow> (string \<times> string \<times> string) result \<times> 'w" where
  "accountInputs ev password w =
     (case ev_uuid ev w of
        (Inl e, w1) \<Rightarrow> (Inl (Wrapf ''generate account id: '' e), w1)
      | (Inr accountID, w1) \<Rightarrow>
          (case ev_uuid ev w1 of
             (Inl e, w2) \<Rightarrow> (Inl (Wrapf ''generate identity id: '' e), w2)
           | (Inr identityID, w2) \<Rightarrow>
               if password = '''' then (Inr (accountID, identityID, ''''), w2)
               else (case ev_hashPassword ev password w2 of
                       (Inl e, w3) \<Rightarrow> (Inl (Wrapf ''hash password: '' e), w3)
                     | (Inr hash, w3) \<Rightarrow> (Inr (accountID, identityID, hash), w3))))"

definition createAccountAndToken ::
    "'w uc_env \<Rightarrow> 'w DomainAuthComponent \<Rightarrow> AuthProvider \<Rightarrow> string \<Rightarrow> string \<Rightarrow> string \<Rightarrow> 'w \<Rightarrow>
     (string \<times> RefreshToken \<times> string) result \<times> 'w" where
  "createAccountAndToken ev c provider subject password installID w =
     (case dc_unitOfWork c of
        None \<Rightarrow> (Inl (NewError ''user center transaction is not configured''), w)
      | Some tx \<Rightarrow>
          (case accountInputs ev password w of
             (Inl e, w1) \<Rightarrow> (Inl e, w1)
           | (Inr (accountID, identityID, passwordHash), w1) \<Rightarrow>
               (case dc_now c w1 of (now, w2) \<Rightarrow>
                (case newToken ev c accountID installID w2 of
                   (Inl e, w3) \<Rightarrow> (Inl e, w3)
                 | (Inr (token, rawToken), w3) \<Rightarrow>
                     (case tx (storeAccount c
                              \<lparr>acc_ID = accountID, acc_Identities = [], acc_PlayerIDs = [], acc_CreatedAt = now, acc_UpdatedAt = now\<rparr>
                              \<lparr>idn_ID = identityID, idn_AccountID = accountID, idn_Provider = provider, idn_Subject = subject,
                               idn_PasswordHash = passwordHash, idn_LinkedAt = now\<rparr> token) w3 of
                        (Some e, w4) \<Rightarrow> (Inl e, w4)
                      | (None, w4) \<Rightarrow> (Inr (accountID, token, rawToken), w4))))))"

section \<open>Message identifiers\<close>

definition GUEST_AUTHENTICATE_RESPONSE :: uint32 where "GUEST_AUTHENTICATE_RESPONSE = 1101"
definition REFRESH_AUTHENTICATE_RESPONSE :: uint32 where "REFRESH_AUTHENTICATE_RESPONSE = 1102"
definition REVOKE_REFRESH_TOKEN_RESPONSE :: uint32 where "REVOKE_REFRESH_TOKEN_RESPONSE = 1103"
definition PASSWORD_AUTHENTICATE_RESPONSE :: uint32 where "PASSWORD_AUTHENTICATE_RESPONSE = 1104"
definition LINK_PLAYER_RESPONSE :: uint32 where "LINK_PLAYER_RESPONSE = 1105"
definition CLIENT_LOGIN_AUTHENTICATE_RESPONSE :: uint32 where "CLIENT_LOGIN_AUTHENTICATE_RESPONSE = 1106"
definition CLIENT_REFRESH_AUTHENTICATE_RESPONSE :: uint32 where "CLIENT_REFRESH_AUTHENTICATE_RESPONSE = 1107"

lemmas uc_message_ids = GUEST_AUTHENTICATE_RESPONSE_def REFRESH_AUTHENTICATE_RESPONSE_def REVOKE_REFRESH_TOKEN_RESPONSE_def
  PASSWORD_AUTHENTICATE_RESPONSE_def LINK_PLAYER_RESPONSE_def CLIENT_LOGIN_AUTHENTICATE_RESPONSE_def
  CLIENT_REFRESH_AUTHENTICATE_RESPONSE_def

section \<open>Login\<close>

definition guestResult :: "string \<Rightarrow> RefreshToken \<Rightarrow> string \<Rightarrow> bool \<Rightarrow> MessageResult" where
  "guestResult accountID token rawToken created = \<lparr>mr_MessageID = GUEST_AUTHENTICATE_RESPONSE,
     mr_Message = Some (MGuestAuthenticateResponse \<lparr>gp_AccountId = accountID, gp_RefreshToken = rawToken,
       gp_RefreshTokenExpireAtUnix = Unix (rt_ExpiresAt token), gp_Created = created\<rparr>)\<rparr>"

definition guestAuthenticateCore ::
    "'w uc_env \<Rightarrow> 'w DomainAuthComponent \<Rightarrow> GuestAuthenticateRequest \<Rightarrow> 'w \<Rightarrow> MessageResult result \<times> 'w" where
  "guestAuthenticateCore ev c request w =
     (let installID = TrimSpace (gq_InstallId request);
          issue = (\<lambda>identity w. case issueToken ev c (idn_AccountID identity) installID w of
             (Inl e, w') \<Rightarrow> (Inl e, w')
           | (Inr (token, rawToken), w') \<Rightarrow> (Inr (guestResult (idn_AccountID identity) token rawToken False), w'))
      in case inr_Find (dc_identities c) AuthProviderGuest installID w of
           (Inr identity, w1) \<Rightarrow> issue identity w1
         | (Inl e, w1) \<Rightarrow>
             if errors_is e ErrIdentityNotFound then
               (case createAccountAndToken ev c AuthProviderGuest installID '''' installID w1 of
                  (Inr (accountID, token, rawToken), w2) \<Rightarrow> (Inr (guestResult accountID token rawToken True), w2)
                | (Inl createErr, w2) \<Rightarrow>
                    (case inr_Find (dc_identities c) AuthProviderGuest installID w2 of
                       (Inl _, w3) \<Rightarrow> (Inl (Wrapf ''create guest account: '' createErr), w3)
                     | (Inr identity, w3) \<Rightarrow> issue identity w3))
             else (Inl (Wrapf ''find guest identity: '' e), w1))"

definition passwordResult :: "string \<Rightarrow> RefreshToken \<Rightarrow> string \<Rightarrow> MessageResult" where
  "passwordResult accountID token rawToken = \<lparr>mr_MessageID = PASSWORD_AUTHENTICATE_RESPONSE,
     mr_Message = Some (MPasswordAuthenticateResponse \<lparr>tg_AccountId = accountID, tg_RefreshToken = rawToken,
       tg_RefreshTokenExpireAtUnix = Unix (rt_ExpiresAt token)\<rparr>)\<rparr>"

definition invalidCredentials :: "string \<Rightarrow> string \<Rightarrow> string \<Rightarrow> bool" where
  "invalidCredentials username password installID \<longleftrightarrow> username = '''' \<or> password = '''' \<or> installID = ''''
     \<or> length username < 3 \<or> length username > 64 \<or> length password < 6 \<or> length password > 128"

definition passwordMatches :: "'w uc_env \<Rightarrow> Identity \<Rightarrow> string \<Rightarrow> bool" where
  "passwordMatches ev identity password \<longleftrightarrow>
     \<not> (idn_PasswordHash identity = '''' \<or> \<not> ev_checkPassword ev (idn_PasswordHash identity) password)"

definition passwordAuthenticateCore ::
    "'w uc_env \<Rightarrow> 'w DomainAuthComponent \<Rightarrow> PasswordAuthenticateRequest \<Rightarrow> 'w \<Rightarrow> MessageResult result \<times> 'w" where
  "passwordAuthenticateCore ev c request w =
     (let username = TrimSpace (wq_Username request); installID = TrimSpace (wq_InstallId request);
          password = wq_Password request;
          issue = (\<lambda>identity w.
            if \<not> passwordMatches ev identity password then (Inl (NewError ''invalid username or password''), w)
            else (case issueToken ev c (idn_AccountID identity) installID w of
               (Inl e, w') \<Rightarrow> (Inl e, w')
             | (Inr (token, rawToken), w') \<Rightarrow> (Inr (passwordResult (idn_AccountID identity) token rawToken), w')))
      in if invalidCredentials username password installID then (Inl (NewError ''invalid username or password''), w)
         else (case inr_Find (dc_identities c) AuthProviderPassword username w of
           (Inr identity, w1) \<Rightarrow> issue identity w1
         | (Inl e, w1) \<Rightarrow>
             if errors_is e ErrIdentityNotFound then
               (case createAccountAndToken ev c AuthProviderPassword username password installID w1 of
                  (Inr (accountID, token, rawToken), w2) \<Rightarrow> (Inr (passwordResult accountID token rawToken), w2)
                | (Inl createErr, w2) \<Rightarrow>
                    (case inr_Find (dc_identities c) AuthProviderPassword username w2 of
                       (Inl _, w3) \<Rightarrow> (Inl (Wrapf ''create password account: '' createErr), w3)
                     | (Inr identity, w3) \<Rightarrow> issue identity w3))
             else (Inl (Wrapf ''find password identity: '' e), w1)))"

section \<open>Refresh and revocation\<close>

definition refreshResult :: "string \<Rightarrow> RefreshToken \<Rightarrow> string \<Rightarrow> MessageResult" where
  "refreshResult accountID token rawToken = \<lparr>mr_MessageID = REFRESH_AUTHENTICATE_RESPONSE,
     mr_Message = Some (MRefreshAuthenticateResponse \<lparr>tg_AccountId = accountID, tg_RefreshToken = rawToken,
       tg_RefreshTokenExpireAtUnix = Unix (rt_ExpiresAt token)\<rparr>)\<rparr>"

definition refreshAuthenticateCore ::
    "'w uc_env \<Rightarrow> 'w DomainAuthComponent \<Rightarrow> RefreshAuthenticateRequest \<Rightarrow> 'w \<Rightarrow> MessageResult result \<times> 'w" where
  "refreshAuthenticateCore ev c request w =
     (case dc_now c w of (now, w0) \<Rightarrow>
      (case rtr_FindValid (dc_refreshTokens c) (authHashToken ev (fq_RefreshToken request)) now w0 of
         (Inl e, w1) \<Rightarrow> (Inl (Wrapf ''find refresh token: '' e), w1)
       | (Inr oldToken, w1) \<Rightarrow>
           if \<not> IsUsable oldToken now (TrimSpace (fq_InstallId request)) then (Inl (Sentinel ErrInvalidToken), w1)
           else (case newToken ev c (rt_AccountID oldToken) (fq_InstallId request) w1 of
              (Inl e, w2) \<Rightarrow> (Inl e, w2)
            | (Inr (replacement, rawToken), w2) \<Rightarrow>
                (case rtr_Rotate (dc_refreshTokens c) (rt_ID oldToken) now replacement w2 of
                   (Some e, w3) \<Rightarrow> (Inl (Wrapf ''rotate refresh token: '' e), w3)
                 | (None, w3) \<Rightarrow> (Inr (refreshResult (rt_AccountID oldToken) replacement rawToken), w3)))))"

definition revokeRefreshTokenCore ::
    "'w uc_env \<Rightarrow> 'w DomainAuthComponent \<Rightarrow> RevokeRefreshTokenRequest \<Rightarrow> 'w \<Rightarrow> MessageResult result \<times> 'w" where
  "revokeRefreshTokenCore ev c request w =
     (case dc_now c w of (now, w0) \<Rightarrow>
      (case rtr_FindValid (dc_refreshTokens c) (authHashToken ev (vq_RefreshToken request)) now w0 of
         (Inl _, w1) \<Rightarrow> (Inl (Sentinel ErrInvalidToken), w1)
       | (Inr token, w1) \<Rightarrow>
           if rt_AccountID token \<noteq> TrimSpace (vq_AccountId request) then (Inl (Sentinel ErrInvalidToken), w1)
           else (case dc_now c w1 of (now2, w2) \<Rightarrow>
             (case rtr_Revoke (dc_refreshTokens c) (rt_ID token) now2 w2 of
                (Some e, w3) \<Rightarrow> (Inl (Wrapf ''revoke refresh token: '' e), w3)
              | (None, w3) \<Rightarrow> (Inr \<lparr>mr_MessageID = REVOKE_REFRESH_TOKEN_RESPONSE,
                                 mr_Message = Some MRevokeRefreshTokenResponse\<rparr>, w3)))))"

section \<open>Logins of clients\<close>

definition AUTH_PROVIDER_GUEST :: int where "AUTH_PROVIDER_GUEST = 1"
definition AUTH_PROVIDER_PASSWORD :: int where "AUTH_PROVIDER_PASSWORD = 6"

definition clientLoginGrant :: "string \<Rightarrow> string \<Rightarrow> int \<Rightarrow> MessageResult" where
  "clientLoginGrant accountID refreshToken expiresAtUnix = \<lparr>mr_MessageID = CLIENT_LOGIN_AUTHENTICATE_RESPONSE,
     mr_Message = Some (MClientLoginAuthenticateResponse (Some \<lparr>tg_AccountId = accountID, tg_RefreshToken = refreshToken,
       tg_RefreshTokenExpireAtUnix = expiresAtUnix\<rparr>))\<rparr>"

definition clientRefreshGrant :: "string \<Rightarrow> string \<Rightarrow> int \<Rightarrow> MessageResult" where
  "clientRefreshGrant accountID refreshToken expiresAtUnix = \<lparr>mr_MessageID = CLIENT_REFRESH_AUTHENTICATE_RESPONSE,
     mr_Message = Some (MClientRefreshAuthenticateResponse (Some \<lparr>tg_AccountId = accountID, tg_RefreshToken = refreshToken,
       tg_RefreshTokenExpireAtUnix = expiresAtUnix\<rparr>))\<rparr>"

text \<open>The type assertions on the results of the cores cannot fail: each core makes its own message type.\<close>

definition clientLoginAuthenticateCore ::
    "'w uc_env \<Rightarrow> 'w DomainAuthComponent \<Rightarrow> LoginRequest \<Rightarrow> 'w \<Rightarrow> MessageResult result \<times> 'w" where
  "clientLoginAuthenticateCore ev c login w =
     (if li_Provider login = AUTH_PROVIDER_GUEST then
        (case guestAuthenticateCore ev c \<lparr>gq_InstallId = li_InstallId login, gq_ClientPlatform = '''', gq_ClientVersion = '''',
                gq_IdempotencyKey = li_IdempotencyKey login\<rparr> w of
           (Inl e, w1) \<Rightarrow> (Inl e, w1)
         | (Inr r, w1) \<Rightarrow> (case mr_Message r of
              Some (MGuestAuthenticateResponse m) \<Rightarrow>
                (Inr (clientLoginGrant (gp_AccountId m) (gp_RefreshToken m) (gp_RefreshTokenExpireAtUnix m)), w1)
            | _ \<Rightarrow> (Inl (NewError ''interface conversion''), w1)))
      else if li_Provider login = AUTH_PROVIDER_PASSWORD then
        (case passwordAuthenticateCore ev c \<lparr>wq_Username = li_Username login, wq_Password = li_Password login,
                wq_InstallId = li_InstallId login, wq_IdempotencyKey = li_IdempotencyKey login\<rparr> w of
           (Inl e, w1) \<Rightarrow> (Inl e, w1)
         | (Inr r, w1) \<Rightarrow> (case mr_Message r of
              Some (MPasswordAuthenticateResponse m) \<Rightarrow>
                (Inr (clientLoginGrant (tg_AccountId m) (tg_RefreshToken m) (tg_RefreshTokenExpireAtUnix m)), w1)
            | _ \<Rightarrow> (Inl (NewError ''interface conversion''), w1)))
      else (Inl (NewError ''authentication provider is not enabled''), w))"

definition clientRefreshAuthenticateCore ::
    "'w uc_env \<Rightarrow> 'w DomainAuthComponent \<Rightarrow> RefreshAuthenticateRequest \<Rightarrow> 'w \<Rightarrow> MessageResult result \<times> 'w" where
  "clientRefreshAuthenticateCore ev c refresh w =
     (case refreshAuthenticateCore ev c refresh w of
        (Inl e, w1) \<Rightarrow> (Inl e, w1)
      | (Inr r, w1) \<Rightarrow> (case mr_Message r of
           Some (MRefreshAuthenticateResponse m) \<Rightarrow>
             (Inr (clientRefreshGrant (tg_AccountId m) (tg_RefreshToken m) (tg_RefreshTokenExpireAtUnix m)), w1)
         | _ \<Rightarrow> (Inl (NewError ''interface conversion''), w1)))"

section \<open>Linking players\<close>

definition linkPlayer :: "'w uc_env \<Rightarrow> 'w DomainAuthComponent \<Rightarrow> 'w MessageHandler" where
  "linkPlayer ev c envelope w =
     (case pb_LinkPlayerRequest (ev_codec ev) (en_Payload envelope) of
        Inl e \<Rightarrow> (Inl e, w)
      | Inr request \<Rightarrow>
          if TrimSpace (lq_AccountId request) = '''' \<or> TrimSpace (lq_PlayerId request) = ''''
          then (Inl (NewError ''account_id and player_id are required''), w)
          else (case dc_now c w of (now, w1) \<Rightarrow>
            (case acr_LinkPlayer (dc_accounts c) (lq_AccountId request) (lq_PlayerId request) now w1 of
               (Some e, w2) \<Rightarrow> (Inl e, w2)
             | (None, w2) \<Rightarrow> (Inr (Some \<lparr>mr_MessageID = LINK_PLAYER_RESPONSE,
                 mr_Message = Some (MLinkPlayerResponse \<lparr>lp_AccountId = lq_AccountId request,
                   lp_PlayerId = lq_PlayerId request\<rparr>)\<rparr>), w2))))"

end
