(* ===== verification/UC_Accounts.thy ===== *)
theory UC_Accounts
  imports UC_Auth
begin

text \<open>
  The user center against the contract of its repositories: what each request does to accounts, identities and
  tokens, that a refresh token can be used once, and that a guest keeps its account, however
  requests interleave.
\<close>

section \<open>The world\<close>

text \<open>
  The clock, identifiers, random bytes, hashes and timers leave the database alone; \<open>ttl now\<close> is the database's own
  removal of tokens and records that are expired at \<open>now\<close>.
\<close>

locale auth_store = account_store tx abs invar AC IR RT + idempotency_store abs invar IC
  for tx :: "'w action \<Rightarrow> 'w action" and abs :: "'w \<Rightarrow> uc_view" and invar :: "'w \<Rightarrow> bool"
    and AC :: "'w AccountRepository" and IR :: "'w IdentityRepository" and RT :: "'w RefreshTokenRepository"
    and IC :: "'w IdempotencyCoordinator" +
  fixes ev :: "'w uc_env" and clock :: "'w \<Rightarrow> gotime \<times> 'w" and ttl :: "gotime \<Rightarrow> 'w \<Rightarrow> 'w"
  assumes uuid_keeps: "invar w \<Longrightarrow> ev_uuid ev w = (u, w') \<Longrightarrow> invar w' \<and> abs w' = abs w"
    and rand_keeps: "invar w \<Longrightarrow> ev_rand ev w = (b, w') \<Longrightarrow> invar w' \<and> abs w' = abs w"
    and hash_keeps: "invar w \<Longrightarrow> ev_hashPassword ev p w = (u, w') \<Longrightarrow> invar w' \<and> abs w' = abs w"
    and clock_keeps: "invar w \<Longrightarrow> clock w = (now, w') \<Longrightarrow> invar w' \<and> abs w' = abs w"
    and ticks_keeps: "invar w \<Longrightarrow> ev_ticks ev w = (ts, w') \<Longrightarrow> invar w' \<and> abs w' = abs w"
    and pause_keeps: "invar w \<Longrightarrow> ev_pause ev w = (e, w') \<Longrightarrow> invar w' \<and> abs w' = abs w"
    and ttl_expires: "invar w \<Longrightarrow> invar (ttl now w) \<and> (\<exists>T R. abs (ttl now w) = (abs w)\<lparr>uv_tokens := T, uv_records := R\<rparr>
      \<and> T \<subseteq>\<^sub>m uv_tokens (abs w) \<and> R \<subseteq>\<^sub>m uv_records (abs w)
      \<and> (\<forall>k x. uv_records (abs w) k = Some x \<longrightarrow> R k = None \<longrightarrow> \<not> bsonTime now < ir_ExpiresAt x))"

section \<open>Effects\<close>

text \<open>A new account with its first identity and token.\<close>

definition registers :: "Account \<Rightarrow> Identity \<Rightarrow> RefreshToken \<Rightarrow> uc_view \<Rightarrow> uc_view \<Rightarrow> bool" where
  "registers a x t v v' \<longleftrightarrow> Account_Validate (Some a) = None \<and> Identity_Validate x = None
     \<and> uv_accounts v (acc_ID a) = None \<and> uv_identities v (idn_Provider x, idn_Subject x) = None \<and> unused t v
     \<and> v' = v\<lparr>uv_accounts := (uv_accounts v)(acc_ID a \<mapsto> storedAccount a),
             uv_identities := (uv_identities v)((idn_Provider x, idn_Subject x) \<mapsto> storedIdentity x),
             uv_tokens := (uv_tokens v)(rt_ID t \<mapsto> storedToken t)\<rparr>"

text \<open>A token for an account and an installation, of which the client gets the unhashed form.\<close>

definition token_for :: "'w uc_env \<Rightarrow> duration \<Rightarrow> string \<Rightarrow> string \<Rightarrow> RefreshToken \<Rightarrow> string \<Rightarrow> bool" where
  "token_for ev TTL accountID installID t raw \<longleftrightarrow> rt_AccountID t = accountID \<and> rt_TokenHash t = authHashToken ev raw
     \<and> rt_InstallID t = TrimSpace installID \<and> rt_RevokedAt t = None \<and> rt_ExpiresAt t = rt_CreatedAt t + TTL"

definition adds_token :: "RefreshToken \<Rightarrow> uc_view \<Rightarrow> uc_view \<Rightarrow> bool" where
  "adds_token t v v' \<longleftrightarrow> unused t v \<and> v' = v\<lparr>uv_tokens := (uv_tokens v)(rt_ID t \<mapsto> storedToken t)\<rparr>"

section \<open>Interleaved requests\<close>

text \<open>
  Restrictions on what the steps of a run may do: the tokens they make, the times they pass to operations
  on records, and the reservations in whose name they act.
\<close>

record limits =
  lm_token :: "RefreshToken \<Rightarrow> bool"
  lm_time :: "gotime \<Rightarrow> bool"
  lm_holder :: "string \<Rightarrow> bool"

definition anything :: limits where
  "anything = \<lparr>lm_token = (\<lambda>_. True), lm_time = (\<lambda>_. True), lm_holder = (\<lambda>_. True)\<rparr>"

text \<open>The operations on idempotency records.\<close>

inductive record_step :: "limits \<Rightarrow> 'w IdempotencyCoordinator \<Rightarrow> 'w \<Rightarrow> 'w \<Rightarrow> bool"
  for L :: limits and K :: "'w IdempotencyCoordinator" where
  r_find: "ipr_Find K k now w = (r, w') \<Longrightarrow> record_step L K w w'"
| r_create: "ipr_Create K x w = (e, w') \<Longrightarrow> record_step L K w w'"
| r_reserve: "ir_State x = IdempotencyStatePending \<Longrightarrow> lm_time L now \<Longrightarrow> ipc_Reserve K x now w = (res, w') \<Longrightarrow> record_step L K w w'"
| r_complete: "lm_holder L rid \<Longrightarrow> ipc_Complete K k rid bs now w = (e, w') \<Longrightarrow> record_step L K w w'"
| r_release: "lm_holder L rid \<Longrightarrow> ipc_Release K k rid w = (e, w') \<Longrightarrow> record_step L K w w'"
| r_renew: "lm_holder L rid \<Longrightarrow> ipc_Renew K k rid lease now w = (e, w') \<Longrightarrow> record_step L K w w'"
| r_recover: "lm_time L now \<Longrightarrow> ipc_RecoverExpired K now w = (n, w') \<Longrightarrow> record_step L K w w'"

text \<open>What requests do to the world, one atomic step each.\<close>

inductive uc_step ::
    "'w uc_env \<Rightarrow> (gotime \<Rightarrow> 'w \<Rightarrow> 'w) \<Rightarrow> limits \<Rightarrow> 'w DomainAuthComponent \<Rightarrow> 'w \<Rightarrow> 'w \<Rightarrow> bool"
  for ev :: "'w uc_env" and ttl :: "gotime \<Rightarrow> 'w \<Rightarrow> 'w" and L :: limits and c :: "'w DomainAuthComponent" where
  u_register: "dc_unitOfWork c = Some tx \<Longrightarrow> lm_token L t \<Longrightarrow> idn_AccountID x = acc_ID a \<Longrightarrow>
    tx (storeAccount c a x t) w = (e, w') \<Longrightarrow> uc_step ev ttl L c w w'"
| u_token: "lm_token L t \<Longrightarrow> rtr_Create (dc_refreshTokens c) t w = (e, w') \<Longrightarrow> uc_step ev ttl L c w w'"
| u_rotate: "lm_token L t \<Longrightarrow> rtr_Rotate (dc_refreshTokens c) i now t w = (e, w') \<Longrightarrow> uc_step ev ttl L c w w'"
| u_revoke: "rtr_Revoke (dc_refreshTokens c) i now w = (e, w') \<Longrightarrow> uc_step ev ttl L c w w'"
| u_link: "acr_LinkPlayer (dc_accounts c) i p now w = (e, w') \<Longrightarrow> uc_step ev ttl L c w w'"
| u_find_identity: "inr_Find (dc_identities c) pv sb w = (ri, w') \<Longrightarrow> uc_step ev ttl L c w w'"
| u_find_token: "rtr_FindValid (dc_refreshTokens c) h now w = (rt, w') \<Longrightarrow> uc_step ev ttl L c w w'"
| u_uuid: "ev_uuid ev w = (u, w') \<Longrightarrow> uc_step ev ttl L c w w'"
| u_rand: "ev_rand ev w = (b, w') \<Longrightarrow> uc_step ev ttl L c w w'"
| u_hash: "ev_hashPassword ev p w = (u, w') \<Longrightarrow> uc_step ev ttl L c w w'"
| u_clock: "dc_now c w = (now, w') \<Longrightarrow> uc_step ev ttl L c w w'"
| u_ticks: "ev_ticks ev w = (ts, w') \<Longrightarrow> uc_step ev ttl L c w w'"
| u_pause: "ev_pause ev w = (pe, w') \<Longrightarrow> uc_step ev ttl L c w w'"
| u_record: "dc_coordinator c = Some K \<Longrightarrow> record_step L K w w' \<Longrightarrow> uc_step ev ttl L c w w'"
| u_ttl: "lm_time L now \<Longrightarrow> uc_step ev ttl L c w (ttl now w)"

abbreviation uc_run where
  "uc_run ev ttl L c \<equiv> (uc_step ev ttl L c)\<^sup>*\<^sup>*"

lemma auth_component_fields [simp]:
  "dc_accounts (NewDomainAuthComponent n AC IR RT U T I K) = AC" "dc_identities (NewDomainAuthComponent n AC IR RT U T I K) = IR"
  "dc_refreshTokens (NewDomainAuthComponent n AC IR RT U T I K) = RT" "dc_unitOfWork (NewDomainAuthComponent n AC IR RT U T I K) = U"
  "dc_now (NewDomainAuthComponent n AC IR RT U T I K) = n" "dc_refreshTokenTTL (NewDomainAuthComponent n AC IR RT U T I K) = T"
  "dc_idempotency (NewDomainAuthComponent n AC IR RT U T I K) = I"
  "dc_coordinator (NewDomainAuthComponent n AC IR RT U T I K) = (if I = None then None else K)"
  by (simp_all add: NewDomainAuthComponent_def)

lemma ttl_component_fields [simp]:
  "dc_accounts (WithIdempotencyTTL c T) = dc_accounts c" "dc_identities (WithIdempotencyTTL c T) = dc_identities c"
  "dc_refreshTokens (WithIdempotencyTTL c T) = dc_refreshTokens c" "dc_unitOfWork (WithIdempotencyTTL c T) = dc_unitOfWork c"
  "dc_now (WithIdempotencyTTL c T) = dc_now c" "dc_refreshTokenTTL (WithIdempotencyTTL c T) = dc_refreshTokenTTL c"
  "dc_idempotency (WithIdempotencyTTL c T) = dc_idempotency c" "dc_coordinator (WithIdempotencyTTL c T) = dc_coordinator c"
  by (simp_all add: WithIdempotencyTTL_def)

context auth_store
begin

text \<open>The component as \<^verbatim>\<open>module.go\<close> builds it.\<close>

abbreviation comp :: "duration \<Rightarrow> duration \<Rightarrow> 'w DomainAuthComponent" where
  "comp TTL IT \<equiv> WithIdempotencyTTL
     (NewDomainAuthComponent clock AC IR RT (Some tx) TTL (Some (IdempotencyRepository.truncate IC)) (Some IC)) IT"

lemma newToken_ok:
  assumes "invar w" "newToken ev (comp TTL IT) acc inst w = (r, w')"
  shows "invar w'" "abs w' = abs w" "r = Inr (t, raw) \<Longrightarrow> token_for ev TTL acc inst t raw"
proof -
  obtain u w1 where 1: "ev_uuid ev w = (u, w1)" by fastforce
  obtain b w2 where 2: "ev_rand ev w1 = (b, w2)" by fastforce
  obtain n w3 where 3: "clock w2 = (n, w3)" by fastforce
  note k1 = uuid_keeps [OF assms(1) 1]
  note k2 = rand_keeps [OF conjunct1 [OF k1] 2]
  note k3 = clock_keeps [OF conjunct1 [OF k2] 3]
  show "invar w'" "abs w' = abs w" "r = Inr (t, raw) \<Longrightarrow> token_for ev TTL acc inst t raw"
    using assms 1 2 3 k1 k2 k3
    by (auto simp: newToken_def Let_def token_for_def split: if_splits sum.splits)
qed

lemma issueToken_ok:
  assumes w: "invar w" and c: "issueToken ev (comp TTL IT) acc inst w = (r, w')"
  shows "invar w'" "case r of Inl _ \<Rightarrow> abs w' = abs w
    | Inr (t, raw) \<Rightarrow> token_for ev TTL acc inst t raw \<and> adds_token t (abs w) (abs w')"
proof -
  obtain r1 w1 where 1: "newToken ev (comp TTL IT) acc inst w = (r1, w1)" by fastforce
  note N = newToken_ok [OF w 1]
  have "invar w' \<and> (case r of Inl _ \<Rightarrow> abs w' = abs w
    | Inr (t, raw) \<Rightarrow> token_for ev TTL acc inst t raw \<and> adds_token t (abs w) (abs w'))"
  proof (cases r1)
    case (Inl e)
    then show ?thesis using c 1 N(1,2) by (auto simp: issueToken_def)
  next
    case (Inr p)
    obtain t raw where p: "p = (t, raw)" by (cases p)
    obtain e w2 where 2: "rtr_Create RT t w1 = (e, w2)" by fastforce
    show ?thesis using c 1 2 Inr p N(1,2) N(3) [of t raw] token_create [OF N(1) 2]
      by (auto simp: issueToken_def adds_token_def split: option.splits)
  qed
  then show "invar w'" "case r of Inl _ \<Rightarrow> abs w' = abs w
    | Inr (t, raw) \<Rightarrow> token_for ev TTL acc inst t raw \<and> adds_token t (abs w) (abs w')" by blast+
qed

lemma storeAccount_ok:
  assumes w: "invar w" and c: "storeAccount (comp TTL IT) a x t w = (None, w')"
  shows "invar w' \<and> registers a x t (abs w) (abs w')"
proof -
  obtain e1 w1 where 1: "acr_Create AC a w = (e1, w1)" by fastforce
  obtain e2 w2 where 2: "inr_Create IR x w1 = (e2, w2)" by fastforce
  obtain e3 w3 where 3: "rtr_Create RT t w2 = (e3, w3)" by fastforce
  note l1 = account_create [OF w 1]
  note l2 = identity_create [OF conjunct1 [OF l1] 2]
  note l3 = token_create [OF conjunct1 [OF l2] 3]
  have "e1 = None" "e2 = None" "e3 = None" "w' = w3"
    using c 1 2 3 by (auto simp: storeAccount_def split: option.splits)
  then show ?thesis using l1 l2 l3 by (simp add: registers_def unused_def)
qed

lemma register_tx:
  assumes w: "invar w" and c: "tx (storeAccount (comp TTL IT) a x t) w = (e, w')"
  shows "invar w' \<and> (e = None \<and> registers a x t (abs w) (abs w')
      \<or> (\<exists>er. e = Some er \<and> (abs w' = abs w \<or> foreign er \<and> registers a x t (abs w) (abs w'))))"
proof (rule tx_effect [OF w c])
  fix w1 w2
  assume "invar w1" "abs w1 = abs w" "storeAccount (comp TTL IT) a x t w1 = (None, w2)"
  then show "invar w2 \<and> registers a x t (abs w) (abs w2)" using storeAccount_ok [of w1 TTL IT a x t w2] by simp
qed

lemma create_ok:
  assumes w: "invar w" and c: "createAccountAndToken ev (comp TTL IT) pv sb pw inst w = (r, w')"
  shows "invar w'" "case r of
      Inr (acc, t, raw) \<Rightarrow> token_for ev TTL acc inst t raw \<and> (\<exists>a x. registers a x t (abs w) (abs w')
        \<and> acc_ID a = acc \<and> idn_AccountID x = acc \<and> idn_Provider x = pv \<and> idn_Subject x = sb)
    | Inl _ \<Rightarrow> abs w' = abs w \<or> (\<exists>a x t raw. registers a x t (abs w) (abs w') \<and> token_for ev TTL (acc_ID a) inst t raw
        \<and> idn_AccountID x = acc_ID a \<and> idn_Provider x = pv \<and> idn_Subject x = sb)" (is "?out r w'")
proof -
  obtain r1 w1 where 1: "accountInputs ev pw w = (r1, w1)" by fastforce
  have k1: "invar w1 \<and> abs w1 = abs w"
  proof -
    obtain u2 v2 where u2: "ev_uuid ev w = (u2, v2)" by fastforce
    obtain u3 v3 where u3: "ev_uuid ev v2 = (u3, v3)" by fastforce
    obtain u4 v4 where u4: "ev_hashPassword ev pw v3 = (u4, v4)" by fastforce
    note s2 = uuid_keeps [OF w u2]
    note s3 = uuid_keeps [OF conjunct1 [OF s2] u3]
    note s4 = hash_keeps [OF conjunct1 [OF s3] u4]
    show ?thesis using 1 u2 u3 u4 s2 s3 s4 by (auto simp: accountInputs_def split: sum.splits if_splits)
  qed
  have "invar w' \<and> ?out r w'"
  proof (cases r1)
    case (Inl e)
    then show ?thesis using c 1 k1 by (auto simp: createAccountAndToken_def)
  next
    case (Inr p)
    obtain acc i h where p: "p = (acc, i, h)" by (cases p)
    obtain n w2 where 2: "clock w1 = (n, w2)" by fastforce
    have k2: "invar w2" "abs w2 = abs w" using clock_keeps [OF _ 2] k1 by simp_all
    obtain r3 w3 where 3: "newToken ev (comp TTL IT) acc inst w2 = (r3, w3)" by fastforce
    note k3 = newToken_ok [OF k2(1) 3]
    show ?thesis
    proof (cases r3)
      case (Inl e)
      then show ?thesis using c 1 Inr p 2 3 k2 k3(1,2) by (auto simp: createAccountAndToken_def)
    next
      case R3: (Inr q)
      obtain t raw where q: "q = (t, raw)" by (cases q)
      let ?a = "\<lparr>acc_ID = acc, acc_Identities = [], acc_PlayerIDs = [], acc_CreatedAt = n, acc_UpdatedAt = n\<rparr>"
      let ?x = "\<lparr>idn_ID = i, idn_AccountID = acc, idn_Provider = pv, idn_Subject = sb, idn_PasswordHash = h, idn_LinkedAt = n\<rparr>"
      obtain e w4 where 4: "tx (storeAccount (comp TTL IT) ?a ?x t) w3 = (e, w4)" by fastforce
      have tok: "token_for ev TTL acc inst t raw" using k3(3) R3 q by simp
      have out: "r = (case e of Some e \<Rightarrow> Inl e | None \<Rightarrow> Inr (acc, t, raw))" "w' = w4"
        using c 1 Inr p 2 3 R3 q 4 by (auto simp: createAccountAndToken_def split: option.splits)
      have reg: "\<exists>a x. registers a x t (abs w) (abs w') \<and> acc_ID a = acc \<and> idn_AccountID x = acc \<and> idn_Provider x = pv \<and> idn_Subject x = sb"
        if "registers ?a ?x t (abs w3) (abs w4)"
        using that out(2) k2 k3(1,2) by (intro exI [of _ ?a] exI [of _ ?x]) simp
      note T = register_tx [OF k3(1) 4]
      show ?thesis
      proof (cases e)
        case None
        then show ?thesis using T reg tok out by auto
      next
        case (Some er)
        have "abs w4 = abs w3 \<or> registers ?a ?x t (abs w3) (abs w4)" using T Some by auto
        then show ?thesis
        proof
          assume "abs w4 = abs w3"
          then show ?thesis using T out Some k2 k3(2) by simp
        next
          assume "registers ?a ?x t (abs w3) (abs w4)"
          then obtain a x where "registers a x t (abs w) (abs w')" "acc_ID a = acc" "idn_AccountID x = acc"
            "idn_Provider x = pv" "idn_Subject x = sb" using reg by blast
          then show ?thesis using T out Some tok by auto
        qed
      qed
    qed
  qed
  then show "invar w'" "?out r w'" by blast+
qed

end

section \<open>The abstract machine\<close>

text \<open>A record that no step within the limits may touch.\<close>

definition protected :: "limits \<Rightarrow> IdempotencyRecord \<Rightarrow> bool" where
  "protected L x \<longleftrightarrow> (\<forall>now. lm_time L now \<longrightarrow> \<not> lapsed now x) \<and> (\<forall>rid. lm_holder L rid \<longrightarrow> \<not> pending_by rid x)"

definition keeps_protected :: "limits \<Rightarrow> (string \<rightharpoonup> IdempotencyRecord) \<Rightarrow> (string \<rightharpoonup> IdempotencyRecord) \<Rightarrow> bool" where
  "keeps_protected L R R' \<longleftrightarrow> (\<forall>k x. R k = Some x \<longrightarrow> protected L x \<longrightarrow> R' k = Some x)"

inductive view_step :: "limits \<Rightarrow> uc_view \<Rightarrow> uc_view \<Rightarrow> bool" for L :: limits where
  v_same: "view_step L v v"
| v_register: "registers a x t v v' \<Longrightarrow> lm_token L t \<Longrightarrow> idn_AccountID x = acc_ID a \<Longrightarrow> view_step L v v'"
| v_token: "adds_token t v v' \<Longrightarrow> lm_token L t \<Longrightarrow> view_step L v v'"
| v_rotate: "rotates i now t v v' \<Longrightarrow> lm_token L t \<Longrightarrow> view_step L v v'"
| v_revoke: "uv_tokens v i = Some t \<Longrightarrow>
    view_step L v (v\<lparr>uv_tokens := (uv_tokens v)(i \<mapsto> t\<lparr>rt_RevokedAt := Some now\<rparr>)\<rparr>)"
| v_link: "uv_accounts v i = Some a \<Longrightarrow> p \<noteq> '''' \<Longrightarrow> view_step L v (v\<lparr>uv_accounts := (uv_accounts v)(i \<mapsto>
    a\<lparr>acc_PlayerIDs := (if p \<in> set (acc_PlayerIDs a) then acc_PlayerIDs a else acc_PlayerIDs a @ [p]), acc_UpdatedAt := now\<rparr>)\<rparr>)"
| v_records: "keeps_protected L (uv_records v) R \<Longrightarrow> view_step L v (v\<lparr>uv_records := R\<rparr>)"
| v_ttl: "T \<subseteq>\<^sub>m uv_tokens v \<Longrightarrow> keeps_protected L (uv_records v) R \<Longrightarrow> view_step L v (v\<lparr>uv_tokens := T, uv_records := R\<rparr>)"

text \<open>Every token with the hash has been revoked, so that it cannot be presented again.\<close>

definition spent :: "string \<Rightarrow> uc_view \<Rightarrow> bool" where
  "spent h v \<longleftrightarrow> (\<forall>i t. uv_tokens v i = Some t \<longrightarrow> rt_TokenHash t = h \<longrightarrow> rt_RevokedAt t \<noteq> None)"

lemma spent_step:
  assumes "view_step L v v'" "spent h v" "\<And>t. lm_token L t \<Longrightarrow> rt_TokenHash t \<noteq> h"
  shows "spent h v'"
  using assms
proof (induction rule: view_step.induct)
  case (v_ttl T v R)
  have "uv_tokens v i = Some t" if "T i = Some t" for i t
    using v_ttl(1) that by (metis domI map_le_def)
  then show ?case using v_ttl(3) by (simp add: spent_def) blast
next
  case (v_rotate i now t v v')
  then have "rt_TokenHash t \<noteq> h" by blast
  then show ?case using v_rotate(1,3) by (auto simp: spent_def rotates_def rotated_def split: if_splits)
qed (auto simp: spent_def registers_def adds_token_def rotates_def rotated_def split: if_splits)

lemma identity_step: "view_step L v v' \<Longrightarrow> uv_identities v k = Some x \<Longrightarrow> uv_identities v' k = Some x"
  by (induction rule: view_step.induct) (auto simp: registers_def adds_token_def rotates_def rotated_def split: if_splits)

lemma record_kept_step: "view_step L v v' \<Longrightarrow> uv_records v k = Some x \<Longrightarrow> protected L x \<Longrightarrow> uv_records v' k = Some x"
  by (induction rule: view_step.induct)
    (simp_all add: registers_def adds_token_def rotates_def rotated_def keeps_protected_def split: if_splits, auto)

text \<open>Accounts, identities and tokens are under their keys, valid, and an identity belongs to an account.\<close>

definition uc_wf :: "uc_view \<Rightarrow> bool" where
  "uc_wf v \<longleftrightarrow> (\<forall>i a. uv_accounts v i = Some a \<longrightarrow> acc_ID a = i \<and> Account_Validate (Some a) = None)
     \<and> (\<forall>p s x. uv_identities v (p, s) = Some x \<longrightarrow> idn_Provider x = p \<and> idn_Subject x = s \<and> Identity_Validate x = None
          \<and> uv_accounts v (idn_AccountID x) \<noteq> None)
     \<and> (\<forall>i t. uv_tokens v i = Some t \<longrightarrow> rt_ID t = i)"

lemma uc_wfI:
  assumes "\<And>i a. uv_accounts v i = Some a \<Longrightarrow> acc_ID a = i \<and> Account_Validate (Some a) = None"
    and "\<And>p s x. uv_identities v (p, s) = Some x \<Longrightarrow> idn_Provider x = p \<and> idn_Subject x = s \<and> Identity_Validate x = None
          \<and> uv_accounts v (idn_AccountID x) \<noteq> None"
    and "\<And>i t. uv_tokens v i = Some t \<Longrightarrow> rt_ID t = i"
  shows "uc_wf v"
  unfolding uc_wf_def using assms by blast

lemma uc_wfD:
  assumes "uc_wf v"
  shows "uv_accounts v i = Some a \<Longrightarrow> acc_ID a = i \<and> Account_Validate (Some a) = None"
    "uv_identities v (p, s) = Some x \<Longrightarrow> idn_Provider x = p \<and> idn_Subject x = s \<and> Identity_Validate x = None
       \<and> uv_accounts v (idn_AccountID x) \<noteq> None"
    "uv_tokens v j = Some t \<Longrightarrow> rt_ID t = j"
  using assms unfolding uc_wf_def by blast+

lemma stored_valid:
  "Account_Validate (Some a) = None \<Longrightarrow> Account_Validate (Some (storedAccount a)) = None"
  "Identity_Validate (storedIdentity x) = Identity_Validate x"
  by (simp_all add: Account_Validate_iff storedAccount_def Identity_Validate_def)

lemma wf_tokens:
  assumes "uc_wf v" "\<And>i t. T i = Some t \<Longrightarrow> rt_ID t = i"
  shows "uc_wf (v\<lparr>uv_tokens := T\<rparr>)"
  by (rule uc_wfI) (use uc_wfD [OF assms(1)] assms(2) in \<open>simp_all\<close>)

lemma wf_accounts:
  assumes "uc_wf v" "acc_ID a = i" "Account_Validate (Some a) = None"
  shows "uc_wf (v\<lparr>uv_accounts := (uv_accounts v)(i \<mapsto> a)\<rparr>)"
  by (rule uc_wfI) (use uc_wfD [OF assms(1)] assms(2,3) in \<open>auto split: if_splits\<close>)

lemma wf_identities:
  assumes "uc_wf v" "Identity_Validate x = None" "uv_accounts v (idn_AccountID x) \<noteq> None" "k = (idn_Provider x, idn_Subject x)"
  shows "uc_wf (v\<lparr>uv_identities := (uv_identities v)(k \<mapsto> x)\<rparr>)"
  by (rule uc_wfI) (use uc_wfD [OF assms(1)] assms(2-4) in \<open>auto split: if_splits\<close>)

lemma wf_records: "uc_wf (v\<lparr>uv_records := R\<rparr>) = uc_wf v"
  by (simp add: uc_wf_def)

lemma wf_step: "view_step L v v' \<Longrightarrow> uc_wf v \<Longrightarrow> uc_wf v'"
proof (induction rule: view_step.induct)
  case (v_register a x t v v')
  note R = v_register(1) [unfolded registers_def]
  let ?v1 = "v\<lparr>uv_accounts := (uv_accounts v)(acc_ID a \<mapsto> storedAccount a)\<rparr>"
  let ?v2 = "?v1\<lparr>uv_identities := (uv_identities ?v1)((idn_Provider x, idn_Subject x) \<mapsto> storedIdentity x)\<rparr>"
  have 1: "uc_wf ?v1" by (rule wf_accounts [OF v_register(4)]) (use R stored_valid(1) in \<open>simp_all add: storedAccount_def\<close>)
  have 2: "uc_wf ?v2" by (rule wf_identities [OF 1]) (use R stored_valid(2) v_register(3) in simp_all)
  have "v' = ?v2\<lparr>uv_tokens := (uv_tokens ?v2)(rt_ID t \<mapsto> storedToken t)\<rparr>" using R by simp
  moreover have "uc_wf (?v2\<lparr>uv_tokens := (uv_tokens ?v2)(rt_ID t \<mapsto> storedToken t)\<rparr>)"
    by (rule wf_tokens [OF 2]) (use uc_wfD(3) [OF 2] in \<open>auto split: if_splits\<close>)
  ultimately show ?case by simp
next
  case (v_token t v v')
  have "uc_wf (v\<lparr>uv_tokens := (uv_tokens v)(rt_ID t \<mapsto> storedToken t)\<rparr>)"
    by (rule wf_tokens [OF v_token(3)]) (use uc_wfD(3) [OF v_token(3)] in \<open>auto split: if_splits\<close>)
  then show ?case using v_token(1) by (simp add: adds_token_def)
next
  case (v_rotate i now t v v')
  then obtain old where old: "uv_tokens v i = Some old" "v' = rotated i now old t v" by (auto simp: rotates_def)
  have "uc_wf (rotated i now old t v)" unfolding rotated_def
    by (rule wf_tokens [OF v_rotate(3)]) (use uc_wfD(3) [OF v_rotate(3)] old(1) in \<open>auto split: if_splits\<close>)
  then show ?case using old(2) by simp
next
  case (v_revoke v i t now)
  show ?case
    by (rule wf_tokens [OF v_revoke(2)]) (use uc_wfD(3) [OF v_revoke(2)] v_revoke(1) in \<open>auto split: if_splits\<close>)
next
  case (v_link v i a p now)
  show ?case
    by (rule wf_accounts [OF v_link(3)])
      (use uc_wfD(1) [OF v_link(3) v_link(1)] v_link(2) in \<open>auto simp: Account_Validate_iff\<close>)
next
  case (v_ttl T v R)
  have "uc_wf (v\<lparr>uv_tokens := T\<rparr>)"
  proof (rule wf_tokens [OF v_ttl(3)])
    fix i t
    assume "T i = Some t"
    then have "uv_tokens v i = Some t" using v_ttl(1) by (metis domI map_le_def)
    then show "rt_ID t = i" by (rule uc_wfD(3) [OF v_ttl(3)])
  qed
  then show ?case using wf_records [of R "v\<lparr>uv_tokens := T\<rparr>"] by simp
qed (simp_all add: wf_records)

lemma wf_run:
  assumes "(view_step L)\<^sup>*\<^sup>* v v'" "uc_wf v"
  shows "uc_wf v'"
  using assms by (induction rule: rtranclp_induct) (auto intro: wf_step)

lemma spent_run:
  assumes "(view_step L)\<^sup>*\<^sup>* v v'" "spent h v" "\<And>t. lm_token L t \<Longrightarrow> rt_TokenHash t \<noteq> h"
  shows "spent h v'"
  using assms(1,2) by (induction rule: rtranclp_induct) (auto intro: spent_step [OF _ _ assms(3)])

lemma identity_run:
  assumes "(view_step L)\<^sup>*\<^sup>* v v'" "uv_identities v k = Some x"
  shows "uv_identities v' k = Some x"
  using assms by (induction rule: rtranclp_induct) (auto intro: identity_step)

lemma record_kept_run:
  assumes "(view_step L)\<^sup>*\<^sup>* v v'" "uv_records v k = Some x" "protected L x"
  shows "uv_records v' k = Some x"
  using assms(1,2) by (induction rule: rtranclp_induct) (auto intro: record_kept_step [OF _ _ assms(3)])

lemma sub_keeps_protected:
  assumes "R' \<subseteq>\<^sub>m R" "\<And>k x. R k = Some x \<Longrightarrow> R' k = None \<Longrightarrow> \<not> protected L x"
  shows "keeps_protected L R R'"
  unfolding keeps_protected_def
proof (intro allI impI)
  fix k x
  assume x: "R k = Some x" "protected L x"
  then obtain y where y: "R' k = Some y" using assms(2) by (cases "R' k") auto
  then have "R k = Some y" using assms(1) by (metis domI map_le_def)
  then show "R' k = Some x" using x y by simp
qed

context auth_store
begin

text \<open>An operation on records leaves the rest alone, and the records it may not touch.\<close>

lemma record_step_frame:
  assumes "record_step L IC w w'" and w: "invar w"
  shows "invar w' \<and> (\<exists>R. abs w' = (abs w)\<lparr>uv_records := R\<rparr> \<and> keeps_protected L (uv_records (abs w)) R)"
proof -
  let ?kept = "\<lambda>v v'. \<exists>R. v' = v\<lparr>uv_records := R\<rparr> \<and> keeps_protected L (uv_records v) R"
  have same: "?kept v v" for v by (rule exI [of _ "uv_records v"]) (simp add: keeps_protected_def)
  have put: "?kept v (put_record k y v)" if "\<And>x. uv_records v k = Some x \<Longrightarrow> \<not> protected L x" for v k y
    using that by (intro exI [of _ "(uv_records v)(k := y)"]) (auto simp: keeps_protected_def)
  have late: "\<not> protected L x" if "lm_time L now" "lapsed now x" for now x using that by (auto simp: protected_def)
  have mine: "\<not> protected L x" if "lm_holder L rid" "pending_by rid x" for rid x using that by (auto simp: protected_def)
  show ?thesis using assms(1)
  proof cases
    case (r_find k now r)
    then show ?thesis using record_find [OF w r_find] same by simp
  next
    case (r_create x e)
    then show ?thesis using record_create [OF w r_create] same put [of "abs w" "ir_Key x"] by (cases e) auto
  next
    case (r_reserve x now res)
    have vac: "vacant (ir_Key x) now (abs w) \<Longrightarrow> uv_records (abs w) (ir_Key x) = Some y \<Longrightarrow> \<not> protected L y" for y
      using late [OF r_reserve(2)] by (simp add: vacant_def)
    show ?thesis using record_reserve [OF w r_reserve(3,1)] same [of "abs w"] put [of "abs w" "ir_Key x"] vac
      by (auto simp: reserves_def split: prod.splits if_splits)
  next
    case (r_complete rid k bs now e)
    then show ?thesis using record_complete [OF w r_complete(2)] same [of "abs w"] put [of "abs w" k] mine [OF r_complete(1)]
      by (cases e) auto
  next
    case (r_release rid k e)
    then show ?thesis using record_release [OF w r_release(2)] same [of "abs w"] put [of "abs w" k] mine [OF r_release(1)] by auto
  next
    case (r_renew rid k lease now e)
    then show ?thesis using record_renew [OF w r_renew(2)] same [of "abs w"] put [of "abs w" k] mine [OF r_renew(1)]
      by (cases e) auto
  next
    case (r_recover now n)
    obtain R where R: "invar w'" "abs w' = (abs w)\<lparr>uv_records := R\<rparr>" "R \<subseteq>\<^sub>m uv_records (abs w)"
      "\<forall>k x. uv_records (abs w) k = Some x \<longrightarrow> R k = None \<longrightarrow> ir_State x = IdempotencyStatePending \<and> lapsed now x"
      using record_recover [OF w r_recover(2)] by blast
    have "keeps_protected L (uv_records (abs w)) R" by (rule sub_keeps_protected [OF R(3)]) (use R(4) late [OF r_recover(1)] in blast)
    then show ?thesis using R(1,2) by blast
  qed
qed

text \<open>The component refines the machine.\<close>

lemma step_refines:
  assumes "uc_step ev ttl L (comp TTL IT) w w'" and w: "invar w"
  shows "invar w' \<and> view_step L (abs w) (abs w')"
  using assms(1)
proof cases
  case (u_register tx' t x a e)
  then have c: "tx (storeAccount (comp TTL IT) a x t) w = (e, w')" by simp
  have "invar w' \<and> (abs w' = abs w \<or> registers a x t (abs w) (abs w'))" using register_tx [OF w c] by blast
  then show ?thesis using u_register(2,3) v_same v_register by metis
next
  case (u_token t e)
  then have "rtr_Create RT t w = (e, w')" by simp
  from token_create [OF w this] have "invar w' \<and> (abs w' = abs w \<or> adds_token t (abs w) (abs w'))"
    by (auto simp: adds_token_def split: option.splits)
  then show ?thesis using u_token(1) v_same v_token by metis
next
  case (u_rotate t i now e)
  then have "rtr_Rotate RT i now t w = (e, w')" by simp
  from token_rotate [OF w this] have "invar w' \<and> (abs w' = abs w \<or> rotates i now t (abs w) (abs w'))"
    by (auto split: option.splits)
  then show ?thesis using u_rotate(1) v_same v_rotate by metis
next
  case (u_revoke i now e)
  then have "rtr_Revoke RT i now w = (e, w')" by simp
  from token_revoke [OF w this] show ?thesis by (auto split: option.splits intro: v_same v_revoke)
next
  case (u_link i p now e)
  then have "acr_LinkPlayer AC i p now w = (e, w')" by simp
  note A = account_link [OF w this]
  show ?thesis
  proof (cases e)
    case None
    then obtain a where a: "uv_accounts (abs w) i = Some a" "p \<noteq> ''''" "abs w' = (abs w)\<lparr>uv_accounts := (uv_accounts (abs w))(i \<mapsto>
        a\<lparr>acc_PlayerIDs := (if p \<in> set (acc_PlayerIDs a) then acc_PlayerIDs a else acc_PlayerIDs a @ [p]), acc_UpdatedAt := bsonTime now\<rparr>)\<rparr>"
      using A by auto
    show ?thesis unfolding a(3) using A v_link [OF a(1,2)] by simp
  next
    case (Some er)
    then show ?thesis using A v_same by simp
  qed
next
  case (u_find_identity pv sb ri)
  then have "inr_Find IR pv sb w = (ri, w')" by simp
  from identity_find [OF w this] show ?thesis by (auto intro: v_same)
next
  case (u_find_token h now rt)
  then have "rtr_FindValid RT h now w = (rt, w')" by simp
  from token_find [OF w this] show ?thesis by (auto intro: v_same)
next
  case (u_uuid u)
  then show ?thesis using uuid_keeps [OF w] by (auto intro: v_same)
next
  case (u_rand b)
  then show ?thesis using rand_keeps [OF w] by (auto intro: v_same)
next
  case (u_hash p u)
  then show ?thesis using hash_keeps [OF w] by (auto intro: v_same)
next
  case (u_clock now)
  then have "clock w = (now, w')" by simp
  from clock_keeps [OF w this] show ?thesis by (auto intro: v_same)
next
  case (u_record K)
  then have "record_step L IC w w'" by simp
  from record_step_frame [OF this w] show ?thesis using v_records by metis
next
  case (u_ticks ts)
  then show ?thesis using ticks_keeps [OF w] by (auto intro: v_same)
next
  case (u_pause pe)
  then show ?thesis using pause_keeps [OF w] by (auto intro: v_same)
next
  case (u_ttl now)
  obtain T R where R: "invar (ttl now w)" "abs (ttl now w) = (abs w)\<lparr>uv_tokens := T, uv_records := R\<rparr>" "T \<subseteq>\<^sub>m uv_tokens (abs w)"
    "R \<subseteq>\<^sub>m uv_records (abs w)" "\<forall>k x. uv_records (abs w) k = Some x \<longrightarrow> R k = None \<longrightarrow> \<not> bsonTime now < ir_ExpiresAt x"
    using ttl_expires [OF w, of now] by blast
  have "keeps_protected L (uv_records (abs w)) R"
    by (rule sub_keeps_protected [OF R(4)]) (use R(5) u_ttl(2) in \<open>auto simp: protected_def lapsed_def\<close>)
  from v_ttl [OF R(3) this] show ?thesis using u_ttl(1) R(1,2) by simp
qed

lemma run_refines:
  assumes "uc_run ev ttl L (comp TTL IT) w w'" "invar w"
  shows "invar w' \<and> (view_step L)\<^sup>*\<^sup>* (abs w) (abs w')"
  using assms
proof (induction rule: rtranclp_induct)
  case (step y z)
  then have "invar z \<and> view_step L (abs y) (abs z)" using step_refines [OF step(2)] by blast
  then show ?case using step by (meson rtranclp.rtrancl_into_rtrancl)
qed simp

section \<open>Refresh\<close>

lemma refresh_ok:
  assumes w: "invar w" and c: "refreshAuthenticateCore ev (comp TTL IT) q w = (r, w')"
  shows "invar w'" and "case r of
      Inl _ \<Rightarrow> abs w' = abs w \<or> (\<exists>old now t raw. rt_TokenHash old = authHashToken ev (fq_RefreshToken q)
        \<and> uv_tokens (abs w) (rt_ID old) = Some old \<and> rotates (rt_ID old) now t (abs w) (abs w')
        \<and> token_for ev TTL (rt_AccountID old) (fq_InstallId q) t raw)
    | Inr m \<Rightarrow> \<exists>old now t raw. rt_TokenHash old = authHashToken ev (fq_RefreshToken q)
        \<and> uv_tokens (abs w) (rt_ID old) = Some old \<and> IsUsable old now (TrimSpace (fq_InstallId q))
        \<and> rotates (rt_ID old) now t (abs w) (abs w') \<and> token_for ev TTL (rt_AccountID old) (fq_InstallId q) t raw
        \<and> m = refreshResult (rt_AccountID old) t raw" (is "?out r w'")
proof -
  let ?h = "authHashToken ev (fq_RefreshToken q)"
  obtain n w0 where 0: "clock w = (n, w0)" by fastforce
  note k0 = clock_keeps [OF w 0]
  obtain r1 w1 where 1: "rtr_FindValid RT ?h n w0 = (r1, w1)" by fastforce
  note k1 = token_find [OF conjunct1 [OF k0] 1]
  have "invar w' \<and> ?out r w'"
  proof (cases r1)
    case (Inl e)
    then show ?thesis using c 0 1 k0 k1 by (auto simp: refreshAuthenticateCore_def)
  next
    case (Inr old)
    have old: "uv_tokens (abs w) (rt_ID old) = Some old" "rt_TokenHash old = ?h" using k0 k1 Inr by simp_all
    show ?thesis
    proof (cases "IsUsable old n (TrimSpace (fq_InstallId q))")
      case False
      then show ?thesis using c 0 1 Inr k0 k1 by (auto simp: refreshAuthenticateCore_def)
    next
      case use: True
      obtain r2 w2 where 2: "newToken ev (comp TTL IT) (rt_AccountID old) (fq_InstallId q) w1 = (r2, w2)" by fastforce
      have i1: "invar w1" "abs w1 = abs w" using k0 k1 by simp_all
      note k2 = newToken_ok [OF i1(1) 2]
      show ?thesis
      proof (cases r2)
        case (Inl e)
        then show ?thesis using c 0 1 Inr use 2 k2(1,2) i1 by (auto simp: refreshAuthenticateCore_def)
      next
        case R2: (Inr p)
        obtain t raw where p: "p = (t, raw)" by (cases p)
        obtain e w3 where 3: "rtr_Rotate RT (rt_ID old) n t w2 = (e, w3)" by fastforce
        note k3 = token_rotate [OF k2(1) 3]
        have tok: "token_for ev TTL (rt_AccountID old) (fq_InstallId q) t raw" using k2(3) R2 p by simp
        have out: "r = (case e of Some e \<Rightarrow> Inl (Wrapf ''rotate refresh token: '' e)
            | None \<Rightarrow> Inr (refreshResult (rt_AccountID old) t raw))" "w' = w3"
          using c 0 1 Inr use 2 R2 p 3 by (auto simp: refreshAuthenticateCore_def split: option.splits)
        show ?thesis
        proof (cases e)
          case None
          then show ?thesis using k3 out tok old use k2(2) i1(2) by auto
        next
          case (Some er)
          then show ?thesis using k3 out tok old k2(2) i1(2) by auto
        qed
      qed
    qed
  qed
  then show "invar w'" "?out r w'" by blast+
qed

lemma rotates_spent:
  assumes w: "invar w" and old: "uv_tokens (abs w) (rt_ID old) = Some old" "rotates (rt_ID old) now t (abs w) v'"
  shows "spent (rt_TokenHash old) v'"
proof -
  have un: "unused t (abs w)" and v': "v' = rotated (rt_ID old) now old t (abs w)" using old by (auto simp: rotates_def)
  have "rt_TokenHash t \<noteq> rt_TokenHash old" using un old(1) by (auto simp: unused_def ran_def)
  moreover have "i = rt_ID old" if "uv_tokens (abs w) i = Some s" "rt_TokenHash s = rt_TokenHash old" for i s
    using token_hash_unique [OF w that(1) old(1) that(2)] .
  ultimately show ?thesis by (auto simp: spent_def v' rotated_def split: if_splits)
qed

lemma refresh_refused:
  assumes w: "invar w" and s: "spent (authHashToken ev (fq_RefreshToken q)) (abs w)"
    and c: "refreshAuthenticateCore ev (comp TTL IT) q w = (r, w')"
  shows "isl r \<and> abs w' = abs w"
proof -
  have no: "\<not> rotates (rt_ID old) now t (abs w) (abs w')"
    if "rt_TokenHash old = authHashToken ev (fq_RefreshToken q)" "uv_tokens (abs w) (rt_ID old) = Some old" for old now t
  proof -
    have "rt_RevokedAt old \<noteq> None" using s that unfolding spent_def by blast
    then show ?thesis using that(2) by (auto simp: rotates_def live_def)
  qed
  show ?thesis using refresh_ok(2) [OF w c] no by (cases r) auto
qed

lemma revoke_ok:
  assumes w: "invar w" and c: "revokeRefreshTokenCore ev (comp TTL IT) q w = (r, w')"
  shows "invar w'" "case r of Inl _ \<Rightarrow> abs w' = abs w
    | Inr _ \<Rightarrow> \<exists>t now. uv_tokens (abs w) (rt_ID t) = Some t \<and> rt_TokenHash t = authHashToken ev (vq_RefreshToken q)
        \<and> rt_AccountID t = TrimSpace (vq_AccountId q) \<and> rt_RevokedAt t = None
        \<and> abs w' = (abs w)\<lparr>uv_tokens := (uv_tokens (abs w))(rt_ID t \<mapsto> t\<lparr>rt_RevokedAt := Some now\<rparr>)\<rparr>" (is "?out r w'")
proof -
  obtain n w0 where 0: "clock w = (n, w0)" by fastforce
  note k0 = clock_keeps [OF w 0]
  obtain r1 w1 where 1: "rtr_FindValid RT (authHashToken ev (vq_RefreshToken q)) n w0 = (r1, w1)" by fastforce
  note k1 = token_find [OF conjunct1 [OF k0] 1]
  obtain n2 w2 where 2: "clock w1 = (n2, w2)" by fastforce
  note k2 = clock_keeps [OF conjunct1 [OF k1] 2]
  have "invar w' \<and> ?out r w'"
  proof (cases r1)
    case (Inl e)
    then show ?thesis using c 0 1 k0 k1 by (auto simp: revokeRefreshTokenCore_def)
  next
    case (Inr t)
    obtain e w3 where 3: "rtr_Revoke RT (rt_ID t) n2 w2 = (e, w3)" by fastforce
    note k3 = token_revoke [OF conjunct1 [OF k2] 3]
    show ?thesis
    proof (cases "rt_AccountID t = TrimSpace (vq_AccountId q)")
      case True
      then have out: "isl r \<longleftrightarrow> e \<noteq> None" "w' = w3"
        using c 0 1 2 3 Inr by (auto simp: revokeRefreshTokenCore_def split: option.splits)
      then show ?thesis using True k0 k1 k2 k3 Inr by (cases r; cases e) auto
    next
      case False
      then show ?thesis using c 0 1 Inr k0 k1 by (auto simp: revokeRefreshTokenCore_def)
    qed
  qed
  then show "invar w'" "?out r w'" by blast+
qed

lemma revoked_spent:
  assumes w: "invar w" and t: "uv_tokens (abs w) (rt_ID t) = Some t"
  shows "spent (rt_TokenHash t) ((abs w)\<lparr>uv_tokens := (uv_tokens (abs w))(rt_ID t \<mapsto> t\<lparr>rt_RevokedAt := Some now\<rparr>)\<rparr>)"
  using token_hash_unique [OF w _ t] by (auto simp: spent_def split: if_splits)

section \<open>Logins\<close>

lemma guest_ok:
  assumes w: "invar w" and c: "guestAuthenticateCore ev (comp TTL IT) q w = (Inr m, w')"
  shows "invar w'" "\<exists>acc t raw b x. m = guestResult acc t raw b \<and> token_for ev TTL acc (TrimSpace (gq_InstallId q)) t raw
    \<and> uv_identities (abs w') (AuthProviderGuest, TrimSpace (gq_InstallId q)) = Some x \<and> idn_AccountID x = acc
    \<and> uv_tokens (abs w') (rt_ID t) = Some (storedToken t)" (is "?out m w'")
proof -
  let ?i = "TrimSpace (gq_InstallId q)"
  have issue: "invar w' \<and> ?out m w'"
    if i: "invar wi" "uv_identities (abs wi) (AuthProviderGuest, ?i) = Some x"
      "issueToken ev (comp TTL IT) (idn_AccountID x) ?i wi = (Inr (t, raw), w')"
      "m = guestResult (idn_AccountID x) t raw False" for wi x t raw
    using issueToken_ok [OF i(1,3)] i(2,4) by (auto simp: adds_token_def)
  obtain r1 w1 where 1: "inr_Find IR AuthProviderGuest ?i w = (r1, w1)" by fastforce
  note F = identity_find [OF w 1]
  have "invar w' \<and> ?out m w'"
  proof (cases r1)
    case (Inr x)
    obtain t raw where "issueToken ev (comp TTL IT) (idn_AccountID x) ?i w1 = (Inr (t, raw), w')"
      "m = guestResult (idn_AccountID x) t raw False"
      using c 1 Inr by (auto simp: guestAuthenticateCore_def Let_def split: sum.splits prod.splits)
    then show ?thesis using issue [of w1 x t raw] F Inr by simp
  next
    case (Inl e)
    then have nf: "errors_is e ErrIdentityNotFound"
      using c 1 by (auto simp: guestAuthenticateCore_def Let_def split: if_splits)
    obtain r2 w2 where 2: "createAccountAndToken ev (comp TTL IT) AuthProviderGuest ?i '''' ?i w1 = (r2, w2)" by fastforce
    note C = create_ok [OF conjunct1 [OF F] 2]
    show ?thesis
    proof (cases r2)
      case R2: (Inr p)
      obtain acc t raw where p: "p = (acc, t, raw)" by (cases p)
      have "m = guestResult acc t raw True" "w' = w2"
        using c 1 Inl nf 2 R2 p by (simp_all add: guestAuthenticateCore_def Let_def)
      moreover have "\<exists>x. uv_identities (abs w2) (AuthProviderGuest, ?i) = Some x \<and> idn_AccountID x = acc"
        "uv_tokens (abs w2) (rt_ID t) = Some (storedToken t)" "token_for ev TTL acc ?i t raw"
        using C(2) R2 p by (auto simp: registers_def)
      ultimately show ?thesis using C(1) by blast
    next
      case R2: (Inl ce)
      obtain r3 w3 where 3: "inr_Find IR AuthProviderGuest ?i w2 = (r3, w3)" by fastforce
      note F3 = identity_find [OF C(1) 3]
      obtain x where x: "r3 = Inr x" using c 1 Inl nf 2 R2 3 by (cases r3) (auto simp: guestAuthenticateCore_def Let_def)
      obtain t raw where "issueToken ev (comp TTL IT) (idn_AccountID x) ?i w3 = (Inr (t, raw), w')"
        "m = guestResult (idn_AccountID x) t raw False"
        using c 1 Inl nf 2 R2 3 x by (auto simp: guestAuthenticateCore_def Let_def split: sum.splits prod.splits)
      then show ?thesis using issue [of w3 x t raw] F3 x by simp
    qed
  qed
  then show "invar w'" "?out m w'" by blast+
qed

lemma password_ok:
  assumes w: "invar w" and c: "passwordAuthenticateCore ev (comp TTL IT) q w = (Inr m, w')"
  shows "invar w'" "\<exists>acc t raw x. m = passwordResult acc t raw
    \<and> token_for ev TTL acc (TrimSpace (wq_InstallId q)) t raw
    \<and> uv_identities (abs w') (AuthProviderPassword, TrimSpace (wq_Username q)) = Some x \<and> idn_AccountID x = acc
    \<and> uv_tokens (abs w') (rt_ID t) = Some (storedToken t)
    \<and> (uv_identities (abs w) (AuthProviderPassword, TrimSpace (wq_Username q)) \<noteq> None \<longrightarrow>
         uv_identities (abs w) (AuthProviderPassword, TrimSpace (wq_Username q)) = Some x \<and> passwordMatches ev x (wq_Password q))"
    (is "?out m w'")
proof -
  let ?u = "TrimSpace (wq_Username q)" and ?i = "TrimSpace (wq_InstallId q)" and ?k = "(AuthProviderPassword, TrimSpace (wq_Username q))"
  have valid: "\<not> invalidCredentials ?u (wq_Password q) ?i"
    using c by (auto simp: passwordAuthenticateCore_def Let_def)
  have issue: "invar w' \<and> ?out m w'"
    if i: "invar wi" "uv_identities (abs wi) ?k = Some x" "issueToken ev (comp TTL IT) (idn_AccountID x) ?i wi = (Inr (t, raw), w')"
      "m = passwordResult (idn_AccountID x) t raw" "passwordMatches ev x (wq_Password q)"
      "uv_identities (abs w) ?k \<noteq> None \<longrightarrow> uv_identities (abs w) ?k = Some x" for wi x t raw
    using issueToken_ok [OF i(1,3)] i(2,4-6) by (auto simp: adds_token_def)
  obtain r1 w1 where 1: "inr_Find IR AuthProviderPassword ?u w = (r1, w1)" by fastforce
  note F = identity_find [OF w 1]
  have "invar w' \<and> ?out m w'"
  proof (cases r1)
    case (Inr x)
    have ok: "passwordMatches ev x (wq_Password q)"
      using c 1 Inr valid by (auto simp: passwordAuthenticateCore_def Let_def split: if_splits)
    obtain t raw where "issueToken ev (comp TTL IT) (idn_AccountID x) ?i w1 = (Inr (t, raw), w')"
      "m = passwordResult (idn_AccountID x) t raw"
      using c 1 Inr valid ok by (auto simp: passwordAuthenticateCore_def Let_def split: sum.splits prod.splits)
    then show ?thesis using issue [of w1 x t raw] F Inr ok by simp
  next
    case (Inl e)
    then have nf: "errors_is e ErrIdentityNotFound"
      using c 1 valid by (auto simp: passwordAuthenticateCore_def Let_def split: if_splits)
    then have none: "uv_identities (abs w) ?k = None" using F Inl by simp
    obtain r2 w2 where 2: "createAccountAndToken ev (comp TTL IT) AuthProviderPassword ?u (wq_Password q) ?i w1 = (r2, w2)" by fastforce
    note C = create_ok [OF conjunct1 [OF F] 2]
    show ?thesis
    proof (cases r2)
      case R2: (Inr p)
      obtain acc t raw where p: "p = (acc, t, raw)" by (cases p)
      have "m = passwordResult acc t raw" "w' = w2"
        using c 1 Inl nf 2 R2 p valid by (simp_all add: passwordAuthenticateCore_def Let_def)
      moreover have "\<exists>x. uv_identities (abs w2) ?k = Some x \<and> idn_AccountID x = acc"
        "uv_tokens (abs w2) (rt_ID t) = Some (storedToken t)" "token_for ev TTL acc ?i t raw"
        using C(2) R2 p by (auto simp: registers_def)
      ultimately show ?thesis using C(1) none by blast
    next
      case R2: (Inl ce)
      obtain r3 w3 where 3: "inr_Find IR AuthProviderPassword ?u w2 = (r3, w3)" by fastforce
      note F3 = identity_find [OF C(1) 3]
      obtain x where x: "r3 = Inr x"
        using c 1 Inl nf 2 R2 3 valid by (cases r3) (auto simp: passwordAuthenticateCore_def Let_def)
      have ok: "passwordMatches ev x (wq_Password q)"
        using c 1 Inl nf 2 R2 3 x valid by (auto simp: passwordAuthenticateCore_def Let_def split: if_splits)
      obtain t raw where "issueToken ev (comp TTL IT) (idn_AccountID x) ?i w3 = (Inr (t, raw), w')"
        "m = passwordResult (idn_AccountID x) t raw"
        using c 1 Inl nf 2 R2 3 x valid ok by (auto simp: passwordAuthenticateCore_def Let_def split: sum.splits prod.splits)
      then show ?thesis using issue [of w3 x t raw] F3 x ok none by simp
    qed
  qed
  then show "invar w'" "?out m w'" by blast+
qed

end

end
