(* ===== verification/UC_Mongo.thy ===== *)
theory UC_Mongo
  imports UC_Accounts
begin

text \<open>
  The user center's repositories over a document database
  (\<^verbatim>\<open>src/services/usercenter/repository/mongo\<close>): accounts, identities and tokens, the database and, with a driver
  that behaves as documented and the unique indexes of \<^verbatim>\<open>indexes.go\<close> in force, the laws of the contract
  \<open>account_store\<close>.  A nil collection or unit of work is \<open>None\<close>; a time in a filter or an update is sent with
  millisecond precision.  The idempotency records and the interpretation are in \<open>UC_Records\<close>.
\<close>

section \<open>Operations\<close>

definition uc_ensureIndexes :: "('d, 'w) Collection option \<Rightarrow> 'w action" where
  "uc_ensureIndexes C w =
     (case C of None \<Rightarrow> (Some (Sentinel ErrCollectionRequired), w) | Some c \<Rightarrow> cl_CreateMany c w)"

subsection \<open>Accounts\<close>

definition AccountRepository_Create :: "(accountDocument, 'w) Collection option \<Rightarrow> Account option \<Rightarrow> 'w action" where
  "AccountRepository_Create C account w =
     (case C of None \<Rightarrow> (Some (Sentinel ErrCollectionRequired), w) | Some c \<Rightarrow>
      (case accountDocumentFromDomain account of
         Inl e \<Rightarrow> (Some e, w)
       | Inr document \<Rightarrow>
           (case cl_InsertOne c document w of
              (Some e, w1) \<Rightarrow> (Some (Wrapf (if IsDuplicateKeyError e then ''create account: duplicate key: ''
                                              else ''create account: '') e), w1)
            | (None, w1) \<Rightarrow> (None, w1))))"

definition AccountRepository_FindByID ::
    "(accountDocument, 'w) Collection option \<Rightarrow> string \<Rightarrow> 'w \<Rightarrow> Account result \<times> 'w" where
  "AccountRepository_FindByID C accountID w =
     (case C of None \<Rightarrow> (Inl (Sentinel ErrCollectionRequired), w) | Some c \<Rightarrow>
      if accountID = '''' then (Inl (Sentinel ErrInvalidAccount), w)
      else (case cl_FindOne c (\<lambda>d. acd_AccountID d = accountID) None w of
              (Inl e, w1) \<Rightarrow> (if errors_is e ErrNoDocuments then (Inl (Sentinel ErrAccountNotFound), w1)
                               else (Inl (Wrapf ''find account: '' e), w1))
            | (Inr document, w1) \<Rightarrow> (accountDomainFromDocument document [], w1)))"

text \<open>\<^verbatim>\<open>$addToSet\<close> is refused on a field that is not an array.\<close>

definition addToSet :: "string \<Rightarrow> bson_strings \<Rightarrow> bson_strings option" where
  "addToSet p b = (case b of Missing \<Rightarrow> Some (Strs [p]) | Null \<Rightarrow> None
     | Strs ps \<Rightarrow> Some (Strs (if p \<in> set ps then ps else ps @ [p])))"

definition linkUpdate :: "string \<Rightarrow> gotime \<Rightarrow> accountDocument \<Rightarrow> accountDocument option" where
  "linkUpdate p now d = map_option (\<lambda>b. d\<lparr>acd_PlayerIDs := b, acd_UpdatedAt := now\<rparr>) (addToSet p (acd_PlayerIDs d))"

definition AccountRepository_LinkPlayer ::
    "(accountDocument, 'w) Collection option \<Rightarrow> string \<Rightarrow> string \<Rightarrow> gotime \<Rightarrow> 'w action" where
  "AccountRepository_LinkPlayer C accountID playerID now w =
     (case C of None \<Rightarrow> (Some (Sentinel ErrCollectionRequired), w) | Some c \<Rightarrow>
      if accountID = '''' \<or> playerID = '''' then (Some (Sentinel ErrInvalidAccount), w)
      else (case cl_UpdateOne c (\<lambda>d. acd_AccountID d = accountID \<and> (acd_PlayerIDs d = Missing \<or> acd_PlayerIDs d = Null))
                   (\<lambda>d. Some (d\<lparr>acd_PlayerIDs := Strs []\<rparr>)) w of
              (Inl e, w1) \<Rightarrow> (Some (Wrapf ''normalize player links: '' e), w1)
            | (Inr _, w1) \<Rightarrow>
                (case cl_UpdateOne c (\<lambda>d. acd_AccountID d = accountID) (linkUpdate playerID now) w1 of
                   (Inl e, w2) \<Rightarrow> (Some (Wrapf ''link player: '' e), w2)
                 | (Inr matched, w2) \<Rightarrow> if matched = 0 then (Some (Sentinel ErrAccountNotFound), w2) else (None, w2))))"

definition NewAccountRepository :: "(accountDocument, 'w) Collection \<Rightarrow> 'w AccountRepository" where
  "NewAccountRepository C = \<lparr>acr_EnsureIndexes = uc_ensureIndexes (Some C),
     acr_Create = (\<lambda>a. AccountRepository_Create (Some C) (Some a)), acr_FindByID = AccountRepository_FindByID (Some C),
     acr_LinkPlayer = AccountRepository_LinkPlayer (Some C)\<rparr>"

subsection \<open>Identities\<close>

definition IdentityRepository_Create :: "(identityDocument, 'w) Collection option \<Rightarrow> Identity option \<Rightarrow> 'w action" where
  "IdentityRepository_Create C identity w =
     (case C of None \<Rightarrow> (Some (Sentinel ErrCollectionRequired), w) | Some c \<Rightarrow>
      (case identityDocumentFromDomain identity of
         Inl e \<Rightarrow> (Some e, w)
       | Inr document \<Rightarrow>
           (case cl_InsertOne c document w of
              (Some e, w1) \<Rightarrow> (Some (Wrapf (if IsDuplicateKeyError e then ''create identity: duplicate key: ''
                                              else ''create identity: '') e), w1)
            | (None, w1) \<Rightarrow> (None, w1))))"

definition IdentityRepository_Find ::
    "(identityDocument, 'w) Collection option \<Rightarrow> AuthProvider \<Rightarrow> string \<Rightarrow> 'w \<Rightarrow> Identity result \<times> 'w" where
  "IdentityRepository_Find C provider subject w =
     (case C of None \<Rightarrow> (Inl (Sentinel ErrCollectionRequired), w) | Some c \<Rightarrow>
      if provider = '''' \<or> subject = '''' then (Inl (Sentinel ErrInvalidIdentity), w)
      else (case cl_FindOne c (\<lambda>d. (ind_Provider d, ind_Subject d) = (provider, subject)) None w of
              (Inl e, w1) \<Rightarrow> (if errors_is e ErrNoDocuments then (Inl (Sentinel ErrIdentityNotFound), w1)
                               else (Inl (Wrapf ''find identity: '' e), w1))
            | (Inr document, w1) \<Rightarrow> (Inr (identityDomainFromDocument document), w1)))"

definition NewIdentityRepository :: "(identityDocument, 'w) Collection \<Rightarrow> 'w IdentityRepository" where
  "NewIdentityRepository C = \<lparr>inr_EnsureIndexes = uc_ensureIndexes (Some C),
     inr_Create = (\<lambda>i. IdentityRepository_Create (Some C) (Some i)), inr_Find = IdentityRepository_Find (Some C)\<rparr>"

subsection \<open>Refresh tokens\<close>

text \<open>\<open>clock\<close> is \<^verbatim>\<open>time.Now\<close>, which the mapping of tokens reads.\<close>

definition RefreshTokenRepository_Create ::
    "(refreshTokenDocument, 'w) Collection option \<Rightarrow> ('w \<Rightarrow> gotime \<times> 'w) \<Rightarrow> RefreshToken option \<Rightarrow> 'w action" where
  "RefreshTokenRepository_Create C clock token w =
     (case C of None \<Rightarrow> (Some (Sentinel ErrCollectionRequired), w) | Some c \<Rightarrow>
      (case clock w of (now, w0) \<Rightarrow>
       (case refreshTokenDocumentFromDomain now token of
          Inl e \<Rightarrow> (Some e, w0)
        | Inr document \<Rightarrow>
            (case cl_InsertOne c document w0 of
               (Some e, w1) \<Rightarrow> (Some (Wrapf (if IsDuplicateKeyError e then ''create refresh token: duplicate key: ''
                                               else ''create refresh token: '') e), w1)
             | (None, w1) \<Rightarrow> (None, w1)))))"

definition validFilter :: "gotime \<Rightarrow> refreshTokenDocument \<Rightarrow> bool" where
  "validFilter now d \<longleftrightarrow> rtd_RevokedAt d = None \<and> bsonTime now < rtd_ExpiresAt d"

definition RefreshTokenRepository_FindValid ::
    "(refreshTokenDocument, 'w) Collection option \<Rightarrow> string \<Rightarrow> gotime \<Rightarrow> 'w \<Rightarrow> RefreshToken result \<times> 'w" where
  "RefreshTokenRepository_FindValid C tokenHash now w =
     (case C of None \<Rightarrow> (Inl (Sentinel ErrCollectionRequired), w) | Some c \<Rightarrow>
      if tokenHash = '''' then (Inl (Sentinel ErrInvalidToken), w)
      else (case cl_FindOne c (\<lambda>d. rtd_TokenHash d = tokenHash \<and> validFilter now d) None w of
              (Inl e, w1) \<Rightarrow> (if errors_is e ErrNoDocuments then (Inl (Sentinel ErrInvalidToken), w1)
                               else (Inl (Wrapf ''find refresh token: '' e), w1))
            | (Inr document, w1) \<Rightarrow> (Inr (refreshTokenDomainFromDocument document), w1)))"

definition revokeUpdate :: "gotime \<Rightarrow> refreshTokenDocument \<Rightarrow> refreshTokenDocument option" where
  "revokeUpdate now d = Some (d\<lparr>rtd_RevokedAt := Some now\<rparr>)"

definition RefreshTokenRepository_Revoke ::
    "(refreshTokenDocument, 'w) Collection option \<Rightarrow> string \<Rightarrow> gotime \<Rightarrow> 'w action" where
  "RefreshTokenRepository_Revoke C tokenID now w =
     (case C of None \<Rightarrow> (Some (Sentinel ErrCollectionRequired), w) | Some c \<Rightarrow>
      (case cl_UpdateOne c (\<lambda>d. rtd_TokenID d = tokenID \<and> rtd_RevokedAt d = None) (revokeUpdate now) w of
         (Inl e, w1) \<Rightarrow> (Some (Wrapf ''revoke refresh token: '' e), w1)
       | (Inr matched, w1) \<Rightarrow> if matched = 0 then (Some (Sentinel ErrInvalidToken), w1) else (None, w1)))"

text \<open>The function that \<open>Rotate\<close> runs in one transaction.\<close>

definition rotateIn ::
    "(refreshTokenDocument, 'w) Collection \<Rightarrow> string \<Rightarrow> gotime \<Rightarrow> refreshTokenDocument \<Rightarrow> 'w action" where
  "rotateIn c tokenID now replacement w =
     (case cl_UpdateOne c (\<lambda>d. rtd_TokenID d = tokenID \<and> validFilter now d) (revokeUpdate now) w of
        (Inl e, w1) \<Rightarrow> (Some (Wrapf ''rotate refresh token revoke: '' e), w1)
      | (Inr matched, w1) \<Rightarrow>
          if matched \<noteq> 1 then (Some (Sentinel ErrInvalidToken), w1)
          else (case cl_InsertOne c replacement w1 of
                  (Some e, w2) \<Rightarrow> (Some (Wrapf ''rotate refresh token insert: '' e), w2)
                | (None, w2) \<Rightarrow> (None, w2)))"

definition RefreshTokenRepository_Rotate ::
    "(refreshTokenDocument, 'w) Collection option \<Rightarrow> ('w action \<Rightarrow> 'w action) option \<Rightarrow> ('w \<Rightarrow> gotime \<times> 'w) \<Rightarrow>
     string \<Rightarrow> gotime \<Rightarrow> RefreshToken option \<Rightarrow> 'w action" where
  "RefreshTokenRepository_Rotate C unitOfWork clock tokenID now replacement w =
     (case C of None \<Rightarrow> (Some (Sentinel ErrCollectionRequired), w) | Some c \<Rightarrow>
      (case unitOfWork of None \<Rightarrow> (Some (Sentinel ErrTransactionRequired), w) | Some tx \<Rightarrow>
       if tokenID = '''' \<or> replacement = None then (Some (Sentinel ErrInvalidToken), w)
       else (case clock w of (now', w0) \<Rightarrow>
         (case refreshTokenDocumentFromDomain now' replacement of
            Inl e \<Rightarrow> (Some e, w0)
          | Inr document \<Rightarrow> tx (rotateIn c tokenID now document) w0))))"

definition NewRefreshTokenRepository ::
    "(refreshTokenDocument, 'w) Collection \<Rightarrow> ('w action \<Rightarrow> 'w action) \<Rightarrow> ('w \<Rightarrow> gotime \<times> 'w) \<Rightarrow> 'w RefreshTokenRepository" where
  "NewRefreshTokenRepository C tx clock = \<lparr>rtr_EnsureIndexes = uc_ensureIndexes (Some C),
     rtr_Create = (\<lambda>t. RefreshTokenRepository_Create (Some C) clock (Some t)),
     rtr_FindValid = RefreshTokenRepository_FindValid (Some C), rtr_Revoke = RefreshTokenRepository_Revoke (Some C),
     rtr_Rotate = (\<lambda>i now t. RefreshTokenRepository_Rotate (Some C) (Some tx) clock i now (Some t))\<rparr>"

lemmas uc_repositories = NewAccountRepository_def NewIdentityRepository_def NewRefreshTokenRepository_def

section \<open>The database\<close>

record uc_db =
  db_accounts :: "accountDocument list"
  db_identities :: "identityDocument list"
  db_tokens :: "refreshTokenDocument list"
  db_records :: "idempotencyDocument list"

text \<open>A document as it is read back.\<close>

definition encAccount :: "accountDocument \<Rightarrow> accountDocument" where
  "encAccount d = d\<lparr>acd_CreatedAt := bsonTime (acd_CreatedAt d), acd_UpdatedAt := bsonTime (acd_UpdatedAt d)\<rparr>"

definition encIdentity :: "identityDocument \<Rightarrow> identityDocument" where
  "encIdentity d = d\<lparr>ind_LinkedAt := bsonTime (ind_LinkedAt d)\<rparr>"

definition encToken :: "refreshTokenDocument \<Rightarrow> refreshTokenDocument" where
  "encToken d = d\<lparr>rtd_CreatedAt := bsonTime (rtd_CreatedAt d), rtd_ExpiresAt := bsonTime (rtd_ExpiresAt d),
     rtd_RevokedAt := map_option bsonTime (rtd_RevokedAt d)\<rparr>"

definition encRecord :: "idempotencyDocument \<Rightarrow> idempotencyDocument" where
  "encRecord d = d\<lparr>ird_LeaseUntil := bsonTime (ird_LeaseUntil d), ird_CreatedAt := bsonTime (ird_CreatedAt d),
     ird_ExpiresAt := bsonTime (ird_ExpiresAt d)\<rparr>"

lemmas uc_enc = encAccount_def encIdentity_def encToken_def encRecord_def

definition accounts_place :: "('w \<Rightarrow> uc_db) \<Rightarrow> (accountDocument, uc_db, 'w) place" where
  "accounts_place view = \<lparr>pl_view = view, pl_docs = db_accounts, pl_put = (\<lambda>ds db. db\<lparr>db_accounts := ds\<rparr>),
     pl_enc = encAccount, pl_conflict = (\<lambda>a b. acd_AccountID a = acd_AccountID b)\<rparr>"

definition identities_place :: "('w \<Rightarrow> uc_db) \<Rightarrow> (identityDocument, uc_db, 'w) place" where
  "identities_place view = \<lparr>pl_view = view, pl_docs = db_identities, pl_put = (\<lambda>ds db. db\<lparr>db_identities := ds\<rparr>),
     pl_enc = encIdentity, pl_conflict = (\<lambda>a b. ind_IdentityID a = ind_IdentityID b
       \<or> (ind_Provider a, ind_Subject a) = (ind_Provider b, ind_Subject b))\<rparr>"

definition tokens_place :: "('w \<Rightarrow> uc_db) \<Rightarrow> (refreshTokenDocument, uc_db, 'w) place" where
  "tokens_place view = \<lparr>pl_view = view, pl_docs = db_tokens, pl_put = (\<lambda>ds db. db\<lparr>db_tokens := ds\<rparr>),
     pl_enc = encToken, pl_conflict = (\<lambda>a b. rtd_TokenID a = rtd_TokenID b \<or> rtd_TokenHash a = rtd_TokenHash b)\<rparr>"

definition records_place :: "('w \<Rightarrow> uc_db) \<Rightarrow> (idempotencyDocument, uc_db, 'w) place" where
  "records_place view = \<lparr>pl_view = view, pl_docs = db_records, pl_put = (\<lambda>ds db. db\<lparr>db_records := ds\<rparr>),
     pl_enc = encRecord, pl_conflict = (\<lambda>a b. ird_Key a = ird_Key b)\<rparr>"

lemmas uc_places = accounts_place_def identities_place_def tokens_place_def records_place_def

lemma uc_writable:
  "writable (accounts_place view)" "writable (identities_place view)" "writable (tokens_place view)" "writable (records_place view)"
  by (simp_all add: writable_def uc_places)

lemma uc_place_simps [simp]:
  "docs_of (accounts_place view) w = db_accounts (view w)" "docs_of (identities_place view) w = db_identities (view w)"
  "docs_of (tokens_place view) w = db_tokens (view w)" "docs_of (records_place view) w = db_records (view w)"
  "pl_view (accounts_place view) = view" "pl_view (identities_place view) = view" "pl_view (tokens_place view) = view"
  "pl_view (records_place view) = view"
  "pl_put (accounts_place view) as db = db\<lparr>db_accounts := as\<rparr>" "pl_put (identities_place view) is db = db\<lparr>db_identities := is\<rparr>"
  "pl_put (tokens_place view) ts db = db\<lparr>db_tokens := ts\<rparr>" "pl_put (records_place view) rs db = db\<lparr>db_records := rs\<rparr>"
  "pl_enc (accounts_place view) = encAccount" "pl_enc (identities_place view) = encIdentity"
  "pl_enc (tokens_place view) = encToken" "pl_enc (records_place view) = encRecord"
  "pl_conflict (accounts_place view) a b \<longleftrightarrow> acd_AccountID a = acd_AccountID b"
  "pl_conflict (identities_place view) c d \<longleftrightarrow> ind_IdentityID c = ind_IdentityID d
     \<or> (ind_Provider c, ind_Subject c) = (ind_Provider d, ind_Subject d)"
  "pl_conflict (tokens_place view) s t \<longleftrightarrow> rtd_TokenID s = rtd_TokenID t \<or> rtd_TokenHash s = rtd_TokenHash t"
  "pl_conflict (records_place view) k l \<longleftrightarrow> ird_Key k = ird_Key l"
  by (simp_all add: docs_of_def uc_places)

definition accountOf :: "accountDocument \<Rightarrow> Account" where
  "accountOf d = \<lparr>acc_ID = acd_AccountID d, acc_Identities = [], acc_PlayerIDs = decodeStrings (acd_PlayerIDs d),
     acc_CreatedAt = acd_CreatedAt d, acc_UpdatedAt = acd_UpdatedAt d\<rparr>"

abbreviation identity_key :: "identityDocument \<Rightarrow> AuthProvider \<times> string" where
  "identity_key d \<equiv> (ind_Provider d, ind_Subject d)"

definition uc_abs :: "uc_db \<Rightarrow> uc_view" where
  "uc_abs db = \<lparr>uv_accounts = index_by acd_AccountID accountOf (db_accounts db),
     uv_identities = index_by identity_key identityDomainFromDocument (db_identities db),
     uv_tokens = index_by rtd_TokenID refreshTokenDomainFromDocument (db_tokens db),
     uv_records = index_by ird_Key idempotencyDomainFromDocument (db_records db)\<rparr>"

definition uc_unique :: "uc_db \<Rightarrow> bool" where
  "uc_unique db \<longleftrightarrow> distinct (map acd_AccountID (db_accounts db)) \<and> distinct (map identity_key (db_identities db))
     \<and> distinct (map rtd_TokenID (db_tokens db)) \<and> distinct (map rtd_TokenHash (db_tokens db))
     \<and> distinct (map ird_Key (db_records db))"

text \<open>Everything in the database has been through the encoding.\<close>

definition uc_stored :: "uc_db \<Rightarrow> bool" where
  "uc_stored db \<longleftrightarrow> (\<forall>d \<in> set (db_accounts db). encAccount d = d) \<and> (\<forall>d \<in> set (db_tokens db). encToken d = d)
     \<and> (\<forall>d \<in> set (db_records db). encRecord d = d)"

definition uc_inv :: "uc_db \<Rightarrow> bool" where
  "uc_inv db \<longleftrightarrow> uc_unique db \<and> uc_stored db"

lemma uc_abs_fields:
  "uv_accounts (uc_abs db) = index_by acd_AccountID accountOf (db_accounts db)"
  "uv_identities (uc_abs db) = index_by identity_key identityDomainFromDocument (db_identities db)"
  "uv_tokens (uc_abs db) = index_by rtd_TokenID refreshTokenDomainFromDocument (db_tokens db)"
  "uv_records (uc_abs db) = index_by ird_Key idempotencyDomainFromDocument (db_records db)"
  by (simp_all add: uc_abs_def)

lemma uc_abs_put:
  "uc_abs (db\<lparr>db_accounts := as\<rparr>) = (uc_abs db)\<lparr>uv_accounts := index_by acd_AccountID accountOf as\<rparr>"
  "uc_abs (db\<lparr>db_identities := is\<rparr>) = (uc_abs db)\<lparr>uv_identities := index_by identity_key identityDomainFromDocument is\<rparr>"
  "uc_abs (db\<lparr>db_tokens := ts\<rparr>) = (uc_abs db)\<lparr>uv_tokens := index_by rtd_TokenID refreshTokenDomainFromDocument ts\<rparr>"
  "uc_abs (db\<lparr>db_records := rs\<rparr>) = (uc_abs db)\<lparr>uv_records := index_by ird_Key idempotencyDomainFromDocument rs\<rparr>"
  by (simp_all add: uc_abs_def)

lemma uc_enc_idem [simp]:
  "encAccount (encAccount a) = encAccount a" "encToken (encToken t) = encToken t" "encRecord (encRecord r) = encRecord r"
  by (simp_all add: uc_enc option.map_comp comp_def)

lemma enc_fixed:
  "encAccount a = a \<Longrightarrow> bsonTime (acd_CreatedAt a) = acd_CreatedAt a \<and> bsonTime (acd_UpdatedAt a) = acd_UpdatedAt a"
  "encToken t = t \<Longrightarrow> bsonTime (rtd_CreatedAt t) = rtd_CreatedAt t \<and> bsonTime (rtd_ExpiresAt t) = rtd_ExpiresAt t
     \<and> map_option bsonTime (rtd_RevokedAt t) = rtd_RevokedAt t"
  "encRecord r = r \<Longrightarrow> bsonTime (ird_LeaseUntil r) = ird_LeaseUntil r \<and> bsonTime (ird_CreatedAt r) = ird_CreatedAt r
     \<and> bsonTime (ird_ExpiresAt r) = ird_ExpiresAt r"
  by (cases a, simp add: uc_enc) (cases t, simp add: uc_enc, cases r, simp add: uc_enc)

lemma uc_enc_fields [simp]:
  "acd_AccountID (encAccount a) = acd_AccountID a" "acd_PlayerIDs (encAccount a) = acd_PlayerIDs a"
  "identity_key (encIdentity i) = identity_key i" "rtd_TokenID (encToken t) = rtd_TokenID t"
  "rtd_TokenHash (encToken t) = rtd_TokenHash t" "ird_Key (encRecord r) = ird_Key r"
  by (simp_all add: uc_enc)

lemma uc_inv_distinct:
  assumes "uc_inv db"
  shows "distinct (map acd_AccountID (db_accounts db))" "distinct (map identity_key (db_identities db))"
    "distinct (map rtd_TokenID (db_tokens db))" "distinct (map rtd_TokenHash (db_tokens db))"
    "distinct (map ird_Key (db_records db))"
  using assms by (simp_all add: uc_inv_def uc_unique_def)

lemma uc_inv_stored:
  assumes "uc_inv db"
  shows "a \<in> set (db_accounts db) \<Longrightarrow> encAccount a = a" "t \<in> set (db_tokens db) \<Longrightarrow> encToken t = t"
    "r \<in> set (db_records db) \<Longrightarrow> encRecord r = r"
  using assms by (simp_all add: uc_inv_def uc_stored_def)

section \<open>The repositories keep the contract\<close>

lemma account_created:
  assumes law: "inserts C (accounts_place view)" and u: "uc_inv (view w)"
    and c: "AccountRepository_Create (Some C) (Some a) w = (e, w')"
  shows "uc_inv (view w') \<and>
      (case e of Some er \<Rightarrow> uc_abs (view w') = uc_abs (view w)
       | None \<Rightarrow> Account_Validate (Some a) = None \<and> uv_accounts (uc_abs (view w)) (acc_ID a) = None
           \<and> uc_abs (view w') = (uc_abs (view w))\<lparr>uv_accounts := (uv_accounts (uc_abs (view w)))(acc_ID a \<mapsto> storedAccount a)\<rparr>)"
proof (cases e)
  case (Some er)
  then have "view w' = view w" using c insert_refused(1) [OF law]
    by (auto simp: AccountRepository_Create_def split: sum.splits prod.splits option.splits if_splits)
  then show ?thesis using u Some by simp
next
  case None
  obtain d where d: "accountDocumentFromDomain (Some a) = Inr d" and ins: "cl_InsertOne C d w = (None, w')"
    using c None by (auto simp: AccountRepository_Create_def split: sum.splits prod.splits option.splits if_splits)
  have fields: "acd_AccountID d = acc_ID a" "accountOf (encAccount d) = storedAccount a" "Account_Validate (Some a) = None"
    using d by (auto simp: accountDocumentFromDomain_def accountOf_def uc_enc storedAccount_def decodeStrings_def cloneStrings_def
        split: option.splits)
  have dist: "distinct (map acd_AccountID (docs_of (accounts_place view) w))" using uc_inv_distinct(1) [OF u] by simp
  note I = insert_keyed [OF law uc_writable(1) _ dist ins, simplified]
  have "uc_inv (view w')" using I(1,2) u by (auto simp: uc_inv_def uc_unique_def uc_stored_def)
  then show ?thesis
    using None fields I(1) I(3) [of accountOf] I(4) [of accountOf] by (simp add: uc_abs_fields uc_abs_put)
qed

lemma accounts_updated:
  assumes law: "modifies C (accounts_place view)" and u: "uc_inv (view w)"
    and f: "\<And>d. f d \<Longrightarrow> acd_AccountID d = i"
    and up: "\<And>x y. up x = Some y \<Longrightarrow> acd_AccountID y = acd_AccountID x"
    and c: "cl_UpdateOne C f up w = (Inr n, w')" and n: "n \<noteq> 0"
  obtains x y where "up x = Some y" "f x" "encAccount x = x" "uc_inv (view w')"
    "uv_accounts (uc_abs (view w)) i = Some (accountOf x)"
    "uc_abs (view w') = (uc_abs (view w))\<lparr>uv_accounts := (uv_accounts (uc_abs (view w)))(i \<mapsto> accountOf (encAccount y))\<rparr>"
proof -
  have dist: "distinct (map acd_AccountID (docs_of (accounts_place view) w))" using uc_inv_distinct(1) [OF u] by simp
  obtain x y where x: "up x = Some y" "f x" "x \<in> set (db_accounts (view w))"
    "swapped f x (encAccount y) (db_accounts (view w)) (db_accounts (view w'))"
    "view w' = (view w)\<lparr>db_accounts := db_accounts (view w')\<rparr>" "distinct (map acd_AccountID (db_accounts (view w')))"
    "index_by acd_AccountID accountOf (db_accounts (view w)) i = Some (accountOf x)"
    "index_by acd_AccountID accountOf (db_accounts (view w')) =
       (index_by acd_AccountID accountOf (db_accounts (view w)))(i \<mapsto> accountOf (encAccount y))"
    by (rule update_keyed [OF law uc_writable(1) dist f _ c n, where g = accountOf, simplified])
      (auto dest: up)
  have rest: "db_tokens (view w') = db_tokens (view w)" "db_records (view w') = db_records (view w)"
    "db_identities (view w') = db_identities (view w)" by (subst x(5), simp)+
  have "uc_inv (view w')"
    using u x(6) swapped_set [OF x(4)] by (auto simp: uc_inv_def uc_unique_def uc_stored_def rest)
  moreover have "uc_abs (view w') = (uc_abs (view w))\<lparr>uv_accounts := (uv_accounts (uc_abs (view w)))(i \<mapsto> accountOf (encAccount y))\<rparr>"
    by (subst x(5)) (simp add: uc_abs_put uc_abs_fields x(8))
  ultimately show thesis
    using that x(1,2) uc_inv_stored(1) [OF u x(3)] x(7) by (simp add: uc_abs_fields)
qed

lemma account_linked:
  assumes law: "modifies C (accounts_place view)" and u: "uc_inv (view w)"
    and c: "AccountRepository_LinkPlayer (Some C) i p now w = (e, w')"
  shows "uc_inv (view w') \<and>
      (case e of Some er \<Rightarrow> uc_abs (view w') = uc_abs (view w)
       | None \<Rightarrow> i \<noteq> '''' \<and> p \<noteq> '''' \<and> (\<exists>a. uv_accounts (uc_abs (view w)) i = Some a
           \<and> uc_abs (view w') = (uc_abs (view w))\<lparr>uv_accounts := (uv_accounts (uc_abs (view w)))(i \<mapsto>
               a\<lparr>acc_PlayerIDs := (if p \<in> set (acc_PlayerIDs a) then acc_PlayerIDs a else acc_PlayerIDs a @ [p]),
                 acc_UpdatedAt := bsonTime now\<rparr>)\<rparr>))"
proof (cases "i = '''' \<or> p = ''''")
  case True
  then show ?thesis using c u by (auto simp: AccountRepository_LinkPlayer_def)
next
  case False
  let ?f = "\<lambda>d. acd_AccountID d = i \<and> (acd_PlayerIDs d = Missing \<or> acd_PlayerIDs d = Null)"
  let ?n = "\<lambda>d. Some (d\<lparr>acd_PlayerIDs := Strs []\<rparr>)" and ?g = "\<lambda>d. acd_AccountID d = i"
  obtain r1 w1 where 1: "cl_UpdateOne C ?f ?n w = (r1, w1)" by fastforce
  have k1: "uc_inv (view w1) \<and> uc_abs (view w1) = uc_abs (view w)"
  proof (cases "\<exists>n. r1 = Inr n \<and> n \<noteq> 0")
    case True
    then obtain n where n: "r1 = Inr n" "n \<noteq> 0" by blast
    obtain x y where x: "?n x = Some y" "?f x" "encAccount x = x" "uc_inv (view w1)"
      "uv_accounts (uc_abs (view w)) i = Some (accountOf x)"
      "uc_abs (view w1) = (uc_abs (view w))\<lparr>uv_accounts := (uv_accounts (uc_abs (view w)))(i \<mapsto> accountOf (encAccount y))\<rparr>"
      by (rule accounts_updated [OF law u _ _ 1 [unfolded n(1)] n(2)]) auto
    have "accountOf (encAccount y) = accountOf x"
      using x(1,2) enc_fixed(1) [OF x(3)] by (auto simp: accountOf_def encAccount_def decodeStrings_def)
    then show ?thesis using x(4-6) by (simp add: map_upd_triv)
  next
    case False
    then have "view w1 = view w"
      using updateOne_cases(1,4) [OF law 1, simplified] by (cases r1) auto
    then show ?thesis using u by simp
  qed
  obtain r2 w2 where 2: "cl_UpdateOne C ?g (linkUpdate p now) w1 = (r2, w2)" by fastforce
  have out: "isl r1 \<Longrightarrow> e \<noteq> None \<and> w' = w1" "\<not> isl r1 \<Longrightarrow> w' = w2 \<and> e = (case r2 of Inl er \<Rightarrow> Some (Wrapf ''link player: '' er)
      | Inr m \<Rightarrow> if m = 0 then Some (Sentinel ErrAccountNotFound) else None)"
    using c False 1 2 by (auto simp: AccountRepository_LinkPlayer_def split: sum.splits)
  show ?thesis
  proof (cases "\<not> isl r1 \<and> (\<exists>n. r2 = Inr n \<and> n \<noteq> 0)")
    case True
    then obtain n where n: "r2 = Inr n" "n \<noteq> 0" by blast
    obtain x y where x: "linkUpdate p now x = Some y" "encAccount x = x" "uc_inv (view w2)"
      "uv_accounts (uc_abs (view w1)) i = Some (accountOf x)"
      "uc_abs (view w2) = (uc_abs (view w1))\<lparr>uv_accounts := (uv_accounts (uc_abs (view w1)))(i \<mapsto> accountOf (encAccount y))\<rparr>"
      by (rule accounts_updated [OF law conjunct1 [OF k1] _ _ 2 [unfolded n(1)] n(2)]) (auto simp: linkUpdate_def)
    have "accountOf (encAccount y) = (accountOf x)\<lparr>acc_PlayerIDs := (if p \<in> set (acc_PlayerIDs (accountOf x))
        then acc_PlayerIDs (accountOf x) else acc_PlayerIDs (accountOf x) @ [p]), acc_UpdatedAt := bsonTime now\<rparr>"
      using x(1) enc_fixed(1) [OF x(2)]
      by (auto simp: linkUpdate_def addToSet_def accountOf_def encAccount_def decodeStrings_def split: bson_strings.splits)
    then show ?thesis using out(2) True n k1 x(3-5) False by simp
  next
    case F: False
    have "view w2 = view w1" if "\<not> isl r1"
      using updateOne_cases(1,4) [OF law 2, simplified] F that by (cases r2) auto
    then show ?thesis using out k1 F by (cases "isl r1") (auto split: sum.splits if_splits)
  qed
qed

lemma identity_created:
  assumes law: "inserts C (identities_place view)" and u: "uc_inv (view w)"
    and c: "IdentityRepository_Create (Some C) (Some x) w = (e, w')"
  shows "uc_inv (view w') \<and>
      (case e of Some er \<Rightarrow> uc_abs (view w') = uc_abs (view w)
       | None \<Rightarrow> Identity_Validate x = None \<and> uv_identities (uc_abs (view w)) (idn_Provider x, idn_Subject x) = None
           \<and> uc_abs (view w') = (uc_abs (view w))\<lparr>uv_identities := (uv_identities (uc_abs (view w)))
               ((idn_Provider x, idn_Subject x) \<mapsto> storedIdentity x)\<rparr>)"
proof (cases e)
  case (Some er)
  then have "view w' = view w" using c insert_refused(1) [OF law]
    by (auto simp: IdentityRepository_Create_def split: sum.splits prod.splits option.splits if_splits)
  then show ?thesis using u Some by simp
next
  case None
  obtain d where d: "identityDocumentFromDomain (Some x) = Inr d" and ins: "cl_InsertOne C d w = (None, w')"
    using c None by (auto simp: IdentityRepository_Create_def split: sum.splits prod.splits option.splits if_splits)
  have fields: "identity_key (encIdentity d) = (idn_Provider x, idn_Subject x)" "identityDomainFromDocument (encIdentity d) = storedIdentity x"
    "Identity_Validate x = None"
    using d by (auto simp: identityDocumentFromDomain_def identityDomainFromDocument_def uc_enc storedIdentity_def
        split: option.splits if_splits)
  have con: "pl_conflict (identities_place view) a b" if "identity_key a = identity_key b" for a b using that by simp
  have dist: "distinct (map identity_key (docs_of (identities_place view) w))" using uc_inv_distinct(2) [OF u] by simp
  note I = insert_keyed [OF law uc_writable(2) con dist ins]
  have view: "view w' = (view w)\<lparr>db_identities := db_identities (view w) @ [encIdentity d]\<rparr>" using I(1) by simp
  have "uc_inv (view w')" using I(2) u by (simp add: uc_inv_def uc_unique_def uc_stored_def view)
  then show ?thesis
    using None fields I(3) [of identityDomainFromDocument] I(4) [of identityDomainFromDocument]
    by (simp add: uc_abs_fields uc_abs_put view)
qed

lemma identity_found:
  assumes law: "finds C (identities_place view)" and u: "uc_inv (view w)"
    and c: "IdentityRepository_Find (Some C) pv sb w = (res, w')"
  shows "view w' = view w \<and>
      (case res of Inr x \<Rightarrow> uv_identities (uc_abs (view w)) (pv, sb) = Some x
       | Inl er \<Rightarrow> errors_is er ErrIdentityNotFound \<longrightarrow> uv_identities (uc_abs (view w)) (pv, sb) = None)"
proof (cases "pv = '''' \<or> sb = ''''")
  case True
  then show ?thesis using c by (auto simp: IdentityRepository_Find_def)
next
  case False
  obtain r1 where f: "cl_FindOne C (\<lambda>d. identity_key d = (pv, sb)) None w = (r1, w')"
    and r: "res = (case r1 of Inr d \<Rightarrow> Inr (identityDomainFromDocument d)
      | Inl e \<Rightarrow> if errors_is e ErrNoDocuments then Inl (Sentinel ErrIdentityNotFound) else Inl (Wrapf ''find identity: '' e))"
    using c False by (auto simp: IdentityRepository_Find_def split: prod.splits sum.splits if_splits)
  have dist: "distinct (map identity_key (docs_of (identities_place view) w))" using uc_inv_distinct(2) [OF u] by simp
  note F = find_keyed [OF law dist f]
  show ?thesis using r F(1) F(2) [where g = identityDomainFromDocument] F(3) F(4) [where g = identityDomainFromDocument]
    by (auto simp: uc_abs_fields split: sum.splits if_splits dest: foreignD)
qed

lemma token_document:
  assumes "refreshTokenDocumentFromDomain now (Some t) = Inr d"
  shows "rtd_TokenID d = rt_ID t" "rtd_TokenHash d = rt_TokenHash t" "refreshTokenDomainFromDocument (encToken d) = storedToken t"
  using assms by (auto simp: refreshTokenDocumentFromDomain_def refreshTokenDomainFromDocument_def uc_enc storedToken_def cloneTime_def
      split: if_splits)

lemma domain_token_fields [simp]:
  "rt_ID (refreshTokenDomainFromDocument d) = rtd_TokenID d" "rt_TokenHash (refreshTokenDomainFromDocument d) = rtd_TokenHash d"
  "rt_RevokedAt (refreshTokenDomainFromDocument d) = rtd_RevokedAt d" "rt_ExpiresAt (refreshTokenDomainFromDocument d) = rtd_ExpiresAt d"
  by (simp_all add: refreshTokenDomainFromDocument_def cloneTime_def)

lemma uv_tokens_Some:
  assumes "uc_inv db"
  shows "uv_tokens (uc_abs db) i = Some t \<longleftrightarrow> (\<exists>d \<in> set (db_tokens db). rtd_TokenID d = i \<and> refreshTokenDomainFromDocument d = t)"
  unfolding uc_abs_fields by (rule index_by_Some [OF uc_inv_distinct(3) [OF assms]])

lemma token_inserted:
  assumes law: "inserts C (tokens_place view)" and u: "uc_inv (view w)"
    and d: "refreshTokenDocumentFromDomain now (Some t) = Inr d" and ins: "cl_InsertOne C d w = (None, w')"
  shows "uc_inv (view w') \<and> unused t (uc_abs (view w))
     \<and> uc_abs (view w') = (uc_abs (view w))\<lparr>uv_tokens := (uv_tokens (uc_abs (view w)))(rt_ID t \<mapsto> storedToken t)\<rparr>"
proof -
  note fields = token_document [OF d]
  have con: "pl_conflict (tokens_place view) a b" if "rtd_TokenID a = rtd_TokenID b" for a b using that by simp
  have hcon: "pl_conflict (tokens_place view) a b" if "rtd_TokenHash a = rtd_TokenHash b" for a b using that by simp
  have dist: "distinct (map rtd_TokenID (docs_of (tokens_place view) w))" using uc_inv_distinct(3) [OF u] by simp
  have hdist: "distinct (map rtd_TokenHash (docs_of (tokens_place view) w))" using uc_inv_distinct(4) [OF u] by simp
  note I = insert_keyed [OF law uc_writable(3) con dist ins]
  note H = insert_keyed(2) [OF law uc_writable(3) hcon hdist ins]
  have view: "view w' = (view w)\<lparr>db_tokens := db_tokens (view w) @ [encToken d]\<rparr>" using I(1) by simp
  have "uc_inv (view w')" using I(2) H u by (auto simp: uc_inv_def uc_unique_def uc_stored_def view)
  moreover have "rt_TokenHash t' \<noteq> rt_TokenHash t" if "t' \<in> ran (uv_tokens (uc_abs (view w)))" for t'
    using that I(5) by (force simp: ran_def uv_tokens_Some [OF u] fields)
  ultimately show ?thesis
    using fields I(3) [of refreshTokenDomainFromDocument] I(4) [of refreshTokenDomainFromDocument]
    by (simp add: unused_def uc_abs_fields uc_abs_put view)
qed

lemma token_created:
  assumes law: "inserts C (tokens_place view)" and u: "uc_inv (view w)"
    and ck: "\<And>w. view (snd (clock w)) = view w"
    and c: "RefreshTokenRepository_Create (Some C) clock (Some t) w = (e, w')"
  shows "uc_inv (view w') \<and>
      (case e of Some er \<Rightarrow> uc_abs (view w') = uc_abs (view w)
       | None \<Rightarrow> unused t (uc_abs (view w))
           \<and> uc_abs (view w') = (uc_abs (view w))\<lparr>uv_tokens := (uv_tokens (uc_abs (view w)))(rt_ID t \<mapsto> storedToken t)\<rparr>)"
proof -
  obtain now w0 where 0: "clock w = (now, w0)" by fastforce
  have v0: "view w0 = view w" using ck [of w] 0 by simp
  show ?thesis
  proof (cases e)
    case (Some er)
    then have "view w' = view w0" using c 0 insert_refused(1) [OF law]
      by (auto simp: RefreshTokenRepository_Create_def split: sum.splits prod.splits option.splits if_splits)
    then show ?thesis using u Some v0 by simp
  next
    case None
    obtain d where d: "refreshTokenDocumentFromDomain now (Some t) = Inr d" and ins: "cl_InsertOne C d w0 = (None, w')"
      using c None 0 by (auto simp: RefreshTokenRepository_Create_def split: sum.splits prod.splits option.splits if_splits)
    show ?thesis using token_inserted [OF law u [folded v0] d ins] None by (simp add: v0)
  qed
qed

lemma token_found:
  assumes law: "finds C (tokens_place view)" and u: "uc_inv (view w)"
    and c: "RefreshTokenRepository_FindValid (Some C) h now w = (res, w')"
  shows "view w' = view w \<and>
      (case res of Inr t \<Rightarrow> uv_tokens (uc_abs (view w)) (rt_ID t) = Some t \<and> rt_TokenHash t = h \<and> live t now
       | Inl er \<Rightarrow> errors_is er ErrInvalidToken \<longrightarrow> h = '''' \<or> (\<forall>t \<in> ran (uv_tokens (uc_abs (view w))). rt_TokenHash t = h \<longrightarrow> \<not> live t now))"
proof (cases "h = ''''")
  case True
  then show ?thesis using c by (auto simp: RefreshTokenRepository_FindValid_def)
next
  case False
  let ?f = "\<lambda>d. rtd_TokenHash d = h \<and> validFilter now d"
  obtain r1 where f: "cl_FindOne C ?f None w = (r1, w')"
    and r: "res = (case r1 of Inr d \<Rightarrow> Inr (refreshTokenDomainFromDocument d)
      | Inl e \<Rightarrow> if errors_is e ErrNoDocuments then Inl (Sentinel ErrInvalidToken) else Inl (Wrapf ''find refresh token: '' e))"
    using c False by (auto simp: RefreshTokenRepository_FindValid_def split: prod.splits sum.splits if_splits)
  note F = find_doc [OF law f, simplified]
  have valid: "validFilter now d \<longleftrightarrow> live (refreshTokenDomainFromDocument d) now" for d by (simp add: validFilter_def live_def)
  show ?thesis
  proof (cases r1)
    case (Inr d)
    then show ?thesis using r F(1) F(2) [OF Inr] by (auto simp: uv_tokens_Some [OF u] valid)
  next
    case (Inl e)
    then show ?thesis using r F(1) F(3,4) [OF Inl]
      by (auto simp: uv_tokens_Some [OF u] valid ran_def split: if_splits dest: foreignD)
  qed
qed

lemma tokens_updated:
  assumes law: "modifies C (tokens_place view)" and u: "uc_inv (view w)"
    and f: "\<And>d. f d \<Longrightarrow> rtd_TokenID d = i" and c: "cl_UpdateOne C f (revokeUpdate now) w = (Inr n, w')" and n: "n \<noteq> 0"
  obtains x where "f x" "uc_inv (view w')" "uv_tokens (uc_abs (view w)) i = Some (refreshTokenDomainFromDocument x)"
    "uc_abs (view w') = (uc_abs (view w))\<lparr>uv_tokens := (uv_tokens (uc_abs (view w)))
       (i \<mapsto> (refreshTokenDomainFromDocument x)\<lparr>rt_RevokedAt := Some (bsonTime now)\<rparr>)\<rparr>"
proof -
  have dist: "distinct (map rtd_TokenID (docs_of (tokens_place view) w))" using uc_inv_distinct(3) [OF u] by simp
  let ?g = refreshTokenDomainFromDocument
  obtain x y where x: "revokeUpdate now x = Some y" "f x" "x \<in> set (db_tokens (view w))"
    "swapped f x (encToken y) (db_tokens (view w)) (db_tokens (view w'))"
    "view w' = (view w)\<lparr>db_tokens := db_tokens (view w')\<rparr>" "distinct (map rtd_TokenID (db_tokens (view w')))"
    "index_by rtd_TokenID ?g (db_tokens (view w)) i = Some (?g x)"
    "index_by rtd_TokenID ?g (db_tokens (view w')) = (index_by rtd_TokenID ?g (db_tokens (view w)))(i \<mapsto> ?g (encToken y))"
    by (rule update_keyed [OF law uc_writable(3) dist f _ c n, where g = ?g, simplified]) (auto simp: revokeUpdate_def)
  have y: "rtd_TokenHash (encToken y) = rtd_TokenHash x" "?g (encToken y) = (?g x)\<lparr>rt_RevokedAt := Some (bsonTime now)\<rparr>"
    using x(1) enc_fixed(2) [OF uc_inv_stored(2) [OF u x(3)]]
    by (auto simp: revokeUpdate_def refreshTokenDomainFromDocument_def encToken_def cloneTime_def)
  have "distinct (map rtd_TokenHash (db_tokens (view w')))"
    using uc_inv_distinct(4) [OF u] swapped_map [OF x(4), of rtd_TokenHash] y(1) by simp
  moreover have rest: "db_accounts (view w') = db_accounts (view w)" "db_records (view w') = db_records (view w)"
    "db_identities (view w') = db_identities (view w)" by (subst x(5), simp)+
  ultimately have "uc_inv (view w')"
    using u x(6) swapped_set [OF x(4)] by (auto simp: uc_inv_def uc_unique_def uc_stored_def)
  moreover have "uc_abs (view w') = (uc_abs (view w))\<lparr>uv_tokens := (uv_tokens (uc_abs (view w)))(i \<mapsto> ?g (encToken y))\<rparr>"
    by (subst x(5)) (simp add: uc_abs_put uc_abs_fields x(8))
  ultimately show thesis using that x(2,7) y(2) by (simp add: uc_abs_fields)
qed

lemma token_revoked:
  assumes law: "modifies C (tokens_place view)" and u: "uc_inv (view w)"
    and c: "RefreshTokenRepository_Revoke (Some C) i now w = (e, w')"
  shows "uc_inv (view w') \<and>
      (case e of Some er \<Rightarrow> uc_abs (view w') = uc_abs (view w)
       | None \<Rightarrow> (\<exists>t. uv_tokens (uc_abs (view w)) i = Some t \<and> rt_RevokedAt t = None
           \<and> uc_abs (view w') = (uc_abs (view w))\<lparr>uv_tokens := (uv_tokens (uc_abs (view w)))
               (i \<mapsto> t\<lparr>rt_RevokedAt := Some (bsonTime now)\<rparr>)\<rparr>))"
proof -
  let ?f = "\<lambda>d. rtd_TokenID d = i \<and> rtd_RevokedAt d = None"
  obtain r1 where 1: "cl_UpdateOne C ?f (revokeUpdate now) w = (r1, w')"
    and e: "e = (case r1 of Inl er \<Rightarrow> Some (Wrapf ''revoke refresh token: '' er)
      | Inr m \<Rightarrow> if m = 0 then Some (Sentinel ErrInvalidToken) else None)"
    using c by (auto simp: RefreshTokenRepository_Revoke_def split: prod.splits sum.splits if_splits)
  show ?thesis
  proof (cases "\<exists>n. r1 = Inr n \<and> n \<noteq> 0")
    case True
    then obtain n where n: "r1 = Inr n" "n \<noteq> 0" by blast
    obtain x where "?f x" "uc_inv (view w')" "uv_tokens (uc_abs (view w)) i = Some (refreshTokenDomainFromDocument x)"
      "uc_abs (view w') = (uc_abs (view w))\<lparr>uv_tokens := (uv_tokens (uc_abs (view w)))
         (i \<mapsto> (refreshTokenDomainFromDocument x)\<lparr>rt_RevokedAt := Some (bsonTime now)\<rparr>)\<rparr>"
      by (rule tokens_updated [OF law u _ 1 [unfolded n(1)] n(2)]) auto
    then show ?thesis using e n by simp
  next
    case False
    then have "view w' = view w" using updateOne_cases(1,4) [OF law 1, simplified] by (cases r1) auto
    then show ?thesis using e u False by (auto split: sum.splits)
  qed
qed

lemma unused_before:
  assumes "uv_tokens v i = Some old" "rt_TokenHash old' = rt_TokenHash old" "unused t (v\<lparr>uv_tokens := (uv_tokens v)(i \<mapsto> old')\<rparr>)"
  shows "unused t v"
proof -
  have "rt_TokenHash s \<noteq> rt_TokenHash t" if s: "uv_tokens v j = Some s" for j s
  proof (cases "j = i")
    case True
    then have "s = old" using s assms(1) by simp
    moreover have "old' \<in> ran ((uv_tokens v)(i \<mapsto> old'))" by (auto simp: ran_def)
    ultimately show ?thesis using assms(2,3) by (auto simp: unused_def)
  next
    case False
    then have "((uv_tokens v)(i \<mapsto> old')) j = Some s" using s by simp
    then have "s \<in> ran (uv_tokens (v\<lparr>uv_tokens := (uv_tokens v)(i \<mapsto> old')\<rparr>))" by (auto intro: ranI)
    then show ?thesis using assms(3) unfolding unused_def by blast
  qed
  then show ?thesis using assms(3) by (auto simp: unused_def ran_def split: if_splits)
qed

lemma rotate_transaction:
  assumes law: "modifies C (tokens_place view)" "inserts C (tokens_place view)" and u: "uc_inv (view w)"
    and d: "refreshTokenDocumentFromDomain now' (Some t) = Inr d"
    and c: "rotateIn C i now d w = (None, w')"
  shows "uc_inv (view w') \<and> rotates i now t (uc_abs (view w)) (uc_abs (view w'))"
proof -
  let ?f = "\<lambda>d. rtd_TokenID d = i \<and> validFilter now d"
  obtain w1 where 1: "cl_UpdateOne C ?f (revokeUpdate now) w = (Inr 1, w1)" and 2: "cl_InsertOne C d w1 = (None, w')"
    using c by (auto simp: rotateIn_def split: prod.splits sum.splits if_splits option.splits)
  obtain x where x: "?f x" "uc_inv (view w1)" "uv_tokens (uc_abs (view w)) i = Some (refreshTokenDomainFromDocument x)"
    "uc_abs (view w1) = (uc_abs (view w))\<lparr>uv_tokens := (uv_tokens (uc_abs (view w)))
       (i \<mapsto> (refreshTokenDomainFromDocument x)\<lparr>rt_RevokedAt := Some (bsonTime now)\<rparr>)\<rparr>"
    by (rule tokens_updated [OF law(1) u _ 1]) auto
  note I = token_inserted [OF law(2) x(2) d 2]
  have "unused t (uc_abs (view w))"
    by (rule unused_before [OF x(3), where old' = "(refreshTokenDomainFromDocument x)\<lparr>rt_RevokedAt := Some (bsonTime now)\<rparr>"])
      (use I x(4) in simp_all)
  then show ?thesis using I x(1,3,4) by (auto simp: rotates_def rotated_def live_def validFilter_def)
qed

lemma token_rotated:
  assumes law: "modifies C (tokens_place view)" "inserts C (tokens_place view)" "transacts tx view" and u: "uc_inv (view w)"
    and ck: "\<And>w. view (snd (clock w)) = view w"
    and c: "RefreshTokenRepository_Rotate (Some C) (Some tx) clock i now (Some t) w = (e, w')"
  shows "uc_inv (view w') \<and>
      (case e of Some er \<Rightarrow> uc_abs (view w') = uc_abs (view w) \<or> rotates i now t (uc_abs (view w)) (uc_abs (view w'))
       | None \<Rightarrow> rotates i now t (uc_abs (view w)) (uc_abs (view w')))"
proof -
  obtain now' w0 where 0: "clock w = (now', w0)" by fastforce
  have v0: "view w0 = view w" using ck [of w] 0 by simp
  show ?thesis
  proof (cases "i = '''' \<or> isl (refreshTokenDocumentFromDomain now' (Some t))")
    case True
    then have "view w' = view w \<and> e \<noteq> None"
      using c 0 v0 by (cases "i = ''''") (auto simp: RefreshTokenRepository_Rotate_def split: sum.splits)
    then show ?thesis using u by auto
  next
    case False
    then obtain d where d: "refreshTokenDocumentFromDomain now' (Some t) = Inr d"
      by (cases "refreshTokenDocumentFromDomain now' (Some t)") auto
    have tx: "tx (rotateIn C i now d) w0 = (e, w')" using c 0 d False by (simp add: RefreshTokenRepository_Rotate_def)
    have uow: "unit_of_work tx (\<lambda>w. uc_abs (view w)) (\<lambda>w. uc_inv (view w))"
      by (rule transacts_unit_of_work [where view = view and A = uc_abs]) (use law(3) in simp_all)
    have "uc_inv (view w') \<and> (e = None \<and> rotates i now t (uc_abs (view w0)) (uc_abs (view w'))
        \<or> (\<exists>er. e = Some er \<and> (uc_abs (view w') = uc_abs (view w0) \<or> foreign er \<and> rotates i now t (uc_abs (view w0)) (uc_abs (view w')))))"
    proof (rule unit_of_work.tx_effect [OF uow _ tx])
      show "uc_inv (view w0)" using u v0 by simp
      fix w1 w2
      assume a: "uc_inv (view w1)" "uc_abs (view w1) = uc_abs (view w0)" "rotateIn C i now d w1 = (None, w2)"
      then show "uc_inv (view w2) \<and> rotates i now t (uc_abs (view w0)) (uc_abs (view w2))"
        using rotate_transaction [OF law(1,2) a(1) d a(3)] by simp
    qed
    then show ?thesis by (auto simp: v0)
  qed
qed

end
