(* ===== verification/UC_Idempotency.thy ===== *)
theory UC_Idempotency
  imports UC_Accounts
begin

text \<open>
  Idempotent execution of requests (\<^verbatim>\<open>withIdempotency\<close> and what it calls in
  \<^verbatim>\<open>src/services/usercenter/components/domain_auth_component.go\<close>) and the handlers that use it.  A request with a key is executed
  under a reservation, its response is recorded, and a repetition is answered from the record.  Functions
  that wait return an option; \<open>None\<close> stands for a call that does not return.

  The renewals that a goroutine makes while a request executes are taken before the execution's own calls.  The
  context that a failed renewal cancels is not modelled: the execution may go on, and its result is
  discarded, as in the code.
\<close>

section \<open>Locks\<close>

text \<open>
  \<open>idempotencyLock\<close> maps keys to pointers; the entries live in a heap, so that two requests that hold the same
  pointer share one mutex.
\<close>

record idempotencyLockEntry =
  le_mu :: bool
  le_refs :: int

record lock_table =
  lt_map :: "string \<rightharpoonup> nat"
  lt_heap :: "nat \<Rightarrow> idempotencyLockEntry"
  lt_next :: nat

definition emptyLocks :: lock_table where
  "emptyLocks = \<lparr>lt_map = Map.empty, lt_heap = (\<lambda>_. \<lparr>le_mu = False, le_refs = 0\<rparr>), lt_next = 0\<rparr>"

definition setEntry :: "nat \<Rightarrow> idempotencyLockEntry \<Rightarrow> lock_table \<Rightarrow> lock_table" where
  "setEntry p x t = t\<lparr>lt_heap := (lt_heap t)(p := x)\<rparr>"

definition acquireIdempotencyLock :: "string \<Rightarrow> lock_table \<Rightarrow> nat \<times> lock_table" where
  "acquireIdempotencyLock key t =
     (let (lock, t1) = (case lt_map t key of
            Some lock \<Rightarrow> (lock, t)
          | None \<Rightarrow> (lt_next t, setEntry (lt_next t) \<lparr>le_mu = False, le_refs = 0\<rparr>
              (t\<lparr>lt_map := (lt_map t)(key \<mapsto> lt_next t), lt_next := lt_next t + 1\<rparr>)))
      in (lock, setEntry lock ((lt_heap t1 lock)\<lparr>le_refs := le_refs (lt_heap t1 lock) + 1\<rparr>) t1))"

definition releaseIdempotencyLock :: "string \<Rightarrow> nat \<Rightarrow> lock_table \<Rightarrow> lock_table" where
  "releaseIdempotencyLock key lock t =
     (let t1 = setEntry lock ((lt_heap t lock)\<lparr>le_refs := le_refs (lt_heap t lock) - 1\<rparr>) t
      in if le_refs (lt_heap t1 lock) = 0 \<and> lt_map t1 key = Some lock
         then t1\<lparr>lt_map := (lt_map t1)(key := None)\<rparr> else t1)"

text \<open>\<^verbatim>\<open>lock.mu.Lock()\<close> waits while another request holds the mutex.\<close>

definition lockMutex :: "nat \<Rightarrow> lock_table \<Rightarrow> lock_table option" where
  "lockMutex lock t = (if le_mu (lt_heap t lock) then None else Some (setEntry lock ((lt_heap t lock)\<lparr>le_mu := True\<rparr>) t))"

definition unlockMutex :: "nat \<Rightarrow> lock_table \<Rightarrow> lock_table" where
  "unlockMutex lock t = setEntry lock ((lt_heap t lock)\<lparr>le_mu := False\<rparr>) t"

section \<open>Replay\<close>

definition responseMessageID :: "string \<Rightarrow> uint32" where
  "responseMessageID operation =
     (if operation = ''guest_authenticate'' then GUEST_AUTHENTICATE_RESPONSE
      else if operation = ''password_authenticate'' then PASSWORD_AUTHENTICATE_RESPONSE
      else if operation = ''refresh_authenticate'' then REFRESH_AUTHENTICATE_RESPONSE
      else REVOKE_REFRESH_TOKEN_RESPONSE)"

text \<open>\<open>un\<close> is \<^verbatim>\<open>proto.Unmarshal\<close> into the response message of the operation.\<close>

definition replayIdempotency ::
    "IdempotencyRecord option \<Rightarrow> string \<Rightarrow> string \<Rightarrow> (bytes \<Rightarrow> Message result) \<Rightarrow> MessageResult option result" where
  "replayIdempotency record operation requestHash un =
     (case record of None \<Rightarrow> Inl (Sentinel ErrIdempotencyConflict) | Some r \<Rightarrow>
      if ir_Operation r \<noteq> operation \<or> ir_RequestHash r \<noteq> requestHash then Inl (Sentinel ErrIdempotencyConflict)
      else (case un (ir_Response r) of
              Inl e \<Rightarrow> Inl (Wrapf ''unmarshal idempotency response: '' e)
            | Inr m \<Rightarrow> Inr (Some \<lparr>mr_MessageID = responseMessageID operation, mr_Message = Some m\<rparr>)))"

text \<open>The field \<^verbatim>\<open>idempotency_key\<close> of the six kinds of request that have one.\<close>

fun clearIdempotencyKey :: "Message \<Rightarrow> Message" where
  "clearIdempotencyKey (MGuestAuthenticateRequest q) = MGuestAuthenticateRequest (q\<lparr>gq_IdempotencyKey := ''''\<rparr>)"
| "clearIdempotencyKey (MPasswordAuthenticateRequest q) = MPasswordAuthenticateRequest (q\<lparr>wq_IdempotencyKey := ''''\<rparr>)"
| "clearIdempotencyKey (MRefreshAuthenticateRequest q) = MRefreshAuthenticateRequest (q\<lparr>fq_IdempotencyKey := ''''\<rparr>)"
| "clearIdempotencyKey (MRevokeRefreshTokenRequest q) = MRevokeRefreshTokenRequest (q\<lparr>vq_IdempotencyKey := ''''\<rparr>)"
| "clearIdempotencyKey (MLoginRequest q) = MLoginRequest (q\<lparr>li_IdempotencyKey := ''''\<rparr>)"
| "clearIdempotencyKey (MRefreshLoginRequest q) = MRefreshLoginRequest (q\<lparr>fq_IdempotencyKey := ''''\<rparr>)"
| "clearIdempotencyKey m = m"

definition requestHashOf :: "'w uc_env \<Rightarrow> Message \<Rightarrow> string result" where
  "requestHashOf ev request =
     (case pb_Marshal (ev_codec ev) (clearIdempotencyKey request) of
        Inl e \<Rightarrow> Inl (Wrapf ''marshal idempotency request: '' e)
      | Inr canonical \<Rightarrow> Inr (hexString (ev_sha256 ev canonical)))"

section \<open>Reserved execution\<close>

type_synonym 'w execution = "'w \<Rightarrow> MessageResult option result \<times> 'w"

fun renewLoop :: "'w DomainAuthComponent \<Rightarrow> 'w IdempotencyCoordinator \<Rightarrow> string \<Rightarrow> string \<Rightarrow> gotime list \<Rightarrow> 'w action" where
  "renewLoop c K key reservationID [] w = (None, w)"
| "renewLoop c K key reservationID (now # ticks) w =
     (case ipc_Renew K key reservationID (now + dc_idempotencyLease c) now w of
        (Some e, w1) \<Rightarrow> (Some e, w1)
      | (None, w1) \<Rightarrow> renewLoop c K key reservationID ticks w1)"

definition renewIdempotencyLease ::
    "'w uc_env \<Rightarrow> 'w DomainAuthComponent \<Rightarrow> 'w IdempotencyCoordinator \<Rightarrow> string \<Rightarrow> string \<Rightarrow> 'w action" where
  "renewIdempotencyLease ev c K key reservationID w =
     (let interval = (if dc_idempotencyRenewInterval c \<le> 0 then dc_idempotencyLease c div 3 else dc_idempotencyRenewInterval c)
      in if interval \<le> 0 then (None, w)
         else (case ev_ticks ev w of (ticks, w1) \<Rightarrow> renewLoop c K key reservationID ticks w1))"

definition executeReserved ::
    "'w uc_env \<Rightarrow> 'w DomainAuthComponent \<Rightarrow> 'w IdempotencyCoordinator \<Rightarrow> string \<Rightarrow> string \<Rightarrow> 'w execution \<Rightarrow> 'w execution" where
  "executeReserved ev c K key reservationID execute w =
     (case renewIdempotencyLease ev c K key reservationID w of (leaseErr, w1) \<Rightarrow>
      (case execute w1 of (executed, w2) \<Rightarrow>
        let result = (case executed of Inl e \<Rightarrow> Inl e | Inr r \<Rightarrow> (case leaseErr of Some e \<Rightarrow> Inl e | None \<Rightarrow> Inr r)) in
        case result of
          Inr (Some r) \<Rightarrow>
            (case mr_Message r of
               None \<Rightarrow> (case ipc_Release K key reservationID w2 of (_, w3) \<Rightarrow> (result, w3))
             | Some m \<Rightarrow>
                 (case pb_Marshal (ev_codec ev) m of
                    Inl e \<Rightarrow> (case ipc_Release K key reservationID w2 of (_, w3) \<Rightarrow>
                       (Inl (Wrapf ''marshal idempotency response: '' e), w3))
                  | Inr responseBytes \<Rightarrow>
                      (case dc_now c w2 of (now, w3) \<Rightarrow>
                       (case ipc_Complete K key reservationID responseBytes now w3 of
                          (Some e, w4) \<Rightarrow> (Inl e, w4)
                        | (None, w4) \<Rightarrow> (Inr (Some r), w4)))))
        | _ \<Rightarrow> (case ipc_Release K key reservationID w2 of (_, w3) \<Rightarrow> (result, w3))))"

definition pendingRecord :: "'w DomainAuthComponent \<Rightarrow> string \<Rightarrow> string \<Rightarrow> string \<Rightarrow> string \<Rightarrow> gotime \<Rightarrow> IdempotencyRecord" where
  "pendingRecord c key operation requestHash reservationID now = \<lparr>ir_Key = key, ir_Operation = operation, ir_AccountID = '''',
     ir_RequestHash = requestHash, ir_Response = [], ir_State = IdempotencyStatePending, ir_ReservationID = reservationID,
     ir_LeaseUntil = now + dc_idempotencyLease c, ir_CreatedAt = now, ir_ExpiresAt = now + dc_idempotencyTTL c\<rparr>"

section \<open>Waiting\<close>

text \<open>What a request is: its key, operation, hash, the reading of its response and its execution.\<close>

record 'w idem_call =
  ic_key :: string
  ic_operation :: string
  ic_hash :: string
  ic_un :: "bytes \<Rightarrow> Message result"
  ic_execute :: "'w execution"

text \<open>Looking at the record once more: an answer, or the deadline to wait for.\<close>

definition lookAgain ::
    "'w IdempotencyRepository \<Rightarrow> 'w idem_call \<Rightarrow> gotime \<Rightarrow> gotime \<Rightarrow> 'w \<Rightarrow> (MessageResult option result + gotime) \<times> 'w" where
  "lookAgain I q now deadline w =
     (case ipr_Find I (ic_key q) now w of
        (Inr record, w1) \<Rightarrow>
          if IsCompleted (Some record) then (Inl (replayIdempotency (Some record) (ic_operation q) (ic_hash q) (ic_un q)), w1)
          else (Inr deadline, w1)
      | (Inl err, w1) \<Rightarrow>
          if \<not> errors_is err ErrIdempotencyNotFound then (Inl (Inl err), w1) else (Inr deadline, w1))"

text \<open>One round of the loop of \<open>waitForIdempotency\<close>, up to the pause.\<close>

definition waitRound ::
    "'w uc_env \<Rightarrow> 'w DomainAuthComponent \<Rightarrow> 'w IdempotencyRepository \<Rightarrow> 'w IdempotencyCoordinator \<Rightarrow> 'w idem_call \<Rightarrow>
     gotime \<Rightarrow> 'w \<Rightarrow> (MessageResult option result + gotime) \<times> 'w" where
  "waitRound ev c I K q deadline w =
     (case dc_now c w of (now, w0) \<Rightarrow>
      if deadline < now then
        (case ev_uuid ev w0 of
           (Inl e, w1) \<Rightarrow> (Inl (Inl e), w1)
         | (Inr reservationID, w1) \<Rightarrow>
             (case ipc_Reserve K (pendingRecord c (ic_key q) (ic_operation q) (ic_hash q) reservationID now) now w1 of
                ((_, _, Some reserveErr), w2) \<Rightarrow> (Inl (Inl reserveErr), w2)
              | ((claimed, owns, None), w2) \<Rightarrow>
                  if owns then (case executeReserved ev c K (ic_key q) reservationID (ic_execute q) w2 of (r, w3) \<Rightarrow> (Inl r, w3))
                  else (case claimed of
                     None \<Rightarrow> lookAgain I q now deadline w2
                   | Some x \<Rightarrow>
                       if IsCompleted (Some x) then (Inl (replayIdempotency (Some x) (ic_operation q) (ic_hash q) (ic_un q)), w2)
                       else lookAgain I q now (ir_LeaseUntil x) w2)))
      else lookAgain I q now deadline w0)"

partial_function (option) waitForIdempotency ::
    "'w uc_env \<Rightarrow> 'w DomainAuthComponent \<Rightarrow> 'w IdempotencyRepository \<Rightarrow> 'w IdempotencyCoordinator \<Rightarrow> 'w idem_call \<Rightarrow>
     gotime \<Rightarrow> 'w \<Rightarrow> (MessageResult option result \<times> 'w) option" where
  "waitForIdempotency ev c I K q deadline w =
     (case waitRound ev c I K q deadline w of
        (Inl r, w1) \<Rightarrow> Some (r, w1)
      | (Inr deadline', w1) \<Rightarrow>
          (case ev_pause ev w1 of
             (Some e, w2) \<Rightarrow> Some (Inl e, w2)
           | (None, w2) \<Rightarrow> waitForIdempotency ev c I K q deadline' w2))"

section \<open>withIdempotency\<close>

text \<open>The branch without a coordinator: execute and record.\<close>

definition executeAndRecord ::
    "'w uc_env \<Rightarrow> 'w DomainAuthComponent \<Rightarrow> 'w IdempotencyRepository \<Rightarrow> 'w idem_call \<Rightarrow> gotime \<Rightarrow> 'w execution" where
  "executeAndRecord ev c I q now w =
     (case ic_execute q w of
        (Inr (Some r), w1) \<Rightarrow>
          (case mr_Message r of
             None \<Rightarrow> (Inr (Some r), w1)
           | Some m \<Rightarrow>
               (case pb_Marshal (ev_codec ev) m of
                  Inl e \<Rightarrow> (Inl (Wrapf ''marshal idempotency response: '' e), w1)
                | Inr responseBytes \<Rightarrow>
                    (case ipr_Create I \<lparr>ir_Key = ic_key q, ir_Operation = ic_operation q, ir_AccountID = '''', ir_RequestHash = ic_hash q,
                             ir_Response = responseBytes, ir_State = '''', ir_ReservationID = '''', ir_LeaseUntil = 0,
                             ir_CreatedAt = now, ir_ExpiresAt = now + dc_idempotencyTTL c\<rparr> w1 of
                       (None, w2) \<Rightarrow> (Inr (Some r), w2)
                     | (Some err, w2) \<Rightarrow>
                         if errors_is err ErrIdempotencyConflict then
                           (case ipr_Find I (ic_key q) now w2 of
                              (Inr existing, w3) \<Rightarrow> (replayIdempotency (Some existing) (ic_operation q) (ic_hash q) (ic_un q), w3)
                            | (Inl findErr, w3) \<Rightarrow>
                                if errors_is findErr ErrIdempotencyNotFound then (Inl (Sentinel ErrIdempotencyConflict), w3)
                                else (Inl (Wrapf ''find conflicting idempotency record: '' findErr), w3))
                         else (Inl (Wrapf ''store idempotency record: '' err), w2))))
      | (res, w1) \<Rightarrow> (res, w1))"

definition reserveAndExecute ::
    "'w uc_env \<Rightarrow> 'w DomainAuthComponent \<Rightarrow> 'w IdempotencyRepository \<Rightarrow> 'w IdempotencyCoordinator \<Rightarrow> 'w idem_call \<Rightarrow> gotime \<Rightarrow>
     'w \<Rightarrow> (MessageResult option result \<times> 'w) option" where
  "reserveAndExecute ev c I K q now w =
     (case ev_uuid ev w of
        (Inl e, w1) \<Rightarrow> Some (Inl (Wrapf ''generate idempotency reservation: '' e), w1)
      | (Inr reservationID, w1) \<Rightarrow>
          let pending = pendingRecord c (ic_key q) (ic_operation q) (ic_hash q) reservationID now in
          (case ipc_Reserve K pending now w1 of
             ((_, _, Some reserveErr), w2) \<Rightarrow> Some (Inl reserveErr, w2)
           | ((claimed, owns, None), w2) \<Rightarrow>
               if owns then Some (executeReserved ev c K (ic_key q) reservationID (ic_execute q) w2)
               else if IsCompleted claimed then Some (replayIdempotency claimed (ic_operation q) (ic_hash q) (ic_un q), w2)
               else waitForIdempotency ev c I K q (ir_LeaseUntil pending) w2))"

text \<open>What \<open>withIdempotency\<close> does while it holds the lock of the key.\<close>

definition idempotentCall ::
    "'w uc_env \<Rightarrow> 'w DomainAuthComponent \<Rightarrow> 'w IdempotencyRepository \<Rightarrow> 'w idem_call \<Rightarrow> 'w \<Rightarrow> (MessageResult option result \<times> 'w) option" where
  "idempotentCall ev c I q w =
     (case dc_now c w of (now, w0) \<Rightarrow>
      (case ipr_Find I (ic_key q) now w0 of
         (Inr record, w1) \<Rightarrow>
           if IsCompleted (Some record) then Some (replayIdempotency (Some record) (ic_operation q) (ic_hash q) (ic_un q), w1)
           else (case dc_coordinator c of
                   None \<Rightarrow> Some (Inl (Sentinel ErrIdempotencyConflict), w1)
                 | Some K \<Rightarrow>
                     if ir_Operation record \<noteq> ic_operation q \<or> ir_RequestHash record \<noteq> ic_hash q
                     then Some (Inl (Sentinel ErrIdempotencyConflict), w1)
                     else waitForIdempotency ev c I K q (ir_LeaseUntil record) w1)
       | (Inl err, w1) \<Rightarrow>
           if \<not> errors_is err ErrIdempotencyNotFound then Some (Inl (Wrapf ''find idempotency record: '' err), w1)
           else (case dc_coordinator c of
                   Some K \<Rightarrow> reserveAndExecute ev c I K q now w1
                 | None \<Rightarrow> Some (executeAndRecord ev c I q now w1))))"

type_synonym 'w uc_state = "lock_table \<times> 'w"

definition withIdempotency ::
    "'w uc_env \<Rightarrow> 'w DomainAuthComponent \<Rightarrow> string \<Rightarrow> string \<Rightarrow> Message \<Rightarrow> (bytes \<Rightarrow> Message result) \<Rightarrow> 'w execution \<Rightarrow>
     'w uc_state \<Rightarrow> (MessageResult option result \<times> 'w uc_state) option" where
  "withIdempotency ev c key operation request un execute s =
     (let key = TrimSpace key in
      case s of (t, w) \<Rightarrow>
      (case dc_idempotency c of
         None \<Rightarrow> (case execute w of (r, w1) \<Rightarrow> Some (r, t, w1))
       | Some I \<Rightarrow>
           if key = '''' then (case execute w of (r, w1) \<Rightarrow> Some (r, t, w1))
           else (case acquireIdempotencyLock key t of (lock, t1) \<Rightarrow>
             (case lockMutex lock t1 of
                None \<Rightarrow> None
              | Some t2 \<Rightarrow>
                  let t3 = releaseIdempotencyLock key lock (unlockMutex lock t2) in
                  (case requestHashOf ev request of
                     Inl e \<Rightarrow> Some (Inl e, t3, w)
                   | Inr requestHash \<Rightarrow>
                       (case idempotentCall ev c I \<lparr>ic_key = key, ic_operation = operation, ic_hash = requestHash, ic_un = un,
                                ic_execute = execute\<rparr> w of
                          None \<Rightarrow> None
                        | Some (r, w1) \<Rightarrow> Some (r, t3, w1)))))))"

section \<open>Handlers\<close>

type_synonym 'w uc_handler = "InternalEnvelope \<Rightarrow> 'w uc_state \<Rightarrow> (MessageResult option result \<times> 'w uc_state) option"

text \<open>A core always yields a result when it yields no error.\<close>

definition core :: "('w \<Rightarrow> MessageResult result \<times> 'w) \<Rightarrow> 'w execution" where
  "core f w = (case f w of (Inl e, w1) \<Rightarrow> (Inl e, w1) | (Inr r, w1) \<Rightarrow> (Inr (Some r), w1))"

definition answerAs :: "('m \<Rightarrow> Message) \<Rightarrow> (bytes \<Rightarrow> 'm result) \<Rightarrow> bytes \<Rightarrow> Message result" where
  "answerAs con un bs = (case un bs of Inl e \<Rightarrow> Inl e | Inr m \<Rightarrow> Inr (con m))"

definition guestAuthenticate :: "'w uc_env \<Rightarrow> 'w DomainAuthComponent \<Rightarrow> 'w uc_handler" where
  "guestAuthenticate ev c envelope s =
     (case pb_GuestAuthenticateRequest (ev_codec ev) (en_Payload envelope) of
        Inl _ \<Rightarrow> Some (Inl (NewError ''install_id is required''), s)
      | Inr request \<Rightarrow>
          if TrimSpace (gq_InstallId request) = '''' then Some (Inl (NewError ''install_id is required''), s)
          else withIdempotency ev c (gq_IdempotencyKey request) ''guest_authenticate'' (MGuestAuthenticateRequest request)
                 (answerAs MGuestAuthenticateResponse (pb_GuestAuthenticateResponse (ev_codec ev)))
                 (core (guestAuthenticateCore ev c request)) s)"

definition passwordAuthenticate :: "'w uc_env \<Rightarrow> 'w DomainAuthComponent \<Rightarrow> 'w uc_handler" where
  "passwordAuthenticate ev c envelope s =
     (case pb_PasswordAuthenticateRequest (ev_codec ev) (en_Payload envelope) of
        Inl _ \<Rightarrow> Some (Inl (NewError ''invalid password authentication request''), s)
      | Inr request \<Rightarrow>
          withIdempotency ev c (wq_IdempotencyKey request) ''password_authenticate'' (MPasswordAuthenticateRequest request)
            (answerAs MPasswordAuthenticateResponse (pb_PasswordAuthenticateResponse (ev_codec ev)))
            (core (passwordAuthenticateCore ev c request)) s)"

definition refreshAuthenticate :: "'w uc_env \<Rightarrow> 'w DomainAuthComponent \<Rightarrow> 'w uc_handler" where
  "refreshAuthenticate ev c envelope s =
     (case pb_RefreshAuthenticateRequest (ev_codec ev) (en_Payload envelope) of
        Inl _ \<Rightarrow> Some (Inl (NewError ''refresh_token and install_id are required''), s)
      | Inr request \<Rightarrow>
          if TrimSpace (fq_RefreshToken request) = '''' \<or> TrimSpace (fq_InstallId request) = ''''
          then Some (Inl (NewError ''refresh_token and install_id are required''), s)
          else withIdempotency ev c (fq_IdempotencyKey request) ''refresh_authenticate'' (MRefreshAuthenticateRequest request)
                 (answerAs MRefreshAuthenticateResponse (pb_RefreshAuthenticateResponse (ev_codec ev)))
                 (core (refreshAuthenticateCore ev c request)) s)"

definition revokeRefreshToken :: "'w uc_env \<Rightarrow> 'w DomainAuthComponent \<Rightarrow> 'w uc_handler" where
  "revokeRefreshToken ev c envelope s =
     (case pb_RevokeRefreshTokenRequest (ev_codec ev) (en_Payload envelope) of
        Inl _ \<Rightarrow> Some (Inl (NewError ''account_id and refresh_token are required''), s)
      | Inr request \<Rightarrow>
          if TrimSpace (vq_AccountId request) = '''' \<or> TrimSpace (vq_RefreshToken request) = ''''
          then Some (Inl (NewError ''account_id and refresh_token are required''), s)
          else withIdempotency ev c (vq_IdempotencyKey request) ''revoke_refresh_token'' (MRevokeRefreshTokenRequest request)
                 (answerAs (\<lambda>_. MRevokeRefreshTokenResponse) (pb_RevokeRefreshTokenResponse (ev_codec ev)))
                 (core (revokeRefreshTokenCore ev c request)) s)"

definition clientLoginAuthenticate :: "'w uc_env \<Rightarrow> 'w DomainAuthComponent \<Rightarrow> 'w uc_handler" where
  "clientLoginAuthenticate ev c envelope s =
     (case pb_ClientLoginAuthenticateRequest (ev_codec ev) (en_Payload envelope) of
        Inl _ \<Rightarrow> Some (Inl (NewError ''invalid client login authentication request''), s)
      | Inr loginRequest \<Rightarrow>
          (case pb_LoginRequest (ev_codec ev) loginRequest of
             Inl _ \<Rightarrow> Some (Inl (NewError ''invalid client login request''), s)
           | Inr login \<Rightarrow>
               if TrimSpace (li_InstallId login) = '''' then Some (Inl (NewError ''install_id is required''), s)
               else withIdempotency ev c (li_IdempotencyKey login) ''client_login_authenticate'' (MLoginRequest login)
                      (answerAs MClientLoginAuthenticateResponse (pb_ClientLoginAuthenticateResponse (ev_codec ev)))
                      (core (clientLoginAuthenticateCore ev c login)) s))"

definition clientRefreshAuthenticate :: "'w uc_env \<Rightarrow> 'w DomainAuthComponent \<Rightarrow> 'w uc_handler" where
  "clientRefreshAuthenticate ev c envelope s =
     (case pb_ClientRefreshAuthenticateRequest (ev_codec ev) (en_Payload envelope) of
        Inl _ \<Rightarrow> Some (Inl (NewError ''invalid client refresh authentication request''), s)
      | Inr refreshRequest \<Rightarrow>
          (case pb_RefreshLoginRequest (ev_codec ev) refreshRequest of
             Inl _ \<Rightarrow> Some (Inl (NewError ''invalid client refresh login request''), s)
           | Inr refresh \<Rightarrow>
               if TrimSpace (fq_RefreshToken refresh) = '''' \<or> TrimSpace (fq_InstallId refresh) = ''''
               then Some (Inl (NewError ''refresh_token and install_id are required''), s)
               else withIdempotency ev c (fq_IdempotencyKey refresh) ''client_refresh_authenticate'' (MRefreshLoginRequest refresh)
                      (answerAs MClientRefreshAuthenticateResponse (pb_ClientRefreshAuthenticateResponse (ev_codec ev)))
                      (core (clientRefreshAuthenticateCore ev c refresh)) s))"

section \<open>What is recorded\<close>

text \<open>The response of a request is on record.\<close>

definition recorded :: "'w idem_call \<Rightarrow> Message \<Rightarrow> uc_view \<Rightarrow> bool" where
  "recorded q m v \<longleftrightarrow> (\<exists>x. uv_records v (ic_key q) = Some x \<and> IsCompleted (Some x) \<and> ir_Operation x = ic_operation q
     \<and> ir_RequestHash x = ic_hash q \<and> ic_un q (ir_Response x) = Inr m)"

definition reserved_by :: "'w idem_call \<Rightarrow> string \<Rightarrow> uc_view \<Rightarrow> bool" where
  "reserved_by q rid v \<longleftrightarrow> (\<exists>x. uv_records v (ic_key q) = Some x \<and> pending_by rid x \<and> ir_Operation x = ic_operation q
     \<and> ir_RequestHash x = ic_hash q)"

text \<open>The message of a result.\<close>

definition answers :: "MessageResult option result \<Rightarrow> Message \<Rightarrow> bool" where
  "answers r m \<longleftrightarrow> (\<exists>x. r = Inr (Some x) \<and> mr_Message x = Some m)"

lemma answers_simps [simp]:
  "\<not> answers (Inl e) m" "\<not> answers (Inr None) m" "answers (Inr (Some x)) m \<longleftrightarrow> mr_Message x = Some m"
  by (auto simp: answers_def)

text \<open>What an execution makes can be read back.\<close>

definition readable :: "'w uc_env \<Rightarrow> 'w idem_call \<Rightarrow> bool" where
  "readable ev q \<longleftrightarrow> (\<forall>w r w' m bs. ic_execute q w = (r, w') \<longrightarrow> answers r m \<longrightarrow> pb_Marshal (ev_codec ev) m = Inr bs \<longrightarrow> ic_un q bs = Inr m)"

lemma replay_recorded:
  assumes "uv_records v (ic_key q) = Some x" "IsCompleted (Some x)"
    and "answers (replayIdempotency (Some x) (ic_operation q) (ic_hash q) (ic_un q)) m"
  shows "recorded q m v"
  using assms by (auto simp: replayIdempotency_def recorded_def split: if_splits sum.splits)

lemma replay_answers:
  assumes "ir_Operation x = ic_operation q" "ir_RequestHash x = ic_hash q" "ic_un q (ir_Response x) = Inr m"
  shows "replayIdempotency (Some x) (ic_operation q) (ic_hash q) (ic_un q)
    = Inr (Some \<lparr>mr_MessageID = responseMessageID (ic_operation q), mr_Message = Some m\<rparr>)"
  using assms by (simp add: replayIdempotency_def)

section \<open>Returning\<close>

text \<open>
  A request whose context ends: \<open>P\<close> bounds the pauses that are left, and nothing else a wait does adds to them.
\<close>

definition patience ::
    "'w uc_env \<Rightarrow> 'w DomainAuthComponent \<Rightarrow> 'w IdempotencyRepository \<Rightarrow> 'w IdempotencyCoordinator \<Rightarrow> ('w \<Rightarrow> nat) \<Rightarrow> bool" where
  "patience ev c I K P \<longleftrightarrow> (\<forall>w. P (snd (dc_now c w)) \<le> P w) \<and> (\<forall>w. P (snd (ev_uuid ev w)) \<le> P w)
     \<and> (\<forall>k now w. P (snd (ipr_Find I k now w)) \<le> P w) \<and> (\<forall>r now w. P (snd (ipc_Reserve K r now w)) \<le> P w)
     \<and> (\<forall>w w'. ev_pause ev w = (None, w') \<longrightarrow> P w' < P w)"

lemma patienceD:
  assumes "patience ev c I K P"
  shows "dc_now c w = (now, w') \<Longrightarrow> P w' \<le> P w" "ev_uuid ev w = (u, w') \<Longrightarrow> P w' \<le> P w"
    "ipr_Find I k now w = (x, w') \<Longrightarrow> P w' \<le> P w" "ipc_Reserve K r now w = (res, w') \<Longrightarrow> P w' \<le> P w"
    "ev_pause ev w = (None, w') \<Longrightarrow> P w' < P w"
  using assms unfolding patience_def by (metis snd_conv)+

lemma lookAgain_patience:
  assumes "patience ev c I K P" "lookAgain I q now d w = (out, w')"
  shows "P w' \<le> P w"
proof -
  obtain x w1 where 1: "ipr_Find I (ic_key q) now w = (x, w1)" by fastforce
  have "w' = w1" using assms(2) 1 by (auto simp: lookAgain_def split: sum.splits if_splits)
  then show ?thesis using patienceD(3) [OF assms(1) 1] by simp
qed

lemma waitRound_patience:
  assumes P: "patience ev c I K P" and c: "waitRound ev c I K q d w = (Inr d', w')"
  shows "P w' \<le> P w"
proof -
  obtain now w0 where 0: "dc_now c w = (now, w0)" by fastforce
  note k0 = patienceD(1) [OF P 0]
  show ?thesis
  proof (cases "d < now")
    case False
    then have "lookAgain I q now d w0 = (Inr d', w')" using c 0 by (simp add: waitRound_def)
    from lookAgain_patience [OF P this] show ?thesis using k0 by simp
  next
    case True
    obtain u w1 where 1: "ev_uuid ev w0 = (u, w1)" by fastforce
    note k1 = patienceD(2) [OF P 1]
    obtain rid where rid: "u = Inr rid" using c 0 1 True by (cases u) (auto simp: waitRound_def)
    let ?p = "pendingRecord c (ic_key q) (ic_operation q) (ic_hash q) rid now"
    obtain cur owns e w2 where 2: "ipc_Reserve K ?p now w1 = ((cur, owns, e), w2)" by (metis prod.exhaust)
    note k2 = patienceD(4) [OF P 2]
    have "\<exists>l. lookAgain I q now l w2 = (Inr d', w')"
      using c 0 1 2 True rid by (auto simp: waitRound_def split: option.splits if_splits prod.splits)
    then show ?thesis using lookAgain_patience [OF P] k0 k1 k2 by (meson le_trans)
  qed
qed

lemma wait_returns:
  assumes "patience ev c I K P"
  shows "\<exists>y. waitForIdempotency ev c I K q d w = Some y"
proof (induction "P w" arbitrary: d w rule: less_induct)
  case less
  obtain out w1 where 1: "waitRound ev c I K q d w = (out, w1)" by fastforce
  obtain pe w2 where 2: "ev_pause ev w1 = (pe, w2)" by fastforce
  show ?case
  proof (cases "\<exists>d'. out = Inr d' \<and> pe = None")
    case True
    then obtain d' where d': "out = Inr d'" "pe = None" by blast
    have "P w2 < P w" using patienceD(5) [OF assms] 2 waitRound_patience [OF assms] 1 d' by fastforce
    then show ?thesis using less [of w2 d'] 1 2 d' by (simp add: waitForIdempotency.simps [of _ _ _ _ _ d w])
  next
    case False
    then show ?thesis using 1 2 by (auto simp: waitForIdempotency.simps [of _ _ _ _ _ d w] split: sum.splits option.splits)
  qed
qed

lemma idempotentCall_returns:
  assumes "\<And>K. dc_coordinator c = Some K \<Longrightarrow> patience ev c I K P"
  shows "\<exists>y. idempotentCall ev c I q w = Some y"
proof -
  have "\<exists>y. waitForIdempotency ev c I K q d w1 = Some y" if "dc_coordinator c = Some K" for K d w1
    by (rule wait_returns [OF assms [OF that]])
  then show ?thesis
    by (auto simp: idempotentCall_def reserveAndExecute_def Let_def split: prod.splits sum.splits option.splits)
qed

text \<open>The lock of a key that no other request holds is taken at once.\<close>

lemma lock_free:
  assumes "acquireIdempotencyLock k t = (p, t1)" "case lt_map t k of None \<Rightarrow> True | Some p \<Rightarrow> \<not> le_mu (lt_heap t p)"
  shows "lockMutex p t1 \<noteq> None"
  using assms by (auto simp: acquireIdempotencyLock_def lockMutex_def setEntry_def Let_def split: option.splits)

context auth_store
begin

abbreviation repo :: "'w IdempotencyRepository" where
  "repo \<equiv> IdempotencyRepository.truncate IC"

lemma record_repo_ops [simp]: "ipr_Find repo = ipr_Find IC" "ipr_Create repo = ipr_Create IC"
  by (simp_all add: IdempotencyRepository.truncate_def)

text \<open>An execution that leaves the records alone.\<close>

definition record_free :: "'w execution \<Rightarrow> bool" where
  "record_free f \<longleftrightarrow> (\<forall>w r w'. invar w \<longrightarrow> f w = (r, w') \<longrightarrow> invar w' \<and> uv_records (abs w') = uv_records (abs w))"

lemma record_freeD: "record_free f \<Longrightarrow> invar w \<Longrightarrow> f w = (r, w') \<Longrightarrow> invar w' \<and> uv_records (abs w') = uv_records (abs w)"
  by (simp add: record_free_def)

lemma renewLoop_ok:
  "invar w \<Longrightarrow> reserved_by q rid (abs w) \<Longrightarrow> renewLoop c IC (ic_key q) rid ticks w = (e, w') \<Longrightarrow>
   invar w' \<and> reserved_by q rid (abs w')"
proof (induction ticks arbitrary: w)
  case (Cons now ticks)
  obtain e1 w1 where 1: "ipc_Renew IC (ic_key q) rid (now + dc_idempotencyLease c) now w = (e1, w1)" by fastforce
  note R = record_renew [OF Cons.prems(1) 1]
  have k: "invar w1 \<and> reserved_by q rid (abs w1)"
    using R Cons.prems(2) by (cases e1) (auto simp: reserved_by_def pending_by_def)
  show ?case
  proof (cases e1)
    case None
    then show ?thesis using Cons.IH [of w1] k Cons.prems(3) 1 by simp
  next
    case (Some er)
    then show ?thesis using k Cons.prems(3) 1 by simp
  qed
qed simp

lemma renew_ok:
  assumes "invar w" "reserved_by q rid (abs w)" "renewIdempotencyLease ev c IC (ic_key q) rid w = (e, w')"
  shows "invar w' \<and> reserved_by q rid (abs w')"
proof -
  obtain ts w1 where 1: "ev_ticks ev w = (ts, w1)" by fastforce
  have "invar w1" "reserved_by q rid (abs w1)" using ticks_keeps [OF assms(1) 1] assms(2) by simp_all
  then show ?thesis using assms 1 renewLoop_ok [of w1 q rid c ts e w'] by (auto simp: renewIdempotencyLease_def Let_def split: if_splits)
qed

lemma executeReserved_ok:
  assumes w: "invar w" and res: "reserved_by q rid (abs w)" and rf: "record_free (ic_execute q)" and rd: "readable ev q"
    and c: "executeReserved ev (comp TTL IT) IC (ic_key q) rid (ic_execute q) w = (r, w')"
  shows "invar w' \<and> (answers r m \<longrightarrow> recorded q m (abs w'))"
proof -
  obtain le w1 where 1: "renewIdempotencyLease ev (comp TTL IT) IC (ic_key q) rid w = (le, w1)" by fastforce
  note k1 = renew_ok [OF w res 1]
  obtain x w2 where 2: "ic_execute q w1 = (x, w2)" by fastforce
  have k2: "invar w2" "reserved_by q rid (abs w2)"
    using record_freeD [OF rf conjunct1 [OF k1] 2] k1 by (simp_all add: reserved_by_def)
  obtain e w3 where 3: "ipc_Release IC (ic_key q) rid w2 = (e, w3)" by fastforce
  have k3: "invar w3" using record_release [OF k2(1) 3] by simp
  show ?thesis
  proof (cases "\<exists>y m bs. x = Inr (Some y) \<and> le = None \<and> mr_Message y = Some m \<and> pb_Marshal (ev_codec ev) m = Inr bs")
    case True
    then obtain y m' bs where y: "x = Inr (Some y)" "le = None" "mr_Message y = Some m'" "pb_Marshal (ev_codec ev) m' = Inr bs" by blast
    obtain n w4 where 4: "clock w2 = (n, w4)" by fastforce
    have k4: "invar w4" "reserved_by q rid (abs w4)" using clock_keeps [OF k2(1) 4] k2(2) by simp_all
    obtain e5 w5 where 5: "ipc_Complete IC (ic_key q) rid bs n w4 = (e5, w5)" by fastforce
    note k5 = record_complete [OF k4(1) 5]
    have un: "ic_un q bs = Inr m'" using rd 2 y unfolding readable_def by (metis answers_simps(3))
    have out: "w' = w5" "e5 = None \<Longrightarrow> r = Inr (Some y)" "e5 \<noteq> None \<Longrightarrow> isl r"
      using c 1 2 y 4 5 by (auto simp: executeReserved_def Let_def split: option.splits)
    show ?thesis
    proof (cases e5)
      case None
      then have "recorded q m' (abs w5)"
        using k5 k4(2) un by (auto simp: recorded_def reserved_by_def completed_def IsCompleted_def)
      then show ?thesis using None k5 out y(3) by auto
    next
      case (Some er)
      then show ?thesis using k5 out(1,3) by (cases r) auto
    qed
  next
    case False
    then have "w' = w3 \<and> \<not> answers r m"
      using c 1 2 3 by (auto simp: executeReserved_def Let_def split: sum.splits option.splits)
    then show ?thesis using k3 by simp
  qed
qed

lemma reserved_pending:
  "ir_State (pendingRecord c k op h rid now) = IdempotencyStatePending" "ir_Key (pendingRecord c k op h rid now) = k"
  "ir_Operation (pendingRecord c k op h rid now) = op" "ir_RequestHash (pendingRecord c k op h rid now) = h"
  "ir_ReservationID (pendingRecord c k op h rid now) = rid"
  by (simp_all add: pendingRecord_def)

lemma reserve_ok:
  assumes w: "invar w" and c: "ipc_Reserve IC (pendingRecord c (ic_key q) (ic_operation q) (ic_hash q) rid now) now w = ((cur, owns, e), w')"
  shows "invar w'" "owns \<Longrightarrow> e = None \<and> reserved_by q rid (abs w')"
    "\<not> owns \<Longrightarrow> e = None \<Longrightarrow> abs w' = abs w \<and> (\<exists>x. cur = Some x \<and> uv_records (abs w) (ic_key q) = Some x)"
proof -
  note R = record_reserve [OF w c reserved_pending(1)]
  show "invar w'" using R by simp
  show "e = None \<and> reserved_by q rid (abs w')" if "owns"
    using R that by (auto simp: reserves_def reserved_pending granted_def reserved_by_def)
  show "abs w' = abs w \<and> (\<exists>x. cur = Some x \<and> uv_records (abs w) (ic_key q) = Some x)" if "\<not> owns" "e = None"
    using R that by (auto simp: reserves_def reserved_pending)
qed

lemma lookAgain_ok:
  assumes w: "invar w" and c: "lookAgain repo q now d w = (out, w')"
  shows "invar w' \<and> abs w' = abs w \<and> (\<forall>r m. out = Inl r \<longrightarrow> answers r m \<longrightarrow> recorded q m (abs w'))"
proof -
  obtain r1 w1 where 1: "ipr_Find IC (ic_key q) now w = (r1, w1)" by fastforce
  note F = record_find [OF w 1]
  show ?thesis using c 1 F replay_recorded by (cases r1) (auto simp: lookAgain_def split: if_splits)
qed

lemma waitRound_ok:
  assumes w: "invar w" and rf: "record_free (ic_execute q)" and rd: "readable ev q"
    and c: "waitRound ev (comp TTL IT) repo IC q d w = (out, w')"
  shows "invar w' \<and> (\<forall>r m. out = Inl r \<longrightarrow> answers r m \<longrightarrow> recorded q m (abs w'))"
proof -
  obtain now w0 where 0: "clock w = (now, w0)" by fastforce
  note k0 = clock_keeps [OF w 0]
  show ?thesis
  proof (cases "d < now")
    case False
    then have "lookAgain repo q now d w0 = (out, w')" using c 0 by (simp add: waitRound_def)
    from lookAgain_ok [OF conjunct1 [OF k0] this] show ?thesis by blast
  next
    case True
    obtain u w1 where 1: "ev_uuid ev w0 = (u, w1)" by fastforce
    note k1 = uuid_keeps [OF conjunct1 [OF k0] 1]
    show ?thesis
    proof (cases u)
      case (Inl e)
      then show ?thesis using c 0 1 True k1 by (auto simp: waitRound_def)
    next
      case (Inr rid)
      let ?p = "pendingRecord (comp TTL IT) (ic_key q) (ic_operation q) (ic_hash q) rid now"
      obtain cur owns e w2 where 2: "ipc_Reserve IC ?p now w1 = ((cur, owns, e), w2)" by (metis prod.exhaust)
      note R = reserve_ok [OF conjunct1 [OF k1] 2]
      show ?thesis
      proof (cases e)
        case (Some er)
        then show ?thesis using c 0 1 2 True Inr R(1) by (auto simp: waitRound_def)
      next
        case None
        show ?thesis
        proof (cases owns)
          case ow: True
          obtain r3 w3 where 3: "executeReserved ev (comp TTL IT) IC (ic_key q) rid (ic_execute q) w2 = (r3, w3)" by fastforce
          have "out = Inl r3" "w' = w3" using c 0 1 2 3 True Inr None ow by (auto simp: waitRound_def)
          then show ?thesis using executeReserved_ok [OF R(1) _ rf rd 3] R(2) ow by simp
        next
          case ow: False
          obtain x where x: "cur = Some x" "uv_records (abs w1) (ic_key q) = Some x" "abs w2 = abs w1" using R(3) ow None by blast
          show ?thesis
          proof (cases "IsCompleted (Some x)")
            case cp: True
            then have "out = Inl (replayIdempotency (Some x) (ic_operation q) (ic_hash q) (ic_un q))" "w' = w2"
              using c 0 1 2 True Inr None ow x by (auto simp: waitRound_def)
            then show ?thesis using replay_recorded [of "abs w2" q x] x cp R(1) by auto
          next
            case cp: False
            then have "lookAgain repo q now (ir_LeaseUntil x) w2 = (out, w')"
              using c 0 1 2 True Inr None ow x by (auto simp: waitRound_def)
            from lookAgain_ok [OF R(1) this] show ?thesis by blast
          qed
        qed
      qed
    qed
  qed
qed

lemma wait_ok:
  assumes "waitForIdempotency ev (comp TTL IT) repo IC q d w = Some (r, w')" "invar w" "record_free (ic_execute q)" "readable ev q"
  shows "invar w' \<and> (\<forall>m. answers r m \<longrightarrow> recorded q m (abs w'))"
proof -
  let ?P = "\<lambda>e c I K q' d w y. e = ev \<longrightarrow> c = comp TTL IT \<longrightarrow> I = repo \<longrightarrow> K = IC \<longrightarrow> q' = q \<longrightarrow> invar w \<longrightarrow>
      invar (snd y) \<and> (\<forall>m. answers (fst y) m \<longrightarrow> recorded q m (abs (snd y)))"
  have "?P ev (comp TTL IT) repo IC q d w (r, w')"
  proof (rule waitForIdempotency.raw_induct [where P = ?P, OF _ assms(1)], intro impI)
    fix wait e c I K q' d w y
    assume IH: "\<And>e c I K q' d w y. wait e c I K q' d w = Some y \<Longrightarrow> ?P e c I K q' d w y"
      and args: "e = ev" "c = comp TTL IT" "I = repo" "K = IC" "q' = q" and w: "invar w"
      and c: "(case waitRound e c I K q' d w of (Inl r, w1) \<Rightarrow> Some (r, w1)
        | (Inr deadline', w1) \<Rightarrow> (case ev_pause e w1 of (None, w2) \<Rightarrow> wait e c I K q' deadline' w2 | (Some e, w2) \<Rightarrow> Some (Inl e, w2))) = Some y"
    obtain out w1 where 1: "waitRound ev (comp TTL IT) repo IC q d w = (out, w1)" by fastforce
    note R = waitRound_ok [OF w assms(3,4) 1]
    obtain pe w2 where 2: "ev_pause ev w1 = (pe, w2)" by fastforce
    note P = pause_keeps [OF conjunct1 [OF R] 2]
    show "invar (snd y) \<and> (\<forall>m. answers (fst y) m \<longrightarrow> recorded q m (abs (snd y)))"
    proof (cases out)
      case (Inl r)
      then show ?thesis using c 1 R args by auto
    next
      case (Inr d')
      then show ?thesis using c 1 2 P args IH [of ev "comp TTL IT" repo IC q d' w2 y] by (cases pe) auto
    qed
  qed
  then show ?thesis using assms(2) by simp
qed

section \<open>A call and its repetition\<close>

lemma idempotentCall_ok:
  assumes w: "invar w" and rf: "record_free (ic_execute q)" and rd: "readable ev q"
    and c: "idempotentCall ev (comp TTL IT) repo q w = Some (r, w')" and m: "answers r m"
  shows "invar w' \<and> recorded q m (abs w')"
proof -
  obtain now w0 where 0: "clock w = (now, w0)" by fastforce
  note k0 = clock_keeps [OF w 0]
  obtain r1 w1 where 1: "ipr_Find IC (ic_key q) now w0 = (r1, w1)" by fastforce
  note F = record_find [OF conjunct1 [OF k0] 1]
  show ?thesis
  proof (cases r1)
    case (Inr x)
    show ?thesis
    proof (cases "IsCompleted (Some x)")
      case True
      then have "r = replayIdempotency (Some x) (ic_operation q) (ic_hash q) (ic_un q)" "w' = w1"
        using c 0 1 Inr by (simp_all add: idempotentCall_def)
      then show ?thesis using replay_recorded [of "abs w1" q x m] F Inr True m by simp
    next
      case False
      then have "waitForIdempotency ev (comp TTL IT) repo IC q (ir_LeaseUntil x) w1 = Some (r, w')"
        using c 0 1 Inr m by (auto simp: idempotentCall_def split: if_splits)
      from wait_ok [OF this _ rf rd] show ?thesis using F m by blast
    qed
  next
    case (Inl e)
    then have call: "reserveAndExecute ev (comp TTL IT) repo IC q now w1 = Some (r, w')"
      using c 0 1 m by (auto simp: idempotentCall_def split: if_splits)
    obtain u w2 where 2: "ev_uuid ev w1 = (u, w2)" by fastforce
    note k2 = uuid_keeps [OF conjunct1 [OF F] 2]
    obtain rid where rid: "u = Inr rid" using call 2 m by (cases u) (auto simp: reserveAndExecute_def)
    let ?p = "pendingRecord (comp TTL IT) (ic_key q) (ic_operation q) (ic_hash q) rid now"
    obtain cur owns er w3 where 3: "ipc_Reserve IC ?p now w2 = ((cur, owns, er), w3)" by (metis prod.exhaust)
    note R = reserve_ok [OF conjunct1 [OF k2] 3]
    have er: "er = None" using call 2 3 rid m by (cases er) (auto simp: reserveAndExecute_def)
    show ?thesis
    proof (cases owns)
      case True
      then have "executeReserved ev (comp TTL IT) IC (ic_key q) rid (ic_execute q) w3 = (r, w')"
        using call 2 3 rid er by (simp add: reserveAndExecute_def)
      from executeReserved_ok [OF R(1) _ rf rd this] show ?thesis using R(2) True m by blast
    next
      case False
      then obtain x where x: "cur = Some x" "uv_records (abs w3) (ic_key q) = Some x" using R(3) er by auto
      show ?thesis
      proof (cases "IsCompleted cur")
        case True
        then have "r = replayIdempotency (Some x) (ic_operation q) (ic_hash q) (ic_un q)" "w' = w3"
          using call 2 3 rid er False x by (simp_all add: reserveAndExecute_def)
        then show ?thesis using replay_recorded [of "abs w3" q x m] x True R(1) m by simp
      next
        case nc: False
        then have "waitForIdempotency ev (comp TTL IT) repo IC q (ir_LeaseUntil ?p) w3 = Some (r, w')"
          using call 2 3 rid er False by (simp add: reserveAndExecute_def)
        from wait_ok [OF this R(1) rf rd] show ?thesis using m by blast
      qed
    qed
  qed
qed

lemma idempotentCall_replay:
  assumes w: "invar w" and x: "uv_records (abs w) (ic_key q) = Some x" "IsCompleted (Some x)"
    and live: "bsonTime (fst (clock w)) < ir_ExpiresAt x"
  obtains r w' where "idempotentCall ev (comp TTL IT) repo q w = Some (r, w')" "invar w'" "abs w' = abs w"
    "isl r \<or> r = replayIdempotency (Some x) (ic_operation q) (ic_hash q) (ic_un q)"
proof -
  obtain now w0 where 0: "clock w = (now, w0)" by fastforce
  note k0 = clock_keeps [OF w 0]
  obtain r1 w1 where 1: "ipr_Find IC (ic_key q) now w0 = (r1, w1)" by fastforce
  note F = record_find [OF conjunct1 [OF k0] 1]
  show thesis
  proof (cases r1)
    case (Inr y)
    then have "y = x" using F k0 x by simp
    then have "idempotentCall ev (comp TTL IT) repo q w = Some (replayIdempotency (Some x) (ic_operation q) (ic_hash q) (ic_un q), w1)"
      using 0 1 Inr x by (simp add: idempotentCall_def)
    then show thesis using that F k0 by simp
  next
    case (Inl e)
    then have "\<not> errors_is e ErrIdempotencyNotFound" using F k0 x live 0 by auto
    then have "idempotentCall ev (comp TTL IT) repo q w = Some (Inl (Wrapf ''find idempotency record: '' e), w1)"
      using 0 1 Inl by (simp add: idempotentCall_def)
    then show thesis using that F k0 by simp
  qed
qed

section \<open>The cores leave the records alone\<close>

lemma create_free:
  assumes "invar w" "createAccountAndToken ev (comp TTL IT) pv sb pw inst w = (r, w')"
  shows "invar w' \<and> uv_records (abs w') = uv_records (abs w)"
  using create_ok [OF assms] by (auto simp: registers_def split: sum.splits prod.splits)

lemma issue_free:
  assumes "invar w" "issueToken ev (comp TTL IT) acc inst w = (r, w')"
  shows "invar w' \<and> uv_records (abs w') = uv_records (abs w)"
  using issueToken_ok [OF assms] by (auto simp: adds_token_def split: sum.splits prod.splits)

lemma find_free:
  assumes "invar w" "inr_Find IR pv sb w = (r, w')"
  shows "invar w' \<and> uv_records (abs w') = uv_records (abs w)"
  using identity_find [OF assms] by simp

lemma guest_free:
  assumes w: "invar w" and c: "guestAuthenticateCore ev (comp TTL IT) request w = (r, w')"
  shows "invar w' \<and> uv_records (abs w') = uv_records (abs w)"
proof -
  let ?i = "TrimSpace (gq_InstallId request)"
  obtain r1 w1 where 1: "inr_Find IR AuthProviderGuest ?i w = (r1, w1)" by fastforce
  note k1 = find_free [OF w 1]
  obtain r2 w2 where 2: "createAccountAndToken ev (comp TTL IT) AuthProviderGuest ?i '''' ?i w1 = (r2, w2)" by fastforce
  note k2 = create_free [OF conjunct1 [OF k1] 2]
  obtain r3 w3 where 3: "inr_Find IR AuthProviderGuest ?i w2 = (r3, w3)" by fastforce
  note k3 = find_free [OF conjunct1 [OF k2] 3]
  have last: "w' = w2 \<or> (\<exists>v a x. v \<in> {w1, w3} \<and> (w' = v \<or> issueToken ev (comp TTL IT) a ?i v = (x, w')))"
    using c 1 2 3 by (auto simp: guestAuthenticateCore_def Let_def split: sum.splits prod.splits if_splits)
  then show ?thesis
  proof (elim disjE exE conjE)
    fix v a x
    assume v: "v \<in> {w1, w3}" and i: "issueToken ev (comp TTL IT) a ?i v = (x, w')"
    have "invar v \<and> uv_records (abs v) = uv_records (abs w)" using v k1 k2 k3 by auto
    then show ?thesis using issue_free [OF _ i] by simp
  qed (use k1 k2 k3 in auto)
qed

lemma password_free:
  assumes w: "invar w" and c: "passwordAuthenticateCore ev (comp TTL IT) request w = (r, w')"
  shows "invar w' \<and> uv_records (abs w') = uv_records (abs w)"
proof -
  let ?u = "TrimSpace (wq_Username request)" and ?i = "TrimSpace (wq_InstallId request)"
  obtain r1 w1 where 1: "inr_Find IR AuthProviderPassword ?u w = (r1, w1)" by fastforce
  note k1 = find_free [OF w 1]
  obtain r2 w2 where 2: "createAccountAndToken ev (comp TTL IT) AuthProviderPassword ?u (wq_Password request) ?i w1 = (r2, w2)" by fastforce
  note k2 = create_free [OF conjunct1 [OF k1] 2]
  obtain r3 w3 where 3: "inr_Find IR AuthProviderPassword ?u w2 = (r3, w3)" by fastforce
  note k3 = find_free [OF conjunct1 [OF k2] 3]
  have last: "w' = w \<or> w' = w2 \<or> (\<exists>v a x. v \<in> {w1, w3} \<and> (w' = v \<or> issueToken ev (comp TTL IT) a ?i v = (x, w')))"
    using c 1 2 3 by (auto simp: passwordAuthenticateCore_def Let_def split: sum.splits prod.splits if_splits)
  then show ?thesis
  proof (elim disjE exE conjE)
    fix v a x
    assume v: "v \<in> {w1, w3}" and i: "issueToken ev (comp TTL IT) a ?i v = (x, w')"
    have "invar v \<and> uv_records (abs v) = uv_records (abs w)" using v k1 k2 k3 by auto
    then show ?thesis using issue_free [OF _ i] by simp
  qed (use w k1 k2 k3 in auto)
qed

lemma refresh_free:
  assumes "invar w" "refreshAuthenticateCore ev (comp TTL IT) request w = (r, w')"
  shows "invar w' \<and> uv_records (abs w') = uv_records (abs w)"
  using refresh_ok [OF assms] by (auto simp: rotates_def rotated_def split: sum.splits)

lemma revoke_free:
  assumes "invar w" "revokeRefreshTokenCore ev (comp TTL IT) request w = (r, w')"
  shows "invar w' \<and> uv_records (abs w') = uv_records (abs w)"
  using revoke_ok [OF assms] by (auto split: sum.splits)

lemma core_free:
  assumes "\<And>w r w'. invar w \<Longrightarrow> f w = (r, w') \<Longrightarrow> invar w' \<and> uv_records (abs w') = uv_records (abs w)"
  shows "record_free (core f)"
  unfolding record_free_def
proof (intro allI impI)
  fix w r w'
  assume "invar w" "core f w = (r, w')"
  moreover obtain x w1 where "f w = (x, w1)" by fastforce
  ultimately show "invar w' \<and> uv_records (abs w') = uv_records (abs w)"
    using assms [of w x w1] by (auto simp: core_def split: sum.splits)
qed

end

end
