(* ===== verification/UC_Records.thy ===== *)
theory UC_Records
  imports UC_Mongo UC_Idempotency
begin

text \<open>
  The repository of idempotency records (\<^verbatim>\<open>src/services/usercenter/repository/mongo/idempotency_repository.go\<close>) and the
  interpretation of the user center's contract \<open>auth_store\<close> on the repositories over a document database.  A
  missing \<^verbatim>\<open>lease_until\<close> is the zero time, which no \<^verbatim>\<open>$lte\<close> matches; a missing \<^verbatim>\<open>reservation_id\<close> is the empty
  string, which no filter matches.
\<close>

section \<open>Filters and updates\<close>

definition recordFilter :: "string \<Rightarrow> gotime \<Rightarrow> idempotencyDocument \<Rightarrow> bool" where
  "recordFilter key now d \<longleftrightarrow> ird_Key d = key \<and> bsonTime now < ird_ExpiresAt d"

definition leaseLapsed :: "gotime \<Rightarrow> idempotencyDocument \<Rightarrow> bool" where
  "leaseLapsed now d \<longleftrightarrow> ird_LeaseUntil d \<noteq> 0 \<and> ird_LeaseUntil d \<le> bsonTime now"

definition staleFilter :: "string \<Rightarrow> gotime \<Rightarrow> idempotencyDocument \<Rightarrow> bool" where
  "staleFilter key now d \<longleftrightarrow> ird_Key d = key
     \<and> (ird_ExpiresAt d \<le> bsonTime now \<or> ird_State d = IdempotencyStatePending \<and> leaseLapsed now d)"

definition pendingFilter :: "string \<Rightarrow> string \<Rightarrow> idempotencyDocument \<Rightarrow> bool" where
  "pendingFilter key reservationID d \<longleftrightarrow> ird_Key d = key \<and> ird_State d = IdempotencyStatePending
     \<and> ird_ReservationID d = reservationID \<and> reservationID \<noteq> ''''"

definition claimFilter :: "string \<Rightarrow> string \<Rightarrow> gotime \<Rightarrow> idempotencyDocument \<Rightarrow> bool" where
  "claimFilter key reservationID now d \<longleftrightarrow> pendingFilter key reservationID d \<and> leaseLapsed now d"

definition claimUpdate :: "string \<Rightarrow> gotime \<Rightarrow> idempotencyDocument \<Rightarrow> idempotencyDocument option" where
  "claimUpdate reservationID leaseUntil d = Some (d\<lparr>ird_ReservationID := reservationID, ird_LeaseUntil := leaseUntil\<rparr>)"

definition liveFilter :: "string \<Rightarrow> string \<Rightarrow> gotime \<Rightarrow> idempotencyDocument \<Rightarrow> bool" where
  "liveFilter key reservationID now d \<longleftrightarrow> pendingFilter key reservationID d \<and> bsonTime now < ird_ExpiresAt d"

definition completeUpdate :: "bytes \<Rightarrow> idempotencyDocument \<Rightarrow> idempotencyDocument option" where
  "completeUpdate response d = Some (d\<lparr>ird_State := IdempotencyStateCompleted, ird_Response := response, ird_LeaseUntil := 0\<rparr>)"

definition renewUpdate :: "gotime \<Rightarrow> idempotencyDocument \<Rightarrow> idempotencyDocument option" where
  "renewUpdate leaseUntil d = Some (d\<lparr>ird_LeaseUntil := leaseUntil\<rparr>)"

definition recoverFilter :: "gotime \<Rightarrow> idempotencyDocument \<Rightarrow> bool" where
  "recoverFilter now d \<longleftrightarrow> ird_State d = IdempotencyStatePending \<and> (leaseLapsed now d \<or> ird_ExpiresAt d \<le> bsonTime now)"

lemmas record_filters = recordFilter_def leaseLapsed_def staleFilter_def pendingFilter_def claimFilter_def liveFilter_def
  recoverFilter_def

lemmas record_updates = claimUpdate_def completeUpdate_def renewUpdate_def

section \<open>Operations\<close>

definition IdempotencyRepository_Find ::
    "(idempotencyDocument, 'w) Collection option \<Rightarrow> string \<Rightarrow> gotime \<Rightarrow> 'w \<Rightarrow> IdempotencyRecord result \<times> 'w" where
  "IdempotencyRepository_Find C key now w =
     (case C of None \<Rightarrow> (Inl (Sentinel ErrCollectionRequired), w) | Some c \<Rightarrow>
      if key = '''' then (Inl (Sentinel ErrInvalidIdempotency), w)
      else (case cl_FindOne c (recordFilter key now) None w of
              (Inl e, w1) \<Rightarrow> (if errors_is e ErrNoDocuments then (Inl (Sentinel ErrIdempotencyNotFound), w1)
                               else (Inl (Wrapf ''find idempotency record: '' e), w1))
            | (Inr document, w1) \<Rightarrow> (Inr (idempotencyDomainFromDocument document), w1)))"

definition IdempotencyRepository_Create ::
    "(idempotencyDocument, 'w) Collection option \<Rightarrow> ('w \<Rightarrow> gotime \<times> 'w) \<Rightarrow> IdempotencyRecord option \<Rightarrow> 'w action" where
  "IdempotencyRepository_Create C clock record w =
     (case C of None \<Rightarrow> (Some (Sentinel ErrCollectionRequired), w) | Some c \<Rightarrow>
      (case clock w of (now, w0) \<Rightarrow>
       (case idempotencyDocumentFromDomain now record of
          Inl e \<Rightarrow> (Some e, w0)
        | Inr document \<Rightarrow>
            (case cl_InsertOne c document w0 of
               (Some e, w1) \<Rightarrow> (Some (if IsDuplicateKeyError e then Sentinel ErrIdempotencyConflict
                                       else Wrapf ''create idempotency record: '' e), w1)
             | (None, w1) \<Rightarrow> (None, w1)))))"

text \<open>
  The part of \<open>Reserve\<close> that looks up the record in the way, removing it and inserting once more if it is stale;
  \<open>Inl\<close> where \<open>Reserve\<close> returns.
\<close>

definition currentRecord ::
    "(idempotencyDocument, 'w) Collection \<Rightarrow> IdempotencyRecord \<Rightarrow> idempotencyDocument \<Rightarrow> gotime \<Rightarrow> 'w \<Rightarrow>
     (reservation + IdempotencyRecord result) \<times> 'w" where
  "currentRecord c record document now w =
     (case IdempotencyRepository_Find (Some c) (ir_Key record) now w of
        (Inr current, w1) \<Rightarrow> (Inr (Inr current), w1)
      | (Inl err, w1) \<Rightarrow>
          if \<not> errors_is err ErrIdempotencyNotFound then (Inr (Inl err), w1)
          else (case cl_DeleteOne c (staleFilter (ir_Key record) now) w1 of
             (Inl deleteErr, w2) \<Rightarrow> (Inl (None, False, Some (Wrapf ''remove stale idempotency record: '' deleteErr)), w2)
           | (Inr deletedCount, w2) \<Rightarrow>
               if deletedCount = 1 then
                 (case cl_InsertOne c document w2 of
                    (None, w3) \<Rightarrow> (Inl (Some record, True, None), w3)
                  | (Some insertErr, w3) \<Rightarrow>
                      if \<not> IsDuplicateKeyError insertErr
                      then (Inl (None, False, Some (Wrapf ''reserve idempotency record after stale cleanup: '' insertErr)), w3)
                      else (case IdempotencyRepository_Find (Some c) (ir_Key record) now w3 of (r, w4) \<Rightarrow> (Inr r, w4)))
               else (Inr (Inl err), w2)))"

text \<open>The part that takes over a record whose lease has run out.\<close>

definition claimRecord ::
    "(idempotencyDocument, 'w) Collection \<Rightarrow> IdempotencyRecord \<Rightarrow> IdempotencyRecord \<Rightarrow> gotime \<Rightarrow> 'w \<Rightarrow> reservation \<times> 'w" where
  "claimRecord c record current now w =
     (if ir_Operation current \<noteq> ir_Operation record \<or> ir_RequestHash current \<noteq> ir_RequestHash record
      then ((Some current, False, Some (Sentinel ErrIdempotencyConflict)), w)
      else if IsCompleted (Some current) then ((Some current, False, None), w)
      else if now < ir_LeaseUntil current then ((Some current, False, None), w)
      else (case cl_FindOneAndUpdate c (claimFilter (ir_Key record) (ir_ReservationID current) now)
                   (claimUpdate (ir_ReservationID record) (ir_LeaseUntil record)) w of
         (Inr claimed, w1) \<Rightarrow> ((Some (idempotencyDomainFromDocument claimed), True, None), w1)
       | (Inl err, w1) \<Rightarrow>
           if errors_is err ErrNoDocuments then
             (case IdempotencyRepository_Find (Some c) (ir_Key record) now w1 of
                (Inl findErr, w2) \<Rightarrow> ((None, False, Some findErr), w2)
              | (Inr latest, w2) \<Rightarrow> ((Some latest, False, None), w2))
           else ((None, False, Some (Wrapf ''claim idempotency record: '' err)), w1)))"

definition IdempotencyRepository_Reserve ::
    "(idempotencyDocument, 'w) Collection option \<Rightarrow> ('w \<Rightarrow> gotime \<times> 'w) \<Rightarrow> IdempotencyRecord option \<Rightarrow> gotime \<Rightarrow>
     'w \<Rightarrow> reservation \<times> 'w" where
  "IdempotencyRepository_Reserve C clock record now w =
     (case C of None \<Rightarrow> ((None, False, Some (Sentinel ErrCollectionRequired)), w) | Some c \<Rightarrow>
      (case record of None \<Rightarrow> ((None, False, Some (Sentinel ErrInvalidIdempotency)), w) | Some r0 \<Rightarrow>
       let r1 = (if ir_State r0 = '''' then r0\<lparr>ir_State := IdempotencyStatePending\<rparr> else r0) in
       if ir_ReservationID r1 = '''' \<or> IsZero (ir_LeaseUntil r1) then ((None, False, Some (Sentinel ErrInvalidIdempotency)), w)
       else (case IdempotencyRecord_Validate (Some r1) now of
          Inl e \<Rightarrow> ((None, False, Some e), w)
        | Inr r \<Rightarrow>
            (case clock w of (now', w0) \<Rightarrow>
             (case idempotencyDocumentFromDomain now' (Some r) of
                Inl e \<Rightarrow> ((None, False, Some e), w0)
              | Inr document \<Rightarrow>
                  (case cl_InsertOne c document w0 of
                     (None, w1) \<Rightarrow> ((Some r, True, None), w1)
                   | (Some e, w1) \<Rightarrow>
                       if \<not> IsDuplicateKeyError e
                       then ((None, False, Some (Wrapf ''reserve idempotency record: '' e)), w1)
                       else (case currentRecord c r document now w1 of
                          (Inl res, w2) \<Rightarrow> (res, w2)
                        | (Inr (Inl err), w2) \<Rightarrow> ((None, False, Some err), w2)
                        | (Inr (Inr current), w2) \<Rightarrow> claimRecord c r current now w2)))))))"

definition IdempotencyRepository_Complete ::
    "(idempotencyDocument, 'w) Collection option \<Rightarrow> string \<Rightarrow> string \<Rightarrow> bytes \<Rightarrow> gotime \<Rightarrow> 'w action" where
  "IdempotencyRepository_Complete C key reservationID response now w =
     (case C of None \<Rightarrow> (Some (Sentinel ErrCollectionRequired), w) | Some c \<Rightarrow>
      (case cl_UpdateOne c (liveFilter key reservationID now) (completeUpdate response) w of
         (Inl e, w1) \<Rightarrow> (Some (Wrapf ''complete idempotency record: '' e), w1)
       | (Inr matched, w1) \<Rightarrow> if matched = 0 then (Some (Sentinel ErrIdempotencyConflict), w1) else (None, w1)))"

definition IdempotencyRepository_Release ::
    "(idempotencyDocument, 'w) Collection option \<Rightarrow> string \<Rightarrow> string \<Rightarrow> 'w action" where
  "IdempotencyRepository_Release C key reservationID w =
     (case C of None \<Rightarrow> (Some (Sentinel ErrCollectionRequired), w) | Some c \<Rightarrow>
      (case cl_DeleteOne c (pendingFilter key reservationID) w of
         (Inl e, w1) \<Rightarrow> (Some (Wrapf ''release idempotency record: '' e), w1)
       | (Inr _, w1) \<Rightarrow> (None, w1)))"

definition IdempotencyRepository_Renew ::
    "(idempotencyDocument, 'w) Collection option \<Rightarrow> string \<Rightarrow> string \<Rightarrow> gotime \<Rightarrow> gotime \<Rightarrow> 'w action" where
  "IdempotencyRepository_Renew C key reservationID leaseUntil now w =
     (case C of None \<Rightarrow> (Some (Sentinel ErrCollectionRequired), w) | Some c \<Rightarrow>
      if key = '''' \<or> reservationID = '''' \<or> \<not> now < leaseUntil then (Some (Sentinel ErrInvalidIdempotency), w)
      else (case cl_UpdateOne c (liveFilter key reservationID now) (renewUpdate leaseUntil) w of
         (Inl e, w1) \<Rightarrow> (Some (Wrapf ''renew idempotency lease: '' e), w1)
       | (Inr matched, w1) \<Rightarrow> if matched = 0 then (Some (Sentinel ErrIdempotencyLeaseLost), w1) else (None, w1)))"

definition RecoverExpired ::
    "(idempotencyDocument, 'w) Collection option \<Rightarrow> gotime \<Rightarrow> 'w \<Rightarrow> nat result \<times> 'w" where
  "RecoverExpired C now w =
     (case C of None \<Rightarrow> (Inl (Sentinel ErrCollectionRequired), w) | Some c \<Rightarrow>
      (case cl_DeleteMany c (recoverFilter now) w of
         (Inl e, w1) \<Rightarrow> (Inl (Wrapf ''recover expired idempotency records: '' e), w1)
       | (Inr deleted, w1) \<Rightarrow> (Inr deleted, w1)))"

definition NewIdempotencyRepository ::
    "(idempotencyDocument, 'w) Collection \<Rightarrow> ('w \<Rightarrow> gotime \<times> 'w) \<Rightarrow> 'w IdempotencyCoordinator" where
  "NewIdempotencyRepository C clock = \<lparr>ipr_EnsureIndexes = uc_ensureIndexes (Some C),
     ipr_Find = IdempotencyRepository_Find (Some C), ipr_Create = (\<lambda>r. IdempotencyRepository_Create (Some C) clock (Some r)),
     ipc_Reserve = (\<lambda>r. IdempotencyRepository_Reserve (Some C) clock (Some r)),
     ipc_Complete = IdempotencyRepository_Complete (Some C), ipc_Release = IdempotencyRepository_Release (Some C),
     ipc_Renew = IdempotencyRepository_Renew (Some C), ipc_RecoverExpired = RecoverExpired (Some C)\<rparr>"

section \<open>Laws\<close>

lemma uv_records_Some:
  assumes "uc_inv db"
  shows "uv_records (uc_abs db) k = Some x \<longleftrightarrow> (\<exists>d \<in> set (db_records db). ird_Key d = k \<and> idempotencyDomainFromDocument d = x)"
  unfolding uc_abs_fields by (rule index_by_Some [OF uc_inv_distinct(5) [OF assms]])

lemma domain_record_fields [simp]:
  "ir_Key (idempotencyDomainFromDocument d) = ird_Key d" "ir_Operation (idempotencyDomainFromDocument d) = ird_Operation d"
  "ir_RequestHash (idempotencyDomainFromDocument d) = ird_RequestHash d" "ir_State (idempotencyDomainFromDocument d) = ird_State d"
  "ir_ReservationID (idempotencyDomainFromDocument d) = ird_ReservationID d"
  "ir_LeaseUntil (idempotencyDomainFromDocument d) = ird_LeaseUntil d" "ir_ExpiresAt (idempotencyDomainFromDocument d) = ird_ExpiresAt d"
  by (simp_all add: idempotencyDomainFromDocument_def)

lemma stale_lapsed: "staleFilter k now d \<longleftrightarrow> ird_Key d = k \<and> lapsed now (idempotencyDomainFromDocument d)"
  by (auto simp: record_filters lapsed_def)

lemma record_found:
  assumes law: "finds C (records_place view)" and u: "uc_inv (view w)"
    and c: "IdempotencyRepository_Find (Some C) k now w = (res, w')"
  shows "view w' = view w"
    "res = Inr x \<Longrightarrow> uv_records (uc_abs (view w)) k = Some x \<and> bsonTime now < ir_ExpiresAt x"
    "res = Inl er \<Longrightarrow> errors_is er ErrIdempotencyNotFound \<Longrightarrow> uv_records (uc_abs (view w)) k = Some x \<Longrightarrow> \<not> bsonTime now < ir_ExpiresAt x"
proof -
  have "view w' = view w \<and> (case res of Inr x \<Rightarrow> uv_records (uc_abs (view w)) k = Some x \<and> bsonTime now < ir_ExpiresAt x
     | Inl er \<Rightarrow> errors_is er ErrIdempotencyNotFound \<longrightarrow> (\<forall>x. uv_records (uc_abs (view w)) k = Some x \<longrightarrow> \<not> bsonTime now < ir_ExpiresAt x))"
  proof (cases "k = ''''")
    case True
    then show ?thesis using c by (auto simp: IdempotencyRepository_Find_def)
  next
    case False
    obtain r1 where f: "cl_FindOne C (recordFilter k now) None w = (r1, w')"
      and r: "res = (case r1 of Inr d \<Rightarrow> Inr (idempotencyDomainFromDocument d)
        | Inl e \<Rightarrow> if errors_is e ErrNoDocuments then Inl (Sentinel ErrIdempotencyNotFound) else Inl (Wrapf ''find idempotency record: '' e))"
      using c False by (auto simp: IdempotencyRepository_Find_def split: prod.splits sum.splits if_splits)
    note F = find_doc [OF law f, simplified]
    show ?thesis
    proof (cases r1)
      case (Inr d)
      then show ?thesis using r F(1) F(2) [OF Inr] by (auto simp: uv_records_Some [OF u] recordFilter_def)
    next
      case (Inl e)
      then show ?thesis using r F(1) F(3,4) [OF Inl]
        by (auto simp: uv_records_Some [OF u] recordFilter_def split: if_splits dest: foreignD)
    qed
  qed
  then show "view w' = view w"
    "res = Inr x \<Longrightarrow> uv_records (uc_abs (view w)) k = Some x \<and> bsonTime now < ir_ExpiresAt x"
    "res = Inl er \<Longrightarrow> errors_is er ErrIdempotencyNotFound \<Longrightarrow> uv_records (uc_abs (view w)) k = Some x \<Longrightarrow> \<not> bsonTime now < ir_ExpiresAt x"
    by auto
qed

lemma record_document:
  assumes "idempotencyDocumentFromDomain now (Some r) = Inr d"
  shows "ird_Key d = ir_Key r" "idempotencyDomainFromDocument (encRecord d)
    = storedRecord (if ir_State r = '''' then r\<lparr>ir_State := IdempotencyStateCompleted\<rparr> else r)"
proof -
  have "idempotencyDomainFromDocument (encRecord d) = storedRecord (idempotencyDomainFromDocument d)"
    by (simp add: idempotencyDomainFromDocument_def encRecord_def storedRecord_def)
  then show "idempotencyDomainFromDocument (encRecord d)
    = storedRecord (if ir_State r = '''' then r\<lparr>ir_State := IdempotencyStateCompleted\<rparr> else r)"
    using record_roundtrip [OF assms] by simp
  show "ird_Key d = ir_Key r"
    using assms by (auto simp: idempotencyDocumentFromDomain_def IdempotencyRecord_Validate_def Let_def split: if_splits)
qed

lemma record_inserted:
  assumes law: "inserts C (records_place view)" and u: "uc_inv (view w)" and ins: "cl_InsertOne C d w = (None, w')"
  shows "uc_inv (view w') \<and> uv_records (uc_abs (view w)) (ird_Key d) = None
     \<and> uc_abs (view w') = put_record (ird_Key d) (Some (idempotencyDomainFromDocument (encRecord d))) (uc_abs (view w))"
proof -
  have dist: "distinct (map ird_Key (docs_of (records_place view) w))" using uc_inv_distinct(5) [OF u] by simp
  note I = insert_keyed [OF law uc_writable(4) _ dist ins, simplified]
  have "uc_inv (view w')" using I(1,2) u by (auto simp: uc_inv_def uc_unique_def uc_stored_def)
  then show ?thesis
    using I(1) I(3) [of idempotencyDomainFromDocument] I(4) [of idempotencyDomainFromDocument] by (simp add: uc_abs_fields uc_abs_put)
qed

lemma record_removed:
  assumes law: "deletes C (records_place view)" and u: "uc_inv (view w)" and f: "\<forall>d. f d \<longrightarrow> ird_Key d = k"
    and c: "cl_DeleteOne C f w = (res, w')"
  shows "res = Inr 1 \<Longrightarrow> uc_inv (view w') \<and> (\<exists>d. f d \<and> uv_records (uc_abs (view w)) k = Some (idempotencyDomainFromDocument d)
      \<and> uc_abs (view w') = put_record k None (uc_abs (view w)))"
    "res \<noteq> Inr 1 \<Longrightarrow> view w' = view w" "res = Inr 0 \<Longrightarrow> d \<in> set (db_records (view w)) \<Longrightarrow> \<not> f d"
proof -
  note L = deleteOne_cases [OF law c, simplified]
  have some: "uc_inv (view w') \<and> (\<exists>d. f d \<and> uv_records (uc_abs (view w)) k = Some (idempotencyDomainFromDocument d)
      \<and> uc_abs (view w') = put_record k None (uc_abs (view w)))"
    if rm: "removed f (db_records (view w)) ds'" and put: "view w' = (view w)\<lparr>db_records := ds'\<rparr>" for ds'
  proof -
    obtain as x bs where d: "db_records (view w) = as @ x # bs" "ds' = as @ bs" "f x" using rm by (auto simp: removed_def)
    note R = index_by_removed [OF uc_inv_distinct(5) [OF u] d(1)]
    have x: "uv_records (uc_abs (view w)) k = Some (idempotencyDomainFromDocument x)"
      using f d(3) by (auto simp: uv_records_Some [OF u] d(1))
    have k: "ird_Key x = k" using f d(3) by blast
    have "uc_inv (view w')" using u R(1) by (auto simp: put d(1,2) uc_inv_def uc_unique_def uc_stored_def)
    moreover have "uc_abs (view w') = put_record k None (uc_abs (view w))"
      using R(2) [of idempotencyDomainFromDocument] k by (simp add: put d(2) uc_abs_put uc_abs_fields)
    ultimately show ?thesis using d(3) x by blast
  qed
  show "uc_inv (view w') \<and> (\<exists>d. f d \<and> uv_records (uc_abs (view w)) k = Some (idempotencyDomainFromDocument d)
      \<and> uc_abs (view w') = put_record k None (uc_abs (view w)))" if "res = Inr 1"
    using L(1) [OF that] some by auto
  show "view w' = view w" if "res \<noteq> Inr 1" using L(1,2,4) that by (cases res) (auto simp: neq0_conv [symmetric] simp del: neq0_conv)
  show "\<not> f d" if "res = Inr 0" "d \<in> set (db_records (view w))" by (rule L(3) [OF that])
qed

text \<open>An update of the record under a key.\<close>

lemma record_swapped:
  assumes u: "uc_inv db" and k: "ird_Key x = k" and key: "ird_Key y = ird_Key x"
    and sw: "swapped f x (encRecord y) (db_records db) ds'" and put: "db' = db\<lparr>db_records := ds'\<rparr>"
  shows "uc_inv db'" "uv_records (uc_abs db) k = Some (idempotencyDomainFromDocument x)" "encRecord x = x"
    "uc_abs db' = put_record k (Some (idempotencyDomainFromDocument (encRecord y))) (uc_abs db)"
proof -
  let ?g = idempotencyDomainFromDocument
  have ek: "ird_Key (encRecord y) = ird_Key x" using key by simp
  note S = index_by_swapped [OF uc_inv_distinct(5) [OF u] sw ek]
  show "uv_records (uc_abs db) k = Some (?g x)" using S(5) [of ?g] k by (simp add: uc_abs_fields)
  show "encRecord x = x" by (rule uc_inv_stored(3) [OF u S(3)])
  show "uc_inv db'"
    using u S(1) swapped_set [OF sw] by (auto simp: put uc_inv_def uc_unique_def uc_stored_def)
  show "uc_abs db' = put_record k (Some (?g (encRecord y))) (uc_abs db)"
    using S(2) [of ?g] k by (simp add: put uc_abs_put uc_abs_fields)
qed

lemma records_updated:
  assumes law: "modifies C (records_place view)" and u: "uc_inv (view w)" and f: "\<And>d. f d \<Longrightarrow> ird_Key d = k"
    and up: "\<And>x y. up x = Some y \<Longrightarrow> ird_Key y = ird_Key x" and c: "cl_UpdateOne C f up w = (Inr n, w')" and n: "n \<noteq> 0"
  obtains x y where "up x = Some y" "f x" "encRecord x = x" "uc_inv (view w')"
    "uv_records (uc_abs (view w)) k = Some (idempotencyDomainFromDocument x)"
    "uc_abs (view w') = put_record k (Some (idempotencyDomainFromDocument (encRecord y))) (uc_abs (view w))"
proof -
  obtain x y ds' where x: "up x = Some y" "swapped f x (encRecord y) (db_records (view w)) ds'" "view w' = (view w)\<lparr>db_records := ds'\<rparr>"
    using updateOne_cases(3) [OF law c refl n] by auto
  have fx: "f x" using x(2) by (auto simp: swapped_def)
  note S = record_swapped [OF u f [OF fx] up [OF x(1)] x(2,3)]
  show thesis by (rule that [OF x(1) fx S(3,1,2,4)])
qed

lemma record_created:
  assumes law: "inserts C (records_place view)" and u: "uc_inv (view w)" and ck: "\<And>w. view (snd (clock w)) = view w"
    and c: "IdempotencyRepository_Create (Some C) clock (Some r) w = (e, w')"
  shows "uc_inv (view w') \<and>
      (case e of Some er \<Rightarrow> uc_abs (view w') = uc_abs (view w)
       | None \<Rightarrow> uv_records (uc_abs (view w)) (ir_Key r) = None \<and> uc_abs (view w') = put_record (ir_Key r)
           (Some (storedRecord (if ir_State r = '''' then r\<lparr>ir_State := IdempotencyStateCompleted\<rparr> else r))) (uc_abs (view w)))"
proof -
  obtain now w0 where 0: "clock w = (now, w0)" by fastforce
  have v0: "view w0 = view w" using ck [of w] 0 by simp
  show ?thesis
  proof (cases e)
    case (Some er)
    then have "view w' = view w0" using c 0 insert_refused(1) [OF law]
      by (auto simp: IdempotencyRepository_Create_def split: sum.splits prod.splits option.splits if_splits)
    then show ?thesis using u Some v0 by simp
  next
    case None
    obtain d where d: "idempotencyDocumentFromDomain now (Some r) = Inr d" and ins: "cl_InsertOne C d w0 = (None, w')"
      using c None 0 by (auto simp: IdempotencyRepository_Create_def split: sum.splits prod.splits option.splits if_splits)
    show ?thesis using record_inserted [OF law u [folded v0] ins] record_document [OF d] None by (simp add: v0)
  qed
qed

lemma current_found:
  assumes law: "inserts C (records_place view)" "finds C (records_place view)" "deletes C (records_place view)" and u: "uc_inv (view w)"
    and d: "idempotencyDocumentFromDomain now' (Some r) = Inr d" and r: "ir_State r = IdempotencyStatePending"
    and c: "currentRecord C r d now w = (out, w')"
  shows "uc_inv (view w') \<and> (case out of Inl res \<Rightarrow> reserves r now res (uc_abs (view w)) (uc_abs (view w'))
     | Inr (Inl e) \<Rightarrow> reserves r now (None, False, Some e) (uc_abs (view w)) (uc_abs (view w'))
     | Inr (Inr x) \<Rightarrow> view w' = view w \<and> uv_records (uc_abs (view w)) (ir_Key r) = Some x \<and> bsonTime now < ir_ExpiresAt x)"
proof -
  obtain r1 w1 where 1: "IdempotencyRepository_Find (Some C) (ir_Key r) now w = (r1, w1)" by fastforce
  note F = record_found [OF law(2) u 1]
  show ?thesis
  proof (cases "\<exists>e. r1 = Inl e \<and> errors_is e ErrIdempotencyNotFound")
    case False
    then show ?thesis using c 1 F(1) F(2) u by (cases r1) (auto simp: currentRecord_def reserves_def)
  next
    case True
    then obtain e where e: "r1 = Inl e" "errors_is e ErrIdempotencyNotFound" by blast
    obtain r2 w2 where 2: "cl_DeleteOne C (staleFilter (ir_Key r) now) w1 = (r2, w2)" by fastforce
    have u1: "uc_inv (view w1)" using u F(1) by simp
    have sk: "\<forall>d'. staleFilter (ir_Key r) now d' \<longrightarrow> ird_Key d' = ir_Key r" by (simp add: stale_lapsed)
    note D = record_removed [OF law(3) u1 sk 2]
    show ?thesis
    proof (cases "r2 = Inr 1")
      case False
      then have "view w2 = view w" using D(2) F(1) by simp
      then show ?thesis using c 1 e 2 False u by (cases r2) (auto simp: currentRecord_def reserves_def)
    next
      case del: True
      obtain x where x: "staleFilter (ir_Key r) now x" "uv_records (uc_abs (view w)) (ir_Key r) = Some (idempotencyDomainFromDocument x)"
        "uc_abs (view w2) = put_record (ir_Key r) None (uc_abs (view w))" and u2: "uc_inv (view w2)"
        using D(1) [OF del] by (auto simp: F(1))
      have vac: "vacant (ir_Key r) now (uc_abs (view w))" using x(1,2) by (simp add: vacant_def stale_lapsed)
      obtain r3 w3 where 3: "cl_InsertOne C d w2 = (r3, w3)" by fastforce
      show ?thesis
      proof (cases r3)
        case None
        have st: "idempotencyDomainFromDocument (encRecord d) = storedRecord r" "ird_Key d = ir_Key r"
          using record_document [OF d] r by (simp_all add: idempotency_states)
        have "granted r (storedRecord r)" using r by (simp add: granted_def pending_by_def storedRecord_def)
        moreover have "uc_inv (view w3) \<and> uc_abs (view w3) = put_record (ir_Key r) (Some (storedRecord r)) (uc_abs (view w))"
          using record_inserted [OF law(1) u2 3 [unfolded None]] st x(3) by simp
        moreover have "out = Inl (Some r, True, None)" "w' = w3" using c 1 e 2 del 3 None by (simp_all add: currentRecord_def)
        ultimately show ?thesis using vac by (auto simp: reserves_def)
      next
        case (Some ie)
        note R = insert_refused [OF law(1) 3 [unfolded Some], simplified]
        have "\<not> IsDuplicateKeyError ie"
        proof
          assume "IsDuplicateKeyError ie"
          then obtain y where "y \<in> set (db_records (view w2))" "ird_Key d = ird_Key y" using R(3) by blast
          then have "uv_records (uc_abs (view w2)) (ir_Key r) \<noteq> None"
            using record_document(1) [OF d] by (auto simp: uc_abs_fields index_by_None)
          then show False using x(3) by simp
        qed
        then have "isl out \<and> fst (snd (projl out)) = False \<and> snd (snd (projl out)) \<noteq> None" "w' = w3"
          using c 1 e 2 del 3 Some by (auto simp: currentRecord_def)
        then show ?thesis using vac x(3) R(1) u2 by (cases out) (auto simp: reserves_def)
      qed
    qed
  qed
qed



lemma claim_law:
  assumes law: "finds C (records_place view)" "modifies C (records_place view)" and u: "uc_inv (view w)"
    and x: "uv_records (uc_abs (view w)) (ir_Key r) = Some x" "bsonTime now < ir_ExpiresAt x"
    and c: "claimRecord C r x now w = (res, w')"
  shows "uc_inv (view w') \<and> reserves r now res (uc_abs (view w)) (uc_abs (view w'))"
proof (cases "ir_Operation x \<noteq> ir_Operation r \<or> ir_RequestHash x \<noteq> ir_RequestHash r \<or> IsCompleted (Some x) \<or> now < ir_LeaseUntil x")
  case True
  then show ?thesis using c u x by (auto simp: claimRecord_def reserves_def split: if_splits)
next
  case False
  let ?f = "claimFilter (ir_Key r) (ir_ReservationID x) now" and ?u = "claimUpdate (ir_ReservationID r) (ir_LeaseUntil r)"
  obtain r1 w1 where 1: "cl_FindOneAndUpdate C ?f ?u w = (r1, w1)" by fastforce
  note U = findUpdate_cases [OF law(2) 1, simplified]
  show ?thesis
  proof (cases r1)
    case (Inr d)
    obtain z y ds' where z: "?u z = Some y" "d = encRecord y" "swapped ?f z (encRecord y) (db_records (view w)) ds'"
      "view w1 = (view w)\<lparr>db_records := ds'\<rparr>" using U(1) [OF Inr] by blast
    have f: "?f z" using z(3) by (auto simp: swapped_def)
    have keys: "ird_Key z = ir_Key r" "ird_Key y = ird_Key z" using f z(1) by (auto simp: record_filters record_updates)
    note S = record_swapped [OF u keys z(3,4)]
    have zx: "idempotencyDomainFromDocument z = x" using S(2) x(1) by simp
    have "granted r (idempotencyDomainFromDocument (encRecord y))"
      using z(1) f False unfolding zx [symmetric] by (auto simp: granted_def pending_by_def record_filters record_updates encRecord_def)
    moreover have "vacant (ir_Key r) now (uc_abs (view w))"
      using f x(1) unfolding zx [symmetric] by (auto simp: vacant_def lapsed_def record_filters)
    moreover have "res = (Some (idempotencyDomainFromDocument d), True, None)" "w' = w1"
      using c False 1 Inr by (simp_all add: claimRecord_def)
    ultimately show ?thesis using S(1,4) by (auto simp: reserves_def)
  next
    case (Inl e)
    obtain r2 w2 where 2: "IdempotencyRepository_Find (Some C) (ir_Key r) now w1 = (r2, w2)" by fastforce
    have v1: "view w1 = view w" using U(2) [OF Inl] .
    note F = record_found [OF law(1) u [folded v1] 2]
    show ?thesis using c False 1 Inl 2 F(1) F(2) v1 u x(1)
      by (cases r2) (auto simp: claimRecord_def reserves_def split: if_splits)
  qed
qed

lemma reserve_law:
  assumes law: "inserts C (records_place view)" "finds C (records_place view)" "modifies C (records_place view)"
      "deletes C (records_place view)" and u: "uc_inv (view w)" and ck: "\<And>w. view (snd (clock w)) = view w"
    and r: "ir_State r = IdempotencyStatePending"
    and c: "IdempotencyRepository_Reserve (Some C) clock (Some r) now w = (res, w')"
  shows "uc_inv (view w') \<and> reserves r now res (uc_abs (view w)) (uc_abs (view w'))"
proof -
  obtain now' w0 where 0: "clock w = (now', w0)" by fastforce
  have v0: "view w0 = view w" using ck [of w] 0 by simp
  have u0: "uc_inv (view w0)" using u v0 by simp
  have st: "ir_State r \<noteq> ''''" using r by (simp add: idempotency_states)
  have val: "IdempotencyRecord_Validate (Some r) now = Inr r'  \<Longrightarrow> r' = r" for r'
    using st by (auto simp: IdempotencyRecord_Validate_def Let_def split: if_splits)
  have fail: ?thesis if "res = (None, False, Some e)" "view w' = view w" for e using that u by (simp add: reserves_def)
  show ?thesis
  proof (cases "ir_ReservationID r = '''' \<or> IsZero (ir_LeaseUntil r) \<or> isl (IdempotencyRecord_Validate (Some r) now)
      \<or> isl (idempotencyDocumentFromDomain now' (Some r))")
    case True
    then have "\<exists>e. res = (None, False, Some e) \<and> (w' = w \<or> w' = w0)"
      using c 0 st val by (auto simp: IdempotencyRepository_Reserve_def Let_def split: sum.splits if_splits)
    then show ?thesis using fail v0 by auto
  next
    case False
    then obtain d where d: "idempotencyDocumentFromDomain now' (Some r) = Inr d"
      by (cases "idempotencyDocumentFromDomain now' (Some r)") auto
    have v: "IdempotencyRecord_Validate (Some r) now = Inr r"
      using False val by (cases "IdempotencyRecord_Validate (Some r) now") auto
    note dd = record_document [OF d]
    obtain r1 w1 where 1: "cl_InsertOne C d w0 = (r1, w1)" by fastforce
    show ?thesis
    proof (cases r1)
      case None
      have "granted r (storedRecord r)" using r by (simp add: granted_def pending_by_def storedRecord_def)
      moreover have "res = (Some r, True, None)" "w' = w1"
        using c 0 st v d 1 None False by (simp_all add: IdempotencyRepository_Reserve_def)
      ultimately show ?thesis
        using record_inserted [OF law(1) u0 1 [unfolded None]] dd st by (auto simp: reserves_def v0 vacant_def)
    next
      case (Some e)
      have v1: "view w1 = view w" using insert_refused(1) [OF law(1) 1 [unfolded Some]] v0 by simp
      have u1: "uc_inv (view w1)" using u v1 by simp
      obtain out w2 where 2: "currentRecord C r d now w1 = (out, w2)" by fastforce
      note K = current_found [OF law(1,2,4) u1 d r 2, unfolded v1]
      have out: "(res, w') = (if \<not> IsDuplicateKeyError e then ((None, False, Some (Wrapf ''reserve idempotency record: '' e)), w1)
          else case out of Inl rs \<Rightarrow> (rs, w2) | Inr (Inl err) \<Rightarrow> ((None, False, Some err), w2)
          | Inr (Inr cur) \<Rightarrow> claimRecord C r cur now w2)"
        using c 0 st v d 1 Some False 2 by (simp add: IdempotencyRepository_Reserve_def cong: if_cong split: sum.splits)
      show ?thesis
      proof (cases "IsDuplicateKeyError e \<and> (\<exists>x. out = Inr (Inr x))")
        case True
        then obtain x where x: "out = Inr (Inr x)" by blast
        have v2: "view w2 = view w" using K x by simp
        have cl: "claimRecord C r x now w2 = (res, w')" using out True x by simp
        have "uv_records (uc_abs (view w2)) (ir_Key r) = Some x" "bsonTime now < ir_ExpiresAt x" using K x v2 by simp_all
        from claim_law [OF law(2,3) _ this cl] show ?thesis using u v2 by simp
      next
        case F: False
        then show ?thesis using out K fail v1 by (auto split: if_splits sum.splits)
      qed
    qed
  qed
qed

lemma complete_law:
  assumes law: "modifies C (records_place view)" and u: "uc_inv (view w)"
    and c: "IdempotencyRepository_Complete (Some C) k rid bs now w = (e, w')"
  shows "uc_inv (view w') \<and> (case e of Some er \<Rightarrow> uc_abs (view w') = uc_abs (view w)
     | None \<Rightarrow> (\<exists>x. uv_records (uc_abs (view w)) k = Some x \<and> pending_by rid x \<and> bsonTime now < ir_ExpiresAt x
         \<and> uc_abs (view w') = put_record k (Some (completed bs x)) (uc_abs (view w))))"
proof -
  obtain r1 where 1: "cl_UpdateOne C (liveFilter k rid now) (completeUpdate bs) w = (r1, w')"
    and e: "e = (case r1 of Inl er \<Rightarrow> Some (Wrapf ''complete idempotency record: '' er)
      | Inr m \<Rightarrow> if m = 0 then Some (Sentinel ErrIdempotencyConflict) else None)"
    using c by (auto simp: IdempotencyRepository_Complete_def split: prod.splits sum.splits if_splits)
  show ?thesis
  proof (cases "\<exists>n. r1 = Inr n \<and> n \<noteq> 0")
    case True
    then obtain n where n: "r1 = Inr n" "n \<noteq> 0" by blast
    obtain x y where x: "completeUpdate bs x = Some y" "liveFilter k rid now x" "encRecord x = x" "uc_inv (view w')"
      "uv_records (uc_abs (view w)) k = Some (idempotencyDomainFromDocument x)"
      "uc_abs (view w') = put_record k (Some (idempotencyDomainFromDocument (encRecord y))) (uc_abs (view w))"
      by (rule records_updated [OF law u _ _ 1 [unfolded n(1)] n(2)]) (auto simp: record_filters record_updates)
    have "idempotencyDomainFromDocument (encRecord y) = completed bs (idempotencyDomainFromDocument x)"
      using x(1) enc_fixed(3) [OF x(3)]
      by (auto simp: completeUpdate_def completed_def idempotencyDomainFromDocument_def encRecord_def bsonTime_def)
    then show ?thesis using e n x(2,4-6) by (auto simp: pending_by_def record_filters)
  next
    case False
    then have "view w' = view w" using updateOne_cases(1,4) [OF law 1, simplified] by (cases r1) auto
    then show ?thesis using e u False by (auto split: sum.splits)
  qed
qed

lemma renew_law:
  assumes law: "modifies C (records_place view)" and u: "uc_inv (view w)"
    and c: "IdempotencyRepository_Renew (Some C) k rid lease now w = (e, w')"
  shows "uc_inv (view w') \<and> (case e of Some er \<Rightarrow> uc_abs (view w') = uc_abs (view w)
     | None \<Rightarrow> now < lease \<and> (\<exists>x. uv_records (uc_abs (view w)) k = Some x \<and> pending_by rid x \<and> bsonTime now < ir_ExpiresAt x
         \<and> uc_abs (view w') = put_record k (Some (x\<lparr>ir_LeaseUntil := bsonTime lease\<rparr>)) (uc_abs (view w))))"
proof (cases "k = '''' \<or> rid = '''' \<or> \<not> now < lease")
  case True
  then show ?thesis using c u by (auto simp: IdempotencyRepository_Renew_def)
next
  case ok: False
  obtain r1 where 1: "cl_UpdateOne C (liveFilter k rid now) (renewUpdate lease) w = (r1, w')"
    and e: "e = (case r1 of Inl er \<Rightarrow> Some (Wrapf ''renew idempotency lease: '' er)
      | Inr m \<Rightarrow> if m = 0 then Some (Sentinel ErrIdempotencyLeaseLost) else None)"
    using c ok by (auto simp: IdempotencyRepository_Renew_def split: prod.splits sum.splits if_splits)
  show ?thesis
  proof (cases "\<exists>n. r1 = Inr n \<and> n \<noteq> 0")
    case True
    then obtain n where n: "r1 = Inr n" "n \<noteq> 0" by blast
    obtain x y where x: "renewUpdate lease x = Some y" "liveFilter k rid now x" "encRecord x = x" "uc_inv (view w')"
      "uv_records (uc_abs (view w)) k = Some (idempotencyDomainFromDocument x)"
      "uc_abs (view w') = put_record k (Some (idempotencyDomainFromDocument (encRecord y))) (uc_abs (view w))"
      by (rule records_updated [OF law u _ _ 1 [unfolded n(1)] n(2)]) (auto simp: record_filters record_updates)
    have "idempotencyDomainFromDocument (encRecord y) = (idempotencyDomainFromDocument x)\<lparr>ir_LeaseUntil := bsonTime lease\<rparr>"
      using x(1) enc_fixed(3) [OF x(3)] by (auto simp: renewUpdate_def idempotencyDomainFromDocument_def encRecord_def)
    then show ?thesis using e n x(2,4-6) ok by (auto simp: pending_by_def record_filters)
  next
    case False
    then have "view w' = view w" using updateOne_cases(1,4) [OF law 1, simplified] by (cases r1) auto
    then show ?thesis using e u False by (auto split: sum.splits)
  qed
qed

lemma release_law:
  assumes law: "deletes C (records_place view)" and u: "uc_inv (view w)"
    and c: "IdempotencyRepository_Release (Some C) k rid w = (e, w')"
  shows "uc_inv (view w') \<and> (uc_abs (view w') = uc_abs (view w)
     \<or> (\<exists>x. uv_records (uc_abs (view w)) k = Some x \<and> pending_by rid x \<and> uc_abs (view w') = put_record k None (uc_abs (view w))))"
proof -
  obtain r1 where 1: "cl_DeleteOne C (pendingFilter k rid) w = (r1, w')"
    using c by (auto simp: IdempotencyRepository_Release_def split: prod.splits sum.splits)
  have pk: "\<forall>d. pendingFilter k rid d \<longrightarrow> ird_Key d = k" by (simp add: pendingFilter_def)
  note D = record_removed [OF law u pk 1]
  show ?thesis using D(1,2) u by (cases "r1 = Inr 1") (auto simp: pending_by_def pendingFilter_def)
qed

lemma recover_law:
  assumes law: "deletes C (records_place view)" and u: "uc_inv (view w)" and c: "RecoverExpired (Some C) now w = (n, w')"
  shows "uc_inv (view w') \<and> (\<exists>R. uc_abs (view w') = (uc_abs (view w))\<lparr>uv_records := R\<rparr> \<and> R \<subseteq>\<^sub>m uv_records (uc_abs (view w))
     \<and> (\<forall>k x. uv_records (uc_abs (view w)) k = Some x \<longrightarrow> R k = None \<longrightarrow> ir_State x = IdempotencyStatePending \<and> lapsed now x))"
proof -
  obtain r1 where 1: "cl_DeleteMany C (recoverFilter now) w = (r1, w')"
    using c by (auto simp: RecoverExpired_def split: prod.splits sum.splits)
  note L = conjunct2 [OF law [unfolded deletes_def], rule_format, OF 1, simplified]
  obtain g where g: "\<forall>d. g d \<longrightarrow> recoverFilter now d"
    and view: "view w' = (view w)\<lparr>db_records := filter (\<lambda>d. \<not> g d) (db_records (view w))\<rparr>"
    using L by (cases r1) auto
  have "uc_inv (view w')" using u by (auto simp: view uc_inv_def uc_unique_def uc_stored_def distinct_map_filter)
  moreover have "ir_State x = IdempotencyStatePending \<and> lapsed now x"
    if x: "uv_records (uc_abs (view w)) k = Some x" and none: "uv_records (uc_abs (view w')) k = None" for k x
  proof -
    obtain d where "d \<in> set (db_records (view w))" "ird_Key d = k" "idempotencyDomainFromDocument d = x"
      using x by (auto simp: uv_records_Some [OF u])
    moreover from this have "g d" using none by (auto simp: uc_abs_fields view index_by_None)
    ultimately show ?thesis using g by (auto simp: recoverFilter_def leaseLapsed_def lapsed_def)
  qed
  moreover have "uc_abs (view w') = (uc_abs (view w))\<lparr>uv_records := uv_records (uc_abs (view w'))\<rparr>"
    by (simp add: view uc_abs_put uc_abs_fields)
  moreover have "uv_records (uc_abs (view w')) \<subseteq>\<^sub>m uv_records (uc_abs (view w))"
    using index_by_filter [OF uc_inv_distinct(5) [OF u]] by (simp add: view uc_abs_fields)
  ultimately show ?thesis by blast
qed

section \<open>Interpretation\<close>

text \<open>
  What is assumed of the driver, the server and the rest of the environment: the documented effects on the
  collections, a transaction, removal of expired documents by the TTL indexes, and that the clock, identifiers,
  random bytes and password hashing do not touch the database.
\<close>

definition uc_driver ::
    "(accountDocument, 'w) Collection \<Rightarrow> (identityDocument, 'w) Collection \<Rightarrow> (refreshTokenDocument, 'w) Collection \<Rightarrow>
     (idempotencyDocument, 'w) Collection \<Rightarrow> ('w action \<Rightarrow> 'w action) \<Rightarrow> 'w uc_env \<Rightarrow> ('w \<Rightarrow> gotime \<times> 'w) \<Rightarrow> (gotime \<Rightarrow> 'w \<Rightarrow> 'w) \<Rightarrow> ('w \<Rightarrow> uc_db) \<Rightarrow> bool" where
  "uc_driver CA CI CT CR tx ev clock ttl view \<longleftrightarrow>
     inserts CA (accounts_place view) \<and> modifies CA (accounts_place view)
     \<and> inserts CI (identities_place view) \<and> finds CI (identities_place view)
     \<and> inserts CT (tokens_place view) \<and> finds CT (tokens_place view) \<and> modifies CT (tokens_place view)
     \<and> inserts CR (records_place view) \<and> finds CR (records_place view) \<and> modifies CR (records_place view)
     \<and> deletes CR (records_place view) \<and> transacts tx view
     \<and> (\<forall>w. view (snd (ev_uuid ev w)) = view w \<and> view (snd (ev_rand ev w)) = view w
          \<and> (\<forall>p. view (snd (ev_hashPassword ev p w)) = view w) \<and> view (snd (clock w)) = view w
          \<and> view (snd (ev_ticks ev w)) = view w \<and> view (snd (ev_pause ev w)) = view w)
     \<and> (\<forall>now w. \<exists>g h. view (ttl now w) = (view w)\<lparr>db_tokens := filter g (db_tokens (view w)), db_records := filter h (db_records (view w))\<rparr>
          \<and> (\<forall>d. \<not> g d \<longrightarrow> rtd_ExpiresAt d \<le> bsonTime now) \<and> (\<forall>d. \<not> h d \<longrightarrow> ird_ExpiresAt d \<le> bsonTime now))"

definition uc_ok where
  "uc_ok CA CI CT CR tx ev clock ttl view w \<longleftrightarrow> uc_driver CA CI CT CR tx ev clock ttl view \<and> uc_inv (view w)"

lemma uc_okD:
  assumes "uc_ok CA CI CT CR tx ev clock ttl view w"
  shows "inserts CA (accounts_place view)" "modifies CA (accounts_place view)" "inserts CI (identities_place view)"
    "finds CI (identities_place view)" "inserts CT (tokens_place view)" "finds CT (tokens_place view)"
    "modifies CT (tokens_place view)" "transacts tx view" "view (snd (ev_uuid ev v)) = view v" "view (snd (ev_rand ev v)) = view v"
    "view (snd (ev_hashPassword ev p v)) = view v" "view (snd (clock v)) = view v"
    "\<exists>g h. view (ttl now v) = (view v)\<lparr>db_tokens := filter g (db_tokens (view v)), db_records := filter h (db_records (view v))\<rparr>
       \<and> (\<forall>d. \<not> g d \<longrightarrow> rtd_ExpiresAt d \<le> bsonTime now) \<and> (\<forall>d. \<not> h d \<longrightarrow> ird_ExpiresAt d \<le> bsonTime now)"
    "uc_inv (view w)" "uc_inv (view v) \<Longrightarrow> uc_ok CA CI CT CR tx ev clock ttl view v"
    "inserts CR (records_place view)" "finds CR (records_place view)" "modifies CR (records_place view)" "deletes CR (records_place view)"
    "view (snd (ev_ticks ev v)) = view v" "view (snd (ev_pause ev v)) = view v"
  using assms by (simp_all add: uc_ok_def uc_driver_def)

lemma uc_ok_frame: "uc_ok CA CI CT CR tx ev clock ttl view w \<Longrightarrow> view w' = view w \<Longrightarrow> uc_ok CA CI CT CR tx ev clock ttl view w'"
  by (simp add: uc_ok_def)

lemma mongo_account_laws:
  "account_store_axioms (\<lambda>w. uc_abs (view w)) (uc_ok CA CI CT CR tx ev clock ttl view) (NewAccountRepository CA)
     (NewIdentityRepository CI) (NewRefreshTokenRepository CT tx clock)"
proof (rule account_store_axioms.intro, goal_cases)
  case (1 w i s j t)
  have u: "uc_inv (view w)" by (rule uc_okD(14) [OF 1(1)])
  then have "inj_on rtd_TokenHash (set (db_tokens (view w)))" using uc_inv_distinct(4) by (simp add: distinct_map)
  then show ?case using 1(2-4) by (auto simp: uv_tokens_Some [OF u] dest: inj_onD)
next
  case (2 w a e w')
  note L = uc_okD [OF 2(1)]
  show ?case using account_created [OF L(1,14), of a e w'] 2(2) L(15) by (simp add: uc_repositories)
next
  case (3 w i p now e w')
  note L = uc_okD [OF 3(1)]
  show ?case using account_linked [OF L(2,14), of i p now e w'] 3(2) L(15) by (simp add: uc_repositories)
next
  case (4 w x e w')
  note L = uc_okD [OF 4(1)]
  show ?case using identity_created [OF L(3,14), of x e w'] 4(2) L(15) by (simp add: uc_repositories)
next
  case (5 w pv sb res w')
  note L = uc_okD [OF 5(1)]
  show ?case using identity_found [OF L(4,14), of pv sb res w'] 5(2) L(14,15) by (simp add: uc_repositories)
next
  case (6 w t e w')
  note L = uc_okD [OF 6(1)]
  show ?case using token_created [OF L(5,14,12), of t e w'] 6(2) L(15) by (simp add: uc_repositories)
next
  case (7 w h now res w')
  note L = uc_okD [OF 7(1)]
  show ?case using token_found [OF L(6,14), of h now res w'] 7(2) L(14,15) by (simp add: uc_repositories)
next
  case (8 w i now e w')
  note L = uc_okD [OF 8(1)]
  show ?case using token_revoked [OF L(7,14), of i now e w'] 8(2) L(15) by (simp add: uc_repositories)
next
  case (9 w i now t e w')
  note L = uc_okD [OF 9(1)]
  show ?case using token_rotated [OF L(7,5,8,14,12), of i now t e w'] 9(2) L(15) by (simp add: uc_repositories)
qed

lemma mongo_record_laws:
  "idempotency_store (\<lambda>w. uc_abs (view w)) (uc_ok CA CI CT CR tx ev clock ttl view) (NewIdempotencyRepository CR clock)"
proof (rule idempotency_store.intro, goal_cases)
  case (1 w k now res w')
  note L = uc_okD [OF 1(1)]
  have f: "IdempotencyRepository_Find (Some CR) k now w = (res, w')" using 1(2) by (simp add: NewIdempotencyRepository_def)
  note F = record_found [OF L(17,14) f]
  show ?case using F(1) F(2) F(3) L(14,15) by (auto split: sum.splits)
next
  case (2 w r e w')
  note L = uc_okD [OF 2(1)]
  show ?case using record_created [OF L(16,14,12), of r e w'] 2(2) L(15) by (simp add: NewIdempotencyRepository_def)
next
  case (3 w r now res w')
  note L = uc_okD [OF 3(1)]
  show ?case using reserve_law [OF L(16-19,14,12) 3(3), of now res w'] 3(2) L(15) by (simp add: NewIdempotencyRepository_def)
next
  case (4 w k rid bs now e w')
  note L = uc_okD [OF 4(1)]
  show ?case using complete_law [OF L(18,14), of k rid bs now e w'] 4(2) L(15) by (simp add: NewIdempotencyRepository_def)
next
  case (5 w k rid e w')
  note L = uc_okD [OF 5(1)]
  show ?case using release_law [OF L(19,14), of k rid e w'] 5(2) L(15) by (simp add: NewIdempotencyRepository_def)
next
  case (6 w k rid lease now e w')
  note L = uc_okD [OF 6(1)]
  show ?case using renew_law [OF L(18,14), of k rid lease now e w'] 6(2) L(15) by (simp add: NewIdempotencyRepository_def)
next
  case (7 w now n w')
  note L = uc_okD [OF 7(1)]
  show ?case using recover_law [OF L(19,14), of now n w'] 7(2) L(15) by (simp add: NewIdempotencyRepository_def)
qed

lemma mongo_auth_laws:
  "auth_store_axioms (\<lambda>w. uc_abs (view w)) (uc_ok CA CI CT CR tx ev clock ttl view) ev clock ttl"
proof (rule auth_store_axioms.intro, goal_cases)
  case (1 w u w')
  show ?case using uc_ok_frame [OF 1(1), of w'] uc_okD(9) [OF 1(1), of w] 1(2) by simp
next
  case (2 w b w')
  show ?case using uc_ok_frame [OF 2(1), of w'] uc_okD(10) [OF 2(1), of w] 2(2) by simp
next
  case (3 w p u w')
  show ?case using uc_ok_frame [OF 3(1), of w'] uc_okD(11) [OF 3(1), of p w] 3(2) by simp
next
  case (4 w now w')
  show ?case using uc_ok_frame [OF 4(1), of w'] uc_okD(12) [OF 4(1), of w] 4(2) by simp
next
  case (5 w ts w')
  show ?case using uc_ok_frame [OF 5(1), of w'] uc_okD(20) [OF 5(1), of w] 5(2) by simp
next
  case (6 w e w')
  show ?case using uc_ok_frame [OF 6(1), of w'] uc_okD(21) [OF 6(1), of w] 6(2) by simp
next
  case (7 w now)
  note L = uc_okD [OF 7]
  obtain g h where v: "view (ttl now w) = (view w)\<lparr>db_tokens := filter g (db_tokens (view w)), db_records := filter h (db_records (view w))\<rparr>"
    and h: "\<forall>d. \<not> h d \<longrightarrow> ird_ExpiresAt d \<le> bsonTime now"
    using L(13) by blast
  let ?v = "view (ttl now w)"
  have "uc_inv ?v"
    using L(14) by (auto simp: v uc_inv_def uc_unique_def uc_stored_def distinct_map_filter)
  moreover have "uc_abs ?v = (uc_abs (view w))\<lparr>uv_tokens := uv_tokens (uc_abs ?v), uv_records := uv_records (uc_abs ?v)\<rparr>"
    by (simp add: v uc_abs_put uc_abs_fields)
  moreover have "uv_tokens (uc_abs ?v) \<subseteq>\<^sub>m uv_tokens (uc_abs (view w))" "uv_records (uc_abs ?v) \<subseteq>\<^sub>m uv_records (uc_abs (view w))"
    using index_by_filter [OF uc_inv_distinct(3) [OF L(14)]] index_by_filter [OF uc_inv_distinct(5) [OF L(14)]]
    by (simp_all add: v uc_abs_fields)
  moreover have "\<not> bsonTime now < ir_ExpiresAt x"
    if x: "uv_records (uc_abs (view w)) k = Some x" and none: "uv_records (uc_abs ?v) k = None" for k x
  proof -
    obtain d where "d \<in> set (db_records (view w))" "ird_Key d = k" "idempotencyDomainFromDocument d = x"
      using x by (auto simp: uv_records_Some [OF L(14)])
    moreover from this have "\<not> h d" using none by (auto simp: uc_abs_fields v index_by_None)
    ultimately show ?thesis using h by auto
  qed
  ultimately show ?case using L(15) by blast
qed

interpretation ma: auth_store tx "\<lambda>w. uc_abs (view w)" "uc_ok CA CI CT CR tx ev clock ttl view" "NewAccountRepository CA"
    "NewIdentityRepository CI" "NewRefreshTokenRepository CT tx clock" "NewIdempotencyRepository CR clock" ev clock ttl
  for CA CI CT CR tx ev clock ttl view
proof (rule auth_store.intro [OF account_store.intro [OF transacts_unit_of_work [where view = view and A = uc_abs] mongo_account_laws]
      mongo_record_laws mongo_auth_laws])
  show "transacts tx view" if "uc_ok CA CI CT CR tx ev clock ttl view w" for w by (rule uc_okD(8) [OF that])
  show "uc_ok CA CI CT CR tx ev clock ttl view w'" if "uc_ok CA CI CT CR tx ev clock ttl view w" "view w' = view w" for w w'
    by (rule uc_ok_frame [OF that])
qed

end
