(* ===== verification/UC_Locks.thy ===== *)
theory UC_Locks
  imports UC_Idempotency
begin

text \<open>
  The in-process locks of \<open>withIdempotency\<close> under any interleaving of requests: a request acquires the entry of its key,
  waits for the mutex, works, unlocks and releases the entry.  The invariant says that the table holds exactly the
  keys in use, that references are counted and that at most one request of a key works at a time.
\<close>

section \<open>Requests\<close>

datatype phase = Waiting | Holding | Leaving

type_synonym requests = "nat \<rightharpoonup> string \<times> nat \<times> phase"

inductive lock_step :: "lock_table \<times> requests \<Rightarrow> lock_table \<times> requests \<Rightarrow> bool" where
  l_enter: "q r = None \<Longrightarrow> acquireIdempotencyLock k t = (p, t') \<Longrightarrow> lock_step (t, q) (t', q(r \<mapsto> (k, p, Waiting)))"
| l_lock: "q r = Some (k, p, Waiting) \<Longrightarrow> lockMutex p t = Some t' \<Longrightarrow> lock_step (t, q) (t', q(r \<mapsto> (k, p, Holding)))"
| l_unlock: "q r = Some (k, p, Holding) \<Longrightarrow> lock_step (t, q) (unlockMutex p t, q(r \<mapsto> (k, p, Leaving)))"
| l_release: "q r = Some (k, p, Leaving) \<Longrightarrow> lock_step (t, q) (releaseIdempotencyLock k p t, q(r := None))"

definition users :: "requests \<Rightarrow> string \<Rightarrow> nat set" where
  "users q k = {r. \<exists>p ph. q r = Some (k, p, ph)}"

definition holders :: "requests \<Rightarrow> string \<Rightarrow> nat set" where
  "holders q k = {r. \<exists>p. q r = Some (k, p, Holding)}"

section \<open>Invariant\<close>

text \<open>The entry of a key that is in use.\<close>

definition entry_ok :: "lock_table \<Rightarrow> requests \<Rightarrow> string \<Rightarrow> nat \<Rightarrow> bool" where
  "entry_ok t q k p \<longleftrightarrow> p < lt_next t \<and> le_refs (lt_heap t p) = int (card (users q k)) \<and> users q k \<noteq> {}
     \<and> (if le_mu (lt_heap t p) then \<exists>r. holders q k = {r} else holders q k = {})"

definition lock_inv :: "lock_table \<Rightarrow> requests \<Rightarrow> bool" where
  "lock_inv t q \<longleftrightarrow> finite (dom q) \<and> (\<forall>r k p ph. q r = Some (k, p, ph) \<longrightarrow> lt_map t k = Some p)
     \<and> (\<forall>k p. lt_map t k = Some p \<longrightarrow> entry_ok t q k p)
     \<and> (\<forall>k l p. lt_map t k = Some p \<longrightarrow> lt_map t l = Some p \<longrightarrow> k = l)"

lemma lock_invI:
  assumes "finite (dom q)" "\<And>r k p ph. q r = Some (k, p, ph) \<Longrightarrow> lt_map t k = Some p"
    and "\<And>k p. lt_map t k = Some p \<Longrightarrow> entry_ok t q k p"
    and "\<And>k l p. lt_map t k = Some p \<Longrightarrow> lt_map t l = Some p \<Longrightarrow> k = l"
  shows "lock_inv t q"
  unfolding lock_inv_def using assms by blast

lemma lock_invD:
  assumes "lock_inv t q"
  shows "finite (dom q)" "q r = Some (k, p, ph) \<Longrightarrow> lt_map t k = Some p" "lt_map t k = Some p \<Longrightarrow> entry_ok t q k p"
    "lt_map t k = Some p \<Longrightarrow> lt_map t l = Some p \<Longrightarrow> k = l"
  using assms unfolding lock_inv_def by blast+

lemma users_finite: "finite (dom q) \<Longrightarrow> finite (users q k)"
  by (rule finite_subset [of _ "dom q"]) (auto simp: users_def)

lemma users_upd:
  "users (q(r \<mapsto> (k, p, ph))) k = insert r (users q k)" "q r = None \<or> q r = Some (k, p', ph') \<Longrightarrow> l \<noteq> k \<Longrightarrow> users (q(r \<mapsto> (k, p, ph))) l = users q l"
  "q r = Some (k, p', ph') \<Longrightarrow> users (q(r := None)) l = users q l - (if l = k then {r} else {})"
  by (auto simp: users_def)

lemma holders_upd:
  "holders (q(r \<mapsto> (k, p, Holding))) k = insert r (holders q k)"
  "ph \<noteq> Holding \<Longrightarrow> holders (q(r \<mapsto> (k, p, ph))) k = holders q k - {r}"
  "q r = None \<or> q r = Some (k, p', ph') \<Longrightarrow> l \<noteq> k \<Longrightarrow> holders (q(r \<mapsto> (k, p, ph))) l = holders q l"
  "q r = Some (k, p', Leaving) \<Longrightarrow> holders (q(r := None)) l = holders q l"
  by (auto simp: holders_def)

text \<open>Another key's entry is not touched by a step on \<open>k\<close>.\<close>

lemma entry_frame:
  assumes "entry_ok t q l p'" "lt_heap t' p' = lt_heap t p'" "lt_next t \<le> lt_next t'" "users q' l = users q l" "holders q' l = holders q l"
  shows "entry_ok t' q' l p'"
  using assms by (auto simp: entry_ok_def)

lemma enter_inv:
  assumes inv: "lock_inv t q" and r: "q r = None" and acq: "acquireIdempotencyLock k t = (p, t')"
  shows "lock_inv t' (q(r \<mapsto> (k, p, Waiting)))"
proof -
  note D = lock_invD [OF inv]
  let ?q = "q(r \<mapsto> (k, p, Waiting))"
  have fin: "finite (users q k)" by (rule users_finite [OF D(1)])
  have new: "r \<notin> users q k" "r \<notin> holders q k" using r by (auto simp: users_def holders_def)
  have us: "users ?q k = insert r (users q k)" "holders ?q k = holders q k" using new by (simp_all add: users_upd holders_upd)
  have lt: "p' < lt_next t" if "lt_map t l = Some p'" for l p' using D(3) [OF that] by (simp add: entry_ok_def)
  show ?thesis
  proof (cases "lt_map t k")
    case None
    have out: "p = lt_next t" "t' = t\<lparr>lt_map := (lt_map t)(k \<mapsto> lt_next t), lt_next := lt_next t + 1,
        lt_heap := (lt_heap t)(lt_next t := \<lparr>le_mu = False, le_refs = 1\<rparr>)\<rparr>"
      using acq None by (auto simp: acquireIdempotencyLock_def setEntry_def)
    have none: "users q k = {}" "holders q k = {}" using D(2) None by (fastforce simp: users_def holders_def)+
    show ?thesis
    proof (rule lock_invI)
      show "finite (dom ?q)" using D(1) by simp
      show "lt_map t' k' = Some p'" if "?q r' = Some (k', p', ph)" for r' k' p' ph
        using that D(2) None out by (auto split: if_splits)
      show "entry_ok t' ?q l p'" if "lt_map t' l = Some p'" for l p'
      proof (cases "l = k")
        case True
        then show ?thesis using that out us none by (simp add: entry_ok_def)
      next
        case False
        then have m: "lt_map t l = Some p'" using that out by simp
        have "p' \<noteq> lt_next t" using lt [OF m] by simp
        then show ?thesis by (intro entry_frame [OF D(3) [OF m]]) (use out False r in \<open>simp_all add: users_upd holders_upd\<close>)
      qed
      show "l = l'" if "lt_map t' l = Some p'" "lt_map t' l' = Some p'" for l l' p'
        using that out D(4) [of l p' l'] lt by (auto split: if_splits)
    qed
  next
    case (Some p0)
    have out: "p = p0" "t' = t\<lparr>lt_heap := (lt_heap t)(p0 := (lt_heap t p0)\<lparr>le_refs := le_refs (lt_heap t p0) + 1\<rparr>)\<rparr>"
      using acq Some by (auto simp: acquireIdempotencyLock_def setEntry_def)
    show ?thesis
    proof (rule lock_invI)
      show "finite (dom ?q)" using D(1) by simp
      show "lt_map t' k' = Some p'" if "?q r' = Some (k', p', ph)" for r' k' p' ph
        using that D(2) Some out by (auto split: if_splits)
      show "entry_ok t' ?q l p'" if "lt_map t' l = Some p'" for l p'
      proof (cases "l = k")
        case True
        then show ?thesis using that out us Some D(3) [OF Some] fin new(1) by (simp add: entry_ok_def)
      next
        case False
        then have m: "lt_map t l = Some p'" using that out by simp
        have "p' \<noteq> p0" using False D(4) [OF m] Some by blast
        then show ?thesis by (intro entry_frame [OF D(3) [OF m]]) (use out False r in \<open>simp_all add: users_upd holders_upd\<close>)
      qed
      show "l = l'" if "lt_map t' l = Some p'" "lt_map t' l' = Some p'" for l l' p' using that out D(4) [of l p' l'] by simp
    qed
  qed
qed

text \<open>A step of a request that stays in the table: the mutex of its entry changes.\<close>

lemma mutex_inv:
  assumes inv: "lock_inv t q" and r: "q r = Some (k, p, ph)"
    and ok: "entry_ok (setEntry p ((lt_heap t p)\<lparr>le_mu := b\<rparr>) t) (q(r \<mapsto> (k, p, ph'))) k p"
  shows "lock_inv (setEntry p ((lt_heap t p)\<lparr>le_mu := b\<rparr>) t) (q(r \<mapsto> (k, p, ph')))"
proof -
  note D = lock_invD [OF inv]
  have k: "lt_map t k = Some p" by (rule D(2) [OF r])
  show ?thesis
  proof (rule lock_invI)
    show "finite (dom (q(r \<mapsto> (k, p, ph'))))" using D(1) by simp
    show "lt_map (setEntry p ((lt_heap t p)\<lparr>le_mu := b\<rparr>) t) k' = Some p'" if "(q(r \<mapsto> (k, p, ph'))) r' = Some (k', p', ph0)" for r' k' p' ph0
      using that D(2) k by (auto simp: setEntry_def split: if_splits)
    show "entry_ok (setEntry p ((lt_heap t p)\<lparr>le_mu := b\<rparr>) t) (q(r \<mapsto> (k, p, ph'))) l p'"
      if l: "lt_map (setEntry p ((lt_heap t p)\<lparr>le_mu := b\<rparr>) t) l = Some p'" for l p'
    proof (cases "l = k")
      case True
      then show ?thesis using ok l k by (simp add: setEntry_def)
    next
      case False
      have m: "lt_map t l = Some p'" using l by (simp add: setEntry_def)
      have "p' \<noteq> p" using False D(4) [OF m] k by blast
      then show ?thesis
        by (intro entry_frame [OF D(3) [OF m]]) (use False r in \<open>simp_all add: users_upd holders_upd setEntry_def\<close>)
    qed
    show "l = l'" if "lt_map (setEntry p ((lt_heap t p)\<lparr>le_mu := b\<rparr>) t) l = Some p'"
      "lt_map (setEntry p ((lt_heap t p)\<lparr>le_mu := b\<rparr>) t) l' = Some p'" for l l' p'
      using that D(4) [of l p' l'] by (simp add: setEntry_def)
  qed
qed

lemma same_users: "q r = Some (k, p, ph) \<Longrightarrow> users (q(r \<mapsto> (k, p, ph'))) k = users q k"
  by (auto simp: users_def)

lemma lock_mutex_inv:
  assumes inv: "lock_inv t q" and r: "q r = Some (k, p, Waiting)" and l: "lockMutex p t = Some t'"
  shows "lock_inv t' (q(r \<mapsto> (k, p, Holding)))"
proof -
  have t': "t' = setEntry p ((lt_heap t p)\<lparr>le_mu := True\<rparr>) t" and free: "\<not> le_mu (lt_heap t p)"
    using l by (auto simp: lockMutex_def split: if_splits)
  have e: "entry_ok t q k p" using lock_invD(2,3) [OF inv] r by blast
  show ?thesis unfolding t'
    by (rule mutex_inv [OF inv r]) (use e free same_users [of q r, OF r] in \<open>auto simp: entry_ok_def setEntry_def holders_upd\<close>)
qed

lemma unlock_mutex_inv:
  assumes inv: "lock_inv t q" and r: "q r = Some (k, p, Holding)"
  shows "lock_inv (unlockMutex p t) (q(r \<mapsto> (k, p, Leaving)))"
proof -
  have e: "entry_ok t q k p" using lock_invD(2,3) [OF inv] r by blast
  have h: "r \<in> holders q k" using r by (auto simp: holders_def)
  then have "holders q k = {r}" using e by (auto simp: entry_ok_def split: if_splits)
  then show ?thesis unfolding unlockMutex_def
    by (intro mutex_inv [OF inv r]) (use e same_users [of q r, OF r] in \<open>auto simp: entry_ok_def setEntry_def holders_upd\<close>)
qed

lemma release_inv:
  assumes inv: "lock_inv t q" and r: "q r = Some (k, p, Leaving)"
  shows "lock_inv (releaseIdempotencyLock k p t) (q(r := None))"
proof -
  note D = lock_invD [OF inv]
  let ?t1 = "setEntry p ((lt_heap t p)\<lparr>le_refs := le_refs (lt_heap t p) - 1\<rparr>) t" and ?q = "q(r := None)"
  have k: "lt_map t k = Some p" by (rule D(2) [OF r])
  have e: "entry_ok t q k p" by (rule D(3) [OF k])
  have fin: "finite (users q k)" by (rule users_finite [OF D(1)])
  have mem: "r \<in> users q k" using r by (auto simp: users_def)
  have cd: "int (card (users ?q k)) = le_refs (lt_heap t p) - 1"
    using e mem fin by (simp add: entry_ok_def users_upd(3) [of q r, OF r] card_Diff_singleton card_gt_0_iff of_nat_diff Suc_leI)
  have last: "le_refs (lt_heap t p) - 1 = 0 \<longleftrightarrow> users ?q k = {}"
    using cd fin by (metis card_eq_0_iff finite_Diff of_nat_eq_0_iff users_upd(3) [of q r, OF r])
  have rel: "lt_map (releaseIdempotencyLock k p t) = (if users ?q k = {} then (lt_map t)(k := None) else lt_map t)"
    "lt_heap (releaseIdempotencyLock k p t) = lt_heap ?t1" "lt_next (releaseIdempotencyLock k p t) = lt_next t"
    using k last by (auto simp: releaseIdempotencyLock_def Let_def setEntry_def)
  show ?thesis
  proof (rule lock_invI)
    show "finite (dom ?q)" using D(1) by simp
    show "lt_map (releaseIdempotencyLock k p t) k' = Some p'" if "?q r' = Some (k', p', ph)" for r' k' p' ph
    proof -
      have q: "q r' = Some (k', p', ph)" "r' \<noteq> r" using that by (auto split: if_splits)
      have "users ?q k \<noteq> {}" if "k' = k" using q that by (auto simp: users_def)
      then show ?thesis using D(2) [OF q(1)] rel(1) by auto
    qed
    show "entry_ok (releaseIdempotencyLock k p t) ?q l p'" if l: "lt_map (releaseIdempotencyLock k p t) l = Some p'" for l p'
    proof (cases "l = k")
      case True
      then have "p' = p" "users ?q k \<noteq> {}" using l k rel(1) by (auto split: if_splits)
      then show ?thesis using True e cd rel(2,3) by (simp add: entry_ok_def holders_upd(4) [of q r, OF r] setEntry_def)
    next
      case False
      have m: "lt_map t l = Some p'" using l False rel(1) by (auto split: if_splits)
      have "p' \<noteq> p" using False D(4) [OF m] k by blast
      then show ?thesis
        by (intro entry_frame [OF D(3) [OF m]])
          (use False rel(2,3) in \<open>simp_all add: users_upd(3) [of q r, OF r] holders_upd(4) [of q r, OF r] setEntry_def\<close>)
    qed
    show "l = l'" if "lt_map (releaseIdempotencyLock k p t) l = Some p'" "lt_map (releaseIdempotencyLock k p t) l' = Some p'" for l l' p'
      using that rel(1) D(4) [of l p' l'] by (auto split: if_splits)
  qed
qed

lemma lock_step_inv: "lock_step s s' \<Longrightarrow> lock_inv (fst s) (snd s) \<Longrightarrow> lock_inv (fst s') (snd s')"
  by (induction rule: lock_step.induct) (simp_all add: enter_inv lock_mutex_inv unlock_mutex_inv release_inv)

lemma empty_lock_inv: "lock_inv emptyLocks Map.empty"
  by (simp add: lock_inv_def emptyLocks_def)

lemma lock_run_inv: "lock_step\<^sup>*\<^sup>* (emptyLocks, Map.empty) s \<Longrightarrow> lock_inv (fst s) (snd s)"
  by (induction rule: rtranclp_induct) (auto simp: empty_lock_inv intro: lock_step_inv)

end
