(* ===== verification/UC_Runs.thy ===== *)
theory UC_Runs
  imports UC_Idempotency
begin

text \<open>
  The steps of \<open>uc_run\<close> are the program's own: everything a handler does to the world is a sequence of them, so that
  statements about runs cover requests that are executed concurrently, step by step.
\<close>

section \<open>Steps\<close>

lemma anything_simps [simp]: "lm_token anything t" "lm_time anything now" "lm_holder anything rid"
  by (simp_all add: anything_def)

text \<open>A component as \<^verbatim>\<open>module.go\<close> makes it: one coordinator is behind both views of the idempotency repository.\<close>

definition wired :: "'w DomainAuthComponent \<Rightarrow> 'w IdempotencyCoordinator \<Rightarrow> bool" where
  "wired c K \<longleftrightarrow> dc_coordinator c = Some K \<and> dc_idempotency c = Some (IdempotencyRepository.truncate K)"

lemma run_steps:
  shows "ev_uuid ev w = (u, w') \<Longrightarrow> uc_run ev ttl anything c w w'"
    "ev_rand ev w = (b, w') \<Longrightarrow> uc_run ev ttl anything c w w'"
    "ev_hashPassword ev p w = (h, w') \<Longrightarrow> uc_run ev ttl anything c w w'"
    "dc_now c w = (now, w') \<Longrightarrow> uc_run ev ttl anything c w w'"
    "ev_ticks ev w = (ts, w') \<Longrightarrow> uc_run ev ttl anything c w w'"
    "ev_pause ev w = (pe, w') \<Longrightarrow> uc_run ev ttl anything c w w'"
    "inr_Find (dc_identities c) pv sb w = (ri, w') \<Longrightarrow> uc_run ev ttl anything c w w'"
    "rtr_FindValid (dc_refreshTokens c) th now w = (rt, w') \<Longrightarrow> uc_run ev ttl anything c w w'"
    "rtr_Create (dc_refreshTokens c) t w = (e, w') \<Longrightarrow> uc_run ev ttl anything c w w'"
    "rtr_Rotate (dc_refreshTokens c) i now t w = (e, w') \<Longrightarrow> uc_run ev ttl anything c w w'"
    "rtr_Revoke (dc_refreshTokens c) i now w = (e, w') \<Longrightarrow> uc_run ev ttl anything c w w'"
    "acr_LinkPlayer (dc_accounts c) i p now w = (e, w') \<Longrightarrow> uc_run ev ttl anything c w w'"
    "dc_unitOfWork c = Some tx \<Longrightarrow> idn_AccountID x = acc_ID a \<Longrightarrow> tx (storeAccount c a x t) w = (e, w') \<Longrightarrow> uc_run ev ttl anything c w w'"
  by (blast intro: r_into_rtranclp uc_step.intros anything_simps)+

lemma record_steps:
  assumes "wired c K"
  shows "ipr_Find K k now w = (r, w') \<Longrightarrow> uc_run ev ttl anything c w w'"
    "ir_State x = IdempotencyStatePending \<Longrightarrow> ipc_Reserve K x now w = (res, w') \<Longrightarrow> uc_run ev ttl anything c w w'"
    "ipc_Complete K k rid bs now w = (e, w') \<Longrightarrow> uc_run ev ttl anything c w w'"
    "ipc_Release K k rid w = (e, w') \<Longrightarrow> uc_run ev ttl anything c w w'"
    "ipc_Renew K k rid lease now w = (e, w') \<Longrightarrow> uc_run ev ttl anything c w w'"
  using assms unfolding wired_def
  by (auto intro!: r_into_rtranclp uc_step.u_record [of _ K] intro: record_step.intros)

lemmas run_trans = rtranclp_trans [of "uc_step ev ttl anything c" for ev ttl c]

section \<open>Cores\<close>

lemma newToken_run:
  assumes "newToken ev c a i w = (r, w')"
  shows "uc_run ev ttl anything c w w'"
proof -
  obtain u w1 where 1: "ev_uuid ev w = (u, w1)" by fastforce
  obtain b w2 where 2: "ev_rand ev w1 = (b, w2)" by fastforce
  obtain n w3 where 3: "dc_now c w2 = (n, w3)" by fastforce
  note R = run_steps(1) [OF 1, of ttl c] run_steps(2) [OF 2, of ttl c] run_steps(4) [OF 3, of ev ttl]
  have "w' \<in> {w, w1, w2, w3}" using assms 1 2 3 by (auto simp: newToken_def Let_def split: if_splits sum.splits)
  then show ?thesis using R by (auto intro: run_trans)
qed

lemma issueToken_run:
  assumes "issueToken ev c a i w = (r, w')"
  shows "uc_run ev ttl anything c w w'"
proof -
  obtain x w1 where 1: "newToken ev c a i w = (x, w1)" by fastforce
  note R = newToken_run [OF 1, of ttl]
  show ?thesis
  proof (cases x)
    case (Inl e)
    then show ?thesis using assms 1 R by (simp add: issueToken_def)
  next
    case (Inr p)
    obtain e w2 where 2: "rtr_Create (dc_refreshTokens c) (fst p) w1 = (e, w2)" by fastforce
    have "w' = w2" using assms 1 2 Inr by (auto simp: issueToken_def split: prod.splits option.splits)
    then show ?thesis using R run_steps(9) [OF 2, of ev ttl] by (auto intro: run_trans)
  qed
qed

lemma accountInputs_run:
  assumes "accountInputs ev p w = (r, w')"
  shows "uc_run ev ttl anything c w w'"
proof -
  obtain u w1 where 1: "ev_uuid ev w = (u, w1)" by fastforce
  obtain u2 w2 where 2: "ev_uuid ev w1 = (u2, w2)" by fastforce
  obtain h w3 where 3: "ev_hashPassword ev p w2 = (h, w3)" by fastforce
  note R = run_steps(1) [OF 1, of ttl c] run_steps(1) [OF 2, of ttl c] run_steps(3) [OF 3, of ttl c]
  have "w' \<in> {w1, w2, w3}" using assms 1 2 3 by (auto simp: accountInputs_def split: if_splits sum.splits)
  then show ?thesis using R by (auto intro: run_trans)
qed

lemma create_run:
  assumes "createAccountAndToken ev c pv sb pw inst w = (r, w')"
  shows "uc_run ev ttl anything c w w'"
proof (cases "dc_unitOfWork c")
  case None
  then show ?thesis using assms by (simp add: createAccountAndToken_def)
next
  case (Some tx)
  obtain x w1 where 1: "accountInputs ev pw w = (x, w1)" by fastforce
  note R1 = accountInputs_run [OF 1, of ttl c]
  show ?thesis
  proof (cases x)
    case (Inl e)
    then show ?thesis using assms 1 R1 Some by (simp add: createAccountAndToken_def)
  next
    case (Inr p)
    obtain acc i h where p: "p = (acc, i, h)" by (cases p)
    obtain now w2 where 2: "dc_now c w1 = (now, w2)" by fastforce
    obtain y w3 where 3: "newToken ev c acc inst w2 = (y, w3)" by fastforce
    have R3: "uc_run ev ttl anything c w w3"
      using R1 run_steps(4) [OF 2, of ev ttl] newToken_run [OF 3, of ttl] by (auto intro: run_trans)
    show ?thesis
    proof (cases y)
      case (Inl e)
      then show ?thesis using assms 1 2 3 R3 Some Inr p by (simp add: createAccountAndToken_def)
    next
      case y: (Inr t)
      let ?a = "\<lparr>acc_ID = acc, acc_Identities = [], acc_PlayerIDs = [], acc_CreatedAt = now, acc_UpdatedAt = now\<rparr>"
        and ?x = "\<lparr>idn_ID = i, idn_AccountID = acc, idn_Provider = pv, idn_Subject = sb, idn_PasswordHash = h, idn_LinkedAt = now\<rparr>"
      obtain e w4 where 4: "tx (storeAccount c ?a ?x (fst t)) w3 = (e, w4)" by fastforce
      have "w' = w4" using assms 1 2 3 4 Some Inr p y by (auto simp: createAccountAndToken_def split: prod.splits option.splits)
      then show ?thesis using R3 run_steps(13) [OF Some _ 4, of ev ttl] by (auto intro: run_trans)
    qed
  qed
qed

lemma guest_run:
  assumes "guestAuthenticateCore ev c q w = (r, w')"
  shows "uc_run ev ttl anything c w w'"
proof -
  let ?i = "TrimSpace (gq_InstallId q)"
  obtain r1 w1 where 1: "inr_Find (dc_identities c) AuthProviderGuest ?i w = (r1, w1)" by fastforce
  obtain r2 w2 where 2: "createAccountAndToken ev c AuthProviderGuest ?i '''' ?i w1 = (r2, w2)" by fastforce
  obtain r3 w3 where 3: "inr_Find (dc_identities c) AuthProviderGuest ?i w2 = (r3, w3)" by fastforce
  have R: "uc_run ev ttl anything c w w1" "uc_run ev ttl anything c w w2" "uc_run ev ttl anything c w w3"
    using run_steps(7) [OF 1, of ev ttl] create_run [OF 2, of ttl] run_steps(7) [OF 3, of ev ttl] by (auto intro: run_trans)
  have "w' = w2 \<or> (\<exists>v a x. v \<in> {w1, w3} \<and> (w' = v \<or> issueToken ev c a ?i v = (x, w')))"
    using assms 1 2 3 by (auto simp: guestAuthenticateCore_def Let_def split: sum.splits prod.splits if_splits)
  then show ?thesis using R issueToken_run [of ev c _ ?i _ _ w' ttl] by (auto intro: run_trans)
qed

lemma password_run:
  assumes "passwordAuthenticateCore ev c q w = (r, w')"
  shows "uc_run ev ttl anything c w w'"
proof -
  let ?u = "TrimSpace (wq_Username q)" and ?i = "TrimSpace (wq_InstallId q)"
  obtain r1 w1 where 1: "inr_Find (dc_identities c) AuthProviderPassword ?u w = (r1, w1)" by fastforce
  obtain r2 w2 where 2: "createAccountAndToken ev c AuthProviderPassword ?u (wq_Password q) ?i w1 = (r2, w2)" by fastforce
  obtain r3 w3 where 3: "inr_Find (dc_identities c) AuthProviderPassword ?u w2 = (r3, w3)" by fastforce
  have R: "uc_run ev ttl anything c w w1" "uc_run ev ttl anything c w w2" "uc_run ev ttl anything c w w3"
    using run_steps(7) [OF 1, of ev ttl] create_run [OF 2, of ttl] run_steps(7) [OF 3, of ev ttl] by (auto intro: run_trans)
  have "w' = w \<or> w' = w2 \<or> (\<exists>v a x. v \<in> {w1, w3} \<and> (w' = v \<or> issueToken ev c a ?i v = (x, w')))"
    using assms 1 2 3 by (auto simp: passwordAuthenticateCore_def Let_def split: sum.splits prod.splits if_splits)
  then show ?thesis using R issueToken_run [of ev c _ ?i _ _ w' ttl] by (auto intro: run_trans)
qed

lemma refresh_run:
  assumes "refreshAuthenticateCore ev c q w = (r, w')"
  shows "uc_run ev ttl anything c w w'"
proof -
  obtain now w0 where 0: "dc_now c w = (now, w0)" by fastforce
  obtain x w1 where 1: "rtr_FindValid (dc_refreshTokens c) (authHashToken ev (fq_RefreshToken q)) now w0 = (x, w1)" by fastforce
  have R1: "uc_run ev ttl anything c w w1"
    using run_steps(4) [OF 0, of ev ttl] run_steps(8) [OF 1, of ev ttl] by (auto intro: run_trans)
  have "w' = w1 \<or> (\<exists>y w2. newToken ev c (rt_AccountID (projr x)) (fq_InstallId q) w1 = (y, w2) \<and> (w' = w2
      \<or> (\<exists>e. rtr_Rotate (dc_refreshTokens c) (rt_ID (projr x)) now (fst (projr y)) w2 = (e, w'))))"
    using assms 0 1 by (auto simp: refreshAuthenticateCore_def split: sum.splits prod.splits if_splits option.splits)
  then show ?thesis
  proof (elim disjE exE conjE)
    fix y w2
    assume t: "newToken ev c (rt_AccountID (projr x)) (fq_InstallId q) w1 = (y, w2)"
    note R2 = run_trans [OF R1 newToken_run [OF t]]
    show ?thesis if "w' = w2" using R2 that by simp
    show ?thesis if "rtr_Rotate (dc_refreshTokens c) (rt_ID (projr x)) now (fst (projr y)) w2 = (e, w')" for e
      by (rule run_trans [OF R2 run_steps(10) [OF that]])
  qed (use R1 in simp)
qed

lemma revoke_run:
  assumes "revokeRefreshTokenCore ev c q w = (r, w')"
  shows "uc_run ev ttl anything c w w'"
proof -
  obtain now w0 where 0: "dc_now c w = (now, w0)" by fastforce
  obtain x w1 where 1: "rtr_FindValid (dc_refreshTokens c) (authHashToken ev (vq_RefreshToken q)) now w0 = (x, w1)" by fastforce
  obtain now2 w2 where 2: "dc_now c w1 = (now2, w2)" by fastforce
  have R1: "uc_run ev ttl anything c w w1" "uc_run ev ttl anything c w w2"
    using run_steps(4) [OF 0, of ev ttl] run_steps(8) [OF 1, of ev ttl] run_steps(4) [OF 2, of ev ttl] by (auto intro: run_trans)
  have "w' = w1 \<or> (\<exists>e. rtr_Revoke (dc_refreshTokens c) (rt_ID (projr x)) now2 w2 = (e, w'))"
    using assms 0 1 2 by (auto simp: revokeRefreshTokenCore_def split: sum.splits prod.splits if_splits option.splits)
  then show ?thesis using R1 run_steps(11) [of c _ now2 w2 _ w' ev ttl] by (auto intro: run_trans)
qed

text \<open>The type assertions of the client's handlers, one message type each.\<close>

lemma guest_assertion:
  "(case mo of Some (MGuestAuthenticateResponse m) \<Rightarrow> (Inr (f m), w) | _ \<Rightarrow> (Inl e, w)) = (r, w') \<Longrightarrow>
     w' = w \<and> (\<forall>x. r = Inr x \<longrightarrow> (\<exists>m. x = f m))"
  by (auto split: option.splits Message.splits)

lemma password_assertion:
  "(case mo of Some (MPasswordAuthenticateResponse m) \<Rightarrow> (Inr (f m), w) | _ \<Rightarrow> (Inl e, w)) = (r, w') \<Longrightarrow>
     w' = w \<and> (\<forall>x. r = Inr x \<longrightarrow> (\<exists>m. x = f m))"
  by (auto split: option.splits Message.splits)

lemma refresh_assertion:
  "(case mo of Some (MRefreshAuthenticateResponse m) \<Rightarrow> (Inr (f m), w) | _ \<Rightarrow> (Inl e, w)) = (r, w') \<Longrightarrow>
     w' = w \<and> (\<forall>x. r = Inr x \<longrightarrow> (\<exists>m. x = f m))"
  by (auto split: option.splits Message.splits)

lemma clientLogin_cases:
  assumes "clientLoginAuthenticateCore ev c login w = (r, w')"
  shows "(w' = w \<or> (\<exists>q r1. guestAuthenticateCore ev c q w = (r1, w')) \<or> (\<exists>q r1. passwordAuthenticateCore ev c q w = (r1, w')))
    \<and> (\<forall>x. r = Inr x \<longrightarrow> mr_MessageID x = CLIENT_LOGIN_AUTHENTICATE_RESPONSE)"
  using assms unfolding clientLoginAuthenticateCore_def
  by (auto simp: clientLoginGrant_def split: if_splits prod.splits sum.splits dest!: guest_assertion password_assertion)

lemma clientRefresh_cases:
  assumes "clientRefreshAuthenticateCore ev c refresh w = (r, w')"
  shows "(\<exists>r1. refreshAuthenticateCore ev c refresh w = (r1, w')) \<and> (\<forall>x. r = Inr x \<longrightarrow> mr_MessageID x = CLIENT_REFRESH_AUTHENTICATE_RESPONSE)"
  using assms unfolding clientRefreshAuthenticateCore_def
  by (auto simp: clientRefreshGrant_def split: if_splits prod.splits sum.splits dest!: refresh_assertion)

lemma client_runs:
  shows "clientLoginAuthenticateCore ev c login w = (r, w') \<Longrightarrow> uc_run ev ttl anything c w w'"
    "clientRefreshAuthenticateCore ev c refresh w = (r, w') \<Longrightarrow> uc_run ev ttl anything c w w'"
  using guest_run [of ev c _ w _ w' ttl] password_run [of ev c _ w _ w' ttl] refresh_run [of ev c refresh w _ w' ttl]
  by (auto dest!: clientLogin_cases clientRefresh_cases)

section \<open>Idempotent execution\<close>

text \<open>An execution all of whose effects are steps.\<close>

definition runs :: "'w uc_env \<Rightarrow> (gotime \<Rightarrow> 'w \<Rightarrow> 'w) \<Rightarrow> 'w DomainAuthComponent \<Rightarrow> 'w execution \<Rightarrow> bool" where
  "runs ev ttl c f \<longleftrightarrow> (\<forall>w r w'. f w = (r, w') \<longrightarrow> uc_run ev ttl anything c w w')"

lemma core_runs:
  assumes "\<And>w r w'. f w = (r, w') \<Longrightarrow> uc_run ev ttl anything c w w'"
  shows "runs ev ttl c (core f)"
  unfolding runs_def
proof (intro allI impI)
  fix w r w'
  assume "core f w = (r, w')"
  moreover obtain x w1 where "f w = (x, w1)" by fastforce
  ultimately show "uc_run ev ttl anything c w w'" using assms [of w x w1] by (auto simp: core_def split: sum.splits)
qed

lemma renewLoop_run:
  assumes wired: "wired c K"
  shows "renewLoop c K k rid ticks w = (e, w') \<Longrightarrow> uc_run ev ttl anything c w w'"
proof (induction ticks arbitrary: w)
  case (Cons now ticks)
  obtain e1 w1 where 1: "ipc_Renew K k rid (now + dc_idempotencyLease c) now w = (e1, w1)" by fastforce
  show ?case using Cons.prems Cons.IH [of w1] 1 record_steps(5) [OF wired 1, of ev ttl] by (auto split: option.splits intro: run_trans)
qed simp

lemma renew_run:
  assumes wired: "wired c K" and call: "renewIdempotencyLease ev c K k rid w = (e, w')"
  shows "uc_run ev ttl anything c w w'"
proof -
  obtain ts w1 where 1: "ev_ticks ev w = (ts, w1)" by fastforce
  have "w' = w \<or> renewLoop c K k rid ts w1 = (e, w')"
    using call 1 by (auto simp: renewIdempotencyLease_def Let_def split: if_splits)
  then show ?thesis using run_steps(5) [OF 1, of ttl c] renewLoop_run [OF wired] by (auto intro: run_trans)
qed

lemma executeReserved_run:
  assumes wired: "wired c K" and f: "runs ev ttl c f" and call: "executeReserved ev c K k rid f w = (r, w')"
  shows "uc_run ev ttl anything c w w'"
proof -
  obtain le w1 where 1: "renewIdempotencyLease ev c K k rid w = (le, w1)" by fastforce
  obtain x w2 where 2: "f w1 = (x, w2)" by fastforce
  have R2: "uc_run ev ttl anything c w w2" using renew_run [OF wired 1] f 2 unfolding runs_def by (blast intro: run_trans)
  obtain e w3 where 3: "ipc_Release K k rid w2 = (e, w3)" by fastforce
  obtain n w4 where 4: "dc_now c w2 = (n, w4)" by fastforce
  have "w' = w3 \<or> (\<exists>bs e. ipc_Complete K k rid bs n w4 = (e, w'))"
    using call 1 2 3 4 by (auto simp: executeReserved_def Let_def split: sum.splits option.splits prod.splits)
  then show ?thesis
  proof (elim disjE exE)
    assume "w' = w3"
    then show ?thesis using R2 record_steps(4) [OF wired 3, of ev ttl] by (auto intro: run_trans)
  next
    fix bs e5
    assume 5: "ipc_Complete K k rid bs n w4 = (e5, w')"
    show ?thesis by (rule run_trans [OF R2 run_trans [OF run_steps(4) [OF 4] record_steps(3) [OF wired 5]]])
  qed
qed

lemma lookAgain_run:
  assumes wired: "wired c K" and call: "lookAgain (IdempotencyRepository.truncate K) q now d w = (out, w')"
  shows "uc_run ev ttl anything c w w'"
proof -
  obtain x w1 where 1: "ipr_Find K (ic_key q) now w = (x, w1)" by fastforce
  have "w' = w1" using call 1 by (auto simp: lookAgain_def IdempotencyRepository.truncate_def split: sum.splits if_splits)
  then show ?thesis using record_steps(1) [OF wired 1] by simp
qed

lemma waitRound_run:
  assumes wired: "wired c K" and f: "runs ev ttl c (ic_execute q)" and c: "waitRound ev c (IdempotencyRepository.truncate K) K q d w = (out, w')"
  shows "uc_run ev ttl anything c w w'"
proof -
  obtain now w0 where 0: "dc_now c w = (now, w0)" by fastforce
  obtain u w1 where 1: "ev_uuid ev w0 = (u, w1)" by fastforce
  let ?p = "pendingRecord c (ic_key q) (ic_operation q) (ic_hash q) (projr u) now"
  obtain cur owns e w2 where 2: "ipc_Reserve K ?p now w1 = ((cur, owns, e), w2)" by (metis prod.exhaust)
  have R: "uc_run ev ttl anything c w w0" "uc_run ev ttl anything c w w1" "uc_run ev ttl anything c w w2"
    using run_steps(4) [OF 0, of ev ttl] run_steps(1) [OF 1, of ttl c] record_steps(2) [OF wired _ 2, of ev ttl]
    by (auto intro: run_trans simp: pendingRecord_def)
  have "w' = w1 \<or> w' = w2 \<or> (\<exists>l. lookAgain (IdempotencyRepository.truncate K) q now l w0 = (out, w'))
      \<or> (\<exists>l. lookAgain (IdempotencyRepository.truncate K) q now l w2 = (out, w'))
      \<or> (\<exists>r. executeReserved ev c K (ic_key q) (projr u) (ic_execute q) w2 = (r, w'))"
    using c 0 1 2 by (auto simp: waitRound_def split: sum.splits option.splits prod.splits if_splits)
  then show ?thesis using R lookAgain_run [OF wired] executeReserved_run [OF wired f] by (blast intro: run_trans)
qed

lemma wait_run:
  assumes wired: "wired c K" and call: "waitForIdempotency ev c (IdempotencyRepository.truncate K) K q d w = Some (r, w')" and f: "runs ev ttl c (ic_execute q)"
  shows "uc_run ev ttl anything c w w'"
proof -
  let ?I = "IdempotencyRepository.truncate K"
  let ?P = "\<lambda>e cc I KK q' d w y. e = ev \<longrightarrow> cc = c \<longrightarrow> I = ?I \<longrightarrow> KK = K \<longrightarrow> q' = q \<longrightarrow> uc_run ev ttl anything c w (snd y)"
  have "?P ev c ?I K q d w (r, w')"
  proof (rule waitForIdempotency.raw_induct [where P = ?P, OF _ call], intro impI)
    fix wait e cc I KK q' d w y
    assume IH: "\<And>e cc I KK q' d w y. wait e cc I KK q' d w = Some y \<Longrightarrow> ?P e cc I KK q' d w y"
      and args: "e = ev" "cc = c" "I = ?I" "KK = K" "q' = q"
      and c: "(case waitRound e cc I KK q' d w of (Inl r, w1) \<Rightarrow> Some (r, w1)
        | (Inr deadline', w1) \<Rightarrow> (case ev_pause e w1 of (None, w2) \<Rightarrow> wait e cc I KK q' deadline' w2 | (Some e, w2) \<Rightarrow> Some (Inl e, w2))) = Some y"
    obtain out w1 where 1: "waitRound ev c ?I K q d w = (out, w1)" by fastforce
    note R1 = waitRound_run [OF wired f 1]
    obtain pe w2 where 2: "ev_pause ev w1 = (pe, w2)" by fastforce
    have R2: "uc_run ev ttl anything c w w2" by (rule run_trans [OF R1 run_steps(6) [OF 2]])
    show "uc_run ev ttl anything c w (snd y)"
    proof (cases out)
      case (Inl r)
      then show ?thesis using c 1 R1 args by auto
    next
      case (Inr d')
      then show ?thesis using c 1 2 R2 args IH [of ev c ?I K q d' w2 y] by (cases pe) (auto intro: run_trans)
    qed
  qed
  then show ?thesis by simp
qed

lemma reserve_run:
  assumes wired: "wired c K" and call: "reserveAndExecute ev c (IdempotencyRepository.truncate K) K q now w = Some (r, w')" and f: "runs ev ttl c (ic_execute q)"
  shows "uc_run ev ttl anything c w w'"
proof -
  obtain u w1 where 1: "ev_uuid ev w = (u, w1)" by fastforce
  let ?p = "pendingRecord c (ic_key q) (ic_operation q) (ic_hash q) (projr u) now"
  obtain cur owns e w2 where 2: "ipc_Reserve K ?p now w1 = ((cur, owns, e), w2)" by (metis prod.exhaust)
  have R: "uc_run ev ttl anything c w w1" "uc_run ev ttl anything c w w2"
    using run_steps(1) [OF 1, of ttl c] record_steps(2) [OF wired _ 2, of ev ttl] by (auto intro: run_trans simp: pendingRecord_def)
  have "w' = w1 \<or> w' = w2 \<or> executeReserved ev c K (ic_key q) (projr u) (ic_execute q) w2 = (r, w')
      \<or> waitForIdempotency ev c (IdempotencyRepository.truncate K) K q (ir_LeaseUntil ?p) w2 = Some (r, w')"
    using call 1 2 by (auto simp: reserveAndExecute_def Let_def split: sum.splits option.splits prod.splits if_splits)
  then show ?thesis using R executeReserved_run [OF wired f] wait_run [OF wired _ f] by (blast intro: run_trans)
qed

lemma idempotentCall_run:
  assumes wired: "wired c K" and call: "idempotentCall ev c (IdempotencyRepository.truncate K) q w = Some (r, w')" and f: "runs ev ttl c (ic_execute q)"
  shows "uc_run ev ttl anything c w w'"
proof -
  obtain now w0 where 0: "dc_now c w = (now, w0)" by fastforce
  obtain x w1 where 1: "ipr_Find K (ic_key q) now w0 = (x, w1)" by fastforce
  have R: "uc_run ev ttl anything c w w1" by (rule run_trans [OF run_steps(4) [OF 0] record_steps(1) [OF wired 1]])
  have "w' = w1 \<or> (\<exists>l. waitForIdempotency ev c (IdempotencyRepository.truncate K) K q l w1 = Some (r, w'))
      \<or> reserveAndExecute ev c (IdempotencyRepository.truncate K) K q now w1 = Some (r, w')"
    using call 0 1 wired
    by (auto simp: idempotentCall_def wired_def IdempotencyRepository.truncate_def split: sum.splits option.splits prod.splits if_splits)
  then show ?thesis using R wait_run [OF wired _ f] reserve_run [OF wired _ f] by (blast intro: run_trans)
qed

lemma withIdempotency_run:
  assumes wired: "wired c K" and c: "withIdempotency ev c k op m un f (t, w) = Some (r, t', w')" and f: "runs ev ttl c f"
  shows "uc_run ev ttl anything c w w'"
proof -
  obtain x w1 where 1: "f w = (x, w1)" by fastforce
  have "w' = w \<or> w' = w1 \<or> (\<exists>q. ic_execute q = f \<and> idempotentCall ev c (IdempotencyRepository.truncate K) q w = Some (r, w'))"
    using c 1 wired
    by (auto simp: withIdempotency_def wired_def Let_def split: if_splits prod.splits sum.splits option.splits)
  then show ?thesis
  proof (elim disjE exE conjE)
    fix q
    assume "ic_execute q = f" and q: "idempotentCall ev c (IdempotencyRepository.truncate K) q w = Some (r, w')"
    then show ?thesis using idempotentCall_run [OF wired q] f by simp
  qed (use f 1 in \<open>auto simp: runs_def\<close>)
qed

lemma handler_runs:
  assumes wired: "wired c K" and h: "h \<in> {guestAuthenticate, passwordAuthenticate, refreshAuthenticate, revokeRefreshToken, clientLoginAuthenticate, clientRefreshAuthenticate}"
    and call: "h ev c envelope (t, w) = Some (r, t', w')"
  shows "uc_run ev ttl anything c w w'"
proof -
  have "w' = w \<or> (\<exists>k op m un f. runs ev ttl c f \<and> withIdempotency ev c k op m un f (t, w) = Some (r, t', w'))"
    using h call core_runs [of "guestAuthenticateCore ev c q" for q, OF guest_run]
      core_runs [of "passwordAuthenticateCore ev c q" for q, OF password_run]
      core_runs [of "refreshAuthenticateCore ev c q" for q, OF refresh_run]
      core_runs [of "revokeRefreshTokenCore ev c q" for q, OF revoke_run]
      core_runs [of "clientLoginAuthenticateCore ev c q" for q, OF client_runs(1)]
      core_runs [of "clientRefreshAuthenticateCore ev c q" for q, OF client_runs(2)]
    by (auto simp: guestAuthenticate_def passwordAuthenticate_def refreshAuthenticate_def revokeRefreshToken_def
        clientLoginAuthenticate_def clientRefreshAuthenticate_def split: sum.splits if_splits)
  then show ?thesis using withIdempotency_run [OF wired] by auto
qed

end
