(* ===== verification/UC_Center.thy ===== *)
theory UC_Center
  imports UC_Records UC_Locks UC_Runs Mongo_Memory Codec_Table
begin

text \<open>
  The user center over its Mongo repositories, as \<^verbatim>\<open>src/services/usercenter/module.go\<close> puts it together, the states it reaches, and
  a concrete user center over the in-memory driver on which the witnesses run.
\<close>

text \<open>\<^verbatim>\<open>NewModule\<close> with the driver's resources at hand.\<close>

definition mongoUserCenter ::
    "(accountDocument, 'w) Collection \<Rightarrow> (identityDocument, 'w) Collection \<Rightarrow> (refreshTokenDocument, 'w) Collection \<Rightarrow>
     (idempotencyDocument, 'w) Collection \<Rightarrow> ('w action \<Rightarrow> 'w action) \<Rightarrow> ('w \<Rightarrow> gotime \<times> 'w) \<Rightarrow> duration \<Rightarrow> duration \<Rightarrow>
     'w DomainAuthComponent" where
  "mongoUserCenter CA CI CT CR tx clock TTL IT =
     WithIdempotencyTTL (NewDomainAuthComponent clock (NewAccountRepository CA) (NewIdentityRepository CI)
       (NewRefreshTokenRepository CT tx clock) (Some tx) TTL (Some (IdempotencyRepository.truncate (NewIdempotencyRepository CR clock)))
       (Some (NewIdempotencyRepository CR clock))) IT"

text \<open>\<^verbatim>\<open>Module.Start\<close>: \<open>start\<close> is the start of the embedded service module, \<open>clock\<close> is \<^verbatim>\<open>time.Now\<close>.\<close>

definition labelled :: "string \<Rightarrow> 'w action \<Rightarrow> 'w action \<Rightarrow> 'w action" where
  "labelled label f g w = (case f w of (Some e, w1) \<Rightarrow> (Some (Wrapf label e), w1) | (None, w1) \<Rightarrow> g w1)"

definition recoverAction :: "'w IdempotencyCoordinator \<Rightarrow> ('w \<Rightarrow> gotime \<times> 'w) \<Rightarrow> 'w action" where
  "recoverAction K clock w = (case clock w of (now, w1) \<Rightarrow>
     (case ipc_RecoverExpired K now w1 of (Inl e, w2) \<Rightarrow> (Some e, w2) | (Inr _, w2) \<Rightarrow> (None, w2)))"

definition UserCenter_Start ::
    "(accountDocument, 'w) Collection \<Rightarrow> (identityDocument, 'w) Collection \<Rightarrow> (refreshTokenDocument, 'w) Collection \<Rightarrow>
     (idempotencyDocument, 'w) Collection \<Rightarrow> ('w action \<Rightarrow> 'w action) \<Rightarrow> ('w \<Rightarrow> gotime \<times> 'w) \<Rightarrow> 'w action \<Rightarrow> 'w action" where
  "UserCenter_Start CA CI CT CR tx clock start =
     labelled ''ensure accounts indexes: '' (acr_EnsureIndexes (NewAccountRepository CA))
      (labelled ''ensure account identities indexes: '' (inr_EnsureIndexes (NewIdentityRepository CI))
       (labelled ''ensure refresh token indexes: '' (rtr_EnsureIndexes (NewRefreshTokenRepository CT tx clock))
        (labelled ''ensure idempotency indexes: '' (ipr_EnsureIndexes (NewIdempotencyRepository CR clock))
         (labelled ''recover expired idempotency records: '' (recoverAction (NewIdempotencyRepository CR clock) clock) start))))"

definition emptyUserCenter :: uc_db where
  "emptyUserCenter = \<lparr>db_accounts = [], db_identities = [], db_tokens = [], db_records = []\<rparr>"

text \<open>The library's facts on this component.\<close>

lemmas center_run = ma.run_refines [folded mongoUserCenter_def]
lemmas center_refreshed = ma.refresh_ok [folded mongoUserCenter_def]
lemmas center_refused = ma.refresh_refused [folded mongoUserCenter_def]
lemmas center_revoked = ma.revoke_ok [folded mongoUserCenter_def]
lemmas center_guested = ma.guest_ok [folded mongoUserCenter_def]
lemmas center_password = ma.password_ok [folded mongoUserCenter_def]

text \<open>States of the user center.\<close>

definition center_reaches where
  "center_reaches CA CI CT CR tx ev clock ttl view TTL IT w \<longleftrightarrow> uc_driver CA CI CT CR tx ev clock ttl view
     \<and> (\<exists>w0. view w0 = emptyUserCenter \<and> uc_run ev ttl anything (mongoUserCenter CA CI CT CR tx clock TTL IT) w0 w)"

lemma center_reached:
  assumes "center_reaches CA CI CT CR tx ev clock ttl view TTL IT w"
  shows "uc_ok CA CI CT CR tx ev clock ttl view w" "uc_wf (uc_abs (view w))"
proof -
  obtain w0 where d: "uc_driver CA CI CT CR tx ev clock ttl view" and w0: "view w0 = emptyUserCenter"
    and run: "uc_run ev ttl anything (mongoUserCenter CA CI CT CR tx clock TTL IT) w0 w"
    using assms unfolding center_reaches_def by blast
  have ok: "uc_ok CA CI CT CR tx ev clock ttl view w0"
    using d by (simp add: uc_ok_def w0 emptyUserCenter_def uc_inv_def uc_unique_def uc_stored_def)
  note R = center_run [OF run ok]
  show "uc_ok CA CI CT CR tx ev clock ttl view w" using R by simp
  have "uc_wf (uc_abs (view w0))" by (simp add: w0 emptyUserCenter_def uc_wf_def uc_abs_fields)
  then show "uc_wf (uc_abs (view w))" using wf_run R by blast
qed

section \<open>Tokens by their identifiers\<close>

text \<open>The token with an identifier, if it is still there, has been revoked.\<close>

definition spent_id :: "string \<Rightarrow> uc_view \<Rightarrow> bool" where
  "spent_id i v \<longleftrightarrow> (\<forall>t. uv_tokens v i = Some t \<longrightarrow> rt_RevokedAt t \<noteq> None)"

lemma spent_id_step:
  assumes "view_step L v v'" "spent_id i v" "\<And>t. lm_token L t \<Longrightarrow> rt_ID t \<noteq> i"
  shows "spent_id i v'"
  using assms
proof (induction rule: view_step.induct)
  case (v_ttl T v R)
  have "uv_tokens v i = Some t" if "T i = Some t" for t using v_ttl(1) that by (metis domI map_le_def)
  then show ?case using v_ttl.prems by (auto simp: spent_id_def)
next
  case (v_rotate j now t v v')
  have "rt_ID t \<noteq> i" using v_rotate by blast
  then show ?case using v_rotate(1,3) by (auto simp: spent_id_def rotates_def rotated_def split: if_splits)
qed (auto simp: spent_id_def registers_def adds_token_def rotates_def rotated_def split: if_splits)

lemma spent_id_run:
  assumes "(view_step L)\<^sup>*\<^sup>* v v'" "spent_id i v" "\<And>t. lm_token L t \<Longrightarrow> rt_ID t \<noteq> i"
  shows "spent_id i v'"
  using assms(1,2) by (induction rule: rtranclp_induct) (auto intro: spent_id_step [OF _ _ assms(3)])

section \<open>Calls with a key\<close>

lemma withIdempotency_keyed:
  assumes "dc_idempotency c = Some I" "TrimSpace k \<noteq> ''''" "withIdempotency ev c k op m un f (t, w) = Some (Inr r, t', w')"
  obtains h where "requestHashOf ev m = Inr h"
    "idempotentCall ev c I \<lparr>ic_key = TrimSpace k, ic_operation = op, ic_hash = h, ic_un = un, ic_execute = f\<rparr> w = Some (Inr r, w')"
  using assms by (auto simp: withIdempotency_def Let_def split: prod.splits option.splits sum.splits)

lemma withIdempotency_enters:
  assumes "dc_idempotency c = Some I" "TrimSpace k \<noteq> ''''" "requestHashOf ev m = Inr h"
    and "case lt_map t (TrimSpace k) of None \<Rightarrow> True | Some p \<Rightarrow> \<not> le_mu (lt_heap t p)"
    and "idempotentCall ev c I \<lparr>ic_key = TrimSpace k, ic_operation = op, ic_hash = h, ic_un = un, ic_execute = f\<rparr> w = Some (r, w')"
  shows "\<exists>t'. withIdempotency ev c k op m un f (t, w) = Some (r, t', w')"
proof -
  obtain p t1 where 1: "acquireIdempotencyLock (TrimSpace k) t = (p, t1)" by fastforce
  obtain t2 where "lockMutex p t1 = Some t2" using lock_free [OF 1 assms(4)] by blast
  then show ?thesis using assms 1 by (simp add: withIdempotency_def Let_def)
qed

section \<open>A concrete user center\<close>

text \<open>The in-memory driver, a clock that stands still, and identifiers and tokens counted by the tokens in the database.\<close>

definition mem_accounts where "mem_accounts = memoryCollection (accounts_place (\<lambda>w. w))"
definition mem_identities where "mem_identities = memoryCollection (identities_place (\<lambda>w. w))"
definition mem_tokens where "mem_tokens = memoryCollection (tokens_place (\<lambda>w. w))"
definition mem_records where "mem_records = memoryCollection (records_place (\<lambda>w. w))"

definition mem_clock :: "uc_db \<Rightarrow> gotime \<times> uc_db" where
  "mem_clock w = (5000000, w)"

definition mem_ttl :: "gotime \<Rightarrow> uc_db \<Rightarrow> uc_db" where
  "mem_ttl now w = w\<lparr>db_tokens := filter (\<lambda>d. bsonTime now < rtd_ExpiresAt d) (db_tokens w),
     db_records := filter (\<lambda>d. bsonTime now < ird_ExpiresAt d) (db_records w)\<rparr>"

definition guest_q :: GuestAuthenticateRequest where
  "guest_q = \<lparr>gq_InstallId = ''dev'', gq_ClientPlatform = '''', gq_ClientVersion = '''', gq_IdempotencyKey = ''''\<rparr>"

definition refresh_q :: RefreshAuthenticateRequest where
  "refresh_q = \<lparr>fq_RefreshToken = ''AA'', fq_InstallId = ''dev'', fq_IdempotencyKey = ''k''\<rparr>"

definition login_q :: PasswordAuthenticateRequest where
  "login_q = \<lparr>wq_Username = ''bob'', wq_Password = ''secret'', wq_InstallId = ''dev'', wq_IdempotencyKey = ''''\<rparr>"

definition refresh_grant :: TokenGrant where
  "refresh_grant = \<lparr>tg_AccountId = ''u0'', tg_RefreshToken = ''AQ'', tg_RefreshTokenExpireAtUnix = Unix 9000000\<rparr>"

definition mem_codec :: codec where
  "mem_codec = tableCodec [MRefreshAuthenticateRequest refresh_q, MRefreshAuthenticateRequest (refresh_q\<lparr>fq_IdempotencyKey := ''''\<rparr>),
     MRefreshAuthenticateResponse refresh_grant]"

definition mem_env :: "uc_db uc_env" where
  "mem_env = \<lparr>ev_codec = mem_codec, ev_uuid = (\<lambda>w. (Inr (''u'' @ show_nat (length (db_tokens w))), w)),
     ev_rand = (\<lambda>w. (Inr [of_nat (length (db_tokens w))], w)), ev_sha256 = (\<lambda>bs. bs),
     ev_hashPassword = (\<lambda>p w. (Inr (''#'' @ p), w)), ev_checkPassword = (\<lambda>h p. h = ''#'' @ p),
     ev_ticks = (\<lambda>w. ([], w)), ev_pause = (\<lambda>w. (Some (Sentinel ContextDeadlineExceeded), w))\<rparr>"

definition memUserCenter :: "uc_db DomainAuthComponent" where
  "memUserCenter = mongoUserCenter mem_accounts mem_identities mem_tokens mem_records memoryTx mem_clock 4000000 4000000"

lemma uc_mem_driver: "uc_driver mem_accounts mem_identities mem_tokens mem_records memoryTx mem_env mem_clock mem_ttl (\<lambda>w. w)"
proof -
  have "\<exists>g h. mem_ttl now w = w\<lparr>db_tokens := filter g (db_tokens w), db_records := filter h (db_records w)\<rparr>
    \<and> (\<forall>d. \<not> g d \<longrightarrow> rtd_ExpiresAt d \<le> bsonTime now) \<and> (\<forall>d. \<not> h d \<longrightarrow> ird_ExpiresAt d \<le> bsonTime now)" for now w
    by (intro exI [of _ "\<lambda>d. bsonTime now < rtd_ExpiresAt d"] exI [of _ "\<lambda>d. bsonTime now < ird_ExpiresAt d"])
      (simp add: mem_ttl_def not_less)
  then show ?thesis
    by (simp add: uc_driver_def mem_accounts_def mem_identities_def mem_tokens_def mem_records_def mem_clock_def mem_env_def
        memory_driver)
qed


definition token1 :: refreshTokenDocument where
  "token1 = \<lparr>rtd_TokenID = ''u0'', rtd_AccountID = ''u0'', rtd_TokenHash = ''4141'', rtd_InstallID = ''dev'',
     rtd_CreatedAt = 5000000, rtd_ExpiresAt = 9000000, rtd_RevokedAt = None\<rparr>"

definition token2 :: refreshTokenDocument where
  "token2 = token1\<lparr>rtd_TokenID := ''u1'', rtd_TokenHash := ''4151''\<rparr>"

definition center1 :: uc_db where
  "center1 = \<lparr>db_accounts = [\<lparr>acd_AccountID = ''u0'', acd_PlayerIDs = Strs [], acd_CreatedAt = 5000000, acd_UpdatedAt = 5000000\<rparr>],
     db_identities = [\<lparr>ind_IdentityID = ''u0'', ind_AccountID = ''u0'', ind_Provider = AuthProviderGuest, ind_Subject = ''dev'',
       ind_PasswordHash = '''', ind_LinkedAt = 5000000\<rparr>],
     db_tokens = [token1], db_records = []\<rparr>"

definition center2 :: uc_db where
  "center2 = center1\<lparr>db_tokens := [token1\<lparr>rtd_RevokedAt := Some 5000000\<rparr>, token2]\<rparr>"

lemma mem_fields [simp]:
  "dc_accounts memUserCenter = NewAccountRepository mem_accounts" "dc_identities memUserCenter = NewIdentityRepository mem_identities"
  "dc_refreshTokens memUserCenter = NewRefreshTokenRepository mem_tokens memoryTx mem_clock" "dc_unitOfWork memUserCenter = Some memoryTx"
  "dc_now memUserCenter = mem_clock" "dc_refreshTokenTTL memUserCenter = 4000000"
  "dc_coordinator memUserCenter = Some (NewIdempotencyRepository mem_records mem_clock)"
  "dc_idempotency memUserCenter = Some (IdempotencyRepository.truncate (NewIdempotencyRepository mem_records mem_clock))"
  by (simp_all add: memUserCenter_def mongoUserCenter_def Let_def)

lemma mem_env_fields [simp]:
  "ev_uuid mem_env w = (Inr (''u'' @ show_nat (length (db_tokens w))), w)" "ev_rand mem_env w = (Inr [of_nat (length (db_tokens w))], w)"
  "ev_sha256 mem_env bs = bs" "ev_hashPassword mem_env p w = (Inr (''#'' @ p), w)" "ev_checkPassword mem_env h p = (h = ''#'' @ p)"
  "ev_ticks mem_env w = ([], w)" "ev_pause mem_env w = (Some (Sentinel ContextDeadlineExceeded), w)" "ev_codec mem_env = mem_codec"
  by (simp_all add: mem_env_def)

lemma token_codes:
  "rawURLEncoding [0] = ''AA''" "rawURLEncoding [1] = ''AQ''" "base64Digit 0 = CHR ''A''" "base64Digit 16 = CHR ''Q''"
  "base64Digit 32 = CHR ''g''" "hexString (string_bytes ''Ag'') = ''4167''" "rawURLEncoding [2] = ''Ag''"
  "hexString (string_bytes ''AA'') = ''4141''" "hexString (string_bytes ''AQ'') = ''4151''"
  by (simp_all add: base64Digit_def hexString_def string_bytes_def hexDigit_def)

lemma mem_trims: "TrimSpace ''dev'' = ''dev''" "TrimSpace ''k'' = ''k''" "TrimSpace ''bob'' = ''bob''" "TrimSpace ''AA'' = ''AA''"
  by (simp_all add: TrimSpace_graphic graphic_def)

lemma mem_show: "show_nat 0 = ''0''" "show_nat (Suc 0) = ''1''" "show_nat (Suc (Suc 0)) = ''2''"
  by code_simp+

lemmas center_ops = uc_places mem_accounts_def mem_identities_def mem_tokens_def mem_records_def memory_ops mem_clock_def uc_repositories
  bsonTime_def uc_enc AccountRepository_Create_def IdentityRepository_Create_def IdentityRepository_Find_def
  RefreshTokenRepository_Create_def RefreshTokenRepository_FindValid_def RefreshTokenRepository_Rotate_def rotateIn_def
  revokeUpdate_def validFilter_def accountDocumentFromDomain_def identityDocumentFromDomain_def refreshTokenDocumentFromDomain_def
  identityDomainFromDocument_def refreshTokenDomainFromDocument_def cloneTime_def cloneStrings_def Account_Validate_def
  Identity_Validate_def RefreshToken_Validate_def AuthProviderGuest_def AuthProviderPassword_def

lemma mem_newToken:
  "newToken mem_env memUserCenter acc ''dev'' w =
     (if acc = '''' then (Inl (Sentinel ErrInvalidToken), w)
      else (Inr (\<lparr>rt_ID = ''u'' @ show_nat (length (db_tokens w)), rt_AccountID = acc,
           rt_TokenHash = hexString (string_bytes (rawURLEncoding [of_nat (length (db_tokens w))])),
           rt_InstallID = ''dev'', rt_CreatedAt = 5000000, rt_ExpiresAt = 9000000, rt_RevokedAt = None\<rparr>,
           rawURLEncoding [of_nat (length (db_tokens w))]), w))"
  by (simp add: newToken_def mem_clock_def Let_def authHashToken_def mem_trims)

lemma center_guest:
  "guestAuthenticateCore mem_env memUserCenter guest_q emptyUserCenter =
     (Inr (guestResult ''u0'' (refreshTokenDomainFromDocument token1) ''AA'' True), center1)"
  by (simp add: guestAuthenticateCore_def guest_q_def mem_trims Let_def createAccountAndToken_def accountInputs_def mem_newToken
      storeAccount_def center_ops emptyUserCenter_def mem_show token_codes center1_def token1_def AuthProviderGuest_def guestResult_def)

lemma center_refresh:
  "refreshAuthenticateCore mem_env memUserCenter refresh_q (center1\<lparr>db_records := R\<rparr>) =
     (Inr (refreshResult ''u0'' (refreshTokenDomainFromDocument token2) ''AQ''), center2\<lparr>db_records := R\<rparr>)"
  by (simp add: refreshAuthenticateCore_def refresh_q_def mem_trims mem_newToken authHashToken_def token_codes IsUsable_def
      center_ops mem_show center1_def center2_def token1_def token2_def refreshResult_def)

text \<open>A second guest login, after the refresh.\<close>

definition center3 :: uc_db where
  "center3 = center2\<lparr>db_tokens := db_tokens center2 @ [token1\<lparr>rtd_TokenID := ''u2'', rtd_TokenHash := ''4167''\<rparr>]\<rparr>"

lemma center_guest_again:
  "guestAuthenticateCore mem_env memUserCenter guest_q center2 =
     (Inr (guestResult ''u0'' (refreshTokenDomainFromDocument (token1\<lparr>rtd_TokenID := ''u2'', rtd_TokenHash := ''4167''\<rparr>)) ''Ag'' False), center3)"
  by (simp add: guestAuthenticateCore_def guest_q_def mem_trims Let_def issueToken_def mem_newToken
      center_ops mem_show token_codes center1_def center2_def center3_def token1_def token2_def guestResult_def)

lemma center_rotate:
  "rtr_Rotate (NewRefreshTokenRepository mem_tokens memoryTx mem_clock) ''u0'' 5000000 (refreshTokenDomainFromDocument token2) center1
     = (None, center2)"
  by (simp add: center_ops center1_def center2_def token1_def token2_def)

text \<open>A login with a password, twice.\<close>

definition centerP :: "uc_db" where
  "centerP = \<lparr>db_accounts = db_accounts center1,
     db_identities = [\<lparr>ind_IdentityID = ''u0'', ind_AccountID = ''u0'', ind_Provider = AuthProviderPassword, ind_Subject = ''bob'',
       ind_PasswordHash = ''#secret'', ind_LinkedAt = 5000000\<rparr>],
     db_tokens = [token1], db_records = []\<rparr>"

lemma center_login:
  "passwordAuthenticateCore mem_env memUserCenter login_q emptyUserCenter =
     (Inr (passwordResult ''u0'' (refreshTokenDomainFromDocument token1) ''AA''), centerP)"
  by (simp add: passwordAuthenticateCore_def login_q_def mem_trims Let_def createAccountAndToken_def accountInputs_def mem_newToken
      invalidCredentials_def storeAccount_def center_ops emptyUserCenter_def mem_show token_codes center1_def centerP_def token1_def
      passwordResult_def)

lemma login_password: "wq_Password login_q = ''secret''"
  by (simp add: login_q_def)

lemma center_login_again:
  "passwordAuthenticateCore mem_env memUserCenter login_q centerP =
     (Inr (passwordResult ''u0'' (refreshTokenDomainFromDocument token2) ''AQ''), centerP\<lparr>db_tokens := [token1, token2]\<rparr>)"
  by (simp add: passwordAuthenticateCore_def login_q_def mem_trims Let_def issueToken_def mem_newToken passwordMatches_def
      invalidCredentials_def center_ops mem_show token_codes center1_def centerP_def token1_def token2_def passwordResult_def)

text \<open>A reservation, and a refresh with an idempotency key.\<close>

definition pending1 :: IdempotencyRecord where
  "pending1 = \<lparr>ir_Key = ''k'', ir_Operation = ''refresh_authenticate'', ir_AccountID = '''', ir_RequestHash = ''0000'', ir_Response = [],
     ir_State = IdempotencyStatePending, ir_ReservationID = ''u1'', ir_LeaseUntil = 30005000000, ir_CreatedAt = 5000000,
     ir_ExpiresAt = 9000000\<rparr>"

definition record1 :: idempotencyDocument where
  "record1 = \<lparr>ird_Key = ''k'', ird_Operation = ''refresh_authenticate'', ird_AccountID = '''', ird_RequestHash = ''0000'',
     ird_Response = [], ird_State = IdempotencyStatePending, ird_ReservationID = ''u1'', ird_LeaseUntil = 30005000000,
     ird_CreatedAt = 5000000, ird_ExpiresAt = 9000000\<rparr>"

definition record2 :: idempotencyDocument where
  "record2 = record1\<lparr>ird_State := IdempotencyStateCompleted, ird_Response := [0, 0, 0], ird_LeaseUntil := 0\<rparr>"

lemmas record_ops = NewIdempotencyRepository_def IdempotencyRepository_Find_def IdempotencyRepository_Reserve_def
  IdempotencyRepository_Complete_def idempotencyDocumentFromDomain_def idempotencyDomainFromDocument_def IdempotencyRecord_Validate_def
  IdempotencyRepository.truncate_def IdempotencyStatePending_def IdempotencyStateCompleted_def record_filters record_updates

lemma center_reserve:
  "ipc_Reserve (NewIdempotencyRepository mem_records mem_clock) pending1 5000000 (center1\<lparr>db_records := []\<rparr>)
     = ((Some pending1, True, None), center1\<lparr>db_records := [record1]\<rparr>)"
  by (simp add: record_ops center_ops pending1_def record1_def center1_def)

lemma refresh_wire:
  "pb_RefreshAuthenticateRequest mem_codec [0] = Inr refresh_q"
  "pb_Marshal mem_codec (MRefreshAuthenticateRequest (refresh_q\<lparr>fq_IdempotencyKey := ''''\<rparr>)) = Inr [0, 0]"
  "pb_Marshal mem_codec (MRefreshAuthenticateResponse refresh_grant) = Inr [0, 0, 0]"
  by (simp_all add: mem_codec_def tableCodec_def decode_as_def entry_def numeral_eq_Suc refresh_q_def)

lemma refresh_decodes: "decodes mem_codec (pb_RefreshAuthenticateResponse mem_codec) MRefreshAuthenticateResponse"
proof -
  have "decodes (tableCodec ms) (pb_RefreshAuthenticateResponse (tableCodec ms)) MRefreshAuthenticateResponse" for ms
    by (simp add: tableCodec_def decode_as_decodes [unfolded tableCodec_def])
  then show ?thesis unfolding mem_codec_def by blast
qed

definition refresh_call :: "uc_db idem_call" where
  "refresh_call = \<lparr>ic_key = ''k'', ic_operation = ''refresh_authenticate'', ic_hash = ''0000'',
     ic_un = answerAs MRefreshAuthenticateResponse (pb_RefreshAuthenticateResponse mem_codec),
     ic_execute = core (refreshAuthenticateCore mem_env memUserCenter refresh_q)\<rparr>"

lemma center_execute:
  "executeReserved mem_env memUserCenter (NewIdempotencyRepository mem_records mem_clock) ''k'' ''u1''
     (core (refreshAuthenticateCore mem_env memUserCenter refresh_q)) (center1\<lparr>db_records := [record1]\<rparr>) =
   (Inr (Some (refreshResult ''u0'' (refreshTokenDomainFromDocument token2) ''AQ'')), center2\<lparr>db_records := [record2]\<rparr>)"
proof -
  have m: "mr_Message (refreshResult ''u0'' (refreshTokenDomainFromDocument token2) ''AQ'') = Some (MRefreshAuthenticateResponse refresh_grant)"
    by (simp add: refreshResult_def refresh_grant_def refreshTokenDomainFromDocument_def token2_def token1_def)
  have "ipc_Complete (NewIdempotencyRepository mem_records mem_clock) ''k'' ''u1'' [0, 0, 0] 5000000 (center2\<lparr>db_records := [record1]\<rparr>)
      = (None, center2\<lparr>db_records := [record2]\<rparr>)"
    by (simp add: record_ops center_ops record1_def record2_def center2_def center1_def)
  then show ?thesis
    by (simp add: executeReserved_def renewIdempotencyLease_def core_def center_refresh m refresh_wire Let_def)
      (simp add: mem_clock_def)
qed

lemma center_call:
  "idempotentCall mem_env memUserCenter (IdempotencyRepository.truncate (NewIdempotencyRepository mem_records mem_clock)) refresh_call center1 =
     Some (Inr (Some (refreshResult ''u0'' (refreshTokenDomainFromDocument token2) ''AQ'')), center2\<lparr>db_records := [record2]\<rparr>)"
proof -
  have c: "center1 = center1\<lparr>db_records := []\<rparr>" by (simp add: center1_def)
  have f: "ipr_Find (NewIdempotencyRepository mem_records mem_clock) ''k'' 5000000 center1
      = (Inl (Sentinel ErrIdempotencyNotFound), center1)"
    by (simp add: record_ops center_ops center1_def)
  have u: "show_nat (length (db_tokens center1)) = ''1''" by (simp add: center1_def mem_show)
  have p: "pendingRecord memUserCenter ''k'' ''refresh_authenticate'' ''0000'' ''u1'' 5000000 = pending1"
    by (simp add: pendingRecord_def pending1_def memUserCenter_def mongoUserCenter_def NewDomainAuthComponent_def WithIdempotencyTTL_def)
  show ?thesis
    using center_reserve center_execute
    by (simp add: idempotentCall_def reserveAndExecute_def refresh_call_def mem_clock_def f u p Let_def flip: c)
qed

lemma center_refresh_keyed:
  "refreshAuthenticate mem_env memUserCenter (emptyEnvelope\<lparr>en_Payload := [0]\<rparr>) (emptyLocks, center1) =
     Some (Inr (Some (refreshResult ''u0'' (refreshTokenDomainFromDocument token2) ''AQ'')),
       releaseIdempotencyLock ''k'' 0 (unlockMutex 0 (the (lockMutex 0 (snd (acquireIdempotencyLock ''k'' emptyLocks))))),
       center2\<lparr>db_records := [record2]\<rparr>)"
proof -
  have q: "TrimSpace (fq_RefreshToken refresh_q) = ''AA''" "TrimSpace (fq_InstallId refresh_q) = ''dev''" "TrimSpace (fq_IdempotencyKey refresh_q) = ''k''"
    by (simp_all add: refresh_q_def mem_trims)
  have h: "requestHashOf mem_env (MRefreshAuthenticateRequest refresh_q) = Inr ''0000''"
    by (simp add: requestHashOf_def refresh_wire hexString_def hexDigit_def)
  obtain t1 where a: "acquireIdempotencyLock ''k'' emptyLocks = (0, t1)" and "\<not> le_mu (lt_heap t1 0)"
    by (auto simp: acquireIdempotencyLock_def emptyLocks_def setEntry_def)
  then obtain t2 where l: "lockMutex 0 t1 = Some t2" by (simp add: lockMutex_def)
  show ?thesis
    using center_call unfolding refresh_call_def by (simp add: refreshAuthenticate_def refresh_wire q withIdempotency_def h a l)
qed

section \<open>Reached states\<close>

lemma mem_reaches:
  assumes "uc_run mem_env mem_ttl anything memUserCenter emptyUserCenter w"
  shows "center_reaches mem_accounts mem_identities mem_tokens mem_records memoryTx mem_env mem_clock mem_ttl (\<lambda>w. w) 4000000 4000000 w"
  unfolding center_reaches_def using uc_mem_driver assms by (auto simp: memUserCenter_def)

lemma center1_run: "uc_run mem_env mem_ttl anything memUserCenter emptyUserCenter center1"
  by (rule guest_run [OF center_guest])

lemma center1_self: "center1\<lparr>db_records := []\<rparr> = center1" "center2\<lparr>db_records := []\<rparr> = center2"
  by (simp_all add: center1_def center2_def)

lemmas center_refresh1 = center_refresh [of "[]", unfolded center1_self]

lemmas mem_reached = mem_reaches [OF rtranclp.rtrancl_refl] mem_reaches [OF center1_run]

text \<open>Nothing but reads between two requests.\<close>

definition quiet :: limits where
  "quiet = \<lparr>lm_token = (\<lambda>_. False), lm_time = (\<lambda>n. n = 5000000), lm_holder = (\<lambda>_. False)\<rparr>"

lemma quiet_simps [simp]: "\<not> lm_token quiet t" "lm_time quiet n \<longleftrightarrow> n = 5000000" "\<not> lm_holder quiet rid"
  by (simp_all add: quiet_def)

end
