(* ===== verification/UC_Props.thy ===== *)
theory UC_Props
  imports UC_Center
begin

text \<open>
  The properties of the user center over its Mongo repositories.
\<close>

text \<open>
  C3: A refresh token can be used once.  After a refresh with the token or its revocation has succeeded, and after any
  interleaving of steps of other requests, clock readings and removals by the server that does not issue the same token again, a
  refresh with that token is refused and changes nothing.
\<close>

theorem refresh_token_single_use:
  assumes reach: "center_reaches CA CI CT CR tx ev clock ttl view TTL IT w"
    and used: "refreshAuthenticateCore ev (mongoUserCenter CA CI CT CR tx clock TTL IT) q w = (Inr m, w1) \<and> fq_RefreshToken q = token
      \<or> revokeRefreshTokenCore ev (mongoUserCenter CA CI CT CR tx clock TTL IT) v w = (Inr m, w1) \<and> vq_RefreshToken v = token"
    and fresh: "\<forall>t. lm_token L t \<longrightarrow> rt_TokenHash t \<noteq> authHashToken ev token"
    and run: "uc_run ev ttl L (mongoUserCenter CA CI CT CR tx clock TTL IT) w1 w2"
    and again: "refreshAuthenticateCore ev (mongoUserCenter CA CI CT CR tx clock TTL IT) q' w2 = (r, w3)" "fq_RefreshToken q' = token"
  shows "(\<exists>e. r = Inl e) \<and> uc_abs (view w3) = uc_abs (view w2)"
proof -
  note ok = center_reached(1) [OF reach]
  have "uc_ok CA CI CT CR tx ev clock ttl view w1 \<and> spent (authHashToken ev token) (uc_abs (view w1))"
    using used
  proof (elim disjE conjE)
    assume c: "refreshAuthenticateCore ev (mongoUserCenter CA CI CT CR tx clock TTL IT) q w = (Inr m, w1)" and t: "fq_RefreshToken q = token"
    note R = center_refreshed [OF ok c]
    then show ?thesis using ma.rotates_spent [OF ok] t by fastforce
  next
    assume c: "revokeRefreshTokenCore ev (mongoUserCenter CA CI CT CR tx clock TTL IT) v w = (Inr m, w1)" and t: "vq_RefreshToken v = token"
    note R = center_revoked [OF ok c]
    then show ?thesis using ma.revoked_spent [OF ok] t by fastforce
  qed
  moreover from this have 2: "uc_ok CA CI CT CR tx ev clock ttl view w2" "(view_step L)\<^sup>*\<^sup>* (uc_abs (view w1)) (uc_abs (view w2))"
    using center_run [OF run] by blast+
  ultimately have "spent (authHashToken ev token) (uc_abs (view w2))" using spent_run [OF 2(2)] fresh by blast
  then show ?thesis using center_refused [OF 2(1) _ again(1)] again(2) by (cases r) auto
qed

theorem refresh_token_single_use_witness:
  "fst (refreshAuthenticateCore mem_env memUserCenter refresh_q center1) = Inr (refreshResult ''u0'' (refreshTokenDomainFromDocument token2) ''AQ'')
   \<and> isl (fst (refreshAuthenticateCore mem_env memUserCenter refresh_q center2))"
  using refresh_token_single_use [OF mem_reached(2), folded memUserCenter_def, OF disjI1 [OF conjI [OF center_refresh1 refl]], of quiet center2
      refresh_q "fst (refreshAuthenticateCore mem_env memUserCenter refresh_q center2)" "snd (refreshAuthenticateCore mem_env memUserCenter refresh_q center2)"]
  by (auto simp: center_refresh1)

text \<open>
  When two requests found the same token valid, at most one of them rotates it: once a rotation of the token has
  succeeded, every later one fails and stores no new token, whatever happens in between.
\<close>

theorem rotation_happens_once:
  assumes reach: "center_reaches CA CI CT CR tx ev clock ttl view TTL IT w"
    and first: "rtr_Rotate (NewRefreshTokenRepository CT tx clock) i now t w = (None, w1)"
    and fresh: "\<forall>t. lm_token L t \<longrightarrow> rt_ID t \<noteq> i"
    and run: "uc_run ev ttl L (mongoUserCenter CA CI CT CR tx clock TTL IT) w1 w2"
    and later: "rtr_Rotate (NewRefreshTokenRepository CT tx clock) i now' t' w2 = (e, w3)"
  shows "e \<noteq> None \<and> uc_abs (view w3) = uc_abs (view w2)"
proof -
  note ok = center_reached(1) [OF reach]
  from ma.token_rotate [OF ok first] have ok1: "uc_ok CA CI CT CR tx ev clock ttl view w1"
    and rot: "rotates i now t (uc_abs (view w)) (uc_abs (view w1))" by simp_all
  have sp: "spent_id i (uc_abs (view w1))" using rot by (auto simp: rotates_def rotated_def spent_id_def unused_def split: if_splits)
  note R = center_run [OF run ok1]
  have "spent_id i (uc_abs (view w2))" using spent_id_run [OF _ sp] R fresh by blast
  then have "\<not> rotates i now' t' (uc_abs (view w2)) v" for v by (auto simp: rotates_def spent_id_def live_def)
  then show ?thesis using ma.token_rotate [OF conjunct1 [OF R] later] by (cases e) simp_all
qed

theorem rotation_happens_once_witness:
  "fst (rtr_Rotate (NewRefreshTokenRepository mem_tokens memoryTx mem_clock) ''u0'' 5000000 (refreshTokenDomainFromDocument token2) center1) = None
   \<and> fst (rtr_Rotate (NewRefreshTokenRepository mem_tokens memoryTx mem_clock) ''u0'' 5000000 (refreshTokenDomainFromDocument token1) center2) \<noteq> None"
  using rotation_happens_once [OF mem_reached(2) center_rotate, of quiet center2 5000000 "refreshTokenDomainFromDocument token1",
      OF _ _ prod.collapse [symmetric]]
  by (simp add: center_rotate)

text \<open>
  C11: A guest keeps its account.  Two successful guest logins from the same installation yield the same account, with any
  interleaving of steps in between.
\<close>

theorem guest_account_stable:
  assumes reach: "center_reaches CA CI CT CR tx ev clock ttl view TTL IT w"
    and first: "guestAuthenticateCore ev (mongoUserCenter CA CI CT CR tx clock TTL IT) q w = (Inr m, w1)"
    and run: "uc_run ev ttl anything (mongoUserCenter CA CI CT CR tx clock TTL IT) w1 w2"
    and later: "guestAuthenticateCore ev (mongoUserCenter CA CI CT CR tx clock TTL IT) q' w2 = (Inr m', w3)"
    and same: "TrimSpace (gq_InstallId q') = TrimSpace (gq_InstallId q)"
  shows "\<exists>acc t raw b t' raw' b'. m = guestResult acc t raw b \<and> m' = guestResult acc t' raw' b'"
proof -
  note G = center_guested [OF center_reached(1) [OF reach] first]
  note R = center_run [OF run G(1)]
  note G' = center_guested [OF conjunct1 [OF R] later]
  obtain x where "uv_identities (uc_abs (view w1)) (AuthProviderGuest, TrimSpace (gq_InstallId q)) = Some x"
    and m: "\<exists>t raw b. m = guestResult (idn_AccountID x) t raw b" using G(2) by blast
  then have "uv_identities (uc_abs (view w2)) (AuthProviderGuest, TrimSpace (gq_InstallId q)) = Some x"
    using identity_run R by blast
  moreover have "(view_step anything)\<^sup>*\<^sup>* (uc_abs (view w2)) (uc_abs (view w3))"
    using center_run [OF guest_run [OF later]] R by blast
  ultimately have "uv_identities (uc_abs (view w3)) (AuthProviderGuest, TrimSpace (gq_InstallId q)) = Some x"
    using identity_run by blast
  then have "\<exists>t raw b. m' = guestResult (idn_AccountID x) t raw b" using G'(2) same by fastforce
  then show ?thesis using m by blast
qed

theorem guest_account_stable_witness:
  "\<exists>acc t raw b t' raw' b'. fst (guestAuthenticateCore mem_env memUserCenter guest_q emptyUserCenter) = Inr (guestResult acc t raw b)
     \<and> fst (guestAuthenticateCore mem_env memUserCenter guest_q center2) = Inr (guestResult acc t' raw' b')"
  using guest_account_stable [OF mem_reached(1), folded memUserCenter_def, OF center_guest refresh_run [OF center_refresh1] center_guest_again refl]
  by (auto simp: center_guest center_guest_again)

text \<open>
  C12: A password account is protected by its password.  Once a user name has been registered, every successful login with that name
  yields the account of the registration, and the password presented matches the stored hash.
\<close>

theorem password_account_protected:
  assumes reach: "center_reaches CA CI CT CR tx ev clock ttl view TTL IT w"
    and first: "passwordAuthenticateCore ev (mongoUserCenter CA CI CT CR tx clock TTL IT) q w = (Inr m, w1)"
    and run: "uc_run ev ttl anything (mongoUserCenter CA CI CT CR tx clock TTL IT) w1 w2"
    and later: "passwordAuthenticateCore ev (mongoUserCenter CA CI CT CR tx clock TTL IT) q' w2 = (Inr m', w3)"
    and same: "TrimSpace (wq_Username q') = TrimSpace (wq_Username q)"
  shows "\<exists>x t raw t' raw'. uv_identities (uc_abs (view w1)) (AuthProviderPassword, TrimSpace (wq_Username q)) = Some x
     \<and> m = passwordResult (idn_AccountID x) t raw \<and> m' = passwordResult (idn_AccountID x) t' raw'
     \<and> passwordMatches ev x (wq_Password q')"
proof -
  note G = center_password [OF center_reached(1) [OF reach] first]
  note R = center_run [OF run G(1)]
  note G' = center_password [OF conjunct1 [OF R] later]
  obtain x where x: "uv_identities (uc_abs (view w1)) (AuthProviderPassword, TrimSpace (wq_Username q)) = Some x"
    and m: "\<exists>t raw. m = passwordResult (idn_AccountID x) t raw" using G(2) by blast
  then have x2: "uv_identities (uc_abs (view w2)) (AuthProviderPassword, TrimSpace (wq_Username q)) = Some x"
    using identity_run R by blast
  moreover have "(view_step anything)\<^sup>*\<^sup>* (uc_abs (view w2)) (uc_abs (view w3))"
    using center_run [OF password_run [OF later]] R by blast
  ultimately have "uv_identities (uc_abs (view w3)) (AuthProviderPassword, TrimSpace (wq_Username q)) = Some x"
    using identity_run by blast
  then have "passwordMatches ev x (wq_Password q')" "\<exists>t raw. m' = passwordResult (idn_AccountID x) t raw"
    using G'(2) same x2 by auto
  then show ?thesis using m x by blast
qed

theorem password_account_protected_witness:
  "\<exists>x t raw t' raw'. fst (passwordAuthenticateCore mem_env memUserCenter login_q emptyUserCenter) = Inr (passwordResult (idn_AccountID x) t raw)
     \<and> fst (passwordAuthenticateCore mem_env memUserCenter login_q centerP) = Inr (passwordResult (idn_AccountID x) t' raw')
     \<and> passwordMatches mem_env x ''secret''"
  using password_account_protected [OF mem_reached(1), folded memUserCenter_def, OF center_login rtranclp.rtrancl_refl center_login_again refl]
  by (auto simp: center_login center_login_again login_password)











text \<open>
  C15: In one process at most one request per key executes at a time, whatever the interleaving of acquiring, locking, unlocking and
  releasing; the lock table holds the keys of exactly the requests in flight, and a waiting request can go on unless another one of its
  key is executing.
\<close>

theorem idempotency_lock_exclusive:
  assumes "lock_step\<^sup>*\<^sup>* (emptyLocks, Map.empty) (t, q)"
  shows "(\<forall>r r' k p p'. q r = Some (k, p, Holding) \<longrightarrow> q r' = Some (k, p', Holding) \<longrightarrow> r = r')
    \<and> dom (lt_map t) = {k. \<exists>r p ph. q r = Some (k, p, ph)}
    \<and> (\<forall>r k p. q r = Some (k, p, Waiting) \<longrightarrow> lockMutex p t \<noteq> None \<or> (\<exists>r'. q r' = Some (k, p, Holding)))"
proof -
  have inv: "lock_inv t q" using lock_run_inv [OF assms] by simp
  note D = lock_invD [OF inv]
  have holder: "lt_map t k = Some p \<and> entry_ok t q k p" if "q r = Some (k, p, ph)" for r k p ph using D(2) [OF that] D(3) by blast
  have "r = r'" if r: "q r = Some (k, p, Holding)" and r': "q r' = Some (k, p', Holding)" for r r' k p p'
  proof -
    have "{r, r'} \<subseteq> holders q k" using r r' by (auto simp: holders_def)
    then show ?thesis using holder [OF r] by (auto simp: entry_ok_def split: if_splits)
  qed
  moreover have "dom (lt_map t) = {k. \<exists>r p ph. q r = Some (k, p, ph)}"
  proof (intro set_eqI iffI)
    fix k
    assume "k \<in> dom (lt_map t)"
    then obtain p where "entry_ok t q k p" using D(3) by blast
    then show "k \<in> {k. \<exists>r p ph. q r = Some (k, p, ph)}" by (auto simp: entry_ok_def users_def)
  qed (use holder in fastforce)
  moreover have "\<exists>r'. q r' = Some (k, p, Holding)" if r: "q r = Some (k, p, Waiting)" and m: "lockMutex p t = None" for r k p
  proof -
    have "le_mu (lt_heap t p)" using m by (simp add: lockMutex_def split: if_splits)
    then obtain r' where "r' \<in> holders q k" using holder [OF r] by (auto simp: entry_ok_def)
    then obtain p' where r': "q r' = Some (k, p', Holding)" by (auto simp: holders_def)
    then have "p' = p" using holder [OF r] holder [OF r'] by simp
    then show ?thesis using r' by blast
  qed
  ultimately show ?thesis by blast
qed

theorem idempotency_lock_exclusive_witness:
  "\<exists>t q. lock_step\<^sup>*\<^sup>* (emptyLocks, Map.empty) (t, q) \<and> q 0 = Some (''k'', 0, Holding) \<and> q 1 = Some (''k'', 0, Waiting) \<and> dom (lt_map t) = {''k''}"
proof -
  obtain t1 where a: "acquireIdempotencyLock ''k'' emptyLocks = (0, t1)" "lt_map t1 ''k'' = Some 0" "\<not> le_mu (lt_heap t1 0)"
    by (auto simp: acquireIdempotencyLock_def emptyLocks_def setEntry_def)
  then obtain t2 where b: "lockMutex 0 t1 = Some t2" "lt_map t2 ''k'' = Some 0" by (auto simp: lockMutex_def setEntry_def)
  then obtain t3 where c: "acquireIdempotencyLock ''k'' t2 = (0, t3)" by (auto simp: acquireIdempotencyLock_def)
  let ?q = "[0 \<mapsto> (''k'', 0, Holding), 1 \<mapsto> (''k'', 0, Waiting)] :: requests"
  have "lock_step (emptyLocks, Map.empty) (t1, [0 \<mapsto> (''k'', 0, Waiting)])" by (rule l_enter) (simp_all add: a)
  moreover have "lock_step (t1, [0 \<mapsto> (''k'', 0, Waiting)]) (t2, [0 \<mapsto> (''k'', 0, Holding)])"
    using l_lock [of "[0 \<mapsto> (''k'', 0, Waiting)]" 0 "''k''" 0 t1 t2] b by simp
  moreover have "lock_step (t2, [0 \<mapsto> (''k'', 0, Holding)]) (t3, ?q)" by (rule l_enter) (simp_all add: c)
  ultimately have run: "lock_step\<^sup>*\<^sup>* (emptyLocks, Map.empty) (t3, ?q)"
    by (meson converse_rtranclp_into_rtranclp rtranclp.rtrancl_refl)
  have "dom (lt_map t3) = {k. \<exists>r p ph. ?q r = Some (k, p, ph)}"
    by (rule conjunct1 [OF conjunct2 [OF idempotency_lock_exclusive [OF run]]])
  also have "\<dots> = {''k''}" by (auto split: if_splits)
  finally show ?thesis using run by (intro exI [of _ t3] exI [of _ ?q]) simp
qed

text \<open>
  A client login or a client refresh that is answered from its record carries the message identifier of a revocation, although its
  execution carries the identifier of its own response: \<open>responseMessageID\<close> has no case for these two operations.
\<close>

theorem client_replay_message_id:
  assumes "clientLoginAuthenticateCore ev c login w = (Inr x, w') \<and> operation = ''client_login_authenticate''
      \<or> clientRefreshAuthenticateCore ev c refresh w = (Inr x, w') \<and> operation = ''client_refresh_authenticate''"
    and "replayIdempotency (Some r) operation requestHash un = Inr (Some y)"
  shows "mr_MessageID y = REVOKE_REFRESH_TOKEN_RESPONSE \<and> mr_MessageID x \<noteq> mr_MessageID y"
proof -
  have "mr_MessageID x \<in> {CLIENT_LOGIN_AUTHENTICATE_RESPONSE, CLIENT_REFRESH_AUTHENTICATE_RESPONSE}"
    using assms(1) clientLogin_cases [of ev c login w "Inr x" w'] clientRefresh_cases [of ev c refresh w "Inr x" w'] by auto
  moreover have "mr_MessageID y = REVOKE_REFRESH_TOKEN_RESPONSE"
    using assms by (auto simp: replayIdempotency_def responseMessageID_def split: if_splits sum.splits)
  ultimately show ?thesis by (auto simp: uc_message_ids)
qed

theorem client_replay_message_id_witness:
  "\<exists>x w' y. clientRefreshAuthenticateCore mem_env memUserCenter refresh_q center1 = (Inr x, w')
     \<and> replayIdempotency (Some (pending1\<lparr>ir_Operation := ''client_refresh_authenticate''\<rparr>)) ''client_refresh_authenticate'' ''0000''
         (\<lambda>_. Inr (MRefreshAuthenticateResponse refresh_grant)) = Inr (Some y)
     \<and> mr_MessageID y = REVOKE_REFRESH_TOKEN_RESPONSE \<and> mr_MessageID x \<noteq> mr_MessageID y"
proof -
  obtain x where x: "clientRefreshAuthenticateCore mem_env memUserCenter refresh_q center1 = (Inr x, center2)"
    by (simp add: clientRefreshAuthenticateCore_def center_refresh1 refreshResult_def)
  obtain y where y: "replayIdempotency (Some (pending1\<lparr>ir_Operation := ''client_refresh_authenticate''\<rparr>)) ''client_refresh_authenticate'' ''0000''
         (\<lambda>_. Inr (MRefreshAuthenticateResponse refresh_grant)) = Inr (Some y)"
    by (simp add: replayIdempotency_def pending1_def)
  show ?thesis using x y client_replay_message_id [OF disjI2 [OF conjI [OF x refl]] y] by blast
qed

text \<open>
  \<open>Account.Validate\<close> accepts exactly the accounts with an identifier, valid identities of which no two have the same provider and
  subject, and distinct, non-empty player identifiers.  The code compares keys that join provider and subject by a NUL character, which
  decides the declarative condition whenever no provider contains that character.
\<close>

theorem account_validate_exact:
  assumes nul: "\<forall>i \<in> set (acc_Identities a). CHR 0x00 \<notin> set (idn_Provider i)"
  shows "Account_Validate (Some a) = None \<longleftrightarrow> acc_ID a \<noteq> '''' \<and> (\<forall>i \<in> set (acc_Identities a). Identity_Validate i = None)
    \<and> distinct (map (\<lambda>i. (idn_Provider i, idn_Subject i)) (acc_Identities a))
    \<and> distinct (acc_PlayerIDs a) \<and> '''' \<notin> set (acc_PlayerIDs a)"
proof -
  have "identityKey i = identityKey j \<longleftrightarrow> (idn_Provider i, idn_Subject i) = (idn_Provider j, idn_Subject j)"
    if "i \<in> set (acc_Identities a)" "j \<in> set (acc_Identities a)" for i j
    using identityKey_inj [of i j] nul that by (auto simp: identityKey_def)
  then have "inj_on identityKey (set (acc_Identities a)) \<longleftrightarrow> inj_on (\<lambda>i. (idn_Provider i, idn_Subject i)) (set (acc_Identities a))"
    unfolding inj_on_def by blast
  then show ?thesis unfolding Account_Validate_iff distinct_map by blast
qed

theorem account_validate_exact_witness:
  "Account_Validate (Some \<lparr>acc_ID = ''a'', acc_Identities = [\<lparr>idn_ID = ''i'', idn_AccountID = ''a'', idn_Provider = ''guest'',
     idn_Subject = ''dev'', idn_PasswordHash = '''', idn_LinkedAt = 0\<rparr>], acc_PlayerIDs = [''p'', ''p''], acc_CreatedAt = 0, acc_UpdatedAt = 0\<rparr>) \<noteq> None"
  by (subst account_validate_exact) simp_all

end
