(* ===== verification/Stream_Client.thy ===== *)
theory Stream_Client
  imports Protocol
begin

text \<open>
  The client of the internal streams (\<^verbatim>\<open>src/common/streaming/client.go\<close>): requests that share one stream and the loop that
  reads it, as a system of concurrent calls.  The channels live in a heap; each has room for one envelope.
\<close>

section \<open>State\<close>

record Client =
  sl_requests :: "uint64 \<rightharpoonup> nat"
  sl_chans :: "nat \<Rightarrow> InternalEnvelope list"
  sl_nextChan :: nat
  sl_nextID :: uint64
  sl_done :: bool
  sl_stream :: "InternalEnvelope list"

definition emptyClient :: Client where
  "emptyClient = \<lparr>sl_requests = Map.empty, sl_chans = (\<lambda>_. []), sl_nextChan = 0, sl_nextID = 0, sl_done = False, sl_stream = []\<rparr>"

section \<open>Operations\<close>

text \<open>\<open>Request\<close> up to the registration of its channel.\<close>

definition Request_begin :: "InternalEnvelope \<Rightarrow> Client \<Rightarrow> InternalEnvelope \<times> nat \<times> Client" where
  "Request_begin envelope c =
     (let i = sl_nextID c + 1; ch = sl_nextChan c;
          request = envelope\<lparr>en_RequestId := i, en_Kind := ENVELOPE_KIND_REQUEST\<rparr>
      in (request, ch, c\<lparr>sl_nextID := i, sl_nextChan := ch + 1, sl_chans := (sl_chans c)(ch := []),
            sl_requests := (sl_requests c)(i \<mapsto> ch)\<rparr>))"

text \<open>The deferred removal of the channel.\<close>

definition Request_end :: "uint64 \<Rightarrow> Client \<Rightarrow> Client" where
  "Request_end i c = c\<lparr>sl_requests := (sl_requests c)(i := None)\<rparr>"

text \<open>\<open>outcome\<close> is what \<^verbatim>\<open>stream.Send\<close> returns.\<close>

definition Client_send :: "go_error option \<Rightarrow> InternalEnvelope \<Rightarrow> Client \<Rightarrow> go_error option \<times> Client" where
  "Client_send outcome envelope c =
     (if sl_done c then (Some (Sentinel ErrConnectionClosed), c)
      else (case outcome of Some e \<Rightarrow> (Some e, c) | None \<Rightarrow> (None, c\<lparr>sl_stream := sl_stream c @ [envelope]\<rparr>)))"

definition SendEvent :: "go_error option \<Rightarrow> InternalEnvelope \<Rightarrow> Client \<Rightarrow> go_error option \<times> Client" where
  "SendEvent outcome envelope c = Client_send outcome (envelope\<lparr>en_Kind := ENVELOPE_KIND_EVENT\<rparr>) c"

definition sendHello :: "codec \<Rightarrow> ServiceType \<Rightarrow> string \<Rightarrow> go_error option \<Rightarrow> Client \<Rightarrow> go_error option \<times> Client" where
  "sendHello cd service instanceID outcome c =
     (case pb_Marshal cd (MHello \<lparr>he_ServiceType = service, he_InstanceId = instanceID\<rparr>) of
        Inl e \<Rightarrow> (Some e, c)
      | Inr payload \<Rightarrow> Client_send outcome (emptyEnvelope\<lparr>en_Kind := ENVELOPE_KIND_HELLO, en_SourceService := service, en_Payload := payload\<rparr>) c)"

definition Client_Close :: "Client \<Rightarrow> Client" where
  "Client_Close c = c\<lparr>sl_done := True\<rparr>"

text \<open>\<open>connected\<close> and \<open>outcome\<close> are what opening the stream and the first send return.\<close>

definition NewClient :: "codec \<Rightarrow> ServiceType \<Rightarrow> string \<Rightarrow> go_error option \<Rightarrow> go_error option \<Rightarrow> Client result" where
  "NewClient cd service instanceID connected outcome =
     (case connected of Some e \<Rightarrow> Inl e
      | None \<Rightarrow> (case sendHello cd service instanceID outcome emptyClient of (Some e, _) \<Rightarrow> Inl e | (None, c) \<Rightarrow> Inr c))"

text \<open>An envelope that the read loop hands to a request.\<close>

definition answer :: "InternalEnvelope \<Rightarrow> bool" where
  "answer e \<longleftrightarrow> en_Kind e = ENVELOPE_KIND_RESPONSE \<or> en_Kind e = ENVELOPE_KIND_ERROR"

section \<open>Concurrent calls\<close>

datatype call_phase = Sending | Awaiting | Ending "InternalEnvelope result" | Returned "InternalEnvelope result"

record call =
  ca_request :: InternalEnvelope
  ca_chan :: nat
  ca_phase :: call_phase

abbreviation ca_id :: "call \<Rightarrow> uint64" where
  "ca_id k \<equiv> en_RequestId (ca_request k)"

text \<open>The read loop waits for the stream, for room in a channel, or has ended.\<close>

datatype reader = Reading | Pushing nat InternalEnvelope | Stopped

record client_sys =
  sy_client :: Client
  sy_calls :: "nat \<rightharpoonup> call"
  sy_reader :: reader
  sy_received :: "InternalEnvelope list"

abbreviation put_call :: "nat \<Rightarrow> call \<Rightarrow> client_sys \<Rightarrow> client_sys" where
  "put_call r k s \<equiv> s\<lparr>sy_calls := (sy_calls s)(r \<mapsto> k)\<rparr>"

inductive client_step :: "client_sys \<Rightarrow> client_sys \<Rightarrow> bool" where
  c_begin: "sy_calls s r = None \<Longrightarrow> Request_begin envelope (sy_client s) = (request, ch, c') \<Longrightarrow>
    client_step s (put_call r \<lparr>ca_request = request, ca_chan = ch, ca_phase = Sending\<rparr> (s\<lparr>sy_client := c'\<rparr>))"
| c_sent: "sy_calls s r = Some k \<Longrightarrow> ca_phase k = Sending \<Longrightarrow> Client_send outcome (ca_request k) (sy_client s) = (None, c') \<Longrightarrow>
    client_step s (put_call r (k\<lparr>ca_phase := Awaiting\<rparr>) (s\<lparr>sy_client := c'\<rparr>))"
| c_not_sent: "sy_calls s r = Some k \<Longrightarrow> ca_phase k = Sending \<Longrightarrow> Client_send outcome (ca_request k) (sy_client s) = (Some e, c') \<Longrightarrow>
    client_step s (put_call r (k\<lparr>ca_phase := Ending (Inl e)\<rparr>) (s\<lparr>sy_client := c'\<rparr>))"
| c_answered: "sy_calls s r = Some k \<Longrightarrow> ca_phase k = Awaiting \<Longrightarrow> sl_chans (sy_client s) (ca_chan k) = e # es \<Longrightarrow>
    client_step s (put_call r (k\<lparr>ca_phase := Ending (Inr e)\<rparr>)
      (s\<lparr>sy_client := (sy_client s)\<lparr>sl_chans := (sl_chans (sy_client s))(ca_chan k := es)\<rparr>\<rparr>))"
| c_timeout: "sy_calls s r = Some k \<Longrightarrow> ca_phase k = Awaiting \<Longrightarrow>
    client_step s (put_call r (k\<lparr>ca_phase := Ending (Inl (Sentinel ErrRequestTimeout))\<rparr>) s)"
| c_closed: "sy_calls s r = Some k \<Longrightarrow> ca_phase k = Awaiting \<Longrightarrow> sl_done (sy_client s) \<Longrightarrow>
    client_step s (put_call r (k\<lparr>ca_phase := Ending (Inl (Sentinel ErrConnectionClosed))\<rparr>) s)"
| c_end: "sy_calls s r = Some k \<Longrightarrow> ca_phase k = Ending res \<Longrightarrow>
    client_step s (put_call r (k\<lparr>ca_phase := Returned res\<rparr>) (s\<lparr>sy_client := Request_end (ca_id k) (sy_client s)\<rparr>))"
| c_event: "SendEvent outcome envelope (sy_client s) = (e, c') \<Longrightarrow> client_step s (s\<lparr>sy_client := c'\<rparr>)"
| c_close: "client_step s (s\<lparr>sy_client := Client_Close (sy_client s)\<rparr>)"
| r_recv: "sy_reader s = Reading \<Longrightarrow> client_step s (s\<lparr>sy_received := sy_received s @ [e],
      sy_reader := (case (if answer e then sl_requests (sy_client s) (en_RequestId e) else None) of None \<Rightarrow> Reading | Some ch \<Rightarrow> Pushing ch e)\<rparr>)"
| r_push: "sy_reader s = Pushing ch e \<Longrightarrow> sl_chans (sy_client s) ch = [] \<Longrightarrow>
    client_step s (s\<lparr>sy_client := (sy_client s)\<lparr>sl_chans := (sl_chans (sy_client s))(ch := [e])\<rparr>, sy_reader := Reading\<rparr>)"
| r_error: "sy_reader s = Reading \<Longrightarrow> client_step s (s\<lparr>sy_client := Client_Close (sy_client s), sy_reader := Stopped\<rparr>)"

definition new_client_sys :: "Client \<Rightarrow> client_sys" where
  "new_client_sys c = \<lparr>sy_client = c, sy_calls = Map.empty, sy_reader = Reading, sy_received = []\<rparr>"

section \<open>Invariant\<close>

definition seen :: "client_sys \<Rightarrow> uint64 \<Rightarrow> nat" where
  "seen s i = length (filter (\<lambda>e. answer e \<and> en_RequestId e = i) (sy_received s))"

fun got :: "call_phase \<Rightarrow> InternalEnvelope option" where
  "got (Ending (Inr e)) = Some e"
| "got (Returned (Inr e)) = Some e"
| "got _ = None"

fun returned :: "call_phase \<Rightarrow> bool" where
  "returned (Returned _) = True"
| "returned _ = False"

text \<open>The answers that are on the way to a call or have reached it.\<close>

definition delivered :: "client_sys \<Rightarrow> call \<Rightarrow> nat" where
  "delivered s k = length (sl_chans (sy_client s) (ca_chan k))
     + (case sy_reader s of Pushing ch e \<Rightarrow> (if ch = ca_chan k then 1 else 0) | _ \<Rightarrow> 0) + (if got (ca_phase k) = None then 0 else 1)"

text \<open>An answer to the request with identifier \<open>i\<close> that came from the stream.\<close>

definition answer_to :: "client_sys \<Rightarrow> uint64 \<Rightarrow> InternalEnvelope \<Rightarrow> bool" where
  "answer_to s i e \<longleftrightarrow> answer e \<and> en_RequestId e = i \<and> e \<in> set (sy_received s)"

lemma answer_to_mono: "answer_to s i e \<Longrightarrow> set (sy_received s) \<subseteq> set (sy_received s') \<Longrightarrow> answer_to s' i e"
  by (auto simp: answer_to_def)

lemma answer_to_cong: "sy_received s = sy_received s' \<Longrightarrow> answer_to s = answer_to s'"
  by (simp add: answer_to_def fun_eq_iff)

lemma answer_to_simps [simp]:
  "answer_to (s\<lparr>sy_client := c\<rparr>) = answer_to s" "answer_to (s\<lparr>sy_reader := rd\<rparr>) = answer_to s" "answer_to (s\<lparr>sy_calls := m\<rparr>) = answer_to s"
  by (simp_all add: answer_to_def fun_eq_iff)

definition call_ok :: "client_sys \<Rightarrow> call \<Rightarrow> bool" where
  "call_ok s k \<longleftrightarrow> 0 < unat (ca_id k) \<and> unat (ca_id k) \<le> card (dom (sy_calls s)) \<and> ca_chan k < sl_nextChan (sy_client s)
     \<and> list_all (answer_to s (ca_id k)) (sl_chans (sy_client s) (ca_chan k)) \<and> pred_option (answer_to s (ca_id k)) (got (ca_phase k))
     \<and> (\<not> returned (ca_phase k) \<longrightarrow> sl_requests (sy_client s) (ca_id k) = Some (ca_chan k)) \<and> delivered s k \<le> seen s (ca_id k)"

definition client_inv :: "client_sys \<Rightarrow> bool" where
  "client_inv s \<longleftrightarrow> finite (dom (sy_calls s)) \<and> sl_nextID (sy_client s) = of_nat (card (dom (sy_calls s)))
     \<and> (\<forall>r k. sy_calls s r = Some k \<longrightarrow> call_ok s k)
     \<and> (\<forall>r r' k k'. sy_calls s r = Some k \<longrightarrow> sy_calls s r' = Some k' \<longrightarrow> ca_id k = ca_id k' \<or> ca_chan k = ca_chan k' \<longrightarrow> r = r')
     \<and> (\<forall>i ch. sl_requests (sy_client s) i = Some ch \<longrightarrow>
          (\<exists>r k. sy_calls s r = Some k \<and> ca_id k = i \<and> ca_chan k = ch \<and> \<not> returned (ca_phase k)))
     \<and> (\<forall>ch e. sy_reader s = Pushing ch e \<longrightarrow> (\<exists>r k. sy_calls s r = Some k \<and> ca_chan k = ch \<and> answer_to s (ca_id k) e))"

lemma client_invI:
  assumes "finite (dom (sy_calls s))" "sl_nextID (sy_client s) = of_nat (card (dom (sy_calls s)))"
    and "\<And>r k. sy_calls s r = Some k \<Longrightarrow> call_ok s k"
    and "\<And>r r' k k'. sy_calls s r = Some k \<Longrightarrow> sy_calls s r' = Some k' \<Longrightarrow> ca_id k = ca_id k' \<or> ca_chan k = ca_chan k' \<Longrightarrow> r = r'"
    and "\<And>i ch. sl_requests (sy_client s) i = Some ch \<Longrightarrow>
          \<exists>r k. sy_calls s r = Some k \<and> ca_id k = i \<and> ca_chan k = ch \<and> \<not> returned (ca_phase k)"
    and "\<And>ch e. sy_reader s = Pushing ch e \<Longrightarrow> \<exists>r k. sy_calls s r = Some k \<and> ca_chan k = ch \<and> answer_to s (ca_id k) e"
  shows "client_inv s"
  unfolding client_inv_def using assms by blast

lemma client_invD:
  assumes "client_inv s"
  shows "finite (dom (sy_calls s))" "sl_nextID (sy_client s) = of_nat (card (dom (sy_calls s)))"
    "sy_calls s r = Some k \<Longrightarrow> call_ok s k"
    "sy_calls s r = Some k \<Longrightarrow> sy_calls s r' = Some k' \<Longrightarrow> ca_id k = ca_id k' \<or> ca_chan k = ca_chan k' \<Longrightarrow> r = r'"
    "sl_requests (sy_client s) i = Some ch \<Longrightarrow> \<exists>r k. sy_calls s r = Some k \<and> ca_id k = i \<and> ca_chan k = ch \<and> \<not> returned (ca_phase k)"
    "sy_reader s = Pushing ch e \<Longrightarrow> \<exists>r k. sy_calls s r = Some k \<and> ca_chan k = ch \<and> answer_to s (ca_id k) e"
  using assms unfolding client_inv_def by blast+

text \<open>A step of the call \<open>r\<close> that keeps its identifier and channel.\<close>

lemma call_update:
  assumes inv: "client_inv s" and k: "sy_calls s r = Some k" "ca_id k' = ca_id k" "ca_chan k' = ca_chan k"
    and s': "sy_calls s' = (sy_calls s)(r \<mapsto> k')" "sy_reader s' = sy_reader s" "sy_received s' = sy_received s"
      "sl_nextID (sy_client s') = sl_nextID (sy_client s)" "sl_nextChan (sy_client s') = sl_nextChan (sy_client s)"
    and other: "\<And>ch. ch \<noteq> ca_chan k \<Longrightarrow> sl_chans (sy_client s') ch = sl_chans (sy_client s) ch"
    and req: "sl_requests (sy_client s') = (if returned (ca_phase k') then (sl_requests (sy_client s))(ca_id k := None) else sl_requests (sy_client s))"
    and ret: "returned (ca_phase k) \<Longrightarrow> returned (ca_phase k')"
    and ok: "list_all (answer_to s (ca_id k)) (sl_chans (sy_client s') (ca_chan k))" "pred_option (answer_to s (ca_id k)) (got (ca_phase k'))"
    and cnt: "length (sl_chans (sy_client s') (ca_chan k)) + (if got (ca_phase k') = None then 0 else 1)
      \<le> length (sl_chans (sy_client s) (ca_chan k)) + (if got (ca_phase k) = None then 0 else 1)"
  shows "client_inv s'"
proof -
  note D = client_invD [OF inv]
  have dom: "dom (sy_calls s') = dom (sy_calls s)" using k(1) s'(1) by auto
  have ans: "answer_to s' = answer_to s" by (rule answer_to_cong [OF s'(3)])
  have ne: "r2 = r" if "sy_calls s r2 = Some k2" "ca_id k2 = ca_id k \<or> ca_chan k2 = ca_chan k" for r2 k2
    using D(4) [OF that(1) k(1)] that(2) by blast
  show ?thesis
  proof (rule client_invI)
    show "finite (dom (sy_calls s'))" "sl_nextID (sy_client s') = of_nat (card (dom (sy_calls s')))" using D(1,2) dom s'(4) by simp_all
    show "call_ok s' k2" if c: "sy_calls s' r2 = Some k2" for r2 k2
    proof (cases "r2 = r")
      case True
      then have k2: "k2 = k'" using c s'(1) by simp
      have del: "delivered s' k' \<le> delivered s k" using cnt unfolding delivered_def s'(2) k(3) by linarith
      have o: "call_ok s k" by (rule D(3) [OF k(1)])
      have rq: "\<not> returned (ca_phase k') \<Longrightarrow> sl_requests (sy_client s') (ca_id k) = Some (ca_chan k)"
        using o req ret by (auto simp: call_ok_def)
      have "seen s' (ca_id k) = seen s (ca_id k)" by (simp add: seen_def s'(3))
      then show ?thesis using o del rq ok unfolding k2 call_ok_def k(2,3) dom s'(5) ans by auto
    next
      case False
      then have c2: "sy_calls s r2 = Some k2" using c s'(1) by simp
      have "ca_id k2 \<noteq> ca_id k" "ca_chan k2 \<noteq> ca_chan k" using ne [OF c2] False by blast+
      then show ?thesis using D(3) [OF c2] dom s'(2,3,5) req other by (simp add: call_ok_def delivered_def seen_def ans)
    qed
    show "r1 = r2" if "sy_calls s' r1 = Some k1" "sy_calls s' r2 = Some k2" "ca_id k1 = ca_id k2 \<or> ca_chan k1 = ca_chan k2" for r1 r2 k1 k2
    proof -
      have old: "\<exists>k0. sy_calls s r0 = Some k0 \<and> ca_id k0 = ca_id k2 \<and> ca_chan k0 = ca_chan k2" if "sy_calls s' r0 = Some k2" for r0 k2
        using that k by (cases "r0 = r") (simp_all add: s'(1))
      show ?thesis using old [OF that(1)] old [OF that(2)] that(3) D(4) by metis
    qed
    show "\<exists>r k. sy_calls s' r = Some k \<and> ca_id k = i \<and> ca_chan k = ch \<and> \<not> returned (ca_phase k)"
      if q: "sl_requests (sy_client s') i = Some ch" for i ch
    proof -
      have q2: "sl_requests (sy_client s) i = Some ch" "returned (ca_phase k') \<Longrightarrow> i \<noteq> ca_id k" using q req by (auto split: if_splits)
      obtain r2 k2 where c: "sy_calls s r2 = Some k2" "ca_id k2 = i" "ca_chan k2 = ch" "\<not> returned (ca_phase k2)" using D(5) [OF q2(1)] by blast
      show ?thesis
      proof (cases "r2 = r")
        case True
        then show ?thesis using c k q2(2) s'(1) by (intro exI [of _ r] exI [of _ k']) auto
      next
        case False
        then show ?thesis using c s'(1) by (intro exI [of _ r2] exI [of _ k2]) simp
      qed
    qed
    show "\<exists>r k. sy_calls s' r = Some k \<and> ca_chan k = ch \<and> answer_to s' (ca_id k) e" if p: "sy_reader s' = Pushing ch e" for ch e
    proof -
      obtain r2 k2 where "sy_calls s r2 = Some k2" "ca_chan k2 = ch" "answer_to s (ca_id k2) e" using D(6) p s'(2) by metis
      then show ?thesis unfolding ans using k s'(1) by (cases "r2 = r") auto
    qed
  qed
qed

lemma len64_eq: "LENGTH(64) = 64"
  by simp

lemma begin_inv:
  assumes inv: "client_inv s" and r: "sy_calls s r = None" and b: "Request_begin envelope (sy_client s) = (request, ch, c')"
    and few: "card (dom (sy_calls s)) + 1 < 2 ^ 64"
  shows "client_inv (put_call r \<lparr>ca_request = request, ca_chan = ch, ca_phase = Sending\<rparr> (s\<lparr>sy_client := c'\<rparr>))"
    (is "client_inv ?s")
proof -
  note D = client_invD [OF inv]
  let ?n = "card (dom (sy_calls s))" and ?k = "\<lparr>ca_request = request, ca_chan = ch, ca_phase = Sending\<rparr>"
  have out: "en_RequestId request = of_nat (?n + 1)" "ch = sl_nextChan (sy_client s)" "sl_nextID c' = of_nat (?n + 1)"
    "sl_nextChan c' = ch + 1" "sl_chans c' = (sl_chans (sy_client s))(ch := [])"
    "sl_requests c' = (sl_requests (sy_client s))(en_RequestId request \<mapsto> ch)"
    using b D(2) by (auto simp: Request_begin_def Let_def)
  have un: "unat (en_RequestId request) = ?n + 1" using few unfolding out(1) unat_of_nat by (simp only: len64_eq mod_less)
  have dom: "card (dom (sy_calls ?s)) = ?n + 1" using r D(1) by (simp add: domIff)
  have new: "ca_id k2 \<noteq> en_RequestId request" "ca_chan k2 \<noteq> ch" if "sy_calls s r2 = Some k2" for r2 k2
    using D(3) [OF that] un out(2) by (auto simp: call_ok_def)
  have ans: "answer_to ?s = answer_to s" by (rule answer_to_cong) simp
  have push: "ch2 \<noteq> ch" if "sy_reader s = Pushing ch2 e" for ch2 e using D(6) [OF that] new(2) by blast
  show ?thesis
  proof (rule client_invI)
    show "finite (dom (sy_calls ?s))" using D(1) by simp
    show "sl_nextID (sy_client ?s) = of_nat (card (dom (sy_calls ?s)))" unfolding dom by (simp add: out(3))
    show "call_ok ?s k2" if c: "sy_calls ?s r2 = Some k2" for r2 k2
    proof (cases "r2 = r")
      case True
      then have "k2 = ?k" using c by simp
      moreover have "delivered ?s ?k = 0" using push by (auto simp: delivered_def out(5) split: reader.splits)
      ultimately show ?thesis using un unfolding call_ok_def dom ans by (simp add: out(4-6))
    next
      case False
      then have c2: "sy_calls s r2 = Some k2" using c by simp
      have "delivered ?s k2 = delivered s k2" using new(2) [OF c2] out(5) by (simp add: delivered_def)
      then show ?thesis using D(3) [OF c2] new [OF c2] unfolding call_ok_def dom ans by (auto simp: seen_def out(4-6) out(2) [symmetric])
    qed
    show "r1 = r2" if "sy_calls ?s r1 = Some k1" "sy_calls ?s r2 = Some k2" "ca_id k1 = ca_id k2 \<or> ca_chan k1 = ca_chan k2" for r1 r2 k1 k2
    proof (cases "r1 = r \<or> r2 = r")
      case True
      then show ?thesis using that new [of r1 k1] new [of r2 k2] by (auto split: if_splits)
    next
      case False
      then show ?thesis using that D(4) [of r1 k1 r2 k2] by simp
    qed
    show "\<exists>r k. sy_calls ?s r = Some k \<and> ca_id k = i \<and> ca_chan k = ch2 \<and> \<not> returned (ca_phase k)"
      if q: "sl_requests (sy_client ?s) i = Some ch2" for i ch2
    proof (cases "i = en_RequestId request")
      case True
      then show ?thesis using q out(6) by (intro exI [of _ r] exI [of _ ?k]) simp
    next
      case False
      then have "sl_requests (sy_client s) i = Some ch2" using q out(6) by simp
      from D(5) [OF this] obtain r2 k2 where "sy_calls s r2 = Some k2" "ca_id k2 = i" "ca_chan k2 = ch2" "\<not> returned (ca_phase k2)" by blast
      then show ?thesis using r by (intro exI [of _ r2] exI [of _ k2]) auto
    qed
    show "\<exists>r k. sy_calls ?s r = Some k \<and> ca_chan k = ch2 \<and> answer_to ?s (ca_id k) e" if p: "sy_reader ?s = Pushing ch2 e" for ch2 e
    proof -
      obtain r2 k2 where "sy_calls s r2 = Some k2" "ca_chan k2 = ch2" "answer_to s (ca_id k2) e" using D(6) p by fastforce
      then show ?thesis unfolding ans using r by (intro exI [of _ r2] exI [of _ k2]) auto
    qed
  qed
qed

text \<open>A step of the reader, or one that leaves calls and channels alone.\<close>

lemma reader_update:
  assumes inv: "client_inv s" and s': "sy_calls s' = sy_calls s" "sl_nextID (sy_client s') = sl_nextID (sy_client s)"
      "sl_nextChan (sy_client s') = sl_nextChan (sy_client s)" "sl_requests (sy_client s') = sl_requests (sy_client s)"
      "set (sy_received s) \<subseteq> set (sy_received s')"
    and ok: "\<And>r k. sy_calls s r = Some k \<Longrightarrow> list_all (answer_to s' (ca_id k)) (sl_chans (sy_client s') (ca_chan k)) \<and> delivered s' k \<le> seen s' (ca_id k)"
    and push: "\<And>ch e. sy_reader s' = Pushing ch e \<Longrightarrow> \<exists>r k. sy_calls s r = Some k \<and> ca_chan k = ch \<and> answer_to s' (ca_id k) e"
  shows "client_inv s'"
proof -
  note D = client_invD [OF inv]
  show ?thesis
  proof (rule client_invI)
    show "finite (dom (sy_calls s'))" "sl_nextID (sy_client s') = of_nat (card (dom (sy_calls s')))" unfolding s'(1,2) by (rule D)+
    show "call_ok s' k" if c: "sy_calls s' r = Some k" for r k
    proof -
      have c': "sy_calls s r = Some k" using c s'(1) by simp
      have "pred_option (answer_to s (ca_id k)) (got (ca_phase k))" using D(3) [OF c'] by (simp add: call_ok_def)
      then have "pred_option (answer_to s' (ca_id k)) (got (ca_phase k))"
        using answer_to_mono [OF _ s'(5)] by (cases "got (ca_phase k)") simp_all
      then show ?thesis using D(3) [OF c'] ok [OF c'] unfolding call_ok_def s'(1-4) by blast
    qed
    show "r = r'" if "sy_calls s' r = Some k" "sy_calls s' r' = Some k'" "ca_id k = ca_id k' \<or> ca_chan k = ca_chan k'" for r r' k k'
      using that unfolding s'(1-4) by (rule D(4))
    show "\<exists>r k. sy_calls s' r = Some k \<and> ca_id k = i \<and> ca_chan k = ch \<and> \<not> returned (ca_phase k)"
      if "sl_requests (sy_client s') i = Some ch" for i ch using that unfolding s'(1-4) by (rule D(5))
    show "\<exists>r k. sy_calls s' r = Some k \<and> ca_chan k = ch \<and> answer_to s' (ca_id k) e" if "sy_reader s' = Pushing ch e" for ch e
      unfolding s'(1) by (rule push [OF that])
  qed
qed

lemma recv_inv:
  assumes inv: "client_inv s" and rd: "sy_reader s = Reading"
  shows "client_inv (s\<lparr>sy_received := sy_received s @ [e],
      sy_reader := (case (if answer e then sl_requests (sy_client s) (en_RequestId e) else None) of None \<Rightarrow> Reading | Some ch \<Rightarrow> Pushing ch e)\<rparr>)"
    (is "client_inv ?s")
proof -
  note D = client_invD [OF inv]
  have push: "answer e \<and> (\<exists>r k. sy_calls s r = Some k \<and> ca_id k = en_RequestId e \<and> ca_chan k = ch) \<and> e2 = e" if "sy_reader ?s = Pushing ch e2" for ch e2
    using that D(5) [of "en_RequestId e" ch] by (auto split: if_splits option.splits)
  show ?thesis
  proof (rule reader_update [OF inv])
    fix r k assume k: "sy_calls s r = Some k"
    have o: "list_all (answer_to s (ca_id k)) (sl_chans (sy_client s) (ca_chan k))" "delivered s k \<le> seen s (ca_id k)"
      using D(3) [OF k] by (simp_all add: call_ok_def)
    have mono: "answer_to s i x \<Longrightarrow> answer_to ?s i x" for i x by (rule answer_to_mono) auto
    have "delivered ?s k \<le> seen ?s (ca_id k)"
    proof (cases "\<exists>e2. sy_reader ?s = Pushing (ca_chan k) e2")
      case True
      then obtain r2 k2 where k2: "answer e" "sy_calls s r2 = Some k2" "ca_id k2 = en_RequestId e" "ca_chan k2 = ca_chan k" using push by blast
      have "k2 = k" using D(4) [OF k2(2) k] k2 k by auto
      then show ?thesis using True o(2) k2(1,3) rd by (auto simp: delivered_def seen_def)
    next
      case False
      then have "delivered ?s k = delivered s k" using rd unfolding delivered_def by (auto split: reader.splits)
      moreover have "seen s (ca_id k) \<le> seen ?s (ca_id k)" by (simp add: seen_def)
      ultimately show ?thesis using o(2) by linarith
    qed
    moreover have "list_all (answer_to ?s (ca_id k)) (sl_chans (sy_client ?s) (ca_chan k))" using o(1) mono by (simp add: list_all_iff)
    ultimately show "list_all (answer_to ?s (ca_id k)) (sl_chans (sy_client ?s) (ca_chan k)) \<and> delivered ?s k \<le> seen ?s (ca_id k)" by blast
  next
    fix ch e2 assume "sy_reader ?s = Pushing ch e2"
    from push [OF this] show "\<exists>r k. sy_calls s r = Some k \<and> ca_chan k = ch \<and> answer_to ?s (ca_id k) e2" by (simp add: answer_to_def) metis
  qed auto
qed

lemma push_inv:
  assumes inv: "client_inv s" and rd: "sy_reader s = Pushing ch e" and room: "sl_chans (sy_client s) ch = []"
  shows "client_inv (s\<lparr>sy_client := (sy_client s)\<lparr>sl_chans := (sl_chans (sy_client s))(ch := [e])\<rparr>, sy_reader := Reading\<rparr>)"
    (is "client_inv ?s")
proof -
  note D = client_invD [OF inv]
  obtain r0 k0 where k0: "sy_calls s r0 = Some k0" "ca_chan k0 = ch" "answer_to s (ca_id k0) e" using D(6) [OF rd] by blast
  show ?thesis
  proof (rule reader_update [OF inv])
    fix r k assume k: "sy_calls s r = Some k"
    have "delivered ?s k = delivered s k" using rd room by (auto simp: delivered_def)
    moreover have "seen ?s = seen s" by (simp add: seen_def fun_eq_iff)
    moreover have "list_all (answer_to s (ca_id k)) (sl_chans (sy_client ?s) (ca_chan k))"
    proof (cases "ca_chan k = ch")
      case True
      then have "k0 = k" using D(4) [OF k0(1) k] k0 k by auto
      then show ?thesis using k0 by simp
    next
      case False
      then show ?thesis using D(3) [OF k] by (simp add: call_ok_def)
    qed
    ultimately show "list_all (answer_to ?s (ca_id k)) (sl_chans (sy_client ?s) (ca_chan k)) \<and> delivered ?s k \<le> seen ?s (ca_id k)"
      using D(3) [OF k] by (simp add: call_ok_def)
  qed simp_all
qed

lemma client_step_inv:
  assumes "client_step s s'" "client_inv s" "card (dom (sy_calls s')) < 2 ^ 64"
  shows "client_inv s'"
  using assms
proof cases
  case (c_begin r envelope request ch c')
  have "card (dom (sy_calls s)) + 1 < 2 ^ 64" using assms(3) c_begin(1,2) client_invD(1) [OF assms(2)] by (simp add: domIff)
  then show ?thesis unfolding c_begin(1) by (rule begin_inv [OF assms(2) c_begin(2,3)])
next
  case (c_sent r k outcome c')
  show ?thesis by (rule call_update [OF assms(2) c_sent(2), where k' = "k\<lparr>ca_phase := Awaiting\<rparr>"])
    (use c_sent client_invD(3) [OF assms(2) c_sent(2)] in \<open>auto simp: Client_send_def call_ok_def split: if_splits option.splits\<close>)
next
  case (c_not_sent r k outcome e c')
  show ?thesis by (rule call_update [OF assms(2) c_not_sent(2), where k' = "k\<lparr>ca_phase := Ending (Inl e)\<rparr>"])
    (use c_not_sent client_invD(3) [OF assms(2) c_not_sent(2)] in \<open>auto simp: Client_send_def call_ok_def split: if_splits option.splits\<close>)
next
  case (c_answered r k e es)
  show ?thesis by (rule call_update [OF assms(2) c_answered(2), where k' = "k\<lparr>ca_phase := Ending (Inr e)\<rparr>"])
    (use c_answered client_invD(3) [OF assms(2) c_answered(2)] in \<open>simp_all add: call_ok_def\<close>)
next
  case (c_timeout r k)
  show ?thesis by (rule call_update [OF assms(2) c_timeout(2), where k' = "k\<lparr>ca_phase := Ending (Inl (Sentinel ErrRequestTimeout))\<rparr>"])
    (use c_timeout client_invD(3) [OF assms(2) c_timeout(2)] in \<open>simp_all add: call_ok_def\<close>)
next
  case (c_closed r k)
  show ?thesis by (rule call_update [OF assms(2) c_closed(2), where k' = "k\<lparr>ca_phase := Ending (Inl (Sentinel ErrConnectionClosed))\<rparr>"])
    (use c_closed client_invD(3) [OF assms(2) c_closed(2)] in \<open>simp_all add: call_ok_def\<close>)
next
  case (c_end r k res)
  have "got (Returned res) = got (Ending res)" by (cases res) simp_all
  then show ?thesis using c_end client_invD(3) [OF assms(2) c_end(2)]
    by (intro call_update [OF assms(2) c_end(2), where k' = "k\<lparr>ca_phase := Returned res\<rparr>"]) (simp_all add: call_ok_def Request_end_def)
next
  case (c_event outcome envelope e c')
  have c: "sl_requests c' = sl_requests (sy_client s)" "sl_chans c' = sl_chans (sy_client s)" "sl_nextID c' = sl_nextID (sy_client s)"
    "sl_nextChan c' = sl_nextChan (sy_client s)"
    using c_event(2) by (auto simp: SendEvent_def Client_send_def split: if_splits option.splits)
  show ?thesis by (rule reader_update [OF assms(2)])
    (use c_event(1) c client_invD(3,6) [OF assms(2)] in \<open>simp_all add: call_ok_def delivered_def seen_def\<close>)
next
  case c_close
  show ?thesis by (rule reader_update [OF assms(2)])
    (use c_close client_invD(3,6) [OF assms(2)] in \<open>simp_all add: Client_Close_def call_ok_def delivered_def seen_def\<close>)
next
  case (r_recv e)
  then show ?thesis using recv_inv [OF assms(2)] by blast
next
  case (r_push ch e)
  then show ?thesis using push_inv [OF assms(2)] by blast
next
  case r_error
  show ?thesis by (rule reader_update [OF assms(2)])
    (use r_error client_invD(3) [OF assms(2)] in \<open>simp_all add: Client_Close_def call_ok_def delivered_def seen_def\<close>)
qed

section \<open>Runs\<close>

lemma NewClient_fresh:
  assumes "NewClient cd service instanceID connected outcome = Inr c"
  shows "sl_requests c = Map.empty" "sl_chans c = (\<lambda>_. [])" "sl_nextChan c = 0" "sl_nextID c = 0" "\<not> sl_done c"
  using assms by (auto simp: NewClient_def sendHello_def Client_send_def emptyClient_def split: option.splits sum.splits if_splits prod.splits)

lemma new_client_inv:
  assumes "NewClient cd service instanceID connected outcome = Inr c"
  shows "client_inv (new_client_sys c)"
  by (rule client_invI) (use NewClient_fresh [OF assms] in \<open>simp_all add: new_client_sys_def\<close>)

lemma client_step_calls:
  assumes "client_step s s'"
  shows "dom (sy_calls s) \<subseteq> dom (sy_calls s')" "finite (dom (sy_calls s)) \<Longrightarrow> finite (dom (sy_calls s'))"
  using assms by (cases; auto)+

lemma client_run_calls:
  assumes "client_step\<^sup>*\<^sup>* s s'"
  shows "dom (sy_calls s) \<subseteq> dom (sy_calls s') \<and> (finite (dom (sy_calls s)) \<longrightarrow> finite (dom (sy_calls s')))"
  using assms by (induction rule: rtranclp_induct) (blast dest: client_step_calls)+

lemma client_run_inv:
  assumes "client_step\<^sup>*\<^sup>* s s'" "client_inv s" "card (dom (sy_calls s')) < 2 ^ 64"
  shows "client_inv s'"
  using assms
proof (induction rule: rtranclp_induct)
  case (step s1 s2)
  have f: "finite (dom (sy_calls s2))"
    using client_run_calls [OF rtranclp.rtrancl_into_rtrancl [OF step(1,2)]] client_invD(1) [OF step(4)] by blast
  have "card (dom (sy_calls s1)) \<le> card (dom (sy_calls s2))" by (rule card_mono [OF f client_step_calls(1) [OF step(2)]])
  then have "client_inv s1" using step by linarith
  then show ?case by (rule client_step_inv [OF step(2) _ step(5)])
qed simp

text \<open>A loop that pushes finds room if no identifier is answered twice.\<close>

lemma push_room:
  assumes inv: "client_inv s" and rd: "sy_reader s = Pushing ch e" and once: "\<And>i. seen s i \<le> 1"
  shows "sl_chans (sy_client s) ch = []"
proof -
  obtain r k where k: "sy_calls s r = Some k" "ca_chan k = ch" using client_invD(6) [OF inv rd] by blast
  have "delivered s k \<le> seen s (ca_id k)" using client_invD(3) [OF inv k(1)] by (simp add: call_ok_def)
  with once [of "ca_id k"] have "delivered s k \<le> 1" by linarith
  then show ?thesis using rd k(2) by (simp add: delivered_def split: if_splits)
qed

end
