(* ===== verification/Stream_Router.thy ===== *)
theory Stream_Router
  imports Stream_Client
begin

text \<open>
  The serving side of the internal streams: the connection a reply is written to
  (\<^verbatim>\<open>src/common/streaming/connection.go\<close>), the router of messages to handlers
  (\<^verbatim>\<open>src/common/streaming/router.go\<close>) and the server with its table of peers
  (\<^verbatim>\<open>src/common/streaming/server.go\<close>).  \<open>msg\<close> is the message of a sentinel error, and \<open>out\<close> what the stream's \<^verbatim>\<open>Send\<close> returns.
\<close>

section \<open>Connections\<close>

record StreamConnection =
  sn_done :: bool
  sn_sent :: "InternalEnvelope list"

definition NewConnection :: StreamConnection where
  "NewConnection = \<lparr>sn_done = False, sn_sent = []\<rparr>"

definition StreamConnection_Send :: "go_error option \<Rightarrow> InternalEnvelope \<Rightarrow> StreamConnection \<Rightarrow> go_error option \<times> StreamConnection" where
  "StreamConnection_Send out envelope c =
     (if sn_done c then (Some (Sentinel ErrConnectionClosed), c)
      else (case out of Some e \<Rightarrow> (Some e, c) | None \<Rightarrow> (None, c\<lparr>sn_sent := sn_sent c @ [envelope]\<rparr>)))"

definition StreamConnection_Close :: "StreamConnection \<Rightarrow> StreamConnection" where
  "StreamConnection_Close c = c\<lparr>sn_done := True\<rparr>"

section \<open>The router\<close>

text \<open>\<^verbatim>\<open>err.Error()\<close>.\<close>

fun Error :: "(sentinel \<Rightarrow> string) \<Rightarrow> go_error \<Rightarrow> string" where
  "Error msg (Sentinel s) = msg s"
| "Error msg (NewError m) = m"
| "Error msg (Wrapf p e) = p @ Error msg e"

type_synonym 'w Router = "ServiceType \<rightharpoonup> uint32 \<rightharpoonup> 'w MessageHandler"

definition NewRouter :: "'w Router" where
  "NewRouter = Map.empty"

definition Router_Register :: "ServiceType \<Rightarrow> uint32 \<Rightarrow> 'w MessageHandler \<Rightarrow> 'w Router \<Rightarrow> 'w Router" where
  "Router_Register service messageID handler r =
     (let r' = (if r service = None then r(service \<mapsto> Map.empty) else r)
      in r'(service \<mapsto> (the (r' service))(messageID \<mapsto> handler)))"

definition handler_of :: "'w Router \<Rightarrow> ServiceType \<Rightarrow> uint32 \<Rightarrow> 'w MessageHandler option" where
  "handler_of r service messageID = (case r service of None \<Rightarrow> None | Some hs \<Rightarrow> hs messageID)"

definition sendError :: "go_error option \<Rightarrow> uint64 \<Rightarrow> uint32 \<Rightarrow> string \<Rightarrow> StreamConnection \<Rightarrow> go_error option \<times> StreamConnection" where
  "sendError out requestID code message c =
     StreamConnection_Send out (emptyEnvelope\<lparr>en_Kind := ENVELOPE_KIND_ERROR, en_RequestId := requestID, en_ErrorCode := code,
       en_ErrorMessage := message\<rparr>) c"

definition dispatch :: "codec \<Rightarrow> (sentinel \<Rightarrow> string) \<Rightarrow> 'w Router \<Rightarrow> go_error option \<Rightarrow> ServiceType \<Rightarrow> InternalEnvelope \<Rightarrow> bool \<Rightarrow>
    'w \<times> StreamConnection \<Rightarrow> go_error option \<times> 'w \<times> StreamConnection" where
  "dispatch cd msg r out peerService envelope reply = (\<lambda>(w, c).
     (case handler_of r (en_TargetService envelope) (en_MessageId envelope) of
        None \<Rightarrow>
          if reply then (case sendError out (en_RequestId envelope) 2 ''target service or message handler is unavailable'' c of
            (e, c') \<Rightarrow> (e, w, c'))
          else (None, w, c)
      | Some handler \<Rightarrow>
          (case handler envelope w of
             (Inl err, w') \<Rightarrow>
               if reply then (case sendError out (en_RequestId envelope) 3 (Error msg err) c of (e, c') \<Rightarrow> (e, w', c'))
               else (Some err, w', c)
           | (Inr None, w') \<Rightarrow> (None, w', c)
           | (Inr (Some result), w') \<Rightarrow>
               (case mr_Message result of
                  None \<Rightarrow> (None, w', c)
                | Some message \<Rightarrow>
                    if \<not> reply then (None, w', c)
                    else (case pb_Marshal cd message of
                       Inl err \<Rightarrow> (Some err, w', c)
                     | Inr payload \<Rightarrow>
                         (case StreamConnection_Send out (emptyEnvelope\<lparr>en_Kind := ENVELOPE_KIND_RESPONSE,
                                 en_RequestId := en_RequestId envelope, en_SourceService := en_TargetService envelope,
                                 en_TargetService := peerService, en_MessageId := mr_MessageID result, en_Payload := payload\<rparr>) c of
                            (e, c') \<Rightarrow> (e, w', c')))))))"

definition Router_Handle :: "codec \<Rightarrow> (sentinel \<Rightarrow> string) \<Rightarrow> 'w Router \<Rightarrow> go_error option \<Rightarrow> ServiceType \<Rightarrow> InternalEnvelope \<Rightarrow>
    'w \<times> StreamConnection \<Rightarrow> go_error option \<times> 'w \<times> StreamConnection" where
  "Router_Handle cd msg r out peerService envelope wc =
     (if en_Kind envelope = ENVELOPE_KIND_EVENT then dispatch cd msg r out peerService envelope False wc
      else if en_Kind envelope \<noteq> ENVELOPE_KIND_REQUEST then
        (case wc of (w, c) \<Rightarrow> (case sendError out (en_RequestId envelope) 1 ''unsupported envelope kind'' c of (e, c') \<Rightarrow> (e, w, c')))
      else dispatch cd msg r out peerService envelope True wc)"

section \<open>Lemmas about the router\<close>

lemma handler_of_Register:
  "handler_of (Router_Register s i h r) s' i' = (if s' = s \<and> i' = i then Some h else handler_of r s' i')"
  by (auto simp: handler_of_def Router_Register_def Let_def split: option.splits)

lemma handler_of_New [simp]: "handler_of NewRouter s i = None"
  by (simp add: handler_of_def NewRouter_def)

text \<open>What the handler's outcome makes the router write.\<close>

definition reply_of :: "codec \<Rightarrow> (sentinel \<Rightarrow> string) \<Rightarrow> ServiceType \<Rightarrow> InternalEnvelope \<Rightarrow> MessageResult option result option \<Rightarrow> InternalEnvelope option" where
  "reply_of cd msg peerService envelope res =
     (case res of
        None \<Rightarrow> Some (emptyEnvelope\<lparr>en_Kind := ENVELOPE_KIND_ERROR, en_RequestId := en_RequestId envelope, en_ErrorCode := 2,
          en_ErrorMessage := ''target service or message handler is unavailable''\<rparr>)
      | Some (Inl err) \<Rightarrow> Some (emptyEnvelope\<lparr>en_Kind := ENVELOPE_KIND_ERROR, en_RequestId := en_RequestId envelope, en_ErrorCode := 3,
          en_ErrorMessage := Error msg err\<rparr>)
      | Some (Inr None) \<Rightarrow> None
      | Some (Inr (Some result)) \<Rightarrow>
          (case mr_Message result of None \<Rightarrow> None
           | Some message \<Rightarrow> (case pb_Marshal cd message of Inl _ \<Rightarrow> None
              | Inr payload \<Rightarrow> Some (emptyEnvelope\<lparr>en_Kind := ENVELOPE_KIND_RESPONSE, en_RequestId := en_RequestId envelope,
                  en_SourceService := en_TargetService envelope, en_TargetService := peerService, en_MessageId := mr_MessageID result,
                  en_Payload := payload\<rparr>))))"

text \<open>What the router makes of the outcome for the stream: an error ends it.\<close>

definition run_handler :: "'w Router \<Rightarrow> InternalEnvelope \<Rightarrow> 'w \<Rightarrow> MessageResult option result option \<times> 'w" where
  "run_handler r envelope w =
     (case handler_of r (en_TargetService envelope) (en_MessageId envelope) of None \<Rightarrow> (None, w)
      | Some h \<Rightarrow> (case h envelope w of (res, w') \<Rightarrow> (Some res, w')))"

lemma reply_of_answer:
  assumes "reply_of cd msg ps envelope res = Some e"
  shows "answer e" "en_RequestId e = en_RequestId envelope"
  using assms by (auto simp: reply_of_def answer_def envelope_kinds split: option.splits sum.splits)

lemma Handle_request:
  assumes "en_Kind envelope = ENVELOPE_KIND_REQUEST" "run_handler r envelope w = (res, w')"
    and "Router_Handle cd msg r out ps envelope (w, c) = (e, w2, c')"
  shows "w2 = w'" "sn_done c' = sn_done c"
    "sn_sent c' = sn_sent c @ (if sn_done c \<or> out \<noteq> None then [] else case reply_of cd msg ps envelope res of None \<Rightarrow> [] | Some x \<Rightarrow> [x])"
  using assms
  by (auto simp: Router_Handle_def dispatch_def run_handler_def reply_of_def sendError_def StreamConnection_Send_def envelope_kinds
      split: option.splits sum.splits prod.splits if_splits)

lemma Handle_event:
  assumes "en_Kind envelope = ENVELOPE_KIND_EVENT" "run_handler r envelope w = (res, w')"
  shows "Router_Handle cd msg r out ps envelope (w, c) = (case res of Some (Inl err) \<Rightarrow> Some err | _ \<Rightarrow> None, w', c)"
  using assms
  by (auto simp: Router_Handle_def dispatch_def run_handler_def split: option.splits sum.splits prod.splits)

lemma Handle_other:
  assumes "en_Kind envelope \<noteq> ENVELOPE_KIND_EVENT" "en_Kind envelope \<noteq> ENVELOPE_KIND_REQUEST"
  shows "Router_Handle cd msg r None ps envelope (w, NewConnection) =
    (None, w, \<lparr>sn_done = False, sn_sent = [emptyEnvelope\<lparr>en_Kind := ENVELOPE_KIND_ERROR, en_RequestId := en_RequestId envelope,
      en_ErrorCode := 1, en_ErrorMessage := ''unsupported envelope kind''\<rparr>]\<rparr>)"
  using assms by (simp add: Router_Handle_def sendError_def StreamConnection_Send_def NewConnection_def)

end
