(* ===== verification/Stream_Server.thy ===== *)
theory Stream_Server
  imports Stream_Router "HOL-Library.Sublist"
begin

text \<open>
  The server of the internal streams (\<^verbatim>\<open>src/common/streaming/server.go\<close>) with its table of peers, as a system of
  concurrent streams.  A connection is the address of its state; the handler is the router.
\<close>

section \<open>Peers\<close>

record Peer =
  pe_ServiceType :: ServiceType
  pe_InstanceID :: string
  pe_Connection :: nat

definition show_int :: "int \<Rightarrow> string" where
  "show_int i = (if i < 0 then ''-'' @ show_nat (nat (- i)) else show_nat (nat i))"

definition ServiceType_String :: "ServiceType \<Rightarrow> string" where
  "ServiceType_String t =
     (if t = SERVICE_TYPE_UNSPECIFIED then ''SERVICE_TYPE_UNSPECIFIED'' else if t = SERVICE_TYPE_GATEWAY then ''SERVICE_TYPE_GATEWAY''
      else if t = SERVICE_TYPE_LOBBY then ''SERVICE_TYPE_LOBBY'' else if t = SERVICE_TYPE_USERCENTER then ''SERVICE_TYPE_USERCENTER''
      else if t = SERVICE_TYPE_BATTLE then ''SERVICE_TYPE_BATTLE'' else show_int t)"

definition peerKey :: "ServiceType \<Rightarrow> string \<Rightarrow> string" where
  "peerKey serviceType instanceID = ServiceType_String serviceType @ ''/'' @ instanceID"

definition parseHello :: "codec \<Rightarrow> InternalEnvelope \<Rightarrow> Peer result" where
  "parseHello cd envelope =
     (if en_Kind envelope \<noteq> ENVELOPE_KIND_HELLO then Inl (NewError ''first stream message must be hello'')
      else (case pb_Hello cd (en_Payload envelope) of
         Inl _ \<Rightarrow> Inl (NewError ''invalid hello payload'')
       | Inr hello \<Rightarrow>
           if he_ServiceType hello = SERVICE_TYPE_UNSPECIFIED \<or> he_InstanceId hello = ''''
           then Inl (NewError ''hello service type and instance id are required'')
           else Inr \<lparr>pe_ServiceType = he_ServiceType hello, pe_InstanceID = he_InstanceId hello, pe_Connection = 0\<rparr>))"

section \<open>The server\<close>

record Server =
  sv_peers :: "string \<rightharpoonup> Peer"
  sv_conns :: "nat \<rightharpoonup> StreamConnection"

definition NewServer :: Server where
  "NewServer = \<lparr>sv_peers = Map.empty, sv_conns = Map.empty\<rparr>"

text \<open>\<open>Connect\<close> up to its loop, for a connection at the new address \<open>a\<close>; its deferred function; and one round of its loop.\<close>

definition Connect_hello :: "codec \<Rightarrow> (sentinel \<Rightarrow> string) \<Rightarrow> nat \<Rightarrow> InternalEnvelope \<Rightarrow> Server \<Rightarrow> Peer result \<times> Server" where
  "Connect_hello cd msg a first s =
     (case parseHello cd first of
        Inl e \<Rightarrow> (Inl (NewError (''rpc error: code = Unauthenticated desc = '' @ Error msg e)), s)
      | Inr p \<Rightarrow>
          (let peer = p\<lparr>pe_Connection := a\<rparr>
           in (Inr peer, s\<lparr>sv_conns := (sv_conns s)(a \<mapsto> NewConnection),
                 sv_peers := (sv_peers s)(peerKey (pe_ServiceType peer) (pe_InstanceID peer) \<mapsto> peer)\<rparr>)))"

definition Connect_end :: "Peer \<Rightarrow> Server \<Rightarrow> Server" where
  "Connect_end peer s = s\<lparr>sv_conns := (sv_conns s)(pe_Connection peer := map_option StreamConnection_Close (sv_conns s (pe_Connection peer))),
     sv_peers := (sv_peers s)(peerKey (pe_ServiceType peer) (pe_InstanceID peer) := None)\<rparr>"

definition Connect_message :: "codec \<Rightarrow> (sentinel \<Rightarrow> string) \<Rightarrow> 'w Router \<Rightarrow> go_error option \<Rightarrow> ServiceType \<Rightarrow> InternalEnvelope \<Rightarrow>
    'w \<times> StreamConnection \<Rightarrow> go_error option \<times> 'w \<times> StreamConnection" where
  "Connect_message cd msg r out peerService envelope wc =
     (if en_Kind envelope = ENVELOPE_KIND_HELLO
      then (case wc of (w, c) \<Rightarrow> (Some (NewError ''rpc error: code = InvalidArgument desc = hello is only valid as the first message''), w, c))
      else Router_Handle cd msg r out peerService envelope wc)"

definition Server_Peer :: "ServiceType \<Rightarrow> string \<Rightarrow> Server \<Rightarrow> Peer option" where
  "Server_Peer serviceType instanceID s = sv_peers s (peerKey serviceType instanceID)"

section \<open>Concurrent streams\<close>

record 'w server_sys =
  ss_server :: Server
  ss_streams :: "nat \<rightharpoonup> Peer"
  ss_world :: 'w

abbreviation ended :: "nat \<Rightarrow> Peer \<Rightarrow> 'w server_sys \<Rightarrow> 'w server_sys" where
  "ended a peer s \<equiv> s\<lparr>ss_server := Connect_end peer (ss_server s), ss_streams := (ss_streams s)(a := None)\<rparr>"

abbreviation put_conn :: "nat \<Rightarrow> StreamConnection \<Rightarrow> 'w \<Rightarrow> 'w server_sys \<Rightarrow> 'w server_sys" where
  "put_conn a c w s \<equiv> s\<lparr>ss_server := (ss_server s)\<lparr>sv_conns := (sv_conns (ss_server s))(a \<mapsto> c)\<rparr>, ss_world := w\<rparr>"

inductive server_step :: "codec \<Rightarrow> (sentinel \<Rightarrow> string) \<Rightarrow> 'w Router \<Rightarrow> 'w server_sys \<Rightarrow> 'w server_sys \<Rightarrow> bool"
  for cd :: codec and msg :: "sentinel \<Rightarrow> string" and r :: "'w Router" where
  s_connect: "sv_conns (ss_server s) a = None \<Longrightarrow> Connect_hello cd msg a first (ss_server s) = (Inr peer, sv) \<Longrightarrow>
    server_step cd msg r s (s\<lparr>ss_server := sv, ss_streams := (ss_streams s)(a \<mapsto> peer)\<rparr>)"
| s_message: "ss_streams s a = Some peer \<Longrightarrow> sv_conns (ss_server s) a = Some c \<Longrightarrow>
    Connect_message cd msg r out (pe_ServiceType peer) envelope (ss_world s, c) = (None, w, c') \<Longrightarrow>
    server_step cd msg r s (put_conn a c' w s)"
| s_failed: "ss_streams s a = Some peer \<Longrightarrow> sv_conns (ss_server s) a = Some c \<Longrightarrow>
    Connect_message cd msg r out (pe_ServiceType peer) envelope (ss_world s, c) = (Some e, w, c') \<Longrightarrow>
    server_step cd msg r s (ended a peer (put_conn a c' w s))"
| s_lost: "ss_streams s a = Some peer \<Longrightarrow> server_step cd msg r s (ended a peer s)"

section \<open>The table of peers\<close>

lemma Connect_message_done:
  assumes "Connect_message cd msg r out ps envelope (w, c) = (e, w', c')"
  shows "sn_done c' = sn_done c"
  using assms
  by (auto simp: Connect_message_def Router_Handle_def dispatch_def sendError_def StreamConnection_Send_def
      split: option.splits sum.splits prod.splits if_splits)

definition key_of :: "Peer \<Rightarrow> string" where
  "key_of p = peerKey (pe_ServiceType p) (pe_InstanceID p)"

text \<open>Streams are open and at their own address; the table names open streams only, under their keys.\<close>

definition server_inv :: "'w server_sys \<Rightarrow> bool" where
  "server_inv s \<longleftrightarrow>
     (\<forall>a p. ss_streams s a = Some p \<longrightarrow> pe_Connection p = a \<and> (\<exists>c. sv_conns (ss_server s) a = Some c \<and> \<not> sn_done c))
     \<and> (\<forall>a c. ss_streams s a = None \<longrightarrow> sv_conns (ss_server s) a = Some c \<longrightarrow> sn_done c)
     \<and> (\<forall>k p. sv_peers (ss_server s) k = Some p \<longrightarrow> k = key_of p \<and> ss_streams s (pe_Connection p) = Some p)"

lemma server_invI:
  assumes "\<And>a p. ss_streams s a = Some p \<Longrightarrow> pe_Connection p = a \<and> (\<exists>c. sv_conns (ss_server s) a = Some c \<and> \<not> sn_done c)"
    and "\<And>a c. ss_streams s a = None \<Longrightarrow> sv_conns (ss_server s) a = Some c \<Longrightarrow> sn_done c"
    and "\<And>k p. sv_peers (ss_server s) k = Some p \<Longrightarrow> k = key_of p \<and> ss_streams s (pe_Connection p) = Some p"
  shows "server_inv s"
  unfolding server_inv_def using assms by blast

lemma server_invD:
  assumes "server_inv s"
  shows "ss_streams s a = Some p \<Longrightarrow> pe_Connection p = a" "ss_streams s a = Some p \<Longrightarrow> \<exists>c. sv_conns (ss_server s) a = Some c \<and> \<not> sn_done c"
    "ss_streams s a = None \<Longrightarrow> sv_conns (ss_server s) a = Some c \<Longrightarrow> sn_done c"
    "sv_peers (ss_server s) k = Some p \<Longrightarrow> k = key_of p" "sv_peers (ss_server s) k = Some p \<Longrightarrow> ss_streams s (pe_Connection p) = Some p"
  using assms unfolding server_inv_def by blast+

lemma put_conn_inv:
  assumes inv: "server_inv s" and a: "ss_streams s a = Some peer" "sv_conns (ss_server s) a = Some c" and c': "sn_done c' = sn_done c"
  shows "server_inv (put_conn a c' w s)"
proof -
  note D = server_invD [OF inv]
  have open_c: "\<not> sn_done c'" using D(2) [OF a(1)] a(2) c' by auto
  show ?thesis
    by (rule server_invI) (use D a open_c in \<open>auto split: if_splits\<close>)
qed

lemma ended_inv:
  assumes inv: "server_inv s" and a: "ss_streams s a = Some peer"
  shows "server_inv (ended a peer s)"
proof -
  note D = server_invD [OF inv]
  have p: "pe_Connection peer = a" by (rule D(1) [OF a])
  show ?thesis
  proof (rule server_invI)
    fix b q assume "ss_streams (ended a peer s) b = Some q"
    then have "b \<noteq> a" "ss_streams s b = Some q" by (auto split: if_splits)
    then show "pe_Connection q = b \<and> (\<exists>c. sv_conns (ss_server (ended a peer s)) b = Some c \<and> \<not> sn_done c)"
      using D(1,2) p by (simp add: Connect_end_def)
  next
    fix b c assume "ss_streams (ended a peer s) b = None" "sv_conns (ss_server (ended a peer s)) b = Some c"
    then show "sn_done c" using D(3) p by (auto simp: Connect_end_def StreamConnection_Close_def split: if_splits)
  next
    fix k q assume "sv_peers (ss_server (ended a peer s)) k = Some q"
    then have k: "k \<noteq> key_of peer" "sv_peers (ss_server s) k = Some q" by (auto simp: Connect_end_def key_of_def split: if_splits)
    have "pe_Connection q \<noteq> a"
    proof
      assume "pe_Connection q = a"
      then have "q = peer" using D(5) [OF k(2)] a by simp
      then show False using D(4) [OF k(2)] k(1) by simp
    qed
    then show "k = key_of q \<and> ss_streams (ended a peer s) (pe_Connection q) = Some q" using D(4,5) [OF k(2)] by simp
  qed
qed

lemma server_step_inv:
  assumes "server_step cd msg r s s'" "server_inv s"
  shows "server_inv s'"
  using assms(1)
proof cases
  case (s_connect a first peer sv)
  note D = server_invD [OF assms(2)]
  have none: "ss_streams s a = None" using D(2) [of a] s_connect(2) by (cases "ss_streams s a") auto
  have sv: "pe_Connection peer = a" "sv_conns sv = (sv_conns (ss_server s))(a \<mapsto> NewConnection)" "sv_peers sv = (sv_peers (ss_server s))(key_of peer \<mapsto> peer)"
    using s_connect(3) by (auto simp: Connect_hello_def Let_def key_of_def split: sum.splits)
  have other: "pe_Connection q \<noteq> a" if "sv_peers (ss_server s) k = Some q" for k q using D(5) [OF that] none by auto
  show ?thesis unfolding s_connect(1)
    by (rule server_invI) (use D none sv other in \<open>auto simp: NewConnection_def split: if_splits\<close>)
next
  case (s_message a peer c out envelope w c')
  show ?thesis unfolding s_message(1) by (rule put_conn_inv [OF assms(2) s_message(2,3) Connect_message_done [OF s_message(4)]])
next
  case (s_failed a peer c out envelope e w c')
  have "server_inv (put_conn a c' w s)" by (rule put_conn_inv [OF assms(2) s_failed(2,3) Connect_message_done [OF s_failed(4)]])
  then show ?thesis unfolding s_failed(1) by (rule ended_inv) (simp add: s_failed(2))
next
  case (s_lost a peer)
  show ?thesis unfolding s_lost(1) by (rule ended_inv [OF assms(2) s_lost(2)])
qed

lemma server_run_inv:
  assumes "(server_step cd msg r)\<^sup>*\<^sup>* s s'" "server_inv s"
  shows "server_inv s'"
  using assms by (induction rule: rtranclp_induct) (auto intro: server_step_inv)

end
