(* ===== verification/Stream_Link.thy ===== *)
theory Stream_Link
  imports Stream_Server
begin

text \<open>
  One stream from end to end: the client system of \<open>Stream_Client\<close> and one loop of \<open>Stream_Server\<close>, joined by a stream that
  delivers in order in both directions.  Every answer that the client hands to a call is the router's answer to that call's request,
  and the client's read loop never blocks on a full channel.
\<close>

section \<open>What the client sends\<close>

definition is_request :: "InternalEnvelope \<Rightarrow> bool" where
  "is_request x \<longleftrightarrow> en_Kind x = ENVELOPE_KIND_REQUEST"

abbreviation sent :: "client_sys \<Rightarrow> InternalEnvelope list" where
  "sent s \<equiv> sl_stream (sy_client s)"

definition sent_inv :: "client_sys \<Rightarrow> bool" where
  "sent_inv s \<longleftrightarrow> distinct (map en_RequestId (filter is_request (sent s)))
     \<and> (\<forall>x \<in> set (sent s). is_request x \<longrightarrow> (\<exists>r k. sy_calls s r = Some k \<and> ca_phase k \<noteq> Sending \<and> ca_request k = x))
     \<and> (\<forall>r k. sy_calls s r = Some k \<longrightarrow> is_request (ca_request k))
     \<and> (\<forall>x \<in> set (tl (sent s)). en_Kind x = ENVELOPE_KIND_REQUEST \<or> en_Kind x = ENVELOPE_KIND_EVENT)
     \<and> sent s \<noteq> [] \<and> en_Kind (hd (sent s)) = ENVELOPE_KIND_HELLO"

lemma sent_invI:
  assumes "distinct (map en_RequestId (filter is_request (sent s)))"
    and "\<And>x. x \<in> set (sent s) \<Longrightarrow> is_request x \<Longrightarrow> \<exists>r k. sy_calls s r = Some k \<and> ca_phase k \<noteq> Sending \<and> ca_request k = x"
    and "\<And>r k. sy_calls s r = Some k \<Longrightarrow> is_request (ca_request k)"
    and "\<And>x. x \<in> set (tl (sent s)) \<Longrightarrow> en_Kind x = ENVELOPE_KIND_REQUEST \<or> en_Kind x = ENVELOPE_KIND_EVENT"
    and "sent s \<noteq> []" "en_Kind (hd (sent s)) = ENVELOPE_KIND_HELLO"
  shows "sent_inv s"
  unfolding sent_inv_def using assms by blast

lemma sent_invD:
  assumes "sent_inv s"
  shows "distinct (map en_RequestId (filter is_request (sent s)))"
    "x \<in> set (sent s) \<Longrightarrow> is_request x \<Longrightarrow> \<exists>r k. sy_calls s r = Some k \<and> ca_phase k \<noteq> Sending \<and> ca_request k = x"
    "sy_calls s r = Some k \<Longrightarrow> is_request (ca_request k)"
    "x \<in> set (tl (sent s)) \<Longrightarrow> en_Kind x = ENVELOPE_KIND_REQUEST \<or> en_Kind x = ENVELOPE_KIND_EVENT"
    "sent s \<noteq> []" "en_Kind (hd (sent s)) = ENVELOPE_KIND_HELLO"
  using assms unfolding sent_inv_def by blast+

text \<open>A step that sends nothing and keeps the requests of the calls.\<close>

lemma sent_keep:
  assumes inv: "sent_inv s" and st: "sent s' = sent s"
    and old: "\<And>r k. sy_calls s r = Some k \<Longrightarrow> ca_phase k \<noteq> Sending \<Longrightarrow>
      \<exists>k'. sy_calls s' r = Some k' \<and> ca_phase k' \<noteq> Sending \<and> ca_request k' = ca_request k"
    and new: "\<And>r k'. sy_calls s' r = Some k' \<Longrightarrow> is_request (ca_request k') \<or> (\<exists>k. sy_calls s r = Some k \<and> ca_request k' = ca_request k)"
  shows "sent_inv s'"
proof -
  note D = sent_invD [OF inv]
  show ?thesis
  proof (rule sent_invI)
    fix x assume "x \<in> set (sent s')" "is_request x"
    then obtain r k where "sy_calls s r = Some k" "ca_phase k \<noteq> Sending" "ca_request k = x" using D(2) st by metis
    then show "\<exists>r k. sy_calls s' r = Some k \<and> ca_phase k \<noteq> Sending \<and> ca_request k = x" using old by metis
  next
    fix r k assume "sy_calls s' r = Some k"
    then show "is_request (ca_request k)" using new D(3) by metis
  qed (use D(1,4,5,6) st in \<open>simp_all\<close>)
qed

text \<open>A call in the state \<open>Sending\<close> has not sent its request.\<close>

lemma not_sent_yet:
  assumes "client_inv s" "sent_inv s" "sy_calls s r = Some k" "ca_phase k = Sending"
  shows "ca_id k \<notin> en_RequestId ` set (filter is_request (sent s))"
proof
  assume "ca_id k \<in> en_RequestId ` set (filter is_request (sent s))"
  then obtain x where x: "x \<in> set (sent s)" "is_request x" "en_RequestId x = ca_id k" by auto
  obtain r2 k2 where k2: "sy_calls s r2 = Some k2" "ca_phase k2 \<noteq> Sending" "ca_request k2 = x" using sent_invD(2) [OF assms(2) x(1,2)] by blast
  have "r2 = r" using client_invD(4) [OF assms(1) k2(1) assms(3)] k2(3) x(3) by simp
  then show False using k2 assms(3,4) by simp
qed

lemma client_step_sent:
  assumes "client_step s s'" and ci: "client_inv s" and inv: "sent_inv s"
  shows "sent_inv s'"
  using assms(1)
proof cases
  case (c_begin r envelope request ch c')
  have req: "is_request request" "sl_stream c' = sent s" using c_begin(3) by (auto simp: Request_begin_def Let_def is_request_def)
  show ?thesis by (rule sent_keep [OF inv]) (use c_begin(1,2) req in \<open>auto split: if_splits\<close>)
next
  case (c_sent r k outcome c')
  note D = sent_invD [OF inv]
  have c': "sl_stream c' = sent s @ [ca_request k]" using c_sent(4) by (auto simp: Client_send_def split: if_splits option.splits)
  have new: "ca_id k \<notin> en_RequestId ` set (filter is_request (sent s))" by (rule not_sent_yet [OF ci inv c_sent(2,3)])
  have rq: "is_request (ca_request k)" by (rule D(3) [OF c_sent(2)])
  show ?thesis unfolding c_sent(1)
  proof (rule sent_invI, goal_cases)
    case 1
    show ?case using D(1) new rq c' by simp
  next
    case (2 x)
    show ?case
    proof (cases "x \<in> set (sent s)")
      case True
      from D(2) [OF this 2(2)] obtain r2 k2 where "sy_calls s r2 = Some k2" "ca_phase k2 \<noteq> Sending" "ca_request k2 = x" by blast
      then show ?thesis using c_sent(2) by (intro exI [of _ r2]) (cases "r2 = r"; simp)
    next
      case False
      then have "x = ca_request k" using 2(1) c' by simp
      then show ?thesis by (intro exI [of _ r]) simp
    qed
  next
    case (3 r2 k2)
    then show ?case using D(3) rq by (auto split: if_splits)
  next
    case (4 x)
    then show ?case using D(4,5) rq c' by (auto simp: is_request_def)
  next
    case 5
    then show ?case using c' by simp
  next
    case 6
    then show ?case using c' D(5,6) by simp
  qed
next
  case (c_not_sent r k outcome e c')
  have "sl_stream c' = sent s" using c_not_sent(4) by (auto simp: Client_send_def split: if_splits option.splits)
  then show ?thesis by (intro sent_keep [OF inv]) (use c_not_sent(1,2) in \<open>auto split: if_splits\<close>)
next
  case (c_answered r k e es)
  show ?thesis by (rule sent_keep [OF inv]) (use c_answered(1,2) in \<open>auto split: if_splits\<close>)
next
  case (c_timeout r k)
  show ?thesis by (rule sent_keep [OF inv]) (use c_timeout(1,2) in \<open>auto split: if_splits\<close>)
next
  case (c_closed r k)
  show ?thesis by (rule sent_keep [OF inv]) (use c_closed(1,2) in \<open>auto split: if_splits\<close>)
next
  case (c_end r k res)
  show ?thesis by (rule sent_keep [OF inv]) (use c_end(1,2) in \<open>auto simp: Request_end_def split: if_splits\<close>)
next
  case (c_event outcome envelope e c')
  note D = sent_invD [OF inv]
  consider "sl_stream c' = sent s" | "sl_stream c' = sent s @ [envelope\<lparr>en_Kind := ENVELOPE_KIND_EVENT\<rparr>]"
    using c_event(2) by (auto simp: SendEvent_def Client_send_def split: if_splits option.splits)
  then show ?thesis
  proof cases
    case 1
    then show ?thesis by (intro sent_keep [OF inv]) (use c_event(1) in \<open>auto split: if_splits\<close>)
  next
    case 2
    have no: "\<not> is_request (envelope\<lparr>en_Kind := ENVELOPE_KIND_EVENT\<rparr>)" by (simp add: is_request_def envelope_kinds)
    show ?thesis unfolding c_event(1)
      by (rule sent_invI) (use D 2 no in \<open>auto\<close>)
  qed
next
  case c_close
  show ?thesis by (rule sent_keep [OF inv]) (use c_close(1) in \<open>auto simp: Client_Close_def split: if_splits\<close>)
next
  case (r_recv e)
  show ?thesis by (rule sent_keep [OF inv]) (use r_recv(1) in \<open>auto split: if_splits\<close>)
next
  case (r_push ch e)
  show ?thesis by (rule sent_keep [OF inv]) (use r_push(1) in \<open>auto split: if_splits\<close>)
next
  case r_error
  show ?thesis by (rule sent_keep [OF inv]) (use r_error(1) in \<open>auto simp: Client_Close_def split: if_splits\<close>)
qed

section \<open>The two ends\<close>

record 'w link_sys =
  lk_client :: client_sys
  lk_read :: nat
  lk_conn :: StreamConnection
  lk_open :: bool
  lk_world :: 'w

text \<open>
  \<open>lk_read\<close> counts the envelopes of the client that the server has received.  \<open>l_world\<close> is what requests of other streams do; \<open>ps\<close> is
  the service type in the client's greeting.
\<close>

inductive link_step :: "codec \<Rightarrow> (sentinel \<Rightarrow> string) \<Rightarrow> 'w Router \<Rightarrow> ServiceType \<Rightarrow> 'w link_sys \<Rightarrow> 'w link_sys \<Rightarrow> bool"
  for cd :: codec and msg :: "sentinel \<Rightarrow> string" and r :: "'w Router" and ps :: ServiceType where
  l_client: "client_step (lk_client l) s \<Longrightarrow> prefix (sy_received s) (sn_sent (lk_conn l)) \<Longrightarrow> link_step cd msg r ps l (l\<lparr>lk_client := s\<rparr>)"
| l_server: "lk_open l \<Longrightarrow> lk_read l < length (sent (lk_client l)) \<Longrightarrow>
    Connect_message cd msg r out ps (sent (lk_client l) ! lk_read l) (lk_world l, lk_conn l) = (e, w, c) \<Longrightarrow>
    link_step cd msg r ps l (l\<lparr>lk_read := lk_read l + 1, lk_conn := (if e = None then c else StreamConnection_Close c), lk_open := (e = None), lk_world := w\<rparr>)"
| l_lost: "lk_open l \<Longrightarrow> link_step cd msg r ps l (l\<lparr>lk_conn := StreamConnection_Close (lk_conn l), lk_open := False\<rparr>)"
| l_world: "link_step cd msg r ps l (l\<lparr>lk_world := w\<rparr>)"

definition new_link :: "Client \<Rightarrow> 'w \<Rightarrow> 'w link_sys" where
  "new_link c w = \<lparr>lk_client = new_client_sys c, lk_read = 1, lk_conn = NewConnection, lk_open = True, lk_world = w\<rparr>"

text \<open>The requests that the server has received, and what it may have answered.\<close>

abbreviation asked :: "'w link_sys \<Rightarrow> InternalEnvelope list" where
  "asked l \<equiv> filter is_request (take (lk_read l) (sent (lk_client l)))"

definition answers_request :: "codec \<Rightarrow> (sentinel \<Rightarrow> string) \<Rightarrow> 'w Router \<Rightarrow> ServiceType \<Rightarrow> InternalEnvelope \<Rightarrow> InternalEnvelope \<Rightarrow> bool" where
  "answers_request cd msg r ps x e \<longleftrightarrow> (\<exists>w. reply_of cd msg ps x (fst (run_handler r x w)) = Some e)"

definition link_inv :: "codec \<Rightarrow> (sentinel \<Rightarrow> string) \<Rightarrow> 'w Router \<Rightarrow> ServiceType \<Rightarrow> 'w link_sys \<Rightarrow> bool" where
  "link_inv cd msg r ps l \<longleftrightarrow> client_inv (lk_client l) \<and> sent_inv (lk_client l) \<and> 1 \<le> lk_read l \<and> lk_read l \<le> length (sent (lk_client l))
     \<and> prefix (sy_received (lk_client l)) (sn_sent (lk_conn l))
     \<and> subseq (map en_RequestId (sn_sent (lk_conn l))) (map en_RequestId (asked l))
     \<and> (\<forall>e \<in> set (sn_sent (lk_conn l)). \<exists>x \<in> set (asked l). answers_request cd msg r ps x e)"

lemma client_step_prefix:
  assumes "client_step s s'"
  shows "prefix (sent s) (sent s')"
  using assms
  by cases (auto simp: Request_begin_def Let_def Client_send_def SendEvent_def Request_end_def Client_Close_def split: if_splits option.splits)

lemma Connect_message_request:
  assumes "is_request x" "Connect_message cd msg r out ps x (w, c) = (e, w', c')"
  shows "sn_sent c' = sn_sent c \<or> (\<exists>y. sn_sent c' = sn_sent c @ [y] \<and> en_RequestId y = en_RequestId x \<and> answers_request cd msg r ps x y)"
proof -
  have k: "en_Kind x = ENVELOPE_KIND_REQUEST" using assms(1) by (simp add: is_request_def)
  have h: "Router_Handle cd msg r out ps x (w, c) = (e, w', c')" using assms(2) k by (simp add: Connect_message_def envelope_kinds)
  obtain res w2 where run: "run_handler r x w = (res, w2)" by (cases "run_handler r x w") auto
  note H = Handle_request [OF k run h]
  show ?thesis
  proof (cases "reply_of cd msg ps x res")
    case None
    then show ?thesis using H(3) by (simp split: if_splits)
  next
    case (Some y)
    have "answers_request cd msg r ps x y" unfolding answers_request_def using run Some by (intro exI [of _ w]) simp
    moreover have "en_RequestId y = en_RequestId x" by (rule reply_of_answer(2) [OF Some])
    ultimately show ?thesis using H(3) Some by (simp split: if_splits)
  qed
qed

lemma Connect_message_event:
  assumes "en_Kind x = ENVELOPE_KIND_EVENT" "Connect_message cd msg r out ps x (w, c) = (e, w', c')"
  shows "c' = c"
proof -
  obtain res w2 where run: "run_handler r x w = (res, w2)" by (cases "run_handler r x w") auto
  show ?thesis using assms Handle_event [OF assms(1) run] by (simp add: Connect_message_def envelope_kinds)
qed

lemma sent_close [simp]: "sn_sent (StreamConnection_Close c) = sn_sent c"
  by (simp add: StreamConnection_Close_def)

lemma link_step_inv:
  assumes "link_step cd msg r ps l l'" and inv: "link_inv cd msg r ps l" and few: "card (dom (sy_calls (lk_client l'))) < 2 ^ 64"
  shows "link_inv cd msg r ps l'"
  using assms(1)
proof cases
  case (l_client s)
  have s: "client_inv s" "sent_inv s" "prefix (sent (lk_client l)) (sent s)"
    using client_step_inv [OF l_client(2)] client_step_sent [OF l_client(2)] client_step_prefix [OF l_client(2)] inv few l_client(1)
    by (simp_all add: link_inv_def)
  obtain zs where zs: "sent s = sent (lk_client l) @ zs" using s(3) by (auto simp: prefix_def)
  have "take (lk_read l) (sent s) = take (lk_read l) (sent (lk_client l))" using inv by (simp add: zs link_inv_def)
  then show ?thesis using inv s l_client(1,3) zs by (simp add: link_inv_def)
next
  case (l_server out e w c)
  let ?x = "sent (lk_client l) ! lk_read l"
  have si: "sent_inv (lk_client l)" "1 \<le> lk_read l" using inv by (simp_all add: link_inv_def)
  have "?x = tl (sent (lk_client l)) ! (lk_read l - 1)" using l_server(3) si(2) by (simp add: nth_tl)
  then have "?x \<in> set (tl (sent (lk_client l)))" using l_server(3) si(2) by (metis One_nat_def Suc_le_eq diff_less_mono length_tl nth_mem)
  from sent_invD(4) [OF si(1) this] have kind: "is_request ?x \<or> en_Kind ?x = ENVELOPE_KIND_EVENT" by (simp add: is_request_def)
  have ask: "asked l' = asked l @ filter is_request [?x]" using l_server(1,3) by (simp add: take_Suc_conv_app_nth)
  have conn: "sn_sent (lk_conn l') = sn_sent c" "lk_client l' = lk_client l" "lk_read l' = lk_read l + 1" using l_server(1) by simp_all
  have c: "sn_sent c = sn_sent (lk_conn l) \<or> (is_request ?x \<and> (\<exists>y. sn_sent c = sn_sent (lk_conn l) @ [y] \<and> en_RequestId y = en_RequestId ?x
      \<and> answers_request cd msg r ps ?x y))"
    using kind Connect_message_request [OF _ l_server(4)] Connect_message_event [OF _ l_server(4)] by metis
  have base: "client_inv (lk_client l)" "sent_inv (lk_client l)" "prefix (sy_received (lk_client l)) (sn_sent (lk_conn l))"
    "subseq (map en_RequestId (sn_sent (lk_conn l))) (map en_RequestId (asked l))"
    "\<And>e. e \<in> set (sn_sent (lk_conn l)) \<Longrightarrow> \<exists>x \<in> set (asked l). answers_request cd msg r ps x e"
    using inv by (simp_all add: link_inv_def)
  have old: "\<exists>x \<in> set (asked l'). answers_request cd msg r ps x e" if "e \<in> set (sn_sent (lk_conn l))" for e using base(5) [OF that] unfolding ask by auto
  from c show ?thesis
  proof
    assume c: "sn_sent c = sn_sent (lk_conn l)"
    have "subseq (map en_RequestId (sn_sent (lk_conn l))) (map en_RequestId (asked l'))" unfolding ask map_append
      by (rule subseq_order.trans [OF base(4) prefix_imp_subseq]) simp
    then show ?thesis using base(1-3) old l_server(3) conn c by (simp add: link_inv_def)
  next
    assume "is_request ?x \<and> (\<exists>y. sn_sent c = sn_sent (lk_conn l) @ [y] \<and> en_RequestId y = en_RequestId ?x \<and> answers_request cd msg r ps ?x y)"
    then obtain y where y: "is_request ?x" "sn_sent c = sn_sent (lk_conn l) @ [y]" "en_RequestId y = en_RequestId ?x" "answers_request cd msg r ps ?x y" by blast
    have "subseq (map en_RequestId (sn_sent (lk_conn l)) @ [en_RequestId ?x]) (map en_RequestId (asked l) @ [en_RequestId ?x])"
      by (rule list_emb_append_mono [OF base(4)]) simp
    then have "subseq (map en_RequestId (sn_sent c)) (map en_RequestId (asked l'))" unfolding ask using y by simp
    moreover have "?x \<in> set (asked l')" unfolding ask using y(1) by simp
    ultimately show ?thesis using base(1-3) old y(2,4) l_server(3) conn by (auto simp: link_inv_def)
  qed
next
  case l_lost
  then show ?thesis using inv by (simp add: link_inv_def)
next
  case (l_world w)
  then show ?thesis using inv by (simp add: link_inv_def)
qed

section \<open>Runs\<close>

lemma link_step_calls:
  assumes "link_step cd msg r ps l l'"
  shows "dom (sy_calls (lk_client l)) \<subseteq> dom (sy_calls (lk_client l'))
    \<and> (finite (dom (sy_calls (lk_client l))) \<longrightarrow> finite (dom (sy_calls (lk_client l'))))"
  using assms
proof cases
  case (l_client s)
  then show ?thesis using client_step_calls [OF l_client(2)] by simp
qed simp_all

lemma link_run_inv:
  assumes "(link_step cd msg r ps)\<^sup>*\<^sup>* l l'" "link_inv cd msg r ps l" "card (dom (sy_calls (lk_client l'))) < 2 ^ 64"
  shows "link_inv cd msg r ps l'"
proof -
  have "finite (dom (sy_calls (lk_client l))) \<and> (finite (dom (sy_calls (lk_client l'))) \<longrightarrow> card (dom (sy_calls (lk_client l'))) < 2 ^ 64 \<longrightarrow> link_inv cd msg r ps l')
    \<and> finite (dom (sy_calls (lk_client l')))"
    using assms(1)
  proof (induction rule: rtranclp_induct)
    case base
    show ?case using assms(2) client_invD(1) by (auto simp: link_inv_def)
  next
    case (step l1 l2)
    have f: "finite (dom (sy_calls (lk_client l2)))" "card (dom (sy_calls (lk_client l1))) \<le> card (dom (sy_calls (lk_client l2)))"
      using link_step_calls [OF step(2)] step(3) by (simp_all add: card_mono)
    then show ?case using step(3) link_step_inv [OF step(2)] by auto
  qed
  then show ?thesis using assms(3) by blast
qed

lemma new_link_inv:
  assumes c: "NewClient cd service instanceID connected outcome = Inr c"
  shows "link_inv cd msg r ps (new_link c w)"
proof -
  have st: "\<exists>p. sl_stream c = [emptyEnvelope\<lparr>en_Kind := ENVELOPE_KIND_HELLO, en_SourceService := service, en_Payload := p\<rparr>]"
    using c by (auto simp: NewClient_def sendHello_def Client_send_def emptyClient_def split: option.splits sum.splits if_splits prod.splits)
  have "sent_inv (new_client_sys c)" using st by (auto simp: sent_inv_def new_client_sys_def is_request_def envelope_kinds)
  then show ?thesis using new_client_inv [OF c] st by (auto simp: link_inv_def new_link_def NewConnection_def) (simp_all add: new_client_sys_def)
qed

section \<open>Answers\<close>

lemma distinct_filter_le:
  "distinct (map f xs) \<Longrightarrow> length (filter (\<lambda>x. P x \<and> f x = i) xs) \<le> 1"
proof (induction xs)
  case (Cons a xs)
  have "filter (\<lambda>x. P x \<and> f x = i) xs = []" if "f a = i" using Cons(2) that by (auto simp: filter_empty_conv image_iff)
  then show ?case using Cons by auto
qed simp

lemma distinct_subseq: "subseq xs ys \<Longrightarrow> distinct ys \<Longrightarrow> distinct xs"
  by (induction rule: list_emb.induct) (auto dest: list_emb_set)

lemma answers_once:
  assumes inv: "link_inv cd msg r ps l"
  shows "seen (lk_client l) i \<le> 1"
proof -
  have "distinct (map en_RequestId (filter is_request (sent (lk_client l))))" using inv by (simp add: link_inv_def sent_invD(1))
  moreover have "filter is_request (sent (lk_client l)) = asked l @ filter is_request (drop (lk_read l) (sent (lk_client l)))"
    by (metis append_take_drop_id filter_append)
  ultimately have "distinct (map en_RequestId (asked l))" by simp
  then have "distinct (map en_RequestId (sn_sent (lk_conn l)))" using inv by (meson link_inv_def distinct_subseq)
  then have "distinct (map en_RequestId (sy_received (lk_client l)))" using inv by (auto simp: link_inv_def prefix_def)
  then show ?thesis unfolding seen_def by (rule distinct_filter_le)
qed

lemma answer_matches:
  assumes inv: "link_inv cd msg r ps l" and k: "sy_calls (lk_client l) i = Some k" "got (ca_phase k) = Some e"
  shows "answers_request cd msg r ps (ca_request k) e"
proof -
  have ci: "client_inv (lk_client l)" "sent_inv (lk_client l)" using inv by (simp_all add: link_inv_def)
  have a: "en_RequestId e = ca_id k" "e \<in> set (sy_received (lk_client l))"
    using client_invD(3) [OF ci(1) k(1)] k(2) by (simp_all add: call_ok_def answer_to_def)
  then have "e \<in> set (sn_sent (lk_conn l))" using inv by (auto simp: link_inv_def prefix_def)
  then obtain x where x: "x \<in> set (asked l)" "answers_request cd msg r ps x e" using inv by (auto simp: link_inv_def)
  have sx: "x \<in> set (sent (lk_client l))" "is_request x" using x(1) by (auto dest: in_set_takeD)
  obtain j k2 where k2: "sy_calls (lk_client l) j = Some k2" "ca_request k2 = x" using sent_invD(2) [OF ci(2) sx] by blast
  have "en_RequestId e = en_RequestId x" using x(2) reply_of_answer(2) by (auto simp: answers_request_def)
  then have "k2 = k" using client_invD(4) [OF ci(1) k2(1) k(1)] k2 k(1) a(1) by auto
  then show ?thesis using x(2) k2(2) by simp
qed

end
