(* ===== verification/Stream_Manager.thy ===== *)
theory Stream_Manager
  imports Protocol
begin

text \<open>
  The manager of stream clients (\<^verbatim>\<open>src/common/streaming/manager.go\<close>): its two tables and the goroutines that connect, watch
  and reconnect.  A critical section of the source is one step.  Clients are numbered in the order in which they are made;
  a client and the connection under it have the same number.
\<close>

section \<open>State\<close>

record Registration =
  rg_Service :: string
  rg_Instance :: string
  rg_Address :: string
  rg_Version :: string
  rg_Weight :: int
  rg_Zone :: string

record managedClient =
  mc_registration :: Registration
  mc_client :: nat

record ClientManager =
  cm_serviceName :: string
  cm_instanceID :: string
  cm_known :: "string \<rightharpoonup> Registration"
  cm_clients :: "string \<rightharpoonup> managedClient"

definition NewClientManager :: "string \<Rightarrow> string \<Rightarrow> ClientManager" where
  "NewClientManager serviceName instanceID =
     \<lparr>cm_serviceName = serviceName, cm_instanceID = instanceID, cm_known = Map.empty, cm_clients = Map.empty\<rparr>"

definition managerKey :: "string \<Rightarrow> string \<Rightarrow> string" where
  "managerKey service instanceID = service @ ''/'' @ instanceID"

section \<open>Operations\<close>

definition Manager_Client :: "string \<Rightarrow> string \<Rightarrow> ClientManager \<Rightarrow> nat option" where
  "Manager_Client service instanceID m = map_option mc_client (cm_clients m (managerKey service instanceID))"

text \<open>The loop of \<open>AnyClient\<close> over the clients in the order \<open>ks\<close>.\<close>

fun any_loop :: "string \<Rightarrow> (string \<rightharpoonup> managedClient) \<Rightarrow> string list \<Rightarrow> nat option" where
  "any_loop p m [] = None"
| "any_loop p m (k # ks) = (if take (length p) k = p then map_option mc_client (m k) else any_loop p m ks)"

definition AnyClient :: "((string \<rightharpoonup> managedClient) \<Rightarrow> string list) \<Rightarrow> string \<Rightarrow> ClientManager \<Rightarrow> nat option" where
  "AnyClient it service m = any_loop (service @ ''/'') (cm_clients m) (it (cm_clients m))"

text \<open>\<open>upsert\<close> under the lock, and whether it goes on to \<open>connect\<close>.\<close>

definition upsert :: "string \<Rightarrow> Registration \<Rightarrow> ClientManager \<Rightarrow> bool \<times> ClientManager" where
  "upsert serviceName registration m =
     (let key = managerKey serviceName (rg_Instance registration)
      in (cm_clients m key = None, m\<lparr>cm_known := (cm_known m)(key \<mapsto> registration)\<rparr>))"

text \<open>\<open>connect\<close> does nothing for the manager's own registration.\<close>

definition own :: "Registration \<Rightarrow> ClientManager \<Rightarrow> bool" where
  "own registration m \<longleftrightarrow> rg_Instance registration = cm_instanceID m \<and> rg_Service registration = cm_serviceName m"

text \<open>The end of \<open>connect\<close> under the lock: whether the new client was stored.\<close>

definition connect_store :: "string \<Rightarrow> Registration \<Rightarrow> nat \<Rightarrow> ClientManager \<Rightarrow> bool \<times> ClientManager" where
  "connect_store key registration c m =
     (if cm_clients m key \<noteq> None then (False, m)
      else (True, m\<lparr>cm_clients := (cm_clients m)(key \<mapsto> \<lparr>mc_registration = registration, mc_client = c\<rparr>)\<rparr>))"

text \<open>\<open>monitor\<close> under the lock: the registration to reconnect to, if any.\<close>

definition monitor_locked :: "string \<Rightarrow> nat \<Rightarrow> ClientManager \<Rightarrow> Registration option \<times> ClientManager" where
  "monitor_locked key c m =
     (cm_known m key,
      case cm_clients m key of
        None \<Rightarrow> m
      | Some current \<Rightarrow> if mc_client current = c then m\<lparr>cm_clients := (cm_clients m)(key := None)\<rparr> else m)"

text \<open>\<open>remove\<close>, with the client that it closes.\<close>

definition remove :: "string \<Rightarrow> string \<Rightarrow> ClientManager \<Rightarrow> nat option \<times> ClientManager" where
  "remove serviceName instanceID m =
     (let key = managerKey serviceName instanceID
      in (map_option mc_client (cm_clients m key),
          m\<lparr>cm_known := (cm_known m)(key := None), cm_clients := (cm_clients m)(key := None)\<rparr>))"

text \<open>\<open>Close\<close>, with the clients that it closes.\<close>

definition Manager_Close :: "ClientManager \<Rightarrow> nat set \<times> ClientManager" where
  "Manager_Close m = (mc_client ` ran (cm_clients m), m\<lparr>cm_clients := Map.empty\<rparr>)"

section \<open>Goroutines\<close>

datatype task =
    Connecting string Registration
  | Dialled string Registration nat
  | Monitoring string Registration nat
  | Retrying string Registration

record manager_sys =
  mg_manager :: ClientManager
  mg_tasks :: "nat \<rightharpoonup> task"
  mg_next :: nat
  mg_done :: "nat set"
  mg_closed :: "nat set"
  mg_cancelled :: bool

definition new_manager_sys :: "string \<Rightarrow> string \<Rightarrow> manager_sys" where
  "new_manager_sys serviceName instanceID = \<lparr>mg_manager = NewClientManager serviceName instanceID, mg_tasks = Map.empty, mg_next = 0,
     mg_done = {}, mg_closed = {}, mg_cancelled = False\<rparr>"

abbreviation put_task :: "nat \<Rightarrow> task option \<Rightarrow> manager_sys \<Rightarrow> manager_sys" where
  "put_task t x s \<equiv> s\<lparr>mg_tasks := (mg_tasks s)(t := x)\<rparr>"

inductive manager_step :: "manager_sys \<Rightarrow> manager_sys \<Rightarrow> bool" where
  m_upsert_connect: "upsert service reg (mg_manager s) = (True, m) \<Longrightarrow> mg_tasks s t = None \<Longrightarrow>
    manager_step s (put_task t (Some (Connecting (managerKey service (rg_Instance reg)) reg)) (s\<lparr>mg_manager := m\<rparr>))"
| m_upsert: "upsert service reg (mg_manager s) = (False, m) \<Longrightarrow> manager_step s (s\<lparr>mg_manager := m\<rparr>)"
| m_own: "mg_tasks s t = Some (Connecting key reg) \<Longrightarrow> own reg (mg_manager s) \<Longrightarrow> manager_step s (put_task t None s)"
| m_dial_failed: "mg_tasks s t = Some (Connecting key reg) \<Longrightarrow> manager_step s (put_task t None s)"
| m_dialled: "mg_tasks s t = Some (Connecting key reg) \<Longrightarrow> \<not> own reg (mg_manager s) \<Longrightarrow>
    manager_step s (put_task t (Some (Dialled key reg (mg_next s))) (s\<lparr>mg_next := mg_next s + 1\<rparr>))"
| m_stored: "mg_tasks s t = Some (Dialled key reg c) \<Longrightarrow> connect_store key reg c (mg_manager s) = (True, m) \<Longrightarrow>
    manager_step s (put_task t (Some (Monitoring key reg c)) (s\<lparr>mg_manager := m\<rparr>))"
| m_superfluous: "mg_tasks s t = Some (Dialled key reg c) \<Longrightarrow> connect_store key reg c (mg_manager s) = (False, m) \<Longrightarrow>
    manager_step s (put_task t None (s\<lparr>mg_manager := m, mg_done := insert c (mg_done s), mg_closed := insert c (mg_closed s)\<rparr>))"
| m_lost: "c < mg_next s \<Longrightarrow> manager_step s (s\<lparr>mg_done := insert c (mg_done s)\<rparr>)"
| m_gone: "mg_tasks s t = Some (Monitoring key reg c) \<Longrightarrow> c \<in> mg_done s \<Longrightarrow> monitor_locked key c (mg_manager s) = (known, m) \<Longrightarrow>
    manager_step s (put_task t (map_option (Retrying key) known) (s\<lparr>mg_manager := m, mg_closed := insert c (mg_closed s)\<rparr>))"
| m_retry: "mg_tasks s t = Some (Retrying key reg) \<Longrightarrow> \<not> mg_cancelled s \<Longrightarrow> manager_step s (put_task t (Some (Connecting key reg)) s)"
| m_stop: "mg_tasks s t = Some x \<Longrightarrow> mg_cancelled s \<Longrightarrow> (\<nexists>k g c. x = Dialled k g c) \<Longrightarrow> manager_step s (put_task t None s)"
| m_remove: "remove service instanceID (mg_manager s) = (co, m) \<Longrightarrow>
    manager_step s (s\<lparr>mg_manager := m, mg_done := set_option co \<union> mg_done s, mg_closed := set_option co \<union> mg_closed s\<rparr>)"
| m_close: "Manager_Close (mg_manager s) = (cs, m) \<Longrightarrow>
    manager_step s (s\<lparr>mg_manager := m, mg_done := cs \<union> mg_done s, mg_closed := cs \<union> mg_closed s, mg_cancelled := True\<rparr>)"

section \<open>Lookup\<close>

lemma any_loop_Some:
  "any_loop p m ks = Some c \<Longrightarrow> \<exists>k mc. k \<in> set ks \<and> take (length p) k = p \<and> m k = Some mc \<and> mc_client mc = c"
  by (induction ks) (auto split: if_splits)

lemma any_loop_None:
  "set ks = dom m \<Longrightarrow> any_loop p m ks = None \<longleftrightarrow> (\<forall>k \<in> set ks. take (length p) k \<noteq> p)"
proof -
  have "set ks \<subseteq> dom m \<Longrightarrow> any_loop p m ks = None \<longleftrightarrow> (\<forall>k \<in> set ks. take (length p) k \<noteq> p)"
    by (induction ks) auto
  then show "set ks = dom m \<Longrightarrow> ?thesis" by simp
qed

lemma AnyClient_Some:
  assumes "AnyClient it service m = Some c"
  shows "\<exists>instanceID mc. cm_clients m (managerKey service instanceID) = Some mc \<and> mc_client mc = c"
proof -
  obtain k mc where k: "take (length (service @ ''/'')) k = service @ ''/''" "cm_clients m k = Some mc" "mc_client mc = c"
    using any_loop_Some assms unfolding AnyClient_def by metis
  have "k = managerKey service (drop (length (service @ ''/'')) k)"
    using k(1) by (metis append_assoc append_take_drop_id managerKey_def)
  then show ?thesis using k by metis
qed

lemma AnyClient_exists:
  assumes "range_ok it" "finite (dom (cm_clients m))" "cm_clients m (managerKey service instanceID) = Some mc"
  shows "AnyClient it service m \<noteq> None"
proof
  assume n: "AnyClient it service m = None"
  have ks: "set (it (cm_clients m)) = dom (cm_clients m)" by (rule iterates_set [OF range_ok_iterates [OF assms(1,2)]])
  have "managerKey service instanceID \<in> set (it (cm_clients m))" using ks assms(3) by auto
  then have "take (length (service @ ''/'')) (managerKey service instanceID) \<noteq> service @ ''/''"
    using n any_loop_None [OF ks] unfolding AnyClient_def by blast
  then show False by (simp add: managerKey_def)
qed

section \<open>Clients in use\<close>

fun holds :: "task \<Rightarrow> nat \<Rightarrow> bool" where
  "holds (Dialled k g c) c' = (c' = c)"
| "holds (Monitoring k g c) c' = (c' = c)"
| "holds _ c' = False"

definition manager_inv :: "manager_sys \<Rightarrow> bool" where
  "manager_inv s \<longleftrightarrow>
     (\<forall>k mc. cm_clients (mg_manager s) k = Some mc \<longrightarrow> (\<exists>t. mg_tasks s t = Some (Monitoring k (mc_registration mc) (mc_client mc))))
     \<and> (\<forall>t k g c. mg_tasks s t = Some (Monitoring k g c) \<longrightarrow> c \<notin> mg_done s \<longrightarrow> (\<exists>mc. cm_clients (mg_manager s) k = Some mc \<and> mc_client mc = c))
     \<and> (\<forall>c. c < mg_next s \<longrightarrow> c \<notin> mg_closed s \<longrightarrow> (\<exists>t x. mg_tasks s t = Some x \<and> holds x c))
     \<and> (\<forall>t x c. mg_tasks s t = Some x \<longrightarrow> holds x c \<longrightarrow> c < mg_next s)
     \<and> (\<forall>t t' x x' c. mg_tasks s t = Some x \<longrightarrow> mg_tasks s t' = Some x' \<longrightarrow> holds x c \<longrightarrow> holds x' c \<longrightarrow> t = t')"

lemma manager_invI:
  assumes "\<And>k mc. cm_clients (mg_manager s) k = Some mc \<Longrightarrow> \<exists>t. mg_tasks s t = Some (Monitoring k (mc_registration mc) (mc_client mc))"
    and "\<And>t k g c. mg_tasks s t = Some (Monitoring k g c) \<Longrightarrow> c \<notin> mg_done s \<Longrightarrow> \<exists>mc. cm_clients (mg_manager s) k = Some mc \<and> mc_client mc = c"
    and "\<And>c. c < mg_next s \<Longrightarrow> c \<notin> mg_closed s \<Longrightarrow> \<exists>t x. mg_tasks s t = Some x \<and> holds x c"
    and "\<And>t x c. mg_tasks s t = Some x \<Longrightarrow> holds x c \<Longrightarrow> c < mg_next s"
    and "\<And>t t' x x' c. mg_tasks s t = Some x \<Longrightarrow> mg_tasks s t' = Some x' \<Longrightarrow> holds x c \<Longrightarrow> holds x' c \<Longrightarrow> t = t'"
  shows "manager_inv s"
  unfolding manager_inv_def using assms by blast

lemma manager_invD:
  assumes "manager_inv s"
  shows "cm_clients (mg_manager s) k = Some mc \<Longrightarrow> \<exists>t. mg_tasks s t = Some (Monitoring k (mc_registration mc) (mc_client mc))"
    "mg_tasks s t = Some (Monitoring k g c) \<Longrightarrow> c \<notin> mg_done s \<Longrightarrow> \<exists>mc. cm_clients (mg_manager s) k = Some mc \<and> mc_client mc = c"
    "c < mg_next s \<Longrightarrow> c \<notin> mg_closed s \<Longrightarrow> \<exists>t x. mg_tasks s t = Some x \<and> holds x c"
    "mg_tasks s t = Some x \<Longrightarrow> holds x c \<Longrightarrow> c < mg_next s"
    "mg_tasks s t = Some x \<Longrightarrow> mg_tasks s t' = Some x' \<Longrightarrow> holds x c \<Longrightarrow> holds x' c \<Longrightarrow> t = t'"
  using assms unfolding manager_inv_def by blast+

text \<open>A step that changes neither the clients of the table nor who holds a client.\<close>

lemma manager_keep:
  assumes inv: "manager_inv s" and same: "cm_clients (mg_manager s') = cm_clients (mg_manager s)" "mg_next s' = mg_next s"
      "mg_done s \<subseteq> mg_done s'" "mg_closed s' = mg_closed s"
    and tasks: "\<And>t x c. holds x c \<Longrightarrow> mg_tasks s' t = Some x \<longleftrightarrow> mg_tasks s t = Some x"
  shows "manager_inv s'"
proof -
  note D = manager_invD [OF inv]
  have mon: "mg_tasks s' t = Some (Monitoring k g c) \<longleftrightarrow> mg_tasks s t = Some (Monitoring k g c)" for t k g c by (rule tasks) simp
  show ?thesis
  proof (rule manager_invI)
    show "\<exists>t. mg_tasks s' t = Some (Monitoring k (mc_registration mc) (mc_client mc))" if "cm_clients (mg_manager s') k = Some mc" for k mc
      using D(1) that unfolding mon same .
    show "\<exists>mc. cm_clients (mg_manager s') k = Some mc \<and> mc_client mc = c" if "mg_tasks s' t = Some (Monitoring k g c)" "c \<notin> mg_done s'" for t k g c
      using D(2) that same(3) unfolding mon same(1) by blast
    show "\<exists>t x. mg_tasks s' t = Some x \<and> holds x c" if "c < mg_next s'" "c \<notin> mg_closed s'" for c
      using D(3) that tasks unfolding same(2,4) by blast
    show "c < mg_next s'" if "mg_tasks s' t = Some x" "holds x c" for t x c using D(4) that tasks unfolding same(2) by blast
    show "t = t'" if "mg_tasks s' t = Some x" "mg_tasks s' t' = Some x'" "holds x c" "holds x' c" for t t' x x' c using D(5) that tasks by blast
  qed
qed

lemma dialled_inv:
  assumes inv: "manager_inv s" and t: "mg_tasks s t = Some (Connecting key reg)"
  shows "manager_inv (put_task t (Some (Dialled key reg (mg_next s))) (s\<lparr>mg_next := mg_next s + 1\<rparr>))" (is "manager_inv ?s")
proof -
  note D = manager_invD [OF inv]
  have tk: "mg_tasks ?s t2 = Some x \<longleftrightarrow> (if t2 = t then x = Dialled key reg (mg_next s) else mg_tasks s t2 = Some x)" for t2 x by auto
  show ?thesis
  proof (rule manager_invI)
    show "\<exists>t. mg_tasks ?s t = Some (Monitoring k (mc_registration mc) (mc_client mc))" if cl: "cm_clients (mg_manager ?s) k = Some mc" for k mc
    proof -
      obtain t2 where "mg_tasks s t2 = Some (Monitoring k (mc_registration mc) (mc_client mc))" using D(1) [of k mc] cl by auto
      then show ?thesis using t unfolding tk by (intro exI [of _ t2]) auto
    qed
    show "\<exists>mc. cm_clients (mg_manager ?s) k = Some mc \<and> mc_client mc = c" if "mg_tasks ?s t2 = Some (Monitoring k g c)" "c \<notin> mg_done ?s" for t2 k g c
      using D(2) [of t2 k g c] that unfolding tk by (simp split: if_splits)
    show "\<exists>t x. mg_tasks ?s t = Some x \<and> holds x c" if op: "c < mg_next ?s" "c \<notin> mg_closed ?s" for c
    proof (cases "c = mg_next s")
      case True
      then show ?thesis unfolding tk by (intro exI [of _ t]) auto
    next
      case False
      then obtain t2 x where "mg_tasks s t2 = Some x" "holds x c" using D(3) [of c] op by auto
      then show ?thesis using t unfolding tk by (intro exI [of _ t2] exI [of _ x]) auto
    qed
    show "c < mg_next ?s" if "mg_tasks ?s t2 = Some x" "holds x c" for t2 x c
      using D(4) [of t2 x c] that unfolding tk by (auto split: if_splits)
    show "t1 = t2" if "mg_tasks ?s t1 = Some x" "mg_tasks ?s t2 = Some x'" "holds x c" "holds x' c" for t1 t2 x x' c
      using D(5) [of t1 x t2 x' c] D(4) [of t1 x c] D(4) [of t2 x' c] that unfolding tk by (auto split: if_splits)
  qed
qed

lemma stored_inv:
  assumes inv: "manager_inv s" and t: "mg_tasks s t = Some (Dialled key reg c)" and m: "connect_store key reg c (mg_manager s) = (True, m)"
  shows "manager_inv (put_task t (Some (Monitoring key reg c)) (s\<lparr>mg_manager := m\<rparr>))" (is "manager_inv ?s")
proof -
  note D = manager_invD [OF inv]
  have tk: "mg_tasks ?s t2 = Some x \<longleftrightarrow> (if t2 = t then x = Monitoring key reg c else mg_tasks s t2 = Some x)" for t2 x by auto
  have m': "cm_clients (mg_manager s) key = None" "cm_clients m = (cm_clients (mg_manager s))(key \<mapsto> \<lparr>mc_registration = reg, mc_client = c\<rparr>)"
    using m by (auto simp: connect_store_def split: if_splits)
  show ?thesis
  proof (rule manager_invI)
    show "\<exists>t. mg_tasks ?s t = Some (Monitoring k (mc_registration mc) (mc_client mc))" if cl: "cm_clients (mg_manager ?s) k = Some mc" for k mc
    proof (cases "k = key")
      case True
      then show ?thesis using cl m'(2) unfolding tk by (intro exI [of _ t]) auto
    next
      case False
      then obtain t2 where "mg_tasks s t2 = Some (Monitoring k (mc_registration mc) (mc_client mc))" using D(1) [of k mc] cl m'(2) by auto
      then show ?thesis using t unfolding tk by (intro exI [of _ t2]) auto
    qed
    show "\<exists>mc. cm_clients (mg_manager ?s) k = Some mc \<and> mc_client mc = c2" if mo: "mg_tasks ?s t2 = Some (Monitoring k g c2)" "c2 \<notin> mg_done ?s" for t2 k g c2
    proof (cases "t2 = t")
      case True
      then show ?thesis using mo m'(2) by auto
    next
      case False
      then obtain mc where "cm_clients (mg_manager s) k = Some mc" "mc_client mc = c2" using D(2) [of t2 k g c2] mo by auto
      then show ?thesis using m' by (cases "k = key") auto
    qed
    show "\<exists>t x. mg_tasks ?s t = Some x \<and> holds x c2" if op: "c2 < mg_next ?s" "c2 \<notin> mg_closed ?s" for c2
    proof -
      obtain t2 x where "mg_tasks s t2 = Some x" "holds x c2" using D(3) [of c2] op by auto
      then show ?thesis using t unfolding tk by (cases "t2 = t") (auto intro!: exI [of _ t2])
    qed
    show "c2 < mg_next ?s" if "mg_tasks ?s t2 = Some x" "holds x c2" for t2 x c2
      using D(4) [of t2 x c2] D(4) [OF t, of c] that unfolding tk by (auto split: if_splits)
    show "t1 = t2" if "mg_tasks ?s t1 = Some x" "mg_tasks ?s t2 = Some x'" "holds x c2" "holds x' c2" for t1 t2 x x' c2
    proof -
      have old: "\<exists>x0. mg_tasks s t0 = Some x0 \<and> holds x0 c2" if "mg_tasks ?s t0 = Some y" "holds y c2" for t0 y
        using that t unfolding tk by (cases "t0 = t") auto
      show ?thesis using old [OF that(1,3)] old [OF that(2,4)] D(5) by blast
    qed
  qed
qed

text \<open>A task that held the client \<open>c\<close> lets go of it.\<close>

lemma manager_release_inv:
  assumes inv: "manager_inv s" and t: "mg_tasks s t = Some x0" "holds x0 c" "\<And>k g. x0 = Monitoring k g c \<Longrightarrow> c \<in> mg_done s'"
    and tasks: "mg_tasks s' = (mg_tasks s)(t := x1)" "\<And>x c. x1 = Some x \<Longrightarrow> \<not> holds x c"
    and same: "mg_next s' = mg_next s" "mg_done s \<subseteq> mg_done s'" "mg_closed s' = insert c (mg_closed s)"
    and table: "\<And>k mc. cm_clients (mg_manager s') k = Some mc \<longleftrightarrow> cm_clients (mg_manager s) k = Some mc \<and> mc_client mc \<noteq> c"
  shows "manager_inv s'"
proof -
  note D = manager_invD [OF inv]
  have hold: "mg_tasks s' t2 = Some x \<longleftrightarrow> t2 \<noteq> t \<and> mg_tasks s t2 = Some x" if "holds x c2" for t2 x c2 using tasks that by auto
  show ?thesis
  proof (rule manager_invI)
    show "\<exists>t. mg_tasks s' t = Some (Monitoring k (mc_registration mc) (mc_client mc))" if cl: "cm_clients (mg_manager s') k = Some mc" for k mc
    proof -
      obtain t2 where t2: "mg_tasks s t2 = Some (Monitoring k (mc_registration mc) (mc_client mc))" using D(1) cl table by blast
      moreover have "t2 \<noteq> t" using t(1,2) t2 cl table by (cases x0) auto
      ultimately show ?thesis using tasks(1) by (intro exI [of _ t2]) simp
    qed
    show "\<exists>mc. cm_clients (mg_manager s') k = Some mc \<and> mc_client mc = c2" if c2: "mg_tasks s' t2 = Some (Monitoring k g c2)" "c2 \<notin> mg_done s'" for t2 k g c2
    proof -
      have t2: "t2 \<noteq> t" "mg_tasks s t2 = Some (Monitoring k g c2)" using hold [of "Monitoring k g c2" c2 t2] c2(1) by auto
      have "c2 \<noteq> c" using D(5) [OF t(1) t2(2) t(2)] t2(1) by auto
      then show ?thesis using D(2) [OF t2(2)] c2(2) same(2) table by blast
    qed
    show "\<exists>t x. mg_tasks s' t = Some x \<and> holds x c2" if c2: "c2 < mg_next s'" "c2 \<notin> mg_closed s'" for c2
    proof -
      obtain t2 x where x: "mg_tasks s t2 = Some x" "holds x c2" using D(3) [of c2] c2 same(1,3) by auto
      have "t2 \<noteq> t"
      proof
        assume "t2 = t"
        then have "holds x0 c2" using x t(1) by simp
        then have "c2 = c" using t(2) by (cases x0) simp_all
        then show False using c2(2) same(3) by simp
      qed
      then show ?thesis using x hold by blast
    qed
    show "c2 < mg_next s'" if "mg_tasks s' t2 = Some x" "holds x c2" for t2 x c2 using D(4) hold that same(1) by metis
    show "t1 = t2" if "mg_tasks s' t1 = Some x" "mg_tasks s' t2 = Some x'" "holds x c2" "holds x' c2" for t1 t2 x x' c2
      using D(5) hold that by metis
  qed
qed

text \<open>The task of a client in the table.\<close>

lemma table_task:
  assumes inv: "manager_inv s" and t: "mg_tasks s t = Some x" "holds x c" and k: "cm_clients (mg_manager s) k = Some mc" "mc_client mc = c"
  shows "x = Monitoring k (mc_registration mc) c"
proof -
  obtain t2 where t2: "mg_tasks s t2 = Some (Monitoring k (mc_registration mc) c)" using manager_invD(1) [OF inv k(1)] k(2) by blast
  have "t2 = t" by (rule manager_invD(5) [OF inv t2 t(1) _ t(2)]) simp
  then show ?thesis using t2 t(1) by simp
qed

lemma gone_table:
  assumes inv: "manager_inv s" and t: "mg_tasks s t = Some (Monitoring key reg c)" and m: "monitor_locked key c (mg_manager s) = (known, m)"
  shows "cm_clients m k = Some mc \<longleftrightarrow> cm_clients (mg_manager s) k = Some mc \<and> mc_client mc \<noteq> c"
proof -
  have "k = key" if "cm_clients (mg_manager s) k = Some mc" "mc_client mc = c" using table_task [OF inv t _ that] by simp
  moreover have "cm_clients m = (case cm_clients (mg_manager s) key of None \<Rightarrow> cm_clients (mg_manager s)
      | Some current \<Rightarrow> if mc_client current = c then (cm_clients (mg_manager s))(key := None) else cm_clients (mg_manager s))"
    using m by (auto simp: monitor_locked_def split: option.splits)
  ultimately show ?thesis by (auto split: option.splits if_splits)
qed

lemma remove_inv:
  assumes inv: "manager_inv s" and m: "remove service instanceID (mg_manager s) = (co, m)"
  shows "manager_inv (s\<lparr>mg_manager := m, mg_done := set_option co \<union> mg_done s, mg_closed := set_option co \<union> mg_closed s\<rparr>)" (is "manager_inv ?s")
proof -
  note D = manager_invD [OF inv]
  let ?key = "managerKey service instanceID"
  have m': "co = map_option mc_client (cm_clients (mg_manager s) ?key)" "cm_clients m = (cm_clients (mg_manager s))(?key := None)"
    using m by (auto simp: remove_def Let_def)
  show ?thesis
  proof (rule manager_invI)
    show "\<exists>mc. cm_clients (mg_manager ?s) k = Some mc \<and> mc_client mc = c" if mo: "mg_tasks ?s t = Some (Monitoring k g c)" "c \<notin> mg_done ?s" for t k g c
    proof -
      obtain mc where mc: "cm_clients (mg_manager s) k = Some mc" "mc_client mc = c" using D(2) [of t k g c] mo by auto
      then have "k \<noteq> ?key" using mo(2) m'(1) by auto
      then show ?thesis using mc m'(2) by simp
    qed
  qed (use D(1,3-5) m'(2) in \<open>auto split: if_splits\<close>)
qed

lemma manager_step_inv:
  assumes "manager_step s s'" "\<not> mg_cancelled s'" and inv: "manager_inv s"
  shows "manager_inv s'"
  using assms(1)
proof cases
  case (m_upsert_connect service reg m t)
  show ?thesis by (rule manager_keep [OF inv]) (use m_upsert_connect in \<open>auto simp: upsert_def Let_def split: if_splits\<close>)
next
  case (m_upsert service reg m)
  show ?thesis by (rule manager_keep [OF inv]) (use m_upsert in \<open>auto simp: upsert_def Let_def\<close>)
next
  case (m_own t key reg)
  show ?thesis by (rule manager_keep [OF inv]) (use m_own in \<open>auto split: if_splits\<close>)
next
  case (m_dial_failed t key reg)
  show ?thesis by (rule manager_keep [OF inv]) (use m_dial_failed in \<open>auto split: if_splits\<close>)
next
  case (m_dialled t key reg)
  show ?thesis unfolding m_dialled(1) by (rule dialled_inv [OF inv m_dialled(2)])
next
  case (m_stored t key reg c m)
  show ?thesis unfolding m_stored(1) by (rule stored_inv [OF inv m_stored(2,3)])
next
  case (m_superfluous t key reg c m)
  have m: "m = mg_manager s" using m_superfluous(3) by (auto simp: connect_store_def split: if_splits)
  have "mc_client mc \<noteq> c" if "cm_clients (mg_manager s) k = Some mc" for k mc
    using table_task [OF inv m_superfluous(2) _ that] by auto
  then show ?thesis by (intro manager_release_inv [OF inv m_superfluous(2), where c = c]) (use m_superfluous(1) m in auto)
next
  case (m_lost c)
  show ?thesis by (rule manager_keep [OF inv]) (use m_lost in auto)
next
  case (m_gone t key reg c known m)
  show ?thesis by (rule manager_release_inv [OF inv m_gone(2), where c = c]) (use m_gone(1,3) gone_table [OF inv m_gone(2,4)] in auto)
next
  case (m_retry t key reg)
  show ?thesis by (rule manager_keep [OF inv]) (use m_retry in \<open>auto split: if_splits\<close>)
next
  case (m_stop t x)
  then show ?thesis using assms(2) by simp
next
  case (m_remove service instanceID co m)
  show ?thesis unfolding m_remove(1) by (rule remove_inv [OF inv m_remove(2)])
next
  case (m_close cs m)
  then show ?thesis using assms(2) by simp
qed

lemma cancelled_mono: "manager_step s s' \<Longrightarrow> mg_cancelled s \<Longrightarrow> mg_cancelled s'"
  by (induction rule: manager_step.induct) auto

lemma manager_run_inv:
  assumes "manager_step\<^sup>*\<^sup>* s s'" "\<not> mg_cancelled s'" "manager_inv s"
  shows "manager_inv s'"
  using assms
proof (induction rule: rtranclp_induct)
  case (step s1 s2)
  then show ?case using manager_step_inv [OF step(2)] cancelled_mono [OF step(2)] by blast
qed simp

lemma new_manager_inv: "manager_inv (new_manager_sys serviceName instanceID)"
  by (simp add: manager_inv_def new_manager_sys_def NewClientManager_def)

text \<open>A live client is in the table or about to be stored.\<close>

lemma live_client:
  assumes inv: "manager_inv s" and c: "c < mg_next s" "c \<notin> mg_closed s" "c \<notin> mg_done s"
  shows "(\<exists>k mc. cm_clients (mg_manager s) k = Some mc \<and> mc_client mc = c) \<or> (\<exists>t k g. mg_tasks s t = Some (Dialled k g c))"
proof -
  obtain t x where x: "mg_tasks s t = Some x" "holds x c" using manager_invD(3) [OF inv c(1,2)] by blast
  show ?thesis
  proof (cases x)
    case (Monitoring k g c2)
    then show ?thesis using x manager_invD(2) [OF inv, of t k g c] c(3) by auto
  qed (use x in auto)
qed

end
