(* ===== verification/Stream_Props.thy ===== *)
theory Stream_Props
  imports Stream_Link Stream_Manager Codec_Table
begin

text \<open>The properties of the internal streams and of the manager of their clients.\<close>

section \<open>A stream on which one request is made\<close>

definition demo_hello :: Hello where
  "demo_hello = \<lparr>he_ServiceType = SERVICE_TYPE_BATTLE, he_InstanceId = ''b1''\<rparr>"

definition stream_codec :: codec where
  "stream_codec = tableCodec [MHello demo_hello]"

definition client0 :: Client where
  "client0 = emptyClient\<lparr>sl_stream := [emptyEnvelope\<lparr>en_Kind := ENVELOPE_KIND_HELLO, en_SourceService := SERVICE_TYPE_BATTLE, en_Payload := [0]\<rparr>]\<rparr>"

definition ask0 :: InternalEnvelope where
  "ask0 = emptyEnvelope\<lparr>en_Kind := ENVELOPE_KIND_REQUEST, en_RequestId := 1, en_TargetService := SERVICE_TYPE_LOBBY, en_MessageId := 7\<rparr>"

definition reply0 :: InternalEnvelope where
  "reply0 = emptyEnvelope\<lparr>en_Kind := ENVELOPE_KIND_ERROR, en_RequestId := 1, en_ErrorCode := 2,
     en_ErrorMessage := ''target service or message handler is unavailable''\<rparr>"

definition call0 :: "call_phase \<Rightarrow> call" where
  "call0 p = \<lparr>ca_request = ask0, ca_chan = 0, ca_phase = p\<rparr>"

definition link_state :: "call_phase \<Rightarrow> bool \<Rightarrow> bool \<Rightarrow> InternalEnvelope list \<Rightarrow> bool \<Rightarrow> reader \<Rightarrow> bool \<Rightarrow> unit link_sys" where
  "link_state p registered asked0 chan answered rd received =
     \<lparr>lk_client = \<lparr>sy_client = \<lparr>sl_requests = (\<lambda>_. None)(1 := if registered then Some 0 else None), sl_chans = (\<lambda>_. [])(0 := chan), sl_nextChan = 1, sl_nextID = 1,
          sl_done = False, sl_stream = sl_stream client0 @ (if asked0 then [ask0] else [])\<rparr>,
        sy_calls = [0 \<mapsto> call0 p], sy_reader = rd, sy_received = (if received then [reply0] else [])\<rparr>,
      lk_read = (if answered then 2 else 1), lk_conn = \<lparr>sn_done = False, sn_sent = (if answered then [reply0] else [])\<rparr>, lk_open = True, lk_world = ()\<rparr>"

lemmas demo_stream = link_state_def call0_def client0_def ask0_def reply0_def emptyClient_def envelope_kinds service_types

abbreviation demo_step :: "unit link_sys \<Rightarrow> unit link_sys \<Rightarrow> bool" where
  "demo_step \<equiv> link_step stream_codec (\<lambda>_. ''error'') NewRouter SERVICE_TYPE_BATTLE"

lemma client0_new: "NewClient stream_codec SERVICE_TYPE_BATTLE ''b1'' None None = Inr client0"
  by (simp add: NewClient_def sendHello_def Client_send_def emptyClient_def client0_def stream_codec_def tableCodec_def demo_hello_def)

lemma demo_client:
  assumes "client_step (lk_client l) (lk_client l')" "prefix (sy_received (lk_client l')) (sn_sent (lk_conn l))" "l' = l\<lparr>lk_client := lk_client l'\<rparr>"
  shows "demo_step l l'"
  using l_client [OF assms(1,2), of stream_codec "\<lambda>_. ''error''" NewRouter SERVICE_TYPE_BATTLE] assms(3) by simp

lemma demo_begin: "demo_step (new_link client0 ()) (link_state Sending True False [] False Reading False)"
proof (rule demo_client)
  show "client_step (lk_client (new_link client0 ())) (lk_client (link_state Sending True False [] False Reading False))"
    using c_begin [of "new_client_sys client0" 0 "emptyEnvelope\<lparr>en_TargetService := SERVICE_TYPE_LOBBY, en_MessageId := 7\<rparr>" ask0 0
        "sy_client (lk_client (link_state Sending True False [] False Reading False))"]
    by (simp add: new_link_def new_client_sys_def Request_begin_def Let_def demo_stream emptyEnvelope_def)
qed (simp_all add: new_link_def new_client_sys_def link_state_def NewConnection_def)

lemma demo_sent: "demo_step (link_state Sending True False [] False Reading False) (link_state Awaiting True True [] False Reading False)"
proof (rule demo_client)
  show "client_step (lk_client (link_state Sending True False [] False Reading False)) (lk_client (link_state Awaiting True True [] False Reading False))"
    using c_sent [of "lk_client (link_state Sending True False [] False Reading False)" 0 "call0 Sending" None
        "sy_client (lk_client (link_state Awaiting True True [] False Reading False))"]
    by (simp add: Client_send_def link_state_def call0_def client0_def)
qed (simp_all add: link_state_def)

lemma demo_served: "demo_step (link_state Awaiting True True [] False Reading False) (link_state Awaiting True True [] True Reading False)"
proof -
  have "Connect_message stream_codec (\<lambda>_. ''error'') NewRouter None SERVICE_TYPE_BATTLE ask0 ((), \<lparr>sn_done = False, sn_sent = []\<rparr>)
      = (None, (), \<lparr>sn_done = False, sn_sent = [reply0]\<rparr>)"
    by (simp add: Connect_message_def Router_Handle_def dispatch_def sendError_def StreamConnection_Send_def ask0_def reply0_def envelope_kinds)
  then show ?thesis
    using l_server [of "link_state Awaiting True True [] False Reading False" stream_codec "\<lambda>_. ''error''" NewRouter None SERVICE_TYPE_BATTLE None "()"
        "\<lparr>sn_done = False, sn_sent = [reply0]\<rparr>"]
    by (simp add: link_state_def client0_def numeral_2_eq_2)
qed

lemma demo_received: "demo_step (link_state Awaiting True True [] True Reading False) (link_state Awaiting True True [] True (Pushing 0 reply0) True)"
proof (rule demo_client)
  have "answer reply0" "en_RequestId reply0 = 1" by (simp_all add: answer_def reply0_def)
  then show "client_step (lk_client (link_state Awaiting True True [] True Reading False)) (lk_client (link_state Awaiting True True [] True (Pushing 0 reply0) True))"
    using r_recv [of "lk_client (link_state Awaiting True True [] True Reading False)" reply0] by (simp add: link_state_def)
qed (simp_all add: link_state_def)

lemma demo_pushed: "demo_step (link_state Awaiting True True [] True (Pushing 0 reply0) True) (link_state Awaiting True True [reply0] True Reading True)"
proof (rule demo_client)
  show "client_step (lk_client (link_state Awaiting True True [] True (Pushing 0 reply0) True)) (lk_client (link_state Awaiting True True [reply0] True Reading True))"
    using r_push [of "lk_client (link_state Awaiting True True [] True (Pushing 0 reply0) True)" 0 reply0] by (simp add: link_state_def)
qed (simp_all add: link_state_def)

lemma demo_answered: "demo_step (link_state Awaiting True True [reply0] True Reading True) (link_state (Ending (Inr reply0)) True True [] True Reading True)"
proof (rule demo_client)
  show "client_step (lk_client (link_state Awaiting True True [reply0] True Reading True)) (lk_client (link_state (Ending (Inr reply0)) True True [] True Reading True))"
    using c_answered [of "lk_client (link_state Awaiting True True [reply0] True Reading True)" 0 "call0 Awaiting" reply0 "[]"]
    by (simp add: link_state_def call0_def)
qed (simp_all add: link_state_def)

lemma demo_ended: "demo_step (link_state (Ending (Inr reply0)) True True [] True Reading True) (link_state (Returned (Inr reply0)) False True [] True Reading True)"
proof (rule demo_client)
  show "client_step (lk_client (link_state (Ending (Inr reply0)) True True [] True Reading True)) (lk_client (link_state (Returned (Inr reply0)) False True [] True Reading True))"
    using c_end [of "lk_client (link_state (Ending (Inr reply0)) True True [] True Reading True)" 0 "call0 (Ending (Inr reply0))" "Inr reply0"]
    by (simp add: link_state_def call0_def Request_end_def ask0_def)
qed (simp_all add: link_state_def)

lemma stream_demo_run: "demo_step\<^sup>*\<^sup>* (new_link client0 ()) (link_state (Returned (Inr reply0)) False True [] True Reading True)"
  by (rule demo_begin demo_sent demo_served demo_received demo_pushed demo_answered demo_ended rtranclp.rtrancl_refl
      | rule converse_rtranclp_into_rtranclp)+

section \<open>Properties\<close>

text \<open>
  C7: Stream calls are answered by their own replies.  However calls, the client's read loop, the server's loop and the requests of other
  streams interleave on a stream that delivers in order, a call that returns an envelope returns the router's reply to that call's own
  request (its handler's message, its handler's error, or the error for a missing handler), and no call makes the read loop
  block: whenever the loop has an answer for a channel, the channel has room.
\<close>

theorem stream_calls_answered:
  assumes "NewClient cd service instanceID connected outcome = Inr c"
    and "(link_step cd msg router ps)\<^sup>*\<^sup>* (new_link c w) l" "card (dom (sy_calls (lk_client l))) < 2 ^ 64"
  shows "(\<forall>i k e. sy_calls (lk_client l) i = Some k \<and> ca_phase k = Returned (Inr e) \<longrightarrow>
      (\<exists>w'. reply_of cd msg ps (ca_request k) (fst (run_handler router (ca_request k) w')) = Some e))
    \<and> (\<forall>ch e. sy_reader (lk_client l) = Pushing ch e \<longrightarrow> sl_chans (sy_client (lk_client l)) ch = [])"
proof -
  have inv: "link_inv cd msg router ps l" by (rule link_run_inv [OF assms(2) new_link_inv [OF assms(1)] assms(3)])
  then have ci: "client_inv (lk_client l)" by (simp add: link_inv_def)
  show ?thesis using answer_matches [OF inv] push_room [OF ci _ answers_once [OF inv]] unfolding answers_request_def by fastforce
qed

theorem stream_calls_answered_witness:
  "\<exists>w'. reply_of stream_codec (\<lambda>_. ''error'') SERVICE_TYPE_BATTLE ask0 (fst (run_handler NewRouter ask0 (w' :: unit))) = Some reply0"
proof -
  let ?l = "link_state (Returned (Inr reply0)) False True [] True Reading True"
  have "card (dom (sy_calls (lk_client ?l))) < 2 ^ 64" by (simp add: link_state_def)
  from stream_calls_answered [OF client0_new stream_demo_run this]
  have "sy_calls (lk_client ?l) 0 = Some (call0 (Returned (Inr reply0))) \<and> ca_phase (call0 (Returned (Inr reply0))) = Returned (Inr reply0) \<longrightarrow>
      (\<exists>w'. reply_of stream_codec (\<lambda>_. ''error'') SERVICE_TYPE_BATTLE (ca_request (call0 (Returned (Inr reply0))))
        (fst (run_handler NewRouter (ca_request (call0 (Returned (Inr reply0)))) (w' :: unit))) = Some reply0)"
    by blast
  then show ?thesis by (simp add: link_state_def call0_def)
qed

section \<open>Keys of peers\<close>


lemma show_int_inject [simp]: "show_int i = show_int j \<longleftrightarrow> i = j"
proof -
  have no: "show_nat n \<noteq> ''-'' @ show_nat m" for n m
  proof
    assume "show_nat n = ''-'' @ show_nat m"
    then have "CHR ''-'' \<in> set (show_nat n)" by simp
    then show False using show_nat_digits [of n] by (auto simp: digit_def)
  qed
  show ?thesis using no [of "nat i" "nat (- j)"] no [of "nat j" "nat (- i)"] by (auto simp: show_int_def split: if_splits)
qed





section \<open>Peers\<close>

definition empty_server :: "'w \<Rightarrow> 'w server_sys" where
  "empty_server w = \<lparr>ss_server = NewServer, ss_streams = Map.empty, ss_world = w\<rparr>"

lemma NewServer_inv: "server_inv (empty_server w)"
  by (simp add: server_inv_def NewServer_def empty_server_def)


definition demo_peer :: "nat \<Rightarrow> Peer" where
  "demo_peer a = \<lparr>pe_ServiceType = SERVICE_TYPE_BATTLE, pe_InstanceID = ''b1'', pe_Connection = a\<rparr>"

definition demo_first :: InternalEnvelope where
  "demo_first = emptyEnvelope\<lparr>en_Kind := ENVELOPE_KIND_HELLO, en_Payload := [0]\<rparr>"

lemma demo_parse: "parseHello stream_codec demo_first = Inr (demo_peer 0)"
  by (simp add: parseHello_def demo_first_def stream_codec_def tableCodec_def decode_as_def entry_def demo_hello_def demo_peer_def service_types)

lemma demo_connect: "Connect_hello stream_codec msg a demo_first sv = (Inr (demo_peer a), sv\<lparr>sv_conns := (sv_conns sv)(a \<mapsto> NewConnection),
    sv_peers := (sv_peers sv)(peerKey SERVICE_TYPE_BATTLE ''b1'' \<mapsto> demo_peer a)\<rparr>)"
  by (simp add: Connect_hello_def demo_parse Let_def) (simp add: demo_peer_def)


text \<open>
  A reconnected peer is lost.  When a peer connects again before its first stream has ended, the end of the first stream removes the
  entry of the second: \<open>Peer\<close> finds nothing although the second stream is served and its connection is open.
\<close>

theorem reconnected_peer_lost:
  assumes "server_inv s" and "sv_conns (ss_server s) a = None" "sv_conns (ss_server s) b = None" "a \<noteq> b"
    and "Connect_hello cd msg a first (ss_server s) = (Inr p, sv1)" "Connect_hello cd msg b second sv1 = (Inr q, sv2)"
    and "pe_ServiceType q = pe_ServiceType p" "pe_InstanceID q = pe_InstanceID p"
  shows "\<exists>s'. (server_step cd msg router)\<^sup>*\<^sup>* s s' \<and> Server_Peer (pe_ServiceType q) (pe_InstanceID q) (ss_server s') = None
    \<and> ss_streams s' b = Some q \<and> sv_conns (ss_server s') b = Some NewConnection"
proof -
  let ?s1 = "s\<lparr>ss_server := sv1, ss_streams := (ss_streams s)(a \<mapsto> p)\<rparr>"
  let ?s2 = "?s1\<lparr>ss_server := sv2, ss_streams := (ss_streams ?s1)(b \<mapsto> q)\<rparr>"
  have sv: "sv_conns sv1 = (sv_conns (ss_server s))(a \<mapsto> NewConnection)" "pe_Connection p = a"
    "sv_conns sv2 = (sv_conns sv1)(b \<mapsto> NewConnection)"
    using assms(5,6) by (auto simp: Connect_hello_def Let_def split: sum.splits)
  have "server_step cd msg router s ?s1" by (rule s_connect [OF assms(2,5)])
  moreover have "server_step cd msg router ?s1 ?s2"
    using s_connect [of ?s1 b cd msg second q sv2 router] assms(3,4,6) sv(1) by simp
  moreover have "server_step cd msg router ?s2 (ended a p ?s2)" by (rule s_lost) (use assms(4) in simp)
  ultimately have "(server_step cd msg router)\<^sup>*\<^sup>* s (ended a p ?s2)"
    by (meson converse_rtranclp_into_rtranclp rtranclp.rtrancl_refl)
  then show ?thesis using assms(4,7,8) sv by (intro exI [of _ "ended a p ?s2"]) (simp add: Server_Peer_def Connect_end_def)
qed

theorem reconnected_peer_lost_witness:
  "\<exists>s'. (server_step stream_codec (\<lambda>_. ''error'') (NewRouter :: unit Router))\<^sup>*\<^sup>* (empty_server ()) s'
    \<and> Server_Peer SERVICE_TYPE_BATTLE ''b1'' (ss_server s') = None \<and> ss_streams s' 1 = Some (demo_peer 1) \<and> sv_conns (ss_server s') 1 = Some NewConnection"
  using reconnected_peer_lost [where a = 0 and b = 1 and msg = "\<lambda>_. ''error''" and p = "demo_peer 0" and q = "demo_peer 1" and router = NewRouter,
      OF NewServer_inv [of "()"] _ _ _ demo_connect demo_connect]
  by (simp add: empty_server_def NewServer_def demo_peer_def)

section \<open>Managed clients\<close>


definition demo_reg :: Registration where
  "demo_reg = \<lparr>rg_Service = ''lobby'', rg_Instance = ''l1'', rg_Address = ''10.0.0.1:9090'', rg_Version = '''', rg_Weight = 0, rg_Zone = ''''\<rparr>"

text \<open>A registration becomes known, its client is made and stored.\<close>

lemma manager_connects:
  assumes "\<not> own reg (NewClientManager serviceName instanceID)"
  shows "manager_step\<^sup>*\<^sup>* (new_manager_sys serviceName instanceID)
    \<lparr>mg_manager = (NewClientManager serviceName instanceID)\<lparr>cm_known := [managerKey service (rg_Instance reg) \<mapsto> reg],
       cm_clients := [managerKey service (rg_Instance reg) \<mapsto> \<lparr>mc_registration = reg, mc_client = 0\<rparr>]\<rparr>,
     mg_tasks = [0 \<mapsto> Monitoring (managerKey service (rg_Instance reg)) reg 0], mg_next = 1, mg_done = {}, mg_closed = {}, mg_cancelled = False\<rparr>"
    (is "manager_step\<^sup>*\<^sup>* ?s0 ?s3")
proof -
  let ?k = "managerKey service (rg_Instance reg)"
  let ?m1 = "(NewClientManager serviceName instanceID)\<lparr>cm_known := [?k \<mapsto> reg]\<rparr>"
  let ?s1 = "?s0\<lparr>mg_manager := ?m1, mg_tasks := [0 \<mapsto> Connecting ?k reg]\<rparr>"
  let ?s2 = "?s1\<lparr>mg_next := 1, mg_tasks := [0 \<mapsto> Dialled ?k reg 0]\<rparr>"
  have "manager_step ?s0 ?s1" using m_upsert_connect [of service reg ?s0 ?m1 0] by (simp add: upsert_def Let_def new_manager_sys_def NewClientManager_def)
  moreover have "manager_step ?s1 ?s2" using m_dialled [of ?s1 0 ?k reg] assms by (simp add: own_def new_manager_sys_def NewClientManager_def)
  moreover have "manager_step ?s2 ?s3" using m_stored [of ?s2 0 ?k reg 0 "mg_manager ?s3"] by (simp add: connect_store_def new_manager_sys_def NewClientManager_def)
  ultimately show ?thesis by (meson converse_rtranclp_into_rtranclp rtranclp.rtrancl_refl)
qed




text \<open>
  A removed instance comes back.  A goroutine that has seen its client's stream end waits with the registration it read; when discovery
  removes the instance meanwhile, the goroutine still connects and stores a client for an instance that is no longer known, and no
  later event removes it.
\<close>

theorem removed_instance_returns:
  assumes "\<not> own reg (NewClientManager serviceName instanceID)"
  shows "\<exists>s mc. manager_step\<^sup>*\<^sup>* (new_manager_sys serviceName instanceID) s \<and> \<not> mg_cancelled s
    \<and> cm_known (mg_manager s) (managerKey service (rg_Instance reg)) = None
    \<and> cm_clients (mg_manager s) (managerKey service (rg_Instance reg)) = Some mc \<and> mc_client mc \<notin> mg_done s"
proof -
  let ?k = "managerKey service (rg_Instance reg)" and ?m0 = "NewClientManager serviceName instanceID"
  let ?sys = "\<lambda>known clients task next done closed. \<lparr>mg_manager = ?m0\<lparr>cm_known := known, cm_clients := clients\<rparr>, mg_tasks = [0 \<mapsto> task],
      mg_next = next, mg_done = done, mg_closed = closed, mg_cancelled = False\<rparr> :: manager_sys"
  let ?s1 = "?sys [?k \<mapsto> reg] [?k \<mapsto> \<lparr>mc_registration = reg, mc_client = 0\<rparr>] (Monitoring ?k reg 0) 1 {} {}"
  let ?s2 = "?sys [?k \<mapsto> reg] [?k \<mapsto> \<lparr>mc_registration = reg, mc_client = 0\<rparr>] (Monitoring ?k reg 0) 1 {0} {}"
  let ?s3 = "?sys [?k \<mapsto> reg] Map.empty (Retrying ?k reg) 1 {0} {0}"
  let ?s4 = "?sys Map.empty Map.empty (Retrying ?k reg) 1 {0} {0}"
  let ?s5 = "?sys Map.empty Map.empty (Connecting ?k reg) 1 {0} {0}"
  let ?s6 = "?sys Map.empty Map.empty (Dialled ?k reg 1) 2 {0} {0}"
  let ?s7 = "?sys Map.empty [?k \<mapsto> \<lparr>mc_registration = reg, mc_client = 1\<rparr>] (Monitoring ?k reg 1) 2 {0} {0}"
  have "manager_step ?s1 ?s2" using m_lost [of 0 ?s1] by simp
  moreover have "manager_step ?s2 ?s3" using m_gone [of ?s2 0 ?k reg 0 "Some reg" "mg_manager ?s3"] by (simp add: monitor_locked_def)
  moreover have "manager_step ?s3 ?s4" using m_remove [of service "rg_Instance reg" ?s3 None "mg_manager ?s4"] by (simp add: remove_def)
  moreover have "manager_step ?s4 ?s5" using m_retry [of ?s4 0 ?k reg] by simp
  moreover have "manager_step ?s5 ?s6" using m_dialled [of ?s5 0 ?k reg] assms by (simp add: own_def numeral_2_eq_2)
  moreover have "manager_step ?s6 ?s7" using m_stored [of ?s6 0 ?k reg 1 "mg_manager ?s7"] by (simp add: connect_store_def)
  ultimately have "manager_step\<^sup>*\<^sup>* ?s1 ?s7" by (meson converse_rtranclp_into_rtranclp rtranclp.rtrancl_refl)
  then have "manager_step\<^sup>*\<^sup>* (new_manager_sys serviceName instanceID) ?s7" using manager_connects [OF assms, of service] by (meson rtranclp_trans)
  then show ?thesis by (intro exI [of _ ?s7]) simp
qed

theorem removed_instance_returns_witness:
  "\<exists>s mc. manager_step\<^sup>*\<^sup>* (new_manager_sys ''gateway'' ''g1'') s \<and> cm_known (mg_manager s) (managerKey ''lobby'' ''l1'') = None
    \<and> cm_clients (mg_manager s) (managerKey ''lobby'' ''l1'') = Some mc"
  using removed_instance_returns [of demo_reg "''gateway''" "''g1''" "''lobby''"] by (auto simp: own_def demo_reg_def NewClientManager_def)

end
