(* ===== verification/Gateway_Protocol.thy ===== *)
theory Gateway_Protocol
  imports Protocol
begin

text \<open>
  The client protocol of the gateway (\<^verbatim>\<open>src/proto/src/client/gateway.proto\<close>) and the mapping of errors to it
  (\<^verbatim>\<open>src/services/gateway/error_mapper.go\<close>).  \<open>client_codec\<close> holds \<^verbatim>\<open>proto.Marshal\<close> and \<^verbatim>\<open>proto.Unmarshal\<close> for these messages.
\<close>

section \<open>Messages\<close>

type_synonym ClientMessageId = int
type_synonym GatewayErrorCode = int

definition MessageLoginRequest :: ClientMessageId where "MessageLoginRequest = 1"
definition MessageResumeRequest :: ClientMessageId where "MessageResumeRequest = 2"
definition MessageRefreshLoginRequest :: ClientMessageId where "MessageRefreshLoginRequest = 3"
definition MessageLoginResponse :: ClientMessageId where "MessageLoginResponse = 101"
definition MessageResumeResponse :: ClientMessageId where "MessageResumeResponse = 102"
definition MessageRefreshLoginResponse :: ClientMessageId where "MessageRefreshLoginResponse = 103"
definition STATE_RESTORE_EVENT :: ClientMessageId where "STATE_RESTORE_EVENT = 104"
definition SESSION_PREEMPTED_EVENT :: ClientMessageId where "SESSION_PREEMPTED_EVENT = 105"
definition GATEWAY_DRAINING_EVENT :: ClientMessageId where "GATEWAY_DRAINING_EVENT = 106"
definition MessageErrorResponse :: ClientMessageId where "MessageErrorResponse = 900"

lemmas client_message_ids = MessageLoginRequest_def MessageResumeRequest_def MessageRefreshLoginRequest_def MessageLoginResponse_def
  MessageResumeResponse_def MessageRefreshLoginResponse_def STATE_RESTORE_EVENT_def SESSION_PREEMPTED_EVENT_def GATEWAY_DRAINING_EVENT_def
  MessageErrorResponse_def

definition ErrorInvalidEnvelope :: GatewayErrorCode where "ErrorInvalidEnvelope = 1"
definition ErrorAuthentication :: GatewayErrorCode where "ErrorAuthentication = 2"
definition ErrorResume :: GatewayErrorCode where "ErrorResume = 3"
definition ErrorUnsupported :: GatewayErrorCode where "ErrorUnsupported = 4"
definition ErrorRefresh :: GatewayErrorCode where "ErrorRefresh = 5"
definition ErrorPlayer :: GatewayErrorCode where "ErrorPlayer = 6"
definition ErrorService :: GatewayErrorCode where "ErrorService = 7"
definition ErrorRateLimited :: GatewayErrorCode where "ErrorRateLimited = 8"
definition ErrorDraining :: GatewayErrorCode where "ErrorDraining = 9"
definition ErrorInternal :: GatewayErrorCode where "ErrorInternal = 10"

lemmas gateway_errors = ErrorInvalidEnvelope_def ErrorAuthentication_def ErrorResume_def ErrorUnsupported_def ErrorRefresh_def
  ErrorPlayer_def ErrorService_def ErrorRateLimited_def ErrorDraining_def ErrorInternal_def

record Envelope =
  ce_MessageId :: ClientMessageId
  ce_RequestId :: uint64
  ce_SessionId :: string
  ce_Payload :: bytes

text \<open>\<^verbatim>\<open>LoginResponse\<close> and \<^verbatim>\<open>RefreshLoginResponse\<close> have the same fields.\<close>

record LoginResponse =
  lr_AccountId :: string
  lr_SessionId :: string
  lr_ResumeToken :: string
  lr_ConnectionEpoch :: uint64
  lr_RefreshToken :: string
  lr_RefreshTokenExpireAtUnix :: int
  lr_PlayerId :: string

record ResumeRequest =
  rr_SessionId :: string
  rr_ResumeToken :: string
  rr_StateVersions :: "string \<rightharpoonup> uint64"

record ResumeResponse =
  rs_AccountId :: string
  rs_SessionId :: string
  rs_ResumeToken :: string
  rs_ConnectionEpoch :: uint64
  rs_PlayerId :: string

record ErrorResponse =
  er_Code :: GatewayErrorCode
  er_Message :: string
  er_Retryable :: bool
  er_RetryAfterMillis :: uint64

record SessionPreemptedEvent =
  pv_SessionId :: string
  pv_ConnectionEpoch :: uint64
  pv_Reason :: string

record StateRestoreEvent =
  sv_Service :: string
  sv_PlayerId :: string
  sv_StateVersion :: uint64
  sv_Snapshot :: bytes
  sv_Available :: bool
  sv_Mode :: RestoreModeProto
  sv_BaseStateVersion :: uint64
  sv_PayloadType :: StatePayloadType
  sv_SchemaVersion :: uint32

datatype ClientMessage =
    CEnvelope Envelope
  | CLoginResponse LoginResponse
  | CRefreshLoginResponse LoginResponse
  | CResumeRequest ResumeRequest
  | CResumeResponse ResumeResponse
  | CErrorResponse ErrorResponse
  | CSessionPreemptedEvent SessionPreemptedEvent
  | CGatewayDrainingEvent uint64
  | CStateRestoreEvent StateRestoreEvent

record client_codec =
  cb_Marshal :: "ClientMessage \<Rightarrow> bytes result"
  cb_Envelope :: "bytes \<Rightarrow> Envelope result"
  cb_ResumeRequest :: "bytes \<Rightarrow> ResumeRequest result"

definition client_decodes :: "client_codec \<Rightarrow> (bytes \<Rightarrow> 'm result) \<Rightarrow> ('m \<Rightarrow> ClientMessage) \<Rightarrow> bool" where
  "client_decodes cc un con \<longleftrightarrow> (\<forall>m bs. cb_Marshal cc (con m) = Inr bs \<longrightarrow> un bs = Inr m)"

section \<open>Errors for clients\<close>

record PublicError =
  pu_Code :: GatewayErrorCode
  pu_Message :: string
  pu_Retryable :: bool
  pu_RetryAfter :: duration

text \<open>The conversion of the milliseconds to \<^verbatim>\<open>uint64\<close> wraps around.\<close>

definition PublicError_Response :: "PublicError \<Rightarrow> ErrorResponse" where
  "PublicError_Response e = \<lparr>er_Code = pu_Code e, er_Message = pu_Message e, er_Retryable = pu_Retryable e,
     er_RetryAfterMillis = word_of_int (Milliseconds (pu_RetryAfter e))\<rparr>"

definition serviceRetryAfter :: duration where
  "serviceRetryAfter = Second"

definition ErrorMapper_Known :: "GatewayErrorCode \<Rightarrow> string \<Rightarrow> PublicError" where
  "ErrorMapper_Known code message =
     (let result = \<lparr>pu_Code = code, pu_Message = message, pu_Retryable = False, pu_RetryAfter = 0\<rparr>
      in if code = ErrorService then result\<lparr>pu_Retryable := True, pu_RetryAfter := serviceRetryAfter\<rparr>
         else if code = ErrorRateLimited then result\<lparr>pu_Retryable := True\<rparr>
         else result)"

definition unavailableError :: "go_error \<Rightarrow> bool" where
  "unavailableError err \<longleftrightarrow> errors_is err ErrAuthenticationServiceUnavailable \<or> errors_is err ErrConnectionClosed
     \<or> errors_is err ErrRequestTimeout \<or> errors_is err ContextDeadlineExceeded"

definition sessionError :: "go_error \<Rightarrow> bool" where
  "sessionError err \<longleftrightarrow> errors_is err ErrSessionNotFound \<or> errors_is err ErrInvalidResumeToken
     \<or> errors_is err ErrSessionExpiry \<or> errors_is err ErrSessionConflict"

definition ErrorMapper_Map :: "go_error \<Rightarrow> GatewayErrorCode \<Rightarrow> string \<Rightarrow> PublicError" where
  "ErrorMapper_Map err fallback fallbackMessage =
     (if unavailableError err then ErrorMapper_Known ErrorService ''required service is temporarily unavailable''
      else if sessionError err then ErrorMapper_Known ErrorResume ''session is invalid or expired''
      else if fallback = ErrorInternal then ErrorMapper_Known ErrorInternal ''internal server error''
      else ErrorMapper_Known fallback fallbackMessage)"

definition classifyUserCenterError :: "go_error \<Rightarrow> string" where
  "classifyUserCenterError err =
     (if errors_is err ErrAuthenticationServiceUnavailable then ''service_unavailable''
      else if errors_is err ErrConnectionClosed then ''connection_closed''
      else if errors_is err ErrRequestTimeout then ''request_timeout''
      else if errors_is err ContextCanceled then ''context_canceled''
      else if errors_is err ContextDeadlineExceeded then ''context_deadline_exceeded''
      else ''error'')"

lemma Known_simps [simp]:
  "pu_Code (ErrorMapper_Known code m) = code" "pu_Message (ErrorMapper_Known code m) = m"
  "pu_Retryable (ErrorMapper_Known code m) \<longleftrightarrow> code = ErrorService \<or> code = ErrorRateLimited"
  by (auto simp: ErrorMapper_Known_def Let_def)

text \<open>The text of an internal error never reaches a client.\<close>

lemma Map_message:
  "pu_Message (ErrorMapper_Map err fallback m) \<in> {m, ''required service is temporarily unavailable'', ''session is invalid or expired'', ''internal server error''}"
  by (simp add: ErrorMapper_Map_def)

lemma errors_is_chain: "errors_is e s \<Longrightarrow> errors_is e t \<Longrightarrow> s = t"
  by (induction e) auto

lemma Map_wrapped: "ErrorMapper_Map (Wrapf p err) fallback m = ErrorMapper_Map err fallback m"
  by (simp add: ErrorMapper_Map_def unavailableError_def sessionError_def)

end
