(* ===== verification/Gateway_Handler.thy ===== *)
theory Gateway_Handler
  imports Gateway_Protocol Session_Manager UC_Auth
begin

text \<open>
  The websocket side of the gateway (\<^verbatim>\<open>src/services/gateway/websocket.go\<close>) and the gateway module's readiness
  (\<^verbatim>\<open>src/services/gateway/module.go\<close>).  A connection is found under its identifier; \<open>cx_send\<close> is the content of its channel and
  \<open>cx_written\<close> what the write pump has written.  Connections that a goroutine closes after 100 ms are listed in \<open>hn_closing\<close>.
\<close>

section \<open>Connections\<close>

record Connection =
  cx_ID :: string
  cx_send :: "bytes list"
  cx_closed :: bool
  cx_sessionID :: string
  cx_sessionEpoch :: uint64
  cx_written :: "bytes list"

definition new_connection :: "string \<Rightarrow> Connection" where
  "new_connection connectionID = \<lparr>cx_ID = connectionID, cx_send = [], cx_closed = False, cx_sessionID = '''', cx_sessionEpoch = 0, cx_written = []\<rparr>"

definition sendBuffer :: nat where
  "sendBuffer = 64"

definition Connection_Send :: "bytes \<Rightarrow> Connection \<Rightarrow> go_error option \<times> Connection" where
  "Connection_Send payload c =
     (if cx_closed c then (Some (NewError ''connection closed''), c)
      else if length (cx_send c) < sendBuffer then (None, c\<lparr>cx_send := cx_send c @ [payload]\<rparr>)
      else (Some (NewError ''connection send buffer full''), c))"

definition Connection_Close :: "Connection \<Rightarrow> Connection" where
  "Connection_Close c = c\<lparr>cx_closed := True\<rparr>"

definition BindSession :: "string \<Rightarrow> uint64 list \<Rightarrow> Connection \<Rightarrow> Connection" where
  "BindSession sessionID epochs c =
     (let c' = c\<lparr>cx_sessionID := sessionID\<rparr> in case epochs of [] \<Rightarrow> c' | e # _ \<Rightarrow> c'\<lparr>cx_sessionEpoch := e\<rparr>)"

text \<open>One round of the write pump: \<open>ok\<close> is whether the write succeeded.\<close>

definition writePump_round :: "bool \<Rightarrow> Connection \<Rightarrow> Connection" where
  "writePump_round ok c =
     (case cx_send c of
        [] \<Rightarrow> if ok then c else Connection_Close c
      | payload # rest \<Rightarrow>
          if ok then c\<lparr>cx_send := rest, cx_written := cx_written c @ [payload]\<rparr> else Connection_Close (c\<lparr>cx_send := rest\<rparr>))"

section \<open>The handler\<close>

record Handler =
  hn_connections :: "string \<rightharpoonup> Connection"
  hn_activeConnections :: int
  hn_closing :: "string list"

definition NewHandler :: Handler where
  "NewHandler = \<lparr>hn_connections = Map.empty, hn_activeConnections = 0, hn_closing = []\<rparr>"

text \<open>\<open>bytes\<close> is what the random source returns.\<close>

definition newConnectionID :: "bytes result \<Rightarrow> string result" where
  "newConnectionID random = (case random of Inl e \<Rightarrow> Inl e | Inr bs \<Rightarrow> Inr (hexString bs))"

text \<open>
  \<open>Handle\<close> up to the read pump: the identifier of the connection that is served, if any.  \<open>accepting\<close> is \<open>None\<close> when no check is set and
  \<open>upgraded\<close> whether the upgrade succeeded.
\<close>

definition Handle_open :: "bool option \<Rightarrow> bool \<Rightarrow> bytes result \<Rightarrow> Handler \<Rightarrow> string option \<times> Handler" where
  "Handle_open accepting upgraded random h =
     (if accepting = Some False then (None, h)
      else if \<not> upgraded then (None, h)
      else (case newConnectionID random of
         Inl _ \<Rightarrow> (None, h)
       | Inr connectionID \<Rightarrow>
           (Some connectionID, h\<lparr>hn_connections := (hn_connections h)(connectionID \<mapsto> new_connection connectionID),
              hn_activeConnections := hn_activeConnections h + 1\<rparr>)))"

definition disconnectSession :: "'st Store \<Rightarrow> ((string \<rightharpoonup> string) \<Rightarrow> string list) \<Rightarrow> gotime \<Rightarrow> gotime \<Rightarrow> Connection \<Rightarrow> 'st Manager \<Rightarrow> 'st Manager" where
  "disconnectSession S it now wall conn m =
     (if cx_sessionID conn = '''' then m
      else snd (DisconnectConnection S it (cx_sessionID conn) (cx_ID conn) now [cx_sessionEpoch conn] wall m))"

text \<open>The end of \<open>Handle\<close>, once the read pump has returned.\<close>

definition Handle_close :: "'st Store \<Rightarrow> ((string \<rightharpoonup> string) \<Rightarrow> string list) \<Rightarrow> gotime \<Rightarrow> gotime \<Rightarrow> string \<Rightarrow> Handler \<times> 'st Manager \<Rightarrow> Handler \<times> 'st Manager" where
  "Handle_close S it now wall connectionID = (\<lambda>(h, m).
     (case hn_connections h connectionID of
        None \<Rightarrow> (h, m)
      | Some conn \<Rightarrow>
          (h\<lparr>hn_connections := (hn_connections h)(connectionID := None), hn_activeConnections := hn_activeConnections h - 1\<rparr>,
           disconnectSession S it now wall (Connection_Close conn) m)))"

definition marshalGatewayEvent :: "client_codec \<Rightarrow> ClientMessageId \<Rightarrow> string \<Rightarrow> bytes \<Rightarrow> bytes" where
  "marshalGatewayEvent cc messageID sessionID payload =
     (case cb_Marshal cc (CEnvelope \<lparr>ce_MessageId = messageID, ce_RequestId = 0, ce_SessionId = sessionID, ce_Payload = payload\<rparr>) of
        Inl _ \<Rightarrow> [] | Inr data \<Rightarrow> data)"

definition withRequestID :: "client_codec \<Rightarrow> uint64 \<Rightarrow> bytes \<Rightarrow> bytes" where
  "withRequestID cc requestID payload =
     (case cb_Marshal cc (CEnvelope \<lparr>ce_MessageId = MessageErrorResponse, ce_RequestId = requestID, ce_SessionId = '''', ce_Payload = payload\<rparr>) of
        Inl _ \<Rightarrow> [] | Inr data \<Rightarrow> data)"

text \<open>\<open>retryAfter\<close> is \<^verbatim>\<open>time.Duration(float64(time.Second) / h.rateLimitRate)\<close>.\<close>

definition sendRateLimited :: "client_codec \<Rightarrow> duration \<Rightarrow> bytes \<Rightarrow> Connection \<Rightarrow> Connection" where
  "sendRateLimited cc retryAfter payload conn =
     (let requestID = (case cb_Envelope cc payload of Inl _ \<Rightarrow> 0 | Inr envelope \<Rightarrow> ce_RequestId envelope);
          publicError = (ErrorMapper_Known ErrorRateLimited ''request rate limit exceeded'')\<lparr>pu_RetryAfter := retryAfter\<rparr>
      in case cb_Marshal cc (CErrorResponse (PublicError_Response publicError)) of
           Inl _ \<Rightarrow> conn
         | Inr data \<Rightarrow> snd (Connection_Send (withRequestID cc requestID data) conn))"

definition NotifyDraining :: "client_codec \<Rightarrow> duration \<Rightarrow> Handler \<Rightarrow> Handler" where
  "NotifyDraining cc reconnectAfter h =
     (case cb_Marshal cc (CGatewayDrainingEvent (word_of_int (Milliseconds reconnectAfter))) of
        Inl _ \<Rightarrow> h
      | Inr payload \<Rightarrow>
          h\<lparr>hn_connections := (\<lambda>i. map_option (\<lambda>connection.
              snd (Connection_Send (marshalGatewayEvent cc GATEWAY_DRAINING_EVENT (cx_sessionID connection) payload) connection)) (hn_connections h i))\<rparr>)"

definition preemptsConnection :: "Record \<Rightarrow> Connection \<Rightarrow> bool" where
  "preemptsConnection record connection \<longleftrightarrow> cx_sessionID connection = r_SessionID record
     \<and> (r_ConnectionEpoch record = 0 \<or> cx_sessionEpoch connection = r_ConnectionEpoch record)"

definition Preempt :: "client_codec \<Rightarrow> Record \<Rightarrow> Handler \<Rightarrow> Handler" where
  "Preempt cc record h =
     (case hn_connections h (r_ConnectionID record) of
        None \<Rightarrow> h
      | Some connection \<Rightarrow>
          if \<not> preemptsConnection record connection then h
          else
            (let connection' =
                   (case cb_Marshal cc (CSessionPreemptedEvent \<lparr>pv_SessionId = r_SessionID record, pv_ConnectionEpoch = r_ConnectionEpoch record,
                           pv_Reason = ''connection was superseded by a newer login''\<rparr>) of
                      Inl _ \<Rightarrow> connection
                    | Inr payload \<Rightarrow> snd (Connection_Send (marshalGatewayEvent cc SESSION_PREEMPTED_EVENT (r_SessionID record) payload) connection))
             in h\<lparr>hn_connections := (hn_connections h)(r_ConnectionID record \<mapsto> connection'), hn_closing := hn_closing h @ [r_ConnectionID record]\<rparr>))"

definition CloseAll :: "Handler \<Rightarrow> Handler" where
  "CloseAll h = h\<lparr>hn_connections := map_option Connection_Close \<circ> hn_connections h\<rparr>"

text \<open>A delayed close; the connection may have left the table.\<close>

definition delayed_close :: "Handler \<Rightarrow> Handler" where
  "delayed_close h =
     (case hn_closing h of
        [] \<Rightarrow> h
      | i # rest \<Rightarrow> h\<lparr>hn_closing := rest, hn_connections := (hn_connections h)(i := map_option Connection_Close (hn_connections h i))\<rparr>)"

section \<open>The module\<close>

record GatewayModule =
  gm_ready :: bool
  gm_draining :: bool

definition NewGatewayModule :: GatewayModule where
  "NewGatewayModule = \<lparr>gm_ready = False, gm_draining = False\<rparr>"

definition IsReady :: "GatewayModule \<Rightarrow> bool" where
  "IsReady g \<longleftrightarrow> gm_ready g \<and> \<not> gm_draining g"

definition GatewayModule_Start :: "go_error option \<Rightarrow> GatewayModule \<Rightarrow> go_error option \<times> GatewayModule" where
  "GatewayModule_Start base g = (case base of Some e \<Rightarrow> (Some e, g) | None \<Rightarrow> (None, g\<lparr>gm_ready := True\<rparr>))"

definition GatewayModule_Stop :: "GatewayModule \<Rightarrow> GatewayModule" where
  "GatewayModule_Stop g = g\<lparr>gm_ready := False\<rparr>"

definition BeginDrain :: "GatewayModule \<Rightarrow> GatewayModule" where
  "BeginDrain g = (if gm_draining g then g else g\<lparr>gm_draining := True, gm_ready := False\<rparr>)"

text \<open>
  \<open>Drain\<close> around its wait, in which \<open>meanwhile\<close> happens to the handler; \<open>ctxErr\<close> is the error of a context that ends before the timer.
\<close>

definition Drain :: "client_codec \<Rightarrow> duration \<Rightarrow> (Handler \<Rightarrow> Handler) \<Rightarrow> go_error option \<Rightarrow> GatewayModule \<Rightarrow> Handler \<Rightarrow> go_error option \<times> Handler" where
  "Drain cc drainTimeout meanwhile ctxErr g h =
     (if \<not> gm_draining g then (None, h) else (ctxErr, CloseAll (meanwhile (NotifyDraining cc drainTimeout h))))"

section \<open>Lemmas\<close>

lemma Send_cases:
  assumes "Connection_Send p c = (e, c')"
  shows "(e = None \<and> \<not> cx_closed c \<and> length (cx_send c) < sendBuffer \<and> c' = c\<lparr>cx_send := cx_send c @ [p]\<rparr>) \<or> (e \<noteq> None \<and> c' = c)"
  using assms by (auto simp: Connection_Send_def split: if_splits)

lemma Send_frame [simp]:
  "cx_ID (snd (Connection_Send p c)) = cx_ID c" "cx_closed (snd (Connection_Send p c)) = cx_closed c"
  "cx_sessionID (snd (Connection_Send p c)) = cx_sessionID c" "cx_sessionEpoch (snd (Connection_Send p c)) = cx_sessionEpoch c"
  "cx_written (snd (Connection_Send p c)) = cx_written c"
  by (simp_all add: Connection_Send_def)

lemma Send_bounded: "length (cx_send c) \<le> sendBuffer \<Longrightarrow> length (cx_send (snd (Connection_Send p c))) \<le> sendBuffer"
  by (auto simp: Connection_Send_def)

lemma Preempt_other: "i \<noteq> r_ConnectionID record \<Longrightarrow> hn_connections (Preempt cc record h) i = hn_connections h i"
  by (auto simp: Preempt_def Let_def split: option.splits)

lemma Preempt_unbound:
  "hn_connections h (r_ConnectionID record) = Some c \<Longrightarrow> \<not> preemptsConnection record c \<Longrightarrow> Preempt cc record h = h"
  by (simp add: Preempt_def)

lemma CloseAll_closed: "hn_connections (CloseAll h) i = Some c \<Longrightarrow> cx_closed c"
  by (auto simp: CloseAll_def Connection_Close_def)

lemma Drain_closed: "gm_draining g \<Longrightarrow> hn_connections (snd (Drain cc t f e g h)) i = Some c \<Longrightarrow> cx_closed c"
  by (auto simp: Drain_def intro: CloseAll_closed)

lemma BeginDrain_refuses: "\<not> IsReady (BeginDrain g)" "gm_draining (BeginDrain g)"
  by (simp_all add: BeginDrain_def IsReady_def)

lemma Handle_open_refuses: "Handle_open (Some (IsReady (BeginDrain g))) upgraded random h = (None, h)"
  by (simp add: Handle_open_def BeginDrain_refuses)

end
