(* ===== verification/Gateway_Clients.thy ===== *)
theory Gateway_Clients
  imports Gateway_Protocol Retry Breaker
begin

text \<open>
  What the gateway asks of other services: authentication at the user center (\<^verbatim>\<open>src/services/common/authentication_client.go\<close>) and
  players at the lobby (\<^verbatim>\<open>src/services/gateway/lobby_player_resolver.go\<close>).  \<open>client w\<close> is the \<^verbatim>\<open>Request\<close> method of the stream client that
  is connected, if any.  The context of a request is \<open>done\<close>, the clock readings are \<open>since\<close>, \<open>t0\<close> and \<open>t1\<close>, as in \<open>Retry\<close> and \<open>Breaker\<close>.
\<close>

section \<open>Authentication\<close>

record AuthenticationGrant =
  ag_AccountID :: string
  ag_RefreshToken :: string
  ag_RefreshTokenExpireAt :: gotime

record 'w AuthClient =
  ac_client :: "('w \<Rightarrow> 'w requester option) option"
  ac_retry :: RetryPolicy

definition NewStreamingAuthenticationClient :: "('w \<Rightarrow> 'w requester option) option \<Rightarrow> 'w AuthClient" where
  "NewStreamingAuthenticationClient client = \<lparr>ac_client = client,
     ac_retry = \<lparr>rp_MaxAttempts = 1, rp_InitialDelay = 0, rp_MaxDelay = 0, rp_ShouldRetry = None, rp_Observer = False\<rparr>\<rparr>"

definition SetReliability :: "RetryPolicy \<Rightarrow> CircuitBreaker option \<Rightarrow> 'w AuthClient \<Rightarrow> 'w AuthClient \<times> CircuitBreaker option" where
  "SetReliability retry breaker a = (a\<lparr>ac_retry := retry\<rparr>, breaker)"

text \<open>The readings of clock and context during one request.\<close>

record request_env =
  qe_done :: "nat \<Rightarrow> go_error option"
  qe_since :: "nat \<Rightarrow> duration"
  qe_t0 :: gotime
  qe_t1 :: gotime

text \<open>One attempt; the state holds the variable \<^verbatim>\<open>response\<close>.\<close>

definition attempt :: "('w \<Rightarrow> 'w requester option) \<Rightarrow> InternalEnvelope \<Rightarrow> InternalEnvelope option \<times> 'w \<Rightarrow>
    go_error option \<times> InternalEnvelope option \<times> 'w" where
  "attempt client envelope = (\<lambda>(response, w).
     (case client w of
        None \<Rightarrow> (Some (Sentinel ErrAuthenticationServiceUnavailable), response, w)
      | Some request \<Rightarrow>
          (case request envelope w of
             (Inl e, w') \<Rightarrow> (Some (Wrapf ''user center request: '' e), None, w')
           | (Inr r, w') \<Rightarrow> (None, Some r, w'))))"

definition countsFailure :: "go_error option \<Rightarrow> bool" where
  "countsFailure candidate = (case candidate of None \<Rightarrow> False
     | Some e \<Rightarrow> errors_is e ErrAuthenticationServiceUnavailable \<or> errors_is e ErrConnectionClosed \<or> errors_is e ErrRequestTimeout)"

definition retried :: "RetryPolicy \<Rightarrow> request_env \<Rightarrow> ('s \<Rightarrow> go_error option \<times> 's) \<Rightarrow> 's \<Rightarrow> go_error option \<times> 's" where
  "retried p q f s = (let r = Do p f (qe_done q) (qe_since q) s in (ro_err r, ro_state r))"

definition nilResponse :: go_error where
  "nilResponse = NewError ''runtime error: invalid memory address or nil pointer dereference''"

definition checkResponse :: "InternalEnvelope option \<Rightarrow> InternalEnvelope result" where
  "checkResponse response =
     (case response of
        None \<Rightarrow> Inl nilResponse
      | Some r \<Rightarrow>
          if en_Kind r = ENVELOPE_KIND_ERROR
          then Inl (NewError (''user center error '' @ show_nat (unat (en_ErrorCode r)) @ '': '' @ en_ErrorMessage r))
          else if en_Kind r \<noteq> ENVELOPE_KIND_RESPONSE then Inl (NewError ''user center returned invalid response envelope'')
          else Inr r)"

definition auth_request :: "'w AuthClient \<Rightarrow> request_env \<Rightarrow> uint32 \<Rightarrow> bytes \<Rightarrow> CircuitBreaker option \<times> 'w \<Rightarrow>
    InternalEnvelope result \<times> CircuitBreaker option \<times> 'w" where
  "auth_request a q messageID payload = (\<lambda>(breaker, w).
     (case ac_client a of
        None \<Rightarrow> (Inl (NewError ''user center client is not configured''), breaker, w)
      | Some client \<Rightarrow>
          (let operation = retried (ac_retry a) q (attempt client (emptyEnvelope\<lparr>en_TargetService := SERVICE_TYPE_USERCENTER,
                  en_MessageId := messageID, en_Payload := payload\<rparr>))
           in case ExecuteClassified breaker (qe_t0 q) (qe_t1 q) operation (Some countsFailure) (None, w) of
                (Some e, breaker', (_, w'), _) \<Rightarrow> (Inl e, breaker', w')
              | (None, breaker', (response, w'), _) \<Rightarrow> (checkResponse response, breaker', w'))))"

definition authenticationGrantFromProto :: "TokenGrant option \<Rightarrow> AuthenticationGrant result" where
  "authenticationGrantFromProto grant =
     (case grant of
        None \<Rightarrow> Inl (NewError ''authentication service returned incomplete grant'')
      | Some g \<Rightarrow>
          if tg_AccountId g = '''' \<or> tg_RefreshToken g = '''' then Inl (NewError ''authentication service returned incomplete grant'')
          else Inr \<lparr>ag_AccountID = tg_AccountId g, ag_RefreshToken = tg_RefreshToken g,
                 ag_RefreshTokenExpireAt = timeUnix (tg_RefreshTokenExpireAtUnix g)\<rparr>)"

definition CLIENT_LOGIN_AUTHENTICATE_REQUEST :: uint32 where "CLIENT_LOGIN_AUTHENTICATE_REQUEST = 1006"
definition CLIENT_REFRESH_AUTHENTICATE_REQUEST :: uint32 where "CLIENT_REFRESH_AUTHENTICATE_REQUEST = 1007"

definition AuthenticateLogin :: "codec \<Rightarrow> 'w AuthClient \<Rightarrow> request_env \<Rightarrow> bytes \<Rightarrow> CircuitBreaker option \<times> 'w \<Rightarrow>
    AuthenticationGrant result \<times> CircuitBreaker option \<times> 'w" where
  "AuthenticateLogin cd a q loginRequest s =
     (case pb_Marshal cd (MClientLoginAuthenticateRequest loginRequest) of
        Inl e \<Rightarrow> (Inl (Wrapf ''marshal client login authentication request: '' e), s)
      | Inr payload \<Rightarrow>
          (case auth_request a q CLIENT_LOGIN_AUTHENTICATE_REQUEST payload s of
             (Inl e, s') \<Rightarrow> (Inl e, s')
           | (Inr response, s') \<Rightarrow>
               (case pb_ClientLoginAuthenticateResponse cd (en_Payload response) of
                  Inl e \<Rightarrow> (Inl (Wrapf ''unmarshal client login authentication response: '' e), s')
                | Inr grant \<Rightarrow> (authenticationGrantFromProto grant, s'))))"

definition RefreshLogin :: "codec \<Rightarrow> 'w AuthClient \<Rightarrow> request_env \<Rightarrow> bytes \<Rightarrow> CircuitBreaker option \<times> 'w \<Rightarrow>
    AuthenticationGrant result \<times> CircuitBreaker option \<times> 'w" where
  "RefreshLogin cd a q refreshLoginRequest s =
     (case pb_Marshal cd (MClientRefreshAuthenticateRequest refreshLoginRequest) of
        Inl e \<Rightarrow> (Inl (Wrapf ''marshal client refresh authentication request: '' e), s)
      | Inr payload \<Rightarrow>
          (case auth_request a q CLIENT_REFRESH_AUTHENTICATE_REQUEST payload s of
             (Inl e, s') \<Rightarrow> (Inl e, s')
           | (Inr response, s') \<Rightarrow>
               (case pb_ClientRefreshAuthenticateResponse cd (en_Payload response) of
                  Inl e \<Rightarrow> (Inl (Wrapf ''unmarshal client refresh authentication response: '' e), s')
                | Inr grant \<Rightarrow> (authenticationGrantFromProto grant, s'))))"

section \<open>Players\<close>

definition ENSURE_PLAYER_REQUEST :: uint32 where "ENSURE_PLAYER_REQUEST = 3001"

definition EnsurePlayer :: "codec \<Rightarrow> ('w \<Rightarrow> 'w requester option) option \<Rightarrow> string \<Rightarrow> 'w \<Rightarrow> string result \<times> 'w" where
  "EnsurePlayer cd client accountID w =
     (if client = None \<or> accountID = '''' then (Inl (NewError ''lobby player resolver is not configured''), w)
      else (case the client w of
         None \<Rightarrow> (Inl (NewError ''lobby service is unavailable''), w)
       | Some request \<Rightarrow>
           (case pb_Marshal cd (MEnsurePlayerRequest \<lparr>eq_AccountId = accountID\<rparr>) of
              Inl e \<Rightarrow> (Inl e, w)
            | Inr payload \<Rightarrow>
                (case request (emptyEnvelope\<lparr>en_TargetService := SERVICE_TYPE_LOBBY, en_MessageId := ENSURE_PLAYER_REQUEST, en_Payload := payload\<rparr>) w of
                   (Inl e, w') \<Rightarrow> (Inl (Wrapf ''ensure lobby player: '' e), w')
                 | (Inr response, w') \<Rightarrow>
                     if en_Kind response = ENVELOPE_KIND_ERROR
                     then (Inl (NewError (''lobby player error '' @ show_nat (unat (en_ErrorCode response)) @ '': '' @ en_ErrorMessage response)), w')
                     else (case pb_EnsurePlayerResponse cd (en_Payload response) of
                        Inl e \<Rightarrow> (Inl e, w')
                      | Inr result \<Rightarrow>
                          if ep_AccountId result \<noteq> accountID \<or> ep_PlayerId result = ''''
                          then (Inl (NewError ''lobby returned invalid player''), w')
                          else (Inr (ep_PlayerId result), w'))))))"

section \<open>What an answer means\<close>

lemma state_after_snoc: "state_after f s (Suc n) = snd (f (state_after f s n))"
  by (induction n arbitrary: s) simp_all

text \<open>A retried operation that succeeds ends with a successful run.\<close>

lemma Do_success:
  assumes "ro_err (Do p f d since s) = None"
  shows "\<exists>s0. f s0 = (None, ro_state (Do p f d since s))"
proof -
  obtain n where n: "\<not> retries (normalize p) f d s 0 n" "ro_state (Do p f d since s) = state_after f s (Suc n)"
    "final_error (normalize p) f d s 0 n = None"
    using retry_loop_spec [of 0 "normalize p" f d s since None] normalize_pos(1) [of p] assms unfolding Do_def by auto
  have "error_at f s n = None" using n(1,3) by (auto simp: final_error_def retries_def split: option.splits if_splits)
  then show ?thesis using n(2) unfolding state_after_snoc error_at_def by (metis prod.collapse)
qed

text \<open>A successful request was answered by the user center with a response.\<close>

lemma auth_request_ok:
  assumes "auth_request a q messageID payload (breaker, w) = (Inr r, breaker', w')"
  shows "\<exists>client request w0. ac_client a = Some client \<and> client w0 = Some request
    \<and> request (emptyEnvelope\<lparr>en_TargetService := SERVICE_TYPE_USERCENTER, en_MessageId := messageID, en_Payload := payload\<rparr>) w0 = (Inr r, w')
    \<and> en_Kind r = ENVELOPE_KIND_RESPONSE"
proof -
  obtain client where c: "ac_client a = Some client" using assms by (auto simp: auth_request_def split: option.splits)
  let ?env = "emptyEnvelope\<lparr>en_TargetService := SERVICE_TYPE_USERCENTER, en_MessageId := messageID, en_Payload := payload\<rparr>"
  let ?op = "retried (ac_retry a) q (attempt client ?env)"
  obtain response ev where ex: "ExecuteClassified breaker (qe_t0 q) (qe_t1 q) ?op (Some countsFailure) (None, w) = (None, breaker', (response, w'), ev)"
    and chk: "checkResponse response = Inr r"
    using assms by (auto simp: auth_request_def c Let_def split: option.splits prod.splits)
  have "?op (None, w) = (None, response, w')" using ex by (auto simp: ExecuteClassified_def Let_def split: option.splits prod.splits if_splits)
  then have "ro_err (Do (ac_retry a) (attempt client ?env) (qe_done q) (qe_since q) (None, w)) = None"
    "ro_state (Do (ac_retry a) (attempt client ?env) (qe_done q) (qe_since q) (None, w)) = (response, w')"
    by (simp_all add: retried_def Let_def)
  with Do_success obtain s0 where "attempt client ?env s0 = (None, response, w')" by metis
  then obtain request w0 x where rq: "client w0 = Some request" "request ?env w0 = (Inr x, w')" "response = Some x"
    by (cases s0) (auto simp: attempt_def split: option.splits prod.splits sum.splits)
  moreover have "x = r" "en_Kind r = ENVELOPE_KIND_RESPONSE" using chk rq(3) by (auto simp: checkResponse_def split: if_splits)
  ultimately show ?thesis using c by blast
qed

text \<open>The nil branch of \<open>checkResponse\<close> is never taken.\<close>

lemma response_not_nil:
  assumes "ExecuteClassified breaker t0 t1 (retried p q (attempt client envelope)) (Some countsFailure) (None, w) = (None, breaker', (response, w'), ev)"
  shows "response \<noteq> None"
proof -
  let ?D = "Do p (attempt client envelope) (qe_done q) (qe_since q) (None, w)"
  have "retried p q (attempt client envelope) (None, w) = (None, response, w')"
    using assms by (auto simp: ExecuteClassified_def Let_def split: option.splits prod.splits if_splits)
  then have "ro_err ?D = None" "ro_state ?D = (response, w')" by (simp_all add: retried_def Let_def)
  with Do_success obtain s0 where "attempt client envelope s0 = (None, response, w')" by metis
  then show ?thesis by (cases s0) (auto simp: attempt_def split: option.splits prod.splits sum.splits)
qed

lemma EnsurePlayer_ok:
  assumes "EnsurePlayer cd client accountID w = (Inr playerID, w')"
  shows "accountID \<noteq> ''''" "playerID \<noteq> ''''"
    "\<exists>request response result payload. the client w = Some request \<and> pb_Marshal cd (MEnsurePlayerRequest \<lparr>eq_AccountId = accountID\<rparr>) = Inr payload
      \<and> request (emptyEnvelope\<lparr>en_TargetService := SERVICE_TYPE_LOBBY, en_MessageId := ENSURE_PLAYER_REQUEST, en_Payload := payload\<rparr>) w = (Inr response, w')
      \<and> pb_EnsurePlayerResponse cd (en_Payload response) = Inr result \<and> ep_AccountId result = accountID \<and> ep_PlayerId result = playerID"
  using assms by (auto simp: EnsurePlayer_def split: if_splits option.splits sum.splits prod.splits)

lemma AuthenticateLogin_ok:
  assumes "AuthenticateLogin cd a q loginRequest (b, w) = (Inr g, b', w')"
  shows "ag_AccountID g \<noteq> ''''" "ag_RefreshToken g \<noteq> ''''"
  using assms by (auto simp: AuthenticateLogin_def authenticationGrantFromProto_def split: if_splits option.splits sum.splits prod.splits)

text \<open>While the circuit is open no request is made.\<close>

lemma auth_request_open:
  assumes "ac_client a \<noteq> None" "cb_state b = CircuitStateOpen" "qe_t0 q < cb_openUntil b"
  shows "auth_request a q messageID payload (Some b, w) = (Inl (Sentinel ErrCircuitOpen), Some b, w)"
  using assms by (auto simp: auth_request_def ExecuteClassified_def allow_def Let_def split: option.splits)

end
