(* ===== verification/Gateway_Dispatch.thy ===== *)
theory Gateway_Dispatch
  imports Gateway_Handler Gateway_Clients
begin

text \<open>
  The gateway's dispatcher (\<^verbatim>\<open>src/services/gateway/dispatcher.go\<close>), the read pump around it and the restoring of state
  (\<^verbatim>\<open>src/services/gateway/module.go\<close>), composed with the session manager, the websocket handler and the clients of the other services the
  way \<^verbatim>\<open>NewModule\<close> composes them.
\<close>

section \<open>State\<close>

text \<open>
  \<open>gw_published\<close> are the records published on the preempt channel and \<open>gw_restores\<close> the goroutines started to restore state, with
  their connection, player, session and state versions.
\<close>

record ('st, 'w) gateway =
  gw_handler :: Handler
  gw_sessions :: "'st Manager"
  gw_breaker :: "CircuitBreaker option"
  gw_world :: 'w
  gw_published :: "Record list"
  gw_restores :: "(string \<times> string \<times> string \<times> (string \<rightharpoonup> uint64)) list"

text \<open>What a module is made of, and the readings of clock and random source during a message.\<close>

record ('st, 'w) gateway_env =
  ge_codec :: codec
  ge_client_codec :: client_codec
  ge_store :: "'st Store"
  ge_hash :: "string \<Rightarrow> string"
  ge_clients :: "string \<Rightarrow> 'w \<Rightarrow> 'w requester option"
  ge_retry :: RetryPolicy

record dispatch_input =
  di_request :: request_env
  di_now :: gotime
  di_sid :: "string result"
  di_token :: "string result"

definition authenticator :: "('st, 'w) gateway_env \<Rightarrow> 'w AuthClient" where
  "authenticator E = \<lparr>ac_client = Some (ge_clients E ''usercenter''), ac_retry = ge_retry E\<rparr>"

section \<open>Sending\<close>

definition gateway_send :: "client_codec \<Rightarrow> string \<Rightarrow> ClientMessageId \<Rightarrow> uint64 \<Rightarrow> string \<Rightarrow> ClientMessage \<Rightarrow> ('st, 'w) gateway \<Rightarrow>
    go_error option \<times> ('st, 'w) gateway" where
  "gateway_send cc connectionID messageID requestID sessionID message gw =
     (case cb_Marshal cc message of
        Inl e \<Rightarrow> (Some e, gw)
      | Inr payload \<Rightarrow>
          (case cb_Marshal cc (CEnvelope \<lparr>ce_MessageId = messageID, ce_RequestId = requestID, ce_SessionId = sessionID, ce_Payload = payload\<rparr>) of
             Inl e \<Rightarrow> (Some e, gw)
           | Inr envelope \<Rightarrow>
               (case hn_connections (gw_handler gw) connectionID of
                  None \<Rightarrow> (Some (NewError ''connection closed''), gw)
                | Some connection \<Rightarrow>
                    (case Connection_Send envelope connection of
                       (e, connection') \<Rightarrow> (e, gw\<lparr>gw_handler := (gw_handler gw)\<lparr>hn_connections :=
                         (hn_connections (gw_handler gw))(connectionID \<mapsto> connection')\<rparr>\<rparr>)))))"

definition sendPublicError :: "client_codec \<Rightarrow> string \<Rightarrow> uint64 \<Rightarrow> PublicError \<Rightarrow> ('st, 'w) gateway \<Rightarrow> go_error option \<times> ('st, 'w) gateway" where
  "sendPublicError cc connectionID requestID publicError gw =
     gateway_send cc connectionID MessageErrorResponse requestID '''' (CErrorResponse (PublicError_Response publicError)) gw"

definition sendKnownError :: "client_codec \<Rightarrow> string \<Rightarrow> uint64 \<Rightarrow> GatewayErrorCode \<Rightarrow> string \<Rightarrow> ('st, 'w) gateway \<Rightarrow> go_error option \<times> ('st, 'w) gateway" where
  "sendKnownError cc connectionID requestID code message gw = sendPublicError cc connectionID requestID (ErrorMapper_Known code message) gw"

definition sendMappedError :: "client_codec \<Rightarrow> string \<Rightarrow> uint64 \<Rightarrow> go_error \<Rightarrow> GatewayErrorCode \<Rightarrow> string \<Rightarrow> ('st, 'w) gateway \<Rightarrow> go_error option \<times> ('st, 'w) gateway" where
  "sendMappedError cc connectionID requestID err fallback message gw = sendPublicError cc connectionID requestID (ErrorMapper_Map err fallback message) gw"

section \<open>Handlers of messages\<close>

text \<open>The preempt handler that \<^verbatim>\<open>NewModule\<close> sets, for the records that a call of the session manager passed to it.\<close>

definition preempt_handler :: "client_codec \<Rightarrow> Record \<Rightarrow> ('st, 'w) gateway \<Rightarrow> ('st, 'w) gateway" where
  "preempt_handler cc record gw = gw\<lparr>gw_handler := Preempt cc record (gw_handler gw), gw_published := gw_published gw @ [record]\<rparr>"

text \<open>
  What is published, and the loop of a gateway that receives it, for one message.  \<open>decode\<close> is \<^verbatim>\<open>json.Unmarshal\<close> into an event.
\<close>

record preemptEvent =
  pe_ConnectionID :: string
  pe_SessionID :: string
  pe_AccountID :: string
  pe_ConnectionEpoch :: uint64
  pe_GatewayInstanceID :: string

definition preemptEvent_of :: "Record \<Rightarrow> preemptEvent" where
  "preemptEvent_of record = \<lparr>pe_ConnectionID = r_ConnectionID record, pe_SessionID = r_SessionID record, pe_AccountID = r_AccountID record,
     pe_ConnectionEpoch = r_ConnectionEpoch record, pe_GatewayInstanceID = r_GatewayInstanceID record\<rparr>"

definition watchPreempt_message :: "client_codec \<Rightarrow> (string \<Rightarrow> preemptEvent result) \<Rightarrow> string \<Rightarrow> Handler \<Rightarrow> Handler" where
  "watchPreempt_message cc decode payload h =
     (case decode payload of
        Inl _ \<Rightarrow> h
      | Inr event \<Rightarrow> Preempt cc (zeroRecord\<lparr>r_SessionID := pe_SessionID event, r_AccountID := pe_AccountID event,
          r_ConnectionID := pe_ConnectionID event, r_ConnectionEpoch := pe_ConnectionEpoch event\<rparr>) h)"

definition with_sessions :: "client_codec \<Rightarrow> 'st Manager \<Rightarrow> ('st, 'w) gateway \<Rightarrow> ('st, 'w) gateway" where
  "with_sessions cc m gw =
     fold (preempt_handler cc) (drop (length (m_preempted (gw_sessions gw))) (m_preempted m)) (gw\<lparr>gw_sessions := m\<rparr>)"

definition bind_session :: "string \<Rightarrow> Record \<Rightarrow> ('st, 'w) gateway \<Rightarrow> ('st, 'w) gateway" where
  "bind_session connectionID record gw = gw\<lparr>gw_handler := (gw_handler gw)\<lparr>hn_connections := (hn_connections (gw_handler gw))(connectionID :=
     map_option (BindSession (r_SessionID record) [r_ConnectionEpoch record]) (hn_connections (gw_handler gw) connectionID))\<rparr>\<rparr>"

definition start_restore :: "string \<Rightarrow> Record \<Rightarrow> (string \<rightharpoonup> uint64) \<Rightarrow> ('st, 'w) gateway \<Rightarrow> ('st, 'w) gateway" where
  "start_restore connectionID record versions gw =
     gw\<lparr>gw_restores := gw_restores gw @ [(connectionID, r_PlayerID record, r_SessionID record, versions)]\<rparr>"

definition loginResponse :: "Created \<Rightarrow> AuthenticationGrant \<Rightarrow> LoginResponse" where
  "loginResponse created authentication =
     \<lparr>lr_AccountId = r_AccountID (c_Record created), lr_SessionId = r_SessionID (c_Record created), lr_ResumeToken = c_ResumeToken created,
      lr_ConnectionEpoch = r_ConnectionEpoch (c_Record created), lr_RefreshToken = ag_RefreshToken authentication,
      lr_RefreshTokenExpireAtUnix = Unix (ag_RefreshTokenExpireAt authentication), lr_PlayerId = r_PlayerID (c_Record created)\<rparr>"

text \<open>What \<open>login\<close> and \<open>refreshLogin\<close> do once the client is authenticated.\<close>

definition establish :: "('st, 'w) gateway_env \<Rightarrow> dispatch_input \<Rightarrow> string \<Rightarrow> uint64 \<Rightarrow> ClientMessageId \<Rightarrow> (LoginResponse \<Rightarrow> ClientMessage) \<Rightarrow>
    AuthenticationGrant \<Rightarrow> ('st, 'w) gateway \<Rightarrow> go_error option \<times> ('st, 'w) gateway" where
  "establish E i connectionID requestID messageID con authentication gw =
     (case EnsurePlayer (ge_codec E) (Some (ge_clients E ''lobby'')) (ag_AccountID authentication) (gw_world gw) of
        (Inl e, w) \<Rightarrow> sendMappedError (ge_client_codec E) connectionID requestID e ErrorPlayer ''player initialization failed'' (gw\<lparr>gw_world := w\<rparr>)
      | (Inr playerID, w) \<Rightarrow>
          (case Manager_Create (ge_store E) (ge_hash E) (di_sid i) (di_token i) (ag_AccountID authentication) connectionID (di_now i) [playerID]
                  (gw_sessions gw) of
             (Inl e, m) \<Rightarrow> sendMappedError (ge_client_codec E) connectionID requestID e ErrorInternal ''create session failed''
               (with_sessions (ge_client_codec E) m (gw\<lparr>gw_world := w\<rparr>))
           | (Inr created, m) \<Rightarrow>
               gateway_send (ge_client_codec E) connectionID messageID requestID (r_SessionID (c_Record created)) (con (loginResponse created authentication))
                 (start_restore connectionID (c_Record created) Map.empty
                   (bind_session connectionID (c_Record created) (with_sessions (ge_client_codec E) m (gw\<lparr>gw_world := w\<rparr>))))))"

definition login :: "('st, 'w) gateway_env \<Rightarrow> dispatch_input \<Rightarrow> string \<Rightarrow> Envelope \<Rightarrow> ('st, 'w) gateway \<Rightarrow> go_error option \<times> ('st, 'w) gateway" where
  "login E i connectionID envelope gw =
     (case AuthenticateLogin (ge_codec E) (authenticator E) (di_request i) (ce_Payload envelope) (gw_breaker gw, gw_world gw) of
        (Inl e, b, w) \<Rightarrow> sendMappedError (ge_client_codec E) connectionID (ce_RequestId envelope) e ErrorAuthentication ''authentication failed''
          (gw\<lparr>gw_breaker := b, gw_world := w\<rparr>)
      | (Inr authentication, b, w) \<Rightarrow>
          establish E i connectionID (ce_RequestId envelope) MessageLoginResponse CLoginResponse authentication (gw\<lparr>gw_breaker := b, gw_world := w\<rparr>))"

definition refreshLogin :: "('st, 'w) gateway_env \<Rightarrow> dispatch_input \<Rightarrow> string \<Rightarrow> Envelope \<Rightarrow> ('st, 'w) gateway \<Rightarrow> go_error option \<times> ('st, 'w) gateway" where
  "refreshLogin E i connectionID envelope gw =
     (case RefreshLogin (ge_codec E) (authenticator E) (di_request i) (ce_Payload envelope) (gw_breaker gw, gw_world gw) of
        (Inl e, b, w) \<Rightarrow> sendMappedError (ge_client_codec E) connectionID (ce_RequestId envelope) e ErrorRefresh ''refresh authentication failed''
          (gw\<lparr>gw_breaker := b, gw_world := w\<rparr>)
      | (Inr authentication, b, w) \<Rightarrow>
          establish E i connectionID (ce_RequestId envelope) MessageRefreshLoginResponse CRefreshLoginResponse authentication
            (gw\<lparr>gw_breaker := b, gw_world := w\<rparr>))"

definition resumeResponse :: "Created \<Rightarrow> ResumeResponse" where
  "resumeResponse created = \<lparr>rs_AccountId = r_AccountID (c_Record created), rs_SessionId = r_SessionID (c_Record created),
     rs_ResumeToken = c_ResumeToken created, rs_ConnectionEpoch = r_ConnectionEpoch (c_Record created), rs_PlayerId = r_PlayerID (c_Record created)\<rparr>"

definition gateway_resume :: "('st, 'w) gateway_env \<Rightarrow> dispatch_input \<Rightarrow> string \<Rightarrow> Envelope \<Rightarrow> ('st, 'w) gateway \<Rightarrow> go_error option \<times> ('st, 'w) gateway" where
  "gateway_resume E i connectionID envelope gw =
     (case cb_ResumeRequest (ge_client_codec E) (ce_Payload envelope) of
        Inl _ \<Rightarrow> sendKnownError (ge_client_codec E) connectionID (ce_RequestId envelope) ErrorInvalidEnvelope ''invalid resume request'' gw
      | Inr request \<Rightarrow>
          if rr_SessionId request = '''' \<or> rr_ResumeToken request = ''''
          then sendKnownError (ge_client_codec E) connectionID (ce_RequestId envelope) ErrorInvalidEnvelope ''session credentials are required'' gw
          else (case Resume (ge_store E) (ge_hash E) (di_token i) (rr_SessionId request) (rr_ResumeToken request) connectionID (di_now i) (gw_sessions gw) of
             (Inl e, m) \<Rightarrow> sendMappedError (ge_client_codec E) connectionID (ce_RequestId envelope) e ErrorResume ''session resume failed''
               (with_sessions (ge_client_codec E) m gw)
           | (Inr created, m) \<Rightarrow>
               gateway_send (ge_client_codec E) connectionID MessageResumeResponse (ce_RequestId envelope) (r_SessionID (c_Record created))
                 (CResumeResponse (resumeResponse created))
                 (start_restore connectionID (c_Record created) (rr_StateVersions request)
                   (bind_session connectionID (c_Record created) (with_sessions (ge_client_codec E) m gw)))))"

definition Dispatch :: "('st, 'w) gateway_env \<Rightarrow> dispatch_input \<Rightarrow> string \<Rightarrow> bytes \<Rightarrow> ('st, 'w) gateway \<Rightarrow> go_error option \<times> ('st, 'w) gateway" where
  "Dispatch E i connectionID data gw =
     (case cb_Envelope (ge_client_codec E) data of
        Inl _ \<Rightarrow> sendKnownError (ge_client_codec E) connectionID 0 ErrorInvalidEnvelope ''invalid envelope'' gw
      | Inr envelope \<Rightarrow>
          if ce_MessageId envelope = 0 then sendKnownError (ge_client_codec E) connectionID 0 ErrorInvalidEnvelope ''message id is required'' gw
          else if ce_MessageId envelope = MessageLoginRequest then login E i connectionID envelope gw
          else if ce_MessageId envelope = MessageResumeRequest then gateway_resume E i connectionID envelope gw
          else if ce_MessageId envelope = MessageRefreshLoginRequest then refreshLogin E i connectionID envelope gw
          else sendKnownError (ge_client_codec E) connectionID (ce_RequestId envelope) ErrorUnsupported ''unsupported message'' gw)"

text \<open>
  One message in the read pump: whether it goes on.  \<open>binary\<close> is the type of the message, \<open>allowed\<close> the rate limiter's decision.
\<close>

definition readPump_message :: "('st, 'w) gateway_env \<Rightarrow> dispatch_input \<Rightarrow> duration \<Rightarrow> bool \<Rightarrow> bool \<Rightarrow> string \<Rightarrow> bytes \<Rightarrow> ('st, 'w) gateway \<Rightarrow>
    bool \<times> ('st, 'w) gateway" where
  "readPump_message E i retryAfter binary allowed connectionID payload gw =
     (if \<not> binary then (False, gw)
      else if \<not> allowed then
        (True, gw\<lparr>gw_handler := (gw_handler gw)\<lparr>hn_connections := (hn_connections (gw_handler gw))(connectionID :=
           map_option (sendRateLimited (ge_client_codec E) retryAfter payload) (hn_connections (gw_handler gw) connectionID))\<rparr>\<rparr>)
      else (case Dispatch E i connectionID payload gw of (e, gw') \<Rightarrow> (e = None, gw')))"

section \<open>Restoring state\<close>

definition RESTORE_PLAYER_STATE_REQUEST :: uint32 where
  "RESTORE_PLAYER_STATE_REQUEST = 2001"

definition stateRestoreEvent :: "string \<Rightarrow> RestorePlayerStateResponse \<Rightarrow> StateRestoreEvent" where
  "stateRestoreEvent name state = \<lparr>sv_Service = name, sv_PlayerId = rp_PlayerId state, sv_StateVersion = rp_StateVersion state,
     sv_Snapshot = rp_Snapshot state, sv_Available = rp_Available state, sv_Mode = rp_Mode state, sv_BaseStateVersion = rp_BaseStateVersion state,
     sv_PayloadType = rp_PayloadType state, sv_SchemaVersion = rp_SchemaVersion state\<rparr>"

text \<open>The event made of one target's answer, if any.\<close>

definition restore_event :: "('st, 'w) gateway_env \<Rightarrow> string \<Rightarrow> ServiceType \<Rightarrow> string \<Rightarrow> string \<Rightarrow> (string \<rightharpoonup> uint64) \<Rightarrow> 'w \<Rightarrow>
    bytes option \<times> 'w" where
  "restore_event E name service playerID sessionID versions w =
     (case ge_clients E name w of
        None \<Rightarrow> (None, w)
      | Some request \<Rightarrow>
          (case pb_Marshal (ge_codec E) (MRestorePlayerStateRequest \<lparr>rq_PlayerId = playerID, rq_SessionId = sessionID,
                  rq_LastStateVersion = (case versions name of None \<Rightarrow> 0 | Some v \<Rightarrow> v), rq_AllowIncremental = (name = ''battle'')\<rparr>) of
             Inl _ \<Rightarrow> (None, w)
           | Inr payload \<Rightarrow>
               (case request (emptyEnvelope\<lparr>en_TargetService := service, en_MessageId := RESTORE_PLAYER_STATE_REQUEST, en_PlayerId := playerID,
                       en_Payload := payload\<rparr>) w of
                  (Inl _, w') \<Rightarrow> (None, w')
                | (Inr response, w') \<Rightarrow>
                    if en_Kind response \<noteq> ENVELOPE_KIND_RESPONSE then (None, w')
                    else (case pb_RestorePlayerStateResponse (ge_codec E) (en_Payload response) of
                       Inl _ \<Rightarrow> (None, w')
                     | Inr state \<Rightarrow>
                         (case cb_Marshal (ge_client_codec E) (CStateRestoreEvent (stateRestoreEvent name state)) of
                            Inl _ \<Rightarrow> (None, w')
                          | Inr event \<Rightarrow> (Some event, w'))))))"

definition restore_target :: "('st, 'w) gateway_env \<Rightarrow> string \<Rightarrow> string \<Rightarrow> string \<Rightarrow> (string \<rightharpoonup> uint64) \<Rightarrow> string \<times> ServiceType \<Rightarrow>
    ('st, 'w) gateway \<Rightarrow> ('st, 'w) gateway" where
  "restore_target E connectionID playerID sessionID versions = (\<lambda>(name, service) gw.
     (case restore_event E name service playerID sessionID versions (gw_world gw) of
        (None, w) \<Rightarrow> gw\<lparr>gw_world := w\<rparr>
      | (Some event, w) \<Rightarrow>
          gw\<lparr>gw_world := w, gw_handler := (gw_handler gw)\<lparr>hn_connections := (hn_connections (gw_handler gw))(connectionID :=
            map_option (\<lambda>c. snd (Connection_Send (marshalGatewayEvent (ge_client_codec E) STATE_RESTORE_EVENT sessionID event) c))
              (hn_connections (gw_handler gw) connectionID))\<rparr>\<rparr>))"

definition restore_targets :: "(string \<times> ServiceType) list" where
  "restore_targets = [(''lobby'', SERVICE_TYPE_LOBBY), (''battle'', SERVICE_TYPE_BATTLE)]"

definition restoreState :: "('st, 'w) gateway_env \<Rightarrow> string \<Rightarrow> string \<Rightarrow> string \<Rightarrow> (string \<rightharpoonup> uint64) \<Rightarrow> ('st, 'w) gateway \<Rightarrow> ('st, 'w) gateway" where
  "restoreState E connectionID playerID sessionID versions gw =
     (if playerID = '''' then gw else fold (restore_target E connectionID playerID sessionID versions) restore_targets gw)"

section \<open>Replies\<close>

abbreviation conn_of :: "('st, 'w) gateway \<Rightarrow> string \<Rightarrow> Connection option" where
  "conn_of gw i \<equiv> hn_connections (gw_handler gw) i"

text \<open>\<open>bs\<close> is an envelope with the given header.\<close>

definition encodes :: "client_codec \<Rightarrow> ClientMessageId \<Rightarrow> uint64 \<Rightarrow> string \<Rightarrow> ClientMessage \<Rightarrow> bytes \<Rightarrow> bool" where
  "encodes cc messageID requestID sessionID message bs \<longleftrightarrow> (\<exists>payload. cb_Marshal cc message = Inr payload
     \<and> cb_Marshal cc (CEnvelope \<lparr>ce_MessageId = messageID, ce_RequestId = requestID, ce_SessionId = sessionID, ce_Payload = payload\<rparr>) = Inr bs)"

lemma gateway_send_cases:
  assumes "gateway_send cc i messageID requestID sessionID message gw = (e, gw')" "conn_of gw i = Some c"
  obtains (sent) bs where "e = None" "encodes cc messageID requestID sessionID message bs" "\<not> cx_closed c" "length (cx_send c) < sendBuffer"
      "gw' = gw\<lparr>gw_handler := (gw_handler gw)\<lparr>hn_connections := (hn_connections (gw_handler gw))(i \<mapsto> c\<lparr>cx_send := cx_send c @ [bs]\<rparr>)\<rparr>\<rparr>"
    | (failed) err where "e = Some err" "gw' = gw"
proof (cases e)
  case None
  then show thesis using assms that(1) by (auto simp: gateway_send_def encodes_def Connection_Send_def split: sum.splits if_splits)
next
  case (Some err)
  have "gw' = gw" using assms Some by (auto simp: gateway_send_def Connection_Send_def map_upd_triv split: sum.splits if_splits)
  then show thesis using Some that(2) by blast
qed

lemma preempt_handler_other: "i \<noteq> r_ConnectionID record \<Longrightarrow> conn_of (preempt_handler cc record gw) i = conn_of gw i"
  by (simp add: preempt_handler_def Preempt_other)

lemma fold_preempt_other:
  "\<forall>r \<in> set rs. r_ConnectionID r \<noteq> i \<Longrightarrow> conn_of (fold (preempt_handler cc) rs gw) i = conn_of gw i"
  by (induction rs arbitrary: gw) (auto simp: preempt_handler_other)

text \<open>The session manager preempts at most one connection, never the one that is being served.\<close>

definition preempts :: "string \<Rightarrow> 'st Manager \<Rightarrow> 'st Manager \<Rightarrow> bool" where
  "preempts connectionID m m' \<longleftrightarrow> (\<exists>rs. m_preempted m' = m_preempted m @ rs \<and> (\<forall>r \<in> set rs. r_ConnectionID r \<noteq> connectionID \<and> r_ConnectionID r \<noteq> '''') \<and> length rs \<le> 1)"

lemma notifyPreempted_preempts:
  "m_preempted m = m_preempted m0 \<Longrightarrow> preempts connectionID m0 (notifyPreempted r b connectionID now m)"
  by (auto simp: preempts_def notifyPreempted_def)

lemma preempts_emit [simp]: "preempts i m0 (emitLifecycle t r now m) = preempts i m0 m"
  by (simp add: preempts_def)

lemma preempts_same: "m_preempted m = m_preempted m0 \<Longrightarrow> preempts i m0 m"
  by (simp add: preempts_def)

lemma claimAccount_frame: "claimAccount S a r m = (res, m') \<Longrightarrow> m_preempted m' = m_preempted m"
  by (auto simp: claimAccount_def split: option.splits prod.splits)

lemma saveVersionResult_frame: "saveVersionResult S x u m = (res, m') \<Longrightarrow> m_preempted m' = m_preempted m"
  by (auto simp: saveVersionResult_def split: option.splits prod.splits)

lemma saveVersion_frame: "m_preempted (snd (saveVersion S x u m)) = m_preempted m"
  using saveVersionResult_frame [of S x u m] by (auto simp: saveVersion_def split: sum.splits prod.splits)

lemma Create_preempted:
  assumes "Manager_Create S H sidr tokr accountID connectionID now players m = (res, m')"
  shows "preempts connectionID m m'"
proof -
  have cl: "m_preempted m1 = m_preempted m" if "claimAccount S accountID r (m\<lparr>m_store := st\<rparr>) = (x, m1)" for r st x m1
    using claimAccount_frame [OF that] by simp
  show ?thesis using assms
    by (auto simp: Manager_Create_def Let_def split: sum.splits prod.splits option.splits list.splits
        intro!: notifyPreempted_preempts intro: preempts_same dest!: cl)
qed

lemma resume_found_preempts:
  assumes "resume_found S H tokr sessionID token connectionID now r m = (res, m')"
  shows "preempts connectionID m m'"
proof -
  show ?thesis using assms
    by (auto simp: resume_found_def Let_def saveVersion_frame split: sum.splits prod.splits if_splits
        intro!: notifyPreempted_preempts intro: preempts_same dest!: claimAccount_frame saveVersionResult_frame)
qed

lemma Resume_preempted:
  assumes "Resume S H tokr sessionID token connectionID now m = (res, m')"
  shows "preempts connectionID m m'"
proof (cases "st_Get S sessionID (m_store m)")
  case (Pair x st)
  then show ?thesis using assms resume_found_preempts [of S H tokr sessionID token connectionID now _ "m\<lparr>m_store := st\<rparr>" res m']
    by (auto simp: Resume_def preempts_def split: sum.splits)
qed

lemma with_sessions_other:
  assumes "preempts i (gw_sessions gw) m"
  shows "conn_of (with_sessions cc m gw) i = conn_of gw i"
proof -
  obtain rs where rs: "m_preempted m = m_preempted (gw_sessions gw) @ rs" "\<forall>r \<in> set rs. r_ConnectionID r \<noteq> i"
    using assms by (auto simp: preempts_def)
  then show ?thesis using fold_preempt_other [OF rs(2), of cc "gw\<lparr>gw_sessions := m\<rparr>"] by (simp add: with_sessions_def)
qed

text \<open>A gateway that receives a published event does what the publishing one did.\<close>

lemma watchPreempt_published:
  assumes "decode payload = Inr (preemptEvent_of record)"
  shows "watchPreempt_message cc decode payload h = Preempt cc record h"
proof -
  define r where "r = zeroRecord\<lparr>r_SessionID := r_SessionID record, r_AccountID := r_AccountID record,
    r_ConnectionID := r_ConnectionID record, r_ConnectionEpoch := r_ConnectionEpoch record\<rparr>"
  have r: "r_SessionID r = r_SessionID record" "r_ConnectionID r = r_ConnectionID record" "r_ConnectionEpoch r = r_ConnectionEpoch record"
    by (simp_all add: r_def)
  have "watchPreempt_message cc decode payload h = Preempt cc r h" using assms by (simp add: watchPreempt_message_def preemptEvent_of_def r_def)
  also have "\<dots> = Preempt cc record h" unfolding Preempt_def preemptsConnection_def r ..
  finally show ?thesis .
qed

section \<open>The ways a message ends\<close>

lemma frames [simp]:
  "conn_of (start_restore i r v gw) j = conn_of gw j"
  "conn_of (bind_session i r gw) j = (if j = i then map_option (BindSession (r_SessionID r) [r_ConnectionEpoch r]) (conn_of gw i) else conn_of gw j)"
  "gw_handler (start_restore i r v gw) = gw_handler gw" "gw_sessions (start_restore i r v gw) = gw_sessions gw"
  "gw_sessions (bind_session i r gw) = gw_sessions gw"
  by (simp_all add: start_restore_def bind_session_def)

lemma BindSession_simps [simp]:
  "cx_send (BindSession s es c) = cx_send c" "cx_closed (BindSession s es c) = cx_closed c" "cx_ID (BindSession s es c) = cx_ID c"
  "cx_sessionID (BindSession s es c) = s" "cx_sessionEpoch (BindSession s (e # es) c) = e" "cx_written (BindSession s es c) = cx_written c"
  by (simp_all add: BindSession_def Let_def split: list.splits)

text \<open>The request identifier that a reply carries.\<close>

definition echoed :: "client_codec \<Rightarrow> bytes \<Rightarrow> uint64" where
  "echoed cc data = (case cb_Envelope cc data of Inl _ \<Rightarrow> 0 | Inr envelope \<Rightarrow> if ce_MessageId envelope = 0 then 0 else ce_RequestId envelope)"

text \<open>A grant of the user center for the payload of a login or of a refresh.\<close>

definition authenticated_as :: "('st, 'w) gateway_env \<Rightarrow> dispatch_input \<Rightarrow> ClientMessageId \<Rightarrow> bytes \<Rightarrow> ('st, 'w) gateway \<Rightarrow> AuthenticationGrant \<Rightarrow>
    CircuitBreaker option \<Rightarrow> 'w \<Rightarrow> bool" where
  "authenticated_as E i messageID payload gw g b w \<longleftrightarrow>
     messageID = MessageLoginRequest \<and> AuthenticateLogin (ge_codec E) (authenticator E) (di_request i) payload (gw_breaker gw, gw_world gw) = (Inr g, b, w)
   \<or> messageID = MessageRefreshLoginRequest \<and> RefreshLogin (ge_codec E) (authenticator E) (di_request i) payload (gw_breaker gw, gw_world gw) = (Inr g, b, w)"

lemma with_sessions_same: "m = gw_sessions gw \<Longrightarrow> with_sessions cc m gw = gw"
  by (simp add: with_sessions_def)

lemma establish_cases:
  assumes "establish E i connectionID requestID messageID con g gw = (e, gw')" "conn_of gw connectionID = Some c"
  obtains (refused) gw1 err m w where "conn_of gw1 connectionID = Some c"
      "gw1 = with_sessions (ge_client_codec E) m (gw\<lparr>gw_world := w\<rparr>)" "preempts connectionID (gw_sessions gw) m"
      "gateway_send (ge_client_codec E) connectionID MessageErrorResponse requestID '''' (CErrorResponse err) gw1 = (e, gw')"
    | (bound) playerID w created m where "EnsurePlayer (ge_codec E) (Some (ge_clients E ''lobby'')) (ag_AccountID g) (gw_world gw) = (Inr playerID, w)"
      "Manager_Create (ge_store E) (ge_hash E) (di_sid i) (di_token i) (ag_AccountID g) connectionID (di_now i) [playerID] (gw_sessions gw) = (Inr created, m)"
      "gateway_send (ge_client_codec E) connectionID messageID requestID (r_SessionID (c_Record created)) (con (loginResponse created g))
        (start_restore connectionID (c_Record created) Map.empty
          (bind_session connectionID (c_Record created) (with_sessions (ge_client_codec E) m (gw\<lparr>gw_world := w\<rparr>)))) = (e, gw')"
proof (cases "EnsurePlayer (ge_codec E) (Some (ge_clients E ''lobby'')) (ag_AccountID g) (gw_world gw)")
  case (Pair p w)
  show thesis
  proof (cases p)
    case (Inl err)
    show thesis by (rule refused [where ?gw1.0 = "gw\<lparr>gw_world := w\<rparr>" and m = "gw_sessions gw" and w = w])
      (use assms Pair Inl in \<open>simp_all add: establish_def sendMappedError_def sendPublicError_def with_sessions_same preempts_same\<close>)
  next
    case (Inr playerID)
    obtain res m where m: "Manager_Create (ge_store E) (ge_hash E) (di_sid i) (di_token i) (ag_AccountID g) connectionID (di_now i) [playerID] (gw_sessions gw) = (res, m)"
      by fastforce
    have same: "conn_of (with_sessions (ge_client_codec E) m (gw\<lparr>gw_world := w\<rparr>)) connectionID = Some c"
      using with_sessions_other [of connectionID "gw\<lparr>gw_world := w\<rparr>" m] Create_preempted [OF m] assms(2) by simp
    show thesis
    proof (cases res)
      case (Inl err)
      show thesis by (rule refused [OF same refl Create_preempted [OF m]]) (use assms(1) Pair Inr m Inl in \<open>simp add: establish_def sendMappedError_def sendPublicError_def\<close>)
    next
      case (Inr created)
      show thesis by (rule bound) (use assms(1) Pair \<open>p = Inr playerID\<close> m Inr in \<open>simp_all add: establish_def\<close>)
    qed
  qed
qed

lemma dispatch_cases:
  assumes "Dispatch E i connectionID data gw = (e, gw')" "conn_of gw connectionID = Some c"
  obtains (refused) gw1 err m b w where "conn_of gw1 connectionID = Some c"
      "gw1 = with_sessions (ge_client_codec E) m (gw\<lparr>gw_breaker := b, gw_world := w\<rparr>)" "preempts connectionID (gw_sessions gw) m"
      "gateway_send (ge_client_codec E) connectionID MessageErrorResponse (echoed (ge_client_codec E) data) '''' (CErrorResponse err) gw1 = (e, gw')"
    | (login) envelope g b w playerID w' created m messageID con where "cb_Envelope (ge_client_codec E) data = Inr envelope"
      "authenticated_as E i (ce_MessageId envelope) (ce_Payload envelope) gw g b w"
      "EnsurePlayer (ge_codec E) (Some (ge_clients E ''lobby'')) (ag_AccountID g) w = (Inr playerID, w')"
      "Manager_Create (ge_store E) (ge_hash E) (di_sid i) (di_token i) (ag_AccountID g) connectionID (di_now i) [playerID] (gw_sessions gw) = (Inr created, m)"
      "messageID = MessageLoginResponse \<and> con = CLoginResponse \<or> messageID = MessageRefreshLoginResponse \<and> con = CRefreshLoginResponse"
      "gateway_send (ge_client_codec E) connectionID messageID (echoed (ge_client_codec E) data) (r_SessionID (c_Record created)) (con (loginResponse created g))
        (start_restore connectionID (c_Record created) Map.empty
          (bind_session connectionID (c_Record created) (with_sessions (ge_client_codec E) m (gw\<lparr>gw_breaker := b, gw_world := w'\<rparr>)))) = (e, gw')"
    | (resume) envelope request created m where "cb_Envelope (ge_client_codec E) data = Inr envelope" "ce_MessageId envelope = MessageResumeRequest"
      "cb_ResumeRequest (ge_client_codec E) (ce_Payload envelope) = Inr request" "rr_SessionId request \<noteq> ''''" "rr_ResumeToken request \<noteq> ''''"
      "Resume (ge_store E) (ge_hash E) (di_token i) (rr_SessionId request) (rr_ResumeToken request) connectionID (di_now i) (gw_sessions gw) = (Inr created, m)"
      "gateway_send (ge_client_codec E) connectionID MessageResumeResponse (echoed (ge_client_codec E) data) (r_SessionID (c_Record created)) (CResumeResponse (resumeResponse created))
        (start_restore connectionID (c_Record created) (rr_StateVersions request)
          (bind_session connectionID (c_Record created) (with_sessions (ge_client_codec E) m gw))) = (e, gw')"
proof -
  have same_gw: "gw = with_sessions (ge_client_codec E) (gw_sessions gw) (gw\<lparr>gw_breaker := gw_breaker gw, gw_world := gw_world gw\<rparr>)"
    "preempts connectionID (gw_sessions gw) (gw_sessions gw)" by (simp_all add: with_sessions_same preempts_same)
  show thesis
  proof (cases "cb_Envelope (ge_client_codec E) data")
    case (Inl err)
    show thesis by (rule refused [OF assms(2) same_gw]) (use assms(1) Inl in \<open>simp add: Dispatch_def echoed_def sendKnownError_def sendPublicError_def\<close>)
  next
    case (Inr envelope)
    note env = Inr
    consider "ce_MessageId envelope = 0" | "ce_MessageId envelope = MessageLoginRequest" | "ce_MessageId envelope = MessageResumeRequest"
      | "ce_MessageId envelope = MessageRefreshLoginRequest" | "ce_MessageId envelope \<notin> {0, MessageLoginRequest, MessageResumeRequest, MessageRefreshLoginRequest}" by blast
    then show thesis
    proof cases
      case 1
      show thesis by (rule refused [OF assms(2) same_gw]) (use assms(1) env 1 in \<open>simp add: Dispatch_def echoed_def sendKnownError_def sendPublicError_def\<close>)
    next
      case 2
      have d: "login E i connectionID envelope gw = (e, gw')" "echoed (ge_client_codec E) data = ce_RequestId envelope"
        using assms(1) env 2 by (simp_all add: Dispatch_def echoed_def client_message_ids)
      obtain res b w where a: "AuthenticateLogin (ge_codec E) (authenticator E) (di_request i) (ce_Payload envelope) (gw_breaker gw, gw_world gw) = (res, b, w)"
        by (metis prod.collapse)
      show thesis
      proof (cases res)
        case (Inl err)
        show thesis by (rule refused [where ?gw1.0 = "gw\<lparr>gw_breaker := b, gw_world := w\<rparr>" and m = "gw_sessions gw" and b = b and w = w])
          (use assms(2) d a Inl in \<open>simp_all add: login_def sendMappedError_def sendPublicError_def with_sessions_same preempts_same\<close>)
      next
        case (Inr g)
        then have est: "establish E i connectionID (ce_RequestId envelope) MessageLoginResponse CLoginResponse g (gw\<lparr>gw_breaker := b, gw_world := w\<rparr>) = (e, gw')"
          using d(1) a by (simp add: login_def)
        have c1: "conn_of (gw\<lparr>gw_breaker := b, gw_world := w\<rparr>) connectionID = Some c" using assms(2) by simp
        show thesis
        proof (rule establish_cases [OF est c1], goal_cases)
          case (1 gw1 err m w')
          then show thesis using that(1) [of gw1 m w' b err] d(2) by simp
        next
          case (2 playerID w' created m)
          then show thesis using that(2) [OF env, of g b w playerID w' created m MessageLoginResponse CLoginResponse] a Inr \<open>ce_MessageId envelope = MessageLoginRequest\<close> d(2)
            by (simp add: authenticated_as_def)
        qed
      qed
    next
      case 3
      have d: "gateway_resume E i connectionID envelope gw = (e, gw')" "echoed (ge_client_codec E) data = ce_RequestId envelope"
        using assms(1) env 3 by (simp_all add: Dispatch_def echoed_def client_message_ids)
      show thesis
      proof (cases "cb_ResumeRequest (ge_client_codec E) (ce_Payload envelope)")
        case (Inl err)
        show thesis by (rule refused [OF assms(2) same_gw]) (use d Inl in \<open>simp add: gateway_resume_def sendKnownError_def sendPublicError_def\<close>)
      next
        case (Inr request)
        note req = Inr
        show thesis
        proof (cases "rr_SessionId request = '''' \<or> rr_ResumeToken request = ''''")
          case True
          show thesis by (rule refused [OF assms(2) same_gw]) (use d req True in \<open>simp add: gateway_resume_def sendKnownError_def sendPublicError_def\<close>)
        next
          case False
          obtain res m where m: "Resume (ge_store E) (ge_hash E) (di_token i) (rr_SessionId request) (rr_ResumeToken request) connectionID (di_now i) (gw_sessions gw) = (res, m)"
            by fastforce
          have same: "conn_of (with_sessions (ge_client_codec E) m gw) connectionID = Some c"
            using with_sessions_other [OF Resume_preempted [OF m]] assms(2) by simp
          have with_gw: "with_sessions (ge_client_codec E) m gw = with_sessions (ge_client_codec E) m (gw\<lparr>gw_breaker := gw_breaker gw, gw_world := gw_world gw\<rparr>)" by simp
          show thesis
          proof (cases res)
            case (Inl err)
            show thesis by (rule refused [OF same with_gw Resume_preempted [OF m]]) (use d req False m Inl in \<open>simp add: gateway_resume_def sendMappedError_def sendPublicError_def\<close>)
          next
            case (Inr created)
            show thesis by (rule resume [OF env 3 req]) (use d False m req Inr in \<open>simp_all add: gateway_resume_def\<close>)
          qed
        qed
      qed
    next
      case 4
      have d: "refreshLogin E i connectionID envelope gw = (e, gw')" "echoed (ge_client_codec E) data = ce_RequestId envelope"
        using assms(1) env 4 by (simp_all add: Dispatch_def echoed_def client_message_ids)
      obtain res b w where a: "RefreshLogin (ge_codec E) (authenticator E) (di_request i) (ce_Payload envelope) (gw_breaker gw, gw_world gw) = (res, b, w)"
        by (metis prod.collapse)
      show thesis
      proof (cases res)
        case (Inl err)
        show thesis by (rule refused [where ?gw1.0 = "gw\<lparr>gw_breaker := b, gw_world := w\<rparr>" and m = "gw_sessions gw" and b = b and w = w])
          (use assms(2) d a Inl in \<open>simp_all add: refreshLogin_def sendMappedError_def sendPublicError_def with_sessions_same preempts_same\<close>)
      next
        case (Inr g)
        then have est: "establish E i connectionID (ce_RequestId envelope) MessageRefreshLoginResponse CRefreshLoginResponse g (gw\<lparr>gw_breaker := b, gw_world := w\<rparr>) = (e, gw')"
          using d(1) a by (simp add: refreshLogin_def)
        have c1: "conn_of (gw\<lparr>gw_breaker := b, gw_world := w\<rparr>) connectionID = Some c" using assms(2) by simp
        show thesis
        proof (rule establish_cases [OF est c1], goal_cases)
          case (1 gw1 err m w')
          then show thesis using that(1) [of gw1 m w' b err] d(2) by simp
        next
          case (2 playerID w' created m)
          then show thesis using that(2) [OF env, of g b w playerID w' created m MessageRefreshLoginResponse CRefreshLoginResponse] a Inr \<open>ce_MessageId envelope = MessageRefreshLoginRequest\<close> d(2)
            by (simp add: authenticated_as_def)
        qed
      qed
    next
      case 5
      show thesis by (rule refused [OF assms(2) same_gw]) (use assms(1) env 5 in \<open>simp add: Dispatch_def echoed_def sendKnownError_def sendPublicError_def\<close>)
    qed
  qed
qed

end
