(* ===== verification/Gateway_Props.thy ===== *)
theory Gateway_Props
  imports Gateway_Dispatch Session_Props Codec_Table
begin

text \<open>The properties of the gateway's connections and of the messages it dispatches.\<close>

section \<open>A gateway for one login\<close>

definition gw_grant :: TokenGrant where
  "gw_grant = \<lparr>tg_AccountId = ''acc'', tg_RefreshToken = ''r'', tg_RefreshTokenExpireAtUnix = 5\<rparr>"

definition gw_codec :: codec where
  "gw_codec = tableCodec [MClientLoginAuthenticateRequest [], MClientLoginAuthenticateResponse (Some gw_grant),
     MEnsurePlayerRequest \<lparr>eq_AccountId = ''acc''\<rparr>, MEnsurePlayerResponse \<lparr>ep_AccountId = ''acc'', ep_PlayerId = ''p'', ep_Created = True\<rparr>]"

text \<open>A client codec whose only envelope is a login request.\<close>

definition gw_client_codec :: client_codec where
  "gw_client_codec = \<lparr>cb_Marshal = (\<lambda>_. Inr [1]),
     cb_Envelope = (\<lambda>_. Inr \<lparr>ce_MessageId = MessageLoginRequest, ce_RequestId = 9, ce_SessionId = '''', ce_Payload = []\<rparr>),
     cb_ResumeRequest = (\<lambda>_. Inl (NewError ''proto: cannot parse''))\<rparr>"

definition gw_peer :: "string \<Rightarrow> unit \<Rightarrow> unit requester option" where
  "gw_peer name w =
     (if name = ''usercenter'' then Some (\<lambda>x u. (Inr (emptyEnvelope\<lparr>en_Kind := ENVELOPE_KIND_RESPONSE, en_Payload := [0, 0]\<rparr>), u))
      else if name = ''lobby'' then Some (\<lambda>x u. (Inr (emptyEnvelope\<lparr>en_Kind := ENVELOPE_KIND_RESPONSE, en_Payload := [0, 0, 0, 0]\<rparr>), u))
      else None)"

definition gw_env :: "(MemoryStore, unit) gateway_env" where
  "gw_env = \<lparr>ge_codec = gw_codec, ge_client_codec = gw_client_codec, ge_store = memoryStore sorted_keys, ge_hash = (\<lambda>t. t), ge_clients = gw_peer,
     ge_retry = \<lparr>rp_MaxAttempts = 1, rp_InitialDelay = 0, rp_MaxDelay = 0, rp_ShouldRetry = None, rp_Observer = False\<rparr>\<rparr>"

definition gw_input :: dispatch_input where
  "gw_input = \<lparr>di_request = \<lparr>qe_done = (\<lambda>_. None), qe_since = (\<lambda>_. 0), qe_t0 = 0, qe_t1 = 0\<rparr>, di_now = 100, di_sid = Inr ''s1'', di_token = Inr ''t1''\<rparr>"

definition gw_start :: "CircuitBreaker option \<Rightarrow> (MemoryStore, unit) gateway" where
  "gw_start b = \<lparr>gw_handler = NewHandler\<lparr>hn_connections := [''c1'' \<mapsto> new_connection ''c1'']\<rparr>,
     gw_sessions = NewManager NewMemoryStore ''g1'' 1000 10, gw_breaker = b, gw_world = (), gw_published = [], gw_restores = []\<rparr>"

lemma gw_marshal:
  "pb_Marshal gw_codec (MClientLoginAuthenticateRequest []) = Inr [0]"
  "pb_Marshal gw_codec (MEnsurePlayerRequest \<lparr>eq_AccountId = ''acc''\<rparr>) = Inr [0, 0, 0]"
  "pb_ClientLoginAuthenticateResponse gw_codec [0, 0] = Inr (Some gw_grant)"
  "pb_EnsurePlayerResponse gw_codec [0, 0, 0, 0] = Inr \<lparr>ep_AccountId = ''acc'', ep_PlayerId = ''p'', ep_Created = True\<rparr>"
  by (simp_all add: gw_codec_def tableCodec_def decode_as_def entry_def)

lemma gw_auth:
  "AuthenticateLogin gw_codec (authenticator gw_env) (di_request gw_input) [] (None, ()) =
     (Inr \<lparr>ag_AccountID = ''acc'', ag_RefreshToken = ''r'', ag_RefreshTokenExpireAt = timeUnix 5\<rparr>, None, ())"
  by (simp add: AuthenticateLogin_def gw_marshal auth_request_def authenticator_def gw_env_def ExecuteClassified_def retried_def Do_def
      retry_loop.simps normalize_def attempt_def gw_peer_def observe_def checkResponse_def envelope_kinds authenticationGrantFromProto_def gw_grant_def
      gw_input_def Let_def)

lemma gw_player: "EnsurePlayer gw_codec (Some (gw_peer ''lobby'')) ''acc'' () = (Inr ''p'', ())"
  by (simp add: EnsurePlayer_def gw_marshal gw_peer_def envelope_kinds)

lemma gw_created:
  "\<exists>created m. Manager_Create (memoryStore sorted_keys) (\<lambda>t. t) (Inr ''s1'') (Inr ''t1'') ''acc'' ''c1'' 100 [''p''] (NewManager NewMemoryStore ''g1'' 1000 10) = (Inr created, m)
     \<and> r_SessionID (c_Record created) = ''s1'' \<and> r_ConnectionEpoch (c_Record created) = 1 \<and> m_preempted m = []"
  by (simp add: Manager_Create_def NewManager_def NewMemoryStore_def memoryStore_def [of sorted_keys] MemoryStore_Create_def claimAccount_def
      MemoryStore_ClaimAccount_def notifyPreempted_def Let_def)

lemma gw_login:
  obtains gw' where "Dispatch gw_env gw_input ''c1'' [7] (gw_start None) = (None, gw')"
    "conn_of gw' ''c1'' = Some ((new_connection ''c1'')\<lparr>cx_send := [[1]], cx_sessionID := ''s1'', cx_sessionEpoch := 1\<rparr>)"
proof -
  obtain created m where m: "Manager_Create (memoryStore sorted_keys) (\<lambda>t. t) (Inr ''s1'') (Inr ''t1'') ''acc'' ''c1'' 100 [''p''] (NewManager NewMemoryStore ''g1'' 1000 10) = (Inr created, m)"
    "r_SessionID (c_Record created) = ''s1''" "r_ConnectionEpoch (c_Record created) = 1" "m_preempted m = []" using gw_created by blast
  have "\<exists>gw'. Dispatch gw_env gw_input ''c1'' [7] (gw_start None) = (None, gw')
      \<and> conn_of gw' ''c1'' = Some ((new_connection ''c1'')\<lparr>cx_send := [[1]], cx_sessionID := ''s1'', cx_sessionEpoch := 1\<rparr>)"
    using m gw_auth gw_player
    by (simp add: Dispatch_def gw_env_def gw_client_codec_def gw_start_def login_def establish_def gw_input_def with_sessions_def
        bind_session_def start_restore_def gateway_send_def Connection_Send_def sendBuffer_def new_connection_def BindSession_def client_message_ids Let_def)
  then show thesis using that by blast
qed

lemma gw_start_conn: "conn_of (gw_start b) ''c1'' = Some (new_connection ''c1'')"
  by (simp add: gw_start_def)

text \<open>The same gateway with a second connection, on which the account is logged in.\<close>

definition gw_record :: Record where
  "gw_record = \<lparr>r_SessionID = ''s0'', r_AccountID = ''acc'', r_PlayerID = ''p'', r_GatewayInstanceID = ''g1'', r_ConnectionID = ''c2'',
     r_ConnectionEpoch = 1, r_State = StateAuthenticated, r_ResumeTokenHash = ''t0'', r_ExpireAt = 1000\<rparr>"

definition gw_bound :: Connection where
  "gw_bound = (new_connection ''c2'')\<lparr>cx_sessionID := ''s0'', cx_sessionEpoch := 1\<rparr>"

definition gw_two :: "(MemoryStore, unit) gateway" where
  "gw_two = (gw_start None)\<lparr>gw_handler := NewHandler\<lparr>hn_connections := [''c1'' \<mapsto> new_connection ''c1'', ''c2'' \<mapsto> gw_bound]\<rparr>,
     gw_sessions := (NewManager NewMemoryStore ''g1'' 1000 10)\<lparr>m_store := [''s0'' \<mapsto> gw_record], m_preempt := True, m_lifecycle := True\<rparr>\<rparr>"

lemma gw_two_simps:
  "conn_of gw_two ''c1'' = Some (new_connection ''c1'')" "conn_of gw_two ''c2'' = Some gw_bound" "m_store (gw_sessions gw_two) = [''s0'' \<mapsto> gw_record]"
  "m_preempt (gw_sessions gw_two)" "m_lifecycle (gw_sessions gw_two)" "gw_published gw_two = []" "hn_closing (gw_handler gw_two) = []"
  by (simp_all add: gw_two_def gw_start_def NewManager_def NewHandler_def)

section \<open>Bound connections\<close>

lemma login_binds:
  assumes "conn_of gw connectionID = Some c" "Manager_Create S H sid tok accountID connectionID now players (gw_sessions gw) = (Inr created, m)"
  shows "conn_of (start_restore connectionID (c_Record created) v (bind_session connectionID (c_Record created)
      (with_sessions cc m (gw\<lparr>gw_breaker := b, gw_world := w\<rparr>)))) connectionID =
    Some (BindSession (r_SessionID (c_Record created)) [r_ConnectionEpoch (c_Record created)] c)"
  using with_sessions_other [of connectionID "gw\<lparr>gw_breaker := b, gw_world := w\<rparr>" m cc] Create_preempted [OF assms(2)] assms(1) by simp

lemma resume_binds:
  assumes "conn_of gw connectionID = Some c" "Resume S H tok sessionID token connectionID now (gw_sessions gw) = (Inr created, m)"
  shows "conn_of (start_restore connectionID (c_Record created) v (bind_session connectionID (c_Record created)
      (with_sessions cc m gw))) connectionID = Some (BindSession (r_SessionID (c_Record created)) [r_ConnectionEpoch (c_Record created)] c)"
  using with_sessions_other [OF Resume_preempted [OF assms(2)], of cc] assms(1) by simp

text \<open>A reply leaves the session of the connection alone.\<close>

lemma send_keeps_binding:
  assumes "gateway_send cc i messageID requestID sessionID message gw = (e, gw')" "conn_of gw i = Some c" "conn_of gw' i = Some c'"
  shows "cx_sessionID c' = cx_sessionID c" "cx_sessionEpoch c' = cx_sessionEpoch c"
  by (cases rule: gateway_send_cases [OF assms(1,2)]; use assms in simp; auto)+

section \<open>Other connections\<close>

text \<open>What the preempt handler does to the connection of a record.\<close>

definition preempt_event :: "client_codec \<Rightarrow> Record \<Rightarrow> bytes option" where
  "preempt_event cc record =
     (case cb_Marshal cc (CSessionPreemptedEvent \<lparr>pv_SessionId = r_SessionID record, pv_ConnectionEpoch = r_ConnectionEpoch record,
        pv_Reason = ''connection was superseded by a newer login''\<rparr>) of
        Inl _ \<Rightarrow> None | Inr payload \<Rightarrow> Some (marshalGatewayEvent cc SESSION_PREEMPTED_EVENT (r_SessionID record) payload))"

definition superseded :: "client_codec \<Rightarrow> Record \<Rightarrow> Connection \<Rightarrow> Connection" where
  "superseded cc record c = (case preempt_event cc record of None \<Rightarrow> c | Some event \<Rightarrow> snd (Connection_Send event c))"

lemma Preempt_bound:
  assumes "hn_connections h (r_ConnectionID r) = Some d" "preemptsConnection r d"
  shows "hn_connections (Preempt cc r h) = (hn_connections h)(r_ConnectionID r \<mapsto> superseded cc r d)"
    "hn_closing (Preempt cc r h) = hn_closing h @ [r_ConnectionID r]"
  using assms by (simp_all add: Preempt_def superseded_def preempt_event_def Let_def split: sum.splits)

lemma with_sessions_frame [simp]:
  "gw_sessions (with_sessions cc m gw) = m" "gw_published (with_sessions cc m gw) = gw_published gw @ drop (length (m_preempted (gw_sessions gw))) (m_preempted m)"
proof -
  have "gw_sessions (fold (preempt_handler cc) rs g) = gw_sessions g \<and> gw_published (fold (preempt_handler cc) rs g) = gw_published g @ rs"
    for rs and g :: "('a, 'b) gateway"
    by (induction rs arbitrary: g) (simp_all add: preempt_handler_def)
  then show "gw_sessions (with_sessions cc m gw) = m"
    "gw_published (with_sessions cc m gw) = gw_published gw @ drop (length (m_preempted (gw_sessions gw))) (m_preempted m)"
    by (simp_all add: with_sessions_def)
qed

lemma with_sessions_conn:
  assumes "preempts i (gw_sessions gw) m" "conn_of gw j = Some d"
  shows "conn_of (with_sessions cc m gw) j = Some d
    \<or> (\<exists>r. m_preempted m = m_preempted (gw_sessions gw) @ [r] \<and> r_ConnectionID r = j \<and> preemptsConnection r d
         \<and> conn_of (with_sessions cc m gw) j = Some (superseded cc r d) \<and> hn_closing (gw_handler (with_sessions cc m gw)) = hn_closing (gw_handler gw) @ [j])"
proof -
  obtain rs where rs: "m_preempted m = m_preempted (gw_sessions gw) @ rs" "length rs \<le> 1" using assms(1) by (auto simp: preempts_def)
  show ?thesis
  proof (cases rs)
    case Nil
    then show ?thesis using rs assms(2) by (simp add: with_sessions_def)
  next
    case (Cons r rest)
    then have w: "with_sessions cc m gw = preempt_handler cc r (gw\<lparr>gw_sessions := m\<rparr>)" and one: "m_preempted m = m_preempted (gw_sessions gw) @ [r]"
      using rs by (simp_all add: with_sessions_def)
    consider "r_ConnectionID r \<noteq> j" | "r_ConnectionID r = j" "\<not> preemptsConnection r d" | "r_ConnectionID r = j" "preemptsConnection r d" by blast
    then show ?thesis
    proof cases
      case 1
      then show ?thesis unfolding w using preempt_handler_other [of j r cc "gw\<lparr>gw_sessions := m\<rparr>"] assms(2) by simp
    next
      case 2
      then show ?thesis unfolding w using assms(2) by (simp add: preempt_handler_def Preempt_unbound)
    next
      case 3
      then show ?thesis unfolding w one using assms(2) Preempt_bound [of "gw_handler gw" r d cc] by (simp add: preempt_handler_def)
    qed
  qed
qed

text \<open>A reply touches the connection it is sent on, and nothing but its buffer.\<close>

lemma send_frame:
  assumes "gateway_send cc i messageID requestID sessionID message gw = (e, gw')" "conn_of gw i = Some c"
  shows "j \<noteq> i \<Longrightarrow> conn_of gw' j = conn_of gw j" "hn_closing (gw_handler gw') = hn_closing (gw_handler gw)" "gw_sessions gw' = gw_sessions gw"
    "gw_published gw' = gw_published gw" "gw_restores gw' = gw_restores gw"
  by (cases rule: gateway_send_cases [OF assms]; simp)+

lemma bind_frame [simp]:
  "hn_closing (gw_handler (bind_session i r gw)) = hn_closing (gw_handler gw)" "gw_published (bind_session i r gw) = gw_published gw"
  "gw_published (start_restore i r v gw) = gw_published gw"
  by (simp_all add: bind_session_def start_restore_def)

text \<open>Everything that a message changes beside its own connection, it changes through the session manager.\<close>

lemma dispatch_via_sessions:
  assumes "Dispatch E i connectionID data gw = (e, gw')" "conn_of gw connectionID = Some c"
  obtains m b w where "preempts connectionID (gw_sessions gw) m" "gw_sessions gw' = m"
    "\<And>j. j \<noteq> connectionID \<Longrightarrow> conn_of gw' j = conn_of (with_sessions (ge_client_codec E) m (gw\<lparr>gw_breaker := b, gw_world := w\<rparr>)) j"
    "hn_closing (gw_handler gw') = hn_closing (gw_handler (with_sessions (ge_client_codec E) m (gw\<lparr>gw_breaker := b, gw_world := w\<rparr>)))"
    "gw_published gw' = gw_published gw @ drop (length (m_preempted (gw_sessions gw))) (m_preempted m)"
proof -
  show thesis
  proof (rule dispatch_cases [OF assms], goal_cases)
    case (1 gw1 err m b w)
    show thesis by (rule that [OF 1(3), of w b]) (use send_frame [OF 1(4,1)] 1(2) in simp_all)
  next
    case (2 envelope g b w playerID w' created m messageID con)
    note f = send_frame [OF 2(6) login_binds [OF assms(2) 2(4)]]
    show thesis by (rule that [OF Create_preempted [OF 2(4)], of w' b]) (use f in simp_all)
  next
    case (3 envelope request created m)
    note f = send_frame [OF 3(7) resume_binds [OF assms(2) 3(6)]]
    show thesis by (rule that [OF Resume_preempted [OF 3(6)], of "gw_world gw" "gw_breaker gw"]) (use f in simp_all)
  qed
qed

section \<open>Logins\<close>




section \<open>Properties\<close>



text \<open>
  C5: A websocket connection is bound to a session only on a proof of identity.  When a message changes the session or the epoch of the
  connection that sent it, the new ones are those of a session that the session manager has just created for the account which the user
  center granted for the message's credentials and for the player the lobby resolved, or of one it has just resumed for the session and the
  token of the message.
\<close>

theorem bound_only_when_authenticated:
  assumes "Dispatch E i connectionID data gw = (e, gw')" "conn_of gw connectionID = Some c" "conn_of gw' connectionID = Some c'"
    and "cx_sessionID c' \<noteq> cx_sessionID c \<or> cx_sessionEpoch c' \<noteq> cx_sessionEpoch c"
  shows "\<exists>envelope created m. cb_Envelope (ge_client_codec E) data = Inr envelope
    \<and> cx_sessionID c' = r_SessionID (c_Record created) \<and> cx_sessionEpoch c' = r_ConnectionEpoch (c_Record created)
    \<and> ((\<exists>g b w playerID w'. authenticated_as E i (ce_MessageId envelope) (ce_Payload envelope) gw g b w
          \<and> EnsurePlayer (ge_codec E) (Some (ge_clients E ''lobby'')) (ag_AccountID g) w = (Inr playerID, w')
          \<and> Manager_Create (ge_store E) (ge_hash E) (di_sid i) (di_token i) (ag_AccountID g) connectionID (di_now i) [playerID] (gw_sessions gw) = (Inr created, m))
      \<or> (\<exists>request. cb_ResumeRequest (ge_client_codec E) (ce_Payload envelope) = Inr request
          \<and> Resume (ge_store E) (ge_hash E) (di_token i) (rr_SessionId request) (rr_ResumeToken request) connectionID (di_now i) (gw_sessions gw) = (Inr created, m)))"
proof (rule dispatch_cases [OF assms(1,2)], goal_cases)
  case (1 gw1 err m b w)
  then show ?case using send_keeps_binding [OF 1(4,1) assms(3)] assms(4) by blast
next
  case (2 envelope g b w playerID w' created m messageID con)
  have "cx_sessionID c' = r_SessionID (c_Record created)" "cx_sessionEpoch c' = r_ConnectionEpoch (c_Record created)"
    using send_keeps_binding [OF 2(6) login_binds [OF assms(2) 2(4)] assms(3)] by simp_all
  then show ?case using 2(1-4) by blast
next
  case (3 envelope request created m)
  have "cx_sessionID c' = r_SessionID (c_Record created)" "cx_sessionEpoch c' = r_ConnectionEpoch (c_Record created)"
    using send_keeps_binding [OF 3(7) resume_binds [OF assms(2) 3(6)] assms(3)] by simp_all
  then show ?case using 3(1,3,6) by blast
qed

theorem bound_only_when_authenticated_witness:
  "\<exists>gw' created m. Dispatch gw_env gw_input ''c1'' [7] (gw_start None) = (None, gw') \<and> r_SessionID (c_Record created) = ''s1''
     \<and> (\<exists>g b w playerID w'. authenticated_as gw_env gw_input MessageLoginRequest [] (gw_start None) g b w
          \<and> EnsurePlayer (ge_codec gw_env) (Some (ge_clients gw_env ''lobby'')) (ag_AccountID g) w = (Inr playerID, w')
          \<and> Manager_Create (ge_store gw_env) (ge_hash gw_env) (di_sid gw_input) (di_token gw_input) (ag_AccountID g) ''c1'' (di_now gw_input) [playerID]
               (gw_sessions (gw_start None)) = (Inr created, m))"
proof -
  obtain gw' where d: "Dispatch gw_env gw_input ''c1'' [7] (gw_start None) = (None, gw')"
    "conn_of gw' ''c1'' = Some ((new_connection ''c1'')\<lparr>cx_send := [[1]], cx_sessionID := ''s1'', cx_sessionEpoch := 1\<rparr>)" by (rule gw_login)
  have env: "cb_Envelope (ge_client_codec gw_env) [7] = Inr \<lparr>ce_MessageId = MessageLoginRequest, ce_RequestId = 9, ce_SessionId = '''', ce_Payload = []\<rparr>"
    "cb_ResumeRequest (ge_client_codec gw_env) p = Inl (NewError ''proto: cannot parse'')" for p
    by (simp_all add: gw_env_def gw_client_codec_def)
  from bound_only_when_authenticated [OF d(1) gw_start_conn d(2)] d(1) env show ?thesis by (fastforce simp: new_connection_def)
qed

text \<open>
  C18: One connection's messages do not disturb another.  Dispatching a message leaves every other connection of the gateway as it is, except
  that it supersedes at most one: the connection of the record that the session manager preempted, and only if that connection is still bound to
  the record's session and epoch.  Then the connection is sent the preempted event, is scheduled to be closed, and the record is published
  once for the other gateways.
\<close>

theorem others_undisturbed:
  assumes "Dispatch E i connectionID data gw = (e, gw')" "conn_of gw connectionID = Some c" "j \<noteq> connectionID" "conn_of gw j = Some d"
  shows "conn_of gw' j = Some d
    \<or> (\<exists>r. m_preempted (gw_sessions gw') = m_preempted (gw_sessions gw) @ [r] \<and> gw_published gw' = gw_published gw @ [r]
         \<and> r_ConnectionID r = j \<and> preemptsConnection r d \<and> conn_of gw' j = Some (superseded (ge_client_codec E) r d)
         \<and> hn_closing (gw_handler gw') = hn_closing (gw_handler gw) @ [j])"
proof -
  obtain m b w where m: "preempts connectionID (gw_sessions gw) m" "gw_sessions gw' = m"
    "\<And>j. j \<noteq> connectionID \<Longrightarrow> conn_of gw' j = conn_of (with_sessions (ge_client_codec E) m (gw\<lparr>gw_breaker := b, gw_world := w\<rparr>)) j"
    "hn_closing (gw_handler gw') = hn_closing (gw_handler (with_sessions (ge_client_codec E) m (gw\<lparr>gw_breaker := b, gw_world := w\<rparr>)))"
    "gw_published gw' = gw_published gw @ drop (length (m_preempted (gw_sessions gw))) (m_preempted m)"
    by (rule dispatch_via_sessions [OF assms(1,2)], rule that)
  show ?thesis using with_sessions_conn [of connectionID "gw\<lparr>gw_breaker := b, gw_world := w\<rparr>" m j d "ge_client_codec E"] m assms(3,4) by auto
qed

theorem others_undisturbed_witness:
  "\<exists>e gw'. Dispatch gw_env gw_input ''c1'' [7] gw_two = (e, gw')
     \<and> (conn_of gw' ''c2'' = Some gw_bound \<or> (\<exists>r. r_ConnectionID r = ''c2'' \<and> preemptsConnection r gw_bound \<and> hn_closing (gw_handler gw') = [''c2'']))"
proof (cases "Dispatch gw_env gw_input ''c1'' [7] gw_two")
  case (Pair e gw')
  from others_undisturbed [OF Pair gw_two_simps(1) _ gw_two_simps(2)] Pair show ?thesis by (auto simp: gw_two_simps)
qed





text \<open>
  C39: An open circuit is reported as bad credentials.  While the circuit breaker of the user center is open, every login is answered with the code of a failed
  authentication, which is not retryable and tells no time to wait, although the user center was never asked: the error of the open circuit is
  none of those that the error mapper maps to an unavailable service.
\<close>

theorem open_circuit_refuses_login:
  assumes "cb_Envelope (ge_client_codec E) data = Inr envelope" "ce_MessageId envelope = MessageLoginRequest"
    and "gw_breaker gw = Some b" "cb_state b = CircuitStateOpen" "qe_t0 (di_request i) < cb_openUntil b"
    and "pb_Marshal (ge_codec E) (MClientLoginAuthenticateRequest (ce_Payload envelope)) = Inr bs"
  shows "Dispatch E i connectionID data gw = gateway_send (ge_client_codec E) connectionID MessageErrorResponse (ce_RequestId envelope) ''''
    (CErrorResponse \<lparr>er_Code = ErrorAuthentication, er_Message = ''authentication failed'', er_Retryable = False, er_RetryAfterMillis = 0\<rparr>) gw"
proof -
  have a: "AuthenticateLogin (ge_codec E) (authenticator E) (di_request i) (ce_Payload envelope) (gw_breaker gw, gw_world gw) =
      (Inl (Sentinel ErrCircuitOpen), gw_breaker gw, gw_world gw)"
    using auth_request_open [of "authenticator E" b "di_request i" CLIENT_LOGIN_AUTHENTICATE_REQUEST bs "gw_world gw"] assms(3-6)
    by (simp add: AuthenticateLogin_def authenticator_def)
  have map: "PublicError_Response (ErrorMapper_Map (Sentinel ErrCircuitOpen) ErrorAuthentication ''authentication failed'') =
      \<lparr>er_Code = ErrorAuthentication, er_Message = ''authentication failed'', er_Retryable = False, er_RetryAfterMillis = 0\<rparr>"
    by (simp add: ErrorMapper_Map_def unavailableError_def sessionError_def PublicError_Response_def ErrorMapper_Known_def Let_def Milliseconds_def gateway_errors)
  have "gw\<lparr>gw_breaker := gw_breaker gw, gw_world := gw_world gw\<rparr> = gw" by simp
  then show ?thesis using assms(1,2) a map
    by (simp add: Dispatch_def login_def sendMappedError_def sendPublicError_def client_message_ids)
qed

theorem open_circuit_refuses_login_witness:
  "\<exists>b. cb_state b = CircuitStateOpen \<and> Dispatch gw_env gw_input ''c1'' [7] (gw_start (Some b)) = gateway_send gw_client_codec ''c1'' MessageErrorResponse 9 ''''
     (CErrorResponse \<lparr>er_Code = ErrorAuthentication, er_Message = ''authentication failed'', er_Retryable = False, er_RetryAfterMillis = 0\<rparr>) (gw_start (Some b))"
proof -
  let ?b = "(NewCircuitBreaker 1 10 False)\<lparr>cb_state := CircuitStateOpen, cb_openUntil := 50\<rparr>"
  have m: "pb_Marshal (ge_codec gw_env) (MClientLoginAuthenticateRequest
      (ce_Payload \<lparr>ce_MessageId = MessageLoginRequest, ce_RequestId = 9, ce_SessionId = '''', ce_Payload = []\<rparr>)) = Inr [0]"
    using gw_marshal(1) by (simp add: gw_env_def)
  have e: "cb_Envelope (ge_client_codec gw_env) [7] = Inr \<lparr>ce_MessageId = MessageLoginRequest, ce_RequestId = 9, ce_SessionId = '''', ce_Payload = []\<rparr>"
    by (simp add: gw_env_def gw_client_codec_def)
  have "Dispatch gw_env gw_input ''c1'' [7] (gw_start (Some ?b)) = gateway_send (ge_client_codec gw_env) ''c1'' MessageErrorResponse 9 ''''
     (CErrorResponse \<lparr>er_Code = ErrorAuthentication, er_Message = ''authentication failed'', er_Retryable = False, er_RetryAfterMillis = 0\<rparr>) (gw_start (Some ?b))"
    using open_circuit_refuses_login [OF e _ _ _ _ m, of "gw_start (Some ?b)" ?b gw_input "''c1''"] by (simp add: gw_start_def gw_input_def)
  then show ?thesis by (intro exI [of _ ?b]) (simp add: gw_env_def)
qed



end
