(* ===== verification/Md_Nodes.thy ===== *)
theory Md_Nodes
  imports Go_Prelude "HOL-Library.Sublist"
begin

text \<open>
  Dirty tracking of documents (\<^verbatim>\<open>src/services/common/repository/dbmodel/md\<close>): the root of a document collects the paths of the nodes that were saved,
  to be written with \<^verbatim>\<open>$set\<close>, and lists and maps of nodes give their nodes paths.  A node holds a pointer to its data; the type of pointers is a parameter, so
  that a path in the root stands for what the pointer holds when the update is written.  Which fields of a struct are nodes is found by reflection and is not
  modelled: the nodes inside the data of a node are those that the caller names.
\<close>

section \<open>The root\<close>

text \<open>\<^verbatim>\<open>strings.HasPrefix(q, fmt.Sprintf("%s.", p))\<close>: \<open>q\<close> is a path inside \<open>p\<close>.\<close>

definition below :: "string \<Rightarrow> string \<Rightarrow> bool" where
  "below p q \<longleftrightarrow> prefix (p @ ''.'') q"

record 'd NodeRoot =
  dirtyNode :: "string \<rightharpoonup> 'd"

definition ResetDirty :: "'d NodeRoot \<Rightarrow> 'd NodeRoot" where
  "ResetDirty r = r\<lparr>dirtyNode := Map.empty\<rparr>"

definition DirtyData :: "'d NodeRoot \<Rightarrow> string \<rightharpoonup> 'd" where
  "DirtyData r = dirtyNode r"

text \<open>The loop over the map in the order \<open>ks\<close>: \<open>None\<close> when it returns from the function.\<close>

fun collect :: "string \<Rightarrow> string list \<Rightarrow> string list \<Rightarrow> string list option" where
  "collect path [] toDeletePath = Some toDeletePath"
| "collect path (p # ks) toDeletePath =
     (if p = path then collect path ks (toDeletePath @ [p])
      else if below p path then None
      else if below path p then collect path ks (toDeletePath @ [p])
      else collect path ks toDeletePath)"

text \<open>\<open>None\<close> is the panic on an empty path.\<close>

definition NodeRoot_addDirty :: "((string \<rightharpoonup> 'd) \<Rightarrow> string list) \<Rightarrow> string \<Rightarrow> 'd \<Rightarrow> 'd NodeRoot \<Rightarrow> 'd NodeRoot option" where
  "NodeRoot_addDirty it path data r =
     (if path = '''' then None
      else (case collect path (it (dirtyNode r)) [] of
         None \<Rightarrow> Some r
       | Some toDeletePath \<Rightarrow> Some (r\<lparr>dirtyNode := (fold (\<lambda>p m. m(p := None)) toDeletePath (dirtyNode r))(path \<mapsto> data)\<rparr>)))"

section \<open>Nodes\<close>

text \<open>A \<^verbatim>\<open>NodeParent\<close>: the root, or a node with its own path and parent.\<close>

datatype NodeParent = Root | Parent string NodeParent

fun addDirty :: "((string \<rightharpoonup> 'd) \<Rightarrow> string list) \<Rightarrow> NodeParent \<Rightarrow> string \<Rightarrow> 'd \<Rightarrow> 'd NodeRoot \<Rightarrow> 'd NodeRoot option" where
  "addDirty it Root path data r = NodeRoot_addDirty it path data r"
| "addDirty it (Parent p parent) path data r = addDirty it parent (p @ ''.'' @ path) data r"

text \<open>A node: \<open>None\<close> is the nil parent of a node that was not initialised.\<close>

record 'd Node =
  nd_data :: 'd
  nd_parent :: "NodeParent option"
  nd_path :: string

definition NewNode :: "'d \<Rightarrow> 'd Node" where
  "NewNode data = \<lparr>nd_data = data, nd_parent = None, nd_path = ''''\<rparr>"

definition Node_Save :: "((string \<rightharpoonup> 'd) \<Rightarrow> string list) \<Rightarrow> 'd Node \<Rightarrow> 'd NodeRoot \<Rightarrow> 'd NodeRoot option" where
  "Node_Save it n r = (case nd_parent n of None \<Rightarrow> None | Some parent \<Rightarrow> addDirty it parent (nd_path n) (nd_data n) r)"

definition Node_init :: "NodeParent \<Rightarrow> string \<Rightarrow> 'd Node \<Rightarrow> 'd Node" where
  "Node_init parent path n = n\<lparr>nd_parent := Some parent, nd_path := path\<rparr>"

section \<open>Lists\<close>

text \<open>\<open>ml_schema\<close> is the tag name of the list's schema, \<open>None\<close> before \<open>init\<close>.\<close>

record 'd MList =
  ml_nodes :: "'d Node list"
  ml_parent :: NodeParent
  ml_schema :: "string option"

definition NewList :: "'d MList" where
  "NewList = \<lparr>ml_nodes = [], ml_parent = Root, ml_schema = None\<rparr>"

definition item_path :: "string \<Rightarrow> nat \<Rightarrow> string" where
  "item_path tag i = tag @ ''.'' @ show_nat i"

definition List_initNode :: "'d MList \<Rightarrow> string \<Rightarrow> nat \<Rightarrow> 'd Node \<Rightarrow> 'd Node" where
  "List_initNode l tag i n = Node_init (ml_parent l) (item_path tag i) n"

definition List_init :: "NodeParent \<Rightarrow> string \<Rightarrow> 'd MList \<Rightarrow> 'd MList" where
  "List_init parent tag l =
     (let l' = l\<lparr>ml_parent := parent, ml_schema := Some tag\<rparr>
      in l'\<lparr>ml_nodes := map (\<lambda>(i, n). List_initNode l' tag i n) (enumerate 0 (ml_nodes l'))\<rparr>)"

text \<open>\<open>setupNode\<close> on a list: \<^verbatim>\<open>parent.(Noder)\<close> panics when the parent is the root.\<close>

definition setupNode_list :: "NodeParent \<Rightarrow> string \<Rightarrow> 'd MList \<Rightarrow> 'd MList option" where
  "setupNode_list parent tag l = (case parent of Root \<Rightarrow> None | Parent _ _ \<Rightarrow> Some (List_init parent tag l))"

text \<open>The node of a new element, which is saved when the list has a schema.\<close>

definition new_item :: "((string \<rightharpoonup> 'd) \<Rightarrow> string list) \<Rightarrow> 'd MList \<Rightarrow> nat \<Rightarrow> 'd \<Rightarrow> 'd NodeRoot \<Rightarrow> ('d Node \<times> 'd NodeRoot) option" where
  "new_item it l i data r =
     (case ml_schema l of
        None \<Rightarrow> Some (NewNode data, r)
      | Some tag \<Rightarrow>
          let n = List_initNode l tag i (NewNode data)
          in case Node_Save it n r of None \<Rightarrow> None | Some r' \<Rightarrow> Some (n, r'))"

definition List_Update :: "((string \<rightharpoonup> 'd) \<Rightarrow> string list) \<Rightarrow> nat \<Rightarrow> 'd \<Rightarrow> 'd MList \<times> 'd NodeRoot \<Rightarrow> ('d MList \<times> 'd NodeRoot) option" where
  "List_Update it idx data = (\<lambda>(l, r).
     (case new_item it l idx data r of
        None \<Rightarrow> None
      | Some (n, r') \<Rightarrow> if idx < length (ml_nodes l) then Some (l\<lparr>ml_nodes := (ml_nodes l)[idx := n]\<rparr>, r') else None))"

fun List_Append :: "((string \<rightharpoonup> 'd) \<Rightarrow> string list) \<Rightarrow> 'd list \<Rightarrow> 'd MList \<times> 'd NodeRoot \<Rightarrow> ('d MList \<times> 'd NodeRoot) option" where
  "List_Append it [] (l, r) = Some (l, r)"
| "List_Append it (data # datas) (l, r) =
     (case new_item it l (length (ml_nodes l)) data r of
        None \<Rightarrow> None
      | Some (n, r') \<Rightarrow> List_Append it datas (l\<lparr>ml_nodes := ml_nodes l @ [n]\<rparr>, r'))"

fun find_node :: "('d Node \<Rightarrow> bool) \<Rightarrow> 'd Node list \<Rightarrow> nat \<Rightarrow> int \<times> 'd Node option" where
  "find_node f [] i = (-1, None)"
| "find_node f (n # ns) i = (if f n then (int i, Some n) else find_node f ns (Suc i))"

definition List_Find :: "('d Node \<Rightarrow> bool) \<Rightarrow> 'd MList \<Rightarrow> int \<times> 'd Node option" where
  "List_Find f l = find_node f (ml_nodes l) 0"

definition List_Data2 :: "'d MList \<Rightarrow> 'd list" where
  "List_Data2 l = map nd_data (ml_nodes l)"

text \<open>\<^verbatim>\<open>append(list.nodes[:idx], list.nodes[idx+1:]...)\<close>, with a panic out of range.\<close>

definition List_Delete :: "nat \<Rightarrow> 'd MList \<Rightarrow> 'd MList option" where
  "List_Delete idx l =
     (if idx < length (ml_nodes l) then Some (l\<lparr>ml_nodes := take idx (ml_nodes l) @ drop (Suc idx) (ml_nodes l)\<rparr>) else None)"

fun delete_loop :: "nat list \<Rightarrow> 'd MList \<Rightarrow> 'd MList option" where
  "delete_loop [] l = Some l"
| "delete_loop (idx # idxs) l = (case List_Delete idx l of None \<Rightarrow> None | Some l' \<Rightarrow> delete_loop idxs l')"

definition List_DeleteMore :: "nat list \<Rightarrow> 'd MList \<Rightarrow> 'd MList option" where
  "List_DeleteMore idxs l = delete_loop (rev (sort idxs)) l"

section \<open>Maps\<close>

text \<open>\<open>show\<close> is \<^verbatim>\<open>fmt.Sprint\<close> on keys.\<close>

record ('k, 'd) MMap =
  mm_data :: "'k \<rightharpoonup> 'd Node"
  mm_parent :: NodeParent
  mm_schema :: "string option"

definition Map_initNode :: "('k \<Rightarrow> string) \<Rightarrow> ('k, 'd) MMap \<Rightarrow> string \<Rightarrow> 'k \<Rightarrow> 'd Node \<Rightarrow> 'd Node" where
  "Map_initNode sprint mp tag k n = Node_init (mm_parent mp) (tag @ ''.'' @ sprint k) n"

definition Map_Set :: "('k \<Rightarrow> string) \<Rightarrow> ((string \<rightharpoonup> 'd) \<Rightarrow> string list) \<Rightarrow> 'k \<Rightarrow> 'd \<Rightarrow> ('k, 'd) MMap \<times> 'd NodeRoot \<Rightarrow>
    (('k, 'd) MMap \<times> 'd NodeRoot) option" where
  "Map_Set sprint it k v = (\<lambda>(mp, r).
     (case mm_schema mp of
        None \<Rightarrow> Some (mp\<lparr>mm_data := (mm_data mp)(k \<mapsto> NewNode v)\<rparr>, r)
      | Some tag \<Rightarrow>
          let n = Map_initNode sprint mp tag k (NewNode v)
          in case Node_Save it n r of None \<Rightarrow> None | Some r' \<Rightarrow> Some (mp\<lparr>mm_data := (mm_data mp)(k \<mapsto> n)\<rparr>, r')))"

definition Map_init :: "('k \<Rightarrow> string) \<Rightarrow> NodeParent \<Rightarrow> string \<Rightarrow> ('k, 'd) MMap \<Rightarrow> ('k, 'd) MMap" where
  "Map_init sprint parent tag mp =
     (let mp' = mp\<lparr>mm_parent := parent, mm_schema := Some tag\<rparr>
      in mp'\<lparr>mm_data := (\<lambda>k. map_option (Map_initNode sprint mp' tag k) (mm_data mp' k))\<rparr>)"

definition setupNode_map :: "('k \<Rightarrow> string) \<Rightarrow> NodeParent \<Rightarrow> string \<Rightarrow> ('k, 'd) MMap \<Rightarrow> ('k, 'd) MMap option" where
  "setupNode_map sprint parent tag mp = (case parent of Root \<Rightarrow> None | Parent _ _ \<Rightarrow> Some (Map_init sprint parent tag mp))"

definition Map_Delete :: "'k \<Rightarrow> ('k, 'd) MMap \<Rightarrow> ('k, 'd) MMap" where
  "Map_Delete k mp = mp\<lparr>mm_data := (mm_data mp)(k := None)\<rparr>"

definition Map_Clear :: "('k, 'd) MMap \<Rightarrow> ('k, 'd) MMap" where
  "Map_Clear mp = mp\<lparr>mm_data := Map.empty\<rparr>"

section \<open>Paths\<close>

lemma below_iff: "below p q \<longleftrightarrow> (\<exists>x. q = p @ ''.'' @ x)"
  by (auto simp: below_def prefix_def)

lemma below_irrefl [simp]: "\<not> below p p"
  by (auto simp: below_iff)

lemma below_trans: "below p q \<Longrightarrow> below q s \<Longrightarrow> below p s"
  by (auto simp: below_iff)

lemma below_asym: "below p q \<Longrightarrow> \<not> below q p"
  using below_trans below_irrefl by blast

text \<open>The paths that contain a path are nested.\<close>

lemma below_linear:
  assumes "below p s" "below q s"
  shows "p = q \<or> below p q \<or> below q p"
proof -
  have "prefix (p @ ''.'') (q @ ''.'') \<or> prefix (q @ ''.'') (p @ ''.'')" using assms prefix_same_cases unfolding below_def by blast
  moreover have "a = b \<or> below a b" if "prefix (a @ ''.'') (b @ ''.'')" for a b
    using that by (auto simp: below_def)
  ultimately show ?thesis by blast
qed

section \<open>What the root collects\<close>

text \<open>No path of an update lies inside another, which the server would refuse.\<close>

definition conflict_free :: "'d NodeRoot \<Rightarrow> bool" where
  "conflict_free r \<longleftrightarrow> (\<forall>p \<in> dom (dirtyNode r). \<forall>q \<in> dom (dirtyNode r). \<not> below p q)"

lemma collect_None: "collect path ks acc = None \<longleftrightarrow> (\<exists>p \<in> set ks. p \<noteq> path \<and> below p path)"
  by (induction ks arbitrary: acc) auto

lemma collect_Some: "collect path ks acc = Some del \<Longrightarrow> set del = set acc \<union> {p \<in> set ks. p = path \<or> below path p}"
  by (induction ks arbitrary: acc) (auto split: if_splits)

lemma fold_delete: "fold (\<lambda>p m. m(p := None)) ps m = (\<lambda>q. if q \<in> set ps then None else m q)"
  by (induction ps arbitrary: m) auto

text \<open>What \<open>addDirty\<close> does, whatever the order in which the map is visited.\<close>

lemma addDirty_cases:
  assumes "NodeRoot_addDirty it path data r = Some r'" "iterates (dirtyNode r) (it (dirtyNode r))"
  obtains (inside) p where "p \<in> dom (dirtyNode r)" "below p path" "r' = r"
    | (added) "\<forall>p \<in> dom (dirtyNode r). \<not> below p path" "path \<noteq> ''''"
      "dirtyNode r' = (\<lambda>q. if q = path then Some data else if below path q then None else dirtyNode r q)"
proof -
  note ks = iterates_set [OF assms(2)]
  have ne: "path \<noteq> ''''" using assms(1) by (auto simp: NodeRoot_addDirty_def)
  show thesis
  proof (cases "collect path (it (dirtyNode r)) []")
    case None
    then obtain p where "p \<in> dom (dirtyNode r)" "below p path" using collect_None ks by metis
    moreover have "r' = r" using assms(1) None ne by (simp add: NodeRoot_addDirty_def)
    ultimately show thesis by (rule inside)
  next
    case (Some del)
    have no: "\<forall>p \<in> dom (dirtyNode r). \<not> below p path"
    proof
      fix p
      assume "p \<in> dom (dirtyNode r)"
      then show "\<not> below p path" using collect_None [of path "it (dirtyNode r)" "[]"] Some ks by (cases "p = path") auto
    qed
    have r': "dirtyNode r' = (fold (\<lambda>p m. m(p := None)) del (dirtyNode r))(path \<mapsto> data)"
      using assms(1) Some ne by (auto simp: NodeRoot_addDirty_def)
    have del: "set del = {p \<in> dom (dirtyNode r). p = path \<or> below path p}" using collect_Some [OF Some] ks by simp
    have "dirtyNode r' = (\<lambda>q. if q = path then Some data else if below path q then None else dirtyNode r q)"
      unfolding r' fold_delete del by (rule ext) auto
    then show thesis by (rule added [OF no ne])
  qed
qed

text \<open>A root after a sequence of saves, each with its own order of iteration.\<close>

inductive saved :: "(string \<times> 'd) list \<Rightarrow> 'd NodeRoot \<Rightarrow> bool" where
  s_new: "saved [] (ResetDirty r)"
| s_save: "saved h r \<Longrightarrow> iterates (dirtyNode r) (it (dirtyNode r)) \<Longrightarrow> NodeRoot_addDirty it path data r = Some r' \<Longrightarrow> saved (h @ [(path, data)]) r'"

text \<open>The data last saved under a path.\<close>

definition last_saved :: "(string \<times> 'd) list \<Rightarrow> string \<rightharpoonup> 'd" where
  "last_saved h = map_of (rev h)"

definition covers :: "(string \<times> 'd) list \<Rightarrow> 'd NodeRoot \<Rightarrow> bool" where
  "covers h r \<longleftrightarrow> (\<forall>p \<in> fst ` set h. \<exists>q \<in> dom (dirtyNode r). q = p \<or> below q p)"

lemma conflict_freeD: "conflict_free r \<Longrightarrow> p \<in> dom (dirtyNode r) \<Longrightarrow> q \<in> dom (dirtyNode r) \<Longrightarrow> \<not> below p q"
  by (simp add: conflict_free_def)

lemma saved_inv:
  "saved h r \<Longrightarrow> conflict_free r \<and> covers h r \<and> (\<forall>p d. dirtyNode r p = Some d \<longrightarrow> last_saved h p = Some d)"
proof (induction rule: saved.induct)
  case (s_new r)
  then show ?case by (simp add: conflict_free_def covers_def ResetDirty_def)
next
  case (s_save h r it path data r')
  then have cf: "conflict_free r" and cv: "covers h r" and ls: "\<And>p d. dirtyNode r p = Some d \<Longrightarrow> last_saved h p = Some d" by blast+
  show ?case using s_save.hyps(3,2)
  proof (cases rule: addDirty_cases)
    case (inside p)
    have "path \<notin> dom (dirtyNode r)" using conflict_freeD [OF cf inside(1)] inside(2) by blast
    then have "last_saved (h @ [(path, data)]) q = Some d" if "dirtyNode r q = Some d" for q d
      using ls [OF that] that by (auto simp: last_saved_def)
    moreover have "covers (h @ [(path, data)]) r" using cv inside(1,2) by (auto simp: covers_def)
    ultimately show ?thesis using cf inside(3) by blast
  next
    case added
    have dom: "q = path \<or> q \<in> dom (dirtyNode r) \<and> \<not> below path q" if "q \<in> dom (dirtyNode r')" for q
      using that added(3) by (auto split: if_splits)
    have "\<not> below p q" if p: "p \<in> dom (dirtyNode r')" and q: "q \<in> dom (dirtyNode r')" for p q
      using dom [OF p] dom [OF q] added(1) conflict_freeD [OF cf] by auto
    then have "conflict_free r'" by (simp add: conflict_free_def)
    moreover have "covers (h @ [(path, data)]) r'" unfolding covers_def
    proof
      fix p
      assume "p \<in> fst ` set (h @ [(path, data)])"
      then consider "p = path" | "p \<in> fst ` set h" by auto
      then show "\<exists>q \<in> dom (dirtyNode r'). q = p \<or> below q p"
      proof cases
        case 1
        then show ?thesis using added(3) by (auto intro!: bexI [of _ path])
      next
        case 2
        then obtain q where q: "q \<in> dom (dirtyNode r)" "q = p \<or> below q p" using cv unfolding covers_def by blast
        show ?thesis
        proof (cases "q = path \<or> below path q")
          case True
          then have "path = p \<or> below path p" using q(2) below_trans by blast
          then show ?thesis using added(3) by (auto intro!: bexI [of _ path])
        next
          case False
          then have "q \<in> dom (dirtyNode r')" using q(1) added(3) by auto
          then show ?thesis using q(2) by blast
        qed
      qed
    qed
    moreover have "last_saved (h @ [(path, data)]) q = Some d" if "dirtyNode r' q = Some d" for q d
      using that added(3) ls [of q d] by (auto simp: last_saved_def split: if_splits)
    ultimately show ?thesis by blast
  qed
qed

section \<open>Nodes and lists\<close>

text \<open>The path from the root.\<close>

fun full_path :: "NodeParent \<Rightarrow> string \<Rightarrow> string" where
  "full_path Root path = path"
| "full_path (Parent p parent) path = full_path parent (p @ ''.'' @ path)"

lemma addDirty_full: "addDirty it parent path data r = NodeRoot_addDirty it (full_path parent path) data r"
  by (induction parent arbitrary: path) simp_all

lemma Save_full: "nd_parent n = Some parent \<Longrightarrow> Node_Save it n r = NodeRoot_addDirty it (full_path parent (nd_path n)) (nd_data n) r"
  by (simp add: Node_Save_def addDirty_full)

text \<open>In an initialised list the node at an index has the path of that index.\<close>

definition aligned :: "'d MList \<Rightarrow> bool" where
  "aligned l \<longleftrightarrow> (\<forall>tag i. ml_schema l = Some tag \<longrightarrow> i < length (ml_nodes l) \<longrightarrow>
     nd_parent (ml_nodes l ! i) = Some (ml_parent l) \<and> nd_path (ml_nodes l ! i) = item_path tag i)"

lemma aligned_init: "aligned (List_init parent tag l)"
  by (simp add: aligned_def List_init_def List_initNode_def Node_init_def Let_def nth_enumerate_eq)

lemma new_item_path:
  "new_item it l i data r = Some (n, r') \<Longrightarrow> ml_schema l = Some tag \<Longrightarrow> nd_parent n = Some (ml_parent l) \<and> nd_path n = item_path tag i"
  by (auto simp: new_item_def List_initNode_def Node_init_def Let_def split: option.splits)

lemma aligned_Update:
  assumes "aligned l" "List_Update it idx data (l, r) = Some (l', r')"
  shows "aligned l'"
proof -
  obtain n where n: "new_item it l idx data r = Some (n, r')" "l' = l\<lparr>ml_nodes := (ml_nodes l)[idx := n]\<rparr>" "idx < length (ml_nodes l)"
    using assms(2) by (auto simp: List_Update_def split: option.splits if_splits)
  then show ?thesis using assms(1) new_item_path [OF n(1)] by (auto simp: aligned_def nth_list_update)
qed

lemma aligned_Append:
  "aligned l \<Longrightarrow> List_Append it datas (l, r) = Some (l', r') \<Longrightarrow> aligned l'"
proof (induction datas arbitrary: l r)
  case (Cons data datas)
  then obtain n r1 where n: "new_item it l (length (ml_nodes l)) data r = Some (n, r1)"
    "List_Append it datas (l\<lparr>ml_nodes := ml_nodes l @ [n]\<rparr>, r1) = Some (l', r')"
    by (auto split: option.splits)
  have "aligned (l\<lparr>ml_nodes := ml_nodes l @ [n]\<rparr>)"
    using Cons.prems(1) new_item_path [OF n(1)] by (auto simp: aligned_def nth_append less_Suc_eq)
  then show ?case using Cons.IH n(2) by blast
qed simp

lemma Append_data: "List_Append it datas (l, r) = Some (l', r') \<Longrightarrow> List_Data2 l' = List_Data2 l @ datas"
proof (induction datas arbitrary: l r)
  case (Cons data datas)
  then obtain n r1 where n: "new_item it l (length (ml_nodes l)) data r = Some (n, r1)"
    "List_Append it datas (l\<lparr>ml_nodes := ml_nodes l @ [n]\<rparr>, r1) = Some (l', r')"
    by (auto split: option.splits)
  have "nd_data n = data" using n(1) by (auto simp: new_item_def List_initNode_def Node_init_def NewNode_def Let_def split: option.splits)
  then show ?case using Cons.IH [OF n(2)] by (simp add: List_Data2_def)
qed simp

lemma delete_loop_nths:
  assumes "sorted_wrt (>) idxs" "\<forall>i \<in> set idxs. i < length (ml_nodes l)"
  shows "delete_loop idxs l = Some (l\<lparr>ml_nodes := nths (ml_nodes l) (- set idxs)\<rparr>)"
  using assms
proof (induction idxs arbitrary: l)
  case Nil
  then show ?case by (simp add: nths_all)
next
  case (Cons idx idxs)
  let ?xs = "ml_nodes l"
  have lt: "\<forall>i \<in> set idxs. i < idx" using Cons.prems(1) by simp
  have len: "idx < length ?xs" using Cons.prems(2) by simp
  define ys where "ys = take idx ?xs @ drop (Suc idx) ?xs"
  have "\<forall>i \<in> set idxs. i < length ys" using lt len unfolding ys_def by auto
  then have "delete_loop idxs (l\<lparr>ml_nodes := ys\<rparr>) = Some (l\<lparr>ml_nodes := nths ys (- set idxs)\<rparr>)"
    using Cons.IH [of "l\<lparr>ml_nodes := ys\<rparr>"] Cons.prems(1) by simp
  moreover have "nths ys (- set idxs) = nths ?xs (- set (idx # idxs))"
  proof -
    have tail: "nths zs {j. j + idx \<in> - set idxs} = zs" for zs :: "'a Node list"
      using lt by (intro nths_all) auto
    have "nths ys (- set idxs) = nths (take idx ?xs) (- set idxs) @ drop (Suc idx) ?xs"
      using nths_append [of "take idx ?xs" "drop (Suc idx) ?xs" "- set idxs"] tail len unfolding ys_def by (simp add: min_def)
    moreover have "nths ?xs (- set (idx # idxs)) = nths (take idx ?xs) (- set (idx # idxs)) @ nths (drop idx ?xs) {j. j + idx \<in> - set (idx # idxs)}"
      using nths_append [of "take idx ?xs" "drop idx ?xs" "- set (idx # idxs)"] len by (simp add: min_def)
    moreover have "nths (take idx ?xs) (- set (idx # idxs)) = nths (take idx ?xs) (- set idxs)"
      unfolding nths_def by (rule arg_cong [where f = "map fst"], rule filter_cong) (auto dest!: set_zip_rightD)
    moreover have "nths (drop idx ?xs) {j. j + idx \<in> - set (idx # idxs)} = drop (Suc idx) ?xs"
      using len lt by (simp add: Cons_nth_drop_Suc [symmetric] nths_Cons) (rule nths_all, auto)
    ultimately show ?thesis by simp
  qed
  ultimately show ?case using len by (simp add: List_Delete_def ys_def)
qed

text \<open>\<open>DeleteMore\<close> removes exactly the given positions, whatever their order.\<close>

lemma DeleteMore_exact:
  assumes "distinct idxs" "\<forall>i \<in> set idxs. i < length (ml_nodes l)"
  shows "List_DeleteMore idxs l = Some (l\<lparr>ml_nodes := nths (ml_nodes l) (- set idxs)\<rparr>)"
proof -
  have "sorted_wrt (<) (sort idxs)" using assms(1) by (simp add: strict_sorted_iff)
  then have "sorted_wrt (>) (rev (sort idxs))" by (simp add: sorted_wrt_rev)
  then show ?thesis using delete_loop_nths [of "rev (sort idxs)" l] assms(2) by (simp add: List_DeleteMore_def)
qed

text \<open>
  After a deletion the nodes behind it keep their old paths: saving the node at an index marks the path of the next index as dirty, with this node's data.
  The deletion itself marks nothing.
\<close>

lemma delete_misplaces_saves:
  assumes "aligned l" "ml_schema l = Some tag" "List_Delete idx l = Some l'" "idx \<le> i" "i < length (ml_nodes l')"
  shows "Node_Save it (ml_nodes l' ! i) r = NodeRoot_addDirty it (full_path (ml_parent l') (item_path tag (Suc i))) (nd_data (ml_nodes l' ! i)) r"
proof -
  have l': "l' = l\<lparr>ml_nodes := take idx (ml_nodes l) @ drop (Suc idx) (ml_nodes l)\<rparr>" "idx < length (ml_nodes l)"
    using assms(3) by (auto simp: List_Delete_def split: if_splits)
  then have n: "ml_nodes l' ! i = ml_nodes l ! Suc i" "Suc i < length (ml_nodes l)"
    using assms(4,5) by (simp_all add: nth_append min_def)
  then have "nd_parent (ml_nodes l' ! i) = Some (ml_parent l)" "nd_path (ml_nodes l' ! i) = item_path tag (Suc i)"
    using assms(1,2) by (simp_all add: aligned_def)
  then show ?thesis by (simp add: Save_full l'(1))
qed

lemma list_under_root: "setupNode_list Root tag l = None" "setupNode_map sprint Root tag mp = None"
  by (simp_all add: setupNode_list_def setupNode_map_def)

section \<open>Properties\<close>

text \<open>
  C38: The update that is written is complete and free of conflicts.  After any sequence of saves of nodes, in whatever order the map is visited each time, no
  dirty path lies inside another, every saved path is dirty or lies inside a dirty path, and every dirty path holds the data last saved under it.
\<close>

theorem dirty_update_complete:
  assumes "saved h r"
  shows "conflict_free r \<and> covers h r \<and> (\<forall>p d. DirtyData r p = Some d \<longrightarrow> last_saved h p = Some d)"
  using saved_inv [OF assms] by (simp add: DirtyData_def)

theorem dirty_update_complete_witness:
  "\<exists>r. saved [(''bag.0'', 1 :: nat), (''name'', 2), (''bag'', 3), (''bag.1'', 4)] r \<and> dirtyNode r = [''name'' \<mapsto> 2, ''bag'' \<mapsto> 3]
     \<and> conflict_free r \<and> covers [(''bag.0'', 1), (''name'', 2), (''bag'', 3), (''bag.1'', 4)] r"
proof -
  let ?r = "\<lambda>m. \<lparr>dirtyNode = m\<rparr> :: nat NodeRoot"
  have step: "saved (h @ [(p, d)]) (?r m')"
    if "saved h (?r m)" "distinct ks" "set ks = dom m" "NodeRoot_addDirty (\<lambda>_. ks) p d (?r m) = Some (?r m')" for h p d m ks m'
    by (rule s_save [OF that(1) _ that(4)]) (simp add: iterates_def that)
  have 0: "saved [] (?r Map.empty)" using s_new [of "?r Map.empty"] by (simp add: ResetDirty_def)
  have 1: "saved [(''bag.0'', 1)] (?r [''bag.0'' \<mapsto> 1])"
    using step [OF 0, of "[]" "''bag.0''" 1] by (simp add: NodeRoot_addDirty_def)
  have 2: "saved [(''bag.0'', 1), (''name'', 2)] (?r [''bag.0'' \<mapsto> 1, ''name'' \<mapsto> 2])"
    using step [OF 1, of "[''bag.0'']" "''name''" 2] by (simp add: NodeRoot_addDirty_def below_def)
  have 3: "saved [(''bag.0'', 1), (''name'', 2), (''bag'', 3)] (?r [''name'' \<mapsto> 2, ''bag'' \<mapsto> 3])"
    using step [OF 2, of "[''bag.0'', ''name'']" "''bag''" 3 "[''name'' \<mapsto> 2, ''bag'' \<mapsto> 3]"]
    by (auto simp: NodeRoot_addDirty_def below_def fun_eq_iff)
  have 4: "saved [(''bag.0'', 1), (''name'', 2), (''bag'', 3), (''bag.1'', 4)] (?r [''name'' \<mapsto> 2, ''bag'' \<mapsto> 3])"
    using step [OF 3, of "[''name'', ''bag'']" "''bag.1''" 4 "[''name'' \<mapsto> 2, ''bag'' \<mapsto> 3]"]
    by (auto simp: NodeRoot_addDirty_def below_def)
  show ?thesis using dirty_update_complete [OF 4] 4 by (intro exI [of _ "?r [''name'' \<mapsto> 2, ''bag'' \<mapsto> 3]"]) simp
qed

end
