(* ===== verification/Token_Bucket.thy ===== *)
theory Token_Bucket
  imports Go_Prelude Complex_Main
begin

text \<open>
  The rate limiter (\<^verbatim>\<open>src/common/reliability/token_bucket.go\<close>).  Its numbers are finite \<^verbatim>\<open>float64\<close> values: reals, with \<open>fl\<close> the rounding to the nearest
  value, of which \<open>float64_rounding\<close> states what the floating-point standard promises
  for values in the range of the format; every operation rounds its result, as on a machine without a fused multiply-add.  A call takes the reading of its clock; the mutex makes it atomic.  The
  observer is told the decision a call returns, and counts it; a bucket is what \<open>NewTokenBucket\<close> made, never a nil pointer.
\<close>

section \<open>Rounding\<close>

definition float64_rounding :: "(real \<Rightarrow> real) \<Rightarrow> bool" where
  "float64_rounding fl \<longleftrightarrow> mono fl \<and> (\<forall>x. fl (fl x) = fl x) \<and> (\<forall>n. \<bar>n\<bar> \<le> 2 ^ 53 \<longrightarrow> fl (of_int n) = of_int n)
     \<and> (\<forall>x. fl x = x \<longrightarrow> 1 \<le> x \<longrightarrow> x \<le> 2 ^ 53 \<longrightarrow> fl (x - 1) = x - 1)"

lemma rounding_mono: "float64_rounding fl \<Longrightarrow> x \<le> y \<Longrightarrow> fl x \<le> fl y"
  by (simp add: float64_rounding_def monoD)

lemma rounding_idem [simp]: "float64_rounding fl \<Longrightarrow> fl (fl x) = fl x"
  by (simp add: float64_rounding_def)

lemma rounding_int: "float64_rounding fl \<Longrightarrow> \<bar>n\<bar> \<le> 2 ^ 53 \<Longrightarrow> fl (of_int n) = of_int n"
  by (simp add: float64_rounding_def)

lemma rounding_0: "float64_rounding fl \<Longrightarrow> fl 0 = 0"
  using rounding_int [of fl 0] by simp

lemma rounding_1: "float64_rounding fl \<Longrightarrow> fl 1 = 1"
  using rounding_int [of fl 1] by simp

lemma rounding_nonneg: "float64_rounding fl \<Longrightarrow> 0 \<le> x \<Longrightarrow> 0 \<le> fl x"
  using rounding_mono [of fl 0 x] rounding_0 [of fl] by simp

section \<open>The bucket\<close>

record TokenBucket =
  tk_capacity :: real
  tk_rate :: real
  tk_tokens :: real
  tk_last :: gotime

definition NewTokenBucket :: "(real \<Rightarrow> real) \<Rightarrow> int \<Rightarrow> real \<Rightarrow> gotime \<Rightarrow> TokenBucket" where
  "NewTokenBucket fl capacity refillPerSecond now =
     (let capacity' = (if capacity < 1 then 1 else capacity);
          rate = (if refillPerSecond \<le> 0 then fl (of_int capacity') else refillPerSecond)
      in \<lparr>tk_capacity = fl (of_int capacity'), tk_rate = rate, tk_tokens = fl (of_int capacity'), tk_last = now\<rparr>)"

text \<open>\<^verbatim>\<open>d.Seconds()\<close> of a duration that is not negative.\<close>

definition Seconds :: "(real \<Rightarrow> real) \<Rightarrow> duration \<Rightarrow> real" where
  "Seconds fl d = fl (fl (of_int (d div Second)) + fl (fl (of_int (d mod Second)) / 1000000000))"

definition refill :: "(real \<Rightarrow> real) \<Rightarrow> gotime \<Rightarrow> TokenBucket \<Rightarrow> TokenBucket" where
  "refill fl now b =
     (if tk_last b < now then
        let tokens = fl (tk_tokens b + fl (Seconds fl (Sub now (tk_last b)) * tk_rate b))
        in b\<lparr>tk_tokens := (if tokens > tk_capacity b then tk_capacity b else tokens), tk_last := now\<rparr>
      else b)"

definition AllowN :: "(real \<Rightarrow> real) \<Rightarrow> int \<Rightarrow> gotime \<Rightarrow> TokenBucket \<Rightarrow> bool \<times> TokenBucket" where
  "AllowN fl n now b =
     (if n \<le> 0 then (True, b)
      else
        let b' = refill fl now b;
            allowed = tk_tokens b' \<ge> fl (of_int n)
        in (allowed, if allowed then b'\<lparr>tk_tokens := fl (tk_tokens b' - fl (of_int n))\<rparr> else b'))"

definition Allow :: "(real \<Rightarrow> real) \<Rightarrow> gotime \<Rightarrow> TokenBucket \<Rightarrow> bool \<times> TokenBucket" where
  "Allow fl now b = AllowN fl 1 now b"

text \<open>
  \<open>Wait\<close>, with the reading of the clock in each round and the error of a context that ends before the next: \<open>None\<close> when the rounds given are not enough.
\<close>

fun Wait :: "(real \<Rightarrow> real) \<Rightarrow> (gotime \<times> go_error option) list \<Rightarrow> TokenBucket \<Rightarrow> (go_error option \<times> TokenBucket) option" where
  "Wait fl [] b = None"
| "Wait fl ((now, ended) # rounds) b =
     (case Allow fl now b of
        (True, b') \<Rightarrow> Some (None, b')
      | (False, b') \<Rightarrow> (case ended of Some e \<Rightarrow> Some (Some e, b') | None \<Rightarrow> Wait fl rounds b'))"

section \<open>The tokens stay within the capacity\<close>

definition bucket_ok :: "(real \<Rightarrow> real) \<Rightarrow> TokenBucket \<Rightarrow> bool" where
  "bucket_ok fl b \<longleftrightarrow> 0 \<le> tk_tokens b \<and> tk_tokens b \<le> tk_capacity b \<and> fl (tk_tokens b) = tk_tokens b \<and> fl (tk_capacity b) = tk_capacity b \<and> 0 < tk_rate b"

lemma New_ok:
  assumes "float64_rounding fl"
  shows "bucket_ok fl (NewTokenBucket fl capacity rate now)"
proof -
  let ?c = "if capacity < 1 then 1 else capacity"
  have "1 \<le> fl (of_int ?c)" using rounding_mono [OF assms, of 1 "of_int ?c"] rounding_1 [OF assms] by simp
  then show ?thesis using assms by (auto simp: bucket_ok_def NewTokenBucket_def Let_def rounding_1)
qed

lemma Sub_nonneg: "u \<le> t \<Longrightarrow> 0 \<le> Sub t u"
  by (simp add: Sub_def)

lemma Seconds_nonneg: "float64_rounding fl \<Longrightarrow> 0 \<le> d \<Longrightarrow> 0 \<le> Seconds fl d"
  by (simp add: Seconds_def rounding_nonneg pos_imp_zdiv_nonneg_iff)

lemma refill_ok:
  assumes "float64_rounding fl" "bucket_ok fl b"
  shows "bucket_ok fl (refill fl now b)" "tk_capacity (refill fl now b) = tk_capacity b" "tk_last (refill fl now b) = max (tk_last b) now"
    "now \<le> tk_last b \<Longrightarrow> refill fl now b = b"
proof -
  have "0 \<le> Seconds fl (Sub now (tk_last b)) * tk_rate b" if "tk_last b < now"
    using Seconds_nonneg [OF assms(1)] Sub_nonneg that assms(2) by (simp add: bucket_ok_def)
  then show "bucket_ok fl (refill fl now b)"
    using assms by (auto simp: refill_def bucket_ok_def Let_def rounding_nonneg)
qed (auto simp: refill_def Let_def)

lemma Allow_cases:
  assumes "float64_rounding fl" "bucket_ok fl b" "tk_capacity b \<le> 2 ^ 53" "Allow fl now b = (allowed, b')"
  shows "bucket_ok fl b'" "tk_capacity b' = tk_capacity b" "tk_last b' = max (tk_last b) now"
    "now \<le> tk_last b \<Longrightarrow> tk_tokens b' = tk_tokens b - (if allowed then 1 else 0)"
proof -
  let ?r = "refill fl now b"
  have ok: "bucket_ok fl ?r" and cap: "tk_capacity ?r = tk_capacity b" using refill_ok [OF assms(1,2)] by simp_all
  have eq: "allowed = (1 \<le> tk_tokens ?r)" "b' = (if allowed then ?r\<lparr>tk_tokens := fl (tk_tokens ?r - 1)\<rparr> else ?r)"
    using assms(4) rounding_1 [OF assms(1)] by (auto simp: Allow_def AllowN_def Let_def)
  have exact: "fl (tk_tokens ?r - 1) = tk_tokens ?r - 1" if "1 \<le> tk_tokens ?r"
    using assms(1,3) ok cap that by (simp add: float64_rounding_def bucket_ok_def)
  show "bucket_ok fl b'" using ok exact eq assms(1) by (auto simp: bucket_ok_def)
  show "tk_capacity b' = tk_capacity b" "tk_last b' = max (tk_last b) now" using eq(2) cap refill_ok(3) [OF assms(1,2)] by simp_all
  show "now \<le> tk_last b \<Longrightarrow> tk_tokens b' = tk_tokens b - (if allowed then 1 else 0)"
    using eq exact refill_ok(4) [OF assms(1,2)] by auto
qed

text \<open>The decisions on a sequence of calls.\<close>

fun allows :: "(real \<Rightarrow> real) \<Rightarrow> gotime list \<Rightarrow> TokenBucket \<Rightarrow> bool list \<times> TokenBucket" where
  "allows fl [] b = ([], b)"
| "allows fl (now # ts) b = (case Allow fl now b of (a, b') \<Rightarrow> case allows fl ts b' of (as, b'') \<Rightarrow> (a # as, b''))"

lemma allows_ok:
  "float64_rounding fl \<Longrightarrow> bucket_ok fl b \<Longrightarrow> tk_capacity b \<le> 2 ^ 53 \<Longrightarrow> allows fl ts b = (as, b') \<Longrightarrow>
   bucket_ok fl b' \<and> tk_capacity b' = tk_capacity b"
proof (induction ts arbitrary: b as)
  case (Cons now ts)
  obtain a b1 where a: "Allow fl now b = (a, b1)" by fastforce
  note al = Allow_cases [OF Cons.prems(1-3) a]
  obtain as1 where "allows fl ts b1 = (as1, b')" using Cons.prems(4) a by (auto split: prod.splits)
  then show ?case using Cons.IH [OF Cons.prems(1) al(1)] al(2) Cons.prems(3) by simp
qed simp

lemma allows_instant:
  "float64_rounding fl \<Longrightarrow> bucket_ok fl b \<Longrightarrow> tk_capacity b \<le> 2 ^ 53 \<Longrightarrow> now \<le> tk_last b \<Longrightarrow> allows fl (replicate n now) b = (as, b') \<Longrightarrow>
   of_nat (length (filter (\<lambda>a. a) as)) + tk_tokens b' = tk_tokens b"
proof (induction n arbitrary: b as)
  case (Suc n)
  obtain a b1 where a: "Allow fl now b = (a, b1)" by fastforce
  note al = Allow_cases [OF Suc.prems(1-3) a]
  obtain as1 where as1: "allows fl (replicate n now) b1 = (as1, b')" "as = a # as1" using Suc.prems(5) a by (auto split: prod.splits)
  have "of_nat (length (filter (\<lambda>a. a) as1)) + tk_tokens b' = tk_tokens b1"
    using Suc.IH [OF Suc.prems(1) al(1) _ _ as1(1)] al(2,3) Suc.prems(3,4) by simp
  then show ?case using al(4) [OF Suc.prems(4)] as1(2) by (cases a) simp_all
qed simp

text \<open>The bucket is refilled once for a reading of the clock: the first call at that reading finds what the others would.\<close>

lemma Allow_refilled:
  assumes "float64_rounding fl" "bucket_ok fl b"
  shows "Allow fl now (refill fl now b) = Allow fl now b"
  using refill_ok(4) [OF assms(1) refill_ok(1) [OF assms], of now now] refill_ok(3) [OF assms, of now] by (simp add: Allow_def AllowN_def)

lemma allows_refilled:
  assumes "float64_rounding fl" "bucket_ok fl b" "0 < n"
  shows "allows fl (replicate n now) (refill fl now b) = allows fl (replicate n now) b"
  using Allow_refilled [OF assms(1,2), of now] assms(3) by (cases n) simp_all

section \<open>Properties\<close>

text \<open>
  C33: The rate limiter never holds more than its capacity, in floating-point arithmetic.  After any calls at any readings of the clock, the number of tokens is between
  zero and the capacity; however many calls then come at one reading of the clock, at most as many as the capacity are allowed; and a call is refused exactly when
  less than one token is there after the refill.
\<close>

theorem token_bucket_bounds:
  assumes "float64_rounding fl" "1 \<le> capacity" "capacity \<le> 2 ^ 53" "allows fl ts (NewTokenBucket fl capacity rate t0) = (as, b)"
    and "allows fl (replicate n now) b = (bs, b')"
  shows "0 \<le> tk_tokens b \<and> tk_tokens b \<le> of_int capacity \<and> int (length (filter (\<lambda>a. a) bs)) \<le> capacity
    \<and> (\<not> fst (Allow fl now b) \<longleftrightarrow> tk_tokens (refill fl now b) < 1)"
proof -
  let ?b0 = "NewTokenBucket fl capacity rate t0" and ?r = "refill fl now b"
  have cap: "tk_capacity ?b0 = of_int capacity" using rounding_int [OF assms(1), of capacity] assms(2,3) by (simp add: NewTokenBucket_def Let_def)
  then have le: "tk_capacity ?b0 \<le> 2 ^ 53" using assms(3) of_int_le_iff [of capacity "2 ^ 53", where 'a = real] by simp
  have b: "bucket_ok fl b" "tk_capacity b = of_int capacity" using allows_ok [OF assms(1) New_ok [OF assms(1)] le assms(4)] cap by simp_all
  have ref: "bucket_ok fl ?r" "tk_capacity ?r = of_int capacity" "now \<le> tk_last ?r" "of_int capacity \<le> (2 ^ 53 :: real)"
    using refill_ok [OF assms(1) b(1), of now] b(2) le cap by simp_all
  have "int (length (filter (\<lambda>a. a) bs)) \<le> capacity"
  proof (cases "n = 0")
    case False
    then have run: "allows fl (replicate n now) ?r = (bs, b')" using allows_refilled [OF assms(1) b(1), of n now] assms(5) by simp
    have "real (length (filter (\<lambda>a. a) bs)) + tk_tokens b' = tk_tokens ?r" by (rule allows_instant [OF assms(1) ref(1) _ ref(3) run]) (use ref in simp)
    moreover have "bucket_ok fl b'" using allows_ok [OF assms(1) ref(1) _ run] ref(2,4) by simp
    ultimately have "real (length (filter (\<lambda>a. a) bs)) \<le> of_int capacity" using ref(1,2) by (simp add: bucket_ok_def)
    then show ?thesis by linarith
  qed (use assms in simp)
  moreover have "\<not> fst (Allow fl now b) \<longleftrightarrow> tk_tokens ?r < 1" using rounding_1 [OF assms(1)] by (auto simp: Allow_def AllowN_def Let_def)
  ultimately show ?thesis using b by (simp add: bucket_ok_def)
qed

text \<open>A burst of two at ten a second, where nothing needs rounding: of three calls at once the last is refused.\<close>

lemma id_rounding: "float64_rounding (\<lambda>x. x)"
  by (simp add: float64_rounding_def mono_def)

theorem token_bucket_bounds_witness:
  "0 \<le> tk_tokens (NewTokenBucket (\<lambda>x. x) 2 10 0) \<and> allows (\<lambda>x. x) (replicate 3 0) (NewTokenBucket (\<lambda>x. x) 2 10 0) = ([True, True, False], \<lparr>tk_capacity = 2, tk_rate = 10, tk_tokens = 0, tk_last = 0\<rparr>)
   \<and> int (length (filter (\<lambda>a. a) [True, True, False])) \<le> 2"
proof -
  have run: "allows (\<lambda>x. x) (replicate 3 0) (NewTokenBucket (\<lambda>x. x) 2 10 0) = ([True, True, False], \<lparr>tk_capacity = 2, tk_rate = 10, tk_tokens = 0, tk_last = 0\<rparr>)"
    by (simp add: NewTokenBucket_def Allow_def AllowN_def refill_def numeral_3_eq_3)
  show ?thesis using token_bucket_bounds [of "\<lambda>x. x" 2 "[]" 10 0 "[]" _ 3 0, OF id_rounding _ _ _ run] run by simp
qed

end
