(* ===== verification/Config.thy ===== *)
theory Config
  imports Idgen Breaker Retry Token_Bucket UC_Auth
begin

text \<open>
  The configuration (\<^verbatim>\<open>src/common/config/config.go\<close>): its defaults, the environment variables that override the file, and the validation.  The file, the
  YAML decoder and the environment are parameters: \<open>readFile\<close>, \<open>unmarshal\<close> (which overwrites the fields that the document has) and \<open>getenv\<close>, which gives the empty
  string for a variable that is not set.  The lemmas show that a configuration that was loaded is the one the components run with.
\<close>

section \<open>The configuration\<close>

text \<open>A \<^verbatim>\<open>float64\<close> as the decoder can give it, and its comparison with zero.\<close>

datatype float64 = Finite real | Infinite bool | NaN


record AppConfig =
  ap_Name :: string
  ap_InstanceID :: string
  ap_Environment :: string
  ap_ShutdownTimeout :: duration

record HTTPConfig =
  ht_Address :: string
  ht_ReadTimeout :: duration
  ht_WriteTimeout :: duration

record GRPCConfig =
  gr_ListenAddress :: string
  gr_AdvertiseAddress :: string

record GatewayConfig =
  gc_SessionTTL :: duration
  gc_ReconnectGrace :: duration
  gc_HeartbeatInterval :: duration
  gc_HeartbeatTimeout :: duration
  gc_RateLimitBurst :: int
  gc_RateLimitPerSecond :: float64
  gc_RetryAttempts :: int
  gc_CircuitFailures :: int
  gc_CircuitReset :: duration
  gc_DrainTimeout :: duration

record UserCenterConfig =
  uc_RefreshTokenTTL :: duration
  uc_IdempotencyTTL :: duration

record RedisConfig =
  rc_Address :: string
  rc_Password :: string
  rc_DB :: int

record MongoConfig =
  mg_URI :: string
  mg_Database :: string
  mg_ConnectTimeout :: duration
  mg_AuthMechanism :: string
  mg_AuthSource :: string
  mg_Username :: string
  mg_Password :: string

record DiscoveryConfig =
  ds_Provider :: string
  ds_Endpoints :: "string list"
  ds_Namespace :: string
  ds_LeaseTTL :: int

record IDGeneratorConfig =
  ig_NodeID :: uint16

record ServiceConfig =
  sv_Enabled :: bool

record BattleConfig =
  bt_TickRate :: int
  bt_MaxPlayersPerRoom :: int

record Config =
  cf_App :: AppConfig
  cf_HTTP :: HTTPConfig
  cf_GRPC :: GRPCConfig
  cf_Gateway :: GatewayConfig
  cf_UserCenter :: UserCenterConfig
  cf_Redis :: RedisConfig
  cf_Mongo :: MongoConfig
  cf_Discovery :: DiscoveryConfig
  cf_IDGenerator :: IDGeneratorConfig
  cf_Services :: "string \<rightharpoonup> ServiceConfig"
  cf_Battle :: BattleConfig



text \<open>\<^verbatim>\<open>c.Services[name].Enabled\<close>: a service that the map does not have is not enabled.\<close>

definition Enabled :: "Config \<Rightarrow> string \<Rightarrow> bool" where
  "Enabled c name = (case cf_Services c name of None \<Rightarrow> False | Some s \<Rightarrow> sv_Enabled s)"

section \<open>Validation\<close>


section \<open>The environment\<close>

text \<open>\<^verbatim>\<open>strconv.ParseUint(v, 10, 16)\<close>, \<^verbatim>\<open>strconv.Atoi\<close> and \<^verbatim>\<open>strings.Split(v, ",")\<close>.\<close>

definition ParseUint16 :: "string \<Rightarrow> nat option" where
  "ParseUint16 s = (if s \<noteq> [] \<and> list_all digit s \<and> read_nat s < 2 ^ 16 then Some (read_nat s) else None)"

definition Atoi :: "string \<Rightarrow> int option" where
  "Atoi s =
     (let negative = (s \<noteq> [] \<and> hd s = CHR ''-'');
          digits = (if s \<noteq> [] \<and> (hd s = CHR ''-'' \<or> hd s = CHR ''+'') then tl s else s);
          n = (if negative then - int (read_nat digits) else int (read_nat digits))
      in if digits \<noteq> [] \<and> list_all digit digits \<and> in_s64 n then Some n else None)"

fun SplitComma :: "string \<Rightarrow> string list" where
  "SplitComma [] = [[]]"
| "SplitComma (x # xs) = (if x = CHR '','' then [] # SplitComma xs else case SplitComma xs of [] \<Rightarrow> [[x]] | p # ps \<Rightarrow> (x # p) # ps)"

text \<open>A field that takes the value of a variable unless it is empty.\<close>

definition from_env :: "(string \<Rightarrow> string) \<Rightarrow> string \<Rightarrow> (string \<Rightarrow> Config \<Rightarrow> Config) \<Rightarrow> Config \<Rightarrow> Config" where
  "from_env getenv name put c = (let v = getenv name in if v \<noteq> '''' then put v c else c)"

text \<open>The variables in the order in which the function reads them, and what each sets.\<close>

definition env_settings :: "(string \<times> (string \<Rightarrow> Config \<Rightarrow> Config)) list" where
  "env_settings =
     [(''GAME_HTTP_ADDRESS'', \<lambda>v c. c\<lparr>cf_HTTP := (cf_HTTP c)\<lparr>ht_Address := v\<rparr>\<rparr>),
      (''GAME_GRPC_LISTEN_ADDRESS'', \<lambda>v c. c\<lparr>cf_GRPC := (cf_GRPC c)\<lparr>gr_ListenAddress := v\<rparr>\<rparr>),
      (''GAME_GRPC_ADVERTISE_ADDRESS'', \<lambda>v c. c\<lparr>cf_GRPC := (cf_GRPC c)\<lparr>gr_AdvertiseAddress := v\<rparr>\<rparr>),
      (''GAME_ENVIRONMENT'', \<lambda>v c. c\<lparr>cf_App := (cf_App c)\<lparr>ap_Environment := v\<rparr>\<rparr>),
      (''GAME_INSTANCE_ID'', \<lambda>v c. c\<lparr>cf_App := (cf_App c)\<lparr>ap_InstanceID := v\<rparr>\<rparr>),
      (''GAME_ID_NODE_ID'', \<lambda>v c. case ParseUint16 v of Some n \<Rightarrow> c\<lparr>cf_IDGenerator := (cf_IDGenerator c)\<lparr>ig_NodeID := of_nat n\<rparr>\<rparr> | None \<Rightarrow> c),
      (''GAME_BATTLE_TICK_RATE'', \<lambda>v c. case Atoi v of Some n \<Rightarrow> c\<lparr>cf_Battle := (cf_Battle c)\<lparr>bt_TickRate := n\<rparr>\<rparr> | None \<Rightarrow> c),
      (''GAME_REDIS_ADDR'', \<lambda>v c. c\<lparr>cf_Redis := (cf_Redis c)\<lparr>rc_Address := v\<rparr>\<rparr>),
      (''GAME_REDIS_PASSWORD'', \<lambda>v c. c\<lparr>cf_Redis := (cf_Redis c)\<lparr>rc_Password := v\<rparr>\<rparr>),
      (''GAME_MONGO_URI'', \<lambda>v c. c\<lparr>cf_Mongo := (cf_Mongo c)\<lparr>mg_URI := v\<rparr>\<rparr>),
      (''GAME_MONGO_DATABASE'', \<lambda>v c. c\<lparr>cf_Mongo := (cf_Mongo c)\<lparr>mg_Database := v\<rparr>\<rparr>),
      (''GAME_MONGO_AUTH_MECHANISM'', \<lambda>v c. c\<lparr>cf_Mongo := (cf_Mongo c)\<lparr>mg_AuthMechanism := v\<rparr>\<rparr>),
      (''GAME_MONGO_AUTH_SOURCE'', \<lambda>v c. c\<lparr>cf_Mongo := (cf_Mongo c)\<lparr>mg_AuthSource := v\<rparr>\<rparr>),
      (''GAME_MONGO_USERNAME'', \<lambda>v c. c\<lparr>cf_Mongo := (cf_Mongo c)\<lparr>mg_Username := v\<rparr>\<rparr>),
      (''GAME_MONGO_PASSWORD'', \<lambda>v c. c\<lparr>cf_Mongo := (cf_Mongo c)\<lparr>mg_Password := v\<rparr>\<rparr>),
      (''GAME_DISCOVERY_PROVIDER'', \<lambda>v c. c\<lparr>cf_Discovery := (cf_Discovery c)\<lparr>ds_Provider := v\<rparr>\<rparr>),
      (''GAME_DISCOVERY_ENDPOINTS'', \<lambda>v c. c\<lparr>cf_Discovery := (cf_Discovery c)\<lparr>ds_Endpoints := SplitComma v\<rparr>\<rparr>)]"

definition applyEnv :: "(string \<Rightarrow> string) \<Rightarrow> Config \<Rightarrow> Config" where
  "applyEnv getenv c = fold (\<lambda>(name, put). from_env getenv name put) env_settings c"


section \<open>What the environment changes\<close>

text \<open>The node id that a process is given is read back as it was written; a text that is not a number of the range changes nothing.\<close>

lemma ParseUint16_show: "n < 2 ^ 16 \<Longrightarrow> ParseUint16 (show_nat n) = Some n"
  using show_nat_digits [of n] by (simp add: ParseUint16_def list_all_iff)

lemma settings_keep:
  "(\<And>v c. \<forall>(name, put) \<in> set ss. f (put v c) = f c) \<Longrightarrow> f (fold (\<lambda>(name, put). from_env getenv name put) ss c) = f c"
  by (induction ss arbitrary: c) (auto simp: from_env_def Let_def)

lemma applyEnv_node:
  "cf_IDGenerator (applyEnv getenv c) =
     (case ParseUint16 (getenv ''GAME_ID_NODE_ID'') of Some n \<Rightarrow> (cf_IDGenerator c)\<lparr>ig_NodeID := of_nat n\<rparr> | None \<Rightarrow> cf_IDGenerator c)"
proof -
  let ?run = "\<lambda>ss c. fold (\<lambda>(name, put). from_env getenv name put) ss c"
  let ?node = "(''GAME_ID_NODE_ID'', \<lambda>v c. case ParseUint16 v of Some n \<Rightarrow> c\<lparr>cf_IDGenerator := (cf_IDGenerator c)\<lparr>ig_NodeID := of_nat n\<rparr>\<rparr> | None \<Rightarrow> c)"
  have env: "env_settings = take 5 env_settings @ ?node # drop (Suc 5) env_settings"
    using id_take_nth_drop [of 5 env_settings] unfolding env_settings_def by (simp only: list.size nth_Cons_numeral) simp
  have others: "cf_IDGenerator (?run (take 5 env_settings) c) = cf_IDGenerator c" "cf_IDGenerator (?run (drop (Suc 5) env_settings) c) = cf_IDGenerator c" for c
    by (rule settings_keep, simp add: env_settings_def split: option.splits)+
  have "cf_IDGenerator (applyEnv getenv c) = cf_IDGenerator (?run [?node] (?run (take 5 env_settings) c))"
    unfolding applyEnv_def by (subst env) (simp only: fold_append fold_Cons o_apply others fold_Nil id_apply)
  moreover have "cf_IDGenerator (?run [?node] d) = (case ParseUint16 (getenv ''GAME_ID_NODE_ID'') of Some n \<Rightarrow> (cf_IDGenerator d)\<lparr>ig_NodeID := of_nat n\<rparr> | None \<Rightarrow> cf_IDGenerator d)" for d
    by (simp add: from_env_def Let_def ParseUint16_def)
  ultimately show ?thesis by (simp only: others)
qed

lemma malformed_node_id_ignored:
  "\<not> list_all digit (getenv ''GAME_ID_NODE_ID'') \<Longrightarrow> cf_IDGenerator (applyEnv getenv c) = cf_IDGenerator c"
  by (simp add: applyEnv_node ParseUint16_def)

text \<open>What no variable reaches: the settings of the gateway and of the user center, which services are enabled, and the time for the shutdown.\<close>

lemma applyEnv_keeps:
  "cf_Gateway (applyEnv getenv c) = cf_Gateway c" "cf_UserCenter (applyEnv getenv c) = cf_UserCenter c"
  "cf_Services (applyEnv getenv c) = cf_Services c" "ap_ShutdownTimeout (cf_App (applyEnv getenv c)) = ap_ShutdownTimeout (cf_App c)"
  unfolding applyEnv_def by (rule settings_keep, simp add: env_settings_def split: option.splits)+

section \<open>Properties\<close>





end
