(* ===== verification/Discovery.thy ===== *)
theory Discovery
  imports Stream_Manager
begin

text \<open>
  The registry of services in the process itself (\<^verbatim>\<open>src/common/discovery/registry.go\<close>, \<^verbatim>\<open>src/common/discovery/static/registry.go\<close>).  The lock makes each operation
  one step.  A channel is a buffer of 16 events with a flag; a send on a closed channel panics, which is the result \<open>None\<close>.  The goroutine that \<open>Watch\<close> starts is the
  step \<open>unwatch\<close>, and receiving from a channel is the step \<open>receive\<close>.  The lemmas show that nothing panics, what a watcher is told, and what it is not told.
\<close>

section \<open>State and operations\<close>

datatype EventType = EventPut | EventDelete

record Event =
  ev_Type :: EventType
  ev_Registration :: Registration

record chan =
  ch_service :: string
  ch_buffer :: "Event list"
  ch_open :: bool

record Registry =
  sr_items :: "string \<rightharpoonup> Registration"
  sr_watches :: "string \<Rightarrow> nat list"
  sr_chans :: "nat \<rightharpoonup> chan"

definition registry_key :: "string \<Rightarrow> string \<Rightarrow> string" where
  "registry_key service instance = service @ ''/'' @ instance"

definition item_key :: "Registration \<Rightarrow> string" where
  "item_key item = registry_key (rg_Service item) (rg_Instance item)"

definition Registry_New :: "Registration list \<Rightarrow> Registry" where
  "Registry_New items = \<lparr>sr_items = fold (\<lambda>item m. m(item_key item \<mapsto> item)) items Map.empty, sr_watches = (\<lambda>_. []), sr_chans = Map.empty\<rparr>"

fun publish_loop :: "Event \<Rightarrow> nat list \<Rightarrow> (nat \<rightharpoonup> chan) \<Rightarrow> (nat \<rightharpoonup> chan) option" where
  "publish_loop event [] cs = Some cs"
| "publish_loop event (a # as) cs =
     (case cs a of
        None \<Rightarrow> None
      | Some ch \<Rightarrow>
          if \<not> ch_open ch then None
          else publish_loop event as
            (if length (ch_buffer ch) < 16 then cs(a \<mapsto> ch\<lparr>ch_buffer := ch_buffer ch @ [event]\<rparr>) else cs))"

definition publishLocked :: "string \<Rightarrow> Event \<Rightarrow> Registry \<Rightarrow> Registry option" where
  "publishLocked service event r = map_option (\<lambda>cs. r\<lparr>sr_chans := cs\<rparr>) (publish_loop event (sr_watches r service) (sr_chans r))"

definition Register :: "Registration \<Rightarrow> Registry \<Rightarrow> Registry option" where
  "Register item r =
     publishLocked (rg_Service item) \<lparr>ev_Type = EventPut, ev_Registration = item\<rparr> (r\<lparr>sr_items := (sr_items r)(item_key item \<mapsto> item)\<rparr>)"

text \<open>The function that \<open>Register\<close> returns.\<close>

definition CloseRegistration :: "Registration \<Rightarrow> Registry \<Rightarrow> Registry option" where
  "CloseRegistration item r =
     publishLocked (rg_Service item) \<lparr>ev_Type = EventDelete, ev_Registration = item\<rparr> (r\<lparr>sr_items := (sr_items r)(item_key item := None)\<rparr>)"

definition Discover :: "((string \<rightharpoonup> Registration) \<Rightarrow> string list) \<Rightarrow> string \<Rightarrow> Registry \<Rightarrow> Registration list" where
  "Discover it service r = filter (\<lambda>item. rg_Service item = service) (map (\<lambda>k. the (sr_items r k)) (it (sr_items r)))"

text \<open>\<open>a\<close> is the channel that is made.\<close>

definition Watch :: "nat \<Rightarrow> string \<Rightarrow> Registry \<Rightarrow> Registry" where
  "Watch a service r =
     r\<lparr>sr_watches := (sr_watches r)(service := sr_watches r service @ [a]),
       sr_chans := (sr_chans r)(a \<mapsto> \<lparr>ch_service = service, ch_buffer = [], ch_open = True\<rparr>)\<rparr>"

definition unwatch :: "nat \<Rightarrow> string \<Rightarrow> chan \<Rightarrow> Registry \<Rightarrow> Registry" where
  "unwatch a service ch r =
     r\<lparr>sr_watches := (sr_watches r)(service := remove1 a (sr_watches r service)),
       sr_chans := (sr_chans r)(a \<mapsto> ch\<lparr>ch_open := False\<rparr>)\<rparr>"

inductive registry_step :: "Registry \<Rightarrow> Registry \<Rightarrow> bool" where
  registers: "Register item r = Some r' \<Longrightarrow> registry_step r r'"
| unregisters: "CloseRegistration item r = Some r' \<Longrightarrow> registry_step r r'"
| watches: "sr_chans r a = None \<Longrightarrow> registry_step r (Watch a service r)"
| watch_ends: "sr_chans r a = Some ch \<Longrightarrow> ch_open ch \<Longrightarrow> registry_step r (unwatch a (ch_service ch) ch r)"
| receives: "sr_chans r a = Some ch \<Longrightarrow> ch_buffer ch = e # es \<Longrightarrow> registry_step r (r\<lparr>sr_chans := (sr_chans r)(a \<mapsto> ch\<lparr>ch_buffer := es\<rparr>)\<rparr>)"

section \<open>The invariant\<close>

definition items_ok :: "(string \<rightharpoonup> Registration) \<Rightarrow> bool" where
  "items_ok m \<longleftrightarrow> finite (dom m) \<and> (\<forall>k item. m k = Some item \<longrightarrow> k = item_key item)"

definition watches_ok :: "(string \<Rightarrow> nat list) \<Rightarrow> (nat \<rightharpoonup> chan) \<Rightarrow> bool" where
  "watches_ok ws cs \<longleftrightarrow> (\<forall>s. distinct (ws s)) \<and> (\<forall>s a. a \<in> set (ws s) \<longleftrightarrow> (\<exists>ch. cs a = Some ch \<and> ch_open ch \<and> ch_service ch = s))
     \<and> (\<forall>a ch. cs a = Some ch \<longrightarrow> length (ch_buffer ch) \<le> 16)"

definition registry_ok :: "Registry \<Rightarrow> bool" where
  "registry_ok r \<longleftrightarrow> items_ok (sr_items r) \<and> watches_ok (sr_watches r) (sr_chans r)"

lemma items_put: "items_ok m \<Longrightarrow> items_ok (m(item_key item \<mapsto> item))"
  by (auto simp: items_ok_def)

lemma items_delete: "items_ok m \<Longrightarrow> items_ok (m(k := None))"
  by (auto simp: items_ok_def)

text \<open>What is in a channel after the loop: the event at the end of the buffer of each listed channel that had room.\<close>

definition told :: "Event \<Rightarrow> nat list \<Rightarrow> (nat \<rightharpoonup> chan) \<Rightarrow> (nat \<rightharpoonup> chan)" where
  "told event as cs = (\<lambda>a. case cs a of None \<Rightarrow> None
     | Some ch \<Rightarrow> Some (if a \<in> set as \<and> length (ch_buffer ch) < 16 then ch\<lparr>ch_buffer := ch_buffer ch @ [event]\<rparr> else ch))"

lemma publish_loop_told:
  "distinct as \<Longrightarrow> (\<And>a. a \<in> set as \<Longrightarrow> \<exists>ch. cs a = Some ch \<and> ch_open ch) \<Longrightarrow> publish_loop event as cs = Some (told event as cs)"
proof (induction as arbitrary: cs)
  case (Cons a as)
  obtain ch where ch: "cs a = Some ch" "ch_open ch" using Cons.prems(2) [of a] by auto
  let ?cs = "if length (ch_buffer ch) < 16 then cs(a \<mapsto> ch\<lparr>ch_buffer := ch_buffer ch @ [event]\<rparr>) else cs"
  have "publish_loop event as ?cs = Some (told event as ?cs)" by (rule Cons.IH) (use Cons.prems in auto)
  moreover have "told event as ?cs = told event (a # as) cs" using Cons.prems(1) ch by (auto simp: told_def fun_eq_iff split: option.splits)
  ultimately show ?case using ch by simp
qed (auto simp: told_def fun_eq_iff split: option.splits)

lemma publishLocked_told:
  "watches_ok (sr_watches r) (sr_chans r) \<Longrightarrow> publishLocked service event r = Some (r\<lparr>sr_chans := told event (sr_watches r service) (sr_chans r)\<rparr>)"
  using publish_loop_told [of "sr_watches r service" "sr_chans r" event] by (auto simp: publishLocked_def watches_ok_def)

lemma told_ok: "watches_ok ws cs \<Longrightarrow> watches_ok ws (told event as cs)"
  unfolding watches_ok_def told_def by (auto split: option.splits if_splits)

definition registered :: "Registration \<Rightarrow> Registry \<Rightarrow> Registry" where
  "registered item r = r\<lparr>sr_items := (sr_items r)(item_key item \<mapsto> item),
     sr_chans := told \<lparr>ev_Type = EventPut, ev_Registration = item\<rparr> (sr_watches r (rg_Service item)) (sr_chans r)\<rparr>"

definition unregistered :: "Registration \<Rightarrow> Registry \<Rightarrow> Registry" where
  "unregistered item r = r\<lparr>sr_items := (sr_items r)(item_key item := None),
     sr_chans := told \<lparr>ev_Type = EventDelete, ev_Registration = item\<rparr> (sr_watches r (rg_Service item)) (sr_chans r)\<rparr>"

lemma Register_ok:
  assumes "registry_ok r"
  shows "Register item r = Some (registered item r)" "registry_ok (registered item r)"
  using assms publishLocked_told [of "r\<lparr>sr_items := (sr_items r)(item_key item \<mapsto> item)\<rparr>"] told_ok items_put
  by (simp_all add: Register_def registry_ok_def registered_def)

lemma CloseRegistration_ok:
  assumes "registry_ok r"
  shows "CloseRegistration item r = Some (unregistered item r)" "registry_ok (unregistered item r)"
  using assms publishLocked_told [of "r\<lparr>sr_items := (sr_items r)(item_key item := None)\<rparr>"] told_ok items_delete
  by (simp_all add: CloseRegistration_def registry_ok_def unregistered_def)

lemma New_items_ok: "items_ok m \<Longrightarrow> items_ok (fold (\<lambda>item m. m(item_key item \<mapsto> item)) items m)"
  by (induction items arbitrary: m) (simp_all add: items_put)

lemma Registry_New_ok: "registry_ok (Registry_New items)"
  using New_items_ok [of Map.empty] by (simp add: registry_ok_def Registry_New_def watches_ok_def items_ok_def)

lemma Watch_ok: "sr_chans r a = None \<Longrightarrow> watches_ok (sr_watches r) (sr_chans r) \<Longrightarrow> watches_ok (sr_watches (Watch a s r)) (sr_chans (Watch a s r))"
  unfolding watches_ok_def Watch_def by auto

lemma unwatch_ok:
  "sr_chans r a = Some ch \<Longrightarrow> ch_open ch \<Longrightarrow> watches_ok (sr_watches r) (sr_chans r) \<Longrightarrow>
   watches_ok (sr_watches (unwatch a (ch_service ch) ch r)) (sr_chans (unwatch a (ch_service ch) ch r))"
  unfolding watches_ok_def unwatch_def by auto

lemma registry_step_ok: "registry_step r r' \<Longrightarrow> registry_ok r \<Longrightarrow> registry_ok r'"
proof (induction rule: registry_step.induct)
  case (registers item r r')
  then show ?case using Register_ok [of r item] by simp
next
  case (unregisters item r r')
  then show ?case using CloseRegistration_ok [of r item] by simp
next
  case (watches r a service)
  then show ?case using Watch_ok [of r a service] by (simp add: registry_ok_def Watch_def)
next
  case (watch_ends r a ch)
  then show ?case using unwatch_ok [of r a ch] by (simp add: registry_ok_def unwatch_def)
next
  case (receives r a ch e es)
  then have "length (e # es) \<le> 16" unfolding registry_ok_def watches_ok_def by metis
  then show ?case using receives unfolding registry_ok_def watches_ok_def by auto
qed

lemma registry_run_ok: "registry_step\<^sup>*\<^sup>* r r' \<Longrightarrow> registry_ok r \<Longrightarrow> registry_ok r'"
  by (induction rule: rtranclp_induct) (auto intro: registry_step_ok)

lemma Discover_set:
  assumes "registry_ok r" "range_ok it"
  shows "set (Discover it service r) = {item. rg_Service item = service \<and> sr_items r (item_key item) = Some item}" "distinct (Discover it service r)"
proof -
  have it: "iterates (sr_items r) (it (sr_items r))" and keys: "\<And>k item. sr_items r k = Some item \<Longrightarrow> k = item_key item"
    using assms by (auto simp: registry_ok_def items_ok_def range_ok_iterates)
  show "set (Discover it service r) = {item. rg_Service item = service \<and> sr_items r (item_key item) = Some item}"
  proof (intro set_eqI iffI)
    fix x
    assume "x \<in> set (Discover it service r)"
    then obtain k where k: "sr_items r k = Some x" "rg_Service x = service" using iterates_set [OF it] by (auto simp: Discover_def)
    show "x \<in> {item. rg_Service item = service \<and> sr_items r (item_key item) = Some item}" using k keys [OF k(1)] by simp
  next
    fix x
    assume x: "x \<in> {item. rg_Service item = service \<and> sr_items r (item_key item) = Some item}"
    then have "item_key x \<in> set (it (sr_items r))" using iterates_set [OF it] by auto
    with x show "x \<in> set (Discover it service r)" by (force simp: Discover_def)
  qed
  have "inj_on (\<lambda>k. the (sr_items r k)) (dom (sr_items r))"
  proof (rule inj_onI)
    fix k l
    assume "k \<in> dom (sr_items r)" "l \<in> dom (sr_items r)" "the (sr_items r k) = the (sr_items r l)"
    then obtain x where x: "sr_items r k = Some x" "sr_items r l = Some x" by auto
    show "k = l" using keys [OF x(1)] keys [OF x(2)] by simp
  qed
  then show "distinct (Discover it service r)"
    using iterates_set [OF it] iterates_distinct [OF it] by (simp add: Discover_def distinct_map)
qed

section \<open>Properties\<close>

text \<open>
  C34: The in-process registry never panics and tells every watcher that has room.  In every state that registrations, their closing, watches, the end of watches and
  receiving lead to, no send meets a closed channel; \<open>Discover\<close> gives every registration of the service exactly once; and a registration is appended to the
  channel of each watcher of its service with fewer than 16 unread events, and to no other channel.
\<close>

theorem registry_delivers:
  assumes "registry_step\<^sup>*\<^sup>* (Registry_New items) r" "range_ok it"
  shows "CloseRegistration item r \<noteq> None
    \<and> distinct (Discover it service r) \<and> set (Discover it service r) = {x. rg_Service x = service \<and> sr_items r (item_key x) = Some x}
    \<and> (\<exists>r'. Register item r = Some r' \<and> item \<in> set (Discover it (rg_Service item) r')
         \<and> (\<forall>a. sr_chans r' a = (case sr_chans r a of None \<Rightarrow> None
              | Some ch \<Rightarrow> Some (if ch_open ch \<and> ch_service ch = rg_Service item \<and> length (ch_buffer ch) < 16
                  then ch\<lparr>ch_buffer := ch_buffer ch @ [\<lparr>ev_Type = EventPut, ev_Registration = item\<rparr>]\<rparr> else ch))))"
proof -
  have ok: "registry_ok r" using registry_run_ok [OF assms(1) Registry_New_ok] .
  note reg = Register_ok [OF ok, of item]
  have "item \<in> set (Discover it (rg_Service item) (registered item r))"
    using Discover_set(1) [OF reg(2) assms(2), of "rg_Service item"] by (simp add: registered_def)
  moreover have "sr_chans (registered item r) a = (case sr_chans r a of None \<Rightarrow> None
              | Some ch \<Rightarrow> Some (if ch_open ch \<and> ch_service ch = rg_Service item \<and> length (ch_buffer ch) < 16
                  then ch\<lparr>ch_buffer := ch_buffer ch @ [\<lparr>ev_Type = EventPut, ev_Registration = item\<rparr>]\<rparr> else ch))" for a
  proof -
    have "a \<in> set (sr_watches r (rg_Service item)) \<longleftrightarrow> (\<exists>ch. sr_chans r a = Some ch \<and> ch_open ch \<and> ch_service ch = rg_Service item)"
      using ok by (simp add: registry_ok_def watches_ok_def)
    then show ?thesis by (cases "sr_chans r a") (auto simp: registered_def told_def)
  qed
  ultimately show ?thesis using CloseRegistration_ok(1) [OF ok, of item] reg(1) Discover_set [OF ok assms(2), of service] by simp
qed

definition demo_item :: Registration where
  "demo_item = \<lparr>rg_Service = ''lobby'', rg_Instance = ''n1'', rg_Address = ''10.0.0.1:9090'', rg_Version = [], rg_Weight = 0, rg_Zone = []\<rparr>"

theorem registry_delivers_witness:
  "\<exists>r'. Register demo_item (Watch 0 ''lobby'' (Registry_New [])) = Some r'
     \<and> sr_chans r' 0 = Some \<lparr>ch_service = ''lobby'', ch_buffer = [\<lparr>ev_Type = EventPut, ev_Registration = demo_item\<rparr>], ch_open = True\<rparr>"
proof -
  have run: "registry_step\<^sup>*\<^sup>* (Registry_New []) (Watch 0 ''lobby'' (Registry_New []))"
    by (rule r_into_rtranclp, rule registry_step.watches) (simp add: Registry_New_def)
  define w where "w = Watch 0 ''lobby'' (Registry_New [])"
  have w: "sr_chans w 0 = Some \<lparr>ch_service = ''lobby'', ch_buffer = [], ch_open = True\<rparr>" by (simp add: w_def Watch_def)
  obtain r' where r': "Register demo_item w = Some r'"
      "\<forall>a. sr_chans r' a = (case sr_chans w a of None \<Rightarrow> None
              | Some ch \<Rightarrow> Some (if ch_open ch \<and> ch_service ch = rg_Service demo_item \<and> length (ch_buffer ch) < 16
                  then ch\<lparr>ch_buffer := ch_buffer ch @ [\<lparr>ev_Type = EventPut, ev_Registration = demo_item\<rparr>]\<rparr> else ch))"
    using registry_delivers [OF run range_ok_sorted_keys, of demo_item] unfolding w_def by blast
  have "rg_Service demo_item = ''lobby''" by (simp add: demo_item_def)
  with r'(1) spec [OF r'(2), of 0] w show ?thesis unfolding w_def [symmetric] by simp
qed

text \<open>
  An instance that registers between the \<open>Discover\<close> and the \<open>Watch\<close> of a client manager escapes it.  \<open>watch\<close> of the manager lists the registrations
  first and subscribes after; what is registered in between is in neither, although it is in the registry.
\<close>

theorem registration_missed:
  assumes "registry_step\<^sup>*\<^sup>* (Registry_New items) r" "range_ok it" "sr_items r (item_key item) \<noteq> Some item" "sr_chans r a = None"
    and "listed = Discover it (rg_Service item) r" "Register item r = Some r1" "r2 = Watch a (rg_Service item) r1"
  shows "item \<notin> set listed \<and> map_option ch_buffer (sr_chans r2 a) = Some [] \<and> item \<in> set (Discover it (rg_Service item) r2)"
proof -
  have ok: "registry_ok r" using registry_run_ok [OF assms(1) Registry_New_ok] .
  have r1: "r1 = registered item r" using Register_ok(1) [OF ok] assms(6) by simp
  have "sr_chans r1 a = None" using assms(4) r1 by (simp add: registered_def told_def)
  then have ok2: "registry_ok r2" using registry_step_ok [OF registry_step.watches] Register_ok(2) [OF ok, of item] r1 assms(7) by blast
  have "item \<notin> set listed" unfolding assms(5) Discover_set(1) [OF ok assms(2)] using assms(3) by simp
  moreover have "map_option ch_buffer (sr_chans r2 a) = Some []" unfolding assms(7) by (simp add: Watch_def)
  moreover have "item \<in> set (Discover it (rg_Service item) r2)"
    by (subst Discover_set(1) [OF ok2 assms(2)]) (simp add: assms(7) r1 Watch_def registered_def)
  ultimately show ?thesis by simp
qed

theorem registration_missed_witness:
  "demo_item \<notin> set (Discover sorted_keys ''lobby'' (Registry_New []))
   \<and> map_option ch_buffer (sr_chans (Watch 0 ''lobby'' (the (Register demo_item (Registry_New [])))) 0) = Some []
   \<and> demo_item \<in> set (Discover sorted_keys ''lobby'' (Watch 0 ''lobby'' (the (Register demo_item (Registry_New [])))))"
proof -
  have reg: "Register demo_item (Registry_New []) = Some (the (Register demo_item (Registry_New [])))" using Register_ok(1) [OF Registry_New_ok] by simp
  have new: "sr_items (Registry_New []) (item_key demo_item) \<noteq> Some demo_item" "sr_chans (Registry_New []) 0 = None" by (simp_all add: Registry_New_def)
  have "rg_Service demo_item = ''lobby''" by (simp add: demo_item_def)
  with registration_missed [OF rtranclp.rtrancl_refl range_ok_sorted_keys new refl reg refl] show ?thesis by (simp only: simp_thms)
qed

text \<open>The function that an earlier registration of an instance returned removes the later one: the key is the same.\<close>

lemma stale_close_unregisters:
  assumes "registry_ok r" "item_key old = item_key item" "Register item r = Some r1" "CloseRegistration old r1 = Some r2"
  shows "sr_items r2 (item_key item) = None"
proof -
  have "registry_ok r1" using Register_ok [OF assms(1), of item] assms(3) by simp
  then have "r2 = unregistered old r1" using CloseRegistration_ok(1) [of r1 old] assms(4) by simp
  then show ?thesis using assms(2) by (simp add: unregistered_def)
qed

end
