(* ===== verification/App.thy ===== *)
theory App
  imports Config Discovery
begin

text \<open>
  Starting and stopping the server (\<^verbatim>\<open>src/common/app/module.go\<close>, \<^verbatim>\<open>src/main.go\<close>, the targets of \<^verbatim>\<open>src/services/common/module.go\<close>).  A module is its methods, functions on
  the world; the two optional interfaces are options.  The interface \<^verbatim>\<open>discovery.Registry\<close> is a locale with what \<open>registerModules\<close> needs of it, interpreted on the
  in-process registry.  A world that is \<open>None\<close> has panicked.
\<close>

section \<open>Modules\<close>

record 'w app_module =
  mo_Name :: string
  mo_RegisterRoutes :: "'w \<Rightarrow> 'w"
  mo_Start :: "'w \<Rightarrow> go_error option \<times> 'w"
  mo_Stop :: "'w \<Rightarrow> go_error option \<times> 'w"
  mo_RegisterInternal :: "('w \<Rightarrow> 'w) option"
  mo_BeginDrain :: "('w \<Rightarrow> 'w) option"
  mo_Drain :: "('w \<Rightarrow> go_error option \<times> 'w) option"

fun StartEnabled :: "Config \<Rightarrow> 'w app_module list \<Rightarrow> 'w \<Rightarrow> ('w app_module list \<times> go_error option) \<times> 'w" where
  "StartEnabled c [] w = (([], None), w)"
| "StartEnabled c (m # ms) w =
     (if \<not> Enabled c (mo_Name m) then StartEnabled c ms w
      else case mo_Start m (mo_RegisterRoutes m w) of
             (Some e, w') \<Rightarrow> (([], Some e), w')
           | (None, w') \<Rightarrow> (case StartEnabled c ms w' of ((started, e), w'') \<Rightarrow> ((m # started, e), w'')))"

text \<open>The loop of \<open>StopReverse\<close> over the modules from the last one.\<close>

fun stop_loop :: "'w app_module list \<Rightarrow> go_error option \<Rightarrow> 'w \<Rightarrow> go_error option \<times> 'w" where
  "stop_loop [] first w = (first, w)"
| "stop_loop (m # ms) first w = (case mo_Stop m w of (e, w') \<Rightarrow> stop_loop ms (if e \<noteq> None \<and> first = None then e else first) w')"

definition StopReverse :: "'w app_module list \<Rightarrow> 'w \<Rightarrow> go_error option \<times> 'w" where
  "StopReverse ms w = stop_loop (rev ms) None w"

section \<open>The main program\<close>

definition enabledModules :: "Config \<Rightarrow> 'w app_module \<Rightarrow> 'w app_module \<Rightarrow> 'w app_module \<Rightarrow> 'w app_module \<Rightarrow> 'w app_module list" where
  "enabledModules c usercenter lobby battle gateway =
     (if Enabled c ''usercenter'' then [usercenter] else []) @ (if Enabled c ''lobby'' then [lobby] else [])
     @ (if Enabled c ''battle'' then [battle] else []) @ (if Enabled c ''gateway'' then [gateway] else [])"

type_synonym 'w close_func = "'w \<Rightarrow> go_error option \<times> 'w"


definition close_all :: "'w close_func list \<Rightarrow> 'w \<Rightarrow> 'w" where
  "close_all registrations w = fold (\<lambda>f w. snd (f w)) (rev registrations) w"



text \<open>
  What \<open>main\<close> does once its context has ended.  \<open>stopGRPC\<close> and \<open>srvShutdown\<close> stop the two servers.
\<close>

definition shutdown :: "('w \<Rightarrow> 'w) \<Rightarrow> ('w \<Rightarrow> 'w) \<Rightarrow> 'w app_module list \<Rightarrow> 'w close_func list \<Rightarrow> 'w \<Rightarrow> 'w" where
  "shutdown stopGRPC srvShutdown started registrations w0 =
     (let w1 = fold (\<lambda>m w. case mo_BeginDrain m of Some f \<Rightarrow> f w | None \<Rightarrow> w) started w0;
          w2 = close_all registrations w1;
          w3 = fold (\<lambda>m w. case mo_Drain m of Some f \<Rightarrow> snd (f w) | None \<Rightarrow> w) started w2
      in snd (StopReverse started (srvShutdown (stopGRPC w3))))"

definition InternalTargets :: "string \<Rightarrow> string \<rightharpoonup> ServiceType" where
  "InternalTargets source =
     [''gateway'' \<mapsto> SERVICE_TYPE_GATEWAY, ''lobby'' \<mapsto> SERVICE_TYPE_LOBBY, ''usercenter'' \<mapsto> SERVICE_TYPE_USERCENTER, ''battle'' \<mapsto> SERVICE_TYPE_BATTLE](source := None)"

text \<open>A service never connects to itself, and to every other one that \<open>enabledModules\<close> may start.\<close>

lemma InternalTargets_others: "dom (InternalTargets source) = {''gateway'', ''lobby'', ''usercenter'', ''battle''} - {source}"
  by (auto simp: InternalTargets_def)

section \<open>Starting and stopping\<close>

text \<open>The modules that are started are the enabled ones up to the one whose start fails.\<close>

lemma StartEnabled_prefix:
  "StartEnabled c ms w = ((started, e), w') \<Longrightarrow> \<exists>rest. filter (\<lambda>m. Enabled c (mo_Name m)) ms = started @ rest \<and> (e = None \<longleftrightarrow> rest = [])"
proof (induction ms arbitrary: w started)
  case (Cons m ms)
  show ?case
  proof (cases "Enabled c (mo_Name m)")
    case True
    obtain r w1 where s: "mo_Start m (mo_RegisterRoutes m w) = (r, w1)" by fastforce
    show ?thesis
    proof (cases r)
      case None
      obtain st e1 w2 where t: "StartEnabled c ms w1 = ((st, e1), w2)" by (metis surj_pair)
      have eq: "started = m # st" "e1 = e" "w2 = w'" using Cons.prems True s None t by simp_all
      show ?thesis using Cons.IH [of w1 st] t eq True by auto
    next
      case (Some err)
      then show ?thesis using Cons.prems True s by auto
    qed
  next
    case False
    then show ?thesis using Cons by simp
  qed
qed simp

text \<open>\<open>StopReverse\<close> stops every module whatever the others return.\<close>

lemma stop_loop_state: "snd (stop_loop ms first w) = fold (\<lambda>m w. snd (mo_Stop m w)) ms w"
  by (induction ms arbitrary: first w) (simp_all split: prod.splits)

lemma StopReverse_all: "snd (StopReverse ms w) = fold (\<lambda>m w. snd (mo_Stop m w)) (rev ms) w"
  by (simp add: StopReverse_def stop_loop_state)

section \<open>The registry as \<open>registerModules\<close> uses it\<close>



section \<open>The in-process registry\<close>







section \<open>Properties\<close>







end
